(* ===== verification/Prelude.thy ===== *)
theory Prelude
  imports Main "HOL-Library.AList" "HOL-Library.Code_Target_Nat"
begin

text \<open>
  Shared vocabulary of the development: results of Python code that may raise, the two
  sequencing combinators every translated function is written with, the string predicates
  that stand for the regular expressions of the sources, and the facts about them that the
  component theories reuse.

  A Python \<open>str\<close> is represented by its UTF-8 bytes (a HOL \<open>string\<close>), so \<open>.encode()\<close> is
  the identity and \<open>len\<close> counts code points (\<open>py_len\<close>). A Python \<open>bytes\<close> object is a HOL
  \<open>string\<close> too, one character per byte.
\<close>

section \<open>Results\<close>

text \<open>
  An exception is its class name and its message. The sources raise with stable message
  codes; exceptions of the interpreter itself carry the class name only.
\<close>

datatype exn = Raised (exn_class: string) (exn_code: string)

type_synonym 'a result = "exn + 'a"

abbreviation type_error :: "'a result" where
  "type_error \<equiv> Inl (Raised ''TypeError'' [])"

abbreviation key_error :: "'a result" where
  "key_error \<equiv> Inl (Raised ''KeyError'' [])"

abbreviation attribute_error :: "'a result" where
  "attribute_error \<equiv> Inl (Raised ''AttributeError'' [])"

abbreviation os_error :: "'a result" where
  "os_error \<equiv> Inl (Raised ''OSError'' [])"

named_theorems result_simps \<open>inversion of the result combinators\<close>

text \<open>\<open>ensure c e k\<close>: raise \<open>e\<close> unless \<open>c\<close>, then go on with \<open>k\<close>.\<close>

definition ensure :: "bool \<Rightarrow> 'e \<Rightarrow> 'e + 'a \<Rightarrow> 'e + 'a" where
  "ensure c e k = (if c then k else Inl e)"

text \<open>\<open>andThen m f\<close>: run \<open>m\<close>; an exception ends the computation.\<close>

definition andThen :: "'e + 'a \<Rightarrow> ('a \<Rightarrow> 'e + 'b) \<Rightarrow> 'e + 'b" where
  "andThen m f = (case m of Inl e \<Rightarrow> Inl e | Inr x \<Rightarrow> f x)"

text \<open>\<open>except_as m e\<close>: any exception of \<open>m\<close> is replaced by \<open>e\<close> (\<open>except ...: raise e\<close>).\<close>

definition except_as :: "'e + 'a \<Rightarrow> 'f \<Rightarrow> 'f + 'a" where
  "except_as m e = (case m of Inl _ \<Rightarrow> Inl e | Inr x \<Rightarrow> Inr x)"

text \<open>\<open>with_error f m\<close>: the exception of \<open>m\<close> together with what \<open>f\<close> adds to it.\<close>

definition with_error :: "('e \<Rightarrow> 'f) \<Rightarrow> 'e + 'a \<Rightarrow> 'f + 'a" where
  "with_error f m = (case m of Inl e \<Rightarrow> Inl (f e) | Inr x \<Rightarrow> Inr x)"

definition succeeds :: "'e + 'a \<Rightarrow> bool" where
  "succeeds m = (case m of Inl _ \<Rightarrow> False | Inr _ \<Rightarrow> True)"

lemma ensure_simps [simp]:
  "ensure True e k = k"
  "ensure False e k = Inl e"
  by (simp_all add: ensure_def)

lemma ensure_cong [cong, fundef_cong]:
  "c = c' \<Longrightarrow> e = e' \<Longrightarrow> (c' \<Longrightarrow> k = k') \<Longrightarrow> ensure c e k = ensure c' e' k'"
  by (simp add: ensure_def)

lemma ensure_eq_Inr [simp, result_simps]: "ensure c e k = Inr v \<longleftrightarrow> c \<and> k = Inr v"
  by (simp add: ensure_def)

lemma ensure_eq_Inl [result_simps]: "ensure c e k = Inl x \<longleftrightarrow> (\<not> c \<and> e = x) \<or> (c \<and> k = Inl x)"
  by (simp add: ensure_def)

lemma andThen_simps [simp]:
  "andThen (Inl e) f = Inl e"
  "andThen (Inr x) f = f x"
  by (simp_all add: andThen_def)

lemma andThen_cong [cong, fundef_cong]:
  "m = m' \<Longrightarrow> (\<And>x. m' = Inr x \<Longrightarrow> f x = g x) \<Longrightarrow> andThen m f = andThen m' g"
  by (simp add: andThen_def split: sum.splits)

lemma andThen_eq_Inr [simp, result_simps]:
  "andThen m f = Inr v \<longleftrightarrow> (\<exists>x. m = Inr x \<and> f x = Inr v)"
  by (simp add: andThen_def split: sum.splits)

lemma andThen_eq_Inl [result_simps]:
  "andThen m f = Inl e \<longleftrightarrow> m = Inl e \<or> (\<exists>x. m = Inr x \<and> f x = Inl e)"
  by (auto simp: andThen_def split: sum.splits)

lemma except_as_simps [simp]:
  "except_as (Inl e) e' = Inl e'"
  "except_as (Inr x) e' = Inr x"
  by (simp_all add: except_as_def)

lemma except_as_eq_Inr [simp, result_simps]: "except_as m e = Inr v \<longleftrightarrow> m = Inr v"
  by (simp add: except_as_def split: sum.splits)

lemma except_as_eq_Inl [result_simps]:
  "except_as m e = Inl x \<longleftrightarrow> (\<exists>y. m = Inl y) \<and> x = e"
  by (auto simp: except_as_def split: sum.splits)

lemma with_error_simps [simp]:
  "with_error f (Inl e) = Inl (f e)"
  "with_error f (Inr x) = Inr x"
  by (simp_all add: with_error_def)

lemma with_error_eq_Inr [simp, result_simps]: "with_error f m = Inr v \<longleftrightarrow> m = Inr v"
  by (simp add: with_error_def split: sum.splits)

lemma succeeds_simps [simp]:
  "succeeds (Inl e) = False"
  "succeeds (Inr x) = True"
  by (simp_all add: succeeds_def)

lemma succeeds_iff: "succeeds m \<longleftrightarrow> (\<exists>v. m = Inr v)"
  by (simp add: succeeds_def split: sum.splits)

lemma succeeds_ensure [simp]: "succeeds (ensure c e k) \<longleftrightarrow> c \<and> succeeds k"
  by (simp add: ensure_def)

lemma succeeds_andThen_return [simp]: "succeeds (andThen m (\<lambda>_. Inr x)) \<longleftrightarrow> succeeds m"
  by (simp add: andThen_def split: sum.splits)

lemma succeeds_if [simp]: "succeeds (if c then a else b) \<longleftrightarrow> (if c then succeeds a else succeeds b)"
  by simp

text \<open>A loop over a list that raises at its first failing element.\<close>

fun for_each :: "('a \<Rightarrow> 'e + unit) \<Rightarrow> 'a list \<Rightarrow> 'e + unit" where
  "for_each f [] = Inr ()"
| "for_each f (x # xs) = andThen (f x) (\<lambda>_. for_each f xs)"

lemma for_each_cong [fundef_cong]:
  "xs = ys \<Longrightarrow> (\<And>x. x \<in> set ys \<Longrightarrow> f x = g x) \<Longrightarrow> for_each f xs = for_each g ys"
  by (induction ys arbitrary: xs) auto

lemma for_each_ok [simp, result_simps]:
  "for_each f xs = Inr u \<longleftrightarrow> (\<forall>x \<in> set xs. f x = Inr ())"
  by (induction xs) auto

text \<open>The same loop with an accumulator.\<close>

fun fold_result :: "('a \<Rightarrow> 's \<Rightarrow> 'e + 's) \<Rightarrow> 'a list \<Rightarrow> 's \<Rightarrow> 'e + 's" where
  "fold_result f [] s = Inr s"
| "fold_result f (x # xs) s = andThen (f x s) (fold_result f xs)"

lemma fold_result_append:
  "fold_result f (xs @ ys) s = andThen (fold_result f xs s) (fold_result f ys)"
  by (induction xs arbitrary: s) (auto simp: andThen_def split: sum.splits)

lemma fold_result_invariant:
  assumes "fold_result f xs s = Inr t" and "P s"
    and "\<And>x s s'. x \<in> set xs \<Longrightarrow> P s \<Longrightarrow> f x s = Inr s' \<Longrightarrow> P s'"
  shows "P t"
  using assms by (induction xs arbitrary: s) auto

lemma fold_result_ok_cong:
  "(\<And>x s s'. x \<in> set xs \<Longrightarrow> f x s = Inr s' \<longleftrightarrow> g x s = Inr s') \<Longrightarrow>
     fold_result f xs s = Inr t \<longleftrightarrow> fold_result g xs s = Inr t"
  by (induction xs arbitrary: s) auto

text \<open>A loop whose every step adds a set that depends on the element only.\<close>

lemma fold_result_union:
  assumes "fold_result f xs s = Inr t"
    and "\<And>x s s'. x \<in> set xs \<Longrightarrow> f x s = Inr s' \<Longrightarrow> m s' = m s \<union> g x"
  shows "m t = m s \<union> (\<Union>x \<in> set xs. g x)"
  using assms
proof (induction xs arbitrary: s)
  case Nil
  then show ?case by simp
next
  case (Cons x xs)
  then obtain s1 where "f x s = Inr s1" and rest: "fold_result f xs s1 = Inr t" by auto
  with Cons.prems(2) have "m s1 = m s \<union> g x" by simp
  moreover have "m t = m s1 \<union> (\<Union>x \<in> set xs. g x)"
    using Cons.IH [OF rest] Cons.prems(2) by simp
  ultimately show ?case by auto
qed

section \<open>Strings and the patterns the sources match\<close>

definition in_range :: "char \<Rightarrow> char \<Rightarrow> char \<Rightarrow> bool" where
  "in_range lo hi c = (of_char lo \<le> (of_char c :: nat) \<and> (of_char c :: nat) \<le> of_char hi)"

definition is_hex_char :: "char \<Rightarrow> bool" where
  "is_hex_char c = (in_range CHR ''0'' CHR ''9'' c \<or> in_range CHR ''a'' CHR ''f'' c)"

definition is_id_char :: "char \<Rightarrow> bool" where
  "is_id_char c = (in_range CHR ''A'' CHR ''Z'' c \<or> in_range CHR ''a'' CHR ''z'' c
     \<or> in_range CHR ''0'' CHR ''9'' c \<or> c = CHR ''_'' \<or> c = CHR ''-'')"

text \<open>\<open>[0-9a-f]{64}\<close>, \<open>[0-9a-f]{32}\<close> and \<open>[A-Za-z0-9_-]{1,64}\<close>, matched against the whole string.\<close>

definition hex_string :: "nat \<Rightarrow> string \<Rightarrow> bool" where
  "hex_string n s = (length s = n \<and> list_all is_hex_char s)"

definition id_string :: "string \<Rightarrow> bool" where
  "id_string s = (1 \<le> length s \<and> length s \<le> 64 \<and> list_all is_id_char s)"

text \<open>\<open>len\<close> of a \<open>str\<close>: the UTF-8 bytes that do not continue a sequence.\<close>

definition py_len :: "string \<Rightarrow> nat" where
  "py_len s = length (filter (\<lambda>c. (of_char c :: nat) div 64 \<noteq> 2) s)"

lemma hex_char_is_id_char: "is_hex_char c \<Longrightarrow> is_id_char c"
  by (auto simp: is_hex_char_def is_id_char_def in_range_def)

lemma hex_string_is_id: "hex_string n s \<Longrightarrow> 0 < n \<Longrightarrow> n \<le> 64 \<Longrightarrow> id_string s"
  by (auto simp: hex_string_def id_string_def list_all_iff intro: hex_char_is_id_char)

lemma hex_string_take: "hex_string n s \<Longrightarrow> m \<le> n \<Longrightarrow> hex_string m (take m s)"
  by (auto simp: hex_string_def list_all_iff dest: in_set_takeD)

lemma id_string_prefix:
  "list_all is_id_char p \<Longrightarrow> hex_string n s \<Longrightarrow> length p + n \<le> 64 \<Longrightarrow> 0 < n \<Longrightarrow> id_string (p @ s)"
  by (auto simp: hex_string_def id_string_def list_all_iff intro: hex_char_is_id_char)

lemma py_len_le_length: "py_len s \<le> length s"
  by (simp add: py_len_def)

lemma py_len_append [simp]: "py_len (s @ t) = py_len s + py_len t"
  by (simp add: py_len_def)

text \<open>\<open>needle in haystack\<close> on strings.\<close>

fun contains :: "string \<Rightarrow> string \<Rightarrow> bool" where
  "contains needle [] = (needle = [])"
| "contains needle (c # cs) = (take (length needle) (c # cs) = needle \<or> contains needle cs)"

definition starts_with :: "string \<Rightarrow> string \<Rightarrow> bool" where
  "starts_with p s = (take (length p) s = p)"

definition ends_with :: "string \<Rightarrow> string \<Rightarrow> bool" where
  "ends_with p s = starts_with (rev p) (rev s)"

lemma contains_iff: "contains needle s \<longleftrightarrow> (\<exists>u v. s = u @ needle @ v)"
proof (induction s)
  case Nil
  show ?case by simp
next
  case (Cons c cs)
  have "take (length needle) (c # cs) = needle \<longleftrightarrow> (\<exists>v. c # cs = needle @ v)"
    by (metis append_eq_conv_conj append_take_drop_id)
  moreover have "(\<exists>u v. c # cs = u @ needle @ v) \<longleftrightarrow>
      (\<exists>v. c # cs = needle @ v) \<or> (\<exists>u v. cs = u @ needle @ v)"
    by (metis append.left_neutral append_Cons list.inject neq_Nil_conv)
  ultimately show ?case using Cons.IH by simp
qed

lemma starts_with_iff: "starts_with p s \<longleftrightarrow> (\<exists>v. s = p @ v)"
  by (metis starts_with_def append_eq_conv_conj append_take_drop_id)

lemma starts_with_append [simp]: "starts_with p (p @ s)"
  by (simp add: starts_with_def)

section \<open>Association lists as ordered dictionaries\<close>

text \<open>\<open>d[k] = v\<close> keeps the position of a key that is present and appends a new one.\<close>

definition dict_set :: "'k \<Rightarrow> 'v \<Rightarrow> ('k \<times> 'v) list \<Rightarrow> ('k \<times> 'v) list" where
  "dict_set k v d = AList.update k v d"

definition dict_del :: "'k \<Rightarrow> ('k \<times> 'v) list \<Rightarrow> ('k \<times> 'v) list" where
  "dict_del k d = filter (\<lambda>(k', _). k' \<noteq> k) d"

lemma map_of_dict_set [simp]: "map_of (dict_set k v d) = (map_of d)(k \<mapsto> v)"
  by (simp add: dict_set_def update_conv')

lemma map_of_dict_del [simp]: "map_of (dict_del k d) = (map_of d)(k := None)"
  by (induction d) (auto simp: dict_del_def fun_eq_iff)

lemma distinct_dict_set [simp]:
  "distinct (map fst d) \<Longrightarrow> distinct (map fst (dict_set k v d))"
  by (simp add: dict_set_def distinct_update)

lemma keys_dict_set [simp]: "fst ` set (dict_set k v d) = insert k (fst ` set d)"
  by (metis dom_fun_upd dom_map_of_conv_image_fst map_of_dict_set option.distinct(1))

lemma keys_dict_del [simp]: "fst ` set (dict_del k d) = fst ` set d - {k}"
  by (auto simp: dict_del_def image_iff)

lemma distinct_dict_del [simp]:
  "distinct (map fst d) \<Longrightarrow> distinct (map fst (dict_del k d))"
  by (induction d) (auto simp: dict_del_def)

section \<open>Simulation\<close>

text \<open>
  A machine whose every step is, under an invariant of its own, a step of a more abstract machine.
  What the abstract steps preserve then holds of every run of the concrete one.
\<close>

locale simulation =
  fixes step :: "'s \<Rightarrow> 's \<Rightarrow> bool" and inv :: "'s \<Rightarrow> bool" and abs_of :: "'s \<Rightarrow> 'm" and move :: "'m \<Rightarrow> 'm \<Rightarrow> bool"
  assumes simulates: "step s s' \<Longrightarrow> inv s \<Longrightarrow> inv s' \<and> move (abs_of s) (abs_of s')"
begin

lemma runs: "step\<^sup>*\<^sup>* s s' \<Longrightarrow> inv s \<Longrightarrow> inv s' \<and> move\<^sup>*\<^sup>* (abs_of s) (abs_of s')"
proof (induction rule: rtranclp_induct)
  case (step s1 s2)
  then show ?case using simulates by (metis rtranclp.rtrancl_into_rtrancl)
qed simp

lemma invariant:
  assumes "step\<^sup>*\<^sup>* s s'" and "inv s" and "P (abs_of s)" and "\<And>m m'. P m \<Longrightarrow> move m m' \<Longrightarrow> P m'"
  shows "P (abs_of s')"
proof -
  have "move\<^sup>*\<^sup>* (abs_of s) (abs_of s')" using runs assms(1,2) by blast
  then show ?thesis using assms(3,4) by (induction rule: rtranclp_induct) blast+
qed

end

end
