(* ===== verification/PyJson.thy ===== *)
theory PyJson
  imports Complex_Main Prelude "HOL-Library.List_Lexorder" "HOL-Library.Char_ord"
begin

text \<open>
  The JSON values the Python sources exchange: what \<open>json.loads\<close> returns, Python's \<open>==\<close> and
  \<open>in\<close> on such values, the accesses the sources make, and \<open>json.dumps\<close> in the forms they
  call it. A dictionary is an association list in insertion order.

  A finite float is its value (a rational), the three non-finite constants are \<open>JConst\<close>.
  What the interpreter and the operating system supply (the SHA-256 digest, the JSON scanner,
  the text of a float, the user and process id) is a record that the operations take as an
  argument.
\<close>

section \<open>Values\<close>

datatype json =
    JNull
  | JBool bool
  | JInt int
  | JFloat rat
  | JConst string
  | JStr string
  | JArr "json list"
  | JObj "(string \<times> json) list"

type_synonym jdict = "(string \<times> json) list"

record platform =
  p_sha256 :: "string \<Rightarrow> string"
  p_scan :: "string \<Rightarrow> json option"
  p_float_repr :: "rat \<Rightarrow> string"
  p_uid :: int
  p_pid :: int

definition is_str :: "json \<Rightarrow> bool" where
  "is_str v = (case v of JStr _ \<Rightarrow> True | _ \<Rightarrow> False)"

definition is_int :: "json \<Rightarrow> bool" where
  "is_int v = (case v of JInt _ \<Rightarrow> True | _ \<Rightarrow> False)"

definition is_bool :: "json \<Rightarrow> bool" where
  "is_bool v = (case v of JBool _ \<Rightarrow> True | _ \<Rightarrow> False)"

definition is_obj :: "json \<Rightarrow> bool" where
  "is_obj v = (case v of JObj _ \<Rightarrow> True | _ \<Rightarrow> False)"

definition is_arr :: "json \<Rightarrow> bool" where
  "is_arr v = (case v of JArr _ \<Rightarrow> True | _ \<Rightarrow> False)"

text \<open>The parts of a value whose kind has been checked.\<close>

definition str_of :: "json \<Rightarrow> string" where
  "str_of v = (case v of JStr s \<Rightarrow> s | _ \<Rightarrow> [])"

definition int_of :: "json \<Rightarrow> int" where
  "int_of v = (case v of JInt i \<Rightarrow> i | _ \<Rightarrow> 0)"

definition arr_of :: "json \<Rightarrow> json list" where
  "arr_of v = (case v of JArr xs \<Rightarrow> xs | _ \<Rightarrow> [])"

definition obj_of :: "json \<Rightarrow> jdict" where
  "obj_of v = (case v of JObj d \<Rightarrow> d | _ \<Rightarrow> [])"

lemmas json_kind_defs = is_str_def is_int_def is_bool_def is_obj_def is_arr_def
  str_of_def int_of_def arr_of_def obj_of_def

lemma json_kind_simps [simp]:
  "is_str (JStr s)" "is_int (JInt i)" "is_bool (JBool b)" "is_obj (JObj d)" "is_arr (JArr xs)"
  "str_of (JStr s) = s" "int_of (JInt i) = i" "arr_of (JArr xs) = xs" "obj_of (JObj d) = d"
  by (simp_all add: json_kind_defs)

lemma json_kind_neg [simp]:
  "\<not> is_str JNull" "\<not> is_str (JBool b)" "\<not> is_str (JInt i)" "\<not> is_str (JFloat q)"
  "\<not> is_str (JConst c)" "\<not> is_str (JArr xs)" "\<not> is_str (JObj d)"
  "\<not> is_int JNull" "\<not> is_int (JBool b)" "\<not> is_int (JStr s)" "\<not> is_int (JFloat q)"
  "\<not> is_int (JConst c)" "\<not> is_int (JArr xs)" "\<not> is_int (JObj d)"
  "\<not> is_bool JNull" "\<not> is_bool (JInt i)" "\<not> is_bool (JStr s)" "\<not> is_bool (JArr xs)"
  "\<not> is_bool (JObj d)" "\<not> is_bool (JFloat q)" "\<not> is_bool (JConst c)"
  "\<not> is_obj JNull" "\<not> is_obj (JBool b)" "\<not> is_obj (JInt i)" "\<not> is_obj (JStr s)"
  "\<not> is_obj (JArr xs)" "\<not> is_obj (JFloat q)" "\<not> is_obj (JConst c)"
  "\<not> is_arr JNull" "\<not> is_arr (JBool b)" "\<not> is_arr (JInt i)" "\<not> is_arr (JStr s)"
  "\<not> is_arr (JObj d)" "\<not> is_arr (JFloat q)" "\<not> is_arr (JConst c)"
  by (simp_all add: json_kind_defs)

lemma is_str_iff: "is_str v \<longleftrightarrow> (\<exists>s. v = JStr s)"
  by (cases v) simp_all

lemma is_int_iff: "is_int v \<longleftrightarrow> (\<exists>i. v = JInt i)"
  by (cases v) simp_all

lemma is_bool_iff: "is_bool v \<longleftrightarrow> (\<exists>b. v = JBool b)"
  by (cases v) simp_all

lemma is_obj_iff: "is_obj v \<longleftrightarrow> (\<exists>d. v = JObj d)"
  by (cases v) simp_all

lemma is_arr_iff: "is_arr v \<longleftrightarrow> (\<exists>xs. v = JArr xs)"
  by (cases v) simp_all

lemmas json_kind_iffs = is_str_iff is_int_iff is_bool_iff is_obj_iff is_arr_iff

section \<open>Dictionary access\<close>

text \<open>\<open>d.get(k)\<close>; also \<open>d[k]\<close> where the code has checked that the key is present.\<close>

definition dget :: "jdict \<Rightarrow> string \<Rightarrow> json" where
  "dget d k = (case map_of d k of None \<Rightarrow> JNull | Some v \<Rightarrow> v)"

text \<open>\<open>d.get(k, default)\<close>.\<close>

definition dget_or :: "jdict \<Rightarrow> string \<Rightarrow> json \<Rightarrow> json" where
  "dget_or d k v0 = (case map_of d k of None \<Rightarrow> v0 | Some v \<Rightarrow> v)"

text \<open>\<open>d[k]\<close> where the key may be missing.\<close>

definition dreq :: "jdict \<Rightarrow> string \<Rightarrow> json result" where
  "dreq d k = (case map_of d k of None \<Rightarrow> key_error | Some v \<Rightarrow> Inr v)"

definition has_key :: "jdict \<Rightarrow> string \<Rightarrow> bool" where
  "has_key d k = (k \<in> set (map fst d))"

text \<open>\<open>set(d) == {...}\<close>, \<open>set(d) <= {...}\<close> and \<open>{...} <= set(d)\<close>.\<close>

definition keys_exact :: "jdict \<Rightarrow> string list \<Rightarrow> bool" where
  "keys_exact d ks = (set (map fst d) = set ks)"

definition keys_within :: "jdict \<Rightarrow> string list \<Rightarrow> bool" where
  "keys_within d ks = (set (map fst d) \<subseteq> set ks)"

definition keys_include :: "jdict \<Rightarrow> string list \<Rightarrow> bool" where
  "keys_include d ks = (set ks \<subseteq> set (map fst d))"

lemma has_key_iff: "has_key d k \<longleftrightarrow> (\<exists>v. map_of d k = Some v)"
  by (simp add: has_key_def image_iff) (metis map_of_eq_None_iff not_Some_eq fst_conv image_iff)

lemma dget_present: "dget d k \<noteq> JNull \<Longrightarrow> has_key d k"
  by (auto simp: has_key_iff dget_def split: option.splits)

lemma dget_dget_or: "has_key d k \<Longrightarrow> dget_or d k v0 = dget d k"
  by (auto simp: has_key_iff dget_def dget_or_def)

lemma dget_or_absent: "\<not> has_key d k \<Longrightarrow> dget_or d k v0 = v0"
  by (auto simp: has_key_iff dget_or_def split: option.splits)

lemma dget_simps [simp]:
  "dget [] k = JNull"
  "dget ((k', v) # d) k = (if k = k' then v else dget d k)"
  by (simp_all add: dget_def)

lemma dget_or_simps [simp]:
  "dget_or [] k v0 = v0"
  "dget_or ((k', v) # d) k v0 = (if k = k' then v else dget_or d k v0)"
  by (simp_all add: dget_or_def)

lemma has_key_simps [simp]:
  "has_key [] k = False"
  "has_key ((k', v) # d) k = (k = k' \<or> has_key d k)"
  by (auto simp: has_key_def)

lemma dget_set [simp]: "dget (dict_set k v d) k' = (if k' = k then v else dget d k')"
  by (simp add: dget_def)

lemma has_key_set [simp]: "has_key (dict_set k v d) k' \<longleftrightarrow> k' = k \<or> has_key d k'"
  by (simp add: has_key_iff)

lemma keys_exact_has: "keys_exact d ks \<Longrightarrow> has_key d k \<longleftrightarrow> k \<in> set ks"
  by (simp add: keys_exact_def has_key_def)

lemma keys_exact_include: "keys_exact d ks \<Longrightarrow> keys_include d ks \<and> keys_within d ks"
  by (simp add: keys_exact_def keys_include_def keys_within_def)

lemma dreq_ok [simp, result_simps]: "dreq d k = Inr v \<longleftrightarrow> map_of d k = Some v"
  by (simp add: dreq_def split: option.splits)

section \<open>Python equality, truth and membership\<close>

text \<open>
  \<open>==\<close> on JSON values: \<open>bool\<close> is a subtype of \<open>int\<close>, numbers compare by value, \<open>nan\<close> is equal to
  nothing, dictionaries compare without regard to order.
\<close>

definition num_val :: "json \<Rightarrow> rat option" where
  "num_val v = (case v of JBool b \<Rightarrow> Some (if b then 1 else 0) | JInt i \<Rightarrow> Some (of_int i)
     | JFloat q \<Rightarrow> Some q | _ \<Rightarrow> None)"

lemma num_val_simps [simp]:
  "num_val JNull = None" "num_val (JBool b) = Some (if b then 1 else 0)"
  "num_val (JInt i) = Some (of_int i)" "num_val (JFloat q) = Some q"
  "num_val (JConst c) = None" "num_val (JStr s) = None" "num_val (JArr xs) = None"
  "num_val (JObj d) = None"
  by (simp_all add: num_val_def)

function (sequential) py_eq :: "json \<Rightarrow> json \<Rightarrow> bool" where
  "py_eq JNull w = (w = JNull)"
| "py_eq (JStr s) w = (w = JStr s)"
| "py_eq (JConst c) w = (w = JConst c \<and> c \<noteq> ''NaN'')"
| "py_eq (JArr xs) w = (case w of
      JArr ys \<Rightarrow> length xs = length ys \<and> list_all (\<lambda>(x, y). py_eq x y) (zip xs ys)
    | _ \<Rightarrow> False)"
| "py_eq (JObj d) w = (case w of
      JObj e \<Rightarrow> keys_exact d (map fst e) \<and>
        list_all (\<lambda>(k, x). (case map_of e k of None \<Rightarrow> False | Some y \<Rightarrow> py_eq x y)) d
    | _ \<Rightarrow> False)"
| "py_eq v w = (num_val v = num_val w)"
  by pat_completeness auto
termination
  by (relation "measure (\<lambda>(v, w). size v)")
     (auto dest!: set_zip_leftD simp: less_Suc_eq_le
       intro: size_list_estimation' [OF _ order_refl] size_list_estimation')

definition truthy :: "json \<Rightarrow> bool" where
  "truthy v = (case v of JNull \<Rightarrow> False | JBool b \<Rightarrow> b | JInt i \<Rightarrow> i \<noteq> 0 | JFloat q \<Rightarrow> q \<noteq> 0
     | JConst _ \<Rightarrow> True | JStr s \<Rightarrow> s \<noteq> [] | JArr xs \<Rightarrow> xs \<noteq> [] | JObj d \<Rightarrow> d \<noteq> [])"

text \<open>
  \<open>v in {"a", ...}\<close> on a set of strings hashes \<open>v\<close>: a list or a dictionary raises
  \<open>TypeError\<close>. On a tuple the same test compares with \<open>==\<close> and never raises.
\<close>

definition in_str_set :: "json \<Rightarrow> string list \<Rightarrow> bool result" where
  "in_str_set v ss = (case v of JArr _ \<Rightarrow> type_error | JObj _ \<Rightarrow> type_error
     | JStr s \<Rightarrow> Inr (s \<in> set ss) | _ \<Rightarrow> Inr False)"

definition in_str_tuple :: "json \<Rightarrow> string list \<Rightarrow> bool" where
  "in_str_tuple v ss = (case v of JStr s \<Rightarrow> s \<in> set ss | _ \<Rightarrow> False)"

lemma py_eq_str [simp]: "py_eq v (JStr s) \<longleftrightarrow> v = JStr s"
  by (cases v) auto

lemma py_eq_int_int [simp]: "py_eq (JInt i) (JInt j) \<longleftrightarrow> i = j"
  by simp

lemma py_eq_one_true: "py_eq (JBool True) (JInt 1)"
  by simp

lemma in_str_set_True [simp, result_simps]:
  "in_str_set v ss = Inr True \<longleftrightarrow> (\<exists>s. v = JStr s \<and> s \<in> set ss)"
  by (cases v) (auto simp: in_str_set_def)

lemma in_str_tuple_iff: "in_str_tuple v ss \<longleftrightarrow> (\<exists>s. v = JStr s \<and> s \<in> set ss)"
  by (cases v) (auto simp: in_str_tuple_def)

text \<open>No key occurs twice, at any depth: what a parse that rejects duplicates returns.\<close>

fun wf_json :: "json \<Rightarrow> bool" where
  "wf_json (JArr xs) = list_all wf_json xs"
| "wf_json (JObj d) = (distinct (map fst d) \<and> list_all (\<lambda>(k, v). wf_json v) d)"
| "wf_json v = True"

fun no_const :: "json \<Rightarrow> bool" where
  "no_const (JConst c) = False"
| "no_const (JArr xs) = list_all no_const xs"
| "no_const (JObj d) = list_all (\<lambda>(k, v). no_const v) d"
| "no_const v = True"

lemma py_eq_refl: "wf_json v \<Longrightarrow> no_const v \<Longrightarrow> py_eq v v"
proof (induction v rule: wf_json.induct)
  case (1 xs)
  then show ?case by (auto simp: list_all_iff set_zip)
next
  case (2 d)
  have "case map_of d k of None \<Rightarrow> False | Some y \<Rightarrow> py_eq x y" if "(k, x) \<in> set d" for k x
  proof -
    have "map_of d k = Some x" using "2.prems" that by simp
    moreover have "wf_json x" "no_const x" using "2.prems" that by (auto simp: list_all_iff)
    ultimately show ?thesis using "2.IH" [OF that refl] by simp
  qed
  then show ?case by (auto simp: list_all_iff keys_exact_def)
qed auto

section \<open>Parse hooks\<close>

text \<open>
  The scanner returns the tree with every key of an object, repeated or not, and the three
  constants. \<open>object_pairs_hook\<close> runs at the end of each object, after its members;
  \<open>parse_constant\<close> where a constant stands. \<open>hooked dup const v\<close> rejects a repeated key with
  \<open>dup\<close> and a constant with \<open>const\<close>, in that order of traversal.
\<close>

fun hooked :: "exn \<Rightarrow> exn \<Rightarrow> json \<Rightarrow> unit result" where
  "hooked dup const (JConst c) = Inl const"
| "hooked dup const (JArr xs) = for_each (hooked dup const) xs"
| "hooked dup const (JObj d) =
     andThen (for_each (\<lambda>(k, v). hooked dup const v) d) (\<lambda>_.
     ensure (distinct (map fst d)) dup (Inr ()))"
| "hooked dup const v = Inr ()"

text \<open>Without a hook the last of several equal keys wins.\<close>

fun last_wins :: "json \<Rightarrow> json" where
  "last_wins (JArr xs) = JArr (map last_wins xs)"
| "last_wins (JObj d) =
     JObj (fold (\<lambda>(k, v). dict_set k v) (map (\<lambda>(k, v). (k, last_wins v)) d) [])"
| "last_wins v = v"

text \<open>\<open>json.loads(text, object_pairs_hook=..., parse_constant=...)\<close>.\<close>

definition loads_unique :: "platform \<Rightarrow> exn \<Rightarrow> exn \<Rightarrow> exn \<Rightarrow> string \<Rightarrow> json result" where
  "loads_unique E syn dup const text = (case p_scan E text of
      None \<Rightarrow> Inl syn
    | Some v \<Rightarrow> andThen (hooked dup const v) (\<lambda>_. Inr v))"

text \<open>\<open>json.loads(text)\<close>.\<close>

definition loads :: "platform \<Rightarrow> exn \<Rightarrow> string \<Rightarrow> json result" where
  "loads E syn text = (case p_scan E text of None \<Rightarrow> Inl syn | Some v \<Rightarrow> Inr (last_wins v))"

lemma hooked_ok: "hooked dup const v = Inr u \<longleftrightarrow> wf_json v \<and> no_const v"
proof (induction v rule: wf_json.induct)
  case (1 xs)
  then show ?case by (auto simp: list_all_iff)
next
  case (2 d)
  then show ?case by (fastforce simp: list_all_iff)
qed auto

lemma loads_unique_ok [result_simps]:
  "loads_unique E syn dup const text = Inr v \<longleftrightarrow> p_scan E text = Some v \<and> wf_json v \<and> no_const v"
  by (auto simp: loads_unique_def hooked_ok split: option.splits)

end
