(* ===== verification/RpcPolicy.thy ===== *)
theory RpcPolicy
  imports PyJson
begin

text \<open>
  The authentication policy for JSON-RPC messages
  (\<open>plugins/codex-orchestrator/lib/trial/rpc_policy.py\<close>): which messages may cross the
  trial boundary in each direction. Requests that read or change credentials are refused, and a
  method that merely looks like one is refused unless it is on a list of known harmless ones.
\<close>

section \<open>Tables\<close>

definition directions :: "string list" where
  "directions = [''client_to_server'', ''server_to_client'']"

definition client_blocked_auth :: "string list" where
  "client_blocked_auth = [''account/login/start'', ''account/login/cancel'', ''account/logout'',
     ''account/bedrock/discover'', ''account/bedrock/setup'', ''getAuthStatus'',
     ''mcpServer/oauth/login'']"

definition client_known_account_nonauth :: "string list" where
  "client_known_account_nonauth = [''account/rateLimits/read'',
     ''account/rateLimitResetCredit/consume'', ''account/usage/read'',
     ''account/workspaceMessages/read'', ''account/sendAddCreditsNudgeEmail'']"

definition server_refresh :: string where
  "server_refresh = ''account/chatgptAuthTokens/refresh''"

definition server_known_notifications :: "string list" where
  "server_known_notifications = [''account/updated'', ''account/rateLimits/updated'',
     ''account/login/completed'', ''modelProvider/authRecoveryStarted'',
     ''modelProvider/authRecoveryCompleted'', ''mcpServer/oauthLogin/completed'']"

section \<open>Case folding\<close>

text \<open>
  \<open>str.casefold\<close> on UTF-8 text: ASCII capitals, and the non-ASCII characters whose folding
  contains an ASCII letter. Every other non-ASCII character folds to non-ASCII text, which no
  test below looks at, and is left as it is.
\<close>

definition fold_table :: "(string \<times> string) list" where
  "fold_table =
    [([CHR 0xC3, CHR 0x9F], ''ss''),
     ([CHR 0xC5, CHR 0xBF], ''s''),
     ([CHR 0xC4, CHR 0xB0], [CHR ''i'', CHR 0xCC, CHR 0x87]),
     ([CHR 0xC5, CHR 0x89], [CHR 0xCA, CHR 0xBC, CHR ''n'']),
     ([CHR 0xC7, CHR 0xB0], [CHR ''j'', CHR 0xCC, CHR 0x8C]),
     ([CHR 0xE2, CHR 0x84, CHR 0xAA], ''k''),
     ([CHR 0xE1, CHR 0xBA, CHR 0x96], [CHR ''h'', CHR 0xCC, CHR 0xB1]),
     ([CHR 0xE1, CHR 0xBA, CHR 0x97], [CHR ''t'', CHR 0xCC, CHR 0x88]),
     ([CHR 0xE1, CHR 0xBA, CHR 0x98], [CHR ''w'', CHR 0xCC, CHR 0x8A]),
     ([CHR 0xE1, CHR 0xBA, CHR 0x99], [CHR ''y'', CHR 0xCC, CHR 0x8A]),
     ([CHR 0xE1, CHR 0xBA, CHR 0x9A], [CHR ''a'', CHR 0xCA, CHR 0xBE]),
     ([CHR 0xE1, CHR 0xBA, CHR 0x9E], ''ss''),
     ([CHR 0xEF, CHR 0xAC, CHR 0x80], ''ff''),
     ([CHR 0xEF, CHR 0xAC, CHR 0x81], ''fi''),
     ([CHR 0xEF, CHR 0xAC, CHR 0x82], ''fl''),
     ([CHR 0xEF, CHR 0xAC, CHR 0x83], ''ffi''),
     ([CHR 0xEF, CHR 0xAC, CHR 0x84], ''ffl''),
     ([CHR 0xEF, CHR 0xAC, CHR 0x85], ''st''),
     ([CHR 0xEF, CHR 0xAC, CHR 0x86], ''st'')]"

definition ascii_lower :: "char \<Rightarrow> char" where
  "ascii_lower c = (if in_range CHR ''A'' CHR ''Z'' c then char_of ((of_char c :: nat) + 32) else c)"

fun casefold :: "string \<Rightarrow> string" where
  "casefold [] = []"
| "casefold (c # cs) =
    (case find (\<lambda>(p, _). starts_with p (c # cs)) fold_table of
       Some (p, r) \<Rightarrow> r @ casefold (drop (length p - 1) cs)
     | None \<Rightarrow> ascii_lower c # casefold cs)"

section \<open>The policy\<close>

definition policy_blocked :: "string \<Rightarrow> exn" where
  "policy_blocked code = Raised ''AuthRpcPolicyBlocked'' code"

definition looks_like_unknown_auth_method :: "string \<Rightarrow> bool" where
  "looks_like_unknown_auth_method method =
    (let folded = casefold method in
       starts_with ''account/'' folded
     \<or> starts_with ''auth/'' folded
     \<or> contains ''/auth/'' folded
     \<or> ends_with ''/auth'' folded
     \<or> contains ''oauth'' folded
     \<or> contains ''authtoken'' folded
     \<or> (contains ''account'' folded \<and> (contains ''login'' folded \<or> contains ''logout'' folded)))"

definition enforce_account_read :: "jdict \<Rightarrow> unit result" where
  "enforce_account_read message =
    (if \<not> has_key message ''params'' then Inr ()
     else let params = dget message ''params'' in
       ensure (is_obj params \<and> keys_within (obj_of params) [''refreshToken''])
         (policy_blocked ''account_read_params_invalid'')
      (if \<not> has_key (obj_of params) ''refreshToken'' then Inr ()
       else let refresh_token = dget (obj_of params) ''refreshToken'' in
         ensure (is_bool refresh_token) (policy_blocked ''account_refresh_flag_invalid'')
        (ensure (\<not> truthy refresh_token) (policy_blocked ''account_refresh_forbidden'')
        (Inr ()))))"

definition enforce_auth_rpc_policy :: "string \<Rightarrow> json \<Rightarrow> json result" where
  "enforce_auth_rpc_policy direction message =
     ensure (direction \<in> set directions) (policy_blocked ''rpc_direction_invalid'')
    (ensure (is_obj message) (policy_blocked ''rpc_message_invalid'')
    (let d = obj_of message in
     if \<not> has_key d ''method'' then Inr message
     else
       ensure (is_str (dget d ''method'') \<and> str_of (dget d ''method'') \<noteq> [])
         (policy_blocked ''rpc_method_invalid'')
      (let method = str_of (dget d ''method'');
           fallback = ensure (\<not> looks_like_unknown_auth_method method)
             (policy_blocked ''unknown_account_or_auth_rpc'') (Inr message)
       in if direction = ''client_to_server'' then
            if method = ''account/read'' then
              andThen (enforce_account_read d) (\<lambda>_. Inr message)
            else if method \<in> set client_blocked_auth then
              Inl (policy_blocked ''auth_rpc_forbidden'')
            else if method \<in> set client_known_account_nonauth then Inr message
            else fallback
          else
            if method = server_refresh then Inl (policy_blocked ''account_refresh_forbidden'')
            else if method \<in> set server_known_notifications then Inr message
            else fallback)))"

section \<open>What the policy admits\<close>

text \<open>The codes the policy raises, all of them declared by its client, the wire gate.\<close>

definition policy_codes :: "string list" where
  "policy_codes = [''account_read_params_invalid'', ''account_refresh_flag_invalid'',
     ''account_refresh_forbidden'', ''auth_rpc_forbidden'', ''rpc_direction_invalid'',
     ''rpc_message_invalid'', ''rpc_method_invalid'', ''unknown_account_or_auth_rpc'']"

lemma enforce_account_read_ok:
  "enforce_account_read d = Inr u \<longleftrightarrow>
     \<not> has_key d ''params'' \<or>
     (\<exists>p. dget d ''params'' = JObj p \<and> keys_within p [''refreshToken''] \<and>
        (has_key p ''refreshToken'' \<longrightarrow> dget p ''refreshToken'' = JBool False))"
  by (auto simp: enforce_account_read_def Let_def json_kind_iffs truthy_def split: if_splits)

lemma enforce_account_read_code:
  "enforce_account_read d = Inl e \<Longrightarrow> \<exists>c \<in> set policy_codes. e = policy_blocked c"
  by (auto simp: enforce_account_read_def Let_def result_simps policy_codes_def split: if_splits)

lemma policy_returns_message: "enforce_auth_rpc_policy dir m = Inr m' \<Longrightarrow> m' = m"
  by (auto simp: enforce_auth_rpc_policy_def Let_def split: if_splits)

text \<open>
  Specification of the client direction, as a predicate on the method and the parameters.
\<close>

definition account_read_allowed :: "jdict \<Rightarrow> bool" where
  "account_read_allowed d \<longleftrightarrow> \<not> has_key d ''params'' \<or>
     (\<exists>p. dget d ''params'' = JObj p \<and> set (map fst p) \<subseteq> {''refreshToken''} \<and>
       (has_key p ''refreshToken'' \<longrightarrow> dget p ''refreshToken'' = JBool False))"

definition client_allowed :: "jdict \<Rightarrow> string \<Rightarrow> bool" where
  "client_allowed d method \<longleftrightarrow>
    (if method = ''account/read'' then account_read_allowed d
     else method \<in> set client_known_account_nonauth \<or>
       (method \<notin> set client_blocked_auth \<and> \<not> looks_like_unknown_auth_method method))"

definition server_allowed :: "string \<Rightarrow> bool" where
  "server_allowed method \<longleftrightarrow> method \<in> set server_known_notifications \<or>
     (method \<noteq> server_refresh \<and> \<not> looks_like_unknown_auth_method method)"

lemma client_tables_disjoint [simp]:
  "m \<in> set client_known_account_nonauth \<Longrightarrow> m \<notin> set client_blocked_auth"
  by (auto simp: client_known_account_nonauth_def client_blocked_auth_def)

lemma account_read_not_listed [simp]:
  "''account/read'' \<notin> set client_blocked_auth"
  "''account/read'' \<notin> set client_known_account_nonauth"
  by (simp_all add: client_known_account_nonauth_def client_blocked_auth_def)

lemma server_refresh_not_listed [simp]: "server_refresh \<notin> set server_known_notifications"
  by (simp add: server_refresh_def server_known_notifications_def)

lemma succeeds_account_read [simp]:
  "succeeds (enforce_account_read d) \<longleftrightarrow> account_read_allowed d"
  by (simp add: succeeds_iff enforce_account_read_ok account_read_allowed_def keys_within_def)

text \<open>
  A client message is let through exactly when it carries no method, or its method is a
  non-empty string that is allowed: \<open>account/read\<close> without a token refresh, a listed harmless
  account method, or a method that is neither blocked nor looks like an account or
  authentication method.
\<close>

theorem policy_client_iff:
  "succeeds (enforce_auth_rpc_policy ''client_to_server'' m) \<longleftrightarrow>
     (\<exists>d. m = JObj d \<and> (\<not> has_key d ''method'' \<or>
        (\<exists>name. dget d ''method'' = JStr name \<and> name \<noteq> [] \<and> client_allowed d name)))"
proof (cases m)
  case (JObj d)
  then show ?thesis
    by (cases "dget d ''method''")
       (auto simp: enforce_auth_rpc_policy_def directions_def Let_def client_allowed_def)
qed (simp_all add: enforce_auth_rpc_policy_def directions_def)

text \<open>
  A server message is let through exactly when it carries no method, or its method is a
  listed notification, or it is not the token refresh request and does not look like an
  account or authentication method.
\<close>

theorem policy_server_iff:
  "succeeds (enforce_auth_rpc_policy ''server_to_client'' m) \<longleftrightarrow>
     (\<exists>d. m = JObj d \<and> (\<not> has_key d ''method'' \<or>
        (\<exists>name. dget d ''method'' = JStr name \<and> name \<noteq> [] \<and> server_allowed name)))"
proof (cases m)
  case (JObj d)
  then show ?thesis
    by (cases "dget d ''method''")
       (auto simp: enforce_auth_rpc_policy_def directions_def Let_def server_allowed_def)
qed (simp_all add: enforce_auth_rpc_policy_def directions_def)

theorem policy_client_iff_witness:
  "succeeds (enforce_auth_rpc_policy ''client_to_server''
     (JObj [(''method'', JStr ''account/read''), (''params'', JObj [(''refreshToken'', JBool False)])]))"
  unfolding policy_client_iff by (simp add: client_allowed_def account_read_allowed_def)

theorem policy_server_iff_witness:
  "succeeds (enforce_auth_rpc_policy ''server_to_client'' (JObj [(''method'', JStr ''account/updated'')]))"
  unfolding policy_server_iff by (simp add: server_allowed_def server_known_notifications_def)

lemma policy_error_code:
  "enforce_auth_rpc_policy dir m = Inl e \<Longrightarrow> \<exists>c \<in> set policy_codes. e = policy_blocked c"
  by (auto simp: enforce_auth_rpc_policy_def Let_def result_simps policy_codes_def
      dest!: enforce_account_read_code split: if_splits)

end
