(* ===== verification/JsonText.thy ===== *)
theory JsonText
  imports PyJson
begin

text \<open>
  \<open>json.dumps\<close> with \<open>separators=(",", ":")\<close>, in the three forms the sources use: keys sorted or in
  insertion order, non-ASCII text kept or escaped.
\<close>

section \<open>Numbers\<close>

fun show_nat :: "nat \<Rightarrow> string" where
  "show_nat n = (if n < 10 then [char_of (48 + n)] else show_nat (n div 10) @ [char_of (48 + n mod 10)])"

declare show_nat.simps [simp del]

definition show_int :: "int \<Rightarrow> string" where
  "show_int i = (if i < 0 then CHR ''-'' # show_nat (nat (- i)) else show_nat (nat i))"

section \<open>Strings\<close>

definition hex_digit :: "nat \<Rightarrow> char" where
  "hex_digit n = (if n < 10 then char_of (48 + n) else char_of (87 + n))"

text \<open>A backslash, \<open>u\<close> and four hexadecimal digits.\<close>

definition u_escape :: "nat \<Rightarrow> string" where
  "u_escape n = [CHR 0x5C, CHR ''u'', hex_digit (n div 4096 mod 16), hex_digit (n div 256 mod 16),
     hex_digit (n div 16 mod 16), hex_digit (n mod 16)]"

definition esc_char :: "char \<Rightarrow> string" where
  "esc_char c =
    (if c = CHR 0x22 then [CHR 0x5C, CHR 0x22]
     else if c = CHR 0x5C then [CHR 0x5C, CHR 0x5C]
     else if c = CHR 0x0A then [CHR 0x5C, CHR ''n'']
     else if c = CHR 0x0D then [CHR 0x5C, CHR ''r'']
     else if c = CHR 0x09 then [CHR 0x5C, CHR ''t'']
     else if c = CHR 0x0C then [CHR 0x5C, CHR ''f'']
     else if c = CHR 0x08 then [CHR 0x5C, CHR ''b'']
     else if (of_char c :: nat) < 32 then u_escape (of_char c)
     else [c])"

text \<open>A code point above the basic plane is written as a surrogate pair.\<close>

definition esc_point :: "nat \<Rightarrow> string" where
  "esc_point n = (if n < 65536 then u_escape n
     else u_escape (55296 + (n - 65536) div 1024) @ u_escape (56320 + (n - 65536) mod 1024))"

definition utf8_tail :: "char \<Rightarrow> nat" where
  "utf8_tail c = of_char c mod 64"

text \<open>\<open>ensure_ascii=True\<close>: the UTF-8 sequences of the text are decoded and escaped.\<close>

fun esc_ascii :: "string \<Rightarrow> string" where
  "esc_ascii [] = []"
| "esc_ascii (a # s) =
    (if (of_char a :: nat) < 127 then esc_char a @ esc_ascii s
     else if (of_char a :: nat) = 127 then u_escape 127 @ esc_ascii s
     else case s of
        [] \<Rightarrow> []
      | b # s1 \<Rightarrow>
          if (of_char a :: nat) < 224 then
            esc_point (of_char a mod 32 * 64 + utf8_tail b) @ esc_ascii s1
          else (case s1 of
             [] \<Rightarrow> []
           | c # s2 \<Rightarrow>
               if (of_char a :: nat) < 240 then
                 esc_point (of_char a mod 16 * 4096 + utf8_tail b * 64 + utf8_tail c) @ esc_ascii s2
               else (case s2 of
                  [] \<Rightarrow> []
                | d # s3 \<Rightarrow>
                    esc_point (of_char a mod 8 * 262144 + utf8_tail b * 4096 + utf8_tail c * 64
                      + utf8_tail d) @ esc_ascii s3)))"

definition quote :: "bool \<Rightarrow> string \<Rightarrow> string" where
  "quote ascii s = CHR 0x22 # (if ascii then esc_ascii s else concat (map esc_char s)) @ [CHR 0x22]"

section \<open>Values\<close>

fun join :: "string \<Rightarrow> string list \<Rightarrow> string" where
  "join sep [] = []"
| "join sep [x] = x"
| "join sep (x # y # zs) = x @ sep @ join sep (y # zs)"

text \<open>\<open>dumps ascii sorted E v\<close>.\<close>

fun dumps :: "bool \<Rightarrow> bool \<Rightarrow> platform \<Rightarrow> json \<Rightarrow> string" where
  "dumps ascii srt E JNull = ''null''"
| "dumps ascii srt E (JBool b) = (if b then ''true'' else ''false'')"
| "dumps ascii srt E (JInt i) = show_int i"
| "dumps ascii srt E (JFloat q) = p_float_repr E q"
| "dumps ascii srt E (JConst c) = c"
| "dumps ascii srt E (JStr s) = quote ascii s"
| "dumps ascii srt E (JArr xs) = ''['' @ join '','' (map (dumps ascii srt E) xs) @ '']''"
| "dumps ascii srt E (JObj d) =
     (let members = map (\<lambda>(k, v). (k, dumps ascii srt E v)) d;
          ordered = (if srt then sort_key fst members else members)
      in ''{'' @ join '','' (map (\<lambda>(k, t). quote ascii k @ '':'' @ t) ordered) @ ''}'')"

text \<open>\<open>json.dumps(value, sort_keys=True, separators=(",", ":"), ensure_ascii=False)\<close>, encoded.\<close>

definition canonical :: "platform \<Rightarrow> json \<Rightarrow> string" where
  "canonical E v = dumps False True E v"

end
