(* ===== verification/DeliveryAudit.thy ===== *)
theory DeliveryAudit
  imports JsonText
begin

text \<open>
  The offline check of captured delivery evidence (\<open>runtime/native/delivery_audit.py\<close>): the
  delivery envelope, the scan of the captured history pages for an item that carries exactly
  that envelope, and the check of the acknowledgement records. One record holds the variables
  the nested functions of \<open>audit\<close> share.
\<close>

section \<open>Shapes\<close>

definition invalid_capture :: exn where
  "invalid_capture = Raised ''ValueError'' ''invalid_capture''"

text \<open>\<open>shape\<close> returns the dictionary it has checked.\<close>

definition shape :: "json \<Rightarrow> string list \<Rightarrow> string list \<Rightarrow> jdict result" where
  "shape v required optional =
     ensure (is_obj v \<and> keys_include (obj_of v) required \<and> keys_within (obj_of v) (required @ optional))
       invalid_capture (Inr (obj_of v))"

definition positive :: "json \<Rightarrow> bool" where
  "positive v = (is_int v \<and> 1 \<le> int_of v \<and> int_of v \<le> 1000000)"

definition safe :: "json \<Rightarrow> bool" where
  "safe v = (is_str v \<and> id_string (str_of v))"

definition hash_value :: "json \<Rightarrow> bool" where
  "hash_value v = (is_str v \<and> hex_string 64 (str_of v))"

definition parse :: "platform \<Rightarrow> string \<Rightarrow> json result" where
  "parse E text = loads_unique E (Raised ''JSONDecodeError'' []) invalid_capture invalid_capture text"

lemma shape_ok [simp, result_simps]:
  "shape v req opt = Inr d \<longleftrightarrow> v = JObj d \<and> keys_include d req \<and> keys_within d (req @ opt)"
  by (cases v) (auto simp: shape_def)

lemma shape_exact: "shape v req [] = Inr d \<longleftrightarrow> v = JObj d \<and> keys_exact d req"
  by (auto simp: keys_exact_def keys_include_def keys_within_def)

lemma positive_iff: "positive v \<longleftrightarrow> (\<exists>i. v = JInt i \<and> 1 \<le> i \<and> i \<le> 1000000)"
  by (cases v) (auto simp: positive_def)

lemma safe_iff: "safe v \<longleftrightarrow> (\<exists>s. v = JStr s \<and> id_string s)"
  by (cases v) (auto simp: safe_def)

lemma hash_value_iff: "hash_value v \<longleftrightarrow> (\<exists>s. v = JStr s \<and> hex_string 64 s)"
  by (cases v) (auto simp: hash_value_def)

section \<open>The delivery envelope\<close>

definition event_fields :: "string list" where
  "event_fields = [''event_id'', ''event_revision'', ''kind'', ''payload_hash'', ''action_slot'']"

definition envelope_fields :: "string list" where
  "envelope_fields = [''version'', ''delivery_id'', ''controller_thread_id'', ''controller_epoch'',
     ''events'', ''payload_hash'']"

text \<open>One iteration of the loop over the events, with the identifiers and slots seen so far.\<close>

definition check_event :: "json \<Rightarrow> string list \<times> string list \<Rightarrow> (string list \<times> string list) result" where
  "check_event event seen = (case seen of (ids, slots) \<Rightarrow>
     andThen (shape event event_fields []) (\<lambda>d.
     ensure (safe (dget d ''event_id'') \<and> positive (dget d ''event_revision'') \<and> safe (dget d ''action_slot''))
       invalid_capture
    (ensure (in_str_tuple (dget d ''kind'') [''progress'', ''question'', ''result'']) invalid_capture
    (ensure (hash_value (dget d ''payload_hash'')) invalid_capture
    (ensure (str_of (dget d ''event_id'') \<notin> set ids \<and> str_of (dget d ''action_slot'') \<notin> set slots)
       invalid_capture
    (Inr (str_of (dget d ''event_id'') # ids, str_of (dget d ''action_slot'') # slots)))))))"

text \<open>The dictionary without its hash, as the hash is computed over it.\<close>

definition envelope_body :: "jdict \<Rightarrow> jdict" where
  "envelope_body d = filter (\<lambda>(k, _). k \<noteq> ''payload_hash'') d"

definition envelope :: "platform \<Rightarrow> json \<Rightarrow> jdict result" where
  "envelope E v =
     andThen (shape v envelope_fields []) (\<lambda>d.
     ensure (dget d ''version'' = JInt 1) invalid_capture
    (ensure (safe (dget d ''delivery_id'') \<and> safe (dget d ''controller_thread_id'')
        \<and> positive (dget d ''controller_epoch'')) invalid_capture
    (ensure (is_arr (dget d ''events'') \<and> 1 \<le> length (arr_of (dget d ''events''))
        \<and> length (arr_of (dget d ''events'')) \<le> 8) invalid_capture
    (andThen (fold_result check_event (arr_of (dget d ''events'')) ([], [])) (\<lambda>_.
     ensure (dget d ''payload_hash'' = JStr (p_sha256 E (canonical E (JObj (envelope_body d)))))
       invalid_capture
    (Inr d))))))"

section \<open>Scanning the captured history\<close>

record audit_state =
  as_matches :: "(string \<times> string) list"
  as_observed :: "((string \<times> string) \<times> string) list"
  as_identities :: "((string \<times> string) \<times> json) list"
  as_request_ids :: "int list"
  as_complete :: bool
  as_compaction :: bool
  as_prev_next :: json
  as_prev_query :: "json option"

text \<open>The end of \<open>scan_item\<close>: an item that holds the envelope \<open>found\<close>.\<close>

definition note_delivery ::
  "platform \<Rightarrow> jdict \<Rightarrow> string \<times> string \<Rightarrow> jdict \<Rightarrow> audit_state \<Rightarrow> audit_state result" where
  "note_delivery E intent key found st =
    (let encoded = canonical E (JObj found) in
     ensure (case map_of (as_observed st) key of None \<Rightarrow> True | Some prev \<Rightarrow> prev = encoded)
       invalid_capture
    (let st1 = st\<lparr>as_observed := dict_set key encoded (as_observed st)\<rparr>
     in if dget found ''delivery_id'' \<noteq> dget intent ''delivery_id'' then Inr st1
        else ensure (py_eq (JObj found) (JObj intent)) invalid_capture
            (let st2 = st1\<lparr>as_matches := List.insert key (as_matches st1)\<rparr>
             in ensure (length (as_matches st2) \<le> 32) invalid_capture (Inr st2))))"

definition scan_item :: "platform \<Rightarrow> jdict \<Rightarrow> string \<Rightarrow> json \<Rightarrow> audit_state \<Rightarrow> audit_state result" where
  "scan_item E intent turn_id item st =
     ensure (is_obj item \<and> safe (dget (obj_of item) ''id'') \<and> is_str (dget (obj_of item) ''type''))
       invalid_capture
    (let d = obj_of item;
         key = (turn_id, str_of (dget d ''id''));
         identity = JArr [dget d ''type'', dget d ''name'', dget d ''namespace'']
     in ensure (case map_of (as_identities st) key of None \<Rightarrow> True | Some prev \<Rightarrow> py_eq prev identity)
          invalid_capture
       (let st1 = st\<lparr>as_identities := dict_set key identity (as_identities st)\<rparr>;
            st2 = (if dget d ''type'' = JStr ''contextCompaction'' then st1\<lparr>as_compaction := True\<rparr> else st1)
        in if dget d ''type'' \<noteq> JStr ''functionCallOutput'' \<or> dget d ''name'' \<noteq> JStr ''g0_delivery''
           then Inr st2
           else
             andThen (shape item [''id'', ''type'', ''name'', ''output''] [''namespace'']) (\<lambda>_.
             ensure (dget d ''namespace'' = JStr ''orchestration'' \<and> is_str (dget d ''output''))
               invalid_capture
            (andThen (parse E (str_of (dget d ''output''))) (\<lambda>parsed.
             andThen (envelope E parsed) (\<lambda>found.
             note_delivery E intent key found st2))))))"

definition scan_turn :: "platform \<Rightarrow> jdict \<Rightarrow> bool \<Rightarrow> json \<Rightarrow> audit_state \<Rightarrow> audit_state result" where
  "scan_turn E intent full turn st =
     andThen (shape turn [''id'', ''status'', ''items'']
       [''itemsView'', ''error'', ''startedAt'', ''completedAt'', ''durationMs'']) (\<lambda>d.
     ensure (safe (dget d ''id'') \<and>
       in_str_tuple (dget d ''status'') [''inProgress'', ''completed'', ''failed'', ''interrupted''])
       invalid_capture
    (ensure (is_arr (dget d ''items'') \<and> length (arr_of (dget d ''items'')) \<le> 64) invalid_capture
    (let view = dget_or d ''itemsView'' (JStr ''full'') in
     ensure (in_str_tuple view [''full'', ''summary'', ''notLoaded'']) invalid_capture
    (if \<not> full \<or> view \<noteq> JStr ''full'' then Inr (st\<lparr>as_complete := False\<rparr>)
     else fold_result (scan_item E intent (str_of (dget d ''id''))) (arr_of (dget d ''items'')) st))))"

definition valid_cursor :: "json \<Rightarrow> bool" where
  "valid_cursor v = (v = JNull \<or> (is_str v \<and> 0 < py_len (str_of v) \<and> py_len (str_of v) \<le> 256))"

text \<open>The three read methods: the optional parameters of each.\<close>

definition read_optional :: "string \<Rightarrow> string list" where
  "read_optional method =
    (if method = ''thread/read'' then [''includeTurns'']
     else if method = ''thread/turns/list'' then [''cursor'', ''limit'', ''sortDirection'', ''itemsView'']
     else [''cursor'', ''limit'', ''sortDirection'', ''turnId''])"

definition scan_thread_read ::
  "platform \<Rightarrow> jdict \<Rightarrow> nat \<Rightarrow> jdict \<Rightarrow> json \<Rightarrow> audit_state \<Rightarrow> audit_state result" where
  "scan_thread_read E intent n_reads params answer st =
     ensure (dget params ''includeTurns'' = JBool True) invalid_capture
    (andThen (shape answer [''thread''] []) (\<lambda>r.
     let thread = dget r ''thread'' in
     ensure (is_obj thread \<and> dget (obj_of thread) ''id'' = dget intent ''controller_thread_id''
         \<and> is_arr (dget (obj_of thread) ''turns'')) invalid_capture
    (let turns = arr_of (dget (obj_of thread) ''turns'') in
     ensure (length turns \<le> 64) invalid_capture
    (let broken = (dget (obj_of thread) ''historyMode'' = JStr ''paginated'' \<or> n_reads \<noteq> 1)
     in fold_result (scan_turn E intent True) turns (st\<lparr>as_complete := (as_complete st \<and> \<not> broken)\<rparr>)))))"

text \<open>One entry of a \<open>thread/items/list\<close> page.\<close>

definition scan_entry :: "platform \<Rightarrow> jdict \<Rightarrow> jdict \<Rightarrow> json \<Rightarrow> audit_state \<Rightarrow> audit_state result" where
  "scan_entry E intent params entry st =
     andThen (shape entry [''turnId'', ''item''] []) (\<lambda>d.
     ensure (safe (dget d ''turnId'')) invalid_capture
    (ensure (\<not> has_key params ''turnId'' \<or> py_eq (dget params ''turnId'') (dget d ''turnId'')) invalid_capture
    (scan_item E intent (str_of (dget d ''turnId'')) (dget d ''item'') st)))"

text \<open>Whether a page continues the chain of pages captured so far.\<close>

definition page_breaks :: "json \<Rightarrow> json \<Rightarrow> audit_state \<Rightarrow> bool" where
  "page_breaks cursor query st =
    (\<not> py_eq cursor (as_prev_next st) \<or>
     (case as_prev_query st of
        None \<Rightarrow> False
      | Some prev \<Rightarrow> \<not> py_eq query prev \<or> as_prev_next st = JNull))"

text \<open>The bookkeeping of one page: whether the chain breaks, and what the next page must continue.\<close>

definition note_page :: "string \<Rightarrow> jdict \<Rightarrow> jdict \<Rightarrow> audit_state \<Rightarrow> audit_state" where
  "note_page method params r st =
    (let query = JArr [JStr method, dget params ''sortDirection'', dget params ''turnId'', dget params ''itemsView'']
     in st\<lparr>as_complete := (as_complete st \<and> \<not> page_breaks (dget params ''cursor'') query st),
           as_prev_query := Some query, as_prev_next := dget r ''nextCursor''\<rparr>)"

definition scan_page :: "platform \<Rightarrow> jdict \<Rightarrow> string \<Rightarrow> jdict \<Rightarrow> json \<Rightarrow> audit_state \<Rightarrow> audit_state result" where
  "scan_page E intent method params answer st =
     andThen (shape answer [''data''] [''nextCursor'', ''backwardsCursor'']) (\<lambda>r.
     ensure (is_arr (dget r ''data'') \<and> length (arr_of (dget r ''data'')) \<le> 64) invalid_capture
    (ensure (list_all valid_cursor
        [dget params ''cursor'', dget r ''nextCursor'', dget r ''backwardsCursor'']) invalid_capture
    (ensure (\<not> has_key params ''limit'' \<or>
        (is_int (dget params ''limit'') \<and> 1 \<le> int_of (dget params ''limit'') \<and> int_of (dget params ''limit'') \<le> 64))
       invalid_capture
    (ensure (in_str_tuple (dget_or params ''sortDirection''
        (JStr (if method = ''thread/items/list'' then ''asc'' else ''desc''))) [''asc'', ''desc'']) invalid_capture
    (ensure (\<not> has_key params ''turnId'' \<or> safe (dget params ''turnId'')) invalid_capture
    (let st1 = note_page method params r st in
     if method = ''thread/turns/list'' then
       ensure (in_str_tuple (dget_or params ''itemsView'' (JStr ''summary'')) [''full'', ''summary'', ''notLoaded''])
         invalid_capture
      (let full = (dget params ''itemsView'' = JStr ''full'')
       in fold_result (scan_turn E intent full) (arr_of (dget r ''data''))
            (st1\<lparr>as_complete := (as_complete st1 \<and> full)\<rparr>))
     else fold_result (scan_entry E intent params) (arr_of (dget r ''data'')) st1))))))"

definition scan_read :: "platform \<Rightarrow> jdict \<Rightarrow> nat \<Rightarrow> json \<Rightarrow> audit_state \<Rightarrow> audit_state result" where
  "scan_read E intent n_reads read st =
     andThen (shape read [''request'', ''response''] []) (\<lambda>rd.
     andThen (shape (dget rd ''request'') [''id'', ''method'', ''params''] []) (\<lambda>request.
     andThen (shape (dget rd ''response'') [''id'', ''result''] []) (\<lambda>response.
     ensure (positive (dget request ''id'') \<and> dget request ''id'' = dget response ''id'') invalid_capture
    (ensure (int_of (dget request ''id'') \<notin> set (as_request_ids st)) invalid_capture
    (let st1 = st\<lparr>as_request_ids := int_of (dget request ''id'') # as_request_ids st\<rparr> in
     ensure (in_str_tuple (dget request ''method'')
        [''thread/read'', ''thread/turns/list'', ''thread/items/list'']) invalid_capture
    (let method = str_of (dget request ''method'') in
     andThen (shape (dget request ''params'') [''threadId''] (read_optional method)) (\<lambda>params.
     ensure (dget params ''threadId'' = dget intent ''controller_thread_id'') invalid_capture
    (if method = ''thread/read'' then scan_thread_read E intent n_reads params (dget response ''result'') st1
     else scan_page E intent method params (dget response ''result'') st1))))))))"

section \<open>Acknowledgement records\<close>

definition ack_fields :: "string list" where
  "ack_fields = [''delivery_id'', ''controller_thread_id'', ''controller_epoch'', ''event_id'',
     ''event_revision'', ''event_hash'', ''action_slot'', ''decision'', ''command_id'',
     ''decision_count'', ''effect_count'']"

definition ack_decisions :: "string list" where
  "ack_decisions = [''handled'', ''waiting_user'', ''stale'', ''rejected'']"

text \<open>The events of the intent by identifier.\<close>

definition events_by_id :: "jdict \<Rightarrow> (string \<times> jdict) list" where
  "events_by_id intent =
     map (\<lambda>e. (str_of (dget (obj_of e) ''event_id''), obj_of e)) (arr_of (dget intent ''events''))"

definition check_ack ::
  "jdict \<Rightarrow> (string \<times> jdict) list \<Rightarrow> json \<Rightarrow> (string \<times> string) list \<Rightarrow> (string \<times> string) list result" where
  "check_ack intent events rec decisions =
     andThen (shape rec ack_fields []) (\<lambda>d.
     ensure (py_eq (dget d ''delivery_id'') (dget intent ''delivery_id'')
        \<and> py_eq (dget d ''controller_thread_id'') (dget intent ''controller_thread_id'')) invalid_capture
    (ensure (positive (dget d ''controller_epoch'') \<and> dget d ''controller_epoch'' = dget intent ''controller_epoch'')
       invalid_capture
    (andThen (in_str_set (dget d ''event_id'') (map fst events)) (\<lambda>known.
     ensure known invalid_capture
    (let event = (case map_of events (str_of (dget d ''event_id'')) of None \<Rightarrow> [] | Some e \<Rightarrow> e) in
     ensure (positive (dget d ''event_revision'') \<and> dget d ''event_revision'' = dget event ''event_revision'')
       invalid_capture
    (ensure (py_eq (dget d ''event_hash'') (dget event ''payload_hash'')
        \<and> py_eq (dget d ''action_slot'') (dget event ''action_slot'')) invalid_capture
    (ensure (in_str_tuple (dget d ''decision'') ack_decisions \<and> safe (dget d ''command_id'')) invalid_capture
    (ensure (dget d ''decision_count'' = JInt 1) invalid_capture
    (ensure (dget d ''effect_count'' = JInt (if dget d ''decision'' = JStr ''handled'' then 1 else 0)) invalid_capture
    (let eid = str_of (dget d ''event_id''); decision = str_of (dget d ''decision'');
         previous = (case map_of decisions eid of None \<Rightarrow> decision | Some p \<Rightarrow> p)
     in ensure (previous = decision) invalid_capture
       (Inr (if map_of decisions eid = None then decisions @ [(eid, decision)] else decisions))))))))))))"

section \<open>The audit\<close>

record audit_report =
  ar_version :: int
  ar_scope :: string
  ar_source_service_verified :: bool
  ar_delivery_id :: string
  ar_transport_evidence :: string
  ar_matched_history_items :: nat
  ar_duplicate_displays :: int
  ar_captured_page_chain_complete :: bool
  ar_compaction_seen :: bool
  ar_absence_proof :: bool
  ar_resend_authorized :: bool
  ar_transport_gate :: string
  ar_acknowledged_event_ids :: "string list"
  ar_pending_event_ids :: "string list"
  ar_waiting_user_event_ids :: "string list"
  ar_unique_ack_slots :: nat
  ar_business_ack_complete :: bool

definition initial_state :: "bool \<Rightarrow> audit_state" where
  "initial_state has_reads = \<lparr>as_matches = [], as_observed = [], as_identities = [], as_request_ids = [],
     as_complete = has_reads, as_compaction = False, as_prev_next = JNull, as_prev_query = None\<rparr>"

definition make_report ::
  "jdict \<Rightarrow> audit_state \<Rightarrow> (string \<times> jdict) list \<Rightarrow> (string \<times> string) list \<Rightarrow> audit_report" where
  "make_report intent st events decisions =
    (let ids = map fst events; n = length (as_matches st) in
     \<lparr>ar_version = 1, ar_scope = ''offline_captured_data_only'', ar_source_service_verified = False,
      ar_delivery_id = str_of (dget intent ''delivery_id''),
      ar_transport_evidence = (if as_matches st \<noteq> [] then ''exact_history_marker'' else ''uncertain''),
      ar_matched_history_items = n,
      ar_duplicate_displays = max 0 (int n - 1),
      ar_captured_page_chain_complete = as_complete st,
      ar_compaction_seen = as_compaction st,
      ar_absence_proof = False,
      ar_resend_authorized = False,
      ar_transport_gate = (if as_matches st \<noteq> [] then ''history_match_observed'' else ''blocked_uncertain''),
      ar_acknowledged_event_ids = filter (\<lambda>k. k \<in> set (map fst decisions)) ids,
      ar_pending_event_ids = filter (\<lambda>k. k \<notin> set (map fst decisions)) ids,
      ar_waiting_user_event_ids = filter (\<lambda>k. map_of decisions k = Some ''waiting_user'') ids,
      ar_unique_ack_slots = length decisions,
      ar_business_ack_complete = (length decisions = length events)\<rparr>)"

definition audit :: "platform \<Rightarrow> json \<Rightarrow> audit_report result" where
  "audit E data =
     andThen (shape data [''version'', ''intent'', ''reads'', ''acks''] []) (\<lambda>d.
     ensure (dget d ''version'' = JInt 1) invalid_capture
    (andThen (envelope E (dget d ''intent'')) (\<lambda>intent.
     ensure (is_arr (dget d ''reads'') \<and> length (arr_of (dget d ''reads'')) \<le> 16) invalid_capture
    (ensure (is_arr (dget d ''acks'') \<and> length (arr_of (dget d ''acks'')) \<le> 32) invalid_capture
    (let reads = arr_of (dget d ''reads'') in
     andThen (fold_result (scan_read E intent (length reads)) reads (initial_state (reads \<noteq> []))) (\<lambda>st.
     let st' = st\<lparr>as_complete := (as_complete st \<and> as_prev_next st = JNull)\<rparr>;
         events = events_by_id intent
     in andThen (fold_result (check_ack intent events) (arr_of (dget d ''acks'')) []) (\<lambda>decisions.
        Inr (make_report intent st' events decisions))))))))"

section \<open>The envelope check against its specification\<close>

text \<open>What a well-formed event is.\<close>

definition event_wf :: "json \<Rightarrow> bool" where
  "event_wf e \<longleftrightarrow> (\<exists>d. e = JObj d \<and> keys_exact d event_fields
     \<and> safe (dget d ''event_id'') \<and> positive (dget d ''event_revision'') \<and> safe (dget d ''action_slot'')
     \<and> in_str_tuple (dget d ''kind'') [''progress'', ''question'', ''result'']
     \<and> hash_value (dget d ''payload_hash''))"

definition event_id :: "json \<Rightarrow> string" where
  "event_id e = str_of (dget (obj_of e) ''event_id'')"

definition event_slot :: "json \<Rightarrow> string" where
  "event_slot e = str_of (dget (obj_of e) ''action_slot'')"

text \<open>What a well-formed envelope is: the shape, distinct identifiers and slots, and the hash.\<close>

definition envelope_wf :: "platform \<Rightarrow> jdict \<Rightarrow> bool" where
  "envelope_wf E d \<longleftrightarrow> keys_exact d envelope_fields \<and> dget d ''version'' = JInt 1
     \<and> safe (dget d ''delivery_id'') \<and> safe (dget d ''controller_thread_id'')
     \<and> positive (dget d ''controller_epoch'')
     \<and> (\<exists>es. dget d ''events'' = JArr es \<and> 1 \<le> length es \<and> length es \<le> 8 \<and> (\<forall>e \<in> set es. event_wf e)
          \<and> distinct (map event_id es) \<and> distinct (map event_slot es))
     \<and> dget d ''payload_hash'' = JStr (p_sha256 E (canonical E (JObj (envelope_body d))))"

lemma check_event_ok:
  "check_event e (ids, slots) = Inr st \<longleftrightarrow>
     event_wf e \<and> event_id e \<notin> set ids \<and> event_slot e \<notin> set slots
     \<and> st = (event_id e # ids, event_slot e # slots)"
  by (auto simp: check_event_def event_wf_def event_id_def event_slot_def shape_exact
      simp del: shape_ok)

lemma check_events_ok:
  "fold_result check_event es (ids, slots) = Inr st \<longleftrightarrow>
     (\<forall>e \<in> set es. event_wf e) \<and> distinct (map event_id es) \<and> distinct (map event_slot es)
     \<and> set (map event_id es) \<inter> set ids = {} \<and> set (map event_slot es) \<inter> set slots = {}
     \<and> st = (rev (map event_id es) @ ids, rev (map event_slot es) @ slots)"
proof (induction es arbitrary: ids slots)
  case Nil
  then show ?case by auto
next
  case (Cons e es)
  then show ?case by (auto simp: check_event_ok)
qed

lemma envelope_ok:
  "envelope E v = Inr d \<longleftrightarrow> v = JObj d \<and> envelope_wf E d"
  by (auto simp: envelope_def envelope_wf_def shape_exact check_events_ok json_kind_iffs
      simp del: shape_ok)

lemma envelope_intent:
  assumes "envelope E v = Inr d"
  obtains i t es where "dget d ''delivery_id'' = JStr i" "dget d ''controller_thread_id'' = JStr t"
    "dget d ''events'' = JArr es" "\<forall>e \<in> set es. event_wf e" "distinct (map event_id es)"
  using assms by (auto simp: envelope_ok envelope_wf_def safe_iff)

section \<open>Which history items count as a match\<close>

text \<open>
  An item carries the intent when it is the output of the delivery tool in its namespace and
  its text parses to a value equal to the intent.
\<close>

definition carries :: "platform \<Rightarrow> jdict \<Rightarrow> json \<Rightarrow> bool" where
  "carries E intent item \<longleftrightarrow> (\<exists>d out v. item = JObj d
     \<and> dget d ''type'' = JStr ''functionCallOutput'' \<and> dget d ''name'' = JStr ''g0_delivery''
     \<and> dget d ''namespace'' = JStr ''orchestration'' \<and> dget d ''output'' = JStr out
     \<and> p_scan E out = Some v \<and> py_eq v (JObj intent))"

definition item_key :: "string \<times> json \<Rightarrow> string \<times> string" where
  "item_key ti = (fst ti, str_of (dget (obj_of (snd ti)) ''id''))"

text \<open>The items of a capture that are scanned, each with the turn it belongs to.\<close>

definition turn_items :: "bool \<Rightarrow> json \<Rightarrow> (string \<times> json) set" where
  "turn_items full turn = (let d = obj_of turn in
     if full \<and> dget_or d ''itemsView'' (JStr ''full'') = JStr ''full''
     then Pair (str_of (dget d ''id'')) ` set (arr_of (dget d ''items'')) else {})"

definition entry_items :: "json \<Rightarrow> (string \<times> json) set" where
  "entry_items entry = {(str_of (dget (obj_of entry) ''turnId''), dget (obj_of entry) ''item'')}"

definition read_items :: "json \<Rightarrow> (string \<times> json) set" where
  "read_items read =
    (let request = obj_of (dget (obj_of read) ''request'');
         answer = obj_of (dget (obj_of (dget (obj_of read) ''response'')) ''result'');
         params = obj_of (dget request ''params'')
     in if dget request ''method'' = JStr ''thread/read'' then
          (\<Union>turn \<in> set (arr_of (dget (obj_of (dget answer ''thread'')) ''turns'')). turn_items True turn)
        else if dget request ''method'' = JStr ''thread/turns/list'' then
          (\<Union>turn \<in> set (arr_of (dget answer ''data'')).
             turn_items (dget params ''itemsView'' = JStr ''full'') turn)
        else (\<Union>entry \<in> set (arr_of (dget answer ''data'')). entry_items entry))"

text \<open>The keys of the items among \<open>xs\<close> that carry the intent.\<close>

definition carrying :: "platform \<Rightarrow> jdict \<Rightarrow> (string \<times> json) set \<Rightarrow> (string \<times> string) set" where
  "carrying E intent xs = item_key ` {ti \<in> xs. carries E intent (snd ti)}"

lemma carrying_Union [simp]: "carrying E intent (\<Union>x \<in> A. f x) = (\<Union>x \<in> A. carrying E intent (f x))"
  by (auto simp: carrying_def)

lemma carrying_empty [simp]: "carrying E intent {} = {}"
  by (simp add: carrying_def)

lemma py_eq_obj_get:
  assumes "py_eq (JObj d) (JObj e)" and "has_key d k"
  shows "py_eq (dget d k) (dget e k)"
proof -
  from assms(2) obtain v where v: "map_of d k = Some v" by (auto simp: has_key_iff)
  with assms(1) have "case map_of e k of None \<Rightarrow> False | Some y \<Rightarrow> py_eq v y"
    by (auto simp: list_all_iff dest!: map_of_SomeD)
  with v show ?thesis by (simp add: dget_def split: option.splits)
qed

lemma note_delivery_step:
  assumes ok: "note_delivery E intent key found st = Inr st'"
    and "dget intent ''delivery_id'' = JStr i" and "has_key found ''delivery_id''"
  shows "as_matches st' = (if py_eq (JObj found) (JObj intent)
    then List.insert key (as_matches st) else as_matches st)"
proof (cases "dget found ''delivery_id'' = dget intent ''delivery_id''")
  case True
  with ok show ?thesis by (auto simp: note_delivery_def Let_def simp del: py_eq.simps)
next
  case False
  with assms py_eq_obj_get [OF _ assms(3)] have "\<not> py_eq (JObj found) (JObj intent)"
    by (metis py_eq_str)
  with False ok show ?thesis by (auto simp: note_delivery_def Let_def simp del: py_eq.simps)
qed

lemma scan_item_step:
  assumes ok: "scan_item E intent t item st = Inr st'" and int: "dget intent ''delivery_id'' = JStr i"
  shows "as_matches st' = (if carries E intent item
    then List.insert (item_key (t, item)) (as_matches st) else as_matches st)"
proof -
  obtain d where item: "item = JObj d" using ok by (auto simp: scan_item_def json_kind_iffs)
  show ?thesis
  proof (cases "dget d ''type'' = JStr ''functionCallOutput'' \<and> dget d ''name'' = JStr ''g0_delivery''")
    case False
    then have "\<not> carries E intent item" by (auto simp: carries_def item)
    with ok False item show ?thesis
      by (auto simp: scan_item_def Let_def split: if_splits)
  next
    case True
    with ok item obtain out found ids where
      out: "dget d ''output'' = JStr out" "dget d ''namespace'' = JStr ''orchestration''"
      and v: "p_scan E out = Some (JObj found)" "envelope_wf E found"
      and st': "note_delivery E intent (t, str_of (dget d ''id'')) found (st\<lparr>as_identities := ids\<rparr>) = Inr st'"
      by (auto simp: scan_item_def Let_def json_kind_iffs parse_def loads_unique_ok envelope_ok)
    have "has_key found ''delivery_id''"
      using v(2) keys_exact_has [of found envelope_fields "''delivery_id''"]
      by (simp add: envelope_wf_def envelope_fields_def)
    from note_delivery_step [OF st' int this] v out item True show ?thesis
      by (simp add: carries_def item_key_def del: py_eq.simps)
  qed
qed

lemma scan_item_matches:
  assumes "scan_item E intent t item st = Inr st'" and "dget intent ''delivery_id'' = JStr i"
  shows "set (as_matches st') = set (as_matches st) \<union> carrying E intent {(t, item)}"
  using scan_item_step [OF assms] by (auto simp: carrying_def)

lemma scan_turn_matches:
  assumes ok: "scan_turn E intent full turn st = Inr st'" and int: "dget intent ''delivery_id'' = JStr i"
  shows "set (as_matches st') = set (as_matches st) \<union> carrying E intent (turn_items full turn)"
proof -
  from ok obtain d where turn: "turn = JObj d" by (auto simp: scan_turn_def Let_def)
  let ?full = "full \<and> dget_or d ''itemsView'' (JStr ''full'') = JStr ''full''"
  show ?thesis
  proof (cases ?full)
    case False
    with ok turn show ?thesis by (auto simp: scan_turn_def turn_items_def Let_def split: if_splits)
  next
    case True
    with ok turn have "fold_result (scan_item E intent (str_of (dget d ''id'')))
        (arr_of (dget d ''items'')) st = Inr st'"
      by (auto simp: scan_turn_def Let_def)
    from fold_result_union [where m = "\<lambda>s. set (as_matches s)", OF this scan_item_matches [OF _ int]]
    show ?thesis using True turn
      by (auto simp: turn_items_def carrying_def)
  qed
qed

lemma scan_entry_matches:
  assumes "scan_entry E intent params entry st = Inr st'" and int: "dget intent ''delivery_id'' = JStr i"
  shows "set (as_matches st') = set (as_matches st) \<union> carrying E intent (entry_items entry)"
proof -
  from assms(1) obtain d where "entry = JObj d"
    and "scan_item E intent (str_of (dget d ''turnId'')) (dget d ''item'') st = Inr st'"
    by (auto simp: scan_entry_def simp del: py_eq.simps)
  with scan_item_matches [OF _ int] show ?thesis by (simp add: entry_items_def)
qed

text \<open>The loops over turns and over entries.\<close>

lemma scan_turns_matches:
  assumes "fold_result (scan_turn E intent full) turns st = Inr st'"
    and int: "dget intent ''delivery_id'' = JStr i"
  shows "set (as_matches st') = set (as_matches st) \<union>
    carrying E intent (\<Union>turn \<in> set turns. turn_items full turn)"
  using fold_result_union [where m = "\<lambda>s. set (as_matches s)", OF assms(1) scan_turn_matches [OF _ int]]
  by simp

lemma scan_entries_matches:
  assumes "fold_result (scan_entry E intent params) entries st = Inr st'"
    and int: "dget intent ''delivery_id'' = JStr i"
  shows "set (as_matches st') = set (as_matches st) \<union>
    carrying E intent (\<Union>entry \<in> set entries. entry_items entry)"
  using fold_result_union [where m = "\<lambda>s. set (as_matches s)", OF assms(1) scan_entry_matches [OF _ int]]
  by simp

lemma scan_thread_read_matches:
  assumes "scan_thread_read E intent n params answer st = Inr st'"
    and int: "dget intent ''delivery_id'' = JStr i"
  shows "set (as_matches st') = set (as_matches st) \<union> carrying E intent
    (\<Union>turn \<in> set (arr_of (dget (obj_of (dget (obj_of answer) ''thread'')) ''turns'')). turn_items True turn)"
proof -
  from assms(1) obtain c where "fold_result (scan_turn E intent True)
      (arr_of (dget (obj_of (dget (obj_of answer) ''thread'')) ''turns'')) (st\<lparr>as_complete := c\<rparr>) = Inr st'"
    by (auto simp: scan_thread_read_def Let_def)
  from scan_turns_matches [OF this int] show ?thesis by simp
qed

lemma scan_page_matches:
  assumes "scan_page E intent method params answer st = Inr st'"
    and int: "dget intent ''delivery_id'' = JStr i"
  shows "set (as_matches st') = set (as_matches st) \<union> carrying E intent
    (if method = ''thread/turns/list'' then
       \<Union>turn \<in> set (arr_of (dget (obj_of answer) ''data'')). turn_items (dget params ''itemsView'' = JStr ''full'') turn
     else \<Union>entry \<in> set (arr_of (dget (obj_of answer) ''data'')). entry_items entry)"
proof (cases "method = ''thread/turns/list''")
  case True
  with assms(1) obtain r c where "answer = JObj r"
    and run: "fold_result (scan_turn E intent (dget params ''itemsView'' = JStr ''full''))
      (arr_of (dget r ''data'')) ((note_page method params r st)\<lparr>as_complete := c\<rparr>) = Inr st'"
    by (auto simp: scan_page_def Let_def)
  with scan_turns_matches [OF run int] True show ?thesis by (simp add: note_page_def Let_def)
next
  case False
  with assms(1) obtain r where "answer = JObj r"
    and run: "fold_result (scan_entry E intent params) (arr_of (dget r ''data''))
      (note_page method params r st) = Inr st'"
    by (auto simp: scan_page_def Let_def)
  with scan_entries_matches [OF run int] False show ?thesis by (simp add: note_page_def Let_def)
qed

lemma scan_read_matches:
  assumes "scan_read E intent n read st = Inr st'" and int: "dget intent ''delivery_id'' = JStr i"
  shows "set (as_matches st') = set (as_matches st) \<union> carrying E intent (read_items read)"
proof -
  from assms(1) obtain rd request response params ids where
    parts: "read = JObj rd" "dget rd ''request'' = JObj request" "dget rd ''response'' = JObj response"
      "dget request ''params'' = JObj params" "is_str (dget request ''method'')"
    and run: "(if str_of (dget request ''method'') = ''thread/read''
      then scan_thread_read E intent n params (dget response ''result'') (st\<lparr>as_request_ids := ids\<rparr>)
      else scan_page E intent (str_of (dget request ''method'')) params (dget response ''result'')
        (st\<lparr>as_request_ids := ids\<rparr>)) = Inr st'"
    by (auto simp: scan_read_def Let_def in_str_tuple_iff simp del: if_split)
  from parts(5) obtain m where m: "dget request ''method'' = JStr m" by (auto simp: is_str_iff)
  show ?thesis
  proof (cases "m = ''thread/read''")
    case True
    with run m have "scan_thread_read E intent n params (dget response ''result'')
        (st\<lparr>as_request_ids := ids\<rparr>) = Inr st'" by simp
    from scan_thread_read_matches [OF this int] True m parts show ?thesis
      by (simp add: read_items_def Let_def)
  next
    case False
    with run m have "scan_page E intent m params (dget response ''result'')
        (st\<lparr>as_request_ids := ids\<rparr>) = Inr st'" by simp
    from scan_page_matches [OF this int] False m parts show ?thesis
      by (simp add: read_items_def Let_def)
  qed
qed

text \<open>No item is counted twice.\<close>

lemma scan_item_distinct:
  assumes "dget intent ''delivery_id'' = JStr i" and "distinct (as_matches st)"
    and "scan_item E intent t item st = Inr st'"
  shows "distinct (as_matches st')"
  using assms(2) scan_item_step [OF assms(3,1)] by simp

lemma scan_turn_distinct:
  assumes "dget intent ''delivery_id'' = JStr i" and "distinct (as_matches st)"
    and "scan_turn E intent full turn st = Inr st'"
  shows "distinct (as_matches st')"
  using assms(2,3)
  by (auto simp: scan_turn_def Let_def split: if_splits
      elim!: fold_result_invariant intro: scan_item_distinct [OF assms(1)])

lemma scan_entry_distinct:
  assumes "dget intent ''delivery_id'' = JStr i" and "distinct (as_matches st)"
    and "scan_entry E intent params entry st = Inr st'"
  shows "distinct (as_matches st')"
  using assms(2,3) scan_item_distinct [OF assms(1)] by (auto simp: scan_entry_def simp del: py_eq.simps)

lemma scan_turns_distinct:
  assumes "dget intent ''delivery_id'' = JStr i" and "distinct (as_matches st)"
    and "fold_result (scan_turn E intent full) turns st = Inr st'"
  shows "distinct (as_matches st')"
  using fold_result_invariant [where P = "\<lambda>s. distinct (as_matches s)", OF assms(3,2)]
    scan_turn_distinct [OF assms(1)] by blast

lemma scan_entries_distinct:
  assumes "dget intent ''delivery_id'' = JStr i" and "distinct (as_matches st)"
    and "fold_result (scan_entry E intent params) entries st = Inr st'"
  shows "distinct (as_matches st')"
  using fold_result_invariant [where P = "\<lambda>s. distinct (as_matches s)", OF assms(3,2)]
    scan_entry_distinct [OF assms(1)] by blast

lemma scan_thread_read_distinct:
  assumes "dget intent ''delivery_id'' = JStr i" and "distinct (as_matches st)"
    and "scan_thread_read E intent n params answer st = Inr st'"
  shows "distinct (as_matches st')"
proof -
  from assms(3) obtain c turns where
    "fold_result (scan_turn E intent True) turns (st\<lparr>as_complete := c\<rparr>) = Inr st'"
    by (auto simp: scan_thread_read_def Let_def)
  from scan_turns_distinct [OF assms(1) _ this] assms(2) show ?thesis by simp
qed

lemma scan_page_distinct:
  assumes "dget intent ''delivery_id'' = JStr i" and "distinct (as_matches st)"
    and "scan_page E intent method params answer st = Inr st'"
  shows "distinct (as_matches st')"
proof (cases "method = ''thread/turns/list''")
  case True
  with assms(3) obtain r c turns full where
    "fold_result (scan_turn E intent full) turns ((note_page method params r st)\<lparr>as_complete := c\<rparr>) = Inr st'"
    by (auto simp: scan_page_def Let_def)
  from scan_turns_distinct [OF assms(1) _ this] assms(2) show ?thesis
    by (simp add: note_page_def Let_def)
next
  case False
  with assms(3) obtain r entries where
    "fold_result (scan_entry E intent params) entries (note_page method params r st) = Inr st'"
    by (auto simp: scan_page_def Let_def)
  from scan_entries_distinct [OF assms(1) _ this] assms(2) show ?thesis
    by (simp add: note_page_def Let_def)
qed

lemma scan_read_distinct:
  assumes "dget intent ''delivery_id'' = JStr i" and "distinct (as_matches st)"
    and "scan_read E intent n read st = Inr st'"
  shows "distinct (as_matches st')"
proof -
  from assms(3) obtain m params answer ids where
    run: "(if m = ''thread/read'' then scan_thread_read E intent n params answer (st\<lparr>as_request_ids := ids\<rparr>)
     else scan_page E intent m params answer (st\<lparr>as_request_ids := ids\<rparr>)) = Inr st'"
    by (auto simp: scan_read_def Let_def simp del: if_split)
  have "distinct (as_matches (st\<lparr>as_request_ids := ids\<rparr>))" using assms(2) by simp
  from run scan_thread_read_distinct [OF assms(1) this] scan_page_distinct [OF assms(1) this]
  show ?thesis by (auto split: if_splits)
qed

section \<open>The acknowledgement records\<close>

definition ack_event :: "json \<Rightarrow> string" where
  "ack_event a = str_of (dget (obj_of a) ''event_id'')"

definition ack_decision :: "json \<Rightarrow> string" where
  "ack_decision a = str_of (dget (obj_of a) ''decision'')"

lemma check_ack_ok:
  assumes "check_ack intent events a ds = Inr ds'"
  shows "ack_event a \<in> set (map fst events) \<and> ack_decision a \<in> set ack_decisions
    \<and> (case map_of ds (ack_event a) of None \<Rightarrow> ack_decision a | Some p \<Rightarrow> p) = ack_decision a
    \<and> ds' = (if map_of ds (ack_event a) = None then ds @ [(ack_event a, ack_decision a)] else ds)"
proof -
  from assms obtain d where a: "a = JObj d" by (auto simp: check_ack_def)
  have "in_str_set (dget d ''event_id'') (map fst events) = Inr True"
      and "in_str_tuple (dget d ''decision'') ack_decisions"
    using assms by (auto simp: check_ack_def a Let_def simp del: in_str_set_True py_eq.simps if_split)
  then have "ack_event a \<in> set (map fst events)" "ack_decision a \<in> set ack_decisions"
    by (force simp: a ack_event_def ack_decision_def in_str_tuple_iff)+
  moreover have "(case map_of ds (ack_event a) of None \<Rightarrow> ack_decision a | Some p \<Rightarrow> p) = ack_decision a"
      and "ds' = (if map_of ds (ack_event a) = None then ds @ [(ack_event a, ack_decision a)] else ds)"
    using assms unfolding ack_event_def ack_decision_def a json_kind_simps
    by (auto simp: check_ack_def a Let_def simp del: in_str_set_True py_eq.simps if_split)
  ultimately show ?thesis by blast
qed

lemma check_ack_adds:
  assumes "check_ack intent events a ds = Inr ds'"
  shows "set ds' = set ds \<union> {(ack_event a, ack_decision a)}"
proof (cases "map_of ds (ack_event a)")
  case None
  with check_ack_ok [OF assms] show ?thesis by simp
next
  case (Some p)
  with check_ack_ok [OF assms] map_of_SomeD [OF Some] show ?thesis by auto
qed

definition decisions_inv :: "(string \<times> jdict) list \<Rightarrow> (string \<times> string) list \<Rightarrow> bool" where
  "decisions_inv events ds \<longleftrightarrow> distinct (map fst ds) \<and> set (map fst ds) \<subseteq> set (map fst events)"

lemma check_ack_inv:
  "decisions_inv events ds \<Longrightarrow> check_ack intent events a ds = Inr ds' \<Longrightarrow> decisions_inv events ds'"
  using check_ack_ok [of intent events a ds ds']
  by (auto simp: decisions_inv_def map_of_eq_None_iff split: if_splits)

lemma check_acks:
  assumes "fold_result (check_ack intent events) acks [] = Inr ds"
  shows "set ds = (\<lambda>a. (ack_event a, ack_decision a)) ` set acks" and "decisions_inv events ds"
proof -
  show "set ds = (\<lambda>a. (ack_event a, ack_decision a)) ` set acks"
    using fold_result_union [where m = set, OF assms check_ack_adds] by auto
  show "decisions_inv events ds"
    by (rule fold_result_invariant [OF assms]) (auto simp: decisions_inv_def [of _ "[]"] intro: check_ack_inv)
qed

section \<open>What a report says\<close>

definition audit_intent :: "json \<Rightarrow> jdict" where
  "audit_intent data = obj_of (dget (obj_of data) ''intent'')"

definition audit_reads :: "json \<Rightarrow> json list" where
  "audit_reads data = arr_of (dget (obj_of data) ''reads'')"

definition audit_acks :: "json \<Rightarrow> json list" where
  "audit_acks data = arr_of (dget (obj_of data) ''acks'')"

definition intent_event_ids :: "jdict \<Rightarrow> string list" where
  "intent_event_ids intent = map event_id (arr_of (dget intent ''events''))"

lemma events_by_id_keys: "map fst (events_by_id intent) = intent_event_ids intent"
  by (simp add: events_by_id_def intent_event_ids_def event_id_def)

lemma audit_ok:
  assumes "audit E data = Inr rep"
  obtains st ds c where "envelope E (dget (obj_of data) ''intent'') = Inr (audit_intent data)"
    and "fold_result (scan_read E (audit_intent data) (length (audit_reads data))) (audit_reads data)
      (initial_state (audit_reads data \<noteq> [])) = Inr st"
    and "fold_result (check_ack (audit_intent data) (events_by_id (audit_intent data))) (audit_acks data) [] = Inr ds"
    and "rep = make_report (audit_intent data) (st\<lparr>as_complete := c\<rparr>) (events_by_id (audit_intent data)) ds"
proof -
  from assms obtain d intent where data: "data = JObj d"
    and int: "envelope E (dget d ''intent'') = Inr intent"
    by (auto simp: audit_def)
  from int have intent: "audit_intent data = intent" by (simp add: audit_intent_def data envelope_ok)
  show thesis
    using assms int that by (auto simp: audit_def Let_def data audit_reads_def audit_acks_def
        intent [unfolded data])
qed

lemma audit_intent_wf:
  assumes "envelope E (dget (obj_of data) ''intent'') = Inr (audit_intent data)"
  shows "envelope_wf E (audit_intent data)" and "distinct (intent_event_ids (audit_intent data))"
  using assms by (auto simp: envelope_ok envelope_wf_def intent_event_ids_def)

text \<open>
  The number of matches the audit reports is the number of distinct items (by turn and item
  identifier) among all scanned items of all captured reads that carry exactly the intent; the
  transport evidence is positive when there is one; more than 32 are never reported.
\<close>

theorem audit_counts_exact_matches:
  assumes "audit E data = Inr rep"
  shows "ar_matched_history_items rep =
      card (carrying E (audit_intent data) (\<Union>r \<in> set (audit_reads data). read_items r))
    \<and> (ar_transport_evidence rep = ''exact_history_marker'' \<longleftrightarrow>
       (\<exists>r \<in> set (audit_reads data). \<exists>ti \<in> read_items r. carries E (audit_intent data) (snd ti)))"
proof -
  from assms obtain st ds c where env: "envelope E (dget (obj_of data) ''intent'') = Inr (audit_intent data)"
    and run: "fold_result (scan_read E (audit_intent data) (length (audit_reads data))) (audit_reads data)
      (initial_state (audit_reads data \<noteq> [])) = Inr st"
    and rep: "rep = make_report (audit_intent data) (st\<lparr>as_complete := c\<rparr>) (events_by_id (audit_intent data)) ds"
    by (rule audit_ok)
  from env obtain i where i: "dget (audit_intent data) ''delivery_id'' = JStr i"
    by (rule envelope_intent)
  have "set (as_matches st) = (\<Union>r \<in> set (audit_reads data). carrying E (audit_intent data) (read_items r))"
    using fold_result_union [where m = "\<lambda>s. set (as_matches s)", OF run scan_read_matches [OF _ i]]
    by (simp add: initial_state_def)
  moreover have "distinct (as_matches st)"
    by (rule fold_result_invariant [OF run])
       (auto simp: initial_state_def intro: scan_read_distinct [OF i])
  ultimately have "length (as_matches st) =
      card (carrying E (audit_intent data) (\<Union>r \<in> set (audit_reads data). read_items r))"
    and "as_matches st \<noteq> [] \<longleftrightarrow> (\<exists>r \<in> set (audit_reads data).
      carrying E (audit_intent data) (read_items r) \<noteq> {})"
    using distinct_card [of "as_matches st"] by (simp, simp flip: set_empty)
  moreover have "ar_matched_history_items rep = length (as_matches st)"
    and "ar_transport_evidence rep = ''exact_history_marker'' \<longleftrightarrow> as_matches st \<noteq> []"
    using rep by (simp_all add: make_report_def Let_def)
  moreover have "carrying E (audit_intent data) A \<noteq> {} \<longleftrightarrow>
      (\<exists>ti \<in> A. carries E (audit_intent data) (snd ti))" for A
    unfolding carrying_def by blast
  ultimately show ?thesis by simp
qed

text \<open>
  The acknowledged and the pending event identifiers partition the identifiers of the
  intent; the batch counts as acknowledged exactly when every event of the intent has a record,
  and two records for the same event never decide it differently.
\<close>

theorem audit_acknowledgements:
  assumes "audit E data = Inr rep"
  shows "set (ar_acknowledged_event_ids rep) \<union> set (ar_pending_event_ids rep) = set (intent_event_ids (audit_intent data))
    \<and> set (ar_acknowledged_event_ids rep) = ack_event ` set (audit_acks data)
    \<and> set (ar_acknowledged_event_ids rep) \<inter> set (ar_pending_event_ids rep) = {}
    \<and> (ar_business_ack_complete rep \<longleftrightarrow> set (intent_event_ids (audit_intent data)) = ack_event ` set (audit_acks data))
    \<and> (\<forall>a \<in> set (audit_acks data). \<forall>b \<in> set (audit_acks data).
         ack_event a = ack_event b \<longrightarrow> ack_decision a = ack_decision b)"
proof -
  from assms obtain st ds c where env: "envelope E (dget (obj_of data) ''intent'') = Inr (audit_intent data)"
    and acks: "fold_result (check_ack (audit_intent data) (events_by_id (audit_intent data))) (audit_acks data) [] = Inr ds"
    and rep: "rep = make_report (audit_intent data) (st\<lparr>as_complete := c\<rparr>) (events_by_id (audit_intent data)) ds"
    by (rule audit_ok)
  let ?ids = "intent_event_ids (audit_intent data)"
  note ds = check_acks [OF acks, unfolded decisions_inv_def events_by_id_keys]
  have keys: "set (map fst ds) = ack_event ` set (audit_acks data)" using ds(1) by force
  have complete: "length ds = length ?ids \<longleftrightarrow> set (map fst ds) = set ?ids"
  proof -
    have "length ds = card (set (map fst ds))" using ds(2) distinct_card [of "map fst ds"] by simp
    moreover have "length ?ids = card (set ?ids)" using audit_intent_wf(2) [OF env] distinct_card by force
    ultimately show ?thesis using ds(2) card_subset_eq [of "set ?ids" "set (map fst ds)"] by auto
  qed
  have unique: "ack_decision a = ack_decision b"
    if "a \<in> set (audit_acks data)" "b \<in> set (audit_acks data)" "ack_event a = ack_event b" for a b
  proof -
    have "(ack_event x, ack_decision x) \<in> set ds" if "x \<in> set (audit_acks data)" for x
      unfolding ds(1) using that by (rule imageI)
    with that have "(ack_event a, ack_decision a) \<in> set ds" "(ack_event a, ack_decision b) \<in> set ds"
      by metis+
    then show ?thesis by (rule eq_key_imp_eq_value [OF conjunct1 [OF ds(2)]])
  qed
  have "length (events_by_id (audit_intent data)) = length ?ids"
    using events_by_id_keys [of "audit_intent data"] by (metis length_map)
  then have rep': "ar_acknowledged_event_ids rep = filter (\<lambda>k. k \<in> set (map fst ds)) ?ids"
    "ar_pending_event_ids rep = filter (\<lambda>k. k \<notin> set (map fst ds)) ?ids"
    "ar_business_ack_complete rep \<longleftrightarrow> length ds = length ?ids"
    by (simp_all add: rep make_report_def Let_def events_by_id_keys)
  have sub: "set (map fst ds) \<subseteq> set ?ids" using ds(2) by blast
  have "set (filter (\<lambda>k. k \<in> set (map fst ds)) ?ids) = set (map fst ds)" using sub by (simp only: set_filter) blast
  then show ?thesis
    unfolding rep' complete keys [symmetric] using unique by (simp only: set_filter) blast
qed

section \<open>A sample capture\<close>

text \<open>
  One delivery of one event, one history read that shows it and one acknowledgement. The sample
  platform stands in for the interpreter: a constant digest and a scanner that knows one text.
\<close>

definition sample_digest :: string where
  "sample_digest = replicate 64 CHR ''0''"

definition sample_event :: json where
  "sample_event = JObj [(''event_id'', JStr ''event-1''), (''event_revision'', JInt 1), (''kind'', JStr ''result''),
     (''payload_hash'', JStr sample_digest), (''action_slot'', JStr ''slot-1'')]"

definition sample_intent :: jdict where
  "sample_intent = [(''version'', JInt 1), (''delivery_id'', JStr ''delivery-1''), (''controller_thread_id'', JStr ''owner''),
     (''controller_epoch'', JInt 3), (''events'', JArr [sample_event]), (''payload_hash'', JStr sample_digest)]"

definition sample_platform :: platform where
  "sample_platform = \<lparr>p_sha256 = \<lambda>_. sample_digest,
     p_scan = \<lambda>text. if text = ''envelope'' then Some (JObj sample_intent) else None,
     p_float_repr = \<lambda>_. ''0.0'', p_uid = 501, p_pid = 4321\<rparr>"

definition sample_item :: json where
  "sample_item = JObj [(''id'', JStr ''item-1''), (''type'', JStr ''functionCallOutput''), (''name'', JStr ''g0_delivery''),
     (''output'', JStr ''envelope''), (''namespace'', JStr ''orchestration'')]"

definition sample_read :: json where
  "sample_read = JObj
     [(''request'', JObj [(''id'', JInt 7), (''method'', JStr ''thread/read''),
        (''params'', JObj [(''threadId'', JStr ''owner''), (''includeTurns'', JBool True)])]),
      (''response'', JObj [(''id'', JInt 7), (''result'', JObj [(''thread'', JObj [(''id'', JStr ''owner''),
        (''turns'', JArr [JObj [(''id'', JStr ''turn-1''), (''status'', JStr ''completed''), (''items'', JArr [sample_item])]])])])])]"

definition sample_ack :: json where
  "sample_ack = JObj [(''delivery_id'', JStr ''delivery-1''), (''controller_thread_id'', JStr ''owner''),
     (''controller_epoch'', JInt 3), (''event_id'', JStr ''event-1''), (''event_revision'', JInt 1),
     (''event_hash'', JStr sample_digest), (''action_slot'', JStr ''slot-1''), (''decision'', JStr ''handled''),
     (''command_id'', JStr ''command-1''), (''decision_count'', JInt 1), (''effect_count'', JInt 1)]"

definition sample_capture :: json where
  "sample_capture = JObj [(''version'', JInt 1), (''intent'', JObj sample_intent), (''reads'', JArr [sample_read]),
     (''acks'', JArr [sample_ack])]"

lemma sample_capture_audited: "succeeds (audit sample_platform sample_capture)"
  by code_simp

theorem audit_counts_exact_matches_witness:
  "\<exists>rep. audit sample_platform sample_capture = Inr rep
    \<and> ar_matched_history_items rep =
        card (carrying sample_platform (audit_intent sample_capture) (\<Union>r \<in> set (audit_reads sample_capture). read_items r))"
  using sample_capture_audited audit_counts_exact_matches [of sample_platform sample_capture]
  unfolding succeeds_iff by blast

theorem audit_acknowledgements_witness:
  "\<exists>rep. audit sample_platform sample_capture = Inr rep
    \<and> set (ar_acknowledged_event_ids rep) = ack_event ` set (audit_acks sample_capture)"
  using sample_capture_audited audit_acknowledgements [of sample_platform sample_capture]
  unfolding succeeds_iff by blast

end
