(* ===== verification/HelperRpc.thy ===== *)
theory HelperRpc
  imports DeliveryAudit
begin

text \<open>
  The contract for the native messages a helper may exchange with a leased backend
  (\<open>runtime/native/owner_helper.py\<close>, the validators): requests of the helper, responses and
  notifications of the server, and the one delivery envelope a turn may carry.
\<close>

section \<open>Rejections and shared checks\<close>

definition helper_reject :: "string \<Rightarrow> exn" where
  "helper_reject reason = Raised ''OwnerHelperAdmissionError'' reason"

definition safe_id :: "json \<Rightarrow> bool" where
  "safe_id v = (is_str v \<and> id_string (str_of v))"

definition helper_positive :: "json \<Rightarrow> bool" where
  "helper_positive v = (is_int v \<and> 1 \<le> int_of v \<and> int_of v \<le> 1000000)"

definition exact_keys :: "json \<Rightarrow> string list \<Rightarrow> unit result" where
  "exact_keys v required =
     ensure (is_obj v \<and> keys_exact (obj_of v) required) (helper_reject ''rpc_envelope'') (Inr ())"

definition optional_string :: "json \<Rightarrow> bool" where
  "optional_string v = (v = JNull \<or> is_str v)"

definition optional_i64 :: "json \<Rightarrow> bool" where
  "optional_i64 v = (v = JNull \<or> (is_int v \<and> - (2 ^ 63) \<le> int_of v \<and> int_of v \<le> 2 ^ 63 - 1))"

definition server_notifications :: "string list" where
  "server_notifications = [''turn/started'', ''turn/completed'', ''item/started'', ''item/completed'',
     ''thread/status/changed'', ''thread/updated'', ''thread/tokenUsage/updated'', ''thread/goal/cleared'',
     ''remoteControl/status/changed'', ''mcpServer/startupStatus/updated'', ''item/agentMessage/delta'',
     ''account/rateLimits/updated'', ''deprecationNotice'']"

definition paginated_read_deprecation :: string where
  "paginated_read_deprecation =
     ''Full-history hydration is deprecated for paginated threads; omit `includeTurns` '' @
     ''or set it to `false`, then page with `thread/turns/list` and `thread/items/list`.''"

definition rate_limit_reached_types :: "string list" where
  "rate_limit_reached_types = [''rate_limit_reached'', ''workspace_owner_credits_depleted'',
     ''workspace_member_credits_depleted'', ''workspace_owner_usage_limit_reached'',
     ''workspace_member_usage_limit_reached'']"

lemma exact_keys_ok [simp, result_simps]:
  "exact_keys v ks = Inr u \<longleftrightarrow> (\<exists>d. v = JObj d \<and> keys_exact d ks)"
  by (cases v) (auto simp: exact_keys_def)

section \<open>Notifications\<close>

definition validate_agent_message_delta :: "json \<Rightarrow> string \<Rightarrow> unit result" where
  "validate_agent_message_delta params owner =
     andThen (exact_keys params [''threadId'', ''turnId'', ''itemId'', ''delta'']) (\<lambda>_.
     let p = obj_of params in
     ensure (dget p ''threadId'' = JStr owner) (helper_reject ''agent_message_delta_thread'')
    (ensure (is_str (dget p ''turnId'') \<and> is_str (dget p ''itemId'')) (helper_reject ''agent_message_delta_identity'')
    (ensure (is_str (dget p ''delta'')) (helper_reject ''agent_message_delta_text'')
    (Inr ()))))"

definition validate_rate_limit_window :: "json \<Rightarrow> unit result" where
  "validate_rate_limit_window v =
    (if v = JNull then Inr ()
     else let bad = helper_reject ''account_rate_limits_window''; d = obj_of v in
       ensure (is_obj v) bad
      (ensure (keys_within d [''usedPercent'', ''windowDurationMins'', ''resetsAt''] \<and> has_key d ''usedPercent'') bad
      (ensure (is_int (dget d ''usedPercent'') \<and> - (2 ^ 31) \<le> int_of (dget d ''usedPercent'')
          \<and> int_of (dget d ''usedPercent'') \<le> 2 ^ 31 - 1) bad
      (ensure (\<not> has_key d ''windowDurationMins'' \<or> optional_i64 (dget d ''windowDurationMins'')) bad
      (ensure (\<not> has_key d ''resetsAt'' \<or> optional_i64 (dget d ''resetsAt'')) bad
      (Inr ()))))))"

definition validate_credits :: "json \<Rightarrow> unit result" where
  "validate_credits credits =
    (if credits = JNull then Inr ()
     else let bad = helper_reject ''account_rate_limits_credits''; d = obj_of credits in
       ensure (is_obj credits \<and> keys_within d [''hasCredits'', ''unlimited'', ''balance'']
         \<and> keys_include d [''hasCredits'', ''unlimited'']) bad
      (ensure (is_bool (dget d ''hasCredits'') \<and> is_bool (dget d ''unlimited'')) bad
      (ensure (\<not> has_key d ''balance'' \<or> optional_string (dget d ''balance'')) bad
      (Inr ()))))"

definition validate_individual_limit :: "json \<Rightarrow> unit result" where
  "validate_individual_limit individual =
    (if individual = JNull then Inr ()
     else let bad = helper_reject ''account_rate_limits_spend''; d = obj_of individual in
       andThen (exact_keys individual [''limit'', ''used'', ''remainingPercent'', ''resetsAt'']) (\<lambda>_.
       ensure (is_str (dget d ''limit'') \<and> is_str (dget d ''used'')) bad
      (ensure (is_int (dget d ''remainingPercent'') \<and> is_int (dget d ''resetsAt'')) bad
      (Inr ()))))"

definition validate_rate_limit_snapshot :: "json \<Rightarrow> unit result" where
  "validate_rate_limit_snapshot v =
    (let bad = helper_reject ''account_rate_limits_shape''; d = obj_of v in
     ensure (is_obj v \<and> keys_within d [''limitId'', ''limitName'', ''normalModelSlug'', ''primary'', ''secondary'',
        ''credits'', ''individualLimit'', ''spendControlReached'', ''planType'', ''rateLimitReachedType''])
       (helper_reject ''rpc_envelope'')
    (andThen (for_each (\<lambda>key. ensure (\<not> has_key d key \<or> optional_string (dget d key)) bad (Inr ()))
        [''limitId'', ''limitName'', ''normalModelSlug'', ''planType'']) (\<lambda>_.
     andThen (if has_key d ''primary'' then validate_rate_limit_window (dget d ''primary'') else Inr ()) (\<lambda>_.
     andThen (if has_key d ''secondary'' then validate_rate_limit_window (dget d ''secondary'') else Inr ()) (\<lambda>_.
     andThen (validate_credits (dget d ''credits'')) (\<lambda>_.
     andThen (validate_individual_limit (dget d ''individualLimit'')) (\<lambda>_.
     ensure (\<not> has_key d ''spendControlReached'' \<or> dget d ''spendControlReached'' = JNull
        \<or> is_bool (dget d ''spendControlReached'')) bad
    (if has_key d ''rateLimitReachedType'' \<and> dget d ''rateLimitReachedType'' \<noteq> JNull
     then andThen (in_str_set (dget d ''rateLimitReachedType'') rate_limit_reached_types)
            (\<lambda>known. ensure known bad (Inr ()))
     else Inr ()))))))))"

definition validate_account_notification :: "json \<Rightarrow> unit result" where
  "validate_account_notification params =
     andThen (exact_keys params [''rateLimits'']) (\<lambda>_.
     validate_rate_limit_snapshot (dget (obj_of params) ''rateLimits''))"

section \<open>The delivery envelope in a turn\<close>

definition json_unique :: "platform \<Rightarrow> string \<Rightarrow> json result" where
  "json_unique E payload = loads_unique E (helper_reject ''rpc_json'')
     (helper_reject ''rpc_duplicate_key'') (helper_reject ''rpc_constant'') payload"

definition max_output_bytes :: nat where
  "max_output_bytes = 65536"

text \<open>One iteration of the loop over the events of the envelope.\<close>

definition check_output_event :: "json \<Rightarrow> string list \<times> string list \<Rightarrow> (string list \<times> string list) result" where
  "check_output_event event seen = (case seen of (event_ids, action_slots) \<Rightarrow>
     let d = obj_of event in
     ensure (is_obj event \<and> keys_exact d event_fields) (helper_reject ''tool_output_event_shape'')
    (ensure (safe_id (dget d ''event_id'') \<and> helper_positive (dget d ''event_revision''))
       (helper_reject ''tool_output_event_identity'')
    (ensure (in_str_tuple (dget d ''kind'') [''progress'', ''question'', ''result''])
       (helper_reject ''tool_output_event_kind'')
    (ensure (is_str (dget d ''payload_hash'') \<and> hex_string 64 (str_of (dget d ''payload_hash'')))
       (helper_reject ''tool_output_event_hash'')
    (ensure (safe_id (dget d ''action_slot'') \<and> str_of (dget d ''event_id'') \<notin> set event_ids
        \<and> str_of (dget d ''action_slot'') \<notin> set action_slots) (helper_reject ''tool_output_event_duplicate'')
    (Inr (str_of (dget d ''event_id'') # event_ids, str_of (dget d ''action_slot'') # action_slots)))))))"

definition parse_delivery_output :: "platform \<Rightarrow> json \<Rightarrow> string \<Rightarrow> unit result" where
  "parse_delivery_output E output owner =
     ensure (is_str output \<and> str_of output \<noteq> [] \<and> length (str_of output) \<le> max_output_bytes)
       (helper_reject ''tool_output_size'')
    (andThen (loads_unique E (helper_reject ''tool_output_json'') (helper_reject ''tool_output_duplicate_key'')
        (helper_reject ''tool_output_constant'') (str_of output)) (\<lambda>intent.
     let d = obj_of intent in
     ensure (is_obj intent \<and> keys_exact d envelope_fields) (helper_reject ''tool_output_shape'')
    (ensure (dget d ''version'' = JInt 1 \<and> safe_id (dget d ''delivery_id'')) (helper_reject ''tool_output_identity'')
    (ensure (dget d ''controller_thread_id'' = JStr owner \<and> safe_id (dget d ''controller_thread_id''))
       (helper_reject ''tool_output_thread'')
    (ensure (helper_positive (dget d ''controller_epoch'')) (helper_reject ''tool_output_epoch'')
    (ensure (is_arr (dget d ''events'') \<and> 1 \<le> length (arr_of (dget d ''events''))
        \<and> length (arr_of (dget d ''events'')) \<le> 8) (helper_reject ''tool_output_events'')
    (andThen (fold_result check_output_event (arr_of (dget d ''events'')) ([], [])) (\<lambda>_.
     ensure (dget d ''payload_hash'' = JStr (p_sha256 E (canonical E (JObj (envelope_body d)))))
       (helper_reject ''tool_output_hash'')
    (Inr ())))))))))"

definition validate_turn_start :: "platform \<Rightarrow> json \<Rightarrow> string \<Rightarrow> unit result" where
  "validate_turn_start E params owner =
    (let p = obj_of params; tool = dget p ''toolOutput''; t = obj_of tool in
     ensure (is_obj params \<and> keys_exact p [''threadId'', ''input'', ''toolOutput''])
       (helper_reject ''turn_start_envelope'')
    (ensure (dget p ''threadId'' = JStr owner \<and> dget p ''input'' = JArr []) (helper_reject ''turn_start_target'')
    (ensure (is_obj tool \<and> keys_exact t [''name'', ''namespace'', ''output'']) (helper_reject ''tool_output_envelope'')
    (ensure (dget t ''name'' = JStr ''g0_delivery'' \<and> dget t ''namespace'' = JStr ''orchestration'')
       (helper_reject ''tool_output_identity'')
    (parse_delivery_output E (dget t ''output'') owner)))))"

section \<open>Requests of the helper\<close>

definition initialize_params :: json where
  "initialize_params = JObj
     [(''clientInfo'', JObj [(''name'', JStr ''g0-native-standalone''), (''version'', JStr ''0.1.0'')]),
      (''capabilities'', JObj [(''experimentalApi'', JBool True)])]"

definition global_read_methods :: "string list" where
  "global_read_methods = [''server/diagnostics'', ''remoteControl/status/read'']"

definition thread_read_params :: "string \<Rightarrow> json" where
  "thread_read_params owner = JObj [(''threadId'', JStr owner), (''includeTurns'', JBool True)]"

definition validate_helper_rpc :: "platform \<Rightarrow> json \<Rightarrow> string \<Rightarrow> unit result" where
  "validate_helper_rpc E message owner =
    (let m = obj_of message in
     ensure (is_obj message \<and> \<not> has_key m ''jsonrpc'') (helper_reject ''native_wire_envelope'')
    (ensure (is_str (dget m ''method'')) (helper_reject ''rpc_method'')
    (let method = str_of (dget m ''method'') in
     if method = ''initialized'' then
       ensure (keys_exact m [''method'']) (helper_reject ''initialized_envelope'') (Inr ())
     else
       ensure (helper_positive (dget m ''id'')) (helper_reject ''rpc_id'')
      (ensure (has_key m ''params'' \<and> is_obj (dget m ''params'')) (helper_reject ''rpc_params'')
      (let params = dget m ''params''; p = obj_of params in
       if method = ''initialize'' then
         ensure (py_eq params initialize_params) (helper_reject ''initialize_envelope'') (Inr ())
       else if method \<in> set global_read_methods then
         ensure (py_eq params (JObj [])) (helper_reject ''rpc_global_envelope'') (Inr ())
       else if method = ''thread/read'' then
         ensure (py_eq params (thread_read_params owner)) (helper_reject ''rpc_thread_envelope'') (Inr ())
       else if method = ''thread/turns/list'' then
         ensure (keys_exact p [''threadId'', ''cursor'', ''limit'', ''sortDirection'', ''itemsView'']
           \<and> dget p ''threadId'' = JStr owner \<and> dget p ''sortDirection'' = JStr ''asc'' \<and> dget p ''itemsView'' = JStr ''full''
           \<and> is_int (dget p ''limit'') \<and> 1 \<le> int_of (dget p ''limit'') \<and> int_of (dget p ''limit'') \<le> 64
           \<and> (dget p ''cursor'' = JNull \<or> (is_str (dget p ''cursor'') \<and> 0 < py_len (str_of (dget p ''cursor''))
               \<and> py_len (str_of (dget p ''cursor'')) \<le> 256)))
           (helper_reject ''rpc_turns_envelope'') (Inr ())
       else if method = ''turn/start'' then validate_turn_start E params owner
       else Inl (helper_reject ''rpc_method_forbidden''))))))"

section \<open>Messages of the server\<close>

definition validate_helper_response :: "json \<Rightarrow> string \<Rightarrow> unit result" where
  "validate_helper_response message owner =
    (let m = obj_of message in
     ensure (is_obj message \<and> \<not> has_key m ''jsonrpc''
         \<and> (keys_exact m [''id'', ''result''] \<or> keys_exact m [''id'', ''error''])) (helper_reject ''response_envelope'')
    (ensure (helper_positive (dget m ''id'')) (helper_reject ''response_id'')
    (if has_key m ''error'' then
       let error = dget m ''error''; e = obj_of error in
       ensure (is_obj error \<and> (keys_exact e [''code'', ''message''] \<or> keys_exact e [''code'', ''message'', ''data'']))
         (helper_reject ''response_error'')
      (ensure (is_int (dget e ''code'') \<and> is_str (dget e ''message'')) (helper_reject ''response_error'')
      (Inr ()))
     else
       let answer = dget m ''result''; r = obj_of answer; thread = dget r ''thread''; t = obj_of thread in
       ensure (is_obj answer) (helper_reject ''response_result'')
      (ensure (\<not> (is_obj thread \<and> has_key t ''id'' \<and> dget t ''id'' \<noteq> JStr owner))
         (helper_reject ''response_thread_target'')
      (ensure (\<not> (has_key r ''threadId'' \<and> dget r ''threadId'' \<noteq> JStr owner))
         (helper_reject ''response_thread_target'')
      (Inr ()))))))"

text \<open>The checks of the parameters that depend on the notification.\<close>

definition validate_notification_params :: "string \<Rightarrow> json \<Rightarrow> string \<Rightarrow> unit result" where
  "validate_notification_params method params owner =
    (let p = obj_of params in
     if method = ''deprecationNotice'' then
       ensure ((keys_exact p [''summary''] \<or> keys_exact p [''summary'', ''details''])
         \<and> dget p ''summary'' = JStr paginated_read_deprecation \<and> dget p ''details'' = JNull)
         (helper_reject ''deprecation_notice_envelope'') (Inr ())
     else if method = ''item/agentMessage/delta'' then validate_agent_message_delta params owner
     else if method = ''account/rateLimits/updated'' then validate_account_notification params
     else if method \<in> {''turn/started'', ''turn/completed''} then
       ensure (keys_exact p [''threadId'', ''turn''] \<and> dget p ''threadId'' = JStr owner)
         (helper_reject ''turn_notification_envelope'')
      (ensure (is_obj (dget p ''turn'') \<and> is_str (dget (obj_of (dget p ''turn'')) ''id''))
         (helper_reject ''turn_notification_body'') (Inr ()))
     else if method \<in> {''item/started'', ''item/completed''} then
       ensure (keys_exact p [''threadId'', ''turnId'', ''item'',
           if method = ''item/started'' then ''startedAtMs'' else ''completedAtMs'']
         \<and> dget p ''threadId'' = JStr owner) (helper_reject ''item_notification_envelope'')
      (ensure (is_str (dget p ''turnId'') \<and> is_obj (dget p ''item'')) (helper_reject ''item_notification_body'') (Inr ()))
     else Inr ())"

definition validate_helper_server_message :: "json \<Rightarrow> string \<Rightarrow> unit result" where
  "validate_helper_server_message message owner =
    (let m = obj_of message in
     ensure (is_obj message \<and> \<not> has_key m ''jsonrpc'') (helper_reject ''response_envelope'')
    (ensure (\<not> (has_key m ''id'' \<and> has_key m ''method'')) (helper_reject ''server_request_forbidden'')
    (if has_key m ''id'' then validate_helper_response message owner
     else
       andThen (in_str_set (dget m ''method'') server_notifications) (\<lambda>known.
       ensure (known \<and> keys_within m [''method'', ''params'', ''emittedAtMs''])
         (helper_reject ''server_notification_forbidden'')
      (let emitted = dget m ''emittedAtMs'' in
       ensure (\<not> has_key m ''emittedAtMs'' \<or>
           (is_int emitted \<and> - (2 ^ 63) \<le> int_of emitted \<and> int_of emitted \<le> 2 ^ 63 - 1))
         (helper_reject ''server_notification_emitted_at_ms'')
      (let params = dget_or m ''params'' (JObj []); p = obj_of params in
       ensure (is_obj params) (helper_reject ''server_notification_params'')
      (ensure (\<not> (has_key p ''threadId'' \<and> dget p ''threadId'' \<noteq> JStr owner))
         (helper_reject ''response_thread_target'')
      (validate_notification_params (str_of (dget m ''method'')) params owner))))))))"

section \<open>The helper and the offline audit accept the same envelopes\<close>

lemma safe_id_is_safe [simp]: "safe_id = safe"
  by (simp add: fun_eq_iff safe_id_def safe_def)

lemma helper_positive_is_positive [simp]: "helper_positive = positive"
  by (simp add: fun_eq_iff helper_positive_def positive_def)

lemma check_output_event_agrees:
  "check_output_event e seen = Inr seen' \<longleftrightarrow> check_event e seen = Inr seen'"
  by (cases seen, cases e)
     (auto simp: check_output_event_def check_event_def shape_exact hash_value_def Let_def simp del: shape_ok)

lemma check_output_events_agree:
  "fold_result check_output_event es seen = Inr seen' \<longleftrightarrow> fold_result check_event es seen = Inr seen'"
  by (rule fold_result_ok_cong) (rule check_output_event_agrees)

lemma parse_delivery_output_ok:
  "parse_delivery_output E output owner = Inr u \<longleftrightarrow>
     (\<exists>out d. output = JStr out \<and> out \<noteq> [] \<and> length out \<le> max_output_bytes
        \<and> p_scan E out = Some (JObj d) \<and> wf_json (JObj d) \<and> no_const (JObj d)
        \<and> envelope_wf E d \<and> dget d ''controller_thread_id'' = JStr owner)"
  by (cases "output")
     (auto simp: parse_delivery_output_def Let_def loads_unique_ok check_output_events_agree check_events_ok
       envelope_wf_def json_kind_iffs simp del: wf_json.simps no_const.simps)

text \<open>
  The helper's check of a delivery text and the offline audit's parse and envelope check
  agree: a text is accepted for an owner thread exactly when it is non-empty, within the size
  bound, and the audit accepts it as an envelope addressed to that thread.
\<close>

theorem helper_accepts_audited_envelopes:
  "succeeds (parse_delivery_output E (JStr out) owner) \<longleftrightarrow>
     out \<noteq> [] \<and> length out \<le> max_output_bytes \<and>
     (\<exists>v d. parse E out = Inr v \<and> envelope E v = Inr d \<and> dget d ''controller_thread_id'' = JStr owner)"
  by (auto simp: succeeds_iff parse_delivery_output_ok parse_def loads_unique_ok envelope_ok
      simp del: wf_json.simps no_const.simps)

section \<open>What the helper may send\<close>

definition helper_methods :: "string list" where
  "helper_methods = [''initialized'', ''initialize'', ''server/diagnostics'', ''remoteControl/status/read'',
     ''thread/read'', ''thread/turns/list'', ''turn/start'']"

lemma py_eq_obj_keys: "py_eq (JObj d) (JObj e) \<Longrightarrow> keys_exact d (map fst e)"
  by simp

lemma py_eq_JObj: "py_eq v (JObj e) \<Longrightarrow> \<exists>d. v = JObj d \<and> py_eq (JObj d) (JObj e)"
  by (cases v) auto

lemma thread_read_params_owner:
  assumes "py_eq v (thread_read_params owner)"
  shows "dget (obj_of v) ''threadId'' = JStr owner"
proof -
  from assms obtain d where v: "v = JObj d" "py_eq (JObj d) (thread_read_params owner)"
    using py_eq_JObj by (force simp: thread_read_params_def)
  have "has_key d ''threadId''"
    using keys_exact_has [OF py_eq_obj_keys [OF v(2) [unfolded thread_read_params_def]], of "''threadId''"]
    by simp
  with v(2) have "py_eq (dget d ''threadId'') (JStr owner)"
    using py_eq_obj_get unfolding thread_read_params_def by fastforce
  with v(1) show ?thesis by simp
qed

lemma validate_turn_start_ok:
  assumes "validate_turn_start E params owner = Inr u"
  shows "dget (obj_of params) ''threadId'' = JStr owner"
    and "\<exists>out d. dget (obj_of (dget (obj_of params) ''toolOutput'')) ''output'' = JStr out
       \<and> p_scan E out = Some (JObj d) \<and> envelope_wf E d \<and> dget d ''controller_thread_id'' = JStr owner"
  using assms by (auto simp: validate_turn_start_def Let_def parse_delivery_output_ok)

text \<open>
  A request of the helper that is accepted uses one of seven methods; if its parameters
  name a thread it is the owner's, and a turn it starts carries an envelope that the audit
  accepts and that is addressed to the owner.
\<close>

theorem helper_request_is_owner_bound:
  assumes "validate_helper_rpc E message owner = Inr u"
  shows "\<exists>m name. message = JObj m \<and> \<not> has_key m ''jsonrpc'' \<and> dget m ''method'' = JStr name
    \<and> name \<in> set helper_methods
    \<and> (name \<in> {''thread/read'', ''thread/turns/list'', ''turn/start''} \<longrightarrow>
         dget (obj_of (dget m ''params'')) ''threadId'' = JStr owner)
    \<and> (name \<in> {''initialize'', ''server/diagnostics'', ''remoteControl/status/read''} \<longrightarrow>
         \<not> has_key (obj_of (dget m ''params'')) ''threadId'')
    \<and> (name = ''turn/start'' \<longrightarrow>
         (\<exists>out d. dget (obj_of (dget (obj_of (dget m ''params'')) ''toolOutput'')) ''output'' = JStr out
            \<and> p_scan E out = Some (JObj d) \<and> envelope_wf E d \<and> dget d ''controller_thread_id'' = JStr owner))"
proof -
  from assms obtain m name where m: "message = JObj m" "\<not> has_key m ''jsonrpc''" "dget m ''method'' = JStr name"
    by (auto simp: validate_helper_rpc_def Let_def json_kind_iffs)
  have no_thread: "\<not> has_key (obj_of v) ''threadId''"
    if "py_eq v (JObj e)" "''threadId'' \<notin> set (map fst e)" for v e
  proof -
    from py_eq_JObj [OF that(1)] obtain d where "v = JObj d" "py_eq (JObj d) (JObj e)" by blast
    with that(2) keys_exact_has [OF py_eq_obj_keys, of d e "''threadId''"] show ?thesis by simp
  qed
  note run = assms [unfolded validate_helper_rpc_def m Let_def json_kind_simps]
  consider "name = ''initialized''" | "name = ''initialize''" "py_eq (dget m ''params'') initialize_params"
    | "name \<in> set global_read_methods" "py_eq (dget m ''params'') (JObj [])"
    | "name = ''thread/read''" "py_eq (dget m ''params'') (thread_read_params owner)"
    | "name = ''thread/turns/list''" "dget (obj_of (dget m ''params'')) ''threadId'' = JStr owner"
    | "name = ''turn/start''" "validate_turn_start E (dget m ''params'') owner = Inr u"
    using run m(3) by (auto simp del: py_eq.simps split: if_splits)
  then show ?thesis
  proof cases
    case 2
    with no_thread [OF 2(2) [unfolded initialize_params_def]] m show ?thesis by (auto simp: helper_methods_def)
  next
    case 3
    with no_thread [OF 3(2)] m show ?thesis by (auto simp: helper_methods_def global_read_methods_def)
  next
    case 4
    with thread_read_params_owner [OF 4(2)] m show ?thesis by (auto simp: helper_methods_def)
  next
    case 6
    with validate_turn_start_ok [OF 6(2)] m show ?thesis by (auto simp: helper_methods_def)
  qed (use m in \<open>auto simp: helper_methods_def\<close>)
qed

section \<open>What the server may send\<close>

text \<open>
  A server message that is accepted is never a request; it is a response to an identifier
  of the helper or a listed notification, and every thread it names at the places the contract
  looks at is the owner's.
\<close>

theorem server_message_is_owner_bound:
  assumes "validate_helper_server_message message owner = Inr u"
  shows "\<exists>m. message = JObj m \<and> \<not> (has_key m ''id'' \<and> has_key m ''method'')
    \<and> (has_key m ''id'' \<longrightarrow> positive (dget m ''id'') \<and>
         (has_key (obj_of (dget m ''result'')) ''threadId'' \<longrightarrow> dget (obj_of (dget m ''result'')) ''threadId'' = JStr owner
            \<or> has_key m ''error''))
    \<and> (\<not> has_key m ''id'' \<longrightarrow> (\<exists>name. dget m ''method'' = JStr name \<and> name \<in> set server_notifications) \<and>
         (has_key (obj_of (dget_or m ''params'' (JObj []))) ''threadId'' \<longrightarrow>
            dget (obj_of (dget_or m ''params'' (JObj []))) ''threadId'' = JStr owner))"
proof -
  from assms obtain m where m: "message = JObj m" "\<not> (has_key m ''id'' \<and> has_key m ''method'')"
    by (auto simp: validate_helper_server_message_def Let_def json_kind_iffs)
  note run = assms [unfolded validate_helper_server_message_def m(1) Let_def json_kind_simps]
  show ?thesis
  proof (cases "has_key m ''id''")
    case True
    with run have "validate_helper_response (JObj m) owner = Inr u" by simp
    with m True show ?thesis
      by (auto simp: validate_helper_response_def Let_def split: if_splits)
  next
    case False
    with run m show ?thesis by auto
  qed
qed

section \<open>Sample messages\<close>

definition sample_turn_start :: json where
  "sample_turn_start = JObj [(''method'', JStr ''turn/start''), (''id'', JInt 5), (''params'', JObj
     [(''threadId'', JStr ''owner''), (''input'', JArr []), (''toolOutput'', JObj
       [(''name'', JStr ''g0_delivery''), (''namespace'', JStr ''orchestration''), (''output'', JStr ''envelope'')])])]"

definition sample_notification :: json where
  "sample_notification = JObj [(''method'', JStr ''turn/started''), (''params'', JObj
     [(''threadId'', JStr ''owner''), (''turn'', JObj [(''id'', JStr ''turn-1'')])])]"

lemma sample_turn_start_valid: "validate_helper_rpc sample_platform sample_turn_start ''owner'' = Inr ()"
  by code_simp

lemma sample_notification_valid: "validate_helper_server_message sample_notification ''owner'' = Inr ()"
  by code_simp

theorem helper_request_is_owner_bound_witness:
  "\<exists>m name. sample_turn_start = JObj m \<and> dget m ''method'' = JStr name \<and> name \<in> set helper_methods"
  using helper_request_is_owner_bound [OF sample_turn_start_valid] by blast

theorem server_message_is_owner_bound_witness:
  "\<exists>m. sample_notification = JObj m \<and> \<not> (has_key m ''id'' \<and> has_key m ''method'')"
  using server_message_is_owner_bound [OF sample_notification_valid] by blast

end
