(* ===== verification/WebSocket.thy ===== *)
theory WebSocket
  imports HelperRpc
begin

text \<open>
  WebSocket framing as \<open>runtime/native/owner_helper.py\<close> has it: the encoder of a masked client
  text frame, the decoder of server frames from a stream that ends, and the frame decoder of the
  byte gates, which works on a buffer that may still grow.
\<close>

unbundle bit_operations_syntax

section \<open>Bytes\<close>

definition byte :: "char \<Rightarrow> nat" where
  "byte c = of_char c"

definition byte_char :: "nat \<Rightarrow> char" where
  "byte_char n = char_of n"

text \<open>\<open>int.from_bytes(b, "big")\<close> and \<open>n.to_bytes(2, "big")\<close>.\<close>

definition from_big_endian :: "string \<Rightarrow> nat" where
  "from_big_endian bs = foldl (\<lambda>n c. n * 256 + byte c) 0 bs"

definition to_big_endian_2 :: "nat \<Rightarrow> string" where
  "to_big_endian_2 n = [byte_char (n div 256), byte_char (n mod 256)]"

text \<open>Every byte is combined with the mask byte at its index modulo four.\<close>

definition apply_mask :: "string \<Rightarrow> string \<Rightarrow> string" where
  "apply_mask mkey payload =
     map (\<lambda>(i, c). byte_char (byte c XOR byte (mkey ! (i mod 4)))) (enumerate 0 payload)"

lemma byte_less [simp]: "byte c < 256"
  by (simp add: byte_def)

lemma byte_byte_char [simp]: "n < 256 \<Longrightarrow> byte (byte_char n) = n"
  by (simp add: byte_def byte_char_def)

lemma byte_char_byte [simp]: "byte_char (byte c) = c"
  by (simp add: byte_def byte_char_def)

lemma xor_byte_less: "a < 256 \<Longrightarrow> b < 256 \<Longrightarrow> a XOR b < (256::nat)"
proof -
  assume "a < 256" "b < 256"
  then have "take_bit 8 a = a" "take_bit 8 b = b" by (simp_all add: take_bit_nat_eq_self_iff)
  then have "take_bit 8 (a XOR b) = a XOR b" by (simp add: take_bit_xor)
  then show ?thesis using take_bit_nat_eq_self_iff [of 8 "a XOR b"] by simp
qed

lemma length_apply_mask [simp]: "length (apply_mask mkey p) = length p"
  by (simp add: apply_mask_def)

lemma apply_mask_twice [simp]: "apply_mask mkey (apply_mask mkey p) = p"
  by (rule nth_equalityI)
     (simp_all add: apply_mask_def nth_enumerate_eq xor_byte_less xor.assoc)

section \<open>Encoding a client text frame\<close>

text \<open>\<open>mkey\<close> is what \<open>secrets.token_bytes(4)\<close> returned.\<close>

definition websocket_frame :: "string \<Rightarrow> string \<Rightarrow> string result" where
  "websocket_frame mkey payload =
     ensure (length payload \<le> 65535) (helper_reject ''rpc_frame_too_large'')
    (let masked = apply_mask mkey payload;
         header = (if length masked < 126 then [byte_char 0x81, byte_char (0x80 OR length masked)]
                   else [byte_char 0x81, byte_char (0x80 OR 126)] @ to_big_endian_2 (length masked))
     in Inr (header @ mkey @ masked))"

section \<open>Decoding from a stream\<close>

text \<open>
  A stream is the bytes it still delivers before its end. A failed read reports what is left: a
  \<open>readexactly\<close> that meets the end has consumed everything.
\<close>

type_synonym 'a stream_result = "(exn \<times> string) + 'a"

definition read_or :: "string \<Rightarrow> nat \<Rightarrow> string \<Rightarrow> (string \<times> string) stream_result" where
  "read_or reason n s = ensure (n \<le> length s) (helper_reject reason, []) (Inr (take n s, drop n s))"

text \<open>The length field after the first two bytes.\<close>

definition read_length :: "nat \<Rightarrow> string \<Rightarrow> (nat \<times> string) stream_result" where
  "read_length len7 s =
    (if len7 = 126 then
       andThen (read_or ''websocket_length'' 2 s) (\<lambda>(ext, s1). Inr (from_big_endian ext, s1))
     else if len7 = 127 then
       andThen (read_or ''websocket_length'' 8 s) (\<lambda>(ext, s1).
       ensure (byte (ext ! 0) AND 0x80 = 0) (helper_reject ''websocket_length'', s1)
      (Inr (from_big_endian ext, s1)))
     else Inr (len7, s))"

definition read_server_frame :: "string \<Rightarrow> (bool \<times> nat \<times> string \<times> string) stream_result" where
  "read_server_frame s =
     andThen (read_or ''websocket_eof'' 2 s) (\<lambda>(head, s1).
     let first = byte (head ! 0); second = byte (head ! 1) in
     ensure (first AND 0x70 = 0) (helper_reject ''websocket_compression_or_reserved'', s1)
    (ensure (second AND 0x80 = 0) (helper_reject ''server_frame_masked'', s1)
    (andThen (read_length (second AND 0x7F) s1) (\<lambda>(n, s2).
     ensure (n \<le> 65535) (helper_reject ''websocket_frame_too_large'', s2)
    (andThen (read_or ''websocket_payload'' n s2) (\<lambda>(payload, rest).
     Inr (first AND 0x80 \<noteq> 0, first AND 0x0F, payload, rest)))))))"

lemma read_or_ok [simp]: "read_or reason n s = Inr (x, r) \<longleftrightarrow> n \<le> length s \<and> x = take n s \<and> r = drop n s"
  by (auto simp: read_or_def)

lemma read_length_shorter: "read_length k s = Inr (n, r) \<Longrightarrow> length r \<le> length s"
  by (auto simp: read_length_def split: if_splits)

lemma read_server_frame_shorter:
  "read_server_frame s = Inr (fin, opcode, payload, rest) \<Longrightarrow> length rest < length s"
  by (auto simp: read_server_frame_def Let_def dest: read_length_shorter)

text \<open>The continuation loop of \<open>_read_server_text\<close>, with the chunks read so far joined.\<close>

function read_fragments :: "string \<Rightarrow> bool \<Rightarrow> string \<Rightarrow> (string \<times> string) stream_result" where
  "read_fragments chunks fin s =
    (if fin then Inr (chunks, s)
     else andThen (read_server_frame s) (\<lambda>(fin', opcode, payload, rest).
       ensure (opcode = 0) (helper_reject ''websocket_fragment_opcode'', rest)
      (ensure (length (chunks @ payload) \<le> 65535) (helper_reject ''websocket_message_too_large'', rest)
      (read_fragments (chunks @ payload) fin' rest))))"
  by pat_completeness auto
termination
  by (relation "measure (\<lambda>(chunks, fin, s). length s)") (auto dest: read_server_frame_shorter)

declare read_fragments.simps [simp del]

definition read_server_text :: "string \<Rightarrow> (string \<times> string) stream_result" where
  "read_server_text s =
     andThen (read_server_frame s) (\<lambda>(fin, opcode, payload, rest).
     ensure (opcode \<noteq> 8) (helper_reject ''server_close'', rest)
    (ensure (opcode = 1) (helper_reject ''server_frame_opcode'', rest)
    (read_fragments payload fin rest)))"

section \<open>Decoding from a growing buffer\<close>

record ws_frame =
  f_fin :: bool
  f_opcode :: nat
  f_payload :: string
  f_raw :: string

text \<open>
  The length field of a buffer that holds at least two bytes: \<open>None\<close> when more bytes are
  needed, otherwise the payload length and the length of the header before the mask.
\<close>

definition frame_length :: "string \<Rightarrow> (nat \<times> nat) option result" where
  "frame_length buf =
    (let len7 = byte (buf ! 1) AND 0x7F in
     if len7 = 126 then
       Inr (if length buf < 4 then None else Some (from_big_endian (take 2 (drop 2 buf)), 4))
     else if len7 = 127 then
       if length buf < 10 then Inr None
       else ensure (byte (buf ! 2) AND 0x80 = 0) (helper_reject ''websocket_length'')
         (Inr (Some (from_big_endian (take 8 (drop 2 buf)), 10)))
     else Inr (Some (len7, 2)))"

text \<open>One frame from the front of the buffer; \<open>server\<close> says which side sends it.\<close>

definition parse_frame :: "bool \<Rightarrow> string \<Rightarrow> ws_frame option result" where
  "parse_frame server buf =
    (if length buf < 2 then Inr None
     else let first = byte (buf ! 0); masked = (byte (buf ! 1) AND 0x80 \<noteq> 0) in
       ensure (first AND 0x70 = 0) (helper_reject ''websocket_compression_or_reserved'')
      (ensure (masked \<noteq> server) (helper_reject ''websocket_mask_direction'')
      (andThen (frame_length buf) (\<lambda>r. case r of
          None \<Rightarrow> Inr None
        | Some (n, header_len) \<Rightarrow>
            ensure (n \<le> 65535) (helper_reject ''websocket_frame_too_large'')
           (let mask_len = (if masked then 4 else 0); total = header_len + mask_len + n in
            if length buf < total then Inr None
            else let raw = take total buf;
                     mkey = take mask_len (drop header_len raw);
                     body = drop (header_len + mask_len) raw
                 in Inr (Some \<lparr>f_fin = (first AND 0x80 \<noteq> 0), f_opcode = first AND 0x0F,
                      f_payload = (if masked then apply_mask mkey body else body), f_raw = raw\<rparr>))))))"

section \<open>Facts about frames\<close>

lemma frame_length_header: "frame_length buf = Inr (Some (n, h)) \<Longrightarrow> h \<in> {2, 4, 10}"
  by (auto simp: frame_length_def Let_def split: if_splits)

lemma parse_frame_Some:
  assumes "parse_frame server buf = Inr (Some f)"
  shows "\<exists>rest. buf = f_raw f @ rest" and "2 \<le> length (f_raw f)" and "length (f_payload f) \<le> 65535"
proof -
  from assms obtain n h m where h: "frame_length buf = Inr (Some (n, h))" and n: "n \<le> 65535"
    and m: "m = (if byte (buf ! 1) AND 0x80 \<noteq> 0 then 4 else 0)"
    and raw: "f_raw f = take (h + m + n) buf" and fits: "h + m + n \<le> length buf"
    and pay: "length (f_payload f) = length (drop (h + m) (take (h + m + n) buf))"
    by (fastforce simp: parse_frame_def Let_def split: if_splits option.splits)
  from raw show "\<exists>rest. buf = f_raw f @ rest" by (metis append_take_drop_id)
  from frame_length_header [OF h] raw fits show "2 \<le> length (f_raw f)" by auto
  from pay fits n show "length (f_payload f) \<le> 65535" by simp
qed

text \<open>A frame is decided by its own bytes: what follows it in the buffer does not matter.\<close>

lemma frame_length_append:
  assumes "frame_length buf = Inr (Some r)" and "2 \<le> length buf"
  shows "frame_length (buf @ later) = Inr (Some r)"
  using assms by (auto simp: frame_length_def Let_def nth_append split: if_splits)

lemma frame_length_append_error:
  assumes "frame_length buf = Inl e" and "2 \<le> length buf"
  shows "frame_length (buf @ later) = Inl e"
  using assms by (auto simp: frame_length_def Let_def nth_append result_simps split: if_splits)

lemma parse_frame_append:
  assumes "parse_frame server buf = Inr (Some f)"
  shows "parse_frame server (buf @ later) = Inr (Some f)"
proof -
  have len: "2 \<le> length buf" using assms by (auto simp: parse_frame_def split: if_splits)
  from assms obtain n h where h: "frame_length buf = Inr (Some (n, h))"
    by (fastforce simp: parse_frame_def Let_def split: if_splits option.splits)
  from assms frame_length_append [OF h len] h len show ?thesis
    by (auto simp: parse_frame_def Let_def nth_append split: if_splits)
qed

lemma parse_frame_append_error:
  assumes "parse_frame server buf = Inl e"
  shows "parse_frame server (buf @ later) = Inl e"
proof -
  have len: "2 \<le> length buf" using assms by (auto simp: parse_frame_def split: if_splits)
  show ?thesis
  proof (cases "frame_length buf")
    case (Inl e')
    from assms frame_length_append_error [OF Inl len] Inl len show ?thesis
      by (auto simp: parse_frame_def Let_def nth_append result_simps split: if_splits)
  next
    case (Inr r)
    show ?thesis
    proof (cases r)
      case None
      with assms Inr len show ?thesis
        by (auto simp: parse_frame_def Let_def nth_append result_simps split: if_splits)
    next
      case (Some nh)
      obtain n h where nh: "nh = (n, h)" by (cases nh)
      from frame_length_append [OF Inr [unfolded Some] len] assms Inr Some nh len show ?thesis
        by (auto simp: parse_frame_def Let_def nth_append result_simps split: if_splits)
    qed
  qed
qed

text \<open>The raw bytes of a decoded frame decode to that frame again.\<close>

lemma frame_length_take:
  assumes "frame_length buf = Inr (Some (n, h))" and "2 \<le> length buf" and "h \<le> k"
  shows "frame_length (take k buf) = Inr (Some (n, h))"
  using assms by (auto simp: frame_length_def Let_def take_drop min_def split: if_splits)

lemma parse_frame_raw:
  assumes "parse_frame server buf = Inr (Some f)"
  shows "parse_frame server (f_raw f) = Inr (Some f)"
proof -
  have len: "2 \<le> length buf" using assms by (auto simp: parse_frame_def split: if_splits)
  from assms obtain n h where h: "frame_length buf = Inr (Some (n, h))"
    by (fastforce simp: parse_frame_def Let_def split: if_splits option.splits)
  have "2 \<le> h" using frame_length_header [OF h] by auto
  with assms h len frame_length_take [OF h len] show ?thesis
    by (auto simp: parse_frame_def Let_def min_def split: if_splits)
qed

section \<open>A frame the helper encodes is the frame the gate decodes\<close>

lemma to_big_endian_2_bytes: "from_big_endian (to_big_endian_2 n) = n" if "n < 65536"
proof -
  have "n div 256 < 256" using that by simp
  then show ?thesis by (simp add: from_big_endian_def to_big_endian_2_def)
qed

lemma and_128_iff: "(n::nat) AND 128 = 0 \<longleftrightarrow> even (n div 128)"
  using and_exp_eq_0_iff_not_bit [of n 7] by (simp add: bit_iff_odd)

lemma and_127: "(n::nat) AND 127 = n mod 128"
  using take_bit_eq_mask [of 7 n] by (simp add: mask_eq_exp_minus_1 take_bit_eq_mod)

lemma or_128: "n < 128 \<Longrightarrow> 128 OR n = 128 + (n::nat)"
proof -
  assume "n < 128"
  then have "n AND 128 = 0" by (simp add: and_128_iff)
  then show ?thesis by (simp add: and.commute disjunctive_add_eq_or)
qed

text \<open>The header the encoder writes, as the decoder reads it.\<close>

lemma frame_length_encoded:
  assumes "length body \<le> 65535" and "length mkey = 4"
    and "buf = (if length body < 126 then [byte_char 0x81, byte_char (0x80 OR length body)]
       else [byte_char 0x81, byte_char (0x80 OR 126)] @ to_big_endian_2 (length body)) @ mkey @ body"
  shows "frame_length buf = Inr (Some (length body, if length body < 126 then 2 else 4))"
    and "byte (buf ! 0) = 0x81" and "byte (buf ! 1) AND 0x80 \<noteq> 0"
proof -
  show "byte (buf ! 0) = 0x81" using assms(3) by simp
  show "byte (buf ! 1) AND 0x80 \<noteq> 0"
    using assms(3) by (auto simp: or_128 and_128_iff nth_append)
  show "frame_length buf = Inr (Some (length body, if length body < 126 then 2 else 4))"
  proof (cases "length body < 126")
    case True
    then have "byte (buf ! 1) AND 0x7F = length body" using assms(3) by (simp add: or_128 and_127)
    with True show ?thesis by (simp add: frame_length_def Let_def)
  next
    case False
    then have "byte (buf ! 1) AND 0x7F = 126" using assms(3) by (simp add: or_128 and_127)
    moreover have "take 2 (drop 2 buf) = to_big_endian_2 (length body)" "4 \<le> length buf"
      using False assms(2,3) by (simp_all add: to_big_endian_2_def)
    ultimately show ?thesis
      using False assms(1) by (simp add: frame_length_def Let_def to_big_endian_2_bytes)
  qed
qed

text \<open>
  Round trip: the frame the helper writes for a payload decodes, at the gate for the client
  side and whatever follows it, to one final text frame with that payload, and to nothing else.
\<close>

theorem websocket_frame_roundtrip:
  assumes "websocket_frame mkey payload = Inr raw" and "length mkey = 4"
  shows "parse_frame False (raw @ rest) =
    Inr (Some \<lparr>f_fin = True, f_opcode = 1, f_payload = payload, f_raw = raw\<rparr>)"
proof -
  from assms(1) have size: "length payload \<le> 65535" by (simp add: websocket_frame_def Let_def)
  let ?body = "apply_mask mkey payload"
  let ?h = "if length payload < 126 then 2 else 4 :: nat"
  have raw: "raw = (if length ?body < 126 then [byte_char 0x81, byte_char (0x80 OR length ?body)]
       else [byte_char 0x81, byte_char (0x80 OR 126)] @ to_big_endian_2 (length ?body)) @ mkey @ ?body"
    using assms(1) by (simp add: websocket_frame_def Let_def)
  note head = frame_length_encoded [OF _ assms(2) raw]
  have len: "length raw = ?h + 4 + length payload"
    using assms(2) raw by (simp add: to_big_endian_2_def)
  have cut: "take 4 (drop ?h raw) = mkey" "drop (?h + 4) raw = ?body"
    using assms(2) by (simp_all add: raw to_big_endian_2_def)
  have "parse_frame False raw =
      Inr (Some \<lparr>f_fin = True, f_opcode = 1, f_payload = payload, f_raw = raw\<rparr>)"
    using size head cut len by (simp add: parse_frame_def Let_def)
  then show ?thesis by (rule parse_frame_append)
qed

theorem websocket_frame_roundtrip_witness:
  "parse_frame False ((byte_char 0x81 # byte_char 0x82 # ''abcd'' @ apply_mask ''abcd'' ''hi'') @ ''x'') =
    Inr (Some \<lparr>f_fin = True, f_opcode = 1, f_payload = ''hi'',
      f_raw = byte_char 0x81 # byte_char 0x82 # ''abcd'' @ apply_mask ''abcd'' ''hi''\<rparr>)"
  by (rule websocket_frame_roundtrip [where mkey = "''abcd''"]) (simp_all add: websocket_frame_def or_128)

section \<open>The two decoders agree\<close>

lemma split_two: "2 \<le> length s \<Longrightarrow> \<exists>x y r. s = x # y # r"
  by (cases s; cases "tl s") auto

lemma read_length_agrees:
  assumes "s = x # y # r"
  shows "read_length (byte y AND 0x7F) r = Inr (n, r') \<longleftrightarrow>
    (\<exists>h. frame_length s = Inr (Some (n, h)) \<and> h \<le> length s \<and> r' = drop h s)"
proof -
  have "(length s < 4) = (length r < 2)" "(length s < 10) = (length r < 8)" using assms by auto
  moreover have "s ! 2 = take 8 r ! 0" if "8 \<le> length r" using assms that by (cases r) auto
  moreover have "take 2 (drop 2 s) = take 2 r" "take 8 (drop 2 s) = take 8 r" "drop 4 s = drop 2 r" "drop 10 s = drop 8 r"
    "drop 2 s = r" "s ! 1 = y" using assms by simp_all
  ultimately show ?thesis using assms
    by (auto simp: read_length_def frame_length_def Let_def not_less)
qed

text \<open>
  The helper's stream decoder and the gate's buffer decoder accept the same frames of a server:
  the stream decoder returns a frame and the rest exactly when the buffer decoder finds that frame
  at the front of the same bytes.
\<close>

theorem frame_decoders_agree:
  "read_server_frame s = Inr (fin, opcode, payload, rest) \<longleftrightarrow>
    (\<exists>f. parse_frame True s = Inr (Some f) \<and> f_fin f = fin \<and> f_opcode f = opcode \<and> f_payload f = payload \<and> s = f_raw f @ rest)"
proof (cases "2 \<le> length s")
  case False
  then show ?thesis by (auto simp: read_server_frame_def read_or_def parse_frame_def)
next
  case True
  then obtain x y r where s: "s = x # y # r" using split_two by blast
  let ?ok = "byte x AND 0x70 = 0 \<and> byte y AND 0x80 = 0"
  have "read_server_frame s = Inr (fin, opcode, payload, rest) \<longleftrightarrow> ?ok \<and>
      (\<exists>n r'. read_length (byte y AND 0x7F) r = Inr (n, r') \<and> n \<le> 65535 \<and> n \<le> length r' \<and> payload = take n r' \<and> rest = drop n r'
        \<and> fin = (byte x AND 0x80 \<noteq> 0) \<and> opcode = byte x AND 0x0F)"
    using s by (auto simp: read_server_frame_def Let_def)
  also have "\<dots> \<longleftrightarrow> ?ok \<and> (\<exists>n h. frame_length s = Inr (Some (n, h)) \<and> n \<le> 65535 \<and> h + n \<le> length s
      \<and> payload = take n (drop h s) \<and> rest = drop (h + n) s \<and> fin = (byte x AND 0x80 \<noteq> 0) \<and> opcode = byte x AND 0x0F)"
    unfolding read_length_agrees [OF s] by (auto simp: add.commute)
  also have "\<dots> \<longleftrightarrow> (\<exists>f. parse_frame True s = Inr (Some f) \<and> f_fin f = fin \<and> f_opcode f = opcode \<and> f_payload f = payload
      \<and> s = f_raw f @ rest)"
  proof -
    have parse: "parse_frame True s = Inr (Some f) \<longleftrightarrow> ?ok \<and> (\<exists>n h. frame_length s = Inr (Some (n, h)) \<and> n \<le> 65535
        \<and> h + n \<le> length s \<and> f = \<lparr>f_fin = (byte x AND 0x80 \<noteq> 0), f_opcode = byte x AND 0x0F,
          f_payload = drop h (take (h + n) s), f_raw = take (h + n) s\<rparr>)" for f
    proof (cases "\<exists>n h. frame_length s = Inr (Some (n, h))")
      case True
      then obtain n h where "frame_length s = Inr (Some (n, h))" by blast
      with s show ?thesis by (auto simp: parse_frame_def Let_def not_less)
    next
      case False
      then show ?thesis using s by (auto simp: parse_frame_def Let_def split: option.splits)
    qed
    have rest: "s = take k s @ rest \<longleftrightarrow> rest = drop k s" for k by (metis append_take_drop_id same_append_eq)
    have "(\<exists>f. parse_frame True s = Inr (Some f) \<and> Q f) \<longleftrightarrow> ?ok \<and> (\<exists>n h. frame_length s = Inr (Some (n, h)) \<and> n \<le> 65535
        \<and> h + n \<le> length s \<and> Q \<lparr>f_fin = (byte x AND 0x80 \<noteq> 0), f_opcode = byte x AND 0x0F,
          f_payload = drop h (take (h + n) s), f_raw = take (h + n) s\<rparr>)" for Q
      unfolding parse by blast
    note eq = this [of "\<lambda>f. f_fin f = fin \<and> f_opcode f = opcode \<and> f_payload f = payload \<and> s = f_raw f @ rest",
      unfolded ws_frame.select_convs rest]
    have cut: "drop h (take (h + n) s) = take n (drop h s)" for h n by (simp add: drop_take)
    show ?thesis unfolding eq cut by blast
  qed
  finally show ?thesis .
qed

end
