(* ===== verification/WireGate.thy ===== *)
theory WireGate
  imports WebSocket "HOL-Library.Multiset"
begin

text \<open>
  The native byte gate (\<open>NativeWebSocketGate\<close> of \<open>runtime/native/owner_helper.py\<close>): it holds back
  the bytes of a connection until a complete message has passed the owner contract and then
  releases the bytes of that message unchanged. The interface the byte gates of the system share
  is a locale, extended by one for gates that keep the order; the laws are what the relay relies on.
\<close>

section \<open>The interface of a byte gate\<close>

text \<open>Feeding a list of chunks, one after the other.\<close>

fun feed_all :: "('s \<Rightarrow> string \<Rightarrow> 'e + (string \<times> 's)) \<Rightarrow> 's \<Rightarrow> string list \<Rightarrow> 'e + (string \<times> 's)" where
  "feed_all feed s [] = Inr ([], s)"
| "feed_all feed s (d # ds) =
     andThen (feed s d) (\<lambda>(out, s1). andThen (feed_all feed s1 ds) (\<lambda>(outs, s2). Inr (out @ outs, s2)))"

text \<open>
  \<open>held s\<close> is what the gate has received and not yet released. As long as the gate has not been
  closed, what comes out and what is still held are the bytes that were held and that came in:
  none is lost, none is invented. A closed gate accepts nothing.
\<close>

locale conserving_gate =
  fixes feed :: "'s \<Rightarrow> string \<Rightarrow> 'e + (string \<times> 's)"
    and held :: "'s \<Rightarrow> string"
    and closed :: "'s \<Rightarrow> bool"
    and invar :: "'s \<Rightarrow> bool"
  assumes conserves: "invar s \<Longrightarrow> feed s d = Inr (out, s') \<Longrightarrow> \<not> closed s' \<Longrightarrow>
      mset out + mset (held s') = mset (held s) + mset d"
    and invar_feed: "invar s \<Longrightarrow> feed s d = Inr (out, s') \<Longrightarrow> invar s'"
    and closed_rejects: "closed s \<Longrightarrow> \<exists>e. feed s d = Inl e"
begin

lemma feeds_closed:
  assumes "closed s" and "feed_all feed s ds = Inr (out, s')"
  shows "s' = s"
proof (cases ds)
  case Nil
  with assms(2) show ?thesis by simp
next
  case (Cons d ds')
  with assms closed_rejects [of s d] show ?thesis by auto
qed

lemma feeds_invar: "invar s \<Longrightarrow> feed_all feed s ds = Inr (out, s') \<Longrightarrow> invar s'"
proof (induction ds arbitrary: s out)
  case Nil
  then show ?case by simp
next
  case (Cons d ds)
  then show ?case using invar_feed by fastforce
qed

lemma feeds_conserve:
  "invar s \<Longrightarrow> feed_all feed s ds = Inr (out, s') \<Longrightarrow> \<not> closed s' \<Longrightarrow>
     mset out + mset (held s') = mset (held s) + mset (concat ds)"
proof (induction ds arbitrary: s out)
  case Nil
  then show ?case by simp
next
  case (Cons d ds)
  then obtain o1 s1 o2 where step: "feed s d = Inr (o1, s1)" "feed_all feed s1 ds = Inr (o2, s')" "out = o1 @ o2"
    by auto
  with Cons.prems feeds_closed [of s1 ds o2 s'] have "\<not> closed s1" by auto
  with Cons.prems(1) step(1) have "mset o1 + mset (held s1) = mset (held s) + mset d" by (rule conserves)
  moreover have "invar s1" using Cons.prems(1) step(1) by (rule invar_feed)
  then have "mset o2 + mset (held s') = mset (held s1) + mset (concat ds)" using Cons.IH step(2) Cons.prems(3) by blast
  ultimately show ?case using step(3) by (simp add: union_assoc)
qed

end

text \<open>A gate that also keeps the order of the bytes.\<close>

locale byte_gate = conserving_gate +
  assumes ordered: "invar s \<Longrightarrow> feed s d = Inr (out, s') \<Longrightarrow> \<not> closed s' \<Longrightarrow> out @ held s' = held s @ d"
begin

lemma feeds_ordered:
  "invar s \<Longrightarrow> feed_all feed s ds = Inr (out, s') \<Longrightarrow> \<not> closed s' \<Longrightarrow> out @ held s' = held s @ concat ds"
proof (induction ds arbitrary: s out)
  case Nil
  then show ?case by simp
next
  case (Cons d ds)
  then obtain o1 s1 o2 where step: "feed s d = Inr (o1, s1)" "feed_all feed s1 ds = Inr (o2, s')" "out = o1 @ o2"
    by auto
  with Cons.prems feeds_closed [of s1 ds o2 s'] have "\<not> closed s1" by auto
  with Cons.prems(1) step(1) have "o1 @ held s1 = held s @ d" by (rule ordered)
  moreover have "invar s1" using Cons.prems(1) step(1) by (rule invar_feed)
  then have "o2 @ held s' = held s1 @ concat ds" using Cons.IH step(2) Cons.prems(3) by blast
  ultimately show ?case using step(3) by (metis append.assoc concat.simps(2))
qed

text \<open>What a fresh gate has released is a prefix of what the peer sent.\<close>

lemma released_is_prefix:
  assumes "invar s" and "feed_all feed s ds = Inr (out, s')" and "\<not> closed s'" and "held s = []"
  shows "concat ds = out @ held s'"
  using feeds_ordered [OF assms(1-3)] assms(4) by simp

end

section \<open>The native gate\<close>

record frame_meta =
  fm_opcode :: "nat option"
  fm_payload_bytes :: "nat option"
  fm_method_sha256 :: "string option"
  fm_method_length :: "nat option"

definition no_meta :: frame_meta where
  "no_meta = \<lparr>fm_opcode = None, fm_payload_bytes = None, fm_method_sha256 = None, fm_method_length = None\<rparr>"

record gate =
  g_owner :: string
  g_server :: bool
  g_pending :: "int list"
  g_buffer :: string
  g_handshake :: bool
  g_fpayload :: string
  g_fframes :: "string list"
  g_meta :: frame_meta

definition new_gate :: "string \<Rightarrow> bool \<Rightarrow> int list \<Rightarrow> gate" where
  "new_gate owner server pending = \<lparr>g_owner = owner, g_server = server, g_pending = pending, g_buffer = [],
     g_handshake = False, g_fpayload = [], g_fframes = [], g_meta = no_meta\<rparr>"

type_synonym 'a gate_result = "(exn \<times> gate) + 'a"

text \<open>
  The metadata \<open>_frame\<close> leaves behind for a buffer: the opcode as soon as two bytes are there,
  the payload length once the header is complete and acceptable.
\<close>

definition frame_meta_of :: "bool \<Rightarrow> string \<Rightarrow> frame_meta" where
  "frame_meta_of server buf =
    (if length buf < 2 then no_meta
     else let first = byte (buf ! 0); m = no_meta\<lparr>fm_opcode := Some (first AND 0x0F)\<rparr> in
       if first AND 0x70 \<noteq> 0 \<or> (byte (buf ! 1) AND 0x80 \<noteq> 0) = server then m
       else case frame_length buf of
           Inr (Some (n, _)) \<Rightarrow> m\<lparr>fm_payload_bytes := Some n\<rparr>
         | _ \<Rightarrow> m)"

definition gate_frame :: "gate \<Rightarrow> (ws_frame option \<times> gate) gate_result" where
  "gate_frame g =
    (let g1 = g\<lparr>g_meta := frame_meta_of (g_server g) (g_buffer g)\<rparr> in
     andThen (with_error (\<lambda>e. (e, g1)) (parse_frame (g_server g) (g_buffer g))) (\<lambda>r. case r of
        None \<Rightarrow> Inr (None, g1)
      | Some f \<Rightarrow> Inr (Some f, g1\<lparr>g_buffer := drop (length (f_raw f)) (g_buffer g)\<rparr>)))"

text \<open>The method of a message that is an object with a string method.\<close>

definition message_method :: "json \<Rightarrow> string option" where
  "message_method v = (case v of JObj d \<Rightarrow> (case dget d ''method'' of JStr s \<Rightarrow> Some s | _ \<Rightarrow> None) | _ \<Rightarrow> None)"

text \<open>The admission of one parsed message, with the identifiers still waiting for an answer.\<close>

definition admit_message :: "platform \<Rightarrow> bool \<Rightarrow> string \<Rightarrow> json \<Rightarrow> int list \<Rightarrow> int list result" where
  "admit_message E server owner message pending =
    (let m = obj_of message; mid = int_of (dget m ''id'') in
     if server then
       andThen (validate_helper_server_message message owner) (\<lambda>_.
       if has_key m ''id'' then
         ensure (mid \<in> set pending) (helper_reject ''response_id_mismatch'') (Inr (removeAll mid pending))
       else Inr pending)
     else
       andThen (validate_helper_rpc E message owner) (\<lambda>_.
       if has_key m ''id'' then
         ensure (mid \<notin> set pending) (helper_reject ''rpc_id_reused'') (Inr (mid # pending))
       else Inr pending))"

definition complete_message :: "platform \<Rightarrow> string \<Rightarrow> gate \<Rightarrow> (string \<times> gate) gate_result" where
  "complete_message E payload g =
     andThen (with_error (\<lambda>e. (e, g)) (json_unique E payload)) (\<lambda>message.
     let g1 = (case message_method message of None \<Rightarrow> g
                | Some name \<Rightarrow> g\<lparr>g_meta := (g_meta g)\<lparr>fm_method_sha256 := Some (p_sha256 E name),
                    fm_method_length := Some (py_len name)\<rparr>\<rparr>)
     in andThen (with_error (\<lambda>e. (e, g1)) (admit_message E (g_server g) (g_owner g) message (g_pending g))) (\<lambda>pending.
        Inr (concat (g_fframes g), g1\<lparr>g_pending := pending, g_fframes := [], g_fpayload := []\<rparr>)))"

text \<open>The body of the loop of \<open>_feed\<close> for one frame: what it adds to the output.\<close>

definition gate_step :: "platform \<Rightarrow> ws_frame \<Rightarrow> gate \<Rightarrow> (string \<times> gate) gate_result" where
  "gate_step E f g =
    (if f_opcode f = 1 then
       ensure (g_fframes g = []) (helper_reject ''websocket_fragment_start'', g)
      (let g1 = g\<lparr>g_fpayload := g_fpayload g @ f_payload f, g_fframes := [f_raw f]\<rparr>
       in if f_fin f then complete_message E (g_fpayload g1) g1 else Inr ([], g1))
     else if f_opcode f = 0 then
       ensure (g_fframes g \<noteq> []) (helper_reject ''websocket_fragment_continuation'', g)
      (let g1 = g\<lparr>g_fpayload := g_fpayload g @ f_payload f, g_fframes := g_fframes g @ [f_raw f]\<rparr>
       in ensure (length (g_fpayload g1) \<le> 65535) (helper_reject ''websocket_message_too_large'', g1)
         (if f_fin f then complete_message E (g_fpayload g1) g1 else Inr ([], g1)))
     else Inl (helper_reject ''websocket_frame_opcode'', g))"

lemma gate_frame_Some:
  assumes "gate_frame g = Inr (Some f, g1)"
  shows "parse_frame (g_server g) (g_buffer g) = Inr (Some f)"
    and "g1 = g\<lparr>g_meta := frame_meta_of (g_server g) (g_buffer g), g_buffer := drop (length (f_raw f)) (g_buffer g)\<rparr>"
    and "g_buffer g = f_raw f @ g_buffer g1" and "g_fframes g1 = g_fframes g"
proof -
  show p: "parse_frame (g_server g) (g_buffer g) = Inr (Some f)"
    and g1: "g1 = g\<lparr>g_meta := frame_meta_of (g_server g) (g_buffer g), g_buffer := drop (length (f_raw f)) (g_buffer g)\<rparr>"
    using assms by (auto simp: gate_frame_def Let_def split: option.splits)
  from parse_frame_Some(1) [OF p] g1 show "g_buffer g = f_raw f @ g_buffer g1" by auto
  from g1 show "g_fframes g1 = g_fframes g" by (cases g) simp
qed

lemma complete_message_buffer:
  "complete_message E payload g = Inr (out, g') \<Longrightarrow> g_buffer g' = g_buffer g"
  by (auto simp: complete_message_def Let_def split: option.splits)

lemma gate_step_buffer: "gate_step E f g = Inr (out, g') \<Longrightarrow> g_buffer g' = g_buffer g"
  by (auto simp: gate_step_def Let_def dest!: complete_message_buffer split: if_splits)

text \<open>The loop: every frame it takes shortens the buffer.\<close>

function gate_loop :: "platform \<Rightarrow> gate \<Rightarrow> (string \<times> gate) gate_result" where
  "gate_loop E g =
     andThen (gate_frame g) (\<lambda>(r, g1). case r of
        None \<Rightarrow> Inr ([], g1)
      | Some f \<Rightarrow>
          andThen (gate_step E f g1) (\<lambda>(out, g2).
          andThen (gate_loop E g2) (\<lambda>(outs, g3). Inr (out @ outs, g3))))"
  by pat_completeness auto
termination
proof (relation "measure (\<lambda>(E, g). length (g_buffer g))")
  fix E :: platform and g :: gate and x r g1 f y out g2
  assume "gate_frame g = Inr x" "(r, g1) = x" "r = Some f" "gate_step E f g1 = Inr y" "(out, g2) = y"
  then have f: "gate_frame g = Inr (Some f, g1)" and s: "gate_step E f g1 = Inr (out, g2)" by auto
  from parse_frame_Some(2) [OF gate_frame_Some(1) [OF f]] gate_frame_Some(3) [OF f] gate_step_buffer [OF s]
  show "((E, g2), (E, g)) \<in> measure (\<lambda>(E, g). length (g_buffer g))" by auto
qed simp

declare gate_loop.simps [simp del]

text \<open>The position of the blank line that ends the HTTP upgrade.\<close>

definition crlf2 :: string where
  "crlf2 = [CHR 0x0D, CHR 0x0A, CHR 0x0D, CHR 0x0A]"

fun find_marker :: "string \<Rightarrow> nat option" where
  "find_marker [] = None"
| "find_marker (c # cs) = (if starts_with crlf2 (c # cs) then Some 0 else map_option Suc (find_marker cs))"

definition max_chunk :: nat where
  "max_chunk = 4194304"

definition gate_feed_inner :: "platform \<Rightarrow> gate \<Rightarrow> string \<Rightarrow> (string \<times> gate) gate_result" where
  "gate_feed_inner E g data =
     ensure (length data \<le> max_chunk) (helper_reject ''wire_chunk'', g)
    (let g1 = g\<lparr>g_buffer := g_buffer g @ data\<rparr> in
     if g_handshake g1 then gate_loop E g1
     else case find_marker (g_buffer g1) of
         None \<Rightarrow> ensure (length (g_buffer g1) \<le> 65536) (helper_reject ''websocket_handshake_size'', g1) (Inr ([], g1))
       | Some marker \<Rightarrow>
           let e = marker + 4; g2 = g1\<lparr>g_buffer := drop e (g_buffer g1), g_handshake := True\<rparr>
           in andThen (gate_loop E g2) (\<lambda>(outs, g3). Inr (take e (g_buffer g1) @ outs, g3)))"

text \<open>What \<open>feed\<close> hands to \<open>on_reject\<close> before it raises again.\<close>

record reject_report =
  rr_stage :: string
  rr_reason :: string
  rr_failure_type :: string
  rr_message_sha256 :: string
  rr_meta :: frame_meta

definition wire_rejection_reasons :: "string list" where
  "wire_rejection_reasons =
    [''server_notification_forbidden'', ''server_notification_params'', ''server_notification_emitted_at_ms'',
     ''server_request_forbidden'', ''deprecation_notice_envelope'', ''response_envelope'', ''response_id'',
     ''response_id_mismatch'', ''response_thread_target'', ''response_error'', ''response_result'',
     ''rpc_method_forbidden'', ''rpc_id_reused'', ''rpc_envelope'', ''wire_chunk'',
     ''websocket_handshake_size'', ''websocket_compression_or_reserved'', ''websocket_mask_direction'',
     ''websocket_length'', ''websocket_frame_too_large'', ''websocket_message_too_large'',
     ''websocket_frame_opcode'', ''websocket_fragment_start'', ''websocket_fragment_continuation'']"

definition make_reject_report :: "platform \<Rightarrow> exn \<Rightarrow> gate \<Rightarrow> reject_report" where
  "make_reject_report E e g =
     \<lparr>rr_stage = (if g_server g then ''helper_wire_server'' else ''helper_wire_client''),
      rr_reason = (if exn_code e \<in> set wire_rejection_reasons then exn_code e else ''wire_contract_rejected''),
      rr_failure_type = exn_class e,
      rr_message_sha256 = p_sha256 E (exn_code e),
      rr_meta = g_meta g\<rparr>"

definition gate_feed :: "platform \<Rightarrow> gate \<Rightarrow> string \<Rightarrow> (exn \<times> reject_report \<times> gate) + (string \<times> gate)" where
  "gate_feed E g data =
     with_error (\<lambda>(e, g'). (e, make_reject_report E e g', g')) (gate_feed_inner E (g\<lparr>g_meta := no_meta\<rparr>) data)"

section \<open>The gate forwards bytes unchanged and in order\<close>

definition gate_held :: "gate \<Rightarrow> string" where
  "gate_held g = concat (g_fframes g) @ g_buffer g"

lemma complete_message_held:
  "complete_message E payload g = Inr (out, g') \<Longrightarrow> out = concat (g_fframes g) \<and> g_fframes g' = []
     \<and> g_buffer g' = g_buffer g \<and> g_fpayload g' = [] \<and> g_handshake g' = g_handshake g
     \<and> g_server g' = g_server g \<and> g_owner g' = g_owner g"
  by (auto simp: complete_message_def Let_def split: option.splits)

lemma gate_step_held:
  assumes "gate_step E f g = Inr (out, g')"
  shows "out @ gate_held g' = concat (g_fframes g) @ f_raw f @ g_buffer g"
  using assms
  by (auto simp: gate_step_def gate_held_def Let_def dest!: complete_message_held split: if_splits)

lemma gate_loop_held: "gate_loop E g = Inr (out, g') \<Longrightarrow> out @ gate_held g' = gate_held g"
proof (induction E g arbitrary: out rule: gate_loop.induct)
  case (1 E g)
  from "1.prems" [unfolded gate_loop.simps [of E g]] obtain r g1 where r: "gate_frame g = Inr (r, g1)"
    by auto
  show ?case
  proof (cases r)
    case None
    with "1.prems" r show ?thesis
      by (auto simp: gate_loop.simps [of E g] gate_frame_def gate_held_def Let_def split: option.splits)
  next
    case (Some f)
    with "1.prems" r obtain o1 g2 o2 where step: "gate_step E f g1 = Inr (o1, g2)"
      and rest: "gate_loop E g2 = Inr (o2, g')" and out: "out = o1 @ o2"
      by (auto simp: gate_loop.simps [of E g])
    from "1.IH" [OF r refl Some step refl rest] have "o2 @ gate_held g' = gate_held g2" .
    moreover have "g_fframes g1 = g_fframes g" "g_buffer g = f_raw f @ g_buffer g1"
      using gate_frame_Some(3,4) [OF r [unfolded Some]] by simp_all
    ultimately show ?thesis using gate_step_held [OF step] out by (simp add: gate_held_def)
  qed
qed

text \<open>
  The invariant: nothing is collected before the upgrade is over, a fragment payload goes with
  collected frames and stays within the bound of one message.
\<close>

definition gate_inv :: "gate \<Rightarrow> bool" where
  "gate_inv g \<longleftrightarrow> (\<not> g_handshake g \<longrightarrow> g_fframes g = []) \<and> (g_fframes g = [] \<longrightarrow> g_fpayload g = [])
     \<and> length (g_fpayload g) \<le> 65535"

lemma gate_inv_meta [simp]: "gate_inv (g\<lparr>g_meta := m\<rparr>) = gate_inv g"
  by (simp add: gate_inv_def)

lemma gate_held_meta [simp]: "gate_held (g\<lparr>g_meta := m\<rparr>) = gate_held g"
  by (simp add: gate_held_def)

lemma gate_step_keeps:
  "gate_step E f g = Inr (out, g') \<Longrightarrow>
     g_handshake g' = g_handshake g \<and> g_server g' = g_server g \<and> g_owner g' = g_owner g"
  by (auto simp: gate_step_def Let_def dest!: complete_message_held split: if_splits)

lemma gate_step_inv:
  assumes "gate_inv g" and "g_handshake g" and "length (f_payload f) \<le> 65535"
    and "gate_step E f g = Inr (out, g')"
  shows "gate_inv g'"
  using assms
  by (auto simp: gate_step_def gate_inv_def Let_def dest!: complete_message_held
      split: if_splits)

text \<open>
  What the loop leaves behind: the invariant, an upgrade that is over, and less than one frame
  of undecided bytes.
\<close>

lemma parse_frame_None:
  assumes "parse_frame server buf = Inr None"
  shows "length buf < 65549"
proof (cases "length buf < 2")
  case False
  with assms consider "frame_length buf = Inr None"
    | n h where "frame_length buf = Inr (Some (n, h))" "n \<le> 65535" "length buf < h + 4 + n"
    by (fastforce simp: parse_frame_def Let_def split: if_splits option.splits)
  then show ?thesis
  proof cases
    case 1
    then show ?thesis by (auto simp: frame_length_def Let_def split: if_splits)
  next
    case 2
    with frame_length_header [OF 2(1)] show ?thesis by auto
  qed
qed simp

lemma gate_loop_inv:
  "gate_loop E g = Inr (out, g') \<Longrightarrow> gate_inv g \<Longrightarrow> g_handshake g \<Longrightarrow>
     gate_inv g' \<and> g_handshake g' \<and> length (g_buffer g') < 65549"
proof (induction E g arbitrary: out rule: gate_loop.induct)
  case (1 E g)
  from "1.prems"(1) [unfolded gate_loop.simps [of E g]] obtain r g1 where r: "gate_frame g = Inr (r, g1)"
    by auto
  show ?case
  proof (cases r)
    case None
    with r have "parse_frame (g_server g) (g_buffer g) = Inr None" and g1: "g_buffer g1 = g_buffer g"
        "gate_inv g1 = gate_inv g" "g_handshake g1 = g_handshake g"
      by (auto simp: gate_frame_def Let_def split: option.splits)
    from parse_frame_None [OF this(1)] "1.prems" r None g1 show ?thesis
      by (simp add: gate_loop.simps [of E g])
  next
    case (Some f)
    with "1.prems"(1) r obtain o1 g2 o2 where step: "gate_step E f g1 = Inr (o1, g2)"
      and rest: "gate_loop E g2 = Inr (o2, g')"
      by (auto simp: gate_loop.simps [of E g])
    note f = gate_frame_Some [OF r [unfolded Some]]
    from f(2) "1.prems" have "gate_inv g1" "g_handshake g1" by (simp_all add: gate_inv_def)
    with gate_step_inv [OF _ _ parse_frame_Some(3) [OF f(1)] step] gate_step_keeps [OF step]
    have "gate_inv g2" "g_handshake g2" by simp_all
    with "1.IH" [OF r refl Some step refl rest] show ?thesis by simp
  qed
qed

lemma find_marker_bound: "find_marker buf = Some n \<Longrightarrow> n + 4 \<le> length buf"
proof (induction buf arbitrary: n)
  case (Cons c cs)
  show ?case
  proof (cases "starts_with crlf2 (c # cs)")
    case True
    then obtain v where "c # cs = crlf2 @ v" by (auto simp: starts_with_iff)
    then have "4 \<le> length (c # cs)" by (simp add: crlf2_def)
    with Cons.prems True show ?thesis by simp
  next
    case False
    with Cons show ?thesis by auto
  qed
qed simp

lemma gate_feed_inner_ok:
  assumes "gate_feed_inner E g data = Inr (out, g')" and "gate_inv g"
  shows "out @ gate_held g' = gate_held g @ data" and "gate_inv g'" and "length (g_buffer g') \<le> 65548"
proof -
  let ?g1 = "g\<lparr>g_buffer := g_buffer g @ data\<rparr>"
  have inv1: "gate_inv ?g1" using assms(2) by (simp add: gate_inv_def)
  consider (run) "g_handshake g" "gate_loop E ?g1 = Inr (out, g')"
    | (wait) "\<not> g_handshake g" "out = []" "g' = ?g1" "length (g_buffer ?g1) \<le> 65536"
    | (upgrade) n o2 where "\<not> g_handshake g" "out = take (n + 4) (g_buffer ?g1) @ o2"
        "gate_loop E (?g1\<lparr>g_buffer := drop (n + 4) (g_buffer ?g1), g_handshake := True\<rparr>) = Inr (o2, g')"
    using assms(1) by (auto simp: gate_feed_inner_def Let_def split: if_splits option.splits)
  then have "out @ gate_held g' = gate_held g @ data \<and> gate_inv g' \<and> length (g_buffer g') \<le> 65548"
  proof cases
    case run
    from gate_loop_held [OF run(2)] gate_loop_inv [OF run(2) inv1] run(1) show ?thesis
      by (simp add: gate_held_def)
  next
    case wait
    with inv1 assms(2) show ?thesis by (simp add: gate_held_def)
  next
    case upgrade
    have "gate_inv (?g1\<lparr>g_buffer := drop (n + 4) (g_buffer ?g1), g_handshake := True\<rparr>)" "g_fframes g = []"
      using assms(2) upgrade(1) by (simp_all add: gate_inv_def)
    moreover have "out @ gate_held g' = take (n + 4) (g_buffer ?g1) @ drop (n + 4) (g_buffer ?g1)"
      using gate_loop_held [OF upgrade(3)] upgrade(2) \<open>g_fframes g = []\<close> by (simp add: gate_held_def)
    ultimately show ?thesis
      using gate_loop_inv [OF upgrade(3)] by (simp only: append_take_drop_id) (simp add: gate_held_def)
  qed
  then show "out @ gate_held g' = gate_held g @ data" and "gate_inv g'" and "length (g_buffer g') \<le> 65548"
    by simp_all
qed

lemma gate_feed_inner_of: "gate_feed E g data = Inr r \<Longrightarrow> gate_feed_inner E (g\<lparr>g_meta := no_meta\<rparr>) data = Inr r"
  by (simp add: gate_feed_def)

interpretation native_gate: byte_gate "gate_feed E" gate_held "\<lambda>_. False" gate_inv for E
proof
  fix g d out g'
  assume "gate_inv g" "gate_feed E g d = Inr (out, g')"
  then show "out @ gate_held g' = gate_held g @ d"
    using gate_feed_inner_ok(1) [OF gate_feed_inner_of] by fastforce
next
  fix g d out g'
  assume "gate_inv g" "gate_feed E g d = Inr (out, g')"
  then show "gate_inv g'" using gate_feed_inner_ok(2) [OF gate_feed_inner_of] by fastforce
next
  fix g d out g'
  assume "gate_inv g" "gate_feed E g d = Inr (out, g')"
  then have "out @ gate_held g' = gate_held g @ d"
    using gate_feed_inner_ok(1) [OF gate_feed_inner_of] by fastforce
  then show "mset out + mset (gate_held g') = mset (gate_held g) + mset d" by (metis mset_append)
qed simp

text \<open>
  Whatever the chunks in which a peer's bytes arrive, as long as none is rejected the gate has
  released a prefix of exactly those bytes and holds the rest: it never alters, drops, reorders or
  invents a byte.
\<close>

theorem native_gate_transparent:
  assumes "feed_all (gate_feed E) (new_gate owner server pending) chunks = Inr (out, g)"
  shows "concat chunks = out @ gate_held g"
  by (rule native_gate.released_is_prefix [OF _ assms])
     (simp_all add: new_gate_def gate_inv_def gate_held_def)

text \<open>
  Bounded decoding: after every accepted chunk at most 65548 undecided bytes are buffered
  (one maximal frame less one byte) and the payload of the message being collected has at most
  65535 bytes.
\<close>

theorem native_gate_bounded:
  assumes "gate_inv g" and "gate_feed E g data = Inr (out, g')"
  shows "length (g_buffer g') \<le> 65548 \<and> length (g_fpayload g') \<le> 65535 \<and> gate_inv g'"
  using gate_feed_inner_ok(2,3) [OF gate_feed_inner_of [OF assms(2)]] assms(1)
  by (simp add: gate_inv_def)

section \<open>Only complete messages that pass the contract are released\<close>

definition contract_ok :: "platform \<Rightarrow> bool \<Rightarrow> string \<Rightarrow> json \<Rightarrow> bool" where
  "contract_ok E server owner v \<longleftrightarrow>
     (if server then validate_helper_server_message v owner = Inr ()
      else validate_helper_rpc E v owner = Inr ())"

text \<open>The frames of one message: each decodes on its own, and together they pass the contract.\<close>

definition frames_decode :: "bool \<Rightarrow> ws_frame list \<Rightarrow> bool" where
  "frames_decode server fs \<longleftrightarrow> (\<forall>f \<in> set fs. parse_frame server (f_raw f) = Inr (Some f))"

definition message_ok :: "platform \<Rightarrow> bool \<Rightarrow> string \<Rightarrow> ws_frame list \<Rightarrow> bool" where
  "message_ok E server owner fs \<longleftrightarrow> fs \<noteq> [] \<and> frames_decode server fs \<and>
     (\<exists>v. json_unique E (concat (map f_payload fs)) = Inr v \<and> contract_ok E server owner v)"

definition frames_raw :: "ws_frame list \<Rightarrow> string" where
  "frames_raw fs = concat (map f_raw fs)"

text \<open>The frames a gate has collected.\<close>

definition collected :: "gate \<Rightarrow> ws_frame list \<Rightarrow> bool" where
  "collected g fs \<longleftrightarrow> g_fframes g = map f_raw fs \<and> g_fpayload g = concat (map f_payload fs)
     \<and> frames_decode (g_server g) fs"

lemma admit_message_contract:
  "admit_message E server owner v pending = Inr p \<Longrightarrow> contract_ok E server owner v"
  by (cases server) (auto simp: admit_message_def contract_ok_def Let_def)

lemma complete_message_contract:
  assumes "complete_message E payload g = Inr (out, g')"
  shows "\<exists>v. json_unique E payload = Inr v \<and> contract_ok E (g_server g) (g_owner g) v"
  using assms admit_message_contract by (fastforce simp: complete_message_def Let_def)

text \<open>A frame that is accepted is collected, and completes the message or not.\<close>

lemma gate_step_cases:
  assumes step: "gate_step E f g = Inr (out, g')"
  obtains (hold) "out = []"
      "g' = g\<lparr>g_fpayload := g_fpayload g @ f_payload f, g_fframes := g_fframes g @ [f_raw f]\<rparr>"
    | (release) "complete_message E (g_fpayload g @ f_payload f)
        (g\<lparr>g_fpayload := g_fpayload g @ f_payload f, g_fframes := g_fframes g @ [f_raw f]\<rparr>) = Inr (out, g')"
proof (cases "f_opcode f = 1")
  case True
  then have "g_fframes g = []" using step by (simp add: gate_step_def)
  with step True that show thesis by (cases "f_fin f") (simp_all add: gate_step_def Let_def)
next
  case False
  with step that show thesis
    by (cases "f_fin f"; cases "f_opcode f = 0") (simp_all add: gate_step_def Let_def)
qed

lemma gate_step_collects:
  assumes step: "gate_step E f g = Inr (out, g')" and fs: "collected g fs"
    and f: "parse_frame (g_server g) (f_raw f) = Inr (Some f)"
  shows "(out = [] \<and> collected g' (fs @ [f])) \<or>
    (out = frames_raw (fs @ [f]) \<and> message_ok E (g_server g) (g_owner g) (fs @ [f]) \<and> collected g' [])"
proof -
  have c: "collected (g\<lparr>g_fpayload := g_fpayload g @ f_payload f, g_fframes := g_fframes g @ [f_raw f]\<rparr>) (fs @ [f])"
    using fs f by (auto simp: collected_def frames_decode_def)
  from step show ?thesis
  proof (cases rule: gate_step_cases)
    case hold
    with c show ?thesis by simp
  next
    case release
    from complete_message_contract [OF release] c have "message_ok E (g_server g) (g_owner g) (fs @ [f])"
      by (simp add: collected_def message_ok_def)
    moreover from complete_message_held [OF release] c have "out = frames_raw (fs @ [f])" "collected g' []"
      by (simp_all add: collected_def frames_raw_def frames_decode_def)
    ultimately show ?thesis by blast
  qed
qed

definition all_released :: "platform \<Rightarrow> gate \<Rightarrow> string \<Rightarrow> bool" where
  "all_released E g out \<longleftrightarrow> (\<exists>msgs. out = concat (map frames_raw msgs)
     \<and> (\<forall>fs \<in> set msgs. message_ok E (g_server g) (g_owner g) fs))"

lemma all_released_Nil [simp]: "all_released E g []"
  by (auto simp: all_released_def intro: exI [of _ "[]"])

lemma all_released_single: "message_ok E (g_server g) (g_owner g) fs \<Longrightarrow> all_released E g (frames_raw fs)"
  unfolding all_released_def by (rule exI [of _ "[fs]"]) simp

lemma all_released_append: "all_released E g a \<Longrightarrow> all_released E g b \<Longrightarrow> all_released E g (a @ b)"
  unfolding all_released_def by (metis concat_append map_append set_append UnE)

lemma all_released_cong:
  "g_server g = g_server h \<Longrightarrow> g_owner g = g_owner h \<Longrightarrow> all_released E g = all_released E h"
  by (simp add: all_released_def fun_eq_iff)

lemma gate_frame_keeps:
  assumes "gate_frame g = Inr (r, g1)"
  shows "g_server g1 = g_server g \<and> g_owner g1 = g_owner g \<and>
     g_fframes g1 = g_fframes g \<and> g_fpayload g1 = g_fpayload g \<and> g_pending g1 = g_pending g \<and> g_handshake g1 = g_handshake g"
proof (cases r)
  case None
  with assms have "g1 = g\<lparr>g_meta := frame_meta_of (g_server g) (g_buffer g)\<rparr>"
    by (auto simp: gate_frame_def Let_def split: option.splits)
  then show ?thesis by simp
next
  case (Some f)
  with gate_frame_Some(2) [of g f g1] assms show ?thesis by simp
qed

lemma collected_cong:
  "g_server g = g_server h \<Longrightarrow> g_fframes g = g_fframes h \<Longrightarrow> g_fpayload g = g_fpayload h \<Longrightarrow>
     collected g fs = collected h fs"
  by (simp add: collected_def)

lemma gate_loop_releases:
  "gate_loop E g = Inr (out, g') \<Longrightarrow> collected g fs \<Longrightarrow>
     all_released E g out \<and> (\<exists>fs'. collected g' fs') \<and> g_server g' = g_server g \<and> g_owner g' = g_owner g"
proof (induction E g arbitrary: out fs rule: gate_loop.induct)
  case (1 E g)
  from "1.prems"(1) [unfolded gate_loop.simps [of E g]] obtain r g1 where r: "gate_frame g = Inr (r, g1)"
    by auto
  note keep = gate_frame_keeps [OF r]
  have c1: "collected g1 fs" using "1.prems"(2) keep collected_cong [of g1 g fs] by simp
  show ?case
  proof (cases r)
    case None
    with "1.prems" r c1 keep show ?thesis by (auto simp: gate_loop.simps [of E g])
  next
    case (Some f)
    with "1.prems"(1) r obtain o1 g2 o2 where step: "gate_step E f g1 = Inr (o1, g2)"
      and rest: "gate_loop E g2 = Inr (o2, g')" and out: "out = o1 @ o2"
      by (auto simp: gate_loop.simps [of E g])
    have "parse_frame (g_server g1) (f_raw f) = Inr (Some f)"
      using parse_frame_raw [OF gate_frame_Some(1) [OF r [unfolded Some]]] keep by simp
    from gate_step_collects [OF step c1 this] obtain fs2 where
      "all_released E g1 o1" and c2: "collected g2 fs2"
      using all_released_single all_released_Nil by blast
    have IH: "all_released E g2 o2 \<and> (\<exists>fs'. collected g' fs') \<and> g_server g' = g_server g2 \<and> g_owner g' = g_owner g2"
      by (rule "1.IH" [OF r refl Some step refl rest c2])
    have same: "g_server g2 = g_server g" "g_owner g2 = g_owner g" "g_server g1 = g_server g" "g_owner g1 = g_owner g"
      using gate_step_keeps [OF step] keep by simp_all
    have "all_released E g o1" "all_released E g o2"
      using \<open>all_released E g1 o1\<close> IH same all_released_cong [of g1 g E] all_released_cong [of g2 g E] by simp_all
    then have "all_released E g out" unfolding out by (rule all_released_append)
    with IH same show ?thesis by simp
  qed
qed

text \<open>
  The state of a gate from its first byte: while the upgrade is pending nothing has been released;
  afterwards the output is the upgrade text and then released messages.
\<close>

definition released_ok :: "platform \<Rightarrow> gate \<Rightarrow> string \<Rightarrow> bool" where
  "released_ok E g out \<longleftrightarrow> (\<exists>fs. collected g fs) \<and>
     (if g_handshake g then \<exists>head msgs. out = head @ msgs \<and> find_marker head = Some (length head - 4) \<and> all_released E g msgs
      else out = [])"

lemma released_okI:
  assumes "collected g fs" and "g_handshake g" and "find_marker head = Some (length head - 4)"
    and "all_released E g msgs"
  shows "released_ok E g (head @ msgs)"
  using assms by (auto simp: released_ok_def)

lemma released_okD:
  assumes "released_ok E g out" and "out \<noteq> []"
  shows "\<exists>head msgs. out = head @ concat (map frames_raw msgs) \<and> find_marker head = Some (length head - 4)
    \<and> (\<forall>fs \<in> set msgs. message_ok E (g_server g) (g_owner g) fs)"
  using assms unfolding released_ok_def all_released_def by metis

lemma find_marker_take: "find_marker buf = Some n \<Longrightarrow> find_marker (take (n + 4) buf) = Some n"
proof (induction buf arbitrary: n)
  case (Cons c cs)
  show ?case
  proof (cases "starts_with crlf2 (c # cs)")
    case True
    with Cons.prems have n: "n = 0" by simp
    from True have "starts_with crlf2 (take 4 (c # cs))" by (simp add: starts_with_def crlf2_def)
    then show ?thesis unfolding n by simp
  next
    case False
    with Cons.prems obtain m where m: "find_marker cs = Some m" "n = Suc m" by auto
    from Cons.IH [OF m(1)] have "find_marker (take (m + 4) cs) = Some m" .
    moreover have "\<not> starts_with crlf2 (c # take (m + 4) cs)"
      using False by (auto simp: starts_with_def crlf2_def)
    moreover have "n + 4 = Suc (m + 4)" using m(2) by simp
    ultimately show ?thesis using m(2) by (simp only: take_Suc_Cons) simp
  qed
qed simp

lemma gate_feed_released:
  assumes feed: "gate_feed E g data = Inr (o2, g')" and inv: "gate_inv g" and ok: "released_ok E g out"
  shows "released_ok E g' (out @ o2) \<and> g_server g' = g_server g \<and> g_owner g' = g_owner g"
proof -
  let ?g1 = "g\<lparr>g_meta := no_meta, g_buffer := g_buffer g @ data\<rparr>"
  from ok obtain fs where fs: "collected g fs" by (auto simp: released_ok_def)
  consider (run) "g_handshake g" "gate_loop E ?g1 = Inr (o2, g')"
    | (wait) "\<not> g_handshake g" "o2 = []" "g' = ?g1"
    | (upgrade) n o3 where "\<not> g_handshake g" "o2 = take (n + 4) (g_buffer ?g1) @ o3" "find_marker (g_buffer ?g1) = Some n"
        "gate_loop E (?g1\<lparr>g_buffer := drop (n + 4) (g_buffer ?g1), g_handshake := True\<rparr>) = Inr (o3, g')"
    using gate_feed_inner_of [OF feed] by (auto simp: gate_feed_inner_def Let_def split: if_splits option.splits)
  then show ?thesis
  proof cases
    case run
    have "collected ?g1 fs" using fs by (simp add: collected_def)
    note rel = gate_loop_releases [OF run(2) this]
    from ok run(1) obtain head msgs where out: "out = head @ msgs" "find_marker head = Some (length head - 4)" "all_released E g msgs"
      by (auto simp: released_ok_def)
    have "g_handshake g'" using gate_loop_inv [OF run(2)] inv run(1) by (simp add: gate_inv_def)
    moreover have "all_released E g' (msgs @ o2)"
      using rel out(3) all_released_cong [of g g' E] all_released_cong [of ?g1 g' E] by (auto intro: all_released_append)
    ultimately show ?thesis using rel out(1,2) by (auto simp: released_ok_def)
  next
    case wait
    with ok fs show ?thesis by (auto simp: released_ok_def collected_def)
  next
    case upgrade
    let ?g2 = "?g1\<lparr>g_buffer := drop (n + 4) (g_buffer ?g1), g_handshake := True\<rparr>"
    have "collected ?g2 fs" using fs by (simp add: collected_def)
    note rel = gate_loop_releases [OF upgrade(4) this]
    have "g_handshake g'" using gate_loop_inv [OF upgrade(4)] inv upgrade(1) by (simp add: gate_inv_def)
    moreover have "all_released E g' o3" using rel all_released_cong [of ?g2 g' E] by auto
    moreover have "out = []" using ok upgrade(1) by (simp add: released_ok_def)
    moreover have "find_marker (take (n + 4) (g_buffer ?g1)) = Some (length (take (n + 4) (g_buffer ?g1)) - 4)"
      using find_marker_take [OF upgrade(3)] find_marker_bound [OF upgrade(3)]
      by (metis length_take min.absorb2 add_diff_cancel_right')
    ultimately have "released_ok E g' (out @ o2)"
      using rel released_okI unfolding upgrade(2) by (metis append_Nil)
    with rel show ?thesis by simp
  qed
qed

lemma feed_all_released:
  "feed_all (gate_feed E) g chunks = Inr (o2, g') \<Longrightarrow> gate_inv g \<Longrightarrow> released_ok E g out \<Longrightarrow>
     released_ok E g' (out @ o2) \<and> g_server g' = g_server g \<and> g_owner g' = g_owner g"
proof (induction chunks arbitrary: g out o2)
  case Nil
  then show ?case by simp
next
  case (Cons d ds)
  then obtain oa g1 ob where step: "gate_feed E g d = Inr (oa, g1)" "feed_all (gate_feed E) g1 ds = Inr (ob, g')"
    "o2 = oa @ ob" by auto
  from gate_feed_released [OF step(1) Cons.prems(2,3)] native_gate.invar_feed [OF Cons.prems(2) step(1)]
    Cons.IH [OF step(2)] step(3) show ?case by fastforce
qed

text \<open>
  C35. Everything a fresh gate releases is the text of the HTTP upgrade followed by whole messages,
  each of which parses as JSON without repeated keys and satisfies the owner contract of its
  direction; bytes of a message that was not yet accepted are never released.
\<close>

theorem native_gate_releases_only_contract_messages:
  assumes "feed_all (gate_feed E) (new_gate owner server pending) chunks = Inr (out, g)" and "out \<noteq> []"
  shows "\<exists>head msgs. out = head @ concat (map frames_raw msgs) \<and> find_marker head = Some (length head - 4)
    \<and> (\<forall>fs \<in> set msgs. message_ok E server owner fs)"
proof -
  have "gate_inv (new_gate owner server pending)" and "released_ok E (new_gate owner server pending) []"
    by (auto simp: new_gate_def gate_inv_def released_ok_def collected_def frames_decode_def)
  from feed_all_released [OF assms(1) this] have "released_ok E g out" "g_server g = server" "g_owner g = owner"
    by (simp_all add: new_gate_def)
  with released_okD [OF this(1) assms(2)] show ?thesis by simp
qed

section \<open>A sample connection\<close>

text \<open>The upgrade in two chunks, then one masked text frame that announces the client as initialized.\<close>

definition gate_platform :: platform where
  "gate_platform = sample_platform\<lparr>p_scan := \<lambda>text.
     if text = ''ready'' then Some (JObj [(''method'', JStr ''initialized'')]) else None\<rparr>"

definition sample_frame :: string where
  "sample_frame = [CHR 0x81, CHR 0x85] @ ''abcd'' @ apply_mask ''abcd'' ''ready''"

definition sample_chunks :: "string list" where
  "sample_chunks = [''GET /'', crlf2 @ take 3 sample_frame, drop 3 sample_frame]"

lemma sample_chunks_pass:
  "feed_all (gate_feed gate_platform) (new_gate ''owner'' False []) sample_chunks =
     Inr (''GET /'' @ crlf2 @ sample_frame, (new_gate ''owner'' False [])\<lparr>g_handshake := True\<rparr>)"
  by code_simp

theorem native_gate_transparent_witness:
  "concat sample_chunks = (''GET /'' @ crlf2 @ sample_frame) @ gate_held ((new_gate ''owner'' False [])\<lparr>g_handshake := True\<rparr>)"
  by (rule native_gate_transparent [OF sample_chunks_pass])

lemma sample_first_chunk: "succeeds (gate_feed gate_platform (new_gate ''owner'' False []) ''GET /'')"
  by code_simp

theorem native_gate_bounded_witness:
  "\<exists>out g'. gate_feed gate_platform (new_gate ''owner'' False []) ''GET /'' = Inr (out, g') \<and> length (g_buffer g') \<le> 65548"
proof -
  have "gate_inv (new_gate ''owner'' False [])" by (simp add: gate_inv_def new_gate_def)
  from sample_first_chunk native_gate_bounded [OF this] show ?thesis unfolding succeeds_iff by fast
qed

theorem native_gate_releases_only_contract_messages_witness:
  "\<exists>head msgs. ''GET /'' @ crlf2 @ sample_frame = head @ concat (map frames_raw msgs)
    \<and> (\<forall>fs \<in> set msgs. message_ok gate_platform False ''owner'' fs)"
  using native_gate_releases_only_contract_messages [OF sample_chunks_pass] by auto

end
