(* ===== verification/AuthWire.thy ===== *)
theory AuthWire
  imports RpcPolicy WireGate
begin

text \<open>
  The authentication gate of a trial connection
  (\<open>plugins/codex-orchestrator/lib/trial/auth_wire.py\<close>): a subclass of the native gate that
  reuses its frame decoder, replaces the owner contract by the authentication policy, lets control
  frames pass and ends at a close frame. A rejection is reduced to a stable code and everything
  buffered is discarded.
\<close>

section \<open>Session overrides\<close>

definition config_write_methods :: "string list" where
  "config_write_methods = [''config/value/write'', ''config/batchWrite'']"

definition session_override_methods :: "string list" where
  "session_override_methods = [''thread/start'', ''thread/resume'', ''thread/fork'', ''turn/start'']"

definition thread_override_methods :: "string list" where
  "thread_override_methods = [''thread/start'', ''thread/resume'', ''thread/fork'']"

definition fixed_tui_config_override_keys :: "string list" where
  "fixed_tui_config_override_keys = [''allow_login_shell'', ''bypass_hook_trust'', ''default_permissions'',
     ''features'', ''model_reasoning_effort'', ''model_reasoning_summary'', ''model_verbosity'', ''network'',
     ''permissions'', ''personality'', ''sandbox_workspace_write'', ''web_search'']"

definition fixed_tui_config_is_safe :: "string \<Rightarrow> json \<Rightarrow> bool" where
  "fixed_tui_config_is_safe method v =
    (let d = obj_of v; features = dget d ''features''; f = obj_of features in
     if v = JNull \<or> py_eq v (JObj []) then True
     else if method \<notin> set thread_override_methods \<or> \<not> is_obj v then False
     else if \<not> keys_within d fixed_tui_config_override_keys then False
     else if has_key d ''allow_login_shell'' \<and> dget d ''allow_login_shell'' \<noteq> JBool False then False
     else if \<not> has_key d ''features'' then True
     else if \<not> is_obj features then False
     else if \<not> keys_within f [''use_agent_identity''] then False
     else if \<not> has_key f ''use_agent_identity'' then True
     else dget f ''use_agent_identity'' = JBool False)"

definition trial_blocked :: "string \<Rightarrow> exn" where
  "trial_blocked code = Raised ''_TrialAuthWirePolicyBlocked'' code"

definition enforce_trial_auth_overrides :: "jdict \<Rightarrow> unit result" where
  "enforce_trial_auth_overrides d =
    (let method = dget d ''method''; params = dget d ''params''; p = obj_of params in
     andThen (in_str_set method config_write_methods) (\<lambda>write.
     ensure (\<not> write) (trial_blocked ''trial_config_write_forbidden'')
    (andThen (in_str_set method session_override_methods) (\<lambda>session.
     if \<not> session \<or> \<not> is_obj params then Inr ()
     else ensure (\<not> (dget p ''modelProvider'' \<noteq> JNull \<or>
           (has_key p ''config'' \<and> \<not> fixed_tui_config_is_safe (str_of method) (dget p ''config''))))
         (trial_blocked ''trial_session_auth_override_forbidden'') (Inr ())))))"

section \<open>The gate\<close>

definition invalid_wire :: "string \<Rightarrow> exn" where
  "invalid_wire reason = Raised ''_InvalidAuthWireMessage'' reason"

definition unique_json :: "platform \<Rightarrow> string \<Rightarrow> jdict result" where
  "unique_json E payload =
     andThen (loads_unique E (invalid_wire ''invalid_json'') (invalid_wire ''duplicate_json_key'')
       (invalid_wire ''json_constant'') payload) (\<lambda>v.
     ensure (is_obj v) (invalid_wire ''rpc_object_required'') (Inr (obj_of v)))"

text \<open>The inherited state and the flag of the subclass.\<close>

record auth_gate =
  ag_base :: gate
  ag_closed :: bool

definition new_auth_gate :: "bool \<Rightarrow> auth_gate" where
  "new_auth_gate server = \<lparr>ag_base = new_gate ''trial-auth-wire'' server [], ag_closed = False\<rparr>"

type_synonym 'a auth_result = "(exn \<times> auth_gate) + 'a"

definition auth_direction :: "bool \<Rightarrow> string" where
  "auth_direction server = (if server then ''server_to_client'' else ''client_to_server'')"

text \<open>What \<open>_complete_auth_message\<close> checks of a payload.\<close>

definition check_auth_payload :: "platform \<Rightarrow> bool \<Rightarrow> string \<Rightarrow> json result" where
  "check_auth_payload E server payload =
     andThen (unique_json E payload) (\<lambda>d.
     andThen (if server then Inr () else enforce_trial_auth_overrides d) (\<lambda>_.
     enforce_auth_rpc_policy (auth_direction server) (JObj d)))"

definition complete_auth_message :: "platform \<Rightarrow> string \<Rightarrow> auth_gate \<Rightarrow> (string \<times> auth_gate) auth_result" where
  "complete_auth_message E payload a =
    (let g = ag_base a in
     andThen (with_error (\<lambda>e. (e, a)) (check_auth_payload E (g_server g) payload)) (\<lambda>_.
     Inr (concat (g_fframes g), a\<lparr>ag_base := g\<lparr>g_fframes := [], g_fpayload := []\<rparr>\<rparr>)))"

text \<open>A control frame: the output is the frame itself; a close frame ends the connection.\<close>

definition control_step :: "ws_frame \<Rightarrow> auth_gate \<Rightarrow> (string \<times> auth_gate) auth_result" where
  "control_step f a =
     ensure (f_fin f \<and> length (f_payload f) \<le> 125 \<and> \<not> (f_opcode f = 8 \<and> length (f_payload f) = 1))
       (invalid_wire ''websocket_control_frame'', a)
    (if f_opcode f = 8 then
       ensure (g_buffer (ag_base a) = []) (invalid_wire ''websocket_after_close'', a)
      (Inr (f_raw f, a\<lparr>ag_base := (ag_base a)\<lparr>g_fframes := [], g_fpayload := []\<rparr>, ag_closed := True\<rparr>))
     else Inr (f_raw f, a))"

text \<open>The body of the loop for one frame.\<close>

definition auth_step :: "platform \<Rightarrow> ws_frame \<Rightarrow> auth_gate \<Rightarrow> (string \<times> auth_gate) auth_result" where
  "auth_step E f a =
    (let g = ag_base a in
     if f_opcode f = 1 then
       ensure (g_fframes g = []) (invalid_wire ''websocket_fragment_start'', a)
      (let a1 = a\<lparr>ag_base := g\<lparr>g_fpayload := g_fpayload g @ f_payload f, g_fframes := [f_raw f]\<rparr>\<rparr>
       in if f_fin f then complete_auth_message E (g_fpayload (ag_base a1)) a1 else Inr ([], a1))
     else if f_opcode f = 0 then
       ensure (g_fframes g \<noteq> []) (invalid_wire ''websocket_fragment_continuation'', a)
      (let a1 = a\<lparr>ag_base := g\<lparr>g_fpayload := g_fpayload g @ f_payload f, g_fframes := g_fframes g @ [f_raw f]\<rparr>\<rparr>
       in ensure (length (g_fpayload (ag_base a1)) \<le> 65535) (invalid_wire ''websocket_message_too_large'', a1)
         (if f_fin f then complete_auth_message E (g_fpayload (ag_base a1)) a1 else Inr ([], a1)))
     else if f_opcode f \<in> {8, 9, 10} then control_step f a
     else Inl (invalid_wire ''websocket_frame_opcode'', a))"

text \<open>The inherited \<open>_frame\<close>.\<close>

definition auth_frame :: "auth_gate \<Rightarrow> (ws_frame option \<times> auth_gate) auth_result" where
  "auth_frame a =
     andThen (with_error (\<lambda>(e, g). (e, a\<lparr>ag_base := g\<rparr>)) (gate_frame (ag_base a))) (\<lambda>(r, g).
     Inr (r, a\<lparr>ag_base := g\<rparr>))"

lemma complete_auth_message_ok:
  assumes "complete_auth_message E payload a = Inr (out, a')"
  shows "out = concat (g_fframes (ag_base a))"
    and "a' = a\<lparr>ag_base := (ag_base a)\<lparr>g_fframes := [], g_fpayload := []\<rparr>\<rparr>"
    and "succeeds (check_auth_payload E (g_server (ag_base a)) payload)"
  using assms by (auto simp: complete_auth_message_def Let_def succeeds_iff)

lemma auth_step_buffer:
  "auth_step E f a = Inr (out, a') \<Longrightarrow> g_buffer (ag_base a') = g_buffer (ag_base a)"
  by (auto simp: auth_step_def control_step_def Let_def dest!: complete_auth_message_ok(2) split: if_splits)

lemma auth_frame_ok:
  "auth_frame a = Inr (r, a1) \<longleftrightarrow> (\<exists>g. gate_frame (ag_base a) = Inr (r, g) \<and> a1 = a\<lparr>ag_base := g\<rparr>)"
  by (auto simp: auth_frame_def)

function auth_loop :: "platform \<Rightarrow> auth_gate \<Rightarrow> (string \<times> auth_gate) auth_result" where
  "auth_loop E a =
     andThen (auth_frame a) (\<lambda>(r, a1). case r of
        None \<Rightarrow> Inr ([], a1)
      | Some f \<Rightarrow>
          andThen (auth_step E f a1) (\<lambda>(out, a2).
          if f_opcode f = 8 then Inr (out, a2)
          else andThen (auth_loop E a2) (\<lambda>(outs, a3). Inr (out @ outs, a3))))"
  by pat_completeness auto
termination
proof (relation "measure (\<lambda>(E, a). length (g_buffer (ag_base a)))")
  fix E :: platform and a :: auth_gate and x r a1 f y out a2
  assume "auth_frame a = Inr x" "(r, a1) = x" "r = Some f" "auth_step E f a1 = Inr y" "(out, a2) = y"
  then obtain g where f: "gate_frame (ag_base a) = Inr (Some f, g)" and a1: "a1 = a\<lparr>ag_base := g\<rparr>"
    and s: "auth_step E f a1 = Inr (out, a2)" by (auto simp: auth_frame_ok)
  from parse_frame_Some(2) [OF gate_frame_Some(1) [OF f]] gate_frame_Some(3) [OF f] auth_step_buffer [OF s] a1
  show "((E, a2), (E, a)) \<in> measure (\<lambda>(E, a). length (g_buffer (ag_base a)))" by auto
qed simp

declare auth_loop.simps [simp del]

definition auth_feed_inner :: "platform \<Rightarrow> auth_gate \<Rightarrow> string \<Rightarrow> (string \<times> auth_gate) auth_result" where
  "auth_feed_inner E a data =
     ensure (length data \<le> max_chunk \<and> \<not> ag_closed a) (invalid_wire ''wire_chunk'', a)
    (let g1 = (ag_base a)\<lparr>g_buffer := g_buffer (ag_base a) @ data\<rparr>; a1 = a\<lparr>ag_base := g1\<rparr> in
     if g_handshake g1 then auth_loop E a1
     else case find_marker (g_buffer g1) of
         None \<Rightarrow> ensure (length (g_buffer g1) \<le> 65536) (invalid_wire ''websocket_handshake_size'', a1) (Inr ([], a1))
       | Some marker \<Rightarrow>
           let e = marker + 4; a2 = a\<lparr>ag_base := g1\<lparr>g_buffer := drop e (g_buffer g1), g_handshake := True\<rparr>\<rparr>
           in ensure (e \<le> 65536) (invalid_wire ''websocket_handshake_size'', a1)
             (andThen (auth_loop E a2) (\<lambda>(outs, a3). Inr (take e (g_buffer g1) @ outs, a3))))"

definition auth_reject_code :: "exn \<Rightarrow> string" where
  "auth_reject_code e =
    (if exn_class e = ''AuthRpcPolicyBlocked'' then (if exn_code e \<in> set policy_codes then exn_code e else ''auth_wire_rejected'')
     else if exn_class e = ''_TrialAuthWirePolicyBlocked'' then exn_code e
     else ''auth_wire_invalid_message'')"

record auth_report =
  wr_stage :: string
  wr_reason :: string

definition auth_feed :: "platform \<Rightarrow> auth_gate \<Rightarrow> string \<Rightarrow> (exn \<times> auth_report \<times> auth_gate) + (string \<times> auth_gate)" where
  "auth_feed E a data =
     with_error (\<lambda>(e, a'). let code = auth_reject_code e in
       (Raised ''AuthWireRejected'' code,
        \<lparr>wr_stage = (if g_server (ag_base a') then ''trial_auth_wire_server'' else ''trial_auth_wire_client''), wr_reason = code\<rparr>,
        a'\<lparr>ag_base := (ag_base a')\<lparr>g_buffer := [], g_fpayload := [], g_fframes := []\<rparr>\<rparr>))
     (auth_feed_inner E a data)"

text \<open>The factory makes one gate for each direction of a connection.\<close>

definition auth_wire_gates :: "auth_gate \<times> auth_gate" where
  "auth_wire_gates = (new_auth_gate False, new_auth_gate True)"

section \<open>What a run of the gate does to the frames\<close>

definition is_control :: "ws_frame \<Rightarrow> bool" where
  "is_control f = (f_opcode f \<in> {8, 9, 10})"

abbreviation is_data :: "ws_frame \<Rightarrow> bool" where
  "is_data f \<equiv> \<not> is_control f"

text \<open>A unit the gate releases: one control frame, or the frames of a message that passed.\<close>

definition auth_unit_ok :: "platform \<Rightarrow> bool \<Rightarrow> ws_frame list \<Rightarrow> bool" where
  "auth_unit_ok E server fs \<longleftrightarrow> frames_decode server fs \<and>
     ((\<exists>f. fs = [f] \<and> is_control f \<and> f_fin f \<and> length (f_payload f) \<le> 125)
    \<or> (fs \<noteq> [] \<and> list_all is_data fs \<and> succeeds (check_auth_payload E server (concat (map f_payload fs)))))"

text \<open>
  From collected frames \<open>fs\<close> and incoming frames \<open>ins\<close> to released units and collected frames \<open>fs'\<close>:
  control frames leave in the order they came, data frames leave or stay in the order they came.
\<close>

definition auth_run :: "platform \<Rightarrow> bool \<Rightarrow> ws_frame list \<Rightarrow> ws_frame list list \<Rightarrow> ws_frame list \<Rightarrow> ws_frame list \<Rightarrow> bool" where
  "auth_run E server fs units ins fs' \<longleftrightarrow> frames_decode server ins \<and> (\<forall>u \<in> set units. auth_unit_ok E server u)
     \<and> filter is_control (concat units) = filter is_control ins
     \<and> filter is_data (concat units) @ fs' = fs @ filter is_data ins"

lemma auth_run_Nil [simp]: "auth_run E server fs [] [] fs"
  by (simp add: auth_run_def frames_decode_def)

lemma auth_run_append:
  assumes "auth_run E server fs u1 i1 fs1" and "auth_run E server fs1 u2 i2 fs2"
  shows "auth_run E server fs (u1 @ u2) (i1 @ i2) fs2"
proof -
  have "(filter is_data (concat u1) @ filter is_data (concat u2)) @ fs2 = (fs @ filter is_data i1) @ filter is_data i2"
    using assms unfolding auth_run_def by (metis append.assoc)
  with assms show ?thesis by (auto simp: auth_run_def frames_decode_def)
qed

lemma mset_frames_raw: "mset (frames_raw xs) = sum_mset (image_mset (\<lambda>f. mset (f_raw f)) (mset xs))"
  by (induction xs) (simp_all add: frames_raw_def)

lemma auth_run_mset:
  assumes "auth_run E server fs units ins fs'"
  shows "mset (frames_raw (concat units)) + mset (frames_raw fs') = mset (frames_raw fs) + mset (frames_raw ins)"
proof -
  have split: "mset xs = mset (filter is_control xs) + mset (filter is_data xs)" for xs
    using multiset_partition [of "mset xs" is_control] by simp
  have data: "mset (filter is_data (concat units)) + mset fs' = mset fs + mset (filter is_data ins)"
    using assms unfolding auth_run_def by (metis mset_append)
  have "mset (concat units) + mset fs'
      = mset (filter is_control (concat units)) + (mset (filter is_data (concat units)) + mset fs')"
    by (subst split) (simp only: add.assoc)
  also have "\<dots> = mset fs + (mset (filter is_control ins) + mset (filter is_data ins))"
    unfolding data using assms by (simp only: auth_run_def add.left_commute)
  also have "\<dots> = mset fs + mset ins" by (subst (3) split) (rule refl)
  finally have "mset (concat units) + mset fs' = mset fs + mset ins" .
  then show ?thesis unfolding mset_frames_raw by (metis image_mset_union sum_mset.union)
qed

definition auth_collected :: "auth_gate \<Rightarrow> ws_frame list \<Rightarrow> bool" where
  "auth_collected a fs \<longleftrightarrow> collected (ag_base a) fs \<and> list_all is_data fs"

text \<open>One frame of the loop.\<close>

lemma auth_step_run:
  assumes step: "auth_step E f a = Inr (out, a')" and fs: "auth_collected a fs"
    and f: "parse_frame (g_server (ag_base a)) (f_raw f) = Inr (Some f)"
  shows "\<exists>units fs'. auth_run E (g_server (ag_base a)) fs units [f] fs' \<and> out = frames_raw (concat units)
    \<and> auth_collected a' (if f_opcode f = 8 then [] else fs')"
proof -
  let ?g = "ag_base a" and ?s = "g_server (ag_base a)"
  let ?a1 = "a\<lparr>ag_base := ?g\<lparr>g_fpayload := g_fpayload ?g @ f_payload f, g_fframes := g_fframes ?g @ [f_raw f]\<rparr>\<rparr>"
  have fd: "frames_decode ?s [f]" using f by (simp add: frames_decode_def)
  consider (hold) "is_data f" "f_opcode f \<noteq> 8" "out = []" "a' = ?a1"
    | (release) "is_data f" "f_opcode f \<noteq> 8" "complete_auth_message E (g_fpayload (ag_base ?a1)) ?a1 = Inr (out, a')"
    | (control) "is_control f" "control_step f a = Inr (out, a')"
  proof (cases "f_opcode f = 1")
    case True
    then have "g_fframes ?g = []" "is_data f" using step by (simp_all add: auth_step_def is_control_def Let_def)
    with step True that show thesis by (cases "f_fin f") (simp_all add: auth_step_def Let_def)
  next
    case False
    with step that show thesis
      by (cases "f_fin f"; cases "f_opcode f = 0")
         (auto simp: auth_step_def is_control_def Let_def split: if_splits)
  qed
  then show ?thesis
  proof cases
    case hold
    then have "auth_run E ?s fs [] [f] (fs @ [f])" "auth_collected a' (fs @ [f])"
      using fs fd by (auto simp: auth_run_def auth_collected_def collected_def frames_decode_def)
    with hold show ?thesis by (intro exI [of _ "[]"] exI [of _ "fs @ [f]"]) (simp add: frames_raw_def)
  next
    case release
    note ok = complete_auth_message_ok [OF release(3)]
    have dec: "frames_decode ?s (fs @ [f])" using fs f by (simp add: auth_collected_def collected_def frames_decode_def)
    have data: "list_all is_data (fs @ [f])" using fs release by (simp add: auth_collected_def)
    have "auth_unit_ok E ?s (fs @ [f])"
      using ok(3) fs dec data by (simp add: auth_unit_ok_def auth_collected_def collected_def)
    moreover have "filter is_control (fs @ [f]) = []" "filter is_data (fs @ [f]) = fs @ [f]"
      using data by (auto simp: list_all_iff filter_empty_conv)
    ultimately have "auth_run E ?s fs [fs @ [f]] [f] []"
      using fd release(1) by (auto simp: auth_run_def)
    moreover have "out = frames_raw (fs @ [f])" "auth_collected a' []"
      using ok(1,2) fs by (simp_all add: auth_collected_def collected_def frames_raw_def frames_decode_def)
    ultimately show ?thesis using release(2) by (intro exI [of _ "[fs @ [f]]"] exI [of _ "[]"]) simp
  next
    case control
    then have c: "f_fin f" "length (f_payload f) \<le> 125" "out = f_raw f"
      and a': "a' = (if f_opcode f = 8 then a\<lparr>ag_base := ?g\<lparr>g_fframes := [], g_fpayload := []\<rparr>, ag_closed := True\<rparr> else a)"
      by (auto simp: control_step_def split: if_splits)
    have "auth_run E ?s fs [[f]] [f] fs"
      using c fd control(1) by (simp add: auth_run_def auth_unit_ok_def)
    moreover have "auth_collected a' (if f_opcode f = 8 then [] else fs)"
      using a' fs by (simp add: auth_collected_def collected_def frames_decode_def)
    ultimately show ?thesis using c(3) by (intro exI [of _ "[[f]]"] exI [of _ fs]) (simp add: frames_raw_def)
  qed
qed

text \<open>What one frame leaves unchanged, and what the invariant says afterwards.\<close>

lemma auth_step_keeps:
  assumes "auth_step E f a = Inr (out, a')"
  shows "g_server (ag_base a') = g_server (ag_base a) \<and> g_handshake (ag_base a') = g_handshake (ag_base a)
    \<and> (ag_closed a' \<longleftrightarrow> ag_closed a \<or> f_opcode f = 8) \<and> (f_opcode f = 8 \<longrightarrow> g_buffer (ag_base a') = [])"
  using assms
  by (auto simp: auth_step_def control_step_def Let_def dest!: complete_auth_message_ok(2) split: if_splits)

lemma auth_step_inv:
  assumes "gate_inv (ag_base a)" and "g_handshake (ag_base a)" and "length (f_payload f) \<le> 65535"
    and "auth_step E f a = Inr (out, a')"
  shows "gate_inv (ag_base a')"
  using assms
  by (auto simp: auth_step_def control_step_def gate_inv_def Let_def dest!: complete_auth_message_ok(2)
      split: if_splits)

text \<open>The invariant of the gate and what a run of the loop establishes.\<close>

definition auth_inv :: "auth_gate \<Rightarrow> bool" where
  "auth_inv a \<longleftrightarrow> gate_inv (ag_base a) \<and> (\<exists>fs. auth_collected a fs)"

definition auth_progress :: "platform \<Rightarrow> auth_gate \<Rightarrow> ws_frame list \<Rightarrow> string \<Rightarrow> string \<Rightarrow> auth_gate \<Rightarrow> bool" where
  "auth_progress E a fs buf out a' \<longleftrightarrow> (\<exists>units ins fs'. auth_run E (g_server (ag_base a)) fs units ins fs'
     \<and> out = frames_raw (concat units) \<and> buf = frames_raw ins @ g_buffer (ag_base a')
     \<and> auth_collected a' (if ag_closed a' then [] else fs'))"

lemma auth_progressI:
  assumes "auth_run E (g_server (ag_base a)) fs units ins fs'" and "out = frames_raw (concat units)"
    and "buf = frames_raw ins @ g_buffer (ag_base a')" and "auth_collected a' (if ag_closed a' then [] else fs')"
  shows "auth_progress E a fs buf out a'"
  using assms unfolding auth_progress_def by blast

definition auth_settled :: "auth_gate \<Rightarrow> auth_gate \<Rightarrow> bool" where
  "auth_settled a a' \<longleftrightarrow> gate_inv (ag_base a') \<and> g_handshake (ag_base a') \<and> g_server (ag_base a') = g_server (ag_base a)
     \<and> length (g_buffer (ag_base a')) < 65549"

lemma frames_raw_append [simp]: "frames_raw (xs @ ys) = frames_raw xs @ frames_raw ys"
  by (simp add: frames_raw_def)

lemma frames_raw_simps [simp]: "frames_raw [] = []" "frames_raw (f # fs) = f_raw f @ frames_raw fs"
  by (simp_all add: frames_raw_def)

lemma auth_frame_keeps:
  assumes "auth_frame a = Inr (r, a1)"
  shows "auth_collected a1 fs = auth_collected a fs" and "gate_inv (ag_base a1) = gate_inv (ag_base a)"
    and "g_server (ag_base a1) = g_server (ag_base a)" and "g_handshake (ag_base a1) = g_handshake (ag_base a)"
    and "ag_closed a1 = ag_closed a"
proof -
  from assms obtain g where g: "gate_frame (ag_base a) = Inr (r, g)" and a1: "a1 = a\<lparr>ag_base := g\<rparr>"
    by (auto simp: auth_frame_ok)
  from gate_frame_keeps [OF g] a1 show "auth_collected a1 fs = auth_collected a fs"
    and "gate_inv (ag_base a1) = gate_inv (ag_base a)" and "g_server (ag_base a1) = g_server (ag_base a)"
    and "g_handshake (ag_base a1) = g_handshake (ag_base a)" and "ag_closed a1 = ag_closed a"
    by (simp_all add: auth_collected_def collected_def gate_inv_def)
qed

lemma auth_loop_runs:
  "auth_loop E a = Inr (out, a') \<Longrightarrow> auth_collected a fs \<Longrightarrow> gate_inv (ag_base a) \<Longrightarrow> g_handshake (ag_base a)
     \<Longrightarrow> \<not> ag_closed a \<Longrightarrow> auth_progress E a fs (g_buffer (ag_base a)) out a' \<and> auth_settled a a'"
proof (induction E a arbitrary: out fs rule: auth_loop.induct)
  case (1 E a)
  from "1.prems"(1) [unfolded auth_loop.simps [of E a]] obtain r a1 where r: "auth_frame a = Inr (r, a1)" by auto
  note keep = auth_frame_keeps [OF r]
  show ?case
  proof (cases r)
    case None
    with "1.prems"(1) r have res: "out = []" "a' = a1" by (simp_all add: auth_loop.simps [of E a])
    from r None have "parse_frame (g_server (ag_base a)) (g_buffer (ag_base a)) = Inr None"
      and b: "g_buffer (ag_base a1) = g_buffer (ag_base a)"
      by (auto simp: auth_frame_ok gate_frame_def Let_def split: option.splits)
    from parse_frame_None [OF this(1)] "1.prems"(3,4) keep b res have "auth_settled a a'"
      by (simp add: auth_settled_def)
    moreover have "auth_progress E a fs (g_buffer (ag_base a)) out a'"
      by (rule auth_progressI [OF auth_run_Nil]) (use "1.prems"(2,5) keep b res in simp_all)
    ultimately show ?thesis by simp
  next
    case (Some f)
    then obtain g where g: "gate_frame (ag_base a) = Inr (Some f, g)" "a1 = a\<lparr>ag_base := g\<rparr>"
      using r by (auto simp: auth_frame_ok)
    from "1.prems"(1) r Some obtain o1 a2 where step: "auth_step E f a1 = Inr (o1, a2)"
      by (auto simp: auth_loop.simps [of E a])
    note s = auth_step_keeps [OF step]
    have buf: "g_buffer (ag_base a) = f_raw f @ g_buffer (ag_base a2)"
      using gate_frame_Some(3) [OF g(1)] g(2) auth_step_buffer [OF step] by simp
    have "parse_frame (g_server (ag_base a1)) (f_raw f) = Inr (Some f)" and "auth_collected a1 fs"
      using parse_frame_raw [OF gate_frame_Some(1) [OF g(1)]] keep(1,3) "1.prems"(2) by simp_all
    from auth_step_run [OF step this(2,1), unfolded keep(3)] obtain u1 fs1
      where run1: "auth_run E (g_server (ag_base a)) fs u1 [f] fs1" "o1 = frames_raw (concat u1)"
        "auth_collected a2 (if f_opcode f = 8 then [] else fs1)" by blast
    have inv2: "gate_inv (ag_base a2)"
      using auth_step_inv [OF _ _ parse_frame_Some(3) [OF gate_frame_Some(1) [OF g(1)]] step] "1.prems"(3,4) keep by simp
    show ?thesis
    proof (cases "f_opcode f = 8")
      case True
      with "1.prems"(1) r Some step have res: "out = o1" "a' = a2" by (simp_all add: auth_loop.simps [of E a])
      have "auth_settled a a'" using True s inv2 "1.prems"(4) keep res by (simp add: auth_settled_def)
      moreover have "auth_progress E a fs (g_buffer (ag_base a)) out a'"
        by (rule auth_progressI [OF run1(1)]) (use True run1 buf s res in simp_all)
      ultimately show ?thesis by simp
    next
      case False
      with "1.prems"(1) r Some step obtain o2 where rest: "auth_loop E a2 = Inr (o2, a')" and out: "out = o1 @ o2"
        by (auto simp: auth_loop.simps [of E a])
      have IH: "auth_progress E a2 fs1 (g_buffer (ag_base a2)) o2 a' \<and> auth_settled a2 a'"
        using "1.IH" [OF r refl Some step refl False rest, of fs1] run1(3) False inv2 s keep "1.prems"(4,5) by simp
      have "g_server (ag_base a2) = g_server (ag_base a)" using s keep by simp
      with IH obtain u2 i2 fs2 where run2: "auth_run E (g_server (ag_base a)) fs1 u2 i2 fs2" "o2 = frames_raw (concat u2)"
        "g_buffer (ag_base a2) = frames_raw i2 @ g_buffer (ag_base a')" "auth_collected a' (if ag_closed a' then [] else fs2)"
        by (auto simp: auth_progress_def)
      have "auth_progress E a fs (g_buffer (ag_base a)) out a'"
        using auth_progressI [OF auth_run_append [OF run1(1) run2(1)] _ _ run2(4)] out run1(2) run2(2,3) buf by simp
      moreover have "auth_settled a a'" using IH s keep by (simp add: auth_settled_def)
      ultimately show ?thesis ..
    qed
  qed
qed

section \<open>Feeding the gate\<close>

text \<open>
  The state of a gate in terms of everything it was fed (\<open>inp\<close>) and everything it released (\<open>out\<close>).
\<close>

definition auth_trace :: "platform \<Rightarrow> bool \<Rightarrow> string \<Rightarrow> string \<Rightarrow> auth_gate \<Rightarrow> bool" where
  "auth_trace E server inp out a \<longleftrightarrow> g_server (ag_base a) = server \<and> gate_inv (ag_base a) \<and>
    (if g_handshake (ag_base a) then
       (\<exists>head units ins fs. inp = head @ frames_raw ins @ g_buffer (ag_base a) \<and> out = head @ frames_raw (concat units)
          \<and> find_marker head = Some (length head - 4) \<and> auth_run E server [] units ins fs
          \<and> auth_collected a (if ag_closed a then [] else fs))
     else out = [] \<and> inp = g_buffer (ag_base a) \<and> auth_collected a [] \<and> \<not> ag_closed a)"

lemma auth_trace_new: "auth_trace E server [] [] (new_auth_gate server)"
  by (simp add: auth_trace_def new_auth_gate_def new_gate_def gate_inv_def auth_collected_def collected_def frames_decode_def)

lemma auth_feed_trace:
  assumes feed: "auth_feed E a data = Inr (o2, a')" and tr: "auth_trace E server inp out a"
  shows "auth_trace E server (inp @ data) (out @ o2) a'"
proof -
  let ?g = "(ag_base a)\<lparr>g_buffer := g_buffer (ag_base a) @ data\<rparr>"
  let ?a1 = "a\<lparr>ag_base := ?g\<rparr>"
  from feed have inner: "auth_feed_inner E a data = Inr (o2, a')" by (simp add: auth_feed_def)
  then have open_a: "\<not> ag_closed a" by (simp add: auth_feed_inner_def)
  from tr have srv: "g_server (ag_base a) = server" and inv: "gate_inv (ag_base a)" by (simp_all add: auth_trace_def)
  consider (run) "g_handshake ?g" "auth_loop E ?a1 = Inr (o2, a')"
    | (wait) "\<not> g_handshake ?g" "o2 = []" "a' = ?a1"
    | (upgrade) n o3 where "\<not> g_handshake ?g" "o2 = take (n + 4) (g_buffer ?g) @ o3" "find_marker (g_buffer ?g) = Some n"
        "auth_loop E (a\<lparr>ag_base := ?g\<lparr>g_buffer := drop (n + 4) (g_buffer ?g), g_handshake := True\<rparr>\<rparr>) = Inr (o3, a')"
    using inner by (auto simp: auth_feed_inner_def Let_def split: if_splits option.splits)
  then show ?thesis
  proof cases
    case run
    with tr open_a obtain head units ins fs where t: "inp = head @ frames_raw ins @ g_buffer (ag_base a)"
      "out = head @ frames_raw (concat units)" "find_marker head = Some (length head - 4)"
      "auth_run E server [] units ins fs" "auth_collected a fs" by (auto simp: auth_trace_def)
    have "auth_collected ?a1 fs" "gate_inv (ag_base ?a1)" using t(5) inv by (simp_all add: auth_collected_def collected_def gate_inv_def)
    from auth_loop_runs [OF run(2) this] run(1) open_a have p: "auth_progress E ?a1 fs (g_buffer ?g) o2 a'" and s: "auth_settled ?a1 a'"
      by simp_all
    from p srv obtain u2 i2 fs2 where q: "auth_run E server fs u2 i2 fs2" "o2 = frames_raw (concat u2)"
      "g_buffer ?g = frames_raw i2 @ g_buffer (ag_base a')" "auth_collected a' (if ag_closed a' then [] else fs2)"
      by (auto simp: auth_progress_def)
    have "auth_run E server [] (units @ u2) (ins @ i2) fs2" by (rule auth_run_append [OF t(4) q(1)])
    moreover have "inp @ data = head @ frames_raw (ins @ i2) @ g_buffer (ag_base a')" using t(1) q(3) by simp
    moreover have "out @ o2 = head @ frames_raw (concat (units @ u2))" using t(2) q(2) by simp
    ultimately show ?thesis using s srv t(3) q(4) unfolding auth_trace_def auth_settled_def by (auto intro!: exI)
  next
    case wait
    with tr open_a inv show ?thesis by (auto simp: auth_trace_def auth_collected_def collected_def gate_inv_def)
  next
    case upgrade
    let ?h = "take (n + 4) (g_buffer ?g)"
    let ?a2 = "a\<lparr>ag_base := ?g\<lparr>g_buffer := drop (n + 4) (g_buffer ?g), g_handshake := True\<rparr>\<rparr>"
    from tr upgrade(1) have t: "out = []" "inp = g_buffer (ag_base a)" "auth_collected a []" by (simp_all add: auth_trace_def)
    have "auth_collected ?a2 []" "gate_inv (ag_base ?a2)" using t(3) inv by (simp_all add: auth_collected_def collected_def gate_inv_def)
    from auth_loop_runs [OF upgrade(4) this] open_a have p: "auth_progress E ?a2 [] (drop (n + 4) (g_buffer ?g)) o3 a'"
      and s: "auth_settled ?a2 a'" by simp_all
    from p srv obtain u2 i2 fs2 where q: "auth_run E server [] u2 i2 fs2" "o3 = frames_raw (concat u2)"
      "drop (n + 4) (g_buffer ?g) = frames_raw i2 @ g_buffer (ag_base a')" "auth_collected a' (if ag_closed a' then [] else fs2)"
      by (auto simp: auth_progress_def)
    have "find_marker ?h = Some (length ?h - 4)"
      using find_marker_take [OF upgrade(3)] find_marker_bound [OF upgrade(3)]
      by (metis length_take min.absorb2 add_diff_cancel_right')
    moreover have "inp @ data = ?h @ frames_raw i2 @ g_buffer (ag_base a')"
      using t(2) q(3) append_take_drop_id [of "n + 4" "g_buffer ?g"] by simp
    moreover have "out @ o2 = ?h @ frames_raw (concat u2)" using t(1) q(2) upgrade(2) by simp
    ultimately show ?thesis using s srv q(1,4) unfolding auth_trace_def auth_settled_def by (auto intro!: exI)
  qed
qed

lemma auth_feeds_trace:
  "feed_all (auth_feed E) a chunks = Inr (o2, a') \<Longrightarrow> auth_trace E server inp out a \<Longrightarrow>
     auth_trace E server (inp @ concat chunks) (out @ o2) a'"
proof (induction chunks arbitrary: a inp out o2)
  case Nil
  then show ?case by simp
next
  case (Cons d ds)
  then obtain oa a1 ob where step: "auth_feed E a d = Inr (oa, a1)" "feed_all (auth_feed E) a1 ds = Inr (ob, a')"
    "o2 = oa @ ob" by auto
  from Cons.IH [OF step(2) auth_feed_trace [OF step(1) Cons.prems(2)]] step(3) show ?case by simp
qed

text \<open>
  C11. Everything an authentication gate releases is the text of the HTTP upgrade followed by units,
  each of them one bounded control frame or all frames of one message that parses as a JSON object
  without repeated keys and passes the session and authentication policy of its direction.
\<close>

theorem auth_gate_releases_only_policed_units:
  assumes "feed_all (auth_feed E) (new_auth_gate server) chunks = Inr (out, a)" and "out \<noteq> []"
  shows "\<exists>head units. out = head @ concat (map frames_raw units) \<and> find_marker head = Some (length head - 4)
    \<and> (\<forall>u \<in> set units. auth_unit_ok E server u)"
proof -
  have raw: "frames_raw (concat us) = concat (map frames_raw us)" for us by (induction us) simp_all
  from auth_feeds_trace [OF assms(1) auth_trace_new] assms(2) obtain head units ins fs where
    "out = head @ frames_raw (concat units)" "find_marker head = Some (length head - 4)" "auth_run E server [] units ins fs"
    by (auto simp: auth_trace_def split: if_splits)
  then show ?thesis unfolding raw auth_run_def by blast
qed

text \<open>
  The gate only moves control frames ahead of an unfinished message: with the upgrade text
  stripped, the frames received are the frames released up to that, data frames and control frames
  each in the order received; data frames not released yet are a suffix of those received.
\<close>

theorem auth_gate_keeps_frame_order:
  assumes "feed_all (auth_feed E) (new_auth_gate server) chunks = Inr (out, a)" and "out \<noteq> []"
  shows "\<exists>head ins outs waiting. concat chunks = head @ frames_raw ins @ g_buffer (ag_base a) \<and> out = head @ frames_raw outs
    \<and> frames_decode server ins \<and> filter is_control outs = filter is_control ins
    \<and> filter is_data outs @ waiting = filter is_data ins
    \<and> g_fframes (ag_base a) = (if ag_closed a then [] else map f_raw waiting)"
proof -
  from auth_feeds_trace [OF assms(1) auth_trace_new] assms(2) obtain head units ins fs where
    t: "concat chunks = head @ frames_raw ins @ g_buffer (ag_base a)" "out = head @ frames_raw (concat units)"
      "auth_run E server [] units ins fs" "auth_collected a (if ag_closed a then [] else fs)"
    by (auto simp: auth_trace_def split: if_splits)
  from t(4) have "g_fframes (ag_base a) = (if ag_closed a then [] else map f_raw fs)"
    by (simp add: auth_collected_def collected_def split: if_splits)
  with t(1-3) show ?thesis unfolding auth_run_def
    by (intro exI [of _ head] exI [of _ ins] exI [of _ "concat units"] exI [of _ fs]) simp
qed

section \<open>What the policy keeps out\<close>

lemma fixed_tui_config_safe:
  assumes "fixed_tui_config_is_safe name (JObj c)" and "c \<noteq> []"
  shows "name \<in> set thread_override_methods" and "set (map fst c) \<subseteq> set fixed_tui_config_override_keys"
    and "dget_or c ''allow_login_shell'' (JBool False) = JBool False"
    and "\<exists>f. dget_or c ''features'' (JObj []) = JObj f \<and> set (map fst f) \<subseteq> {''use_agent_identity''}
      \<and> dget_or f ''use_agent_identity'' (JBool False) = JBool False"
proof -
  have "\<not> py_eq (JObj c) (JObj [])" using assms(2) by (simp add: keys_exact_def)
  note run = assms(1) [unfolded fixed_tui_config_is_safe_def Let_def, simplified this]
  from run show "name \<in> set thread_override_methods" "set (map fst c) \<subseteq> set fixed_tui_config_override_keys"
    by (simp_all add: keys_within_def split: if_splits)
  from run show "dget_or c ''allow_login_shell'' (JBool False) = JBool False"
    by (cases "has_key c ''allow_login_shell''") (simp_all add: dget_dget_or dget_or_absent split: if_splits)
  show "\<exists>f. dget_or c ''features'' (JObj []) = JObj f \<and> set (map fst f) \<subseteq> {''use_agent_identity''}
      \<and> dget_or f ''use_agent_identity'' (JBool False) = JBool False"
  proof (cases "has_key c ''features''")
    case True
    with run obtain f where f: "dget c ''features'' = JObj f" "keys_within f [''use_agent_identity'']"
      "has_key f ''use_agent_identity'' \<longrightarrow> dget f ''use_agent_identity'' = JBool False"
      by (auto simp: json_kind_iffs split: if_splits)
    then have "dget_or f ''use_agent_identity'' (JBool False) = JBool False"
      by (cases "has_key f ''use_agent_identity''") (simp_all add: dget_dget_or dget_or_absent)
    with f True show ?thesis by (auto simp: dget_dget_or keys_within_def)
  qed (simp add: dget_or_absent)
qed

lemma overrides_ok:
  assumes "enforce_trial_auth_overrides d = Inr u" and "dget d ''method'' = JStr name"
  shows "name \<notin> set config_write_methods"
    and "name \<in> set session_override_methods \<Longrightarrow> dget d ''params'' = JObj p \<Longrightarrow> dget p ''modelProvider'' = JNull"
    and "name \<in> set session_override_methods \<Longrightarrow> dget d ''params'' = JObj p \<Longrightarrow> has_key p ''config'' \<Longrightarrow>
      fixed_tui_config_is_safe name (dget p ''config'')"
  using assms by (auto simp: enforce_trial_auth_overrides_def in_str_set_def Let_def split: if_splits)

lemma policy_client_method:
  assumes "succeeds (enforce_auth_rpc_policy ''client_to_server'' (JObj d))" and "dget d ''method'' = JStr name"
  shows "client_allowed d name"
  using assms dget_present [of d "''method''"]
  by (auto simp: enforce_auth_rpc_policy_def directions_def client_allowed_def Let_def split: if_splits)

lemma check_client_payload:
  assumes "succeeds (check_auth_payload E False payload)"
  obtains d where "p_scan E payload = Some (JObj d)" "wf_json (JObj d)" "enforce_trial_auth_overrides d = Inr ()"
    "succeeds (enforce_auth_rpc_policy ''client_to_server'' (JObj d))"
  using assms that
  by (auto simp: check_auth_payload_def unique_json_def loads_unique_ok succeeds_iff auth_direction_def json_kind_iffs
      simp del: wf_json.simps no_const.simps)

text \<open>A configuration override that cannot change how the session authenticates.\<close>

definition harmless_config :: "jdict \<Rightarrow> bool" where
  "harmless_config c \<longleftrightarrow> set (map fst c) \<subseteq> set fixed_tui_config_override_keys
     \<and> dget_or c ''allow_login_shell'' (JBool False) = JBool False
     \<and> (\<exists>f. dget_or c ''features'' (JObj []) = JObj f \<and> set (map fst f) \<subseteq> {''use_agent_identity''}
          \<and> dget_or f ''use_agent_identity'' (JBool False) = JBool False)"

text \<open>
  A client message that passes the gate is an object whose method the authentication policy
  allows and that neither writes the configuration nor, for a thread or a turn, sets a model
  provider or a configuration other than an empty one or, for a thread, one limited to the listed
  keys, without a login shell and without any feature but a disabled agent identity.
\<close>

theorem auth_gate_client_message:
  assumes "succeeds (check_auth_payload E False payload)"
  shows "\<exists>d. p_scan E payload = Some (JObj d) \<and> wf_json (JObj d)
    \<and> (\<forall>name. dget d ''method'' = JStr name \<longrightarrow> client_allowed d name \<and> name \<notin> set config_write_methods)
    \<and> (\<forall>name p. dget d ''method'' = JStr name \<and> name \<in> set session_override_methods \<and> dget d ''params'' = JObj p \<longrightarrow>
         dget p ''modelProvider'' = JNull \<and>
         (\<forall>c. dget p ''config'' = JObj c \<and> c \<noteq> [] \<longrightarrow> name \<in> set thread_override_methods \<and> harmless_config c))"
proof -
  from assms obtain d where d: "p_scan E payload = Some (JObj d)" "wf_json (JObj d)"
    and over: "enforce_trial_auth_overrides d = Inr ()"
    and pol: "succeeds (enforce_auth_rpc_policy ''client_to_server'' (JObj d))" by (rule check_client_payload)
  have "name \<in> set thread_override_methods \<and> harmless_config c"
    if "dget d ''method'' = JStr name" "name \<in> set session_override_methods" "dget d ''params'' = JObj p"
      "dget p ''config'' = JObj c" "c \<noteq> []" for name p c
  proof -
    have "fixed_tui_config_is_safe name (JObj c)"
      using overrides_ok(3) [OF over that(1-3)] dget_present [of p "''config''"] that(4) by simp
    from fixed_tui_config_safe [OF this that(5)] show ?thesis unfolding harmless_config_def by blast
  qed
  with d overrides_ok(1,2) [OF over] policy_client_method [OF pol] show ?thesis by blast
qed

section \<open>Rejections\<close>

definition auth_wire_codes :: "string list" where
  "auth_wire_codes = policy_codes @ [''trial_config_write_forbidden'', ''trial_session_auth_override_forbidden'',
     ''auth_wire_invalid_message'']"

definition stable_exn :: "exn \<Rightarrow> bool" where
  "stable_exn e \<longleftrightarrow> auth_reject_code e \<in> set auth_wire_codes"

lemma stable_invalid [simp]: "stable_exn (invalid_wire r)" "stable_exn (helper_reject r)" "stable_exn (Raised ''TypeError'' r)"
  by (simp_all add: stable_exn_def auth_reject_code_def invalid_wire_def helper_reject_def auth_wire_codes_def)

lemma stable_policy: "enforce_auth_rpc_policy dir m = Inl e \<Longrightarrow> stable_exn e"
  by (auto dest!: policy_error_code simp: stable_exn_def auth_reject_code_def policy_blocked_def auth_wire_codes_def)

lemma stable_overrides: "enforce_trial_auth_overrides d = Inl e \<Longrightarrow> stable_exn e"
  by (auto simp: enforce_trial_auth_overrides_def Let_def result_simps in_str_set_def trial_blocked_def stable_exn_def
      auth_reject_code_def auth_wire_codes_def split: if_splits json.splits)

lemma stable_hooked: "hooked dup const v = Inl e \<Longrightarrow> e = dup \<or> e = const"
proof (induction v arbitrary: e rule: hooked.induct)
  case (2 dup const xs)
  have "for_each (hooked dup const) ys = Inl e \<Longrightarrow> set ys \<subseteq> set xs \<Longrightarrow> e = dup \<or> e = const" for ys
    by (induction ys) (auto simp: result_simps dest: "2.IH")
  with "2.prems" show ?case by simp
next
  case (3 dup const d)
  have "for_each (\<lambda>(k, v). hooked dup const v) ys = Inl e \<Longrightarrow> set ys \<subseteq> set d \<Longrightarrow> e = dup \<or> e = const" for ys
    by (induction ys) (auto simp: result_simps dest: "3.IH")
  with "3.prems" show ?case by (auto simp: result_simps)
qed auto

lemma stable_check: "check_auth_payload E server payload = Inl e \<Longrightarrow> stable_exn e"
  by (auto simp: check_auth_payload_def unique_json_def loads_unique_def result_simps
      dest: stable_policy stable_overrides stable_hooked split: option.splits if_splits)

lemma parse_frame_error: "parse_frame server buf = Inl e \<Longrightarrow> stable_exn e"
  by (auto simp: parse_frame_def frame_length_def Let_def result_simps split: if_splits option.splits)

lemma auth_frame_error: "auth_frame a = Inl (e, a') \<Longrightarrow> stable_exn e \<and> g_server (ag_base a') = g_server (ag_base a)"
  by (auto simp: auth_frame_def gate_frame_def with_error_def Let_def dest: parse_frame_error
      split: sum.splits option.splits)

lemma complete_auth_message_error:
  "complete_auth_message E payload a = Inl (e, a') \<Longrightarrow> stable_exn e \<and> a' = a"
  by (auto simp: complete_auth_message_def with_error_def Let_def dest: stable_check split: sum.splits)

lemma auth_step_error:
  "auth_step E f a = Inl (e, a') \<Longrightarrow> stable_exn e \<and> g_server (ag_base a') = g_server (ag_base a)"
  by (auto simp: auth_step_def control_step_def Let_def result_simps dest!: complete_auth_message_error split: if_splits)

lemma auth_loop_error:
  "auth_loop E a = Inl (e, a') \<Longrightarrow> stable_exn e \<and> g_server (ag_base a') = g_server (ag_base a)"
proof (induction E a rule: auth_loop.induct)
  case (1 E a)
  from "1.prems" [unfolded auth_loop.simps [of E a]] consider (frame) "auth_frame a = Inl (e, a')"
    | (step) f a1 where "auth_frame a = Inr (Some f, a1)" "auth_step E f a1 = Inl (e, a')"
    | (rest) f a1 out a2 where "auth_frame a = Inr (Some f, a1)" "auth_step E f a1 = Inr (out, a2)" "f_opcode f \<noteq> 8"
        "auth_loop E a2 = Inl (e, a')"
    by (auto simp: andThen_eq_Inl split: option.splits if_splits)
  then show ?case
  proof cases
    case frame
    then show ?thesis by (rule auth_frame_error)
  next
    case step
    from auth_step_error [OF step(2)] auth_frame_keeps(3) [OF step(1)] show ?thesis by simp
  next
    case rest
    from "1.IH" [OF rest(1) refl refl rest(2) refl rest(3,4)] auth_step_keeps [OF rest(2)] auth_frame_keeps(3) [OF rest(1)]
    show ?thesis by simp
  qed
qed

lemma auth_feed_inner_error:
  assumes "auth_feed_inner E a data = Inl (e, a')"
  shows "stable_exn e \<and> g_server (ag_base a') = g_server (ag_base a)"
  using assms
  by (auto simp: auth_feed_inner_def Let_def result_simps dest!: auth_loop_error split: if_splits option.splits)

text \<open>
  A rejection of the authentication gate raises one of eleven stable codes and reports the
  same code with the direction of the gate; nothing that was buffered survives it.
\<close>

theorem auth_gate_rejection:
  assumes "auth_feed E a data = Inl (e, rep, a')"
  shows "e = Raised ''AuthWireRejected'' (wr_reason rep) \<and> wr_reason rep \<in> set auth_wire_codes
    \<and> wr_stage rep = (if g_server (ag_base a) then ''trial_auth_wire_server'' else ''trial_auth_wire_client'')
    \<and> gate_held (ag_base a') = [] \<and> g_fpayload (ag_base a') = []"
proof -
  from assms obtain e0 a0 where inner: "auth_feed_inner E a data = Inl (e0, a0)"
    by (auto simp: auth_feed_def with_error_def split: sum.splits)
  from auth_feed_inner_error [OF inner] assms show ?thesis
    by (auto simp: auth_feed_def inner stable_exn_def gate_held_def Let_def)
qed

section \<open>The gate as a byte gate\<close>

definition auth_held :: "auth_gate \<Rightarrow> string" where
  "auth_held a = gate_held (ag_base a)"

definition auth_traced :: "platform \<Rightarrow> auth_gate \<Rightarrow> bool" where
  "auth_traced E a \<longleftrightarrow> (\<exists>server inp out. auth_trace E server inp out a)"

lemma auth_trace_mset:
  assumes "auth_trace E server inp out a" and "\<not> ag_closed a"
  shows "mset inp = mset out + mset (auth_held a)"
proof (cases "g_handshake (ag_base a)")
  case True
  with assms obtain head units ins fs where t: "inp = head @ frames_raw ins @ g_buffer (ag_base a)"
    "out = head @ frames_raw (concat units)" "auth_run E server [] units ins fs" "auth_collected a fs"
    by (auto simp: auth_trace_def)
  have "concat (g_fframes (ag_base a)) = frames_raw fs"
    using t(4) by (simp add: auth_collected_def collected_def frames_raw_def)
  moreover have "mset (frames_raw ins) = mset (frames_raw (concat units)) + mset (frames_raw fs)"
    using auth_run_mset [OF t(3)] by simp
  ultimately show ?thesis using t(1,2) by (simp add: auth_held_def gate_held_def)
next
  case False
  with assms show ?thesis
    by (simp add: auth_trace_def auth_held_def gate_held_def auth_collected_def collected_def)
qed

interpretation auth_gate: conserving_gate "auth_feed E" auth_held ag_closed "auth_traced E" for E
proof
  fix a d out a'
  assume inv: "auth_traced E a" and feed: "auth_feed E a d = Inr (out, a')" and op: "\<not> ag_closed a'"
  from inv obtain server inp out0 where tr: "auth_trace E server inp out0 a" by (auto simp: auth_traced_def)
  have "\<not> ag_closed a" using feed by (auto simp: auth_feed_def auth_feed_inner_def)
  with auth_trace_mset [OF auth_feed_trace [OF feed tr] op] auth_trace_mset [OF tr]
  show "mset out + mset (auth_held a') = mset (auth_held a) + mset d" by (simp add: add.assoc)
next
  fix a d out a'
  assume "auth_traced E a" "auth_feed E a d = Inr (out, a')"
  then show "auth_traced E a'" using auth_feed_trace unfolding auth_traced_def by blast
next
  fix a :: auth_gate and d
  assume "ag_closed a"
  then show "\<exists>e. auth_feed E a d = Inl e"
    by (cases "auth_feed_inner E a d") (auto simp: auth_feed_inner_def auth_feed_def Let_def)
qed

section \<open>A sample connection\<close>

text \<open>The upgrade, a ping inside a fragmented message, and the rest of the message.\<close>

definition auth_platform :: platform where
  "auth_platform = sample_platform\<lparr>p_scan := \<lambda>text.
     if text = ''ready'' then Some (JObj [(''method'', JStr ''thread/start''),
       (''params'', JObj [(''config'', JObj [(''allow_login_shell'', JBool False)])])]) else None\<rparr>"

definition server_ping :: string where
  "server_ping = [CHR 0x89, CHR 0x00]"

definition ready_start :: string where
  "ready_start = [CHR 0x01, CHR 0x02] @ ''re''"

definition ready_end :: string where
  "ready_end = [CHR 0x80, CHR 0x03] @ ''ady''"

definition auth_chunks :: "string list" where
  "auth_chunks = [''HTTP/1.1 101'' @ crlf2 @ ready_start, server_ping @ take 1 ready_end, drop 1 ready_end]"

definition auth_released :: string where
  "auth_released = ''HTTP/1.1 101'' @ crlf2 @ server_ping @ ready_start @ ready_end"

lemma auth_chunks_pass:
  "map_sum (\<lambda>_. ()) fst (feed_all (auth_feed auth_platform) (new_auth_gate True) auth_chunks) = Inr auth_released"
  by code_simp

lemma auth_chunks_state:
  "\<exists>a. feed_all (auth_feed auth_platform) (new_auth_gate True) auth_chunks = Inr (auth_released, a)"
  using auth_chunks_pass by (cases "feed_all (auth_feed auth_platform) (new_auth_gate True) auth_chunks") auto

theorem auth_gate_releases_only_policed_units_witness:
  "\<exists>head units. auth_released = head @ concat (map frames_raw units) \<and> (\<forall>u \<in> set units. auth_unit_ok auth_platform True u)"
proof -
  obtain a where "feed_all (auth_feed auth_platform) (new_auth_gate True) auth_chunks = Inr (auth_released, a)"
    using auth_chunks_state by blast
  from auth_gate_releases_only_policed_units [OF this] show ?thesis by (auto simp: auth_released_def)
qed

theorem auth_gate_keeps_frame_order_witness:
  "\<exists>head ins outs. auth_released = head @ frames_raw outs \<and> filter is_control outs = filter is_control ins"
proof -
  obtain a where "feed_all (auth_feed auth_platform) (new_auth_gate True) auth_chunks = Inr (auth_released, a)"
    using auth_chunks_state by blast
  from auth_gate_keeps_frame_order [OF this] show ?thesis by (auto simp: auth_released_def)
qed

theorem auth_gate_client_message_witness:
  "\<exists>d. p_scan auth_platform ''ready'' = Some (JObj d) \<and>
     (\<forall>name. dget d ''method'' = JStr name \<longrightarrow> client_allowed d name)"
proof -
  have "succeeds (check_auth_payload auth_platform False ''ready'')" by code_simp
  from auth_gate_client_message [OF this] show ?thesis by blast
qed

theorem auth_gate_rejection_witness:
  "\<exists>e rep a'. auth_feed auth_platform (new_auth_gate True) (crlf2 @ [CHR 0x83, CHR 0x00]) = Inl (e, rep, a')
     \<and> wr_reason rep \<in> set auth_wire_codes"
proof -
  have "\<not> succeeds (auth_feed auth_platform (new_auth_gate True) (crlf2 @ [CHR 0x83, CHR 0x00]))" by code_simp
  then obtain e rep a' where "auth_feed auth_platform (new_auth_gate True) (crlf2 @ [CHR 0x83, CHR 0x00]) = Inl (e, rep, a')"
    by (auto simp: succeeds_def split: sum.splits)
  with auth_gate_rejection [OF this] show ?thesis by blast
qed

end
