(* ===== verification/WireChain.thy ===== *)
theory WireChain
  imports AuthWire
begin

text \<open>
  The gates of one connection as the activation service puts them together
  (\<open>_wire_gate_factory\<close> and \<open>_chain_wire_gates\<close> of \<open>runtime/native/activation_service.py\<close>): two
  authentication gates, two helper gates that share the identifiers of the requests in flight,
  or, in each direction, one of each in a row.
\<close>

section \<open>Two gates in a row\<close>

definition chain_feed ::
  "('s \<Rightarrow> string \<Rightarrow> 'd + (string \<times> 's)) \<Rightarrow> ('t \<Rightarrow> string \<Rightarrow> 'e + (string \<times> 't)) \<Rightarrow>
     's \<times> 't \<Rightarrow> string \<Rightarrow> ('d + 'e) + (string \<times> ('s \<times> 't))" where
  "chain_feed first second st data = (case st of (s, t) \<Rightarrow>
     andThen (with_error Inl (first s data)) (\<lambda>(forwarded, s1).
     if forwarded = [] then Inr ([], (s1, t))
     else andThen (with_error Inr (second t forwarded)) (\<lambda>(out, t1). Inr (out, (s1, t1)))))"

text \<open>
  Two conserving gates, of which the second never closes, make one conserving gate; the bytes it
  holds are those the second and then those the first gate holds.
\<close>

locale gate_chain =
  front: conserving_gate feed1 held1 closed1 invar1 + rear: conserving_gate feed2 held2 "\<lambda>_. False" invar2
  for feed1 :: "'s \<Rightarrow> string \<Rightarrow> 'd + (string \<times> 's)" and held1 closed1 invar1
    and feed2 :: "'t \<Rightarrow> string \<Rightarrow> 'e + (string \<times> 't)" and held2 invar2
begin

lemma chain_ok:
  assumes "chain_feed feed1 feed2 (s, t) d = Inr (out, (s', t'))"
  obtains (quiet) "feed1 s d = Inr ([], s')" "t' = t" "out = []"
    | (forward) fwd where "feed1 s d = Inr (fwd, s')" "feed2 t fwd = Inr (out, t')"
  using assms that by (auto simp: chain_feed_def split: if_splits)

lemma chain_conserves:
  assumes "invar1 s" and "invar2 t" and "chain_feed feed1 feed2 (s, t) d = Inr (out, (s', t'))" and "\<not> closed1 s'"
  shows "mset out + mset (held2 t' @ held1 s') = mset (held2 t @ held1 s) + mset d"
  using assms(3)
proof (cases rule: chain_ok)
  case quiet
  with front.conserves [OF assms(1) quiet(1) assms(4)] show ?thesis by (simp add: add.assoc)
next
  case (forward fwd)
  have "mset fwd + mset (held1 s') = mset (held1 s) + mset d" by (rule front.conserves [OF assms(1) forward(1) assms(4)])
  moreover have "mset out + mset (held2 t') = mset (held2 t) + mset fwd" using rear.conserves [OF assms(2) forward(2)] by simp
  ultimately show ?thesis by (simp add: add.assoc) (metis add.assoc)
qed

text \<open>A run of the chain is a run of the first gate and a run of the second on what the first released.\<close>

lemma chain_feeds:
  "feed_all (chain_feed feed1 feed2) (s, t) ds = Inr (out, (s', t')) \<Longrightarrow>
     \<exists>fwd es. feed_all feed1 s ds = Inr (fwd, s') \<and> feed_all feed2 t es = Inr (out, t') \<and> concat es = fwd"
proof (induction ds arbitrary: s t out)
  case Nil
  then show ?case by (auto intro: exI [of _ "[]"])
next
  case (Cons d ds)
  then obtain o1 s1 t1 o2 where step: "chain_feed feed1 feed2 (s, t) d = Inr (o1, (s1, t1))"
    and rest: "feed_all (chain_feed feed1 feed2) (s1, t1) ds = Inr (o2, (s', t'))" and out: "out = o1 @ o2" by auto
  from Cons.IH [OF rest] obtain fwd es where r: "feed_all feed1 s1 ds = Inr (fwd, s')" "feed_all feed2 t1 es = Inr (o2, t')"
    "concat es = fwd" by blast
  from step show ?case
  proof (cases rule: chain_ok)
    case quiet
    with r out show ?thesis by auto
  next
    case (forward f)
    with r out show ?thesis by (intro exI [of _ "f @ fwd"] exI [of _ "f # es"]) auto
  qed
qed

end

sublocale gate_chain \<subseteq> chained: conserving_gate "chain_feed feed1 feed2" "\<lambda>(s, t). held2 t @ held1 s"
  "\<lambda>(s, t). closed1 s" "\<lambda>(s, t). invar1 s \<and> invar2 t"
proof
  fix st d out st'
  assume "case st of (s, t) \<Rightarrow> invar1 s \<and> invar2 t" "chain_feed feed1 feed2 st d = Inr (out, st')"
    "\<not> (case st' of (s, t) \<Rightarrow> closed1 s)"
  then show "mset out + mset (case st' of (s, t) \<Rightarrow> held2 t @ held1 s) = mset (case st of (s, t) \<Rightarrow> held2 t @ held1 s) + mset d"
    by (cases st; cases st') (auto dest!: chain_conserves)
next
  fix st d out st'
  assume inv: "case st of (s, t) \<Rightarrow> invar1 s \<and> invar2 t" and feed: "chain_feed feed1 feed2 st d = Inr (out, st')"
  obtain s t s' t' where st: "st = (s, t)" "st' = (s', t')" by (cases st; cases st')
  from feed [unfolded st] show "case st' of (s, t) \<Rightarrow> invar1 s \<and> invar2 t"
    by (cases rule: chain_ok) (use inv st front.invar_feed rear.invar_feed in auto)
next
  fix st :: "'s \<times> 't" and d
  assume "case st of (s, t) \<Rightarrow> closed1 s"
  then obtain e where "feed1 (fst st) d = Inl e" using front.closed_rejects [of "fst st" d] by (auto split: prod.splits)
  then show "\<exists>e. chain_feed feed1 feed2 st d = Inl e" by (auto simp: chain_feed_def split: prod.splits)
qed

section \<open>The two directions of a connection\<close>

text \<open>
  A pair of gates, the client's first. The helper gates share one set of pending identifiers:
  after one of them has run, the other one sees what it did, also when it was rejected.
\<close>

definition the_gate :: "bool \<Rightarrow> 'g \<times> 'g \<Rightarrow> 'g" where
  "the_gate server gs = (if server then snd gs else fst gs)"

definition put_gate :: "bool \<Rightarrow> 'g \<Rightarrow> 'g \<times> 'g \<Rightarrow> 'g \<times> 'g" where
  "put_gate server g gs = (if server then (fst gs, g) else (g, snd gs))"

definition share_pending :: "bool \<Rightarrow> gate \<Rightarrow> gate \<times> gate \<Rightarrow> gate \<times> gate" where
  "share_pending server g gs =
     put_gate server g (put_gate (\<not> server) ((the_gate (\<not> server) gs)\<lparr>g_pending := g_pending g\<rparr>) gs)"

definition helper_feed :: "platform \<Rightarrow> bool \<Rightarrow> gate \<times> gate \<Rightarrow> string \<Rightarrow>
    (exn \<times> reject_report \<times> gate \<times> gate) + (string \<times> gate \<times> gate)" where
  "helper_feed E server gs data =
     andThen (with_error (\<lambda>(e, rep, g). (e, rep, share_pending server g gs)) (gate_feed E (the_gate server gs) data)) (\<lambda>(out, g).
     Inr (out, share_pending server g gs))"

definition auth_pair_feed :: "platform \<Rightarrow> bool \<Rightarrow> auth_gate \<times> auth_gate \<Rightarrow> string \<Rightarrow>
    (exn \<times> auth_report \<times> auth_gate \<times> auth_gate) + (string \<times> auth_gate \<times> auth_gate)" where
  "auth_pair_feed E server gs data =
     andThen (with_error (\<lambda>(e, rep, g). (e, rep, put_gate server g gs)) (auth_feed E (the_gate server gs) data)) (\<lambda>(out, g).
     Inr (out, put_gate server g gs))"

definition helper_gates :: "string \<Rightarrow> gate \<times> gate" where
  "helper_gates owner = (new_gate owner False [], new_gate owner True [])"

text \<open>
  What the factory returns: no gates at all, the gates of one kind, or both kinds in a row. The
  helper gates are made for an admitted helper, with the owner thread of its grant.
\<close>

datatype wire_gates =
    Unchecked
  | AuthOnly "auth_gate \<times> auth_gate"
  | HelperOnly "gate \<times> gate"
  | Chained "(auth_gate \<times> auth_gate) \<times> (gate \<times> gate)"

definition wire_gate_factory :: "bool \<Rightarrow> string option \<Rightarrow> wire_gates" where
  "wire_gate_factory with_auth admission = (case admission of
      None \<Rightarrow> if with_auth then AuthOnly auth_wire_gates else Unchecked
    | Some owner \<Rightarrow> if with_auth then Chained (auth_wire_gates, helper_gates owner) else HelperOnly (helper_gates owner))"

lemma the_gate_put [simp]: "the_gate s (put_gate s g gs) = g" "the_gate (\<not> s) (put_gate s g gs) = the_gate (\<not> s) gs"
  "the_gate s (put_gate (\<not> s) g gs) = the_gate s gs"
  by (simp_all add: the_gate_def put_gate_def)

lemma the_gate_share [simp]:
  "the_gate s (share_pending s g gs) = g"
  "the_gate (\<not> s) (share_pending s g gs) = (the_gate (\<not> s) gs)\<lparr>g_pending := g_pending g\<rparr>"
  by (simp_all add: share_pending_def)

lemma helper_feed_ok:
  assumes "helper_feed E server gs d = Inr (out, gs')"
  obtains g where "gate_feed E (the_gate server gs) d = Inr (out, g)" "gs' = share_pending server g gs"
  using assms that by (auto simp: helper_feed_def)

lemma auth_pair_feed_ok:
  assumes "auth_pair_feed E server gs d = Inr (out, gs')"
  obtains g where "auth_feed E (the_gate server gs) d = Inr (out, g)" "gs' = put_gate server g gs"
  using assms that by (auto simp: auth_pair_feed_def)

interpretation helper_wire: conserving_gate "helper_feed E server" "\<lambda>gs. gate_held (the_gate server gs)" "\<lambda>_. False"
  "\<lambda>gs. gate_inv (the_gate server gs)" for E server
proof
  fix gs d out gs'
  assume inv: "gate_inv (the_gate server gs)" and "helper_feed E server gs d = Inr (out, gs')"
  then obtain g where g: "gate_feed E (the_gate server gs) d = Inr (out, g)" "gs' = share_pending server g gs"
    by (elim helper_feed_ok)
  from native_gate.conserves [OF inv g(1)] native_gate.invar_feed [OF inv g(1)] g(2)
  show "mset out + mset (gate_held (the_gate server gs')) = mset (gate_held (the_gate server gs)) + mset d"
    and "gate_inv (the_gate server gs')" by simp_all
qed simp

interpretation auth_wire: conserving_gate "auth_pair_feed E server" "\<lambda>gs. auth_held (the_gate server gs)"
  "\<lambda>gs. ag_closed (the_gate server gs)" "\<lambda>gs. auth_traced E (the_gate server gs)" for E server
proof
  fix gs d out gs'
  assume inv: "auth_traced E (the_gate server gs)" and "auth_pair_feed E server gs d = Inr (out, gs')"
  then obtain g where g: "auth_feed E (the_gate server gs) d = Inr (out, g)" "gs' = put_gate server g gs"
    by (elim auth_pair_feed_ok)
  from auth_gate.invar_feed [OF inv g(1)] g(2) show "auth_traced E (the_gate server gs')" by simp
  assume "\<not> ag_closed (the_gate server gs')"
  with auth_gate.conserves [OF inv g(1)] g(2)
  show "mset out + mset (auth_held (the_gate server gs')) = mset (auth_held (the_gate server gs)) + mset d" by simp
next
  fix gs :: "auth_gate \<times> auth_gate" and d
  assume "ag_closed (the_gate server gs)"
  then show "\<exists>e. auth_pair_feed E server gs d = Inl e"
    using auth_gate.closed_rejects [of "the_gate server gs" E d] by (auto simp: auth_pair_feed_def)
qed

interpretation wire: gate_chain "auth_pair_feed E server" "\<lambda>gs. auth_held (the_gate server gs)"
  "\<lambda>gs. ag_closed (the_gate server gs)" "\<lambda>gs. auth_traced E (the_gate server gs)"
  "helper_feed E server" "\<lambda>gs. gate_held (the_gate server gs)" "\<lambda>gs. gate_inv (the_gate server gs)" for E server
  by unfold_locales

section \<open>Requests and answers\<close>

text \<open>What a released message does to the requests in flight.\<close>

datatype wire_event = Asked int | Answered int | Passed

definition event_of :: "bool \<Rightarrow> json \<Rightarrow> wire_event" where
  "event_of server v = (if has_key (obj_of v) ''id'' then
      (if server then Answered (int_of (dget (obj_of v) ''id'')) else Asked (int_of (dget (obj_of v) ''id'')))
    else Passed)"

text \<open>The specification: a request needs a free identifier, an answer one that is in flight.\<close>

fun pairing :: "int set \<Rightarrow> wire_event list \<Rightarrow> int set option" where
  "pairing P [] = Some P"
| "pairing P (Asked i # es) = (if i \<in> P then None else pairing (insert i P) es)"
| "pairing P (Answered i # es) = (if i \<in> P then pairing (P - {i}) es else None)"
| "pairing P (Passed # es) = pairing P es"

lemma pairing_append: "pairing P (xs @ ys) = (case pairing P xs of None \<Rightarrow> None | Some Q \<Rightarrow> pairing Q ys)"
  by (induction P xs rule: pairing.induct) auto

lemma pairing_counts:
  "pairing P es = Some Q \<Longrightarrow>
     count_list es (Asked i) + (if i \<in> P then 1 else 0) = count_list es (Answered i) + (if i \<in> Q then 1 else 0)"
proof (induction P es arbitrary: Q rule: pairing.induct)
  case (2 P j es)
  from "2.prems" have j: "j \<notin> P" and p: "pairing (insert j P) es = Some Q" by (simp_all split: if_splits)
  from "2.IH" [OF j p] j show ?case by (cases "j = i") auto
next
  case (3 P j es)
  from "3.prems" have j: "j \<in> P" and p: "pairing (P - {j}) es = Some Q" by (simp_all split: if_splits)
  from "3.IH" [OF j p] j show ?case by (cases "j = i") auto
qed auto

lemma admit_message_pairs:
  "admit_message E server owner v p = Inr q \<Longrightarrow> pairing (set p) [event_of server v] = Some (set q)"
  by (auto simp: admit_message_def event_of_def Let_def split: if_splits)

text \<open>
  The messages a gate has released, each with its frames: they decode to the message, and the
  pending identifiers change from \<open>p\<close> to \<open>q\<close> as the messages are admitted one after the other.
\<close>

definition admitted :: "platform \<Rightarrow> bool \<Rightarrow> int list \<Rightarrow> (ws_frame list \<times> json) list \<Rightarrow> int list \<Rightarrow> bool" where
  "admitted E server p ms q \<longleftrightarrow> pairing (set p) (map (\<lambda>(fs, v). event_of server v) ms) = Some (set q)
     \<and> (\<forall>(fs, v) \<in> set ms. frames_decode server fs \<and> json_unique E (concat (map f_payload fs)) = Inr v)"

definition log_raw :: "(ws_frame list \<times> json) list \<Rightarrow> string" where
  "log_raw ms = concat (map (\<lambda>(fs, v). frames_raw fs) ms)"

lemma admitted_Nil [simp]: "admitted E server p [] p"
  by (simp add: admitted_def)

lemma admitted_append:
  "admitted E server p xs q \<Longrightarrow> admitted E server q ys r \<Longrightarrow> admitted E server p (xs @ ys) r"
  by (auto simp: admitted_def pairing_append)

lemma log_raw_append [simp]: "log_raw (xs @ ys) = log_raw xs @ log_raw ys"
  by (simp add: log_raw_def)

lemma log_raw_Nil [simp]: "log_raw [] = []"
  by (simp add: log_raw_def)

lemma complete_message_admits:
  assumes "complete_message E payload g = Inr (out, g')"
  obtains v where "json_unique E payload = Inr v"
    "admit_message E (g_server g) (g_owner g) v (g_pending g) = Inr (g_pending g')"
  using assms that by (auto simp: complete_message_def Let_def)

lemma gate_step_log:
  assumes step: "gate_step E f g = Inr (out, g')" and fs: "collected g fs"
    and f: "parse_frame (g_server g) (f_raw f) = Inr (Some f)"
  shows "\<exists>ms fs'. out = log_raw ms \<and> admitted E (g_server g) (g_pending g) ms (g_pending g') \<and> collected g' fs'"
proof -
  let ?g1 = "g\<lparr>g_fpayload := g_fpayload g @ f_payload f, g_fframes := g_fframes g @ [f_raw f]\<rparr>"
  have c: "collected ?g1 (fs @ [f])" using fs f by (auto simp: collected_def frames_decode_def)
  from step show ?thesis
  proof (cases rule: gate_step_cases)
    case hold
    with c show ?thesis by (intro exI [of _ "[]"] exI [of _ "fs @ [f]"]) simp
  next
    case release
    then obtain v where v: "json_unique E (g_fpayload ?g1) = Inr v"
      "admit_message E (g_server g) (g_owner g) v (g_pending g) = Inr (g_pending g')"
      by (elim complete_message_admits) simp
    have "admitted E (g_server g) (g_pending g) [(fs @ [f], v)] (g_pending g')"
      using c v(1) admit_message_pairs [OF v(2)] by (simp add: admitted_def collected_def)
    moreover have "out = log_raw [(fs @ [f], v)]" "collected g' []"
      using complete_message_held [OF release] c by (simp_all add: log_raw_def frames_raw_def collected_def frames_decode_def)
    ultimately show ?thesis by blast
  qed
qed

lemma gate_loop_log:
  "gate_loop E g = Inr (out, g') \<Longrightarrow> collected g fs \<Longrightarrow>
     \<exists>ms fs'. out = log_raw ms \<and> admitted E (g_server g) (g_pending g) ms (g_pending g') \<and> collected g' fs'
       \<and> g_server g' = g_server g"
proof (induction E g arbitrary: out fs rule: gate_loop.induct)
  case (1 E g)
  from "1.prems"(1) [unfolded gate_loop.simps [of E g]] obtain r g1 where r: "gate_frame g = Inr (r, g1)" by auto
  note keep = gate_frame_keeps [OF r]
  have c1: "collected g1 fs" using "1.prems"(2) keep collected_cong [of g1 g fs] by simp
  show ?case
  proof (cases r)
    case None
    with "1.prems"(1) r have "out = []" "g' = g1" by (simp_all add: gate_loop.simps [of E g])
    with c1 keep show ?thesis by (intro exI [of _ "[]"] exI [of _ fs]) simp
  next
    case (Some f)
    with "1.prems"(1) r obtain o1 g2 o2 where step: "gate_step E f g1 = Inr (o1, g2)"
      and rest: "gate_loop E g2 = Inr (o2, g')" and out: "out = o1 @ o2"
      by (auto simp: gate_loop.simps [of E g])
    have "parse_frame (g_server g1) (f_raw f) = Inr (Some f)"
      using parse_frame_raw [OF gate_frame_Some(1) [OF r [unfolded Some]]] keep by simp
    from gate_step_log [OF step c1 this] keep obtain l1 fs1
      where l1: "o1 = log_raw l1" "admitted E (g_server g) (g_pending g) l1 (g_pending g2)" "collected g2 fs1" by auto
    have s: "g_server g2 = g_server g" using gate_step_keeps [OF step] keep by simp
    from "1.IH" [OF r refl Some step refl rest l1(3)] s obtain l2 fs2
      where l2: "o2 = log_raw l2" "admitted E (g_server g) (g_pending g2) l2 (g_pending g')" "collected g' fs2" "g_server g' = g_server g"
      by auto
    with admitted_append [OF l1(2) l2(2)] l1(1) out show ?thesis
      by (intro exI [of _ "l1 @ l2"] exI [of _ fs2]) simp
  qed
qed

lemma gate_feed_log:
  assumes feed: "gate_feed E g data = Inr (out, g')" and fs: "collected g fs"
  shows "\<exists>head ms fs'. out = head @ log_raw ms \<and> (head = [] \<or> find_marker head = Some (length head - 4))
    \<and> admitted E (g_server g) (g_pending g) ms (g_pending g') \<and> collected g' fs' \<and> g_server g' = g_server g"
proof -
  let ?g1 = "g\<lparr>g_meta := no_meta, g_buffer := g_buffer g @ data\<rparr>"
  consider (run) "gate_loop E ?g1 = Inr (out, g')"
    | (wait) "out = []" "g' = ?g1"
    | (upgrade) n o3 where "out = take (n + 4) (g_buffer ?g1) @ o3" "find_marker (g_buffer ?g1) = Some n"
        "gate_loop E (?g1\<lparr>g_buffer := drop (n + 4) (g_buffer ?g1), g_handshake := True\<rparr>) = Inr (o3, g')"
    using gate_feed_inner_of [OF feed] by (auto simp: gate_feed_inner_def Let_def split: if_splits option.splits)
  then show ?thesis
  proof cases
    case run
    have "collected ?g1 fs" using fs by (simp add: collected_def)
    from gate_loop_log [OF run this] obtain ms fs' where "out = log_raw ms"
      "admitted E (g_server g) (g_pending g) ms (g_pending g')" "collected g' fs'" "g_server g' = g_server g" by auto
    then show ?thesis by (intro exI [of _ "[]"] exI [of _ ms] exI [of _ fs']) simp
  next
    case wait
    with fs show ?thesis by (intro exI [of _ "[]"] exI [of _ "[]"] exI [of _ fs]) (simp add: collected_def)
  next
    case upgrade
    let ?h = "take (n + 4) (g_buffer ?g1)"
    have "collected (?g1\<lparr>g_buffer := drop (n + 4) (g_buffer ?g1), g_handshake := True\<rparr>) fs" using fs by (simp add: collected_def)
    from gate_loop_log [OF upgrade(3) this] obtain ms fs' where l: "o3 = log_raw ms"
      "admitted E (g_server g) (g_pending g) ms (g_pending g')" "collected g' fs'" "g_server g' = g_server g" by auto
    have "find_marker ?h = Some (length ?h - 4)"
      using find_marker_take [OF upgrade(2)] find_marker_bound [OF upgrade(2)]
      by (metis length_take min.absorb2 add_diff_cancel_right')
    with l upgrade(1) show ?thesis by (intro exI [of _ ?h] exI [of _ ms] exI [of _ fs']) simp
  qed
qed

text \<open>A run of the helper gates of one connection: chunks of both directions in the order they arrive.\<close>

fun helper_feeds :: "platform \<Rightarrow> gate \<times> gate \<Rightarrow> (bool \<times> string) list \<Rightarrow>
    (exn \<times> reject_report \<times> gate \<times> gate) + ((bool \<times> string) list \<times> gate \<times> gate)" where
  "helper_feeds E gs [] = Inr ([], gs)"
| "helper_feeds E gs ((server, d) # ds) =
     andThen (helper_feed E server gs d) (\<lambda>(out, gs1).
     andThen (helper_feeds E gs1 ds) (\<lambda>(outs, gs2). Inr ((server, out) # outs, gs2)))"

text \<open>The output of one feed is the upgrade text, if any, and messages with their frames.\<close>

definition released_as :: "platform \<Rightarrow> bool \<times> string \<Rightarrow> (ws_frame list \<times> json) list \<Rightarrow> bool" where
  "released_as E so ms \<longleftrightarrow>
     (\<exists>head. snd so = head @ log_raw ms \<and> (head = [] \<or> find_marker head = Some (length head - 4)))
     \<and> (\<forall>(fs, v) \<in> set ms. frames_decode (fst so) fs \<and> json_unique E (concat (map f_payload fs)) = Inr v)"

definition run_events :: "(bool \<times> string) list \<Rightarrow> (ws_frame list \<times> json) list list \<Rightarrow> wire_event list" where
  "run_events outs logs = concat (map2 (\<lambda>so ms. map (\<lambda>(fs, v). event_of (fst so) v) ms) outs logs)"

definition pair_inv :: "gate \<times> gate \<Rightarrow> bool" where
  "pair_inv gs \<longleftrightarrow> (\<forall>server. (\<exists>fs. collected (the_gate server gs) fs) \<and> g_server (the_gate server gs) = server
     \<and> g_pending (the_gate server gs) = g_pending (fst gs))"

lemma pair_inv_new: "pair_inv (helper_gates owner)"
  by (auto simp: pair_inv_def the_gate_def helper_gates_def new_gate_def collected_def frames_decode_def)

lemma helper_feed_log:
  assumes "helper_feed E server gs d = Inr (out, gs')" and "pair_inv gs"
  shows "\<exists>ms. released_as E (server, out) ms \<and> pair_inv gs'
    \<and> pairing (set (g_pending (fst gs))) (map (\<lambda>(fs, v). event_of server v) ms) = Some (set (g_pending (fst gs')))"
proof -
  from assms(1) obtain g where g: "gate_feed E (the_gate server gs) d = Inr (out, g)" and gs': "gs' = share_pending server g gs"
    by (rule helper_feed_ok)
  from assms(2) obtain fs fo where p: "collected (the_gate server gs) fs" "g_server (the_gate server gs) = server"
    "g_pending (the_gate server gs) = g_pending (fst gs)" "collected (the_gate (\<not> server) gs) fo"
    "g_server (the_gate (\<not> server) gs) = (\<not> server)" unfolding pair_inv_def by metis
  from gate_feed_log [OF g p(1)] p obtain head ms fs' where l: "out = head @ log_raw ms"
    "head = [] \<or> find_marker head = Some (length head - 4)" "admitted E server (g_pending (fst gs)) ms (g_pending g)"
    "collected g fs'" "g_server g = server" by auto
  have same: "g_pending (the_gate x gs') = g_pending g" for x
    using gs' by (cases "x = server") (simp_all add: share_pending_def the_gate_def put_gate_def)
  have "(\<exists>fs. collected (the_gate x gs') fs) \<and> g_server (the_gate x gs') = x" for x
  proof (cases "x = server")
    case True
    with l(4,5) gs' show ?thesis by auto
  next
    case False
    then have x: "x = (\<not> server)" by blast
    have "collected (the_gate x gs') fo" using p(4) gs' x by (simp add: collected_def)
    moreover have "g_server (the_gate x gs') = x" using p(5) gs' x by simp
    ultimately show ?thesis by blast
  qed
  then have "pair_inv gs'"
    unfolding pair_inv_def using same same [of False, unfolded the_gate_def] by simp
  with l same [of False] show ?thesis
    by (intro exI [of _ ms]) (auto simp: released_as_def admitted_def the_gate_def)
qed

lemma helper_feeds_log:
  "helper_feeds E gs ins = Inr (outs, gs') \<Longrightarrow> pair_inv gs \<Longrightarrow>
     \<exists>logs. list_all2 (released_as E) outs logs
       \<and> pairing (set (g_pending (fst gs))) (run_events outs logs) = Some (set (g_pending (fst gs')))"
proof (induction E gs ins arbitrary: outs rule: helper_feeds.induct)
  case (1 E gs)
  then show ?case by (simp add: run_events_def)
next
  case (2 E gs server d ds)
  from "2.prems"(1) obtain out gs1 outs1 where step: "helper_feed E server gs d = Inr (out, gs1)"
    and rest: "helper_feeds E gs1 ds = Inr (outs1, gs')" and outs: "outs = (server, out) # outs1" by auto
  from helper_feed_log [OF step "2.prems"(2)] obtain ms where m: "released_as E (server, out) ms" "pair_inv gs1"
    "pairing (set (g_pending (fst gs))) (map (\<lambda>(fs, v). event_of server v) ms) = Some (set (g_pending (fst gs1)))" by blast
  from "2.IH" [OF step refl rest m(2)] obtain logs where l: "list_all2 (released_as E) outs1 logs"
    "pairing (set (g_pending (fst gs1))) (run_events outs1 logs) = Some (set (g_pending (fst gs')))" by blast
  with m outs show ?case
    by (intro exI [of _ "ms # logs"]) (simp add: run_events_def pairing_append)
qed

text \<open>
  C10. In any interleaving of chunks of both directions that the helper gates of a connection
  accept, requests and answers are paired: at every moment every identifier has been answered
  at most as often as it was asked and is in flight at most once, so that no answer is released
  without its request and none is released twice.
\<close>

theorem helper_answers_match_requests:
  assumes "helper_feeds E (helper_gates owner) ins = Inr (outs, gs)"
  shows "\<exists>logs. list_all2 (released_as E) outs logs \<and>
    (\<forall>n i. let es = take n (run_events outs logs) in
       count_list es (Answered i) \<le> count_list es (Asked i) \<and> count_list es (Asked i) \<le> count_list es (Answered i) + 1)"
proof -
  have init: "set (g_pending (fst (helper_gates owner))) = {}" by (simp add: helper_gates_def new_gate_def)
  from helper_feeds_log [OF assms pair_inv_new] obtain logs where l: "list_all2 (released_as E) outs logs"
    "pairing {} (run_events outs logs) = Some (set (g_pending (fst gs)))" unfolding init by blast
  have "\<exists>Q. pairing {} (take n (run_events outs logs)) = Some Q" for n
    using l(2) pairing_append [of "{}" "take n (run_events outs logs)" "drop n (run_events outs logs)"]
    by (auto split: option.splits)
  then have "count_list es (Answered i) \<le> count_list es (Asked i) \<and> count_list es (Asked i) \<le> count_list es (Answered i) + 1"
    if "es = take n (run_events outs logs)" for n i es
    using that by (auto dest!: pairing_counts [where i = i] dest: meta_spec [of _ n] split: if_splits)
  with l(1) show ?thesis by (intro exI [of _ logs]) (simp add: Let_def)
qed

section \<open>The authentication gate in front of the helper gate\<close>

text \<open>A run of the authentication gates, and of both pairs in a row: chunks of both directions in the order they arrive.\<close>

fun auth_feeds :: "platform \<Rightarrow> auth_gate \<times> auth_gate \<Rightarrow> (bool \<times> string) list \<Rightarrow>
    (exn \<times> auth_report \<times> auth_gate \<times> auth_gate) + ((bool \<times> string) list \<times> auth_gate \<times> auth_gate)" where
  "auth_feeds E gs [] = Inr ([], gs)"
| "auth_feeds E gs ((server, d) # ds) =
     andThen (auth_pair_feed E server gs d) (\<lambda>(out, gs1).
     andThen (auth_feeds E gs1 ds) (\<lambda>(outs, gs2). Inr ((server, out) # outs, gs2)))"

fun chained_feeds :: "platform \<Rightarrow> (auth_gate \<times> auth_gate) \<times> (gate \<times> gate) \<Rightarrow> (bool \<times> string) list \<Rightarrow>
    ((exn \<times> auth_report \<times> auth_gate \<times> auth_gate) + (exn \<times> reject_report \<times> gate \<times> gate))
      + ((bool \<times> string) list \<times> (auth_gate \<times> auth_gate) \<times> (gate \<times> gate))" where
  "chained_feeds E gs [] = Inr ([], gs)"
| "chained_feeds E gs ((server, d) # ds) =
     andThen (chain_feed (auth_pair_feed E server) (helper_feed E server) gs d) (\<lambda>(out, gs1).
     andThen (chained_feeds E gs1 ds) (\<lambda>(outs, gs2). Inr ((server, out) # outs, gs2)))"

text \<open>The chunks that carry something, and the bytes of one direction.\<close>

abbreviation loud :: "(bool \<times> string) list \<Rightarrow> (bool \<times> string) list" where
  "loud xs \<equiv> filter (\<lambda>(server, d). d \<noteq> []) xs"

definition side_bytes :: "bool \<Rightarrow> (bool \<times> string) list \<Rightarrow> string" where
  "side_bytes server xs = concat (map snd (filter (\<lambda>(s, d). s = server) xs))"

lemma side_bytes_simps [simp]: "side_bytes server [] = []"
  "side_bytes server ((s, d) # xs) = (if s = server then d else []) @ side_bytes server xs"
  by (simp_all add: side_bytes_def)

lemma side_bytes_loud [simp]: "side_bytes server (loud xs) = side_bytes server xs"
  by (induction xs) auto

lemma chained_feeds_split:
  "chained_feeds E (as, hs) ins = Inr (outs, (as', hs')) \<Longrightarrow>
     \<exists>fwds houts. auth_feeds E as ins = Inr (fwds, as') \<and> helper_feeds E hs (loud fwds) = Inr (houts, hs') \<and> loud outs = loud houts"
proof (induction ins arbitrary: as hs outs)
  case Nil
  then show ?case by simp
next
  case (Cons i ins)
  obtain server d where i: "i = (server, d)" by (cases i)
  with Cons.prems obtain o1 as1 hs1 o2 where step: "chain_feed (auth_pair_feed E server) (helper_feed E server) (as, hs) d = Inr (o1, (as1, hs1))"
    and rest: "chained_feeds E (as1, hs1) ins = Inr (o2, (as', hs'))" and outs: "outs = (server, o1) # o2" by auto
  from Cons.IH [OF rest] obtain fwds houts where r: "auth_feeds E as1 ins = Inr (fwds, as')"
    "helper_feeds E hs1 (loud fwds) = Inr (houts, hs')" "loud o2 = loud houts" by blast
  from step show ?case
  proof (cases rule: wire.chain_ok)
    case quiet
    with r i outs show ?thesis by (intro exI [of _ "(server, []) # fwds"] exI [of _ houts]) simp
  next
    case (forward fwd)
    show ?thesis
    proof (cases "fwd = []")
      case True
      with step forward(1) have "o1 = []" "hs1 = hs" by (simp_all add: chain_feed_def)
      with True forward(1) r i outs show ?thesis by (intro exI [of _ "(server, []) # fwds"] exI [of _ houts]) simp
    next
      case False
      with forward r i outs show ?thesis by (intro exI [of _ "(server, fwd) # fwds"] exI [of _ "(server, o1) # houts"]) simp
    qed
  qed
qed

text \<open>What each gate of a pair has done in an interleaved run, with the bytes of its direction.\<close>

lemma auth_feeds_traces:
  "auth_feeds E gs ins = Inr (outs, gs') \<Longrightarrow> auth_trace E server inp out (the_gate server gs) \<Longrightarrow>
     auth_trace E server (inp @ side_bytes server ins) (out @ side_bytes server outs) (the_gate server gs')"
proof (induction ins arbitrary: gs inp out outs)
  case Nil
  then show ?case by simp
next
  case (Cons i ins)
  obtain s d where i: "i = (s, d)" by (cases i)
  with Cons.prems obtain o1 gs1 o2 where step: "auth_pair_feed E s gs d = Inr (o1, gs1)"
    and rest: "auth_feeds E gs1 ins = Inr (o2, gs')" and outs: "outs = (s, o1) # o2" by auto
  from step obtain g where g: "auth_feed E (the_gate s gs) d = Inr (o1, g)" "gs1 = put_gate s g gs" by (rule auth_pair_feed_ok)
  show ?case
  proof (cases "s = server")
    case True
    have "auth_trace E server (inp @ d) (out @ o1) (the_gate server gs1)"
      using auth_feed_trace [OF g(1) [unfolded True] Cons.prems(2)] g(2) True by simp
    from Cons.IH [OF rest this] True i outs show ?thesis by simp
  next
    case False
    then have "the_gate server gs1 = the_gate server gs" using g(2) by (cases s) (auto simp: the_gate_def put_gate_def)
    with Cons.IH [OF rest] Cons.prems(2) False i outs show ?thesis by simp
  qed
qed

text \<open>A gate of one direction between the runs of the other one: the shared identifiers do not matter to what it holds.\<close>

definition gate_did :: "platform \<Rightarrow> bool \<Rightarrow> string \<Rightarrow> string \<Rightarrow> string \<Rightarrow> gate \<Rightarrow> bool" where
  "gate_did E server owner inp out g = (gate_inv g \<and> inp = out @ gate_held g \<and> released_ok E g out \<and> g_server g = server \<and> g_owner g = owner)"

lemma gate_did_pending [simp]: "gate_did E server owner inp out (g\<lparr>g_pending := p\<rparr>) = gate_did E server owner inp out g"
  by (simp add: gate_did_def gate_inv_def gate_held_def released_ok_def all_released_def collected_def)

lemma gate_did_step:
  assumes "gate_did E server owner inp out g" and feed: "gate_feed E g d = Inr (o2, g')"
  shows "gate_did E server owner (inp @ d) (out @ o2) g'"
proof -
  have g: "gate_inv g" "inp = out @ gate_held g" "released_ok E g out" "g_server g = server" "g_owner g = owner"
    using assms(1) by (simp_all add: gate_did_def)
  have "feed_all (gate_feed E) g [d] = Inr (o2, g')" using feed by simp
  from native_gate.feeds_ordered [OF g(1) this] have "gate_held g @ d = o2 @ gate_held g'" by simp
  with native_gate.invar_feed [OF g(1) feed] gate_feed_released [OF feed g(1,3)] g show ?thesis by (simp add: gate_did_def)
qed

lemma helper_feeds_did:
  "helper_feeds E gs ins = Inr (outs, gs') \<Longrightarrow> gate_did E server owner inp out (the_gate server gs) \<Longrightarrow>
     gate_did E server owner (inp @ side_bytes server ins) (out @ side_bytes server outs) (the_gate server gs')"
proof (induction ins arbitrary: gs inp out outs)
  case Nil
  then show ?case by simp
next
  case (Cons i ins)
  obtain s d where i: "i = (s, d)" by (cases i)
  with Cons.prems obtain o1 gs1 o2 where step: "helper_feed E s gs d = Inr (o1, gs1)"
    and rest: "helper_feeds E gs1 ins = Inr (o2, gs')" and outs: "outs = (s, o1) # o2" by auto
  from step obtain g where g: "gate_feed E (the_gate s gs) d = Inr (o1, g)" "gs1 = share_pending s g gs" by (rule helper_feed_ok)
  show ?case
  proof (cases "s = server")
    case True
    have "gate_did E server owner (inp @ d) (out @ o1) (the_gate server gs1)"
      using gate_did_step [OF Cons.prems(2) g(1) [unfolded True]] g(2) True by simp
    from Cons.IH [OF rest this] True i outs show ?thesis by simp
  next
    case False
    then have "server = (\<not> s)" by blast
    then have "the_gate server gs1 = (the_gate server gs)\<lparr>g_pending := g_pending g\<rparr>" using g(2) by simp
    with Cons.IH [OF rest] Cons.prems(2) False i outs show ?thesis by simp
  qed
qed

text \<open>
  C12. Both checks stand in the way of the traffic of an admitted helper, in any interleaving of chunks of
  both directions that the chained gates of a connection accept: the helper gates receive exactly what the
  authentication gates let through, chunk by chunk in this order, and what they release is what the
  connection gets. In each direction what they received is what they released and what they still hold,
  it consists of the upgrade and policed units, and what they released consists of an upgrade and complete
  messages that satisfy the owner contract; and over both directions requests and answers stay paired.
\<close>

theorem chained_gates_pass_both:
  assumes "chained_feeds E (auth_wire_gates, helper_gates owner) ins = Inr (outs, (as, hs))"
  shows "\<exists>fwds houts logs. auth_feeds E auth_wire_gates ins = Inr (fwds, as)
    \<and> helper_feeds E (helper_gates owner) (loud fwds) = Inr (houts, hs) \<and> loud outs = loud houts
    \<and> (\<forall>server. side_bytes server fwds = side_bytes server outs @ gate_held (the_gate server hs)
         \<and> (side_bytes server fwds \<noteq> [] \<longrightarrow> (\<exists>head units. side_bytes server fwds = head @ concat (map frames_raw units)
              \<and> find_marker head = Some (length head - 4) \<and> (\<forall>u \<in> set units. auth_unit_ok E server u)))
         \<and> (side_bytes server outs \<noteq> [] \<longrightarrow> (\<exists>top msgs. side_bytes server outs = top @ concat (map frames_raw msgs)
              \<and> find_marker top = Some (length top - 4) \<and> (\<forall>fs \<in> set msgs. message_ok E server owner fs))))
    \<and> list_all2 (released_as E) houts logs \<and> pairing {} (run_events houts logs) = Some (set (g_pending (fst hs)))"
proof -
  from chained_feeds_split [OF assms] obtain fwds houts where f: "auth_feeds E auth_wire_gates ins = Inr (fwds, as)"
    and h: "helper_feeds E (helper_gates owner) (loud fwds) = Inr (houts, hs)" and same: "loud outs = loud houts" by blast
  have init: "the_gate server auth_wire_gates = new_auth_gate server" "the_gate server (helper_gates owner) = new_gate owner server []" for server
    by (cases server; simp add: the_gate_def auth_wire_gates_def helper_gates_def)+
  have sides: "side_bytes server outs = side_bytes server houts" for server using side_bytes_loud [of server] same by metis
  have raw: "frames_raw (concat us) = concat (map frames_raw us)" for us by (induction us) (simp_all add: frames_raw_def)
  have "gate_did E server owner [] [] (new_gate owner server [])" for server
    by (auto simp: gate_did_def new_gate_def gate_inv_def gate_held_def released_ok_def collected_def frames_decode_def)
  from helper_feeds_did [OF h, of _ owner "[]" "[]"] this
  have did: "gate_did E server owner (side_bytes server fwds) (side_bytes server outs) (the_gate server hs)" for server
    by (simp add: init sides)
  have "auth_trace E server (side_bytes server ins) (side_bytes server fwds) (the_gate server as)" for server
    using auth_feeds_traces [OF f, of server "[]" "[]"] auth_trace_new by (simp add: init)
  then have units: "\<exists>head units. side_bytes server fwds = head @ concat (map frames_raw units)
      \<and> find_marker head = Some (length head - 4) \<and> (\<forall>u \<in> set units. auth_unit_ok E server u)" if "side_bytes server fwds \<noteq> []" for server
    using that unfolding auth_trace_def auth_run_def raw by (metis (no_types, lifting))
  have msgs: "\<exists>top msgs. side_bytes server outs = top @ concat (map frames_raw msgs)
      \<and> find_marker top = Some (length top - 4) \<and> (\<forall>fs \<in> set msgs. message_ok E server owner fs)" if "side_bytes server outs \<noteq> []" for server
  proof -
    have did: "released_ok E (the_gate server hs) (side_bytes server outs)" "g_server (the_gate server hs) = server" "g_owner (the_gate server hs) = owner"
      using did [of server] by (simp_all add: gate_did_def)
    show ?thesis by (rule released_okD [OF did(1) that, unfolded did(2,3)])
  qed
  have none: "set (g_pending (fst (helper_gates owner))) = {}" by (simp add: helper_gates_def new_gate_def)
  from helper_feeds_log [OF h pair_inv_new] obtain logs where "list_all2 (released_as E) houts logs"
    "pairing {} (run_events houts logs) = Some (set (g_pending (fst hs)))" unfolding none by blast
  moreover have "side_bytes server fwds = side_bytes server outs @ gate_held (the_gate server hs)" for server
    using did [of server] by (simp add: gate_did_def)
  ultimately show ?thesis using f h same units msgs by blast
qed

section \<open>Sample connections\<close>

text \<open>A read request of the helper and its answer, each in one frame after its upgrade.\<close>

definition pair_platform :: platform where
  "pair_platform = sample_platform\<lparr>p_scan := \<lambda>text.
     if text = ''ask'' then Some (JObj [(''method'', JStr ''thread/read''), (''id'', JInt 4), (''params'', thread_read_params ''owner'')])
     else if text = ''tell'' then Some (JObj [(''id'', JInt 4), (''result'', JObj [(''threadId'', JStr ''owner'')])]) else None\<rparr>"

definition ask_frame :: string where
  "ask_frame = [CHR 0x81, CHR 0x83, CHR 0x00, CHR 0x00, CHR 0x00, CHR 0x00] @ ''ask''"

definition tell_frame :: string where
  "tell_frame = [CHR 0x81, CHR 0x04] @ ''tell''"

definition pair_inputs :: "(bool \<times> string) list" where
  "pair_inputs = [(False, ''GET /'' @ crlf2), (True, ''101'' @ crlf2), (False, ask_frame), (True, tell_frame)]"

lemma pair_inputs_pass:
  "map_sum (\<lambda>_. ()) fst (helper_feeds pair_platform (helper_gates ''owner'') pair_inputs) = Inr pair_inputs"
  by code_simp

theorem helper_answers_match_requests_witness:
  "\<exists>logs. list_all2 (released_as pair_platform) pair_inputs logs"
proof -
  obtain gs where "helper_feeds pair_platform (helper_gates ''owner'') pair_inputs = Inr (pair_inputs, gs)"
    using pair_inputs_pass by (cases "helper_feeds pair_platform (helper_gates ''owner'') pair_inputs") auto
  from helper_answers_match_requests [OF this] show ?thesis by blast
qed

lemma chained_inputs_pass:
  "map_sum (\<lambda>_. ()) fst (chained_feeds pair_platform (auth_wire_gates, helper_gates ''owner'') pair_inputs) = Inr pair_inputs"
  by code_simp

theorem chained_gates_pass_both_witness:
  "\<exists>fwds as. auth_feeds pair_platform auth_wire_gates pair_inputs = Inr (fwds, as)
     \<and> (\<exists>top msgs. ''101'' @ crlf2 @ tell_frame = top @ concat (map frames_raw msgs) \<and> (\<forall>fs \<in> set msgs. message_ok pair_platform True ''owner'' fs))"
proof -
  obtain as hs where "chained_feeds pair_platform (auth_wire_gates, helper_gates ''owner'') pair_inputs = Inr (pair_inputs, (as, hs))"
    using chained_inputs_pass by (cases "chained_feeds pair_platform (auth_wire_gates, helper_gates ''owner'') pair_inputs") auto
  from chained_gates_pass_both [OF this] obtain fwds where f: "auth_feeds pair_platform auth_wire_gates pair_inputs = Inr (fwds, as)"
    and m: "side_bytes True pair_inputs \<noteq> [] \<longrightarrow> (\<exists>top msgs. side_bytes True pair_inputs = top @ concat (map frames_raw msgs)
      \<and> find_marker top = Some (length top - 4) \<and> (\<forall>fs \<in> set msgs. message_ok pair_platform True ''owner'' fs))" by blast
  have "side_bytes True pair_inputs = ''101'' @ crlf2 @ tell_frame" "tell_frame \<noteq> []" by (simp_all add: pair_inputs_def tell_frame_def)
  with f m show ?thesis by auto
qed

end
