(* ===== verification/OwnerSession.thy ===== *)
theory OwnerSession
  imports WireChain
begin

text \<open>
  The controlled second frontend of a leased backend (\<open>runtime/native/owner_helper.py\<close>): the
  check of a helper grant against the lease, the WebSocket upgrade of the private connection, the
  connection itself with its identifiers in flight, and the life of the lease. The operations that
  await something are split where another task may run.
\<close>

section \<open>Connections\<close>

text \<open>
  \<open>hc_input\<close> is what the backend still sends before the stream ends, \<open>hc_sent\<close> what was written.
\<close>

record helper_conn =
  hc_lease :: string
  hc_owner :: string
  hc_closed :: bool
  hc_writer_closed :: bool
  hc_pending :: "int list"
  hc_input :: string
  hc_sent :: "string list"

definition new_conn :: "string \<Rightarrow> string \<Rightarrow> string \<Rightarrow> helper_conn" where
  "new_conn lease owner input = \<lparr>hc_lease = lease, hc_owner = owner, hc_closed = False, hc_writer_closed = False,
     hc_pending = [], hc_input = input, hc_sent = []\<rparr>"

text \<open>The identifier of a message that passed the check, if it has one.\<close>

definition request_id :: "json \<Rightarrow> int option" where
  "request_id message = (case dget (obj_of message) ''id'' of JInt i \<Rightarrow> Some i | _ \<Rightarrow> None)"

text \<open>
  \<open>send_rpc\<close> up to the wait for the transport: \<open>mkey\<close> is the random mask. The identifier counts as
  in flight before the frame is written.
\<close>

definition send_write :: "platform \<Rightarrow> string \<Rightarrow> json \<Rightarrow> helper_conn \<Rightarrow> int option result \<times> helper_conn" where
  "send_write E mkey message c =
    (if hc_closed c then (Inl (helper_reject ''helper_closed''), c)
     else case validate_helper_rpc E message (hc_owner c) of
         Inl e \<Rightarrow> (Inl e, c)
       | Inr _ \<Rightarrow>
           let rid = request_id message in
           if (case rid of None \<Rightarrow> False | Some i \<Rightarrow> i \<in> set (hc_pending c)) then (Inl (helper_reject ''rpc_id_reused''), c)
           else case websocket_frame mkey (dumps True True E message) of
               Inl e \<Rightarrow> (Inl e, c)
             | Inr frame \<Rightarrow> (Inr rid, c\<lparr>hc_sent := hc_sent c @ [frame],
                 hc_pending := (case rid of None \<Rightarrow> hc_pending c | Some i \<Rightarrow> i # hc_pending c)\<rparr>))"

text \<open>The end of the wait; when the write failed the identifier is given back.\<close>

definition send_drained :: "bool \<Rightarrow> int option \<Rightarrow> helper_conn \<Rightarrow> unit result \<times> helper_conn" where
  "send_drained drained rid c =
    (if drained then (Inr (), c)
     else (os_error, case rid of None \<Rightarrow> c | Some i \<Rightarrow> c\<lparr>hc_pending := removeAll i (hc_pending c)\<rparr>))"

definition send_rpc :: "platform \<Rightarrow> string \<Rightarrow> bool \<Rightarrow> json \<Rightarrow> helper_conn \<Rightarrow> unit result \<times> helper_conn" where
  "send_rpc E mkey drained message c = (case send_write E mkey message c of
      (Inl e, c1) \<Rightarrow> (Inl e, c1)
    | (Inr rid, c1) \<Rightarrow> send_drained drained rid c1)"

definition read_rpc :: "platform \<Rightarrow> helper_conn \<Rightarrow> json result \<times> helper_conn" where
  "read_rpc E c =
    (if hc_closed c then (Inl (helper_reject ''helper_closed''), c)
     else case read_server_text (hc_input c) of
         Inl (e, rest) \<Rightarrow> (Inl e, c\<lparr>hc_input := rest\<rparr>)
       | Inr (payload, rest) \<Rightarrow>
           let c1 = c\<lparr>hc_input := rest\<rparr> in
           case andThen (json_unique E payload) (\<lambda>message.
                andThen (validate_helper_server_message message (hc_owner c)) (\<lambda>_. Inr message)) of
             Inl e \<Rightarrow> (Inl e, c1)
           | Inr message \<Rightarrow>
               let m = obj_of message; mid = int_of (dget m ''id'') in
               if has_key m ''id'' then
                 if mid \<in> set (hc_pending c) then (Inr message, c1\<lparr>hc_pending := removeAll mid (hc_pending c)\<rparr>)
                 else (Inl (helper_reject ''response_id_mismatch''), c1)
               else (Inr message, c1))"

definition close_conn :: "helper_conn \<Rightarrow> helper_conn" where
  "close_conn c = (if hc_closed c then c else c\<lparr>hc_closed := True, hc_writer_closed := True\<rparr>)"

section \<open>The WebSocket upgrade\<close>

text \<open>\<open>bytes.split(b"\r\n")\<close>, \<open>bytes.strip()\<close>, \<open>line.split(b":", 1)\<close>.\<close>

fun split_crlf :: "string \<Rightarrow> string \<Rightarrow> string list" where
  "split_crlf acc [] = [rev acc]"
| "split_crlf acc [c] = [rev (c # acc)]"
| "split_crlf acc (c # d # cs) =
    (if c = CHR 0x0D \<and> d = CHR 0x0A then rev acc # split_crlf [] cs else split_crlf (c # acc) (d # cs))"

definition is_space :: "char \<Rightarrow> bool" where
  "is_space c = (c \<in> {CHR '' '', CHR 0x09, CHR 0x0A, CHR 0x0B, CHR 0x0C, CHR 0x0D})"

definition strip :: "string \<Rightarrow> string" where
  "strip s = rev (dropWhile is_space (rev (dropWhile is_space s)))"

definition header_of :: "string \<Rightarrow> (string \<times> string) option" where
  "header_of line = (let name = takeWhile (\<lambda>c. c \<noteq> CHR '':'') line in
     if CHR '':'' \<in> set line then Some (map ascii_lower name, strip (drop (length name + 1) line)) else None)"

definition headers_of :: "string list \<Rightarrow> (string \<times> string) list" where
  "headers_of lines = fold (\<lambda>line d. case header_of line of None \<Rightarrow> d | Some (k, v) \<Rightarrow> dict_set k v d) lines []"

definition header_or :: "(string \<times> string) list \<Rightarrow> string \<Rightarrow> string" where
  "header_or d k = (case map_of d k of None \<Rightarrow> [] | Some v \<Rightarrow> v)"

text \<open>The request; \<open>key\<close> is the encoded nonce.\<close>

definition crlf :: string where
  "crlf = [CHR 0x0D, CHR 0x0A]"

definition upgrade_request :: "string \<Rightarrow> string" where
  "upgrade_request key = ''GET / HTTP/1.1'' @ crlf @ ''Host: owner-helper'' @ crlf @ ''Upgrade: websocket'' @ crlf
     @ ''Connection: Upgrade'' @ crlf @ ''Sec-WebSocket-Version: 13'' @ crlf @ ''Sec-WebSocket-Key: '' @ key @ crlf2"

text \<open>
  The check of the response head; \<open>expected\<close> is the encoded SHA-1 of the key and the fixed
  suffix. Every rejection closes the writer first.
\<close>

definition check_upgrade :: "string \<Rightarrow> string \<Rightarrow> unit result" where
  "check_upgrade expected response =
    (let lines = split_crlf [] response; headers = headers_of (tl lines) in
     ensure (hd lines = ''HTTP/1.1 101 Switching Protocols'') (helper_reject ''websocket_upgrade'')
    (ensure (map ascii_lower (header_or headers ''upgrade'') = ''websocket''
        \<and> map ascii_lower (header_or headers ''connection'') = ''upgrade'') (helper_reject ''websocket_headers'')
    (ensure (map_of headers ''sec-websocket-accept'' = Some expected) (helper_reject ''websocket_accept'')
    (Inr ()))))"

text \<open>
  \<open>_open_websocket\<close> on what the backend sends after the connection is made: the head up to its
  blank line is checked, the rest is left in the stream. A stream that ends, or goes on for longer
  than the reader's limit, without one raises the reader's own error.
\<close>

definition open_websocket :: "string \<Rightarrow> string \<Rightarrow> string result" where
  "open_websocket expected stream = (case find_marker stream of
      None \<Rightarrow> Inl (Raised (if 65536 < length stream - 3 then ''LimitOverrunError'' else ''IncompleteReadError'') [])
    | Some n \<Rightarrow> ensure (n \<le> 65536) (Raised ''LimitOverrunError'' [])
       (andThen (check_upgrade expected (take (n + 4) stream)) (\<lambda>_. Inr (drop (n + 4) stream))))"

section \<open>The lease\<close>

record helper_identity =
  hi_pid :: int
  hi_uid :: int
  hi_birth :: string
  hi_executable :: string
  hi_executable_sha256 :: string
  hi_source_sha256 :: string

text \<open>A grant is made from a JSON document; its attributes are read by name.\<close>

type_synonym helper_grant = jdict

definition grant_attributes :: "string list" where
  "grant_attributes = [''role'', ''profile_id'', ''owner_context_sha256'', ''lease_id'', ''owner_connection_id'',
     ''owner_epoch'', ''owner_thread_id'', ''private_socket'', ''helper_pid'', ''helper_uid'', ''helper_birth'',
     ''helper_executable'', ''helper_executable_sha256'', ''helper_source_sha256'', ''version'']"

record owner_lease =
  ol_profile_id :: string
  ol_owner_context_sha256 :: string
  ol_lease_id :: string
  ol_owner_connection_id :: string
  ol_owner_epoch :: int
  ol_owner_thread_id :: string
  ol_private_socket :: string
  ol_backend_pid :: int
  ol_backend_birth :: string
  ol_helper_identity :: "helper_identity option"
  ol_closed :: bool
  ol_owner_registered :: bool
  ol_helpers :: "helper_conn list"

text \<open>\<open>__post_init__\<close>.\<close>

definition check_lease :: "owner_lease \<Rightarrow> owner_lease result" where
  "check_lease l =
     ensure (starts_with ''/'' (ol_private_socket l)) (helper_reject ''private_socket_not_absolute'')
    (ensure (py_len (ol_owner_context_sha256 l) = 64) (helper_reject ''owner_context_sha256'')
    (Inr l))"

definition register_owner_connection :: "owner_lease \<Rightarrow> owner_lease result" where
  "register_owner_connection l =
     ensure (\<not> ol_closed l) (helper_reject ''lease_closed'') (Inr (l\<lparr>ol_owner_registered := True\<rparr>))"

text \<open>What \<open>lstat\<close> says about the socket path.\<close>

datatype path_kind = Missing | Symlink | Socket | OtherFile | Unreadable

definition expected_grant :: "owner_lease \<Rightarrow> helper_identity \<Rightarrow> (string \<times> json) list" where
  "expected_grant l i =
    [(''role'', JStr ''owner-helper''), (''profile_id'', JStr (ol_profile_id l)),
     (''owner_context_sha256'', JStr (ol_owner_context_sha256 l)), (''lease_id'', JStr (ol_lease_id l)),
     (''owner_connection_id'', JStr (ol_owner_connection_id l)), (''owner_epoch'', JInt (ol_owner_epoch l)),
     (''owner_thread_id'', JStr (ol_owner_thread_id l)), (''private_socket'', JStr (ol_private_socket l)),
     (''helper_pid'', JInt (hi_pid i)), (''helper_uid'', JInt (hi_uid i)), (''helper_birth'', JStr (hi_birth i)),
     (''helper_executable'', JStr (hi_executable i)), (''helper_executable_sha256'', JStr (hi_executable_sha256 i)),
     (''helper_source_sha256'', JStr (hi_source_sha256 i))]"

definition validate_grant :: "(string \<Rightarrow> path_kind) \<Rightarrow> owner_lease \<Rightarrow> helper_grant \<Rightarrow> helper_identity \<Rightarrow> unit result" where
  "validate_grant lstat l grant i =
     ensure (\<not> ol_closed l) (helper_reject ''lease_closed'')
    (ensure (dget grant ''version'' = JInt 1) (helper_reject ''grant_version'')
    (andThen (for_each (\<lambda>(key, v). ensure (py_eq (dget grant key) v) (helper_reject (''grant_'' @ key)) (Inr ()))
        (expected_grant l i)) (\<lambda>_.
     ensure (case ol_helper_identity l of None \<Rightarrow> True | Some h \<Rightarrow> i = h) (helper_reject ''helper_identity'')
    (case lstat (ol_private_socket l) of
        Missing \<Rightarrow> Inl (helper_reject ''private_socket_missing'')
      | Unreadable \<Rightarrow> os_error
      | Symlink \<Rightarrow> Inl (helper_reject ''private_socket_symlink'')
      | OtherFile \<Rightarrow> Inl (helper_reject ''private_socket_not_socket'')
      | Socket \<Rightarrow> Inr ()))))"

text \<open>
  \<open>open_helper_transport\<close> and \<open>open_helper\<close>: the grant is checked, then the connection is awaited,
  then it is added to the lease. The last part runs when the awaited connection is there.
\<close>

definition attach_helper :: "helper_conn \<Rightarrow> owner_lease \<Rightarrow> owner_lease" where
  "attach_helper c l = l\<lparr>ol_helpers := ol_helpers l @ [c]\<rparr>"

definition open_helper_transport ::
  "(string \<Rightarrow> path_kind) \<Rightarrow> (string \<Rightarrow> string option) \<Rightarrow> owner_lease \<Rightarrow> helper_grant \<Rightarrow> helper_identity \<Rightarrow> (helper_conn \<times> owner_lease) result" where
  "open_helper_transport lstat connect l grant i =
     andThen (validate_grant lstat l grant i) (\<lambda>_.
     case connect (ol_private_socket l) of
       None \<Rightarrow> os_error
     | Some stream \<Rightarrow> let c = new_conn (ol_lease_id l) (ol_owner_thread_id l) stream in Inr (c, attach_helper c l))"

definition open_helper ::
  "(string \<Rightarrow> path_kind) \<Rightarrow> (string \<Rightarrow> string option) \<Rightarrow> string \<Rightarrow> owner_lease \<Rightarrow> helper_grant \<Rightarrow> helper_identity \<Rightarrow> (helper_conn \<times> owner_lease) result" where
  "open_helper lstat connect expected l grant i =
     andThen (validate_grant lstat l grant i) (\<lambda>_.
     case connect (ol_private_socket l) of
       None \<Rightarrow> os_error
     | Some stream \<Rightarrow> andThen (open_websocket expected stream) (\<lambda>rest.
         let c = new_conn (ol_lease_id l) (ol_owner_thread_id l) rest in Inr (c, attach_helper c l)))"

definition owner_closed :: "owner_lease \<Rightarrow> owner_lease" where
  "owner_closed l = l\<lparr>ol_closed := True, ol_helpers := map (\<lambda>c. c\<lparr>hc_writer_closed := True\<rparr>) (ol_helpers l)\<rparr>"

text \<open>\<open>close\<close>: the helpers leave the list and each is closed.\<close>

definition close_lease :: "owner_lease \<Rightarrow> helper_conn list \<times> owner_lease" where
  "close_lease l = (map close_conn (ol_helpers l), l\<lparr>ol_closed := True, ol_helpers := []\<rparr>)"

section \<open>Requests and answers of a connection\<close>

text \<open>
  Any order of writes, ends of writes, reads and closes by the tasks that share the connection,
  with the requests that were written and the messages that were returned.
\<close>

inductive conn_run :: "platform \<Rightarrow> helper_conn \<Rightarrow> wire_event list \<Rightarrow> helper_conn \<Rightarrow> bool" for E c0 where
  start: "conn_run E c0 [] c0"
| written: "conn_run E c0 es c \<Longrightarrow> send_write E mkey m c = (Inr rid, c') \<Longrightarrow>
    conn_run E c0 (es @ (case rid of None \<Rightarrow> [Passed] | Some i \<Rightarrow> [Asked i])) c'"
| refused: "conn_run E c0 es c \<Longrightarrow> send_write E mkey m c = (Inl e, c') \<Longrightarrow> conn_run E c0 es c'"
| drained: "conn_run E c0 es c \<Longrightarrow> send_drained ok rid c = (r, c') \<Longrightarrow> conn_run E c0 es c'"
| returned: "conn_run E c0 es c \<Longrightarrow> read_rpc E c = (Inr m, c') \<Longrightarrow> conn_run E c0 (es @ [event_of True m]) c'"
| rejected: "conn_run E c0 es c \<Longrightarrow> read_rpc E c = (Inl e, c') \<Longrightarrow> conn_run E c0 es c'"
| closing: "conn_run E c0 es c \<Longrightarrow> conn_run E c0 es (close_conn c)"

definition in_flight :: "helper_conn \<Rightarrow> int \<Rightarrow> nat" where
  "in_flight c i = (if i \<in> set (hc_pending c) then 1 else 0)"

lemma send_write_pending:
  "send_write E mkey m c = (Inr rid, c') \<Longrightarrow>
     (case rid of None \<Rightarrow> hc_pending c' = hc_pending c | Some j \<Rightarrow> hc_pending c' = j # hc_pending c)"
  by (auto simp: send_write_def Let_def split: if_splits sum.splits option.splits)

lemma send_write_refused: "send_write E mkey m c = (Inl e, c') \<Longrightarrow> c' = c"
  by (auto simp: send_write_def Let_def split: if_splits sum.splits)

lemma read_rpc_pending:
  assumes "read_rpc E c = (r, c')"
  shows "case r of Inl _ \<Rightarrow> hc_pending c' = hc_pending c
    | Inr m \<Rightarrow> pairing (set (hc_pending c)) [event_of True m] = Some (set (hc_pending c'))"
  using assms by (auto simp: read_rpc_def event_of_def Let_def split: if_splits sum.splits prod.splits)

text \<open>
  Whatever the order in which the tasks of a connection run, a connection never returns more
  answers for an identifier than requests were written with it; an identifier in flight has a
  request that was not answered.
\<close>

theorem helper_answers_were_asked:
  assumes "conn_run E (new_conn lease owner input) es c"
  shows "count_list es (Answered i) + in_flight c i \<le> count_list es (Asked i)"
  using assms
proof induction
  case start
  then show ?case by (simp add: in_flight_def new_conn_def)
next
  case (written es c mkey m rid c')
  then show ?case using send_write_pending [OF written.hyps(2)] by (cases rid) (auto simp: in_flight_def)
next
  case (refused es c mkey m e c')
  with send_write_refused [OF refused.hyps(2)] show ?case by simp
next
  case (drained es c ok rid r c')
  then have "set (hc_pending c') \<subseteq> set (hc_pending c)" by (auto simp: send_drained_def split: if_splits option.splits)
  with drained.IH show ?case by (auto simp: in_flight_def split: if_splits)
next
  case (returned es c m c')
  from read_rpc_pending [OF returned.hyps(2)] pairing_counts [of "set (hc_pending c)" "[event_of True m]" "set (hc_pending c')" i]
    returned.IH show ?case by (auto simp: in_flight_def)
next
  case (rejected es c e c')
  then show ?case using read_rpc_pending by (fastforce simp: in_flight_def)
next
  case (closing es c)
  then show ?case by (simp add: in_flight_def close_conn_def split: if_splits)
qed

section \<open>Grants\<close>

lemma validate_grant_ok:
  "validate_grant lstat l grant i = Inr u \<longleftrightarrow> \<not> ol_closed l \<and> dget grant ''version'' = JInt 1
     \<and> (\<forall>(key, v) \<in> set (expected_grant l i). py_eq (dget grant key) v)
     \<and> (case ol_helper_identity l of None \<Rightarrow> True | Some h \<Rightarrow> i = h) \<and> lstat (ol_private_socket l) = Socket"
  by (cases "lstat (ol_private_socket l)") (auto simp: validate_grant_def)

lemma py_eq_int_unique: "py_eq v (JInt i) \<Longrightarrow> py_eq v (JInt j) \<Longrightarrow> i = j"
  by (cases v) auto

text \<open>
  A grant binds one lease and one helper process: if it is accepted for two of them, the
  profile, the context, the lease, the connection, the epoch, the thread and the socket agree, and
  so do the process, its executable and its sources. No closed lease accepts a grant.
\<close>

theorem grant_binds_lease_and_helper:
  assumes "validate_grant lstat l grant i = Inr u" and "validate_grant lstat' l' grant i' = Inr u'"
  shows "i = i' \<and> ol_profile_id l = ol_profile_id l' \<and> ol_owner_context_sha256 l = ol_owner_context_sha256 l'
    \<and> ol_lease_id l = ol_lease_id l' \<and> ol_owner_connection_id l = ol_owner_connection_id l'
    \<and> ol_owner_epoch l = ol_owner_epoch l' \<and> ol_owner_thread_id l = ol_owner_thread_id l'
    \<and> ol_private_socket l = ol_private_socket l' \<and> \<not> ol_closed l"
proof -
  note a = assms [unfolded validate_grant_ok expected_grant_def]
  from a have "hi_pid i = hi_pid i'" "hi_uid i = hi_uid i'" "ol_owner_epoch l = ol_owner_epoch l'"
    by (auto simp del: py_eq.simps intro: py_eq_int_unique)
  moreover from a have "hi_birth i = hi_birth i'" "hi_executable i = hi_executable i'"
    "hi_executable_sha256 i = hi_executable_sha256 i'" "hi_source_sha256 i = hi_source_sha256 i'" by simp_all
  ultimately have "i = i'" by (cases i; cases i') simp
  with a \<open>ol_owner_epoch l = ol_owner_epoch l'\<close> show ?thesis by simp
qed

section \<open>The life of a lease\<close>

text \<open>
  The tasks of one lease: a helper is admitted, its connection is awaited and then attached or
  fails; the owner registers or goes away; the service closes the lease. \<open>opening\<close> counts the
  admitted helpers whose connection is still awaited.
\<close>

record lease_state =
  ls_lease :: owner_lease
  ls_opening :: nat

inductive lease_step :: "lease_state \<Rightarrow> lease_state \<Rightarrow> bool" where
  admit: "validate_grant lstat (ls_lease s) grant i = Inr () \<Longrightarrow> lease_step s (s\<lparr>ls_opening := Suc (ls_opening s)\<rparr>)"
| attach: "ls_opening s = Suc n \<Longrightarrow>
    lease_step s \<lparr>ls_lease = attach_helper (new_conn (ol_lease_id (ls_lease s)) (ol_owner_thread_id (ls_lease s)) stream) (ls_lease s),
      ls_opening = n\<rparr>"
| fail: "ls_opening s = Suc n \<Longrightarrow> lease_step s (s\<lparr>ls_opening := n\<rparr>)"
| register: "register_owner_connection (ls_lease s) = Inr l \<Longrightarrow> lease_step s (s\<lparr>ls_lease := l\<rparr>)"
| owner_gone: "lease_step s (s\<lparr>ls_lease := owner_closed (ls_lease s)\<rparr>)"
| service_close: "lease_step s (s\<lparr>ls_lease := snd (close_lease (ls_lease s))\<rparr>)"

inductive_cases lease_step_elim: "lease_step s s'"

inductive lease_steps :: "lease_state \<Rightarrow> lease_state \<Rightarrow> bool" where
  none: "lease_steps s s"
| more_steps: "lease_steps s t \<Longrightarrow> lease_step t u \<Longrightarrow> lease_steps s u"

definition live_helpers :: "owner_lease \<Rightarrow> nat" where
  "live_helpers l = length (filter (\<lambda>c. \<not> hc_writer_closed c) (ol_helpers l))"

lemma live_after_owner_closed [simp]: "live_helpers (owner_closed l) = 0" "ol_closed (owner_closed l)"
  by (simp_all add: live_helpers_def owner_closed_def filter_empty_conv)

lemma live_after_close [simp]: "live_helpers (snd (close_lease l)) = 0" "ol_closed (snd (close_lease l))"
  by (simp_all add: live_helpers_def close_lease_def)

lemma live_attach [simp]: "live_helpers (attach_helper (new_conn a b c) l) = Suc (live_helpers l)"
  by (simp add: live_helpers_def attach_helper_def new_conn_def)

lemma closed_step:
  assumes "lease_step s t" and "ol_closed (ls_lease s)"
  shows "ol_closed (ls_lease t) \<and> live_helpers (ls_lease t) + ls_opening t \<le> live_helpers (ls_lease s) + ls_opening s"
  using assms
proof cases
  case (admit lstat grant i)
  with assms(2) show ?thesis by (simp add: validate_grant_ok)
next
  case (attach n stream)
  with assms(2) show ?thesis by (simp add: attach_helper_def [of _ "ls_lease s"] live_helpers_def new_conn_def)
next
  case (register l)
  with assms(2) show ?thesis by (simp add: register_owner_connection_def)
qed (use assms(2) in auto)

text \<open>
  A closed lease stays closed, and after it is closed helpers can only become live from those
  that were admitted before: their number never exceeds the live ones and the ones being opened at
  the moment of closing.
\<close>

theorem closed_lease_admits_nobody:
  assumes "lease_steps s t" and "ol_closed (ls_lease s)"
  shows "ol_closed (ls_lease t) \<and> live_helpers (ls_lease t) + ls_opening t \<le> live_helpers (ls_lease s) + ls_opening s"
  using assms
proof induction
  case (more_steps s t u)
  with closed_step [OF more_steps.hyps(2)] show ?case by simp
qed simp

section \<open>Samples\<close>

definition sample_identity :: helper_identity where
  "sample_identity = \<lparr>hi_pid = 77, hi_uid = 501, hi_birth = ''b1'', hi_executable = ''/usr/bin/python3'',
     hi_executable_sha256 = sample_digest, hi_source_sha256 = sample_digest\<rparr>"

definition sample_lease :: owner_lease where
  "sample_lease = \<lparr>ol_profile_id = ''p1'', ol_owner_context_sha256 = sample_digest, ol_lease_id = ''lease-1'',
     ol_owner_connection_id = ''conn-1'', ol_owner_epoch = 3, ol_owner_thread_id = ''owner'', ol_private_socket = ''/private/s'',
     ol_backend_pid = 60, ol_backend_birth = ''b0'', ol_helper_identity = None, ol_closed = False, ol_owner_registered = True,
     ol_helpers = []\<rparr>"

definition sample_grant :: helper_grant where
  "sample_grant = (''version'', JInt 1) # expected_grant sample_lease sample_identity"

lemma sample_grant_valid: "validate_grant (\<lambda>_. Socket) sample_lease sample_grant sample_identity = Inr ()"
  by code_simp

text \<open>
  The check of a grant and the attachment of the connection are not one step: when the owner
  goes away while the connection is awaited, the helper is attached to the closed lease with an
  open writer.
\<close>

theorem helper_attached_after_close:
  "\<exists>t. lease_steps \<lparr>ls_lease = sample_lease, ls_opening = 0\<rparr> t \<and> ol_closed (ls_lease t) \<and> live_helpers (ls_lease t) = 1"
proof -
  let ?s0 = "\<lparr>ls_lease = sample_lease, ls_opening = 0\<rparr>"
  let ?s1 = "?s0\<lparr>ls_opening := 1\<rparr>" and ?l = "owner_closed sample_lease"
  let ?s2 = "?s1\<lparr>ls_lease := ?l\<rparr>"
  let ?s3 = "\<lparr>ls_lease = attach_helper (new_conn (ol_lease_id ?l) (ol_owner_thread_id ?l) []) ?l, ls_opening = 0\<rparr>"
  have "lease_step ?s0 ?s1" using lease_step.admit [of "\<lambda>_. Socket" ?s0 sample_grant sample_identity] sample_grant_valid by simp
  moreover have "lease_step ?s1 ?s2" using lease_step.owner_gone [of ?s1] by simp
  moreover have "lease_step ?s2 ?s3" using lease_step.attach [of ?s2 0 "[]"] by simp
  ultimately have "lease_steps ?s0 ?s3" by (meson lease_steps.intros)
  moreover have "ol_closed (ls_lease ?s3)" "live_helpers (ls_lease ?s3) = 1"
    by (simp_all add: attach_helper_def live_helpers_def owner_closed_def sample_lease_def new_conn_def)
  ultimately show ?thesis by blast
qed

theorem grant_binds_lease_and_helper_witness: "sample_identity = sample_identity \<and> \<not> ol_closed sample_lease"
  using grant_binds_lease_and_helper [OF sample_grant_valid sample_grant_valid] by simp

theorem closed_lease_admits_nobody_witness:
  "live_helpers (ls_lease \<lparr>ls_lease = owner_closed sample_lease, ls_opening = 2\<rparr>) + 2 \<le> 0 + 2"
  using closed_lease_admits_nobody [OF lease_steps.none, of "\<lparr>ls_lease = owner_closed sample_lease, ls_opening = 2\<rparr>"] by simp

lemma sample_written:
  "conn_run sample_platform (new_conn ''lease-1'' ''owner'' []) ([] @ [Asked 5])
     (snd (send_write sample_platform ''abcd'' sample_turn_start (new_conn ''lease-1'' ''owner'' [])))"
proof -
  have "fst (send_write sample_platform ''abcd'' sample_turn_start (new_conn ''lease-1'' ''owner'' [])) = Inr (Some 5)"
    by code_simp
  then have "send_write sample_platform ''abcd'' sample_turn_start (new_conn ''lease-1'' ''owner'' []) =
      (Inr (Some 5), snd (send_write sample_platform ''abcd'' sample_turn_start (new_conn ''lease-1'' ''owner'' [])))"
    by (metis prod.collapse)
  from conn_run.written [OF conn_run.start this] show ?thesis by simp
qed

theorem helper_answers_were_asked_witness:
  "in_flight (snd (send_write sample_platform ''abcd'' sample_turn_start (new_conn ''lease-1'' ''owner'' []))) 5 \<le> 1"
  using helper_answers_were_asked [OF sample_written, of 5] by simp

end
