(* ===== verification/JsonScan.thy ===== *)
theory JsonScan
  imports JsonText "HOL-Library.Multiset"
begin

text \<open>
  \<open>json.loads\<close> as a function on the text: a recursive-descent scanner with the grammar of the
  standard library (white space, literals, numbers, strings with escapes, arrays, objects with all
  their members, the three non-finite constants), and the round trip with \<open>json.dumps\<close>. The
  operations of the program take the scanner as part of their platform; this one shows that what
  they rely on holds for the real one.
\<close>

section \<open>Strings\<close>

definition ws_chars :: string where
  "ws_chars = [CHR '' '', CHR 0x09, CHR 0x0A, CHR 0x0D]"

definition skip_ws :: "string \<Rightarrow> string" where
  "skip_ws s = dropWhile (\<lambda>c. c \<in> set ws_chars) s"

definition hex_value :: "char \<Rightarrow> nat option" where
  "hex_value c =
    (if in_range CHR ''0'' CHR ''9'' c then Some (of_char c - 48)
     else if in_range CHR ''a'' CHR ''f'' c then Some (of_char c - 87)
     else if in_range CHR ''A'' CHR ''F'' c then Some (of_char c - 55)
     else None)"

definition hex4 :: "char \<Rightarrow> char \<Rightarrow> char \<Rightarrow> char \<Rightarrow> nat option" where
  "hex4 a b c d = (case (hex_value a, hex_value b, hex_value c, hex_value d) of
      (Some i, Some j, Some k, Some l) \<Rightarrow> Some (i * 4096 + j * 256 + k * 16 + l)
    | _ \<Rightarrow> None)"

definition simple_escape :: "char \<Rightarrow> char option" where
  "simple_escape e =
    (if e \<in> {CHR 0x22, CHR 0x5C, CHR ''/''} then Some e
     else if e = CHR ''n'' then Some (CHR 0x0A) else if e = CHR ''r'' then Some (CHR 0x0D)
     else if e = CHR ''t'' then Some (CHR 0x09) else if e = CHR ''f'' then Some (CHR 0x0C)
     else if e = CHR ''b'' then Some (CHR 0x08) else None)"

text \<open>
  The content of a string up to its closing quote: bytes of the text, and code units written as
  escapes.
\<close>

fun scan_units :: "string \<Rightarrow> ((char + nat) list \<times> string) option" where
  "scan_units [] = None"
| "scan_units (c # cs) =
    (if c = CHR 0x22 then Some ([], cs)
     else if c = CHR 0x5C then
       (case cs of
          [] \<Rightarrow> None
        | e # r \<Rightarrow>
            if e = CHR ''u'' then
              (case r of
                 h1 # h2 # h3 # h4 # r' \<Rightarrow>
                   (case hex4 h1 h2 h3 h4 of
                      None \<Rightarrow> None
                    | Some n \<Rightarrow> map_option (\<lambda>(us, t). (Inr n # us, t)) (scan_units r'))
               | _ \<Rightarrow> None)
            else
              (case simple_escape e of
                 None \<Rightarrow> None
               | Some x \<Rightarrow> map_option (\<lambda>(us, t). (Inl x # us, t)) (scan_units r)))
     else if (of_char c :: nat) < 32 then None
     else map_option (\<lambda>(us, t). (Inl c # us, t)) (scan_units cs))"

text \<open>UTF-8; a lone surrogate is encoded like any other code point.\<close>

definition utf8 :: "nat \<Rightarrow> string" where
  "utf8 n =
    (if n < 128 then [char_of n]
     else if n < 2048 then [char_of (192 + n div 64), char_of (128 + n mod 64)]
     else if n < 65536 then [char_of (224 + n div 4096), char_of (128 + n div 64 mod 64), char_of (128 + n mod 64)]
     else [char_of (240 + n div 262144), char_of (128 + n div 4096 mod 64), char_of (128 + n div 64 mod 64), char_of (128 + n mod 64)])"

fun encode_units :: "(char + nat) list \<Rightarrow> string" where
  "encode_units [] = []"
| "encode_units (Inl c # us) = c # encode_units us"
| "encode_units (Inr n # us) =
    (case us of
       Inr m # vs \<Rightarrow>
         if 55296 \<le> n \<and> n < 56320 \<and> 56320 \<le> m \<and> m < 57344
         then utf8 (65536 + (n - 55296) * 1024 + (m - 56320)) @ encode_units vs
         else utf8 n @ encode_units us
     | _ \<Rightarrow> utf8 n @ encode_units us)"

definition scan_string :: "string \<Rightarrow> (string \<times> string) option" where
  "scan_string s = map_option (\<lambda>(us, t). (encode_units us, t)) (scan_units s)"

section \<open>Numbers\<close>

definition is_digit :: "char \<Rightarrow> bool" where
  "is_digit c = in_range CHR ''0'' CHR ''9'' c"

definition digits_value :: "string \<Rightarrow> nat" where
  "digits_value ds = foldl (\<lambda>n c. n * 10 + (of_char c - 48)) 0 ds"

text \<open>The fraction and the exponent that may follow the integer part.\<close>

definition scan_fraction :: "string \<Rightarrow> string \<times> string" where
  "scan_fraction s = (case s of
      c # r \<Rightarrow> (let ds = takeWhile is_digit r in if c = CHR ''.'' \<and> ds \<noteq> [] then (ds, drop (length ds) r) else ([], s))
    | [] \<Rightarrow> ([], s))"

definition scan_exponent :: "string \<Rightarrow> int option \<times> string" where
  "scan_exponent s = (case s of
      c # r \<Rightarrow>
        if c = CHR ''e'' \<or> c = CHR ''E'' then
          let sg = (case r of x # _ \<Rightarrow> x = CHR ''-'' \<or> x = CHR ''+'' | [] \<Rightarrow> False);
              neg = (case r of x # _ \<Rightarrow> x = CHR ''-'' | [] \<Rightarrow> False);
              r1 = (if sg then tl r else r); ds = takeWhile is_digit r1
          in if ds = [] then (None, s)
             else (Some (if neg then - int (digits_value ds) else int (digits_value ds)), drop (length ds) r1)
        else (None, s)
    | [] \<Rightarrow> (None, s))"

definition ten_to :: "int \<Rightarrow> rat" where
  "ten_to e = (if 0 \<le> e then 10 ^ nat e else 1 / 10 ^ nat (- e))"

definition int_digits :: "string \<Rightarrow> string" where
  "int_digits s = (if starts_with ''0'' s then ''0'' else takeWhile is_digit s)"

definition scan_number :: "string \<Rightarrow> (json \<times> string) option" where
  "scan_number s =
    (let neg = starts_with ''-'' s;
         s1 = (if neg then tl s else s);
         ds = int_digits s1;
         sgn_of = (\<lambda>i. if neg then - i else i)
     in if ds = [] then None
        else let s2 = drop (length ds) s1; (fs, s3) = scan_fraction s2; (ex, s4) = scan_exponent s3
             in if fs = [] \<and> ex = None then Some (JInt (sgn_of (int (digits_value ds))), s2)
                else Some (JFloat (rat_of_int (sgn_of (int (digits_value (ds @ fs))))
                       * ten_to ((case ex of None \<Rightarrow> 0 | Some e \<Rightarrow> e) - int (length fs))), s4))"

section \<open>Values\<close>

fun expect :: "string \<Rightarrow> json \<Rightarrow> string \<Rightarrow> (json \<times> string) option" where
  "expect w v s = (if starts_with w s then Some (v, drop (length w) s) else None)"

text \<open>
  Every call takes at least one character, so the length of the text is enough fuel; the mutual
  recursion is on the fuel.
\<close>

fun scan_value :: "nat \<Rightarrow> string \<Rightarrow> (json \<times> string) option"
  and scan_items :: "nat \<Rightarrow> string \<Rightarrow> (json list \<times> string) option"
  and scan_pairs :: "nat \<Rightarrow> string \<Rightarrow> ((string \<times> json) list \<times> string) option" where
  "scan_value 0 s = None"
| "scan_value (Suc n) s = (case s of
      [] \<Rightarrow> None
    | c # cs \<Rightarrow>
        if c = CHR 0x22 then map_option (\<lambda>(t, r). (JStr t, r)) (scan_string cs)
        else if c = CHR ''{'' then
          (let r = skip_ws cs in
           if starts_with ''}'' r then Some (JObj [], tl r) else map_option (\<lambda>(d, r'). (JObj d, r')) (scan_pairs n r))
        else if c = CHR ''['' then
          (let r = skip_ws cs in
           if starts_with '']'' r then Some (JArr [], tl r) else map_option (\<lambda>(xs, r'). (JArr xs, r')) (scan_items n r))
        else if c = CHR ''n'' then expect ''null'' JNull s
        else if c = CHR ''t'' then expect ''true'' (JBool True) s
        else if c = CHR ''f'' then expect ''false'' (JBool False) s
        else if c = CHR ''N'' then expect ''NaN'' (JConst ''NaN'') s
        else if c = CHR ''I'' then expect ''Infinity'' (JConst ''Infinity'') s
        else if starts_with ''-Infinity'' s then Some (JConst ''-Infinity'', drop 9 s)
        else scan_number s)"
| "scan_items 0 s = None"
| "scan_items (Suc n) s = (case scan_value n s of
      None \<Rightarrow> None
    | Some (v, r) \<Rightarrow> (case skip_ws r of
         [] \<Rightarrow> None
       | c # r' \<Rightarrow>
           if c = CHR '','' then map_option (\<lambda>(vs, t). (v # vs, t)) (scan_items n (skip_ws r'))
           else if c = CHR '']'' then Some ([v], r') else None))"
| "scan_pairs 0 s = None"
| "scan_pairs (Suc n) s = (case s of
      [] \<Rightarrow> None
    | c # cs \<Rightarrow>
        if c \<noteq> CHR 0x22 then None
        else case scan_string cs of
            None \<Rightarrow> None
          | Some (k, r) \<Rightarrow>
              if \<not> starts_with '':'' (skip_ws r) then None
              else case scan_value n (skip_ws (tl (skip_ws r))) of
                  None \<Rightarrow> None
                | Some (v, r1) \<Rightarrow> (case skip_ws r1 of
                     [] \<Rightarrow> None
                   | c1 # r2 \<Rightarrow>
                       if c1 = CHR '','' then map_option (\<lambda>(ps, t). ((k, v) # ps, t)) (scan_pairs n (skip_ws r2))
                       else if c1 = CHR ''}'' then Some ([(k, v)], r2) else None))"

definition json_scan :: "string \<Rightarrow> json option" where
  "json_scan text = (case scan_value (length text + 1) (skip_ws text) of
      None \<Rightarrow> None
    | Some (v, rest) \<Rightarrow> if skip_ws rest = [] then Some v else None)"

section \<open>Reading back what was written\<close>

text \<open>Values without floating-point numbers, and the order in which sorted keys come back.\<close>

fun plain :: "json \<Rightarrow> bool" where
  "plain (JFloat q) = False"
| "plain (JConst c) = False"
| "plain (JArr xs) = list_all plain xs"
| "plain (JObj d) = list_all (\<lambda>(k, v). plain v) d"
| "plain v = True"

fun sort_keys :: "json \<Rightarrow> json" where
  "sort_keys (JArr xs) = JArr (map sort_keys xs)"
| "sort_keys (JObj d) = JObj (sort_key fst (map (\<lambda>(k, v). (k, sort_keys v)) d))"
| "sort_keys v = v"

lemma insort_key_map: "(\<And>x. fst (f x) = fst x) \<Longrightarrow> insort_key fst (f x) (map f xs) = map f (insort_key fst x xs)"
  by (induction xs) simp_all

lemma sort_key_map: "(\<And>x. fst (f x) = fst x) \<Longrightarrow> sort_key fst (map f xs) = map f (sort_key fst xs)"
  by (induction xs) (simp_all add: insort_key_map)

lemma dumps_sort_keys: "dumps a True E v = dumps a False E (sort_keys v)"
proof (induction v rule: sort_keys.induct)
  case (1 xs)
  have "map (dumps a True E) xs = map (dumps a False E) (map sort_keys xs)" using "1.IH" by simp
  then show ?case by (simp del: map_map)
next
  case (2 d)
  have "map (\<lambda>(k, v). (k, dumps a True E v)) d = map (\<lambda>(k, v). (k, dumps a False E v)) (map (\<lambda>(k, v). (k, sort_keys v)) d)"
    using "2.IH" by fastforce
  then show ?case by (simp add: sort_key_map case_prod_beta del: map_map)
qed simp_all

lemma plain_sort_keys [simp]: "plain (sort_keys v) = plain v"
  by (induction v rule: sort_keys.induct) (auto simp: list_all_iff)

subsection \<open>Strings\<close>

lemma hex_value_digit: "n < 16 \<Longrightarrow> hex_value (hex_digit n) = Some n"
proof -
  have "list_all (\<lambda>n. hex_value (hex_digit n) = Some n) [0..<16]" by code_simp
  moreover assume "n < 16"
  ultimately show ?thesis by (simp add: list_all_iff)
qed

definition unit_of :: "char \<Rightarrow> char + nat" where
  "unit_of c = (if (of_char c :: nat) < 32 \<and> c \<notin> {CHR 0x0A, CHR 0x0D, CHR 0x09, CHR 0x0C, CHR 0x08} then Inr (of_char c) else Inl c)"

lemma scan_units_u:
  assumes "n < 65536"
  shows "scan_units (u_escape n @ t) = map_option (\<lambda>(us, r). (Inr n # us, r)) (scan_units t)"
proof -
  have "n div 256 = n div 16 div 16" "n div 4096 = n div 16 div 16 div 16" by (simp_all flip: div_mult2_eq)
  moreover have "n div 16 div 16 div 16 < 16" using assms by (simp flip: div_mult2_eq)
  ultimately have "n div 4096 mod 16 * 4096 + n div 256 mod 16 * 256 + n div 16 mod 16 * 16 + n mod 16 = n"
    using div_mult_mod_eq [of n 16] div_mult_mod_eq [of "n div 16" 16] div_mult_mod_eq [of "n div 16 div 16" 16]
    by (simp only: mod_less)
  then have "hex4 (hex_digit (n div 4096 mod 16)) (hex_digit (n div 256 mod 16)) (hex_digit (n div 16 mod 16)) (hex_digit (n mod 16)) = Some n"
    unfolding hex4_def by (simp only: hex_value_digit mod_less_divisor prod.case option.case zero_less_numeral)
  then show ?thesis unfolding u_escape_def by simp
qed

lemma scan_units_esc:
  "scan_units (esc_char c @ t) = map_option (\<lambda>(us, r). (unit_of c # us, r)) (scan_units t)"
proof (cases "(of_char c :: nat) < 32 \<and> c \<notin> {CHR 0x0A, CHR 0x0D, CHR 0x09, CHR 0x0C, CHR 0x08}")
  case True
  then have "c \<noteq> CHR 0x22" "c \<noteq> CHR 0x5C" by force+
  with True have "esc_char c = u_escape (of_char c)" unfolding esc_char_def by simp
  moreover have "unit_of c = Inr (of_char c)" using True unfolding unit_of_def by simp
  ultimately show ?thesis using True by (simp add: scan_units_u)
next
  case False
  then have u: "unit_of c = Inl c" unfolding unit_of_def by argo
  from False consider (special) "c \<in> {CHR 0x22, CHR 0x5C, CHR 0x0A, CHR 0x0D, CHR 0x09, CHR 0x0C, CHR 0x08}"
    | (ordinary) "\<not> (of_char c :: nat) < 32" "c \<noteq> CHR 0x22" "c \<noteq> CHR 0x5C" by blast
  then show ?thesis
  proof cases
    case special
    then show ?thesis unfolding u by (elim insertE) (simp_all add: esc_char_def simple_escape_def)
  next
    case ordinary
    then have "esc_char c = [c]" by (auto simp: esc_char_def)
    with ordinary show ?thesis by (simp add: u)
  qed
qed

lemma scan_units_quoted:
  "scan_units (concat (map esc_char s) @ CHR 0x22 # rest) = Some (map unit_of s, rest)"
  by (induction s) (simp_all add: scan_units_esc)

lemma encode_small: "n < 55296 \<Longrightarrow> encode_units (Inr n # us) = utf8 n @ encode_units us"
  by (simp split: list.splits sum.splits)

lemma encode_unit_of: "encode_units (map unit_of s) = s"
proof (induction s)
  case (Cons c s)
  show ?case
  proof (cases "unit_of c")
    case (Inl x)
    with Cons show ?thesis by (simp add: unit_of_def split: if_splits)
  next
    case (Inr n)
    then have "n = of_char c" "n < 32" by (simp_all add: unit_of_def split: if_splits)
    then have "encode_units (Inr n # map unit_of s) = utf8 n @ s" using Cons by (subst encode_small) simp_all
    with Inr \<open>n = of_char c\<close> \<open>n < 32\<close> show ?thesis by (simp del: encode_units.simps add: utf8_def)
  qed
qed simp

lemma scan_string_quoted:
  "scan_string (concat (map esc_char s) @ CHR 0x22 # rest) = Some (s, rest)"
  by (simp add: scan_string_def scan_units_quoted encode_unit_of)

subsection \<open>Numbers\<close>

text \<open>What may follow a value.\<close>

definition ends :: "string \<Rightarrow> bool" where
  "ends rest = (case rest of [] \<Rightarrow> True | c # _ \<Rightarrow> c \<in> {CHR '','', CHR '']'', CHR ''}'', CHR 0x0A})"

lemma digit_char: "d < 10 \<Longrightarrow> is_digit (char_of (48 + d)) \<and> (of_char (char_of (48 + d) :: char) :: nat) - 48 = d"
  by (simp add: is_digit_def in_range_def)

lemma show_nat_digits: "list_all is_digit (show_nat n) \<and> digits_value (show_nat n) = n \<and> show_nat n \<noteq> []"
proof (induction n rule: show_nat.induct)
  case (1 n)
  show ?case
  proof (cases "n < 10")
    case True
    with digit_char [OF True] show ?thesis by (simp add: show_nat.simps [of n] digits_value_def)
  next
    case False
    with "1.IH" digit_char [of "n mod 10"] show ?thesis
      by (simp add: show_nat.simps [of n] digits_value_def)
  qed
qed

lemma char_of_48_iff: "d < 10 \<Longrightarrow> (char_of (48 + d) :: char) = CHR ''0'' \<longleftrightarrow> d = (0 :: nat)"
proof
  assume "d < 10" "(char_of (48 + d) :: char) = CHR ''0''"
  then have "(of_char (char_of (48 + d) :: char) :: nat) = 48" by simp
  with \<open>d < 10\<close> show "d = 0" by simp
next
  assume "d = 0"
  moreover have "(char_of (48 :: nat) :: char) = CHR ''0''" by code_simp
  ultimately show "(char_of (48 + d) :: char) = CHR ''0''" by simp
qed

lemma show_nat_leading: "hd (show_nat n) = CHR ''0'' \<longleftrightarrow> n = 0"
proof (induction n rule: show_nat.induct)
  case (1 n)
  show ?case
  proof (cases "n < 10")
    case True
    then show ?thesis by (simp add: show_nat.simps [of n] char_of_48_iff)
  next
    case False
    then have "n div 10 \<noteq> 0" by simp
    with False "1.IH" show_nat_digits [of "n div 10"] show ?thesis
      by (simp add: show_nat.simps [of n])
  qed
qed

lemma ends_not_digit: "ends rest \<Longrightarrow> takeWhile is_digit rest = [] \<and> scan_fraction rest = ([], rest) \<and> scan_exponent rest = (None, rest)"
  by (cases rest) (auto simp: ends_def is_digit_def in_range_def scan_fraction_def scan_exponent_def)

lemma scan_number_int:
  assumes "ends rest"
  shows "scan_number (show_int i @ rest) = Some (JInt i, rest)"
proof -
  note stop = ends_not_digit [OF assms]
  obtain c cs where c: "show_nat (nat \<bar>i\<bar>) = c # cs" using show_nat_digits by (cases "show_nat (nat \<bar>i\<bar>)") auto
  have dig: "is_digit c" "list_all is_digit cs" "digits_value (c # cs) = nat \<bar>i\<bar>"
    using show_nat_digits [of "nat \<bar>i\<bar>"] c by simp_all
  have ds: "int_digits (c # cs @ rest) = c # cs"
  proof (cases "c = CHR ''0''")
    case True
    then have "i = 0" using show_nat_leading [of "nat \<bar>i\<bar>"] c by simp
    with c True show ?thesis by (simp add: show_nat.simps [of 0] int_digits_def starts_with_def)
  next
    case False
    with dig stop show ?thesis by (simp add: takeWhile_append2 list_all_iff int_digits_def starts_with_def)
  qed
  have minus: "\<not> starts_with ''-'' (c # cs @ rest)"
    using dig(1) by (auto simp: is_digit_def in_range_def starts_with_def)
  have tail: "scan_fraction rest = ([], rest)" "scan_exponent rest = (None, rest)" using stop by simp_all
  have abs: "show_nat (nat (- i)) = c # cs" if "i < 0" using c that by simp
  have pos: "show_nat (nat i) = c # cs" if "\<not> i < 0" using c that by simp
  show ?thesis
  proof (cases "i < 0")
    case True
    have "starts_with ''-'' (CHR ''-'' # c # cs @ rest)" by (simp add: starts_with_def)
    with True ds tail dig(3) show ?thesis by (simp add: scan_number_def show_int_def abs Let_def)
  next
    case False
    with minus ds tail dig(3) show ?thesis by (simp add: scan_number_def show_int_def pos Let_def)
  qed
qed

lemma show_int_first:
  obtains c cs where "show_int i = c # cs" "is_digit c \<or> (c = CHR ''-'' \<and> (\<exists>d ds. cs = d # ds \<and> is_digit d))"
proof -
  obtain d ds where d: "show_nat (nat \<bar>i\<bar>) = d # ds" "is_digit d"
    using show_nat_digits [of "nat \<bar>i\<bar>"] by (cases "show_nat (nat \<bar>i\<bar>)") auto
  show thesis
  proof (cases "i < 0")
    case True
    with d that [of "CHR ''-''" "d # ds"] show thesis by (simp add: show_int_def)
  next
    case False
    with d that [of d ds] show thesis by (simp add: show_int_def)
  qed
qed

subsection \<open>Values\<close>

abbreviation text_of :: "platform \<Rightarrow> json \<Rightarrow> string" where
  "text_of E v \<equiv> dumps False False E v"

definition reads_back :: "platform \<Rightarrow> json \<Rightarrow> bool" where
  "reads_back E v \<longleftrightarrow> (\<forall>n rest. ends rest \<longrightarrow> length (text_of E v) \<le> n \<longrightarrow> scan_value n (text_of E v @ rest) = Some (v, rest))"

lemma skip_ws_stop: "c \<notin> set ws_chars \<Longrightarrow> skip_ws (c # s) = c # s"
  by (simp add: skip_ws_def)

text \<open>The first character of a value and of a list of values.\<close>

definition value_start :: "char \<Rightarrow> bool" where
  "value_start c \<longleftrightarrow> c \<notin> set ws_chars \<and> c \<noteq> CHR '']'' \<and> c \<noteq> CHR ''}''"

lemma digit_start: "is_digit c \<Longrightarrow> value_start c"
  by (auto simp: is_digit_def in_range_def value_start_def ws_chars_def)

lemma text_of_start:
  assumes "plain v"
  obtains c cs where "text_of E v = c # cs" "value_start c"
proof (cases v)
  case (JInt i)
  obtain c cs where c: "show_int i = c # cs" "is_digit c \<or> (c = CHR ''-'' \<and> (\<exists>d ds. cs = d # ds \<and> is_digit d))"
    by (rule show_int_first)
  with JInt that digit_start show thesis by (auto simp: value_start_def ws_chars_def)
next
  case (JBool b)
  with that show thesis by (cases b) (simp_all add: value_start_def ws_chars_def)
qed (use assms that in \<open>simp_all add: quote_def value_start_def ws_chars_def\<close>)

lemma length_text_of: "plain v \<Longrightarrow> 0 < length (text_of E v)"
  by (metis length_greater_0_conv list.distinct(1) text_of_start)

lemma join_start:
  assumes "\<forall>t \<in> set ts. \<exists>c cs. t = c # cs \<and> value_start c" and "ts \<noteq> []"
  shows "\<exists>c cs. join sep ts = c # cs \<and> value_start c"
proof -
  from assms(2) obtain t ts' where ts: "ts = t # ts'" by (cases ts) auto
  with assms(1) obtain c cs where "t = c # cs" "value_start c" by auto
  with ts show ?thesis by (cases ts') auto
qed

lemma texts_start:
  assumes "\<forall>x \<in> set xs. plain x" and "xs \<noteq> []"
  shows "\<exists>c cs. join sep (map (text_of E) xs) = c # cs \<and> value_start c"
proof (rule join_start)
  show "\<forall>t \<in> set (map (text_of E) xs). \<exists>c cs. t = c # cs \<and> value_start c"
  proof
    fix t
    assume "t \<in> set (map (text_of E) xs)"
    then obtain x where "t = text_of E x" "plain x" using assms(1) by auto
    then show "\<exists>c cs. t = c # cs \<and> value_start c" by (metis text_of_start)
  qed
qed (use assms(2) in simp)

lemma scan_items_back:
  assumes "xs \<noteq> []" and "\<forall>x \<in> set xs. reads_back E x \<and> plain x" and "length (join '','' (map (text_of E) xs)) < n"
  shows "scan_items n (join '','' (map (text_of E) xs) @ CHR '']'' # rest) = Some (xs, rest)"
  using assms
proof (induction xs arbitrary: n)
  case (Cons x xs)
  obtain m where n: "n = Suc m" using Cons.prems(3) by (cases n) simp_all
  have x: "reads_back E x" "plain x" using Cons.prems(2) by simp_all
  show ?case
  proof (cases xs)
    case Nil
    have "scan_value m (text_of E x @ CHR '']'' # rest) = Some (x, CHR '']'' # rest)"
      using x(1) Cons.prems(3) Nil n by (simp add: reads_back_def ends_def)
    then show ?thesis using Nil n by (simp add: skip_ws_stop ws_chars_def)
  next
    case (Cons y ys)
    let ?t = "join '','' (map (text_of E) xs)"
    have len: "length (text_of E x) + 1 + length ?t < n" using Cons.prems(3) Cons by simp
    have "scan_value m (text_of E x @ CHR '','' # ?t @ CHR '']'' # rest) = Some (x, CHR '','' # ?t @ CHR '']'' # rest)"
      using x(1) len n by (simp add: reads_back_def ends_def)
    moreover have "scan_items m (?t @ CHR '']'' # rest) = Some (xs, rest)"
      using Cons.IH [of m] Cons.prems(2) Cons len n length_text_of [OF x(2), of E] by simp
    moreover have "\<exists>c cs. ?t = c # cs \<and> value_start c" using Cons.prems(2) Cons by (intro texts_start) simp_all
    then have "skip_ws (?t @ CHR '']'' # rest) = ?t @ CHR '']'' # rest" by (auto simp: skip_ws_stop value_start_def)
    moreover have "join '','' (map (text_of E) (x # xs)) = text_of E x @ '','' @ ?t" using Cons by simp
    ultimately show ?thesis using n by (simp add: skip_ws_stop ws_chars_def)
  qed
qed simp

definition member_text :: "platform \<Rightarrow> string \<times> json \<Rightarrow> string" where
  "member_text E m = quote False (fst m) @ '':'' @ text_of E (snd m)"

lemma text_of_obj: "text_of E (JObj d) = ''{'' @ join '','' (map (member_text E) d) @ ''}''"
  by (simp add: member_text_def [abs_def] comp_def case_prod_beta)

lemma scan_member:
  assumes "reads_back E v" and "plain v" and "ends r" and "length (text_of E v) \<le> n"
  shows "scan_pairs (Suc n) (member_text E (k, v) @ r) = (case skip_ws r of
      [] \<Rightarrow> None
    | c1 # r2 \<Rightarrow>
        if c1 = CHR '','' then map_option (\<lambda>(ps, t). ((k, v) # ps, t)) (scan_pairs n (skip_ws r2))
        else if c1 = CHR ''}'' then Some ([(k, v)], r2) else None)"
proof -
  obtain c cs where "text_of E v = c # cs" "value_start c" using assms(2) by (rule text_of_start)
  then have "skip_ws (text_of E v @ r) = text_of E v @ r" by (simp add: skip_ws_stop value_start_def)
  moreover have "scan_value n (text_of E v @ r) = Some (v, r)" using assms by (simp add: reads_back_def)
  ultimately show ?thesis
    by (simp add: member_text_def quote_def scan_string_quoted skip_ws_stop ws_chars_def starts_with_def)
qed

lemma scan_pairs_back:
  assumes "d \<noteq> []" and "\<forall>(k, v) \<in> set d. reads_back E v \<and> plain v" and "length (join '','' (map (member_text E) d)) < n"
  shows "scan_pairs n (join '','' (map (member_text E) d) @ CHR ''}'' # rest) = Some (d, rest)"
  using assms
proof (induction d arbitrary: n)
  case (Cons m d)
  obtain k v where m: "m = (k, v)" by (cases m)
  obtain n' where n: "n = Suc n'" using Cons.prems(3) by (cases n) simp_all
  have v: "reads_back E v" "plain v" using Cons.prems(2) m by simp_all
  have short: "length (text_of E v) < length (member_text E m)" using m by (simp add: member_text_def)
  show ?case
  proof (cases d)
    case Nil
    then have "length (text_of E v) \<le> n'" using Cons.prems(3) n short by simp
    with Nil n scan_member [OF v, of "CHR ''}'' # rest" n' k] m show ?thesis
      by (simp add: ends_def skip_ws_stop ws_chars_def)
  next
    case (Cons y ys)
    let ?t = "join '','' (map (member_text E) d)"
    have joined: "join '','' (map (member_text E) (m # d)) = member_text E m @ '','' @ ?t" using Cons by simp
    then have len: "length (member_text E m) + length ?t < n'" using Cons.prems(3) n by simp
    have "scan_pairs n' (?t @ CHR ''}'' # rest) = Some (d, rest)"
      using Cons.IH [of n'] Cons.prems(2) Cons len short by simp
    moreover have "skip_ws (?t @ CHR ''}'' # rest) = ?t @ CHR ''}'' # rest"
      using Cons by (cases ys) (simp_all add: member_text_def quote_def skip_ws_stop ws_chars_def)
    ultimately show ?thesis
      using scan_member [OF v, of "CHR '','' # ?t @ CHR ''}'' # rest" n' k] len short n m joined
      by (simp add: ends_def skip_ws_stop ws_chars_def)
  qed
qed simp

lemma scan_value_string: "reads_back E (JStr s)"
  unfolding reads_back_def
proof (intro allI impI)
  fix n rest
  assume "length (text_of E (JStr s)) \<le> n"
  then obtain m where "n = Suc m" by (cases n) (simp_all add: quote_def)
  then show "scan_value n (text_of E (JStr s) @ rest) = Some (JStr s, rest)"
    by (simp add: quote_def scan_string_quoted)
qed

lemma scan_value_int: "reads_back E (JInt i)"
  unfolding reads_back_def
proof (intro allI impI)
  fix n rest
  assume e: "ends rest" and len: "length (text_of E (JInt i)) \<le> n"
  obtain c cs where c: "show_int i = c # cs" "is_digit c \<or> (c = CHR ''-'' \<and> (\<exists>d ds. cs = d # ds \<and> is_digit d))"
    by (rule show_int_first)
  then obtain m where n: "n = Suc m" using len by (cases n) simp_all
  have "c \<notin> {CHR 0x22, CHR ''{'', CHR ''['', CHR ''n'', CHR ''t'', CHR ''f'', CHR ''N'', CHR ''I''}"
    using c(2) by (auto simp: is_digit_def in_range_def)
  moreover have "\<not> starts_with ''-Infinity'' (c # cs @ rest)"
    using c(2) by (auto simp: starts_with_def is_digit_def in_range_def)
  ultimately show "scan_value n (text_of E (JInt i) @ rest) = Some (JInt i, rest)"
    using scan_number_int [OF e, of i] c(1) n by simp
qed

lemma scan_value_literal: "reads_back E JNull" "reads_back E (JBool b)"
proof -
  have fuel: "\<exists>m. n = Suc m" if "0 < k" "k \<le> n" for k n :: nat using that by (cases n) simp_all
  show "reads_back E JNull" unfolding reads_back_def
    by (auto simp: starts_with_def dest!: fuel [rotated])
  show "reads_back E (JBool b)" unfolding reads_back_def
    by (cases b) (auto simp: starts_with_def dest!: fuel [rotated])
qed

lemma scan_value_arr:
  assumes "\<forall>x \<in> set xs. reads_back E x \<and> plain x"
  shows "reads_back E (JArr xs)"
  unfolding reads_back_def
proof (intro allI impI)
  fix n rest
  assume len: "length (text_of E (JArr xs)) \<le> n"
  let ?t = "join '','' (map (text_of E) xs)"
  obtain m where n: "n = Suc m" "length ?t < m" using len by (cases n) simp_all
  show "scan_value n (text_of E (JArr xs) @ rest) = Some (JArr xs, rest)"
  proof (cases "xs = []")
    case True
    with n show ?thesis by (simp add: skip_ws_stop ws_chars_def starts_with_def)
  next
    case False
    then obtain c cs where c: "?t = c # cs" "value_start c" using texts_start [of xs "'',''" E] assms by auto
    have "scan_items m (?t @ CHR '']'' # rest) = Some (xs, rest)" by (rule scan_items_back [OF False assms n(2)])
    with c n(1) show ?thesis by (simp add: skip_ws_stop starts_with_def value_start_def)
  qed
qed

lemma scan_value_obj:
  assumes "\<forall>(k, v) \<in> set d. reads_back E v \<and> plain v"
  shows "reads_back E (JObj d)"
  unfolding reads_back_def text_of_obj
proof (intro allI impI)
  fix n rest
  let ?t = "join '','' (map (member_text E) d)"
  assume len: "length (''{'' @ ?t @ ''}'') \<le> n"
  then obtain m where n: "n = Suc m" "length ?t < m" by (cases n) simp_all
  show "scan_value n ((''{'' @ ?t @ ''}'') @ rest) = Some (JObj d, rest)"
  proof (cases d)
    case Nil
    with n show ?thesis by (simp add: skip_ws_stop ws_chars_def starts_with_def)
  next
    case (Cons y ys)
    then obtain cs where c: "?t = CHR 0x22 # cs" by (cases ys) (simp_all add: member_text_def quote_def)
    have "scan_pairs m (?t @ CHR ''}'' # rest) = Some (d, rest)" by (rule scan_pairs_back [OF _ assms n(2)]) (simp add: Cons)
    with c n(1) show ?thesis by (simp add: skip_ws_stop ws_chars_def starts_with_def)
  qed
qed

lemma plain_reads_back: "plain v \<Longrightarrow> reads_back E v"
proof (induction v rule: plain.induct)
  case (3 xs)
  then show ?case by (intro scan_value_arr) (auto simp: list_all_iff)
next
  case (4 d)
  then show ?case by (intro scan_value_obj) (auto simp: list_all_iff)
qed (simp_all add: scan_value_string scan_value_int scan_value_literal)

lemma json_scan_text:
  assumes "plain v" and w: "w = [] \<or> w = [CHR 0x0A]"
  shows "json_scan (text_of E v @ w) = Some v"
proof -
  obtain c cs where c: "text_of E v = c # cs" "value_start c" using assms(1) by (rule text_of_start)
  then have "skip_ws (text_of E v @ w) = text_of E v @ w" by (simp add: skip_ws_stop value_start_def)
  moreover have "scan_value (length (text_of E v @ w) + 1) (text_of E v @ w) = Some (v, w)"
    by (rule plain_reads_back [OF assms(1), unfolded reads_back_def, rule_format]) (use w in \<open>auto simp: ends_def\<close>)
  ultimately show ?thesis using w by (auto simp del: scan_value.simps simp: json_scan_def skip_ws_def ws_chars_def)
qed

section \<open>What sorting the keys keeps\<close>

lemma keys_sorted:
  "distinct (map fst (sort_key fst (map (\<lambda>(k, v). (k, f v)) d))) \<longleftrightarrow> distinct (map fst d)"
proof -
  have "mset (map fst (sort_key fst (map (\<lambda>(k, v). (k, f v)) d))) = mset (map fst d)"
    by (simp add: case_prod_beta comp_def multiset.map_comp)
  then show ?thesis by (rule mset_eq_imp_distinct_iff)
qed

lemma wf_sort_keys [simp]: "wf_json (sort_keys v) = wf_json v"
proof (induction v rule: sort_keys.induct)
  case (2 d)
  then show ?case by (auto simp: list_all_iff keys_sorted simp del: map_map)
qed (auto simp: list_all_iff)

lemma no_const_sort_keys [simp]: "no_const (sort_keys v) = no_const v"
  by (induction v rule: sort_keys.induct) (auto simp: list_all_iff)

lemma sort_keys_twice [simp]: "sort_keys (sort_keys v) = sort_keys v"
proof (induction v rule: sort_keys.induct)
  case (2 d)
  let ?f = "\<lambda>(k, v). (k, sort_keys v)"
  have "map ?f (sort_key fst (map ?f d)) = sort_key fst (map ?f d)"
  proof (rule map_idI)
    fix m
    assume "m \<in> set (sort_key fst (map ?f d))"
    then obtain k v where "(k, v) \<in> set d" "m = (k, sort_keys v)" by auto
    with "2.IH" show "?f m = m" by auto
  qed
  moreover have "sort_key fst (sort_key fst (map ?f d)) = sort_key fst (map ?f d)"
    by (rule sort_key_id_if_sorted) simp
  ultimately show ?case by simp
qed (auto intro: map_idI)

lemma canonical_sort_keys [simp]: "canonical E (sort_keys v) = canonical E v"
  by (simp add: canonical_def dumps_sort_keys)

lemma map_of_sort_keys:
  assumes "distinct (map fst d)"
  shows "map_of (obj_of (sort_keys (JObj d))) k = map_option sort_keys (map_of d k)"
proof -
  let ?f = "\<lambda>(k, v). (k, sort_keys v)"
  have "map_of (sort_key fst (map ?f d)) = map_of (map ?f d)"
    using assms keys_sorted [of sort_keys d] by (subst map_of_inject_set) (simp_all add: comp_def case_prod_beta)
  then show ?thesis by (simp add: map_of_map)
qed

lemma dget_sort_keys:
  assumes "wf_json (JObj d)"
  shows "dget (obj_of (sort_keys (JObj d))) k = sort_keys (dget d k)"
  using assms map_of_sort_keys [of d k] by (simp add: dget_def split: option.splits)

lemma py_eq_sort_keys: "wf_json v \<Longrightarrow> no_const v \<Longrightarrow> py_eq (sort_keys v) v"
proof (induction v rule: sort_keys.induct)
  case (1 xs)
  then show ?case by (auto simp: list_all_iff set_zip)
next
  case (2 d)
  have "case map_of d k of None \<Rightarrow> False | Some y \<Rightarrow> py_eq x y" if "(k, x) \<in> set (obj_of (sort_keys (JObj d)))" for k x
  proof -
    from that obtain v where v: "(k, v) \<in> set d" "x = sort_keys v" by auto
    moreover have "map_of d k = Some v" using "2.prems" v(1) by simp
    moreover have "wf_json v" "no_const v" using "2.prems" v(1) by (auto simp: list_all_iff)
    ultimately show ?thesis using "2.IH" [OF v(1) refl] by simp
  qed
  then show ?case by (auto simp: list_all_iff keys_exact_def case_prod_beta image_image)
qed auto

lemma py_eq_sorted: "wf_json v \<Longrightarrow> no_const v \<Longrightarrow> py_eq v (sort_keys v)"
proof (induction v rule: sort_keys.induct)
  case (1 xs)
  then show ?case by (auto simp: list_all_iff set_zip)
next
  case (2 d)
  have "case map_of (obj_of (sort_keys (JObj d))) k of None \<Rightarrow> False | Some y \<Rightarrow> py_eq x y" if "(k, x) \<in> set d" for k x
  proof -
    have "map_of (obj_of (sort_keys (JObj d))) k = Some (sort_keys x)"
      using "2.prems" that map_of_sort_keys [of d k] by simp
    moreover have "wf_json x" "no_const x" using "2.prems" that by (auto simp: list_all_iff)
    ultimately show ?thesis using "2.IH" [OF that refl] by simp
  qed
  then show ?case by (auto simp: list_all_iff keys_exact_def case_prod_beta image_image)
qed auto

lemma last_wins_wf: "wf_json v \<Longrightarrow> last_wins v = v"
proof (induction v rule: last_wins.induct)
  case (1 xs)
  then show ?case by (auto simp: list_all_iff intro: map_idI)
next
  case (2 d)
  have same: "map (\<lambda>(k, v). (k, last_wins v)) d = d"
    using 2 by (auto simp: list_all_iff intro!: map_idI)
  have add: "dict_set k v acc = acc @ [(k, v)]" if "k \<notin> fst ` set acc" for k v and acc :: jdict
    using that by (induction acc) (auto simp: dict_set_def)
  have "fold (\<lambda>(k, v). dict_set k v) ms acc = acc @ ms"
    if "distinct (map fst ms)" "fst ` set ms \<inter> fst ` set acc = {}" for ms acc :: jdict
    using that
  proof (induction ms arbitrary: acc)
    case (Cons m ms)
    obtain k v where m: "m = (k, v)" by (cases m)
    have "fst ` set ms \<inter> fst ` set (acc @ [(k, v)]) = {}" using Cons.prems m by auto
    with Cons.IH [of "acc @ [(k, v)]"] Cons.prems m show ?case by (simp add: add)
  qed simp
  from this [of d "[]"] "2.prems" same show ?case by simp
qed auto

section \<open>The interface the file formats rely on\<close>

text \<open>
  The scanner of the platform reads back what \<open>json.dumps\<close> wrote. The scanner above does.
\<close>

locale json_codec =
  fixes E :: platform
  assumes scan_text: "plain v \<Longrightarrow> w = [] \<or> w = [CHR 0x0A] \<Longrightarrow> p_scan E (text_of E v @ w) = Some v"
begin

lemma loads_canonical:
  assumes "plain v" and "wf_json v"
  shows "loads E syn (canonical E v @ [CHR 0x0A]) = Inr (sort_keys v)"
  using scan_text [of "sort_keys v" "[CHR 0x0A]"] assms by (simp add: loads_def canonical_def dumps_sort_keys last_wins_wf)

lemma loads_bare:
  assumes "plain v" and "wf_json v"
  shows "loads E syn (canonical E v) = Inr (sort_keys v)"
  using scan_text [of "sort_keys v" "[]"] assms by (simp add: loads_def canonical_def dumps_sort_keys last_wins_wf)

end

definition std_platform :: platform where
  "std_platform = \<lparr>p_sha256 = \<lambda>_. replicate 64 CHR ''0'', p_scan = json_scan, p_float_repr = \<lambda>_. ''0.0'',
     p_uid = 501, p_pid = 4321\<rparr>"

interpretation std: json_codec std_platform
  by unfold_locales (simp add: std_platform_def json_scan_text)

end
