(* ===== verification/FileStore.thy ===== *)
theory FileStore
  imports JsonScan
begin

text \<open>
  The private directories the bridge keeps its records in: a root with one directory per batch or
  thread and JSON files in each. The operations are those of \<open>_write_exclusive\<close>, \<open>_stable_json\<close>,
  \<open>mkdir\<close>, \<open>rename\<close> and \<open>_fsync_dir\<close> in \<open>plugins/codex-orchestrator/lib/native_bridge/bridge.py\<close>; a
  sequence of them may be cut short by an error or by the end of the process.
\<close>

section \<open>Nodes\<close>

datatype file_kind = KRegular | KDirectory | KSymlink | KSocket | KOther

text \<open>What \<open>lstat\<close> or \<open>fstat\<close> tells: the kind, the owner, the permission bits, links and size.\<close>

record stat =
  sx_kind :: file_kind
  sx_uid :: int
  sx_perm :: nat
  sx_nlink :: nat
  sx_size :: nat

record disk_file =
  fl_stat :: stat
  fl_data :: string

text \<open>
  A name in a directory: a regular file, or something that \<open>open\<close> with \<open>O_NOFOLLOW\<close> and the kind check
  refuse; \<open>Special b\<close> with \<open>b\<close> false is a link that leads nowhere.
\<close>

datatype fnode = Reg disk_file | Special bool

record dir =
  dr_stat :: stat
  dr_files :: "(string \<times> fnode) list"

text \<open>
  An entry of the root: a directory, or something else. \<open>exists()\<close> and \<open>is_dir()\<close> follow links, so a
  link is told apart by what it leads to.
\<close>

datatype other_kind = ToDir | ToFile | ToNothing

datatype entry = EDir dir | EOther other_kind

type_synonym store = "(string \<times> entry) list"

definition bridge_error :: "string \<Rightarrow> exn" where
  "bridge_error code = Raised ''BridgeError'' code"

definition is_dir :: "entry \<Rightarrow> bool" where
  "is_dir e = (case e of EDir _ \<Rightarrow> True | EOther k \<Rightarrow> k = ToDir)"

definition entry_exists :: "store \<Rightarrow> string \<Rightarrow> bool" where
  "entry_exists s name = (case map_of s name of None \<Rightarrow> False | Some (EDir _) \<Rightarrow> True | Some (EOther k) \<Rightarrow> k \<noteq> ToNothing)"

definition perm_dir :: nat where
  "perm_dir = 448"

definition perm_file :: nat where
  "perm_file = 384"

text \<open>An owner-only directory, and an owner-only file with one link.\<close>

definition private_dir :: "platform \<Rightarrow> stat \<Rightarrow> bool" where
  "private_dir E s = (sx_kind s = KDirectory \<and> sx_uid s = p_uid E \<and> sx_perm s = perm_dir)"

definition private_file :: "platform \<Rightarrow> stat \<Rightarrow> bool" where
  "private_file E s = (sx_kind s = KRegular \<and> sx_uid s = p_uid E \<and> sx_perm s = perm_file \<and> sx_nlink s = 1)"

section \<open>Files\<close>

definition new_file :: "platform \<Rightarrow> string \<Rightarrow> disk_file" where
  "new_file E data = \<lparr>fl_stat = \<lparr>sx_kind = KRegular, sx_uid = p_uid E, sx_perm = perm_file, sx_nlink = 1, sx_size = length data\<rparr>,
     fl_data = data\<rparr>"

definition new_dir :: "platform \<Rightarrow> dir" where
  "new_dir E = \<lparr>dr_stat = \<lparr>sx_kind = KDirectory, sx_uid = p_uid E, sx_perm = perm_dir, sx_nlink = 2, sx_size = 0\<rparr>, dr_files = []\<rparr>"

text \<open>The text \<open>_write_exclusive\<close> writes.\<close>

definition file_text :: "platform \<Rightarrow> json \<Rightarrow> string" where
  "file_text E v = canonical E v @ [CHR 0x0A]"

definition write_exclusive :: "platform \<Rightarrow> string \<Rightarrow> json \<Rightarrow> dir \<Rightarrow> dir result" where
  "write_exclusive E name v d =
     ensure (map_of (dr_files d) name = None) (bridge_error ''ledger_write'')
    (Inr (d\<lparr>dr_files := dict_set name (Reg (new_file E (file_text E v))) (dr_files d)\<rparr>))"

text \<open>\<open>path.exists()\<close>, which follows links.\<close>

definition file_exists :: "dir \<Rightarrow> string \<Rightarrow> bool" where
  "file_exists d name = (case map_of (dr_files d) name of None \<Rightarrow> False | Some (Special b) \<Rightarrow> b | Some (Reg _) \<Rightarrow> True)"

text \<open>
  \<open>_stable_json\<close> on an open file: \<open>data\<close> is what the read returned and \<open>same\<close> says whether the two
  \<open>fstat\<close> calls agree.
\<close>

definition max_json :: nat where
  "max_json = 131072"

definition stable_read :: "platform \<Rightarrow> stat \<Rightarrow> string \<Rightarrow> bool \<Rightarrow> jdict result" where
  "stable_read E s data same =
     ensure (private_file E s \<and> 0 < sx_size s \<and> sx_size s \<le> max_json) (bridge_error ''ledger_file'')
    (ensure (length data = sx_size s \<and> same) (bridge_error ''ledger_changed'')
    (andThen (loads E (bridge_error ''ledger_json'') data) (\<lambda>v.
     ensure (is_obj v) (bridge_error ''ledger_json'') (Inr (obj_of v)))))"

text \<open>In a directory nobody else writes to at the moment.\<close>

definition stable_json :: "platform \<Rightarrow> dir \<Rightarrow> string \<Rightarrow> jdict result" where
  "stable_json E d name = (case map_of (dr_files d) name of
      None \<Rightarrow> Inl (bridge_error ''ledger_missing'')
    | Some (Special _) \<Rightarrow> Inl (bridge_error ''ledger_missing'')
    | Some (Reg f) \<Rightarrow> stable_read E (fl_stat f) (fl_data f) True)"

text \<open>\<open>os.rename(stage, target)\<close> inside a directory replaces the target.\<close>

definition rename_file :: "string \<Rightarrow> string \<Rightarrow> dir \<Rightarrow> dir result" where
  "rename_file a b d = (case map_of (dr_files d) a of
      None \<Rightarrow> os_error
    | Some n \<Rightarrow> Inr (d\<lparr>dr_files := dict_set b n (dict_del a (dr_files d))\<rparr>))"

section \<open>Sequences of operations\<close>

datatype fs_op =
    Mkdir string
  | Write string string json
  | RenameDir string string
  | RenameFile string string string
  | SyncDir string
  | SyncRoot

definition in_dir :: "string \<Rightarrow> (dir \<Rightarrow> dir result) \<Rightarrow> store \<Rightarrow> store result" where
  "in_dir name f s = (case map_of s name of
      Some (EDir d) \<Rightarrow> andThen (f d) (\<lambda>d'. Inr (dict_set name (EDir d') s))
    | _ \<Rightarrow> os_error)"

text \<open>A directory may be renamed to a name that is free or that of an empty directory.\<close>

definition free_name :: "store \<Rightarrow> string \<Rightarrow> bool" where
  "free_name s b = (case map_of s b of None \<Rightarrow> True | Some (EDir d) \<Rightarrow> dr_files d = [] | Some (EOther _) \<Rightarrow> False)"

fun exec_op :: "platform \<Rightarrow> fs_op \<Rightarrow> store \<Rightarrow> store result" where
  "exec_op E (Mkdir name) s =
     ensure (map_of s name = None) (Raised ''OSError'' []) (Inr (dict_set name (EDir (new_dir E)) s))"
| "exec_op E (Write dname name v) s = in_dir dname (write_exclusive E name v) s"
| "exec_op E (RenameDir a b) s = (case map_of s a of
      None \<Rightarrow> os_error
    | Some e \<Rightarrow> ensure (free_name s b) (Raised ''OSError'' []) (Inr (dict_set b e (dict_del a s))))"
| "exec_op E (RenameFile dname a b) s = in_dir dname (rename_file a b) s"
| "exec_op E (SyncDir name) s = in_dir name Inr s"
| "exec_op E SyncRoot s = Inr s"

text \<open>
  An operation that is interrupted has had no effect, except a write: with \<open>0\<close> its file was not created, with
  \<open>Suc k\<close> it is there with the first \<open>k\<close> bytes. (An operation that had its whole effect is an interruption of
  the next one.)
\<close>

definition partial_op :: "platform \<Rightarrow> nat \<Rightarrow> fs_op \<Rightarrow> store \<Rightarrow> store" where
  "partial_op E k op s = (case op of
      Write dname name v \<Rightarrow> (case map_of s dname of
          Some (EDir d) \<Rightarrow> if map_of (dr_files d) name = None \<and> 0 < k
            then dict_set dname (EDir (d\<lparr>dr_files := dict_set name (Reg (new_file E (take (k - 1) (file_text E v)))) (dr_files d)\<rparr>)) s
            else s
        | _ \<Rightarrow> s)
    | _ \<Rightarrow> s)"

text \<open>\<open>Some (n, k)\<close>: the \<open>n\<close>-th operation of the sequence fails, or the process ends in it, as \<open>partial_op\<close> says for \<open>k\<close>.\<close>

type_synonym fault = "(nat \<times> nat) option"

fun run_ops :: "platform \<Rightarrow> fault \<Rightarrow> fs_op list \<Rightarrow> store \<Rightarrow> unit result \<times> store" where
  "run_ops E flt [] s = (Inr (), s)"
| "run_ops E None (op # ops) s = (case exec_op E op s of
      Inl e \<Rightarrow> (Inl e, s)
    | Inr s' \<Rightarrow> run_ops E None ops s')"
| "run_ops E (Some (0, k)) (op # ops) s = (os_error, partial_op E k op s)"
| "run_ops E (Some (Suc n, k)) (op # ops) s = (case exec_op E op s of
      Inl e \<Rightarrow> (Inl e, s)
    | Inr s' \<Rightarrow> run_ops E (Some (n, k)) ops s')"

section \<open>Facts\<close>

lemma run_ops_append:
  "run_ops E None (xs @ ys) s = (case run_ops E None xs s of (Inl e, s') \<Rightarrow> (Inl e, s') | (Inr _, s') \<Rightarrow> run_ops E None ys s')"
  by (induction xs arbitrary: s) (auto split: sum.splits)

text \<open>The entry an operation works on; every other entry is left alone.\<close>

fun op_entries :: "fs_op \<Rightarrow> string set" where
  "op_entries (Mkdir name) = {name}"
| "op_entries (Write dname name v) = {dname}"
| "op_entries (RenameDir a b) = {a, b}"
| "op_entries (RenameFile dname a b) = {dname}"
| "op_entries (SyncDir name) = {}"
| "op_entries SyncRoot = {}"

lemma in_dir_frame: "in_dir name f s = Inr s' \<Longrightarrow> k \<noteq> name \<Longrightarrow> map_of s' k = map_of s k"
  by (auto simp: in_dir_def split: option.splits entry.splits)

lemma in_dir_same: "in_dir name Inr s = Inr s' \<Longrightarrow> map_of s' = map_of s"
  by (auto simp: in_dir_def fun_eq_iff split: option.splits entry.splits)

lemma exec_op_frame: "exec_op E op s = Inr s' \<Longrightarrow> k \<notin> op_entries op \<Longrightarrow> map_of s' k = map_of s k"
  by (cases op) (auto split: option.splits dest: in_dir_frame in_dir_same)

lemma partial_op_frame: "k \<notin> op_entries op \<Longrightarrow> map_of (partial_op E n op s) k = map_of s k"
  by (auto simp: partial_op_def split: fs_op.splits option.splits entry.splits)

lemma run_ops_frame:
  "run_ops E flt ops s = (r, s') \<Longrightarrow> (\<forall>op \<in> set ops. k \<notin> op_entries op) \<Longrightarrow> map_of s' k = map_of s k"
proof (induction E flt ops s rule: run_ops.induct)
  case (2 E op ops s)
  then show ?case by (cases "exec_op E op s") (auto dest: exec_op_frame)
next
  case (4 E n k op ops s)
  then show ?case by (cases "exec_op E op s") (auto dest: exec_op_frame)
qed (auto simp: partial_op_frame)

lemma distinct_exec_op: "exec_op E op s = Inr s1 \<Longrightarrow> distinct (map fst s) \<Longrightarrow> distinct (map fst s1)"
  by (cases op) (auto simp: in_dir_def split: option.splits entry.splits)

lemma distinct_partial_op: "distinct (map fst s) \<Longrightarrow> distinct (map fst (partial_op E k op s))"
  by (auto simp: partial_op_def split: fs_op.splits option.splits entry.splits)

lemma distinct_run_ops:
  "run_ops E flt ops s = (r, s') \<Longrightarrow> distinct (map fst s) \<Longrightarrow> distinct (map fst s')"
proof (induction E flt ops s rule: run_ops.induct)
  case (2 E op ops s)
  then show ?case by (cases "exec_op E op s") (auto dest: distinct_exec_op)
next
  case (4 E n k op ops s)
  then show ?case by (cases "exec_op E op s") (auto dest: distinct_exec_op)
qed (auto simp: distinct_partial_op simp del: distinct_map)

end
