(* ===== verification/Bridge.thy ===== *)
theory Bridge
  imports FileStore DeliveryAudit
begin

text \<open>
  The first half of \<open>plugins/codex-orchestrator/lib/native_bridge/bridge.py\<close>: the attachment of an
  owner that is made from the service's receipts, the capability store that numbers the
  generations of an owner, and the projection of durable events to native ones.
\<close>

section \<open>Shared checks\<close>

definition bridge_hash :: "json \<Rightarrow> bool" where
  "bridge_hash v = (is_str v \<and> hex_string 64 (str_of v))"

definition bridge_safe :: "json \<Rightarrow> bool" where
  "bridge_safe v = (is_str v \<and> id_string (str_of v))"

definition deliverable :: "string list" where
  "deliverable = [''question'', ''result'', ''failed'', ''unknown'', ''stopped'']"

definition decision_names :: "string list" where
  "decision_names = [''handled'', ''waiting_user'', ''stale'', ''rejected'']"

definition slot_blocking :: "string list" where
  "slot_blocking = [''pending'', ''sending'', ''transport_accepted'', ''delivery_uncertain'']"

definition peer_keys :: "string list" where
  "peer_keys = [''pid'', ''uid'', ''birth'', ''executable'']"

definition peer_matches :: "json \<Rightarrow> jdict \<Rightarrow> bool" where
  "peer_matches v expected =
    (is_obj v \<and> list_all (\<lambda>k. py_eq (dget (obj_of v) k) (dget expected k)) peer_keys
     \<and> (dget expected ''executable_sha256'' = JNull
        \<or> py_eq (dget (obj_of v) ''executable_sha256'') (dget expected ''executable_sha256'')))"

text \<open>\<open>Path(p).is_absolute()\<close>.\<close>

definition is_absolute :: "string \<Rightarrow> bool" where
  "is_absolute p = starts_with ''/'' p"

section \<open>The attachment of an owner\<close>

record owner_attachment =
  oa_profile_id :: string
  oa_controller_thread_id :: string
  oa_controller_epoch :: int
  oa_owner_context_sha256 :: string
  oa_lease_id :: string
  oa_owner_connection_id :: json
  oa_activation_id :: string
  oa_manifest_sha256 :: string
  oa_helper_grant_sha256 :: string
  oa_service_identity :: jdict
  oa_backend_identity :: jdict
  oa_private_socket :: string
  oa_private_socket_identity :: "int list"
  oa_origin_pid :: int
  oa_origin_birth :: json
  oa_origin_executable :: json
  oa_origin_executable_sha256 :: json

definition grant_fields :: "string list" where
  "grant_fields = [''profile_id'', ''owner_context_sha256'', ''lease_id'', ''owner_connection_id'', ''owner_epoch'',
     ''owner_thread_id'', ''private_socket'']"

text \<open>
  One of the four live checks: the process is inspected again; a missing identifier, an
  operating-system error or another process in its place is the rejection of that check.
\<close>

definition live_peer :: "(json \<Rightarrow> json result) \<Rightarrow> jdict \<Rightarrow> string \<Rightarrow> jdict result" where
  "live_peer inspect v code = (case andThen (dreq v ''pid'') inspect of
      Inl e \<Rightarrow> Inl (if exn_class e \<in> {''KeyError'', ''OSError'', ''ProcessLookupError''} then bridge_error code else e)
    | Inr current \<Rightarrow> ensure (peer_matches current v) (bridge_error code) (Inr (obj_of current)))"

definition helper_expected :: "jdict \<Rightarrow> jdict" where
  "helper_expected grant = [(''pid'', dget grant ''helper_pid''), (''uid'', dget grant ''helper_uid''),
     (''birth'', dget grant ''helper_birth''), (''executable'', dget grant ''helper_executable''),
     (''executable_sha256'', dget grant ''helper_executable_sha256'')]"

text \<open>The checks on the receipts before any process is looked at.\<close>

definition check_receipts :: "platform \<Rightarrow> jdict \<Rightarrow> jdict \<Rightarrow> jdict \<Rightarrow> jdict \<Rightarrow> jdict \<Rightarrow> jdict \<Rightarrow> jdict \<Rightarrow> jdict \<Rightarrow> unit result" where
  "check_receipts E owner_ready helper_ready grant lease service owner helper backend =
     ensure (py_eq (dget owner_ready ''version'') (JInt 1) \<and> dget owner_ready ''ready_published'' = JBool True
        \<and> dget owner_ready ''closed'' = JBool False) (bridge_error ''owner_not_attached'')
    (andThen (for_each (\<lambda>k. ensure (py_eq (dget helper_ready k) (dget owner_ready k)) (bridge_error ''receipt_binding'') (Inr ()))
        [''activation_id'', ''manifest_sha256'']) (\<lambda>_.
     ensure (py_eq (dget helper_ready ''service_identity'') (JObj service)) (bridge_error ''receipt_binding'')
    (let helper_lease = dget helper_ready ''owner_lease'' in
     ensure (is_obj helper_lease) (bridge_error ''helper_lease'')
    (ensure (py_eq helper_lease (JObj (filter (\<lambda>(k, _). k \<noteq> ''service_identity'') lease))) (bridge_error ''helper_lease_changed'')
    (ensure (py_eq (dget grant ''version'') (JInt 1) \<and> dget grant ''role'' = JStr ''owner-helper'') (bridge_error ''helper_grant'')
    (andThen (for_each (\<lambda>k. ensure (py_eq (dget grant k) (dget lease k)) (bridge_error ''grant_lease_changed'') (Inr ())) grant_fields) (\<lambda>_.
     ensure (peer_matches (JObj (helper_expected grant)) helper) (bridge_error ''helper_receipt_changed'')
    (ensure (py_eq (dget backend ''pid'') (dget lease ''backend_pid'') \<and> py_eq (dget backend ''birth'') (dget lease ''backend_birth''))
       (bridge_error ''backend_receipt_changed'')
    (ensure (is_int (dget owner ''pid'') \<and> is_int (dget helper ''pid'') \<and> dget owner ''pid'' \<noteq> dget helper ''pid'')
       (bridge_error ''owner_is_helper'')
    (ensure (py_eq (dget owner ''uid'') (JInt (p_uid E)) \<and> py_eq (JInt (p_uid E)) (dget helper ''uid'')
        \<and> py_eq (dget helper ''uid'') (dget service ''uid'')) (bridge_error ''attachment_uid'')
    (Inr ())))))))))))"

text \<open>The checks on the lease after the processes were found alive.\<close>

definition check_lease_fields :: "jdict \<Rightarrow> jdict \<Rightarrow> jdict \<Rightarrow> unit result" where
  "check_lease_fields owner_ready helper_ready lease =
     ensure (bridge_hash (dget lease ''owner_context_sha256'')) (bridge_error ''owner_context'')
    (ensure (is_int (dget lease ''owner_epoch'') \<and> 0 < int_of (dget lease ''owner_epoch'')) (bridge_error ''owner_epoch'')
    (ensure (bridge_safe (dget lease ''profile_id'') \<and> bridge_safe (dget lease ''lease_id'')) (bridge_error ''owner_identity'')
    (ensure (is_str (dget lease ''owner_thread_id'') \<and> 1 \<le> py_len (str_of (dget lease ''owner_thread_id''))
        \<and> py_len (str_of (dget lease ''owner_thread_id'')) \<le> 128) (bridge_error ''owner_thread'')
    (let ident = dget lease ''private_socket_identity'' in
     ensure (is_str (dget lease ''private_socket'') \<and> is_absolute (str_of (dget lease ''private_socket''))
        \<and> is_arr ident \<and> length (arr_of ident) = 4 \<and> list_all (\<lambda>v. is_int v \<and> 0 \<le> int_of v) (arr_of ident))
       (bridge_error ''private_socket'')
    (ensure (bridge_hash (dget owner_ready ''manifest_sha256'') \<and> bridge_hash (dget helper_ready ''grant_sha256''))
       (bridge_error ''receipt_hash'')
    (ensure (is_str (dget owner_ready ''activation_id'') \<and> hex_string 32 (str_of (dget owner_ready ''activation_id'')))
       (bridge_error ''activation_id'')
    (Inr ())))))))"

definition from_service_receipts :: "platform \<Rightarrow> (json \<Rightarrow> json result) \<Rightarrow> json \<Rightarrow> json \<Rightarrow> json \<Rightarrow> owner_attachment result" where
  "from_service_receipts E inspect owner_ready helper_ready helper_grant =
     ensure (is_obj owner_ready \<and> is_obj helper_ready) (bridge_error ''attachment_receipt'')
    (ensure (is_obj helper_grant) (bridge_error ''helper_grant'')
    (let own = obj_of owner_ready; h = obj_of helper_ready; grant = obj_of helper_grant; lease_v = dget own ''owner_lease'' in
     ensure (is_obj lease_v) (bridge_error ''owner_lease'')
    (let lease = obj_of lease_v;
         service = dget_or own ''service_identity'' (dget lease ''service_identity'');
         owner = dget own ''frontend''; helper = dget h ''frontend_peer''; backend = dget h ''backend_peer''
     in
     ensure (is_obj service \<and> is_obj owner \<and> is_obj helper \<and> is_obj backend) (bridge_error ''attachment_peer'')
    (andThen (check_receipts E own h grant lease (obj_of service) (obj_of owner) (obj_of helper) (obj_of backend)) (\<lambda>_.
     andThen (live_peer inspect (obj_of service) ''service_not_live'') (\<lambda>_.
     andThen (live_peer inspect (obj_of owner) ''owner_not_live'') (\<lambda>owner_now.
     andThen (live_peer inspect (obj_of helper) ''helper_not_live'') (\<lambda>helper_now.
     andThen (live_peer inspect (obj_of backend) ''backend_not_live'') (\<lambda>backend_now.
     ensure (py_eq (dget owner_now ''executable_sha256'') (dget lease ''backend_executable_sha256'')) (bridge_error ''owner_binary_changed'')
    (ensure (py_eq (dget helper_now ''executable_sha256'') (dget grant ''helper_executable_sha256'')) (bridge_error ''helper_binary_changed'')
    (ensure (py_eq (dget backend_now ''executable_sha256'') (dget lease ''backend_executable_sha256'')) (bridge_error ''backend_binary_changed'')
    (andThen (check_lease_fields own h lease) (\<lambda>_.
     andThen (dreq lease ''owner_connection_id'') (\<lambda>connection.
     andThen (dreq (obj_of owner) ''birth'') (\<lambda>birth.
     andThen (dreq (obj_of owner) ''executable'') (\<lambda>executable.
     andThen (dreq owner_now ''executable_sha256'') (\<lambda>digest.
     Inr \<lparr>oa_profile_id = str_of (dget lease ''profile_id''), oa_controller_thread_id = str_of (dget lease ''owner_thread_id''),
       oa_controller_epoch = int_of (dget lease ''owner_epoch''),
       oa_owner_context_sha256 = str_of (dget lease ''owner_context_sha256''), oa_lease_id = str_of (dget lease ''lease_id''),
       oa_owner_connection_id = connection, oa_activation_id = str_of (dget own ''activation_id''),
       oa_manifest_sha256 = str_of (dget own ''manifest_sha256''), oa_helper_grant_sha256 = str_of (dget h ''grant_sha256''),
       oa_service_identity = obj_of service, oa_backend_identity = backend_now,
       oa_private_socket = str_of (dget lease ''private_socket''),
       oa_private_socket_identity = map int_of (arr_of (dget lease ''private_socket_identity'')),
       oa_origin_pid = int_of (dget (obj_of owner) ''pid''), oa_origin_birth = birth, oa_origin_executable = executable,
       oa_origin_executable_sha256 = digest\<rparr>)))))))))))))))))"

definition persisted :: "platform \<Rightarrow> owner_attachment \<Rightarrow> jdict" where
  "persisted E a =
    [(''version'', JInt 1), (''profile_id'', JStr (oa_profile_id a)),
     (''controller_thread_id'', JStr (oa_controller_thread_id a)), (''controller_epoch'', JInt (oa_controller_epoch a)),
     (''owner_context_sha256'', JStr (oa_owner_context_sha256 a)), (''lease_id'', JStr (oa_lease_id a)),
     (''owner_connection_id'', oa_owner_connection_id a), (''activation_id'', JStr (oa_activation_id a)),
     (''manifest_sha256'', JStr (oa_manifest_sha256 a)), (''helper_grant_sha256'', JStr (oa_helper_grant_sha256 a)),
     (''service_identity'', JObj (oa_service_identity a)), (''backend_identity'', JObj (oa_backend_identity a)),
     (''private_socket'', JStr (oa_private_socket a)),
     (''private_socket_identity'', JArr (map JInt (oa_private_socket_identity a))),
     (''origin_process'', JObj [(''pid'', JInt (oa_origin_pid a)), (''uid'', JInt (p_uid E)), (''birth'', oa_origin_birth a),
        (''executable'', oa_origin_executable a), (''executable_sha256'', oa_origin_executable_sha256 a)])]"

section \<open>Owner capabilities\<close>

record owner_capability =
  oc_path :: string
  oc_controller_thread_id :: json
  oc_origin_context_id :: json
  oc_origin_pid :: json
  oc_origin_birth :: json
  oc_host_generation :: json
  oc_attachment_proof_sha256 :: json

text \<open>\<open>_decode\<close>: the stored path and the digest over the stored attachment must agree.\<close>

definition decode_capability :: "platform \<Rightarrow> string \<Rightarrow> jdict \<Rightarrow> owner_capability result" where
  "decode_capability E path v =
     ensure (py_eq (dget v ''version'') (JInt 1) \<and> dget v ''path'' = JStr path) (bridge_error ''owner_capability'')
    (let attachment = dget v ''owner_attachment'' in
     ensure (is_obj attachment \<and> py_eq (JStr (p_sha256 E (canonical E attachment))) (dget v ''attachment_proof_sha256''))
       (bridge_error ''owner_capability'')
    (andThen (dreq v ''controller_thread_id'') (\<lambda>thread.
     andThen (dreq v ''origin_context_id'') (\<lambda>ctx.
     andThen (dreq v ''origin_pid'') (\<lambda>pid.
     andThen (dreq v ''origin_birth'') (\<lambda>birth.
     andThen (dreq v ''host_generation'') (\<lambda>gen.
     andThen (dreq v ''attachment_proof_sha256'') (\<lambda>proof.
     Inr \<lparr>oc_path = path, oc_controller_thread_id = thread, oc_origin_context_id = ctx, oc_origin_pid = pid,
       oc_origin_birth = birth, oc_host_generation = gen, oc_attachment_proof_sha256 = proof\<rparr>))))))))"

text \<open>\<open>f"generation-{n:08d}"\<close>.\<close>

definition generation_name :: "int \<Rightarrow> string" where
  "generation_name n = (let d = show_int n in ''generation-'' @ replicate (8 - length d) CHR ''0'' @ d)"

definition origin_context :: "platform \<Rightarrow> owner_attachment \<Rightarrow> string" where
  "origin_context E a = ''origin_'' @ take 32 (p_sha256 E (oa_profile_id a @ [CHR 0x00] @ oa_owner_context_sha256 a))"

definition attachment_proof :: "platform \<Rightarrow> owner_attachment \<Rightarrow> string" where
  "attachment_proof E a = p_sha256 E (canonical E (JObj (persisted E a)))"

definition generation_path :: "string \<Rightarrow> string \<Rightarrow> string \<Rightarrow> string" where
  "generation_path rt key gen = rt @ ''/'' @ key @ ''/'' @ gen @ ''.json''"

definition capability_value :: "platform \<Rightarrow> string \<Rightarrow> owner_attachment \<Rightarrow> int \<Rightarrow> jdict" where
  "capability_value E path a n =
    [(''version'', JInt 1), (''path'', JStr path),
     (''controller_thread_id'', JStr (oa_controller_thread_id a)), (''origin_context_id'', JStr (origin_context E a)),
     (''origin_pid'', JInt (oa_origin_pid a)), (''origin_birth'', oa_origin_birth a),
     (''host_generation'', JStr (generation_name n)), (''generation_number'', JInt n),
     (''attachment_proof_sha256'', JStr (attachment_proof E a)), (''lease_id'', JStr (oa_lease_id a)),
     (''activation_id'', JStr (oa_activation_id a)), (''owner_attachment'', JObj (persisted E a))]"

definition current_file :: string where
  "current_file = ''current.json''"

definition stage_file :: "platform \<Rightarrow> string" where
  "stage_file E = ''.current-'' @ show_int (p_pid E) @ ''.tmp''"

text \<open>Whether the stored current capability is the one of this attachment.\<close>

definition same_owner :: "platform \<Rightarrow> owner_attachment \<Rightarrow> jdict \<Rightarrow> bool" where
  "same_owner E a cur =
    (py_eq (dget cur ''origin_pid'') (JInt (oa_origin_pid a)) \<and> py_eq (dget cur ''origin_birth'') (oa_origin_birth a)
     \<and> dget cur ''lease_id'' = JStr (oa_lease_id a) \<and> dget cur ''attachment_proof_sha256'' = JStr (attachment_proof E a))"

text \<open>\<open>current.get("generation_number", 0) + 1\<close>, which must be an integer in range.\<close>

definition next_generation :: "jdict \<Rightarrow> int result" where
  "next_generation cur = (case dget_or cur ''generation_number'' (JInt 0) of
      JInt i \<Rightarrow> ensure (1 \<le> i + 1 \<and> i + 1 \<le> 99999999) (bridge_error ''host_generation'') (Inr (i + 1))
    | JBool b \<Rightarrow> Inr (if b then 2 else 1)
    | JFloat _ \<Rightarrow> Inl (bridge_error ''host_generation'')
    | JConst _ \<Rightarrow> Inl (bridge_error ''host_generation'')
    | _ \<Rightarrow> type_error)"

text \<open>
  The part of \<open>bind\<close> under the lock, on the store of capability directories below \<open>root\<close>.
\<close>

definition bind_generation :: "platform \<Rightarrow> fault \<Rightarrow> string \<Rightarrow> string \<Rightarrow> owner_attachment \<Rightarrow> int \<Rightarrow> store \<Rightarrow> owner_capability result \<times> store" where
  "bind_generation E flt rt key a n s =
    (let path = generation_path rt key (generation_name n); v = JObj (capability_value E path a n) in
     case run_ops E flt [Write key (generation_name n @ ''.json'') v, Write key (stage_file E) v,
         RenameFile key (stage_file E) current_file, SyncDir key] s of
       (Inl e, s') \<Rightarrow> (Inl e, s')
     | (Inr _, s') \<Rightarrow> (decode_capability E path (capability_value E path a n), s'))"

definition bind_in :: "platform \<Rightarrow> fault \<Rightarrow> string \<Rightarrow> string \<Rightarrow> owner_attachment \<Rightarrow> dir \<Rightarrow> store \<Rightarrow> owner_capability result \<times> store" where
  "bind_in E flt rt key a d s =
    (if \<not> private_dir E (dr_stat d) then (Inl (bridge_error ''owner_capability_dir''), s)
     else if \<not> file_exists d current_file then bind_generation E flt rt key a 1 s
     else case stable_json E d current_file of
         Inl e \<Rightarrow> (Inl e, s)
       | Inr cur \<Rightarrow>
           if \<not> (dget cur ''controller_thread_id'' = JStr (oa_controller_thread_id a) \<and> dget cur ''origin_context_id'' = JStr (origin_context E a))
           then (Inl (bridge_error ''origin_context_changed''), s)
           else if same_owner E a cur then
             (andThen (dreq cur ''host_generation'') (\<lambda>gen.
              ensure (is_str gen) (Raised ''TypeError'' [])
             (andThen (stable_json E d (str_of gen @ ''.json'')) (\<lambda>stored.
              ensure (py_eq (JObj stored) (JObj cur)) (bridge_error ''owner_capability_changed'')
             (decode_capability E (generation_path rt key (str_of gen)) cur)))), s)
           else case next_generation cur of
               Inl e \<Rightarrow> (Inl e, s)
             | Inr n \<Rightarrow> bind_generation E flt rt key a n s)"

definition bind_owner :: "platform \<Rightarrow> fault \<Rightarrow> string \<Rightarrow> owner_attachment \<Rightarrow> store \<Rightarrow> owner_capability result \<times> store" where
  "bind_owner E flt rt a s =
    (let key = p_sha256 E (oa_controller_thread_id a);
         s1 = (if map_of s key = None then dict_set key (EDir (new_dir E)) s else s)
     in case map_of s1 key of
          Some (EDir d) \<Rightarrow> bind_in E flt rt key a d s1
        | Some (EOther ToDir) \<Rightarrow> (Inl (bridge_error ''owner_capability_dir''), s1)
        | _ \<Rightarrow> (os_error, s1))"

section \<open>Events\<close>

text \<open>The characters of a string, as its iteration yields them.\<close>

function code_points :: "string \<Rightarrow> string list" where
  "code_points [] = []"
| "code_points (c # cs) =
     (let continues = (\<lambda>c. (of_char c :: nat) div 64 = 2)
      in (c # takeWhile continues cs) # code_points (dropWhile continues cs))"
  by pat_completeness auto
termination
  by (relation "measure length") (auto simp: le_imp_less_Suc length_dropWhile_le)

text \<open>\<open>for x in v\<close> and \<open>len(v)\<close>.\<close>

definition py_iter :: "json \<Rightarrow> json list result" where
  "py_iter v = (case v of JArr xs \<Rightarrow> Inr xs | JObj d \<Rightarrow> Inr (map (JStr \<circ> fst) d) | JStr s \<Rightarrow> Inr (map JStr (code_points s))
     | _ \<Rightarrow> type_error)"

lemma py_iter_arr [simp]: "py_iter (JArr xs) = Inr xs"
  by (simp add: py_iter_def)

text \<open>The digest Go computes over the intent, with its fields in the order of the Go structure.\<close>

definition go_event :: "json \<Rightarrow> json result" where
  "go_event item =
     ensure (is_obj item) (Raised ''TypeError'' [])
    (andThen (for_each (\<lambda>k. andThen (dreq (obj_of item) k) (\<lambda>_. Inr ())) event_fields) (\<lambda>_.
     Inr (JObj (map (\<lambda>k. (k, dget (obj_of item) k)) event_fields))))"

fun map_result :: "('a \<Rightarrow> 'e + 'b) \<Rightarrow> 'a list \<Rightarrow> 'e + 'b list" where
  "map_result f [] = Inr []"
| "map_result f (x # xs) = andThen (f x) (\<lambda>y. andThen (map_result f xs) (\<lambda>ys. Inr (y # ys)))"

definition go_intent_hash :: "platform \<Rightarrow> jdict \<Rightarrow> string result" where
  "go_intent_hash E intent =
     andThen (dreq intent ''events'') (\<lambda>events.
     andThen (py_iter events) (\<lambda>items.
     andThen (map_result go_event items) (\<lambda>ordered.
     andThen (for_each (\<lambda>k. andThen (dreq intent k) (\<lambda>_. Inr ()))
        [''version'', ''delivery_id'', ''nonce'', ''controller_thread'', ''controller_epoch'', ''revision'']) (\<lambda>_.
     Inr (p_sha256 E (dumps True False E (JObj
       [(''version'', dget intent ''version''), (''delivery_id'', dget intent ''delivery_id''), (''nonce'', dget intent ''nonce''),
        (''controller_thread'', dget intent ''controller_thread''), (''controller_epoch'', dget intent ''controller_epoch''),
        (''revision'', dget intent ''revision''), (''state'', JStr []), (''events'', JArr ordered), (''payload_hash'', JStr [])])))))))"

definition native_envelope_body :: "jdict \<Rightarrow> jdict" where
  "native_envelope_body intent =
    [(''version'', JInt 1), (''delivery_id'', dget intent ''delivery_id''), (''controller_thread_id'', dget intent ''controller_thread''),
     (''controller_epoch'', dget intent ''controller_epoch''), (''events'', dget intent ''events'')]"

definition native_envelope :: "platform \<Rightarrow> jdict \<Rightarrow> jdict" where
  "native_envelope E intent =
     native_envelope_body intent @ [(''payload_hash'', JStr (p_sha256 E (canonical E (JObj (native_envelope_body intent)))))]"

definition event_alias :: "platform \<Rightarrow> string \<Rightarrow> string \<Rightarrow> string" where
  "event_alias E prefix v = prefix @ take 32 (p_sha256 E v)"

record projection =
  pj_native :: "json list"
  pj_source :: "json list"
  pj_aliases :: "string list"
  pj_slots :: "string list"

definition native_event :: "platform \<Rightarrow> jdict \<Rightarrow> json" where
  "native_event E row =
     JObj [(''event_id'', JStr (event_alias E ''e_'' (str_of (dget row ''event_id'')))), (''event_revision'', dget row ''event_revision''),
       (''kind'', if in_str_tuple (dget row ''kind'') [''question'', ''result''] then dget row ''kind'' else JStr ''result''),
       (''payload_hash'', dget row ''payload_hash''), (''action_slot'', JStr (event_alias E ''s_'' (str_of (dget row ''action_slot''))))]"

definition source_event :: "platform \<Rightarrow> jdict \<Rightarrow> json" where
  "source_event E row =
     JObj [(''native_event_id'', JStr (event_alias E ''e_'' (str_of (dget row ''event_id'')))),
       (''native_action_slot'', JStr (event_alias E ''s_'' (str_of (dget row ''action_slot'')))),
       (''event_id'', dget row ''event_id''), (''event_revision'', dget row ''event_revision''),
       (''payload_hash'', dget row ''payload_hash''), (''action_slot'', dget row ''action_slot''),
       (''kind'', dget row ''kind''), (''work_revision'', dget row ''work_revision'')]"

definition project_event :: "platform \<Rightarrow> string \<Rightarrow> json \<Rightarrow> projection \<Rightarrow> projection result" where
  "project_event E task_id row p =
    (let r = obj_of row; eid = dget r ''event_id''; slot = dget r ''action_slot''; kind = dget r ''kind'' in
     ensure (is_obj row \<and> py_eq (dget r ''version'') (JInt 1) \<and> dget r ''task_id'' = JStr task_id) (bridge_error ''event_owner'')
    (ensure (is_str eid \<and> 1 \<le> py_len (str_of eid) \<and> py_len (str_of eid) \<le> 256
        \<and> is_str slot \<and> 1 \<le> py_len (str_of slot) \<and> py_len (str_of slot) \<le> 256) (bridge_error ''event_identity'')
    (ensure (is_int (dget r ''event_revision'') \<and> 1 \<le> int_of (dget r ''event_revision'')
        \<and> is_int (dget r ''work_revision'') \<and> 1 \<le> int_of (dget r ''work_revision'')) (bridge_error ''event_revision'')
    (andThen (in_str_set kind deliverable) (\<lambda>known.
     ensure (known \<and> bridge_hash (dget r ''payload_hash'')) (bridge_error ''event_delivery_class'')
    (let ea = event_alias E ''e_'' (str_of eid); sa = event_alias E ''s_'' (str_of slot) in
     ensure (ea \<notin> set (pj_aliases p) \<and> sa \<notin> set (pj_slots p)) (bridge_error ''event_alias_conflict'')
    (Inr \<lparr>pj_native = pj_native p @ [native_event E r], pj_source = pj_source p @ [source_event E r],
       pj_aliases = ea # pj_aliases p, pj_slots = sa # pj_slots p\<rparr>)))))))"

definition project_events :: "platform \<Rightarrow> string \<Rightarrow> json list \<Rightarrow> (json list \<times> json list) result" where
  "project_events E task_id events =
     ensure (id_string task_id \<and> 1 \<le> length events \<and> length events \<le> 8) (bridge_error ''events_shape'')
    (andThen (fold_result (project_event E task_id) events \<lparr>pj_native = [], pj_source = [], pj_aliases = [], pj_slots = []\<rparr>) (\<lambda>p.
     Inr (pj_native p, pj_source p)))"

end
