(* ===== verification/Ledger.thy ===== *)
theory Ledger
  imports Bridge
begin

text \<open>
  The delivery ledger of \<open>plugins/codex-orchestrator/lib/native_bridge/bridge.py\<close>
  (\<open>DeliveryLedger\<close>): a batch is staged in a hidden directory and made visible by one rename; its
  status file is then replaced by later transitions. The store is the ledger's root directory.
\<close>

section \<open>Batches\<close>

text \<open>The path of a batch is its identifier below the root.\<close>

record delivery_batch =
  bt_delivery_id :: string
  bt_task_id :: json
  bt_thread :: json
  bt_epoch :: json
  bt_status :: string
  bt_envelope :: jdict
  bt_source_events :: "json list"
  bt_proof :: json
  bt_turn :: json
  bt_item :: json

section \<open>Reading a batch\<close>

definition known_states :: "string list" where
  "known_states = slot_blocking @ [''history_confirmed'', ''controller_acked'']"

definition same_mapping :: "json \<times> json \<Rightarrow> unit result" where
  "same_mapping row = (case row of (mapped, projected) \<Rightarrow>
     ensure (is_obj mapped \<and> is_obj projected) (Raised ''AttributeError'' [])
    (let m = obj_of mapped; p = obj_of projected in
     ensure (py_eq (dget m ''native_event_id'') (dget p ''event_id'') \<and> py_eq (dget m ''native_action_slot'') (dget p ''action_slot'')
        \<and> py_eq (dget m ''payload_hash'') (dget p ''payload_hash'') \<and> py_eq (dget m ''event_revision'') (dget p ''event_revision''))
       (bridge_error ''source_mapping'') (Inr ())))"

text \<open>\<open>_load_unlocked\<close> after the five files were read.\<close>

definition decode_batch :: "platform \<Rightarrow> string \<Rightarrow> jdict \<Rightarrow> jdict \<Rightarrow> jdict \<Rightarrow> jdict \<Rightarrow> jdict \<Rightarrow> delivery_batch result" where
  "decode_batch E i intent claim status source owner =
     ensure (dget intent ''delivery_id'' = JStr i \<and> dget claim ''delivery_id'' = JStr i \<and> dget status ''delivery_id'' = JStr i)
       (bridge_error ''delivery_changed'')
    (ensure (py_eq (dget intent ''controller_thread'') (dget status ''controller_thread'')
        \<and> py_eq (dget status ''controller_thread'') (dget owner ''controller_thread_id'')) (bridge_error ''delivery_owner_changed'')
    (ensure (py_eq (dget intent ''controller_epoch'') (dget status ''controller_epoch'')
        \<and> py_eq (dget status ''controller_epoch'') (dget owner ''controller_epoch'')) (bridge_error ''delivery_epoch_changed'')
    (andThen (go_intent_hash E intent) (\<lambda>digest.
     ensure (dget intent ''payload_hash'' = JStr digest) (bridge_error ''intent_hash'')
    (ensure (dget claim ''intent_sha256'' = JStr (p_sha256 E (canonical E (JObj intent))) \<and> dget claim ''status'' = JStr ''claimed'')
       (bridge_error ''claim_changed'')
    (let mappings = dget source ''events'' in
     andThen (py_iter (dget intent ''events'')) (\<lambda>projected.
     ensure (truthy (dget source ''task_id'') \<and> is_arr mappings \<and> length (arr_of mappings) = length projected)
       (bridge_error ''source_mapping'')
    (andThen (for_each same_mapping (zip (arr_of mappings) projected)) (\<lambda>_.
     andThen (in_str_set (dget status ''state'') known_states) (\<lambda>known.
     ensure known (bridge_error ''delivery_status'')
    (let evidence = dget status ''history_proof_sha256'' in
     ensure (evidence = JNull \<or> bridge_hash evidence) (bridge_error ''history_proof'')
    (Inr \<lparr>bt_delivery_id = i, bt_task_id = dget source ''task_id'', bt_thread = dget intent ''controller_thread'',
       bt_epoch = dget intent ''controller_epoch'', bt_status = str_of (dget status ''state''), bt_envelope = native_envelope E intent,
       bt_source_events = arr_of mappings, bt_proof = evidence,
       bt_turn = dget status ''native_turn_id'', bt_item = dget status ''native_item_id''\<rparr>))))))))))))"

definition intent_file :: string where
  "intent_file = ''batch-intent.json''"

definition claim_file :: string where
  "claim_file = ''batch-send-claim.json''"

definition status_file :: string where
  "status_file = ''batch-status.json''"

definition source_file :: string where
  "source_file = ''source-events.json''"

definition attachment_file :: string where
  "attachment_file = ''owner-attachment.json''"

definition binding_file :: string where
  "binding_file = ''delivery-owner-binding.json''"

lemmas ledger_file_defs = intent_file_def claim_file_def status_file_def source_file_def attachment_file_def binding_file_def

definition load_dir :: "platform \<Rightarrow> string \<Rightarrow> dir \<Rightarrow> delivery_batch result" where
  "load_dir E i d =
     ensure (private_dir E (dr_stat d)) (bridge_error ''delivery_dir'')
    (andThen (stable_json E d intent_file) (\<lambda>intent.
     andThen (stable_json E d claim_file) (\<lambda>claim.
     andThen (stable_json E d status_file) (\<lambda>status.
     andThen (stable_json E d source_file) (\<lambda>source.
     andThen (stable_json E d attachment_file) (\<lambda>owner.
     decode_batch E i intent claim status source owner))))))"

definition delivery_name :: "string \<Rightarrow> bool" where
  "delivery_name i = (id_string i \<and> starts_with ''d_'' i)"

definition load_unlocked :: "platform \<Rightarrow> string \<Rightarrow> store \<Rightarrow> delivery_batch result" where
  "load_unlocked E i s =
     ensure (delivery_name i) (bridge_error ''delivery_id'')
    (case map_of s i of
        None \<Rightarrow> Inl (bridge_error ''delivery_missing'')
      | Some (EOther _) \<Rightarrow> Inl (bridge_error ''delivery_dir'')
      | Some (EDir d) \<Rightarrow> load_dir E i d)"

section \<open>Preparing a batch\<close>

definition batch_seed :: "owner_attachment \<Rightarrow> string \<Rightarrow> json list \<Rightarrow> json" where
  "batch_seed a task_id source =
     JObj [(''thread'', JStr (oa_controller_thread_id a)), (''epoch'', JInt (oa_controller_epoch a)),
       (''task'', JStr task_id), (''events'', JArr source)]"

definition batch_id :: "platform \<Rightarrow> owner_attachment \<Rightarrow> string \<Rightarrow> json list \<Rightarrow> string" where
  "batch_id E a task_id source = ''d_'' @ take 40 (p_sha256 E (canonical E (batch_seed a task_id source)))"

definition blank_intent :: "owner_attachment \<Rightarrow> string \<Rightarrow> json list \<Rightarrow> string \<Rightarrow> jdict" where
  "blank_intent a i native digest =
    [(''version'', JInt 1), (''delivery_id'', JStr i), (''nonce'', JStr i),
     (''controller_thread'', JStr (oa_controller_thread_id a)), (''controller_epoch'', JInt (oa_controller_epoch a)),
     (''revision'', JInt 1), (''state'', JStr ''prepared''), (''events'', JArr native), (''payload_hash'', JStr digest)]"

definition batch_intent :: "platform \<Rightarrow> owner_attachment \<Rightarrow> string \<Rightarrow> json list \<Rightarrow> jdict result" where
  "batch_intent E a i native = andThen (go_intent_hash E (blank_intent a i native [])) (\<lambda>digest. Inr (blank_intent a i native digest))"

definition batch_claim :: "platform \<Rightarrow> owner_attachment \<Rightarrow> string \<Rightarrow> jdict \<Rightarrow> jdict" where
  "batch_claim E a i intent =
    [(''version'', JInt 1), (''status'', JStr ''claimed''), (''delivery_id'', JStr i),
     (''controller_thread'', JStr (oa_controller_thread_id a)), (''controller_epoch'', JInt (oa_controller_epoch a)),
     (''revision'', JInt 1), (''intent_sha256'', JStr (p_sha256 E (canonical E (JObj intent))))]"

definition owner_binding :: "owner_attachment \<Rightarrow> string \<Rightarrow> jdict" where
  "owner_binding a i =
    [(''version'', JInt 1), (''owner_context_sha256'', JStr (oa_owner_context_sha256 a)), (''nonce'', JStr i),
     (''controller_thread'', JStr (oa_controller_thread_id a)), (''revision'', JInt 1)]"

definition initial_status :: "owner_attachment \<Rightarrow> string \<Rightarrow> jdict" where
  "initial_status a i =
    [(''version'', JInt 1), (''delivery_id'', JStr i), (''controller_thread'', JStr (oa_controller_thread_id a)),
     (''controller_epoch'', JInt (oa_controller_epoch a)), (''revision'', JInt 1), (''state'', JStr ''pending''),
     (''transport_status'', JStr ''ready'')]"

definition source_record :: "string \<Rightarrow> json list \<Rightarrow> jdict" where
  "source_record task_id source = [(''version'', JInt 1), (''task_id'', JStr task_id), (''events'', JArr source)]"

definition stage_name :: "string \<Rightarrow> string" where
  "stage_name i = ''.'' @ i @ ''.stage''"

text \<open>The files of a batch in the order they are written.\<close>

definition stage_files :: "platform \<Rightarrow> owner_attachment \<Rightarrow> string \<Rightarrow> string \<Rightarrow> jdict \<Rightarrow> json list \<Rightarrow> (string \<times> json) list" where
  "stage_files E a task_id i intent source =
    [(attachment_file, JObj (persisted E a)), (binding_file, JObj (owner_binding a i)), (intent_file, JObj intent),
     (claim_file, JObj (batch_claim E a i intent)), (source_file, JObj (source_record task_id source)),
     (status_file, JObj (initial_status a i))]"

definition stage_ops :: "platform \<Rightarrow> owner_attachment \<Rightarrow> string \<Rightarrow> string \<Rightarrow> jdict \<Rightarrow> json list \<Rightarrow> fs_op list" where
  "stage_ops E a task_id i intent source =
     Mkdir (stage_name i) # map (\<lambda>(name, v). Write (stage_name i) name v) (stage_files E a task_id i intent source)
     @ [SyncDir (stage_name i), RenameDir (stage_name i) i, SyncRoot]"

text \<open>The slot of a thread: any visible batch of it that is not settled refuses another.\<close>

fun slot_free :: "platform \<Rightarrow> store \<Rightarrow> json \<Rightarrow> (string \<times> entry) list \<Rightarrow> unit result" where
  "slot_free E s thread [] = Inr ()"
| "slot_free E s thread ((name, e) # rest) =
    (if \<not> is_dir e \<or> starts_with ''.'' name then slot_free E s thread rest
     else andThen (load_unlocked E name s) (\<lambda>b.
       ensure (\<not> (py_eq (bt_thread b) thread \<and> bt_status b \<in> set slot_blocking))
         (bridge_error (if bt_status b = ''delivery_uncertain'' then ''delivery_slot_uncertain'' else ''delivery_slot_busy''))
      (slot_free E s thread rest)))"

text \<open>
  The exception handler: a stage that exists is emptied and removed. A stage that is no directory
  raises again from the handler.
\<close>

definition clean_stage :: "string \<Rightarrow> exn \<Rightarrow> store \<Rightarrow> exn \<times> store" where
  "clean_stage stage e s = (case map_of s stage of
      None \<Rightarrow> (e, s)
    | Some (EDir _) \<Rightarrow> (e, dict_del stage s)
    | Some (EOther ToNothing) \<Rightarrow> (e, s)
    | Some (EOther _) \<Rightarrow> (Raised ''OSError'' [], s))"

text \<open>
  \<open>flt\<close> is the place where an operation fails; with \<open>killed\<close> the process ends there and no handler runs.
\<close>

definition stage_batch :: "platform \<Rightarrow> fault \<Rightarrow> bool \<Rightarrow> owner_attachment \<Rightarrow> string \<Rightarrow> string \<Rightarrow> json list \<Rightarrow> json list \<Rightarrow> store \<Rightarrow> unit result \<times> store" where
  "stage_batch E flt killed a task_id i native source s =
    (case batch_intent E a i native of
       Inl e \<Rightarrow> (Inl e, s)
     | Inr intent \<Rightarrow>
        (case run_ops E flt (stage_ops E a task_id i intent source) s of
           (Inr _, s') \<Rightarrow> (Inr (), s')
         | (Inl e, s') \<Rightarrow> if killed then (Inl e, s') else (case clean_stage (stage_name i) e s' of (e', s2) \<Rightarrow> (Inl e', s2))))"

definition prepare_unlocked :: "platform \<Rightarrow> fault \<Rightarrow> bool \<Rightarrow> owner_attachment \<Rightarrow> string \<Rightarrow> json list \<Rightarrow> json list \<Rightarrow> store \<Rightarrow> delivery_batch result \<times> store" where
  "prepare_unlocked E flt killed a task_id native source s =
    (let i = batch_id E a task_id source in
     if entry_exists s i then
       (andThen (load_unlocked E i s) (\<lambda>b.
        ensure (py_eq (JArr (bt_source_events b)) (JArr source)) (bridge_error ''delivery_conflict'') (Inr b)), s)
     else case slot_free E s (JStr (oa_controller_thread_id a)) s of
         Inl e \<Rightarrow> (Inl e, s)
       | Inr _ \<Rightarrow> (case stage_batch E flt killed a task_id i native source s of
           (Inl e, s') \<Rightarrow> (Inl e, s')
         | (Inr _, s') \<Rightarrow> (load_unlocked E i s', s')))"

section \<open>Transitions\<close>

definition status_stage :: "platform \<Rightarrow> string" where
  "status_stage E = ''.batch-status-'' @ show_int (p_pid E) @ ''.tmp''"

text \<open>\<open>dict(current, state=state, **extra)\<close>.\<close>

definition updated_status :: "jdict \<Rightarrow> string \<Rightarrow> jdict \<Rightarrow> jdict" where
  "updated_status current state extra = fold (\<lambda>(k, v). dict_set k v) ((''state'', JStr state) # extra) current"

definition transition_ops :: "platform \<Rightarrow> string \<Rightarrow> jdict \<Rightarrow> fs_op list" where
  "transition_ops E i status =
    [Write i (status_stage E) (JObj status), RenameFile i (status_stage E) status_file, SyncDir i]"

definition replace_status :: "platform \<Rightarrow> fault \<Rightarrow> string \<Rightarrow> string \<Rightarrow> jdict \<Rightarrow> dir \<Rightarrow> store \<Rightarrow> delivery_batch result \<times> store" where
  "replace_status E flt i state extra d s =
    (case stable_json E d status_file of
       Inl e \<Rightarrow> (Inl e, s)
     | Inr current \<Rightarrow> (case run_ops E flt (transition_ops E i (updated_status current state extra)) s of
           (Inl e, s') \<Rightarrow> (Inl e, s')
         | (Inr _, s') \<Rightarrow> (load_unlocked E i s', s')))"

definition transition :: "platform \<Rightarrow> fault \<Rightarrow> string \<Rightarrow> string list \<Rightarrow> string \<Rightarrow> jdict \<Rightarrow> store \<Rightarrow> delivery_batch result \<times> store" where
  "transition E flt i allowed state extra s =
    (case load_unlocked E i s of
       Inl e \<Rightarrow> (Inl e, s)
     | Inr b \<Rightarrow>
        if bt_status b \<notin> set allowed then (Inl (bridge_error ''delivery_transition''), s)
        else (case map_of s i of
            Some (EDir d) \<Rightarrow> replace_status E flt i state extra d s
          | _ \<Rightarrow> (Inl (bridge_error ''ledger_missing''), s)))"

definition mark_sending :: "platform \<Rightarrow> fault \<Rightarrow> string \<Rightarrow> store \<Rightarrow> delivery_batch result \<times> store" where
  "mark_sending E flt i s = transition E flt i [''pending''] ''sending'' [(''transport_status'', JStr ''ready'')] s"

definition mark_transport_accepted :: "platform \<Rightarrow> fault \<Rightarrow> string \<Rightarrow> json \<Rightarrow> store \<Rightarrow> delivery_batch result \<times> store" where
  "mark_transport_accepted E flt i turn s =
    (if \<not> bridge_safe turn then (Inl (bridge_error ''native_turn''), s)
     else transition E flt i [''sending''] ''transport_accepted''
       [(''transport_status'', JStr ''accepted''), (''native_turn_id'', turn)] s)"

definition unsettled :: "string list" where
  "unsettled = [''sending'', ''transport_accepted'', ''delivery_uncertain'']"

definition mark_uncertain :: "platform \<Rightarrow> fault \<Rightarrow> string \<Rightarrow> json \<Rightarrow> store \<Rightarrow> delivery_batch result \<times> store" where
  "mark_uncertain E flt i reason s =
    (if \<not> bridge_safe reason then (Inl (bridge_error ''uncertain_reason''), s)
     else transition E flt i unsettled ''delivery_uncertain''
       [(''transport_status'', JStr ''uncertain''), (''uncertain_reason'', reason)] s)"

text \<open>
  The batch is read once under the lock, and once more by the transition, which takes the lock again:
  \<open>record_history\<close> is that second half.
\<close>

definition record_history :: "platform \<Rightarrow> fault \<Rightarrow> string \<Rightarrow> json \<Rightarrow> json \<Rightarrow> json \<Rightarrow> store \<Rightarrow> delivery_batch result \<times> store" where
  "record_history E flt i evidence turn item s =
     transition E flt i unsettled ''history_confirmed''
       [(''transport_status'', JStr ''confirmed''), (''history_proof_sha256'', evidence), (''native_turn_id'', turn),
        (''native_item_id'', item)] s"

definition confirm_history :: "platform \<Rightarrow> fault \<Rightarrow> string \<Rightarrow> json \<Rightarrow> json \<Rightarrow> json \<Rightarrow> store \<Rightarrow> delivery_batch result \<times> store" where
  "confirm_history E flt i evidence turn item s =
    (if \<not> (bridge_hash evidence \<and> bridge_safe turn \<and> bridge_safe item) then (Inl (bridge_error ''history_proof''), s)
     else case load_unlocked E i s of
         Inl e \<Rightarrow> (Inl e, s)
       | Inr b \<Rightarrow>
          if bt_turn b \<noteq> JNull \<and> \<not> py_eq (bt_turn b) turn then (Inl (bridge_error ''native_turn_changed''), s)
          else record_history E flt i evidence turn item s)"

definition mark_controller_acked :: "platform \<Rightarrow> fault \<Rightarrow> string \<Rightarrow> json \<Rightarrow> store \<Rightarrow> delivery_batch result \<times> store" where
  "mark_controller_acked E flt i ack s =
    (if \<not> bridge_hash ack then (Inl (bridge_error ''controller_ack''), s)
     else transition E flt i [''history_confirmed''] ''controller_acked'' [(''controller_ack_sha256'', ack)] s)"

section \<open>Queries\<close>

text \<open>The visible entries in the order of their names.\<close>

fun open_from :: "platform \<Rightarrow> store \<Rightarrow> json \<Rightarrow> json \<Rightarrow> (string \<times> entry) list \<Rightarrow> delivery_batch list result" where
  "open_from E s thread task [] = Inr []"
| "open_from E s thread task ((name, e) # rest) =
    (if \<not> is_dir e \<or> starts_with ''.'' name then open_from E s thread task rest
     else andThen (load_unlocked E name s) (\<lambda>b.
       andThen (open_from E s thread task rest) (\<lambda>bs.
       Inr (if py_eq (bt_thread b) thread \<and> py_eq (bt_task_id b) task \<and> bt_status b \<noteq> ''controller_acked'' then b # bs else bs))))"

definition open_batches :: "platform \<Rightarrow> json \<Rightarrow> json \<Rightarrow> store \<Rightarrow> delivery_batch list result" where
  "open_batches E thread task s = open_from E s thread task (sort_key fst s)"

definition find_open :: "platform \<Rightarrow> json \<Rightarrow> json \<Rightarrow> store \<Rightarrow> delivery_batch result" where
  "find_open E thread task s =
     andThen (open_batches E thread task s) (\<lambda>bs.
     ensure (length bs = 1) (bridge_error ''open_delivery_ambiguous'') (Inr (hd bs)))"

section \<open>The lock\<close>

text \<open>
  The lock file: absent (then it is created), a file, or something that cannot be opened without
  following a link. \<open>not_open\<close> is the exception of the latter, \<open>not_private\<close> that of a file with other attributes.
\<close>

datatype lock_node = LockAbsent | LockFile stat | LockBlocked

definition open_lock :: "platform \<Rightarrow> exn \<Rightarrow> exn \<Rightarrow> lock_node \<Rightarrow> lock_node result" where
  "open_lock E not_open not_private l = (case l of
      LockAbsent \<Rightarrow> Inr (LockFile (fl_stat (new_file E [])))
    | LockFile st \<Rightarrow> ensure (private_file E st) not_private (Inr (LockFile st))
    | LockBlocked \<Rightarrow> Inl not_open)"

record ledger =
  lg_lock :: lock_node
  lg_store :: store

definition ledger_locked :: "platform \<Rightarrow> (store \<Rightarrow> 'a result \<times> store) \<Rightarrow> ledger \<Rightarrow> 'a result \<times> ledger" where
  "ledger_locked E f lg = (case open_lock E (bridge_error ''ledger_lock'') (bridge_error ''ledger_lock'') (lg_lock lg) of
      Inl e \<Rightarrow> (Inl e, lg)
    | Inr l \<Rightarrow> (case f (lg_store lg) of (r, s') \<Rightarrow> (r, \<lparr>lg_lock = l, lg_store = s'\<rparr>)))"

text \<open>\<open>DeliveryLedger(root)\<close>, where \<open>made\<close> is what \<open>mkdir\<close> and then \<open>lstat\<close> gave.\<close>

definition ledger_init :: "platform \<Rightarrow> string \<Rightarrow> stat result \<Rightarrow> unit result" where
  "ledger_init E path made =
     ensure (is_absolute path) (bridge_error ''ledger_root'')
    (andThen (except_as made (bridge_error ''ledger_root'')) (\<lambda>st.
     ensure (private_dir E st) (bridge_error ''ledger_root'') (Inr ())))"

definition prepare_and_claim :: "platform \<Rightarrow> fault \<Rightarrow> bool \<Rightarrow> owner_attachment \<Rightarrow> string \<Rightarrow> json list \<Rightarrow> ledger \<Rightarrow> delivery_batch result \<times> ledger" where
  "prepare_and_claim E flt killed a task_id events lg =
    (case project_events E task_id events of
       Inl e \<Rightarrow> (Inl e, lg)
     | Inr (native, source) \<Rightarrow> ledger_locked E (prepare_unlocked E flt killed a task_id native source) lg)"

end
