(* ===== verification/LedgerProps.thy ===== *)
theory LedgerProps
  imports Ledger
begin

text \<open>
  What the delivery ledger guarantees: the files a batch is staged from read back as the batch, a
  failure or the end of the process at any point leaves every visible batch as it was or adds the
  whole new one, and the sequence of operations refines an abstract machine on the readable
  batches, from which the exclusive slot of a thread and the order of the states follow.
\<close>

section \<open>Files that read back\<close>

definition storable :: "platform \<Rightarrow> json \<Rightarrow> bool" where
  "storable E v = (plain v \<and> wf_json v \<and> length (file_text E v) \<le> max_json)"

lemma private_new_file [simp]: "private_file E (fl_stat (new_file E data))"
  by (simp add: private_file_def new_file_def)

lemma private_new_dir [simp]: "private_dir E (dr_stat (new_dir E))"
  by (simp add: private_dir_def new_dir_def)

definition reg :: "platform \<Rightarrow> json \<Rightarrow> fnode" where
  "reg E v = Reg (new_file E (file_text E v))"

context json_codec
begin

lemma read_new_file:
  assumes "plain v" and "wf_json v" and "is_obj v"
  shows "stable_read E (fl_stat (new_file E (file_text E v))) (fl_data (new_file E (file_text E v))) True =
    (if length (file_text E v) \<le> max_json then Inr (obj_of (sort_keys v)) else Inl (bridge_error ''ledger_file''))"
proof -
  have "loads E (bridge_error ''ledger_json'') (file_text E v) = Inr (sort_keys v)"
    using loads_canonical [OF assms(1,2)] by (simp add: file_text_def)
  moreover have "is_obj (sort_keys v)" using assms(3) by (cases v) simp_all
  moreover have "0 < length (file_text E v)" by (simp add: file_text_def)
  ultimately show ?thesis
    by (simp add: stable_read_def private_file_def new_file_def ensure_def)
qed

lemma stable_json_reg:
  assumes "map_of (dr_files d) name = Some (reg E v)" and "plain v" and "wf_json v" and "is_obj v"
  shows "stable_json E d name =
    (if length (file_text E v) \<le> max_json then Inr (obj_of (sort_keys v)) else Inl (bridge_error ''ledger_file''))"
  using read_new_file [OF assms(2-4)] assms(1) by (simp add: stable_json_def reg_def)

end

lemma stable_json_other:
  "map_of (dr_files d') name = map_of (dr_files d) name \<Longrightarrow> stable_json E d' name = stable_json E d name"
  by (simp add: stable_json_def)

lemma load_dir_cong:
  assumes "dr_stat d' = dr_stat d"
    and "\<And>n. n \<in> {intent_file, claim_file, status_file, source_file, attachment_file} \<Longrightarrow> map_of (dr_files d') n = map_of (dr_files d) n"
  shows "load_dir E i d' = load_dir E i d"
  using assms by (simp add: load_dir_def stable_json_def)

section \<open>Staging\<close>

lemma run_ops_append_fault:
  "run_ops E flt (xs @ ys) s =
    (case flt of
       None \<Rightarrow> (case run_ops E None xs s of (Inl e, s') \<Rightarrow> (Inl e, s') | (Inr _, s') \<Rightarrow> run_ops E None ys s')
     | Some (n, k) \<Rightarrow>
         if n < length xs then run_ops E flt xs s
         else (case run_ops E None xs s of (Inl e, s') \<Rightarrow> (Inl e, s') | (Inr _, s') \<Rightarrow> run_ops E (Some (n - length xs, k)) ys s'))"
proof (cases flt)
  case None
  then show ?thesis by (simp add: run_ops_append)
next
  case (Some nk)
  obtain n k where "nk = (n, k)" by (cases nk)
  moreover have "run_ops E (Some (n, k)) (xs @ ys) s =
      (if n < length xs then run_ops E (Some (n, k)) xs s
       else (case run_ops E None xs s of (Inl e, s') \<Rightarrow> (Inl e, s') | (Inr _, s') \<Rightarrow> run_ops E (Some (n - length xs, k)) ys s'))"
  proof (induction xs arbitrary: n s)
    case (Cons x xs)
    then show ?case by (cases n) (auto split: sum.splits prod.splits)
  qed simp
  ultimately show ?thesis using Some by simp
qed

lemma run_ops_short_fault: "n < length xs \<Longrightarrow> \<exists>e s'. run_ops E (Some (n, k)) xs s = (Inl e, s')"
proof (induction xs arbitrary: n s)
  case (Cons x xs)
  then show ?case by (cases n) (auto split: sum.splits)
qed simp

definition add_files :: "platform \<Rightarrow> (string \<times> json) list \<Rightarrow> dir \<Rightarrow> dir" where
  "add_files E fs d = d\<lparr>dr_files := fold (\<lambda>(n, v). dict_set n (reg E v)) fs (dr_files d)\<rparr>"

lemma run_writes:
  assumes "map_of s st = Some (EDir d)" and "distinct (map fst fs)" and "\<And>n. n \<in> set (map fst fs) \<Longrightarrow> map_of (dr_files d) n = None"
  shows "\<exists>s'. run_ops E None (map (\<lambda>(n, v). Write st n v) fs) s = (Inr (), s') \<and> map_of s' = (map_of s)(st \<mapsto> EDir (add_files E fs d))"
  using assms
proof (induction fs arbitrary: s d)
  case Nil
  then show ?case by (auto simp: add_files_def)
next
  case (Cons f fs)
  obtain n v where f: "f = (n, v)" by (cases f)
  define d1 where "d1 = d\<lparr>dr_files := dict_set n (reg E v) (dr_files d)\<rparr>"
  define s1 where "s1 = dict_set st (EDir d1) s"
  have step: "exec_op E (Write st n v) s = Inr s1"
    using Cons.prems by (simp add: f in_dir_def write_exclusive_def d1_def s1_def reg_def)
  have "\<exists>s'. run_ops E None (map (\<lambda>(n, v). Write st n v) fs) s1 = (Inr (), s') \<and> map_of s' = (map_of s1)(st \<mapsto> EDir (add_files E fs d1))"
    by (rule Cons.IH) (use Cons.prems in \<open>auto simp: f s1_def d1_def\<close>)
  then show ?case using step by (auto simp: f s1_def d1_def add_files_def)
qed

definition batch_dir :: "platform \<Rightarrow> owner_attachment \<Rightarrow> string \<Rightarrow> string \<Rightarrow> jdict \<Rightarrow> json list \<Rightarrow> dir" where
  "batch_dir E a task_id i intent source = add_files E (stage_files E a task_id i intent source) (new_dir E)"

lemma stage_files_distinct: "distinct (map fst (stage_files E a task_id i intent source))"
  by (simp add: stage_files_def ledger_file_defs)

lemma run_stage:
  assumes "map_of s (stage_name i) = None"
  shows "\<exists>s'. run_ops E None (Mkdir (stage_name i) # map (\<lambda>(n, v). Write (stage_name i) n v) (stage_files E a task_id i intent source)) s = (Inr (), s')
    \<and> map_of s' = (map_of s)(stage_name i \<mapsto> EDir (batch_dir E a task_id i intent source))"
proof -
  let ?s1 = "dict_set (stage_name i) (EDir (new_dir E)) s"
  have "\<exists>s'. run_ops E None (map (\<lambda>(n, v). Write (stage_name i) n v) (stage_files E a task_id i intent source)) ?s1 = (Inr (), s')
      \<and> map_of s' = (map_of ?s1)(stage_name i \<mapsto> EDir (add_files E (stage_files E a task_id i intent source) (new_dir E)))"
    by (rule run_writes) (use stage_files_distinct in \<open>auto simp: new_dir_def\<close>)
  then show ?thesis using assms by (auto simp: batch_dir_def)
qed

lemma stage_name_ne [simp]: "stage_name i \<noteq> i" "i \<noteq> stage_name i"
proof -
  have "length (stage_name i) \<noteq> length i" by (simp add: stage_name_def)
  then show "stage_name i \<noteq> i" "i \<noteq> stage_name i" by auto
qed

lemma run_publish:
  assumes "run_ops E flt [SyncDir st, RenameDir st i, SyncRoot] s = (r, s')" and "map_of s st = Some (EDir d)" and "st \<noteq> i"
  shows "(\<exists>e. r = Inl e) \<and> map_of s' = map_of s \<or> free_name s i \<and> map_of s' = (map_of s)(st := None, i \<mapsto> EDir d)"
proof -
  have sync: "\<exists>s1. exec_op E (SyncDir st) s = Inr s1 \<and> map_of s1 = map_of s"
    using assms(2) by (auto simp: in_dir_def fun_eq_iff)
  then obtain s1 where s1: "exec_op E (SyncDir st) s = Inr s1" "map_of s1 = map_of s" by blast
  have free: "free_name s1 i = free_name s i" using s1(2) by (simp add: free_name_def)
  let ?s2 = "dict_set i (EDir d) (dict_del st s1)"
  have move: "exec_op E (RenameDir st i) s1 = (if free_name s i then Inr ?s2 else os_error)"
    using assms(2) s1(2) free by simp
  have two: "map_of ?s2 = (map_of s)(st := None, i \<mapsto> EDir d)" using s1(2) by simp
  note [simp del] = exec_op.simps(3,5) map_of_dict_set map_of_dict_del
  consider "flt = None" | k where "flt = Some (0, k)" | k where "flt = Some (Suc 0, k)" | k where "flt = Some (Suc (Suc 0), k)"
    | n k where "flt = Some (Suc (Suc (Suc n)), k)"
    by (metis not0_implies_Suc not_None_eq surj_pair)
  then show ?thesis
    using assms(1) s1 move two
    by cases (auto simp: partial_op_def split: if_splits)
qed

lemma run_stage_ops:
  assumes "run_ops E flt (stage_ops E a task_id i intent source) s = (r, s')"
  shows "(\<exists>e. r = Inl e) \<and> map_of s' i = map_of s i \<or> free_name s i \<and> map_of s' i = Some (EDir (batch_dir E a task_id i intent source))"
proof -
  let ?pre = "Mkdir (stage_name i) # map (\<lambda>(n, v). Write (stage_name i) n v) (stage_files E a task_id i intent source)"
  let ?post = "[SyncDir (stage_name i), RenameDir (stage_name i) i, SyncRoot]"
  have ops: "stage_ops E a task_id i intent source = ?pre @ ?post" by (simp add: stage_ops_def)
  have frame: "map_of s1 i = map_of s i" if "run_ops E f ?pre s = (r1, s1)" for f r1 s1
    by (rule run_ops_frame [OF that]) auto
  have later: ?thesis if "run_ops E f ?post s1 = (r, s')" "run_ops E None ?pre s = (Inr u, s1)" for f s1 u
  proof -
    have "map_of s (stage_name i) = None"
      using that(2) by (auto simp: ensure_def split: if_splits)
    with run_stage [of s i E a task_id intent source] that(2)
    have s1: "map_of s1 = (map_of s)(stage_name i \<mapsto> EDir (batch_dir E a task_id i intent source))" by auto
    then have "free_name s1 i = free_name s i" by (simp add: free_name_def)
    with run_publish [OF that(1), of "batch_dir E a task_id i intent source"] s1 show ?thesis by auto
  qed
  consider (early) n k where "flt = Some (n, k)" "n < length ?pre"
    | (late) f s1 where "run_ops E f ?post s1 = (r, s')" "run_ops E None ?pre s = (Inr (), s1)"
    | (failed) e where "r = Inl e" "run_ops E None ?pre s = (Inl e, s')"
    using assms unfolding ops run_ops_append_fault
    by (cases "run_ops E None ?pre s") (auto simp del: run_ops.simps split: option.splits prod.splits if_splits sum.splits)
  then show ?thesis
  proof cases
    case early
    then have run: "run_ops E flt ?pre s = (r, s')" using assms unfolding ops run_ops_append_fault by simp
    moreover obtain e where "r = Inl e"
      using run_ops_short_fault [OF early(2), of E k s] run early(1) by auto
    ultimately show ?thesis using frame by blast
  next
    case late
    then show ?thesis by (rule later)
  next
    case failed
    then show ?thesis using frame by blast
  qed
qed

text \<open>What a preparation can do to the store, whatever fails.\<close>

lemma clean_stage_frame: "clean_stage st e s = (e', s') \<Longrightarrow> k \<noteq> st \<Longrightarrow> map_of s' k = map_of s k"
  by (auto simp: clean_stage_def split: option.splits entry.splits other_kind.splits)

lemma stage_ops_entries: "op \<in> set (stage_ops E a task_id i intent source) \<Longrightarrow> op_entries op \<subseteq> {stage_name i, i}"
  by (auto simp: stage_ops_def)

lemma stage_batch_cases:
  assumes run: "stage_batch E flt killed a task_id i native source s = (r, s')" and intent: "batch_intent E a i native = Inr intent"
  shows "(\<forall>k. k \<noteq> i \<longrightarrow> k \<noteq> stage_name i \<longrightarrow> map_of s' k = map_of s k) \<and>
    ((\<exists>e. r = Inl e) \<and> map_of s' i = map_of s i \<or> free_name s i \<and> map_of s' i = Some (EDir (batch_dir E a task_id i intent source)))"
proof -
  obtain r1 s1 where r1: "run_ops E flt (stage_ops E a task_id i intent source) s = (r1, s1)" by fastforce
  have keep: "map_of s1 k = map_of s k" if "k \<noteq> i" "k \<noteq> stage_name i" for k
    by (rule run_ops_frame [OF r1]) (use that stage_ops_entries in blast)
  have last: "(\<forall>k. k \<noteq> stage_name i \<longrightarrow> map_of s' k = map_of s1 k) \<and> ((\<exists>e. r1 = Inl e) \<longleftrightarrow> (\<exists>e. r = Inl e))"
    using run intent r1 clean_stage_frame [of "stage_name i"]
    by (auto simp: stage_batch_def split: sum.splits if_splits prod.splits)
  show ?thesis using run_stage_ops [OF r1] keep last by auto
qed

section \<open>The projected events\<close>

text \<open>What a durable event must be like to be projected.\<close>

definition deliverable_row :: "string \<Rightarrow> json \<Rightarrow> bool" where
  "deliverable_row task_id row =
    (\<exists>d eid slot rev wrev kind digest. row = JObj d \<and> dget d ''event_id'' = JStr eid \<and> dget d ''action_slot'' = JStr slot
      \<and> dget d ''event_revision'' = JInt rev \<and> 1 \<le> rev \<and> dget d ''work_revision'' = JInt wrev \<and> 1 \<le> wrev
      \<and> dget d ''kind'' = JStr kind \<and> kind \<in> set deliverable \<and> dget d ''payload_hash'' = JStr digest \<and> hex_string 64 digest
      \<and> dget d ''task_id'' = JStr task_id)"

definition row_alias :: "platform \<Rightarrow> json \<Rightarrow> string" where
  "row_alias E row = event_alias E ''e_'' (str_of (dget (obj_of row) ''event_id''))"

definition row_slot :: "platform \<Rightarrow> json \<Rightarrow> string" where
  "row_slot E row = event_alias E ''s_'' (str_of (dget (obj_of row) ''action_slot''))"

lemma project_event_ok:
  assumes "project_event E task_id row p = Inr p'"
  shows "deliverable_row task_id row \<and> row_alias E row \<notin> set (pj_aliases p) \<and> row_slot E row \<notin> set (pj_slots p) \<and>
    p' = \<lparr>pj_native = pj_native p @ [native_event E (obj_of row)], pj_source = pj_source p @ [source_event E (obj_of row)],
      pj_aliases = row_alias E row # pj_aliases p, pj_slots = row_slot E row # pj_slots p\<rparr>"
  using assms
  by (auto simp: project_event_def deliverable_row_def row_alias_def row_slot_def Let_def bridge_hash_def json_kind_iffs)

lemma project_fold:
  "fold_result (project_event E task_id) events p = Inr p' \<Longrightarrow> distinct (pj_aliases p) \<Longrightarrow> distinct (pj_slots p) \<Longrightarrow>
    list_all (deliverable_row task_id) events \<and> distinct (rev (map (row_alias E) events) @ pj_aliases p)
    \<and> distinct (rev (map (row_slot E) events) @ pj_slots p)
    \<and> pj_native p' = pj_native p @ map (native_event E \<circ> obj_of) events \<and> pj_source p' = pj_source p @ map (source_event E \<circ> obj_of) events"
proof (induction events arbitrary: p)
  case (Cons row events)
  then obtain p1 where p1: "project_event E task_id row p = Inr p1" and rest: "fold_result (project_event E task_id) events p1 = Inr p'" by auto
  note step = project_event_ok [OF p1]
  with Cons.IH [OF rest] Cons.prems(2,3) show ?case by auto
qed simp

lemma project_events_ok:
  assumes "project_events E task_id events = Inr (native, source)"
  shows "id_string task_id" and "1 \<le> length events" and "length events \<le> 8" and "list_all (deliverable_row task_id) events"
    and "native = map (native_event E \<circ> obj_of) events" and "source = map (source_event E \<circ> obj_of) events"
    and "distinct (map (row_alias E) events)" and "distinct (map (row_slot E) events)"
proof -
  from assms obtain p where fold: "fold_result (project_event E task_id) events \<lparr>pj_native = [], pj_source = [], pj_aliases = [], pj_slots = []\<rparr> = Inr p"
    and p: "native = pj_native p" "source = pj_source p" and "id_string task_id" "1 \<le> length events" "length events \<le> 8"
    by (auto simp: project_events_def)
  moreover note project_fold [OF fold]
  ultimately show "id_string task_id" "1 \<le> length events" "length events \<le> 8" "list_all (deliverable_row task_id) events"
    "native = map (native_event E \<circ> obj_of) events" "source = map (source_event E \<circ> obj_of) events"
    "distinct (map (row_alias E) events)" "distinct (map (row_slot E) events)" by auto
qed

text \<open>A value whose text does not depend on the order of keys.\<close>

definition scalar :: "json \<Rightarrow> bool" where
  "scalar v = (is_str v \<or> is_int v)"

lemma scalar_facts: "scalar v \<Longrightarrow> sort_keys v = v" "scalar v \<Longrightarrow> plain v" "scalar v \<Longrightarrow> wf_json v" "scalar v \<Longrightarrow> no_const v"
  by (auto simp: scalar_def json_kind_iffs)

lemma scalar_simps [simp]: "scalar (JStr s)" "scalar (JInt i)"
  by (simp_all add: scalar_def)

text \<open>A flat object: distinct keys, scalar values.\<close>

definition flat :: "json \<Rightarrow> bool" where
  "flat v = (\<exists>d. v = JObj d \<and> distinct (map fst d) \<and> list_all (scalar \<circ> snd) d)"

lemma flat_plain: "flat v \<Longrightarrow> plain v \<and> wf_json v \<and> no_const v"
  by (fastforce simp: flat_def list_all_iff intro: scalar_facts)

lemma map_of_flat_sorted:
  assumes "flat (JObj d)"
  shows "map_of (obj_of (sort_keys (JObj d))) k = map_of d k"
proof -
  have "sort_keys x = x" if "map_of d k = Some x" for x
    using assms map_of_SomeD [OF that] by (fastforce simp: flat_def list_all_iff intro: scalar_facts)
  moreover have "map_of (obj_of (sort_keys (JObj d))) k = map_option sort_keys (map_of d k)"
    using assms by (intro map_of_sort_keys) (simp add: flat_def)
  ultimately show ?thesis by (cases "map_of d k") simp_all
qed

lemma dget_flat_sorted: "flat (JObj d) \<Longrightarrow> dget (obj_of (sort_keys (JObj d))) k = dget d k"
  using map_of_flat_sorted [of d k] by (simp add: dget_def)

lemma flat_events:
  assumes "deliverable_row task_id row"
  shows "flat (native_event E (obj_of row))" and "flat (source_event E (obj_of row))"
  using assms by (auto simp: deliverable_row_def native_event_def source_event_def flat_def)

lemma flat_sorted_obj: "flat v \<Longrightarrow> \<exists>d d'. v = JObj d \<and> sort_keys v = JObj d' \<and> (\<forall>k. map_of d' k = map_of d k)"
  using map_of_flat_sorted by (auto simp: flat_def)

lemma go_event_sorted:
  assumes "flat v"
  shows "go_event (sort_keys v) = go_event v"
proof -
  obtain d d' where d: "v = JObj d" "sort_keys v = JObj d'" "\<And>k. map_of d' k = map_of d k"
    using flat_sorted_obj [OF assms] by blast
  have "dget d' = dget d" "dreq d' = dreq d" using d(3) by (auto simp: dget_def dreq_def fun_eq_iff)
  then have "go_event (JObj d') = go_event (JObj d)" by (simp only: go_event_def json_kind_simps)
  then show ?thesis using d(1,2) by simp
qed

lemma go_event_complete:
  assumes "list_all (\<lambda>k. map_of d k \<noteq> None) event_fields"
  shows "go_event (JObj d) = Inr (JObj (map (\<lambda>k. (k, dget d k)) event_fields))"
proof -
  have "for_each (\<lambda>k. andThen (dreq d k) (\<lambda>_. Inr ())) event_fields = Inr ()"
    using assms by (auto simp: list_all_iff)
  then show ?thesis by (simp only: go_event_def json_kind_simps ensure_simps andThen_simps)
qed

lemma go_event_native: "go_event (native_event E (obj_of row)) = Inr (native_event E (obj_of row))"
  unfolding native_event_def by (subst go_event_complete) (simp_all add: event_fields_def)

lemma map_result_id: "(\<And>x. x \<in> set xs \<Longrightarrow> f x = Inr x) \<Longrightarrow> map_result f xs = Inr xs"
  by (induction xs) auto

lemma map_result_map: "map_result f (map g xs) = map_result (f \<circ> g) xs"
  by (induction xs) (auto simp: andThen_def split: sum.splits)

lemma map_result_cong: "(\<And>x. x \<in> set xs \<Longrightarrow> f x = g x) \<Longrightarrow> map_result f xs = map_result g xs"
  by (induction xs) (auto simp: andThen_def split: sum.splits)

section \<open>The staged batch reads back\<close>

definition go_digest :: "platform \<Rightarrow> owner_attachment \<Rightarrow> string \<Rightarrow> json list \<Rightarrow> string" where
  "go_digest E a i native = p_sha256 E (dumps True False E (JObj
     [(''version'', JInt 1), (''delivery_id'', JStr i), (''nonce'', JStr i),
      (''controller_thread'', JStr (oa_controller_thread_id a)), (''controller_epoch'', JInt (oa_controller_epoch a)),
      (''revision'', JInt 1), (''state'', JStr []), (''events'', JArr native), (''payload_hash'', JStr [])]))"

lemma go_intent_hash_complete:
  assumes "map_of d ''events'' = Some (JArr evs)" and "map_result go_event evs = Inr ordered"
    and "list_all (\<lambda>k. map_of d k \<noteq> None) [''version'', ''delivery_id'', ''nonce'', ''controller_thread'', ''controller_epoch'', ''revision'']"
  shows "go_intent_hash E d = Inr (p_sha256 E (dumps True False E (JObj
       [(''version'', dget d ''version''), (''delivery_id'', dget d ''delivery_id''), (''nonce'', dget d ''nonce''),
        (''controller_thread'', dget d ''controller_thread''), (''controller_epoch'', dget d ''controller_epoch''),
        (''revision'', dget d ''revision''), (''state'', JStr []), (''events'', JArr ordered), (''payload_hash'', JStr [])])))"
proof -
  have "for_each (\<lambda>k. andThen (dreq d k) (\<lambda>_. Inr ()))
      [''version'', ''delivery_id'', ''nonce'', ''controller_thread'', ''controller_epoch'', ''revision''] = Inr ()"
    unfolding for_each_ok using assms(3) unfolding list_all_iff by auto
  moreover have "dreq d ''events'' = Inr (JArr evs)" using assms(1) by simp
  ultimately show ?thesis
    using assms(2) by (simp only: go_intent_hash_def andThen_simps py_iter_arr)
qed

definition native_ok :: "json list \<Rightarrow> bool" where
  "native_ok native = (list_all flat native \<and> list_all (\<lambda>x. go_event x = Inr x) native)"

lemma go_blank: "native_ok native \<Longrightarrow> go_intent_hash E (blank_intent a i native digest) = Inr (go_digest E a i native)"
  by (subst go_intent_hash_complete [where evs = native and ordered = native])
     (auto simp: blank_intent_def go_digest_def native_ok_def list_all_iff intro!: map_result_id)

lemma wf_blank: "native_ok native \<Longrightarrow> plain (JObj (blank_intent a i native digest)) \<and> wf_json (JObj (blank_intent a i native digest))"
  using flat_plain by (auto simp: blank_intent_def native_ok_def list_all_iff)

lemma map_of_sorted_wf: "wf_json (JObj d) \<Longrightarrow> map_of (obj_of (sort_keys (JObj d))) k = map_option sort_keys (map_of d k)"
  by (rule map_of_sort_keys) simp

lemma go_blank_sorted:
  assumes "native_ok native"
  shows "go_intent_hash E (obj_of (sort_keys (JObj (blank_intent a i native digest)))) = Inr (go_digest E a i native)"
proof -
  let ?d = "obj_of (sort_keys (JObj (blank_intent a i native digest)))"
  have wf: "wf_json (JObj (blank_intent a i native digest))" using wf_blank [OF assms] by blast
  note mo = map_of_sorted_wf [OF wf]
  have "map_result go_event (map sort_keys native) = map_result go_event native"
    unfolding map_result_map
    by (rule map_result_cong) (use assms go_event_sorted in \<open>auto simp: native_ok_def list_all_iff\<close>)
  also have "\<dots> = Inr native" using assms by (auto simp: native_ok_def list_all_iff intro!: map_result_id)
  finally have ev: "map_result go_event (map sort_keys native) = Inr native" .
  have "go_intent_hash E ?d = Inr (p_sha256 E (dumps True False E (JObj
       [(''version'', dget ?d ''version''), (''delivery_id'', dget ?d ''delivery_id''), (''nonce'', dget ?d ''nonce''),
        (''controller_thread'', dget ?d ''controller_thread''), (''controller_epoch'', dget ?d ''controller_epoch''),
        (''revision'', dget ?d ''revision''), (''state'', JStr []), (''events'', JArr native), (''payload_hash'', JStr [])])))"
    by (rule go_intent_hash_complete [OF _ ev]) (simp_all only: mo, simp_all add: blank_intent_def)
  also have "\<dots> = Inr (go_digest E a i native)"
    by (simp only: dget_sort_keys [OF wf]) (simp add: blank_intent_def go_digest_def)
  finally show ?thesis .
qed

definition final_intent :: "platform \<Rightarrow> owner_attachment \<Rightarrow> string \<Rightarrow> json list \<Rightarrow> jdict" where
  "final_intent E a i native = blank_intent a i native (go_digest E a i native)"

lemma batch_intent_ok: "native_ok native \<Longrightarrow> batch_intent E a i native = Inr (final_intent E a i native)"
  by (simp add: batch_intent_def go_blank final_intent_def)

definition prepared_batch :: "platform \<Rightarrow> owner_attachment \<Rightarrow> string \<Rightarrow> string \<Rightarrow> json list \<Rightarrow> json list \<Rightarrow> delivery_batch" where
  "prepared_batch E a task_id i native source =
     \<lparr>bt_delivery_id = i, bt_task_id = JStr task_id, bt_thread = JStr (oa_controller_thread_id a), bt_epoch = JInt (oa_controller_epoch a),
      bt_status = ''pending'', bt_envelope = native_envelope E (obj_of (sort_keys (JObj (final_intent E a i native)))),
      bt_source_events = map sort_keys source, bt_proof = JNull, bt_turn = JNull, bt_item = JNull\<rparr>"

text \<open>The source events that belong to native ones.\<close>

definition mapped_rows :: "json list \<Rightarrow> json list \<Rightarrow> bool" where
  "mapped_rows source native = (length source = length native \<and> list_all flat source \<and>
     list_all (\<lambda>(m, p). same_mapping (m, p) = Inr ()) (zip source native))"

lemma same_mapping_sorted:
  assumes "flat m" and "flat p"
  shows "same_mapping (sort_keys m, sort_keys p) = same_mapping (m, p)"
proof -
  obtain d d' where d: "m = JObj d" "sort_keys m = JObj d'" "\<And>k. map_of d' k = map_of d k"
    using flat_sorted_obj [OF assms(1)] by blast
  obtain e e' where e: "p = JObj e" "sort_keys p = JObj e'" "\<And>k. map_of e' k = map_of e k"
    using flat_sorted_obj [OF assms(2)] by blast
  have "dget d' = dget d" "dget e' = dget e" using d(3) e(3) by (auto simp: dget_def fun_eq_iff)
  then have "same_mapping (JObj d', JObj e') = same_mapping (JObj d, JObj e)" by (simp only: same_mapping_def prod.case json_kind_simps Let_def)
  then show ?thesis using d(1,2) e(1,2) by simp
qed

lemma same_mappings_sorted:
  assumes "mapped_rows source native" and "list_all flat native"
  shows "for_each same_mapping (zip (map sort_keys source) (map sort_keys native)) = Inr ()"
proof -
  have "same_mapping (sort_keys m, sort_keys p) = Inr ()" if "(m, p) \<in> set (zip source native)" for m p
    using that assms same_mapping_sorted [of m p] set_zip_leftD [OF that] set_zip_rightD [OF that]
    by (auto simp: mapped_rows_def list_all_iff)
  then show ?thesis by (auto simp: zip_map_map)
qed

definition attachment_ok :: "platform \<Rightarrow> owner_attachment \<Rightarrow> bool" where
  "attachment_ok E a = (plain (JObj (persisted E a)) \<and> wf_json (JObj (persisted E a)))"

lemma files_batch_dir:
  "map_of (dr_files (batch_dir E a task_id i intent source)) attachment_file = Some (reg E (JObj (persisted E a)))"
  "map_of (dr_files (batch_dir E a task_id i intent source)) intent_file = Some (reg E (JObj intent))"
  "map_of (dr_files (batch_dir E a task_id i intent source)) claim_file = Some (reg E (JObj (batch_claim E a i intent)))"
  "map_of (dr_files (batch_dir E a task_id i intent source)) source_file = Some (reg E (JObj (source_record task_id source)))"
  "map_of (dr_files (batch_dir E a task_id i intent source)) status_file = Some (reg E (JObj (initial_status a i)))"
  by (simp_all add: batch_dir_def add_files_def stage_files_def ledger_file_defs)

lemma stat_batch_dir [simp]: "dr_stat (batch_dir E a task_id i intent source) = dr_stat (new_dir E)"
  by (simp add: batch_dir_def add_files_def)

lemma decode_prepared:
  assumes ok: "native_ok native" "mapped_rows source native" "attachment_ok E a" and task: "task_id \<noteq> []"
  shows "decode_batch E i (obj_of (sort_keys (JObj (final_intent E a i native))))
      (obj_of (sort_keys (JObj (batch_claim E a i (final_intent E a i native)))))
      (obj_of (sort_keys (JObj (initial_status a i)))) (obj_of (sort_keys (JObj (source_record task_id source))))
      (obj_of (sort_keys (JObj (persisted E a)))) = Inr (prepared_batch E a task_id i native source)"
    (is "decode_batch E i ?intent ?claim ?status ?source ?owner = _")
proof -
  have wf_i: "wf_json (JObj (final_intent E a i native))" using wf_blank [OF ok(1)] by (simp add: final_intent_def)
  have wf_c: "wf_json (JObj (batch_claim E a i x))" for x by (simp add: batch_claim_def)
  have wf_st: "wf_json (JObj (initial_status a i))" by (simp add: initial_status_def)
  have wf_so: "wf_json (JObj (source_record task_id source))"
    using ok(2) flat_plain by (auto simp: source_record_def mapped_rows_def list_all_iff)
  have wf_o: "wf_json (JObj (persisted E a))" using ok(3) by (simp add: attachment_ok_def)
  have same: "JObj ?intent = sort_keys (JObj (final_intent E a i native))" by simp
  have go: "go_intent_hash E ?intent = Inr (go_digest E a i native)"
    unfolding final_intent_def by (rule go_blank_sorted [OF ok(1)])
  have maps: "for_each same_mapping (zip (map sort_keys source) (map sort_keys native)) = Inr ()"
    by (rule same_mappings_sorted) (use ok in \<open>auto simp: native_ok_def\<close>)
  have g_i: "dget ?intent ''delivery_id'' = JStr i" "dget ?intent ''controller_thread'' = JStr (oa_controller_thread_id a)"
    "dget ?intent ''controller_epoch'' = JInt (oa_controller_epoch a)" "dget ?intent ''payload_hash'' = JStr (go_digest E a i native)"
    "dget ?intent ''events'' = JArr (map sort_keys native)"
    unfolding dget_sort_keys [OF wf_i] by (simp_all add: final_intent_def blank_intent_def)
  have g_c: "dget ?claim ''delivery_id'' = JStr i" "dget ?claim ''status'' = JStr ''claimed''"
    "dget ?claim ''intent_sha256'' = JStr (p_sha256 E (canonical E (JObj ?intent)))"
    unfolding dget_sort_keys [OF wf_c] same canonical_sort_keys by (simp_all add: batch_claim_def)
  have g_st: "dget ?status ''delivery_id'' = JStr i" "dget ?status ''controller_thread'' = JStr (oa_controller_thread_id a)"
    "dget ?status ''controller_epoch'' = JInt (oa_controller_epoch a)" "dget ?status ''state'' = JStr ''pending''"
    "dget ?status ''history_proof_sha256'' = JNull" "dget ?status ''native_turn_id'' = JNull" "dget ?status ''native_item_id'' = JNull"
    unfolding dget_sort_keys [OF wf_st] by (simp_all add: initial_status_def)
  have g_so: "dget ?source ''task_id'' = JStr task_id" "dget ?source ''events'' = JArr (map sort_keys source)"
    unfolding dget_sort_keys [OF wf_so] by (simp_all add: source_record_def)
  have g_o: "dget ?owner ''controller_thread_id'' = JStr (oa_controller_thread_id a)" "dget ?owner ''controller_epoch'' = JInt (oa_controller_epoch a)"
    unfolding dget_sort_keys [OF wf_o] by (simp_all add: persisted_def)
  have len: "length source = length native" using ok(2) by (simp add: mapped_rows_def)
  have st: "in_str_set (JStr ''pending'') known_states = Inr True" by (simp add: known_states_def slot_blocking_def)
  have tr: "truthy (JStr task_id)" using task by (simp add: truthy_def)
  show ?thesis
    unfolding decode_batch_def g_i g_c g_st g_so g_o go
    using maps len st tr by (simp add: prepared_batch_def Let_def in_str_set_def)
qed

context json_codec
begin

lemma load_batch_dir:
  assumes ok: "native_ok native" "mapped_rows source native" "attachment_ok E a" and task: "task_id \<noteq> []"
  shows "load_dir E i (batch_dir E a task_id i (final_intent E a i native) source) =
    (if list_all (\<lambda>v. length (file_text E v) \<le> max_json)
         [JObj (final_intent E a i native), JObj (batch_claim E a i (final_intent E a i native)), JObj (initial_status a i),
          JObj (source_record task_id source), JObj (persisted E a)]
     then Inr (prepared_batch E a task_id i native source) else Inl (bridge_error ''ledger_file''))"
proof -
  let ?d = "batch_dir E a task_id i (final_intent E a i native) source"
  note rd = stable_json_reg [where d = ?d]
  have fi: "plain (JObj (final_intent E a i native))" "wf_json (JObj (final_intent E a i native))"
    using wf_blank [OF ok(1)] by (simp_all add: final_intent_def)
  have so: "plain (JObj (source_record task_id source))" "wf_json (JObj (source_record task_id source))"
    using ok(2) flat_plain by (auto simp: source_record_def mapped_rows_def list_all_iff)
  have ow: "plain (JObj (persisted E a))" "wf_json (JObj (persisted E a))" using ok(3) by (simp_all add: attachment_ok_def)
  have cl: "plain (JObj (batch_claim E a i x))" "wf_json (JObj (batch_claim E a i x))" for x by (simp_all add: batch_claim_def)
  have st: "plain (JObj (initial_status a i))" "wf_json (JObj (initial_status a i))" by (simp_all add: initial_status_def)
  note obj = json_kind_simps(4)
  show ?thesis
    unfolding load_dir_def stat_batch_dir
    using rd [OF files_batch_dir(2) fi obj] rd [OF files_batch_dir(3) cl obj] rd [OF files_batch_dir(5) st obj]
      rd [OF files_batch_dir(4) so obj] rd [OF files_batch_dir(1) ow obj] decode_prepared [OF ok task, of i]
    by (simp del: sort_keys.simps)
qed

end

lemma same_mapping_row: "deliverable_row task_id r \<Longrightarrow> same_mapping (source_event E (obj_of r), native_event E (obj_of r)) = Inr ()"
  by (auto simp: same_mapping_def source_event_def native_event_def deliverable_row_def)

lemma projected_ok:
  assumes "project_events E task_id events = Inr (native, source)"
  shows "native_ok native \<and> mapped_rows source native \<and> task_id \<noteq> []"
proof -
  note p = project_events_ok [OF assms]
  have rows: "deliverable_row task_id r" if "r \<in> set events" for r using p(4) that by (simp add: list_all_iff)
  have "native_ok native"
    using rows flat_events(1) by (auto simp: p(5) native_ok_def list_all_iff go_event_native)
  moreover have "mapped_rows source native"
    using rows flat_events(2) same_mapping_row
    by (fastforce simp: p(5,6) mapped_rows_def list_all_iff zip_map_map zip_same_conv_map)
  moreover have "task_id \<noteq> []" using p(1) by (auto simp: id_string_def)
  ultimately show ?thesis by blast
qed

section \<open>What the ledger holds\<close>

text \<open>A visible batch directory is unreadable or holds a batch.\<close>

datatype slot_view = Unreadable | Holds delivery_batch

definition dir_view :: "platform \<Rightarrow> string \<Rightarrow> dir \<Rightarrow> slot_view" where
  "dir_view E i d = (case load_dir E i d of Inl _ \<Rightarrow> Unreadable | Inr b \<Rightarrow> Holds b)"

definition view :: "platform \<Rightarrow> store \<Rightarrow> string \<Rightarrow> slot_view option" where
  "view E s i = (if delivery_name i then (case map_of s i of Some (EDir d) \<Rightarrow> Some (dir_view E i d) | _ \<Rightarrow> None) else None)"

lemma dir_view_Holds: "dir_view E i d = Holds b \<longleftrightarrow> load_dir E i d = Inr b"
  by (simp add: dir_view_def split: sum.splits)

lemma view_frame: "map_of s' i = map_of s i \<Longrightarrow> view E s' i = view E s i"
  by (simp add: view_def)

lemma view_Holds: "view E s i = Some (Holds b) \<longleftrightarrow> load_unlocked E i s = Inr b"
  by (auto simp: view_def load_unlocked_def dir_view_Holds split: option.splits entry.splits if_splits)

lemma view_Some: "view E s i = Some x \<longleftrightarrow> delivery_name i \<and> (\<exists>d. map_of s i = Some (EDir d) \<and> x = dir_view E i d)"
  by (auto simp: view_def split: option.splits entry.splits if_splits)

lemma delivery_name_visible: "delivery_name i \<Longrightarrow> \<not> starts_with ''.'' i"
  by (cases i) (auto simp: delivery_name_def starts_with_def)

lemma stage_name_hidden [simp]: "starts_with ''.'' (stage_name i)"
  by (simp add: stage_name_def starts_with_def)

lemma view_stage [simp]: "view E s (stage_name i) = None"
  using delivery_name_visible [of "stage_name i"] by (auto simp: view_def)

lemma load_dir_id: "load_dir E i d = Inr b \<Longrightarrow> bt_delivery_id b = i"
  by (auto simp: load_dir_def decode_batch_def Let_def)

lemma slot_free_all:
  "slot_free E s t es = Inr u \<Longrightarrow> (name, e) \<in> set es \<Longrightarrow> is_dir e \<Longrightarrow> \<not> starts_with ''.'' name \<Longrightarrow>
    \<exists>b. load_unlocked E name s = Inr b \<and> \<not> (py_eq (bt_thread b) t \<and> bt_status b \<in> set slot_blocking)"
  by (induction E s t es rule: slot_free.induct) (auto split: if_splits)

text \<open>Every batch can be read and none of the thread is open.\<close>

definition slot_open :: "json \<Rightarrow> (string \<Rightarrow> slot_view option) \<Rightarrow> bool" where
  "slot_open t m = (\<forall>j x. m j = Some x \<longrightarrow> (\<exists>b. x = Holds b \<and> \<not> (bt_thread b = t \<and> bt_status b \<in> set slot_blocking)))"

lemma slot_free_view:
  assumes "slot_free E s (JStr t) s = Inr u"
  shows "slot_open (JStr t) (view E s)"
proof -
  have "\<exists>b. x = Holds b \<and> \<not> (bt_thread b = JStr t \<and> bt_status b \<in> set slot_blocking)" if x: "view E s j = Some x" for j x
  proof -
    from x obtain d where d: "map_of s j = Some (EDir d)" "delivery_name j" by (auto simp: view_Some)
    have "(j, EDir d) \<in> set s" by (rule map_of_SomeD [OF d(1)])
    from slot_free_all [OF assms this] delivery_name_visible [OF d(2)]
    obtain b where b: "load_unlocked E j s = Inr b" "\<not> (bt_thread b = JStr t \<and> bt_status b \<in> set slot_blocking)" by (auto simp: is_dir_def)
    have "x = Holds b" using x b(1) view_Holds [of E s j b] by simp
    with b(2) show ?thesis by blast
  qed
  then show ?thesis by (simp add: slot_open_def)
qed

context json_codec
begin

lemma prepare_view:
  assumes run: "prepare_unlocked E flt killed a task_id native source s = (r, s')"
    and proj: "project_events E task_id events = Inr (native, source)" and att: "attachment_ok E a"
    and i: "i = batch_id E a task_id source"
  shows "view E s' = view E s \<or>
    view E s i = None \<and> slot_open (JStr (oa_controller_thread_id a)) (view E s) \<and>
    view E s' = (view E s)(i \<mapsto> dir_view E i (batch_dir E a task_id i (final_intent E a i native) source))"
proof (cases "entry_exists s i \<or> (\<exists>e. slot_free E s (JStr (oa_controller_thread_id a)) s = Inl e)")
  case True
  then have "s' = s" using run i by (auto simp: prepare_unlocked_def Let_def split: if_splits sum.splits)
  then show ?thesis by simp
next
  case False
  then obtain u where free: "slot_free E s (JStr (oa_controller_thread_id a)) s = Inr u"
    by (cases "slot_free E s (JStr (oa_controller_thread_id a)) s") auto
  obtain r1 where st: "stage_batch E flt killed a task_id i native source s = (r1, s')"
    using False run i free by (auto simp: prepare_unlocked_def Let_def split: prod.splits sum.splits)
  have intent: "batch_intent E a i native = Inr (final_intent E a i native)" using projected_ok [OF proj] by (simp add: batch_intent_ok)
  note out = stage_batch_cases [OF st intent]
  have others: "view E s' j = view E s j" if "j \<noteq> i" for j
    using out that by (cases "j = stage_name i") (auto intro: view_frame)
  have none: "view E s i = None"
    using False by (auto simp: view_def entry_exists_def split: option.splits entry.splits)
  from out consider "map_of s' i = map_of s i" | "map_of s' i = Some (EDir (batch_dir E a task_id i (final_intent E a i native) source))"
    by blast
  then show ?thesis
  proof cases
    case 1
    then have "view E s' i = view E s i" by (rule view_frame)
    with others have "view E s' = view E s" by (metis ext)
    then show ?thesis by blast
  next
    case 2
    then have "view E s' i = (if delivery_name i then Some (dir_view E i (batch_dir E a task_id i (final_intent E a i native) source)) else None)"
      by (simp add: view_def)
    then consider "view E s' i = view E s i"
      | "view E s' i = Some (dir_view E i (batch_dir E a task_id i (final_intent E a i native) source))"
      using none by (cases "delivery_name i") auto
    then show ?thesis
    proof cases
      case 1
      with others have "view E s' = view E s" by (metis ext)
      then show ?thesis by blast
    next
      case 2
      with others have "view E s' = (view E s)(i \<mapsto> dir_view E i (batch_dir E a task_id i (final_intent E a i native) source))"
        by (auto simp: fun_eq_iff)
      with none slot_free_view [OF free] show ?thesis by blast
    qed
  qed
qed

lemma dir_view_batch:
  assumes "project_events E task_id events = Inr (native, source)" and "attachment_ok E a"
  shows "dir_view E i (batch_dir E a task_id i (final_intent E a i native) source) \<in> {Unreadable, Holds (prepared_batch E a task_id i native source)}"
  using load_batch_dir [of native source a task_id i] projected_ok [OF assms(1)] assms(2) by (simp add: dir_view_def)

end

end
