(* ===== verification/LedgerMachine.thy ===== *)
theory LedgerMachine
  imports LedgerProps
begin

text \<open>
  The delivery ledger as a machine: every operation, run by any process and cut short at any point,
  moves the readable batches along an abstract step relation (or leaves them alone). The claims on
  the slot of a thread, on the order of the states and on the evidence behind an acknowledgement
  are invariants of that relation.
\<close>

section \<open>The effect of a transition on the store\<close>

lemma status_stage_ne [simp]:
  "status_stage E \<noteq> status_file" "status_stage E \<noteq> intent_file" "status_stage E \<noteq> claim_file"
  "status_stage E \<noteq> source_file" "status_stage E \<noteq> attachment_file"
  by (simp_all add: status_stage_def ledger_file_defs)

text \<open>\<open>unpublished\<close>: only the staged status differs; \<open>published\<close>: the staged status has replaced the file.\<close>

definition unpublished :: "platform \<Rightarrow> dir \<Rightarrow> dir \<Rightarrow> bool" where
  "unpublished E d d' = (dr_stat d' = dr_stat d \<and> (\<forall>n. n \<noteq> status_stage E \<longrightarrow> map_of (dr_files d') n = map_of (dr_files d) n))"

definition published :: "platform \<Rightarrow> json \<Rightarrow> dir \<Rightarrow> dir \<Rightarrow> bool" where
  "published E v d d' = (dr_stat d' = dr_stat d \<and> map_of (dr_files d') = (map_of (dr_files d))(status_stage E := None, status_file \<mapsto> reg E v))"

lemma run_transition:
  assumes run: "run_ops E flt (transition_ops E i status) s = (r, s')" and d: "map_of s i = Some (EDir d)"
  shows "\<exists>d'. map_of s' = (map_of s)(i \<mapsto> EDir d') \<and>
    ((\<exists>e. r = Inl e) \<and> unpublished E d d' \<or> published E (JObj status) d d')"
proof -
  let ?w = "Write i (status_stage E) (JObj status)" and ?m = "RenameFile i (status_stage E) status_file"
  define d1 where "d1 = d\<lparr>dr_files := dict_set (status_stage E) (reg E (JObj status)) (dr_files d)\<rparr>"
  define d2 where "d2 = d1\<lparr>dr_files := dict_set status_file (reg E (JObj status)) (dict_del (status_stage E) (dr_files d1))\<rparr>"
  define s1 where "s1 = dict_set i (EDir d1) s"
  define s2 where "s2 = dict_set i (EDir d2) s1"
  have w: "exec_op E ?w s = (if map_of (dr_files d) (status_stage E) = None then Inr s1 else Inl (bridge_error ''ledger_write''))"
    using d by (simp add: in_dir_def write_exclusive_def s1_def d1_def reg_def ensure_def)
  have m: "exec_op E ?m s1 = Inr s2"
    by (simp add: in_dir_def rename_file_def s1_def s2_def d1_def d2_def)
  have sync: "\<exists>s3. exec_op E (SyncDir i) s2 = Inr s3 \<and> map_of s3 = map_of s2"
    by (auto simp: in_dir_def s2_def fun_eq_iff)
  then obtain s3 where s3: "exec_op E (SyncDir i) s2 = Inr s3" "map_of s3 = map_of s2" by blast
  have u: "unpublished E d d1" "unpublished E d d" by (simp_all add: unpublished_def d1_def)
  have p: "published E (JObj status) d d2" by (auto simp: published_def d2_def d1_def)
  have ms: "map_of s1 = (map_of s)(i \<mapsto> EDir d1)" "map_of s2 = (map_of s)(i \<mapsto> EDir d2)" "map_of s = (map_of s)(i \<mapsto> EDir d)"
    using d by (auto simp: s1_def s2_def fun_eq_iff)
  have part: "\<exists>d'. map_of (partial_op E k ?w s) = (map_of s)(i \<mapsto> EDir d') \<and> unpublished E d d'" for k
  proof (cases "map_of (dr_files d) (status_stage E) = None \<and> 0 < k")
    case True
    then show ?thesis using d by (auto simp: partial_op_def unpublished_def)
  next
    case False
    then show ?thesis using d ms(3) u(2) by (auto simp: partial_op_def)
  qed
  have still: "partial_op E k ?m x = x" "partial_op E k (SyncDir i) x = x" for k x
    by (simp_all add: partial_op_def)
  note [simp del] = exec_op.simps
  consider "flt = None" | k where "flt = Some (0, k)" | k where "flt = Some (Suc 0, k)" | k where "flt = Some (Suc (Suc 0), k)"
    | n k where "flt = Some (Suc (Suc (Suc n)), k)"
    by (metis not0_implies_Suc not_None_eq surj_pair)
  then show ?thesis
  proof cases
    case 2
    then have "r = os_error" "s' = partial_op E k ?w s" using run by (simp_all add: transition_ops_def)
    then show ?thesis using part [of k] by auto
  qed (use run w m s3 u p ms in \<open>auto simp: transition_ops_def still split: if_splits\<close>)
qed

section \<open>The status of a batch\<close>

text \<open>Every status the ledger wrote is a flat object.\<close>

definition flat_status :: "platform \<Rightarrow> store \<Rightarrow> bool" where
  "flat_status E s = (\<forall>i d st. delivery_name i \<longrightarrow> map_of s i = Some (EDir d) \<longrightarrow> stable_json E d status_file = Inr st \<longrightarrow> flat (JObj st))"

definition new_fields :: "jdict \<Rightarrow> bool" where
  "new_fields extra = (distinct (map fst extra) \<and> list_all (scalar \<circ> snd) extra \<and>
     set (map fst extra) \<inter> {''state'', ''delivery_id'', ''controller_thread'', ''controller_epoch''} = {})"

lemma dget_fold_set:
  "distinct (map fst extra) \<Longrightarrow> dget (fold (\<lambda>(k, v). dict_set k v) extra d) k = dget_or extra k (dget d k)"
proof (induction extra arbitrary: d)
  case (Cons kv extra)
  obtain k' v where kv: "kv = (k', v)" by (cases kv)
  have "map_of extra k' = None" using Cons.prems kv by (simp add: map_of_eq_None_iff)
  then show ?case using Cons by (auto simp: kv dget_or_def split: option.splits)
qed simp

lemma dget_or_other: "k \<notin> set (map fst extra) \<Longrightarrow> dget_or extra k v = v"
  by (simp add: dget_or_def map_of_eq_None_iff [THEN iffD2])

lemma dget_updated:
  assumes "new_fields extra"
  shows "dget (updated_status cur st extra) k = (if k = ''state'' then JStr st else dget_or extra k (dget cur k))"
proof -
  have "dget (updated_status cur st extra) k = dget_or extra k (dget (dict_set ''state'' (JStr st) cur) k)"
    using assms dget_fold_set [of extra "dict_set ''state'' (JStr st) cur"] by (simp add: new_fields_def updated_status_def)
  moreover have "dget_or extra ''state'' v = v" for v
    by (rule dget_or_other) (use assms in \<open>auto simp: new_fields_def\<close>)
  ultimately show ?thesis by simp
qed

lemma flat_dict_set: "flat (JObj d) \<Longrightarrow> scalar v \<Longrightarrow> flat (JObj (dict_set k v d))"
proof -
  assume "flat (JObj d)" "scalar v"
  then have d: "distinct (map fst d)" "\<And>x. x \<in> set d \<Longrightarrow> scalar (snd x)" by (auto simp: flat_def list_all_iff)
  have "scalar (snd x)" if "x \<in> set (dict_set k v d)" for x
  proof (cases x)
    case (Pair k' v')
    have "map_of (dict_set k v d) k' = Some v'" using that d(1) Pair by (intro map_of_is_SomeI) auto
    then show ?thesis using d(2) \<open>scalar v\<close> Pair by (force split: if_splits dest: map_of_SomeD)
  qed
  then show ?thesis using d(1) by (simp add: flat_def list_all_iff)
qed

lemma flat_updated:
  assumes "flat (JObj cur)" and "list_all (scalar \<circ> snd) extra"
  shows "flat (JObj (updated_status cur st extra))"
proof -
  have "flat (JObj (fold (\<lambda>(k, v). dict_set k v) xs d))" if "flat (JObj d)" "list_all (scalar \<circ> snd) xs" for xs d
    using that
  proof (induction xs arbitrary: d)
    case (Cons x xs)
    then show ?case using flat_dict_set [of d "snd x" "fst x"] by (cases x) simp
  qed simp
  from this [of cur "(''state'', JStr st) # extra"] assms show ?thesis by (simp add: updated_status_def)
qed

lemma flat_sorted: "flat v \<Longrightarrow> flat (sort_keys v)"
  using keys_sorted [of sort_keys] scalar_facts(1) by (fastforce simp: flat_def list_all_iff simp del: map_map)

text \<open>A batch whose status file was replaced.\<close>

definition moved :: "string \<Rightarrow> jdict \<Rightarrow> delivery_batch \<Rightarrow> delivery_batch" where
  "moved st extra b = b\<lparr>bt_status := st, bt_proof := dget_or extra ''history_proof_sha256'' (bt_proof b),
     bt_turn := dget_or extra ''native_turn_id'' (bt_turn b), bt_item := dget_or extra ''native_item_id'' (bt_item b)\<rparr>"

definition fine_proof :: "jdict \<Rightarrow> bool" where
  "fine_proof extra = (\<forall>v. map_of extra ''history_proof_sha256'' = Some v \<longrightarrow> bridge_hash v)"

lemma decode_moved:
  assumes b: "decode_batch E i intent claim cur source owner = Inr b" and extra: "new_fields extra" "fine_proof extra"
    and st: "st \<in> set known_states" and nu: "\<And>k. dget nu k = dget (updated_status cur st extra) k"
  shows "decode_batch E i intent claim nu source owner = Inr (moved st extra b)"
proof -
  have same: "dget nu ''delivery_id'' = dget cur ''delivery_id''" "dget nu ''controller_thread'' = dget cur ''controller_thread''"
    "dget nu ''controller_epoch'' = dget cur ''controller_epoch''"
    using extra(1) by (auto simp: nu dget_updated new_fields_def intro!: dget_or_other)
  have new: "dget nu ''state'' = JStr st" "dget nu ''history_proof_sha256'' = dget_or extra ''history_proof_sha256'' (dget cur ''history_proof_sha256'')"
    "dget nu ''native_turn_id'' = dget_or extra ''native_turn_id'' (dget cur ''native_turn_id'')"
    "dget nu ''native_item_id'' = dget_or extra ''native_item_id'' (dget cur ''native_item_id'')"
    using extra(1) by (simp_all add: nu dget_updated)
  have proof_ok: "dget nu ''history_proof_sha256'' = JNull \<or> bridge_hash (dget nu ''history_proof_sha256'')"
    using b extra(2) unfolding new(2)
    by (auto simp: decode_batch_def fine_proof_def dget_or_def Let_def split: option.splits)
  have known: "in_str_set (JStr st) known_states = Inr True" using st by (simp add: in_str_set_def)
  show ?thesis
    using b proof_ok unfolding decode_batch_def same new
    by (auto simp: Let_def known st moved_def in_str_set_def)
qed

lemma load_dir_parts:
  "load_dir E i d = Inr b \<longleftrightarrow> private_dir E (dr_stat d) \<and> (\<exists>intent claim status source owner.
     stable_json E d intent_file = Inr intent \<and> stable_json E d claim_file = Inr claim \<and> stable_json E d status_file = Inr status
     \<and> stable_json E d source_file = Inr source \<and> stable_json E d attachment_file = Inr owner
     \<and> decode_batch E i intent claim status source owner = Inr b)"
  by (auto simp: load_dir_def)

lemma ledger_files_distinct [simp]:
  "intent_file \<noteq> status_file" "claim_file \<noteq> status_file" "source_file \<noteq> status_file" "attachment_file \<noteq> status_file"
  by (simp_all add: ledger_file_defs)

lemma unpublished_load: "unpublished E0 d d' \<Longrightarrow> load_dir E i d' = load_dir E i d"
  by (rule load_dir_cong) (auto simp: unpublished_def status_stage_ne [symmetric])

lemma published_other:
  assumes "published E0 v d d'" and "n \<in> {intent_file, claim_file, source_file, attachment_file}"
  shows "stable_json E d' n = stable_json E d n"
  using assms by (intro stable_json_other) (auto simp: published_def status_stage_ne [symmetric])

text \<open>A transition leads to the moved batch, to an unreadable one when its status outgrows the limit, or nowhere.\<close>

context json_codec
begin

lemma published_status:
  assumes "published E0 (JObj st) d d'" and "flat (JObj st)" and "p_uid E0 = p_uid E" and "canonical E0 = canonical E"
  shows "stable_json E d' status_file =
    (if length (file_text E (JObj st)) \<le> max_json then Inr (obj_of (sort_keys (JObj st))) else Inl (bridge_error ''ledger_file''))"
proof -
  have "reg E0 (JObj st) = reg E (JObj st)" using assms(3,4) by (simp add: reg_def new_file_def file_text_def)
  then have "map_of (dr_files d') status_file = Some (reg E (JObj st))" using assms(1) by (simp add: published_def)
  moreover have "plain (JObj st)" "wf_json (JObj st)" using flat_plain [OF assms(2)] by blast+
  ultimately show ?thesis by (rule stable_json_reg) simp
qed

lemma published_load:
  assumes pub: "published E0 (JObj (updated_status cur st extra)) d d'" and same: "p_uid E0 = p_uid E" "canonical E0 = canonical E"
    and b: "load_dir E i d = Inr b" and cur: "stable_json E d status_file = Inr cur" "flat (JObj cur)"
    and extra: "new_fields extra" "fine_proof extra" and st: "st \<in> set known_states"
  shows "load_dir E i d' = (if length (file_text E (JObj (updated_status cur st extra))) \<le> max_json
    then Inr (moved st extra b) else Inl (bridge_error ''ledger_file''))"
proof -
  let ?nu = "updated_status cur st extra"
  have fl: "flat (JObj ?nu)" using flat_updated [OF cur(2)] extra(1) by (simp add: new_fields_def)
  note rd = published_status [OF pub fl same]
  have dg: "dget (obj_of (sort_keys (JObj ?nu))) k = dget ?nu k" for k by (rule dget_flat_sorted [OF fl])
  from b cur obtain intent claim source owner where parts: "private_dir E (dr_stat d)"
    "stable_json E d intent_file = Inr intent" "stable_json E d claim_file = Inr claim"
    "stable_json E d source_file = Inr source" "stable_json E d attachment_file = Inr owner"
    "decode_batch E i intent claim cur source owner = Inr b" unfolding load_dir_parts by auto
  have "dr_stat d' = dr_stat d" using pub by (simp add: published_def)
  moreover note published_other [OF pub, of _ E] decode_moved [OF parts(6) extra st dg]
  ultimately show ?thesis using parts rd by (simp add: load_dir_def del: sort_keys.simps)
qed

lemma flat_status_upd:
  assumes "flat_status E s" and "map_of s' = (map_of s)(i \<mapsto> EDir d')"
    and "\<And>st. stable_json E d' status_file = Inr st \<Longrightarrow> flat (JObj st)"
  shows "flat_status E s'"
  using assms by (auto simp: flat_status_def split: if_splits)

lemma view_upd:
  assumes "map_of s' = (map_of s)(i \<mapsto> EDir d')" and "delivery_name i"
  shows "view E s' = (view E s)(i \<mapsto> dir_view E i d')"
  using assms by (auto simp: view_def fun_eq_iff)

lemma transition_view:
  assumes run: "transition E0 flt i allowed st extra s = (r, s')" and same: "p_uid E0 = p_uid E" "canonical E0 = canonical E"
    and load: "load_unlocked E0 i s = load_unlocked E i s" and js: "\<And>d n. stable_json E0 d n = stable_json E d n"
    and sound: "flat_status E s" and extra: "new_fields extra" "fine_proof extra" and st: "st \<in> set known_states"
  shows "flat_status E s' \<and> (view E s' = view E s \<or>
    (\<exists>b x. view E s i = Some (Holds b) \<and> bt_status b \<in> set allowed \<and> view E s' = (view E s)(i \<mapsto> x) \<and>
      (x = Holds (moved st extra b) \<or> x = Unreadable)))"
proof (cases "s' = s")
  case True
  then show ?thesis using sound by simp
next
  case False
  then obtain b d cur r1 where b: "load_unlocked E i s = Inr b" "bt_status b \<in> set allowed" and d: "map_of s i = Some (EDir d)"
    and cur: "stable_json E d status_file = Inr cur"
    and ops: "run_ops E0 flt (transition_ops E0 i (updated_status cur st extra)) s = (r1, s')"
    using run load js
    by (auto simp: transition_def replace_status_def split: sum.splits option.splits entry.splits prod.splits if_splits)
  have rb: "view E s i = Some (Holds b)" using b(1) by (simp add: view_Holds)
  have name: "delivery_name i" and ld: "load_dir E i d = Inr b" using rb d by (auto simp: view_Some dir_view_Holds [symmetric])
  have fl: "flat (JObj cur)" using sound name d cur by (auto simp: flat_status_def)
  from run_transition [OF ops d] obtain d' where m: "map_of s' = (map_of s)(i \<mapsto> EDir d')"
    and c: "unpublished E0 d d' \<or> published E0 (JObj (updated_status cur st extra)) d d'" by blast
  note v = view_upd [OF m name]
  from c show ?thesis
  proof
    assume u: "unpublished E0 d d'"
    have "stable_json E d' status_file = stable_json E d status_file"
      by (rule stable_json_other) (use u in \<open>auto simp: unpublished_def status_stage_ne [symmetric]\<close>)
    then have "flat_status E s'" using flat_status_upd [OF sound m] cur fl by auto
    moreover have "view E s' = view E s"
      using v ld rb unpublished_load [OF u] by (auto simp: fun_eq_iff dir_view_def)
    ultimately show ?thesis by blast
  next
    assume p: "published E0 (JObj (updated_status cur st extra)) d d'"
    have nu: "flat (JObj (updated_status cur st extra))" using flat_updated [OF fl] extra(1) by (simp add: new_fields_def)
    have "flat (JObj (obj_of (sort_keys (JObj (updated_status cur st extra)))))" using flat_sorted [OF nu] by simp
    with published_status [OF p nu same] have "flat_status E s'"
      by (intro flat_status_upd [OF sound m]) (auto split: if_splits simp del: sort_keys.simps)
    moreover have "dir_view E i d' = Holds (moved st extra b) \<or> dir_view E i d' = Unreadable"
      using published_load [OF p same ld cur fl extra st] by (simp add: dir_view_def)
    ultimately show ?thesis using v rb b(2) by blast
  qed
qed

end

section \<open>Processes\<close>

text \<open>Several processes use the ledger one after the other; they differ in their process id only.\<close>

abbreviation at_pid :: "int \<Rightarrow> platform \<Rightarrow> platform" where
  "at_pid p E \<equiv> E\<lparr>p_pid := p\<rparr>"

lemma dumps_pid [simp]: "dumps x y (at_pid p E) v = dumps x y E v"
proof (induction x y E v rule: dumps.induct)
  case (8 ascii srt E d)
  then have "map (\<lambda>(k, v). (k, dumps ascii srt (at_pid p E) v)) d = map (\<lambda>(k, v). (k, dumps ascii srt E v)) d" by auto
  then show ?case by (simp only: dumps.simps)
next
  case (7 ascii srt E xs)
  then have "map (dumps ascii srt (at_pid p E)) xs = map (dumps ascii srt E) xs" by simp
  then show ?case by (simp only: dumps.simps)
qed simp_all

lemma canonical_pid [simp]: "canonical (at_pid p E) = canonical E"
  by (simp add: canonical_def fun_eq_iff)

lemma stable_json_pid [simp]: "stable_json (at_pid p E) = stable_json E"
  by (simp add: stable_json_def stable_read_def loads_def private_file_def fun_eq_iff split: option.splits fnode.splits)

lemma decode_batch_pid [simp]: "decode_batch (at_pid p E) = decode_batch E"
  by (simp add: decode_batch_def go_intent_hash_def native_envelope_def fun_eq_iff)

lemma load_dir_pid [simp]: "load_dir (at_pid p E) = load_dir E"
  by (simp add: load_dir_def private_dir_def fun_eq_iff)

lemma load_unlocked_pid [simp]: "load_unlocked (at_pid p E) i s = load_unlocked E i s"
  by (simp add: load_unlocked_def cong: option.case_cong entry.case_cong)

section \<open>The machine\<close>

inductive ledger_step :: "platform \<Rightarrow> ledger \<Rightarrow> ledger \<Rightarrow> bool" for E where
  prepare: "attachment_ok E a \<Longrightarrow> prepare_and_claim E flt killed a task_id events lg = (r, lg') \<Longrightarrow> ledger_step E lg lg'"
| sending: "ledger_locked E (mark_sending (at_pid p E) flt i) lg = (r, lg') \<Longrightarrow> ledger_step E lg lg'"
| accepted: "ledger_locked E (mark_transport_accepted (at_pid p E) flt i turn) lg = (r, lg') \<Longrightarrow> ledger_step E lg lg'"
| uncertain: "ledger_locked E (mark_uncertain (at_pid p E) flt i reason) lg = (r, lg') \<Longrightarrow> ledger_step E lg lg'"
| confirm: "bridge_hash evidence \<Longrightarrow> bridge_safe turn \<Longrightarrow> bridge_safe item \<Longrightarrow>
    ledger_locked E (record_history (at_pid p E) flt i evidence turn item) lg = (r, lg') \<Longrightarrow> ledger_step E lg lg'"
| acked: "ledger_locked E (mark_controller_acked (at_pid p E) flt i ack) lg = (r, lg') \<Longrightarrow> ledger_step E lg lg'"

definition fresh_ledger :: ledger where
  "fresh_ledger = \<lparr>lg_lock = LockAbsent, lg_store = []\<rparr>"

section \<open>The abstract machine\<close>

definition may_follow :: "string \<Rightarrow> string \<Rightarrow> bool" where
  "may_follow x y =
    (y = ''sending'' \<and> x = ''pending'' \<or> y = ''transport_accepted'' \<and> x = ''sending''
     \<or> y \<in> {''delivery_uncertain'', ''history_confirmed''} \<and> x \<in> set unsettled
     \<or> y = ''controller_acked'' \<and> x = ''history_confirmed'')"

definition same_content :: "delivery_batch \<Rightarrow> delivery_batch \<Rightarrow> bool" where
  "same_content b c = (bt_delivery_id c = bt_delivery_id b \<and> bt_task_id c = bt_task_id b \<and> bt_thread c = bt_thread b
     \<and> bt_epoch c = bt_epoch b \<and> bt_envelope c = bt_envelope b \<and> bt_source_events c = bt_source_events b)"

definition proven :: "delivery_batch \<Rightarrow> bool" where
  "proven b = (bridge_hash (bt_proof b) \<and> bridge_safe (bt_turn b) \<and> bridge_safe (bt_item b))"

definition fresh_batch :: "delivery_batch \<Rightarrow> bool" where
  "fresh_batch b = (bt_status b = ''pending'' \<and> bt_proof b = JNull \<and> bt_turn b = JNull \<and> bt_item b = JNull)"

inductive batch_move :: "(string \<Rightarrow> slot_view option) \<Rightarrow> (string \<Rightarrow> slot_view option) \<Rightarrow> bool" where
  stay: "batch_move m m"
| claim: "m i = None \<Longrightarrow> slot_open (bt_thread b) m \<Longrightarrow> fresh_batch b \<Longrightarrow> batch_move m (m(i \<mapsto> Holds b))"
| advance: "m i = Some (Holds b) \<Longrightarrow> may_follow (bt_status b) (bt_status c) \<Longrightarrow> same_content b c \<Longrightarrow>
    (bt_status c = ''history_confirmed'' \<longrightarrow> proven c) \<Longrightarrow>
    (bt_status c = ''controller_acked'' \<longrightarrow> bt_proof c = bt_proof b \<and> bt_turn c = bt_turn b \<and> bt_item c = bt_item b) \<Longrightarrow>
    batch_move m (m(i \<mapsto> Holds c))"
| spoil: "m i = None \<or> m i = Some (Holds b) \<Longrightarrow> batch_move m (m(i \<mapsto> Unreadable))"

lemmas move_defs = may_follow_def same_content_def proven_def moved_def fresh_batch_def unsettled_def

lemma ledger_locked_store:
  "ledger_locked E f lg = (r, lg') \<Longrightarrow> lg_store lg' = lg_store lg \<or> (\<exists>r'. f (lg_store lg) = (r', lg_store lg'))"
  by (auto simp: ledger_locked_def split: sum.splits prod.splits)

lemma extra_fields:
  "new_fields [(''transport_status'', JStr x)] \<and> fine_proof [(''transport_status'', JStr x)]"
  "bridge_safe t \<Longrightarrow> new_fields [(''transport_status'', JStr x), (''native_turn_id'', t)] \<and> fine_proof [(''transport_status'', JStr x), (''native_turn_id'', t)]"
  "bridge_safe t \<Longrightarrow> new_fields [(''transport_status'', JStr x), (''uncertain_reason'', t)] \<and> fine_proof [(''transport_status'', JStr x), (''uncertain_reason'', t)]"
  "bridge_hash h \<Longrightarrow> bridge_safe t \<Longrightarrow> bridge_safe u \<Longrightarrow>
     new_fields [(''transport_status'', JStr x), (''history_proof_sha256'', h), (''native_turn_id'', t), (''native_item_id'', u)]
     \<and> fine_proof [(''transport_status'', JStr x), (''history_proof_sha256'', h), (''native_turn_id'', t), (''native_item_id'', u)]"
  "bridge_hash h \<Longrightarrow> new_fields [(''controller_ack_sha256'', h)] \<and> fine_proof [(''controller_ack_sha256'', h)]"
  by (auto simp: new_fields_def fine_proof_def bridge_safe_def bridge_hash_def scalar_def)

context json_codec
begin

text \<open>One transition of a process is one move.\<close>

lemma transition_move:
  assumes run: "transition (at_pid p E) flt i allowed st extra s = (r, s')" and sound: "flat_status E s"
    and extra: "new_fields extra \<and> fine_proof extra" and st: "st \<in> set known_states"
    and move: "\<And>b. bt_status b \<in> set allowed \<Longrightarrow> may_follow (bt_status b) st \<and>
      (st = ''history_confirmed'' \<longrightarrow> proven (moved st extra b)) \<and>
      (st = ''controller_acked'' \<longrightarrow> map_of extra ''history_proof_sha256'' = None \<and> map_of extra ''native_turn_id'' = None \<and> map_of extra ''native_item_id'' = None)"
  shows "flat_status E s' \<and> batch_move (view E s) (view E s')"
proof -
  have "flat_status E s' \<and> (view E s' = view E s \<or>
    (\<exists>b x. view E s i = Some (Holds b) \<and> bt_status b \<in> set allowed \<and> view E s' = (view E s)(i \<mapsto> x) \<and>
      (x = Holds (moved st extra b) \<or> x = Unreadable)))"
    by (rule transition_view [OF run]) (use sound extra st in auto)
  then consider "flat_status E s'" "view E s' = view E s"
    | b where "flat_status E s'" "view E s i = Some (Holds b)" "bt_status b \<in> set allowed" "view E s' = (view E s)(i \<mapsto> Holds (moved st extra b))"
    | b where "flat_status E s'" "view E s i = Some (Holds b)" "view E s' = (view E s)(i \<mapsto> Unreadable)"
    by blast
  then show ?thesis
  proof cases
    case 1
    then show ?thesis by (simp add: batch_move.stay)
  next
    case (2 b)
    have "batch_move (view E s) ((view E s)(i \<mapsto> Holds (moved st extra b)))"
      by (rule batch_move.advance [where b = b])
         (use 2(2) move [OF 2(3)] in \<open>auto simp: moved_def same_content_def dget_or_def\<close>)
    with 2 show ?thesis by simp
  next
    case (3 b)
    then show ?thesis by (auto intro: batch_move.spoil)
  qed
qed

lemma prepare_move:
  assumes run: "prepare_unlocked E flt killed a task_id native source s = (r, s')"
    and proj: "project_events E task_id events = Inr (native, source)" and att: "attachment_ok E a"
  shows "batch_move (view E s) (view E s')"
proof -
  define i where "i = batch_id E a task_id source"
  let ?x = "dir_view E i (batch_dir E a task_id i (final_intent E a i native) source)" and ?b = "prepared_batch E a task_id i native source"
  note dir_view_batch [OF proj att, of i]
  then consider "view E s' = view E s" | "view E s i = None" "view E s' = (view E s)(i \<mapsto> Unreadable)"
    | "view E s i = None" "slot_open (bt_thread ?b) (view E s)" "view E s' = (view E s)(i \<mapsto> Holds ?b)"
    using prepare_view [OF run proj att i_def] by (auto simp: prepared_batch_def)
  then show ?thesis
  proof cases
    case 3
    have "fresh_batch ?b" by (simp add: fresh_batch_def prepared_batch_def)
    with batch_move.claim [OF 3(1,2)] 3(3) show ?thesis by simp
  qed (auto intro: batch_move.intros)
qed

lemma prepare_flat:
  assumes run: "prepare_unlocked E flt killed a task_id native source s = (r, s')"
    and proj: "project_events E task_id events = Inr (native, source)" and sound: "flat_status E s"
  shows "flat_status E s'"
proof (cases "s' = s")
  case False
  define i where "i = batch_id E a task_id source"
  obtain r1 where st: "stage_batch E flt killed a task_id i native source s = (r1, s')"
    using run False by (auto simp: prepare_unlocked_def Let_def i_def split: if_splits sum.splits prod.splits)
  let ?d = "batch_dir E a task_id i (final_intent E a i native) source"
  have intent: "batch_intent E a i native = Inr (final_intent E a i native)" using projected_ok [OF proj] by (simp add: batch_intent_ok)
  note out = stage_batch_cases [OF st intent]
  have fl: "flat (JObj (initial_status a i))" by (simp add: flat_def initial_status_def)
  have sorted: "flat (JObj (obj_of (sort_keys (JObj (initial_status a i)))))" using flat_sorted [OF fl] by simp
  have "flat (JObj st)" if "stable_json E ?d status_file = Inr st" for st
    using that stable_json_reg [OF files_batch_dir(5) [of E a task_id i "final_intent E a i native" source]] flat_plain [OF fl] sorted
    by (auto split: if_splits simp del: sort_keys.simps)
  moreover have "\<not> delivery_name (stage_name i)" using delivery_name_visible by fastforce
  ultimately show ?thesis
    using sound out unfolding flat_status_def by (metis option.inject entry.inject(1))
qed (use sound in simp)

lemma step_simulates:
  assumes "ledger_step E lg lg'" and "flat_status E (lg_store lg)"
  shows "flat_status E (lg_store lg') \<and> batch_move (view E (lg_store lg)) (view E (lg_store lg'))"
proof -
  have lift: ?thesis if "ledger_locked E f lg = (r, lg')"
    and "\<And>r s'. f (lg_store lg) = (r, s') \<Longrightarrow> flat_status E s' \<and> batch_move (view E (lg_store lg)) (view E s')"
    for f :: "store \<Rightarrow> delivery_batch result \<times> store" and r
    using ledger_locked_store [OF that(1)] that(2) assms(2) by (auto simp: batch_move.stay)
  have stay: "flat_status E (lg_store lg) \<and> batch_move (view E (lg_store lg)) (view E (lg_store lg))"
    using assms(2) by (simp add: batch_move.stay)
  note tm = transition_move [OF _ assms(2)]
  from assms(1) show ?thesis
  proof cases
    case (prepare a flt killed task_id events r)
    then show ?thesis
    proof (cases "project_events E task_id events")
      case (Inl e)
      then show ?thesis using prepare(2) stay by (simp add: prepare_and_claim_def)
    next
      case (Inr ns)
      obtain native source where ns: "ns = (native, source)" by (cases ns)
      show ?thesis
        by (rule lift [of "prepare_unlocked E flt killed a task_id native source"])
           (use prepare Inr ns prepare_move prepare_flat assms(2) in \<open>auto simp: prepare_and_claim_def\<close>)
    qed
  next
    case (sending p flt i r)
    show ?thesis
      by (rule lift [OF sending], unfold mark_sending_def, erule tm [OF _ extra_fields(1)])
         (auto simp: move_defs known_states_def slot_blocking_def)
  next
    case (accepted p flt i turn r)
    show ?thesis
    proof (rule lift [OF accepted])
      fix r s'
      assume run: "mark_transport_accepted (at_pid p E) flt i turn (lg_store lg) = (r, s')"
      show "flat_status E s' \<and> batch_move (view E (lg_store lg)) (view E s')"
      proof (cases "bridge_safe turn")
        case True
        with run show ?thesis unfolding mark_transport_accepted_def
          by (simp, elim tm [OF _ extra_fields(2)]) (auto simp: move_defs known_states_def slot_blocking_def)
      qed (use run stay in \<open>simp add: mark_transport_accepted_def\<close>)
    qed
  next
    case (uncertain p flt i reason r)
    show ?thesis
    proof (rule lift [OF uncertain])
      fix r s'
      assume run: "mark_uncertain (at_pid p E) flt i reason (lg_store lg) = (r, s')"
      show "flat_status E s' \<and> batch_move (view E (lg_store lg)) (view E s')"
      proof (cases "bridge_safe reason")
        case True
        with run show ?thesis unfolding mark_uncertain_def
          by (simp, elim tm [OF _ extra_fields(3)]) (auto simp: move_defs known_states_def slot_blocking_def)
      qed (use run stay in \<open>simp add: mark_uncertain_def\<close>)
    qed
  next
    case (confirm evidence turn item p flt i r)
    show ?thesis
      by (rule lift [OF confirm(4)], unfold record_history_def, erule tm [OF _ extra_fields(4) [OF confirm(1-3)]])
         (use confirm(1-3) in \<open>auto simp: move_defs known_states_def slot_blocking_def\<close>)
  next
    case (acked p flt i ack r)
    show ?thesis
    proof (rule lift [OF acked])
      fix r s'
      assume run: "mark_controller_acked (at_pid p E) flt i ack (lg_store lg) = (r, s')"
      show "flat_status E s' \<and> batch_move (view E (lg_store lg)) (view E s')"
      proof (cases "bridge_hash ack")
        case True
        with run show ?thesis unfolding mark_controller_acked_def
          by (simp, elim tm [OF _ extra_fields(5)]) (auto simp: move_defs known_states_def slot_blocking_def)
      qed (use run stay in \<open>simp add: mark_controller_acked_def\<close>)
    qed
  qed
qed

end

sublocale json_codec \<subseteq> ledger: simulation "ledger_step E" "\<lambda>lg. flat_status E (lg_store lg)" "\<lambda>lg. view E (lg_store lg)" batch_move
  by unfold_locales (rule step_simulates)

lemma fresh_flat [simp]: "flat_status E (lg_store fresh_ledger)"
  by (simp add: fresh_ledger_def flat_status_def)

lemma fresh_view [simp]: "view E (lg_store fresh_ledger) = (\<lambda>_. None)"
  by (simp add: fresh_ledger_def view_def fun_eq_iff)

section \<open>Invariants of the moves\<close>

definition exclusive :: "(string \<Rightarrow> slot_view option) \<Rightarrow> bool" where
  "exclusive m = (\<forall>i j b c. m i = Some (Holds b) \<longrightarrow> m j = Some (Holds c) \<longrightarrow> bt_thread b = bt_thread c \<longrightarrow>
     bt_status b \<in> set slot_blocking \<longrightarrow> bt_status c \<in> set slot_blocking \<longrightarrow> i = j)"

lemma may_follow_blocking: "may_follow x y \<Longrightarrow> y \<in> set slot_blocking \<Longrightarrow> x \<in> set slot_blocking"
  by (auto simp: may_follow_def unsettled_def slot_blocking_def)

lemma move_exclusive: "batch_move m m' \<Longrightarrow> exclusive m \<Longrightarrow> exclusive m'"
proof (induction rule: batch_move.induct)
  case (claim m i b)
  then show ?case unfolding exclusive_def slot_open_def by (auto split: if_splits) (metis slot_view.inject)+
next
  case (advance m i b c)
  then have "bt_status c \<in> set slot_blocking \<Longrightarrow> bt_status b \<in> set slot_blocking" using may_follow_blocking by blast
  with advance show ?case unfolding exclusive_def same_content_def by (auto split: if_splits)
next
  case (spoil m i b)
  then show ?case unfolding exclusive_def by (auto split: if_splits)
qed simp

definition evidenced :: "(string \<Rightarrow> slot_view option) \<Rightarrow> bool" where
  "evidenced m = (\<forall>i b. m i = Some (Holds b) \<longrightarrow> bt_status b \<in> {''history_confirmed'', ''controller_acked''} \<longrightarrow> proven b)"

lemma move_evidenced: "batch_move m m' \<Longrightarrow> evidenced m \<Longrightarrow> evidenced m'"
proof (induction rule: batch_move.induct)
  case (claim m i b)
  then show ?case by (auto simp: evidenced_def fresh_batch_def)
next
  case (advance m i b c)
  have "proven c" if "bt_status c = ''controller_acked''"
  proof -
    have "bt_status b = ''history_confirmed''" using advance.hyps(2) that by (auto simp: may_follow_def)
    then have "proven b" using advance.hyps(1) advance.prems by (auto simp: evidenced_def)
    with advance.hyps(5) that show ?thesis by (simp add: proven_def)
  qed
  with advance show ?case by (auto simp: evidenced_def)
next
  case (spoil m i b)
  then show ?case by (auto simp: evidenced_def)
qed simp

fun rank_in :: "string list \<Rightarrow> string \<Rightarrow> nat" where
  "rank_in [] x = 0"
| "rank_in (y # ys) x = (if x = y then 0 else Suc (rank_in ys x))"

text \<open>The place of a state in the order pending, sending, transport accepted, uncertain, confirmed, acknowledged.\<close>

definition state_rank :: "string \<Rightarrow> nat" where
  "state_rank = rank_in known_states"

definition later :: "delivery_batch \<Rightarrow> delivery_batch \<Rightarrow> bool" where
  "later b c = (same_content b c \<and> (bt_status c = bt_status b \<or> state_rank (bt_status b) < state_rank (bt_status c)))"

lemma later_refl [simp]: "later b b"
  by (simp add: later_def same_content_def)

lemma later_trans: "later a b \<Longrightarrow> later b c \<Longrightarrow> later a c"
  by (auto simp: later_def same_content_def)

lemma state_ranks:
  "state_rank ''pending'' = 0" "state_rank ''sending'' = 1" "state_rank ''transport_accepted'' = 2"
  "state_rank ''delivery_uncertain'' = 3" "state_rank ''history_confirmed'' = 4" "state_rank ''controller_acked'' = 5"
  by (simp_all add: state_rank_def known_states_def slot_blocking_def)

lemma may_follow_rank: "may_follow x y \<Longrightarrow> y = x \<or> state_rank x < state_rank y"
  unfolding may_follow_def unsettled_def by (auto simp: state_ranks)

text \<open>From a state on: the batch is unreadable, or a later one than it was.\<close>

definition no_earlier :: "string \<Rightarrow> delivery_batch \<Rightarrow> (string \<Rightarrow> slot_view option) \<Rightarrow> bool" where
  "no_earlier i b m = (case m i of Some Unreadable \<Rightarrow> True | Some (Holds c) \<Rightarrow> later b c | None \<Rightarrow> False)"

lemma move_no_earlier: "batch_move m m' \<Longrightarrow> no_earlier i b m \<Longrightarrow> no_earlier i b m'"
proof (induction rule: batch_move.induct)
  case (advance m j x c)
  have "later x c" using advance may_follow_rank by (auto simp: later_def)
  then show ?case using advance later_trans by (auto simp: no_earlier_def)
qed (auto simp: no_earlier_def)

section \<open>Preparing\<close>

context json_codec
begin

lemma prepare_again:
  assumes run: "prepare_unlocked E flt killed a task_id native source s = (Inr b, s')"
    and proj: "project_events E task_id events = Inr (native, source)" and att: "attachment_ok E a"
  shows "prepare_unlocked E flt' killed' a task_id native source s' = (Inr b, s')"
proof -
  define i where "i = batch_id E a task_id source"
  have rows: "wf_json (JArr source)" "no_const (JArr source)"
    using projected_ok [OF proj] flat_plain by (auto simp: mapped_rows_def list_all_iff)
  have sorted: "py_eq (JArr (map sort_keys source)) (JArr source)" using py_eq_sort_keys [OF rows] by simp
  have again: ?thesis if "entry_exists s' i" "load_unlocked E i s' = Inr b" "py_eq (JArr (bt_source_events b)) (JArr source)"
    using that by (simp add: prepare_unlocked_def i_def)
  show ?thesis
  proof (cases "entry_exists s i")
    case True
    then show ?thesis using run by (auto simp: prepare_unlocked_def i_def [symmetric] Let_def)
  next
    case False
    then obtain u v where "slot_free E s (JStr (oa_controller_thread_id a)) s = Inr u"
      and st: "stage_batch E flt killed a task_id i native source s = (Inr v, s')" and ld: "load_unlocked E i s' = Inr b"
      using run by (auto simp: prepare_unlocked_def i_def [symmetric] Let_def split: sum.splits prod.splits)
    have intent: "batch_intent E a i native = Inr (final_intent E a i native)" using projected_ok [OF proj] by (simp add: batch_intent_ok)
    have d: "map_of s' i = Some (EDir (batch_dir E a task_id i (final_intent E a i native) source))"
      using stage_batch_cases [OF st intent] by auto
    have "b = prepared_batch E a task_id i native source"
      using ld d load_batch_dir [of native source a task_id i] projected_ok [OF proj] att
      by (auto simp: load_unlocked_def split: if_splits)
    with d ld sorted show ?thesis by (intro again) (simp_all add: entry_exists_def prepared_batch_def)
  qed
qed

text \<open>Without a failure a free slot is claimed.\<close>

lemma prepare_claims:
  assumes proj: "project_events E task_id events = Inr (native, source)" and att: "attachment_ok E a"
    and i: "i = batch_id E a task_id source" "delivery_name i" and free: "map_of s i = None" "map_of s (stage_name i) = None"
    and slot: "slot_free E s (JStr (oa_controller_thread_id a)) s = Inr ()"
    and fits: "list_all (\<lambda>(n, v). length (file_text E v) \<le> max_json) (stage_files E a task_id i (final_intent E a i native) source)"
  shows "\<exists>s'. prepare_unlocked E None killed a task_id native source s = (Inr (prepared_batch E a task_id i native source), s') \<and>
    map_of s' i = Some (EDir (batch_dir E a task_id i (final_intent E a i native) source)) \<and>
    view E s' = (view E s)(i \<mapsto> Holds (prepared_batch E a task_id i native source))"
proof -
  let ?d = "batch_dir E a task_id i (final_intent E a i native) source"
  let ?pre = "Mkdir (stage_name i) # map (\<lambda>(n, v). Write (stage_name i) n v) (stage_files E a task_id i (final_intent E a i native) source)"
  have intent: "batch_intent E a i native = Inr (final_intent E a i native)" using projected_ok [OF proj] by (simp add: batch_intent_ok)
  obtain s1 where s1: "run_ops E None ?pre s = (Inr (), s1)" "map_of s1 = (map_of s)(stage_name i \<mapsto> EDir ?d)"
    using run_stage [OF free(2)] by blast
  obtain r2 s2 where s2: "run_ops E None [SyncDir (stage_name i), RenameDir (stage_name i) i, SyncRoot] s1 = (r2, s2)" by fastforce
  have "r2 = Inr ()" using s2 s1(2) free(1) by (auto simp: in_dir_def free_name_def split: if_splits)
  then have run: "run_ops E None (stage_ops E a task_id i (final_intent E a i native) source) s = (Inr (), s2)"
    using s1(1) s2 run_ops_append [of E ?pre] by (simp add: stage_ops_def del: run_ops.simps)
  have st: "stage_batch E None killed a task_id i native source s = (Inr (), s2)"
    using intent run by (simp add: stage_batch_def)
  have d: "map_of s2 i = Some (EDir ?d)" using stage_batch_cases [OF st intent] by auto
  have ld: "load_dir E i ?d = Inr (prepared_batch E a task_id i native source)"
    using load_batch_dir [of native source a task_id i] projected_ok [OF proj] att fits by (auto simp: stage_files_def)
  have res: "prepare_unlocked E None killed a task_id native source s = (Inr (prepared_batch E a task_id i native source), s2)"
    using st d ld slot free(1) i by (simp add: prepare_unlocked_def entry_exists_def load_unlocked_def Let_def)
  have "view E s2 i = Some (Holds (prepared_batch E a task_id i native source))"
    using d ld i(2) by (simp add: view_def dir_view_def)
  moreover have "view E s i = None" using free(1) by (simp add: view_def)
  moreover have "dir_view E i ?d = Holds (prepared_batch E a task_id i native source)" using ld by (simp add: dir_view_def)
  ultimately have "view E s2 = (view E s)(i \<mapsto> Holds (prepared_batch E a task_id i native source))"
    using prepare_view [OF res proj att i(1)] by auto
  with res d show ?thesis by blast
qed

end

section \<open>A sample delivery\<close>

definition sample_attachment :: owner_attachment where
  "sample_attachment =
     \<lparr>oa_profile_id = ''profile'', oa_controller_thread_id = ''thread-1'', oa_controller_epoch = 3,
      oa_owner_context_sha256 = replicate 64 CHR ''a'', oa_lease_id = ''lease'', oa_owner_connection_id = JStr ''conn'',
      oa_activation_id = replicate 32 CHR ''b'', oa_manifest_sha256 = replicate 64 CHR ''c'', oa_helper_grant_sha256 = replicate 64 CHR ''d'',
      oa_service_identity = [(''pid'', JInt 10)], oa_backend_identity = [(''pid'', JInt 11)], oa_private_socket = ''/run/s'',
      oa_private_socket_identity = [1, 2, 3, 4], oa_origin_pid = 12, oa_origin_birth = JStr ''b1'', oa_origin_executable = JStr ''/bin/x'',
      oa_origin_executable_sha256 = JStr (replicate 64 CHR ''e'')\<rparr>"

definition sample_row :: json where
  "sample_row = JObj [(''version'', JInt 1), (''task_id'', JStr ''task''), (''event_id'', JStr ''run/1''), (''action_slot'', JStr ''slot/1''),
     (''kind'', JStr ''failed''), (''event_revision'', JInt 2), (''work_revision'', JInt 1), (''payload_hash'', JStr (replicate 64 CHR ''f''))]"

abbreviation sample_native :: "json list" where
  "sample_native \<equiv> [native_event std_platform (obj_of sample_row)]"

abbreviation sample_source :: "json list" where
  "sample_source \<equiv> [source_event std_platform (obj_of sample_row)]"

abbreviation sample_id :: string where
  "sample_id \<equiv> batch_id std_platform sample_attachment ''task'' sample_source"

abbreviation sample_batch :: delivery_batch where
  "sample_batch \<equiv> prepared_batch std_platform sample_attachment ''task'' sample_id sample_native sample_source"

lemma sample_project: "project_events std_platform ''task'' [sample_row] = Inr (sample_native, sample_source)"
  by code_simp

lemma sample_attachment_ok: "attachment_ok std_platform sample_attachment"
  by code_simp

lemma sample_name: "delivery_name sample_id"
  by code_simp

lemma sample_fits:
  "list_all (\<lambda>(n, v). length (file_text std_platform v) \<le> max_json)
     (stage_files std_platform sample_attachment ''task'' sample_id (final_intent std_platform sample_attachment sample_id sample_native) sample_source)"
  by code_simp

lemma sample_prepared:
  "\<exists>s'. prepare_unlocked std_platform None False sample_attachment ''task'' sample_native sample_source [] = (Inr sample_batch, s') \<and>
     map_of s' sample_id = Some (EDir (batch_dir std_platform sample_attachment ''task'' sample_id
       (final_intent std_platform sample_attachment sample_id sample_native) sample_source)) \<and>
     view std_platform s' = (\<lambda>_. None)(sample_id \<mapsto> Holds sample_batch)"
proof -
  have "view std_platform [] = (\<lambda>_. None)" by (simp add: view_def fun_eq_iff)
  then show ?thesis
    using std.prepare_claims [OF sample_project sample_attachment_ok refl sample_name _ _ _ sample_fits, of "[]" False] by simp
qed

end
