(* ===== verification/OwnerBind.thy ===== *)
theory OwnerBind
  imports LedgerMachine
begin

text \<open>
  What binding an owner to a capability generation guarantees: a binding that returned is found again
  by the same owner, and a binding that was cut short between its two files is never repaired.
\<close>

section \<open>One directory\<close>

lemma private_add_files [simp]: "dr_stat (add_files E fs d) = dr_stat d"
  by (simp add: add_files_def)

lemma generation_not_current [simp]: "generation_name n @ ''.json'' \<noteq> current_file" "current_file \<noteq> generation_name n @ ''.json''"
  by (simp_all add: generation_name_def current_file_def Let_def)

lemma generation_not_stage [simp]: "generation_name n @ ''.json'' \<noteq> stage_file E" "stage_file E \<noteq> generation_name n @ ''.json''"
  by (simp_all add: generation_name_def stage_file_def Let_def)

lemma stage_not_current [simp]: "stage_file E \<noteq> current_file" "current_file \<noteq> stage_file E"
  by (simp_all add: stage_file_def current_file_def)

text \<open>The process fails or ends after the generation file was created and before \<open>current.json\<close> is replaced.\<close>

definition cut_after_generation :: "fault \<Rightarrow> bool" where
  "cut_after_generation flt = (\<exists>n k. flt = Some (n, k) \<and> n \<le> 2 \<and> (n = 0 \<longrightarrow> 0 < k))"

lemma bind_generation_cut:
  assumes d: "map_of s key = Some (EDir d)" "map_of (dr_files d) (generation_name n @ ''.json'') = None" and cut: "cut_after_generation flt"
  shows "\<exists>e s' d'. bind_generation E flt rt key a n s = (Inl e, s') \<and> map_of s' key = Some (EDir d') \<and> dr_stat d' = dr_stat d
    \<and> map_of (dr_files d') (generation_name n @ ''.json'') \<noteq> None \<and> map_of (dr_files d') current_file = map_of (dr_files d) current_file"
proof -
  let ?v = "JObj (capability_value E (generation_path rt key (generation_name n)) a n)"
  define d1 where "d1 = d\<lparr>dr_files := dict_set (generation_name n @ ''.json'') (Reg (new_file E (file_text E ?v))) (dr_files d)\<rparr>"
  define s1 where "s1 = dict_set key (EDir d1) s"
  have w: "exec_op E (Write key (generation_name n @ ''.json'') ?v) s = Inr s1"
    using d by (simp add: in_dir_def write_exclusive_def s1_def d1_def)
  have first: "map_of s1 key = Some (EDir d1)" "dr_stat d1 = dr_stat d" "map_of (dr_files d1) (generation_name n @ ''.json'') \<noteq> None"
    "map_of (dr_files d1) current_file = map_of (dr_files d) current_file"
    by (simp_all add: s1_def d1_def)
  consider k where "flt = Some (0, Suc k)" | k where "flt = Some (Suc 0, k)" | k where "flt = Some (Suc (Suc 0), k)"
    using cut unfolding cut_after_generation_def by (metis gr0_implies_Suc le_SucE le_zero_eq numeral_2_eq_2)
  then show ?thesis
  proof cases
    case 1
    then show ?thesis using d by (simp add: bind_generation_def Let_def partial_op_def)
  next
    case 2
    then show ?thesis using w first by (auto simp: bind_generation_def Let_def partial_op_def simp del: exec_op.simps)
  next
    case 3
    have "\<exists>x s2 d2. (exec_op E (Write key (stage_file E) ?v) s1 = Inl x \<or> exec_op E (Write key (stage_file E) ?v) s1 = Inr s2
        \<and> map_of s2 key = Some (EDir d2) \<and> dr_stat d2 = dr_stat d1 \<and> map_of (dr_files d2) (generation_name n @ ''.json'') \<noteq> None
        \<and> map_of (dr_files d2) current_file = map_of (dr_files d1) current_file)"
      using first(1,3) by (auto simp: in_dir_def write_exclusive_def ensure_def)
    then show ?thesis using 3 w first by (auto simp: bind_generation_def Let_def partial_op_def simp del: exec_op.simps split: sum.splits)
  qed
qed

lemma bind_generation_blocked:
  assumes "map_of s key = Some (EDir d)" and "map_of (dr_files d) (generation_name n @ ''.json'') \<noteq> None"
  shows "\<exists>e. bind_generation E flt rt key a n s = (Inl e, s) \<and> (flt = None \<longrightarrow> e = bridge_error ''ledger_write'')"
proof -
  have w: "exec_op E (Write key (generation_name n @ ''.json'') v) s = Inl (bridge_error ''ledger_write'')" for v
    using assms by (auto simp: in_dir_def write_exclusive_def)
  have p: "partial_op E k (Write key (generation_name n @ ''.json'') v) s = s" for k v
    using assms by (auto simp: partial_op_def)
  consider "flt = None" | k where "flt = Some (0, k)" | i k where "flt = Some (Suc i, k)" by (metis not0_implies_Suc not_None_eq surj_pair)
  then show ?thesis by cases (simp_all add: bind_generation_def Let_def w p del: exec_op.simps)
qed

definition sample_owner :: owner_attachment where
  "sample_owner =
     \<lparr>oa_profile_id = ''profile'', oa_controller_thread_id = ''thread-1'', oa_controller_epoch = 3,
      oa_owner_context_sha256 = replicate 64 CHR ''a'', oa_lease_id = ''lease'', oa_owner_connection_id = JStr ''conn'',
      oa_activation_id = replicate 32 CHR ''b'', oa_manifest_sha256 = replicate 64 CHR ''c'', oa_helper_grant_sha256 = replicate 64 CHR ''d'',
      oa_service_identity = [], oa_backend_identity = [], oa_private_socket = ''/run/s'', oa_private_socket_identity = [1, 2, 3, 4],
      oa_origin_pid = 12, oa_origin_birth = JStr ''b1'', oa_origin_executable = JStr ''/bin/x'',
      oa_origin_executable_sha256 = JStr (replicate 64 CHR ''e'')\<rparr>"

text \<open>
  C39. A first binding of a thread that is cut short can never be repeated: if the process fails or ends
  after the generation file was created (at any byte of it, or before or in the writing of the staged
  \<open>current.json\<close>, or before it is renamed), every later binding of that thread, by any process and for any
  attachment, is rejected and changes nothing, because it tries to create the same generation file
  again; when nothing else fails the rejection is \<open>ledger_write\<close>.\<close>

theorem interrupted_bind_blocks_owner:
  assumes "map_of s (p_sha256 E (oa_controller_thread_id a)) = None" and "cut_after_generation flt"
    and "bind_owner (at_pid p E) flt rt a s = (r, s1)"
    and "oa_controller_thread_id b = oa_controller_thread_id a"
  shows "(\<exists>e. bind_owner (at_pid q E) flt' rt b s1 = (Inl e, s1)) \<and> bind_owner (at_pid q E) None rt b s1 = (Inl (bridge_error ''ledger_write''), s1)"
proof -
  let ?key = "p_sha256 E (oa_controller_thread_id a)" and ?P = "at_pid p E" and ?Q = "at_pid q E"
  let ?s0 = "dict_set ?key (EDir (new_dir ?P)) s"
  have empty: "dr_files (new_dir ?P) = []" by (simp add: new_dir_def)
  have priv: "private_dir ?Q (dr_stat (new_dir ?P))" by (simp add: private_dir_def new_dir_def)
  have "bind_owner ?P flt rt a s = bind_generation ?P flt rt ?key a 1 ?s0"
    using assms(1) by (simp add: bind_owner_def bind_in_def file_exists_def empty Let_def)
  moreover have "\<exists>e s' d'. bind_generation ?P flt rt ?key a 1 ?s0 = (Inl e, s') \<and> map_of s' ?key = Some (EDir d') \<and> dr_stat d' = dr_stat (new_dir ?P)
    \<and> map_of (dr_files d') (generation_name 1 @ ''.json'') \<noteq> None \<and> map_of (dr_files d') current_file = map_of (dr_files (new_dir ?P)) current_file"
    by (rule bind_generation_cut [OF _ _ assms(2)]) (simp_all add: empty)
  ultimately obtain d' where d': "map_of s1 ?key = Some (EDir d')" "dr_stat d' = dr_stat (new_dir ?P)"
    "map_of (dr_files d') (generation_name 1 @ ''.json'') \<noteq> None" "map_of (dr_files d') current_file = None"
    using assms(3) empty by auto
  have "bind_owner ?Q f rt b s1 = bind_generation ?Q f rt ?key b 1 s1" for f
    using assms(4) d' priv by (simp add: bind_owner_def bind_in_def file_exists_def Let_def)
  with bind_generation_blocked [OF d'(1,3)] show ?thesis by metis
qed

theorem interrupted_bind_blocks_owner_witness:
  "bind_owner (at_pid 8 std_platform) None ''/r'' sample_owner (snd (bind_owner (at_pid 7 std_platform) (Some (0, 1)) ''/r'' sample_owner [])) =
     (Inl (bridge_error ''ledger_write''), snd (bind_owner (at_pid 7 std_platform) (Some (0, 1)) ''/r'' sample_owner []))"
proof -
  have "cut_after_generation (Some (0, 1))" by (simp add: cut_after_generation_def)
  from interrupted_bind_blocks_owner [where s = "[]" and E = std_platform and a = sample_owner and p = 7 and rt = "''/r''" and q = 8, OF _ this prod.collapse [symmetric] refl]
  show ?thesis by simp
qed

end
