(* ===== verification/LedgerSafety.thy ===== *)
theory LedgerSafety
  imports LedgerMachine
begin

text \<open>
  The claims on the delivery ledger: refinement of the abstract machine, the exclusive slot, the
  order of the states, the evidence of an acknowledgement, idempotence and atomicity of the
  preparation, and the completion of a delivery when nothing fails.
\<close>

section \<open>The size of a status\<close>

definition msize :: "platform \<Rightarrow> jdict \<Rightarrow> nat" where
  "msize E d = sum_list (map (\<lambda>m. length (quote False (fst m)) + length (dumps False True E (snd m)) + 2) d)"

lemma sum_list_perm: "mset xs = mset ys \<Longrightarrow> sum_list (xs :: nat list) = sum_list ys"
  by (simp flip: sum_mset_sum_list)

lemma length_join: "length (join '','' ts) = sum_list (map (\<lambda>t. length t + 1) ts) - 1"
  by (induction "'',''" ts rule: join.induct) auto

lemma msize_file_text: "length (file_text E (JObj d)) \<le> msize E d + 3"
proof -
  let ?f = "\<lambda>(k, v). (k, dumps False True E v)" and ?t = "\<lambda>(k, t). quote False k @ '':'' @ t"
  have "sum_list (map (\<lambda>t. length t + 1) (map ?t (sort_key fst (map ?f d)))) = msize E d"
  proof -
    have "mset (map (\<lambda>t. length t + 1) (map ?t (sort_key fst (map ?f d)))) = mset (map (\<lambda>t. length t + 1) (map ?t (map ?f d)))"
      by (simp del: map_map add: image_mset.compositionality)
    then have "sum_list (map (\<lambda>t. length t + 1) (map ?t (sort_key fst (map ?f d)))) = sum_list (map (\<lambda>t. length t + 1) (map ?t (map ?f d)))"
      by (rule sum_list_perm)
    then show ?thesis by (simp add: msize_def comp_def case_prod_beta)
  qed
  then show ?thesis by (simp add: file_text_def canonical_def length_join Let_def)
qed

lemma msize_sorted: "msize E (obj_of (sort_keys (JObj d))) = msize E d"
proof -
  let ?f = "\<lambda>m. length (quote False (fst m)) + length (dumps False True E (snd m)) + 2"
  have "mset (map ?f (obj_of (sort_keys (JObj d)))) = mset (map ?f (map (\<lambda>(k, v). (k, sort_keys v)) d))"
    by (simp del: map_map)
  then have "sum_list (map ?f (obj_of (sort_keys (JObj d)))) = sum_list (map ?f (map (\<lambda>(k, v). (k, sort_keys v)) d))"
    by (rule sum_list_perm)
  also have "map ?f (map (\<lambda>(k, v). (k, sort_keys v)) d) = map ?f d"
    using canonical_sort_keys [of E] by (simp add: canonical_def comp_def case_prod_beta)
  finally show ?thesis by (simp add: msize_def)
qed

lemma msize_dict_set: "msize E (dict_set k v d) \<le> msize E d + msize E [(k, v)]"
  by (induction d) (auto simp: msize_def dict_set_def)

lemma msize_fold: "msize E (fold (\<lambda>(k, v). dict_set k v) xs d) \<le> msize E d + msize E xs"
proof (induction xs arbitrary: d)
  case (Cons x xs)
  obtain k v where x: "x = (k, v)" by (cases x)
  have "msize E (fold (\<lambda>(k, v). dict_set k v) xs (dict_set k v d)) \<le> msize E (dict_set k v d) + msize E xs" by (rule Cons.IH)
  also have "\<dots> \<le> msize E d + msize E [(k, v)] + msize E xs" using msize_dict_set [of E k v d] by simp
  finally show ?case by (simp add: x msize_def)
qed (simp add: msize_def)

lemma id_char_plain: "is_id_char c \<Longrightarrow> esc_char c = [c]"
proof -
  assume c: "is_id_char c"
  have "\<not> is_id_char CHR 0x22" "\<not> is_id_char CHR 0x5C" "\<not> is_id_char CHR 0x0A" "\<not> is_id_char CHR 0x0D"
    "\<not> is_id_char CHR 0x09" "\<not> is_id_char CHR 0x0C" "\<not> is_id_char CHR 0x08"
    by (simp_all add: is_id_char_def in_range_def)
  with c have "c \<noteq> CHR 0x22" "c \<noteq> CHR 0x5C" "c \<noteq> CHR 0x0A" "c \<noteq> CHR 0x0D" "c \<noteq> CHR 0x09" "c \<noteq> CHR 0x0C" "c \<noteq> CHR 0x08" by blast+
  moreover have "\<not> (of_char c :: nat) < 32" using c by (auto simp: is_id_char_def in_range_def)
  ultimately show ?thesis unfolding esc_char_def by (simp only: if_False)
qed

lemma id_string_text: "id_string s \<Longrightarrow> length (dumps False y E (JStr s)) \<le> 66"
proof -
  assume "id_string s"
  then have "list_all is_id_char s" "length s \<le> 64" by (auto simp: id_string_def)
  then have "concat (map esc_char s) = s" by (induction s) (auto simp: id_char_plain)
  with \<open>length s \<le> 64\<close> show ?thesis by (simp add: quote_def)
qed

lemma bridge_text: "bridge_safe v \<or> bridge_hash v \<Longrightarrow> length (dumps False y E v) \<le> 66"
  using id_string_text [of _ y E] hex_string_is_id [of 64]
  by (cases v) (auto simp: bridge_safe_def bridge_hash_def)

lemma msize_extra:
  "msize E [(''state'', JStr ''sending''), (''transport_status'', JStr ''ready'')] \<le> 100"
  "bridge_safe t \<Longrightarrow> msize E [(''state'', JStr ''transport_accepted''), (''transport_status'', JStr ''accepted''), (''native_turn_id'', t)] \<le> 200"
  "bridge_hash h \<Longrightarrow> bridge_safe t \<Longrightarrow> bridge_safe u \<Longrightarrow>
     msize E [(''state'', JStr ''history_confirmed''), (''transport_status'', JStr ''confirmed''), (''history_proof_sha256'', h), (''native_turn_id'', t), (''native_item_id'', u)] \<le> 400"
  "bridge_hash h \<Longrightarrow> msize E [(''state'', JStr ''controller_acked''), (''controller_ack_sha256'', h)] \<le> 200"
  using bridge_text [of t True E] bridge_text [of u True E] bridge_text [of h True E]
  by (auto simp: msize_def quote_def esc_char_def)

section \<open>A transition that nothing disturbs\<close>

text \<open>The directory of a batch with a flat status, room for \<open>n\<close> more bytes and no staged status.\<close>

definition calm :: "platform \<Rightarrow> nat \<Rightarrow> string \<Rightarrow> store \<Rightarrow> bool" where
  "calm E n i s = (\<exists>d cur. map_of s i = Some (EDir d) \<and> map_of (dr_files d) (status_stage E) = None
     \<and> stable_json E d status_file = Inr cur \<and> flat (JObj cur) \<and> msize E cur + n + 3 \<le> max_json)"

context json_codec
begin

lemma transition_ok:
  assumes b: "load_unlocked E i s = Inr b" "bt_status b \<in> set allowed" and calm: "calm E (n + m) i s"
    and extra: "new_fields extra \<and> fine_proof extra" and st: "st \<in> set known_states"
    and small: "msize E ((''state'', JStr st) # extra) \<le> m"
  shows "\<exists>s'. transition E None i allowed st extra s = (Inr (moved st extra b), s') \<and> load_unlocked E i s' = Inr (moved st extra b) \<and> calm E n i s'"
proof -
  from calm obtain d cur where d: "map_of s i = Some (EDir d)" "map_of (dr_files d) (status_stage E) = None"
    and cur: "stable_json E d status_file = Inr cur" "flat (JObj cur)" "msize E cur + (n + m) + 3 \<le> max_json" by (auto simp: calm_def)
  have name: "delivery_name i" and ld: "load_dir E i d = Inr b" using b(1) d(1) by (auto simp: load_unlocked_def)
  let ?nu = "updated_status cur st extra"
  obtain r s' where run: "run_ops E None (transition_ops E i ?nu) s = (r, s')" by fastforce
  have r: "r = Inr ()"
    using run d by (auto simp: transition_ops_def in_dir_def write_exclusive_def rename_file_def ensure_def)
  from run_transition [OF run d(1)] r obtain d' where m: "map_of s' = (map_of s)(i \<mapsto> EDir d')" and p: "published E (JObj ?nu) d d'" by auto
  have size: "msize E ?nu \<le> msize E cur + m" using msize_fold [of E "(''state'', JStr st) # extra" cur] small by (simp add: updated_status_def)
  then have fits: "length (file_text E (JObj ?nu)) \<le> max_json" using msize_file_text [of E ?nu] cur(3) by simp
  have nu: "flat (JObj ?nu)" using flat_updated [OF cur(2)] extra by (simp add: new_fields_def)
  have ld': "load_dir E i d' = Inr (moved st extra b)"
    using published_load [OF p refl refl ld cur(1,2) _ _ st] extra fits by simp
  then have l: "load_unlocked E i s' = Inr (moved st extra b)" using m name by (simp add: load_unlocked_def)
  have "transition E None i allowed st extra s = (Inr (moved st extra b), s')"
    using b d(1) cur(1) run r l by (simp add: transition_def replace_status_def)
  moreover have "calm E n i s'"
  proof -
    have "stable_json E d' status_file = Inr (obj_of (sort_keys (JObj ?nu)))" using published_status [OF p nu refl refl] fits by simp
    moreover have "flat (JObj (obj_of (sort_keys (JObj ?nu))))" using flat_sorted [OF nu] by simp
    moreover have "map_of (dr_files d') (status_stage E) = None" using p by (simp add: published_def)
    ultimately show ?thesis unfolding calm_def using m size cur(3)
      by (intro exI [of _ d'] exI [of _ "obj_of (sort_keys (JObj ?nu))"]) (simp add: msize_sorted del: sort_keys.simps)
  qed
  ultimately show ?thesis using l by blast
qed

end

section \<open>The envelope of a prepared batch\<close>

definition sha256_law :: "platform \<Rightarrow> bool" where
  "sha256_law E = (\<forall>x. hex_string 64 (p_sha256 E x))"

lemma alias_id: "sha256_law E \<Longrightarrow> p = ''e_'' \<or> p = ''s_'' \<Longrightarrow> id_string (event_alias E p x)"
  unfolding event_alias_def sha256_law_def
  by (rule id_string_prefix [of _ 32]) (auto intro: hex_string_take simp: is_id_char_def in_range_def)

lemma batch_id_name: "sha256_law E \<Longrightarrow> delivery_name (batch_id E a task_id source)"
  unfolding batch_id_def sha256_law_def delivery_name_def
  by (intro conjI id_string_prefix [of _ 40]) (auto intro: hex_string_take simp: is_id_char_def in_range_def starts_with_def)

text \<open>A native event as the audit accepts it.\<close>

definition audit_event :: "string \<Rightarrow> string \<Rightarrow> json \<Rightarrow> bool" where
  "audit_event eid slot v = (\<exists>d rev kind digest. v = JObj d \<and> keys_exact d event_fields \<and> dget d ''event_id'' = JStr eid \<and> id_string eid
     \<and> dget d ''action_slot'' = JStr slot \<and> id_string slot \<and> dget d ''event_revision'' = JInt rev \<and> 1 \<le> rev \<and> rev \<le> 1000000
     \<and> dget d ''kind'' = JStr kind \<and> kind \<in> {''question'', ''result''} \<and> dget d ''payload_hash'' = JStr digest \<and> hex_string 64 digest)"

lemma check_audit_event:
  "audit_event eid slot v \<Longrightarrow> eid \<notin> set ids \<Longrightarrow> slot \<notin> set slots \<Longrightarrow> check_event v (ids, slots) = Inr (eid # ids, slot # slots)"
proof -
  assume a: "audit_event eid slot v" and new: "eid \<notin> set ids" "slot \<notin> set slots"
  then obtain d where d: "v = JObj d" "keys_exact d event_fields" by (auto simp: audit_event_def)
  then have "shape v event_fields [] = Inr d" using shape_exact by blast
  with a new d(1) show ?thesis
    by (auto simp: audit_event_def check_event_def safe_def positive_def hash_value_def in_str_tuple_iff)
qed

lemma check_audit_events:
  assumes "list_all2 (\<lambda>(eid, slot) v. audit_event eid slot v) ks vs" and "distinct (map fst ks @ ids)" and "distinct (map snd ks @ slots)"
  shows "fold_result check_event vs (ids, slots) = Inr (rev (map fst ks) @ ids, rev (map snd ks) @ slots)"
  using assms
proof (induction ks vs arbitrary: ids slots rule: list_all2_induct)
  case (Cons k ks v vs)
  then show ?case by (cases k) (auto simp: check_audit_event)
qed simp

lemma keys_exact_sorted: "distinct (map fst d) \<Longrightarrow> keys_exact (obj_of (sort_keys (JObj d))) ks = keys_exact d ks"
  by (auto simp: keys_exact_def case_prod_beta image_image)

lemma native_audit_event:
  assumes "deliverable_row task_id row" and "sha256_law E" and "int_of (dget (obj_of row) ''event_revision'') \<le> 1000000"
  shows "audit_event (row_alias E row) (row_slot E row) (sort_keys (native_event E (obj_of row)))"
proof -
  define d where "d = obj_of (native_event E (obj_of row))"
  have v: "native_event E (obj_of row) = JObj d" by (simp add: d_def native_event_def)
  have flat: "flat (JObj d)" using flat_events(1) [OF assms(1), of E] by (simp add: v)
  have keys: "keys_exact d event_fields" by (auto simp: d_def native_event_def keys_exact_def event_fields_def)
  have dist: "distinct (map fst d)" using flat by (simp add: flat_def)
  let ?s = "obj_of (sort_keys (JObj d))"
  have s: "sort_keys (native_event E (obj_of row)) = JObj ?s" by (simp add: v)
  have g: "dget ?s k = dget d k" for k by (rule dget_flat_sorted [OF flat])
  have k: "keys_exact ?s event_fields" using keys_exact_sorted [OF dist] keys by blast
  have ids: "id_string (row_alias E row)" "id_string (row_slot E row)" using assms(2) by (simp_all add: row_alias_def row_slot_def alias_id)
  have vals: "dget d ''event_id'' = JStr (row_alias E row)" "dget d ''action_slot'' = JStr (row_slot E row)"
    "\<exists>rev. dget d ''event_revision'' = JInt rev \<and> 1 \<le> rev \<and> rev \<le> 1000000"
    "\<exists>kind. dget d ''kind'' = JStr kind \<and> kind \<in> {''question'', ''result''}"
    "\<exists>digest. dget d ''payload_hash'' = JStr digest \<and> hex_string 64 digest"
    using assms(1,3) by (auto simp: d_def native_event_def deliverable_row_def row_alias_def row_slot_def in_str_tuple_iff)
  show ?thesis unfolding audit_event_def s using vals ids k g by (metis (no_types, lifting))
qed

lemma native_envelope_fields:
  assumes "native_ok native"
  shows "native_envelope E (obj_of (sort_keys (JObj (final_intent E a i native)))) =
    (let body = [(''version'', JInt 1), (''delivery_id'', JStr i), (''controller_thread_id'', JStr (oa_controller_thread_id a)),
       (''controller_epoch'', JInt (oa_controller_epoch a)), (''events'', JArr (map sort_keys native))]
     in body @ [(''payload_hash'', JStr (p_sha256 E (canonical E (JObj body))))])"
proof -
  have wf: "wf_json (JObj (final_intent E a i native))" using wf_blank [OF assms] by (simp add: final_intent_def)
  show ?thesis
    unfolding native_envelope_def native_envelope_body_def dget_sort_keys [OF wf] by (simp add: final_intent_def blank_intent_def)
qed

lemma prepared_envelope:
  assumes proj: "project_events E task_id events = Inr (native, source)" and sha: "sha256_law E"
    and thread: "id_string (oa_controller_thread_id a)" and epoch: "1 \<le> oa_controller_epoch a" "oa_controller_epoch a \<le> 1000000"
    and revs: "list_all (\<lambda>row. int_of (dget (obj_of row) ''event_revision'') \<le> 1000000) events"
    and i: "id_string i"
  shows "envelope E (JObj (bt_envelope (prepared_batch E a task_id i native source))) = Inr (bt_envelope (prepared_batch E a task_id i native source))"
proof -
  note p = project_events_ok [OF proj]
  have ok: "native_ok native" using projected_ok [OF proj] by blast
  let ?ks = "map (\<lambda>row. (row_alias E row, row_slot E row)) events"
  have "list_all2 (\<lambda>(eid, slot) v. audit_event eid slot v) ?ks (map sort_keys native)"
    using p(4) revs native_audit_event [OF _ sha] by (auto simp: p(5) list_all2_conv_all_nth list_all_length)
  from check_audit_events [OF this, of "[]" "[]"] p(7,8)
  have fold: "\<exists>r. fold_result check_event (map sort_keys native) ([], []) = Inr r" by (auto simp: comp_def)
  have len: "1 \<le> length native" "length native \<le> 8" using p(2,3,5) by simp_all
  show ?thesis
    using fold len thread epoch i unfolding prepared_batch_def delivery_batch.select_convs native_envelope_fields [OF ok]
    by (auto simp: envelope_def Let_def shape_def keys_include_def keys_within_def envelope_fields_def safe_def positive_def envelope_body_def)
qed

section \<open>What holds in every run\<close>

context json_codec
begin

lemma run_flat: "(ledger_step E)\<^sup>*\<^sup>* fresh_ledger lg \<Longrightarrow> flat_status E (lg_store lg)"
  using ledger.runs by simp

lemma run_moves: "(ledger_step E)\<^sup>*\<^sup>* fresh_ledger lg \<Longrightarrow> batch_move\<^sup>*\<^sup>* (\<lambda>_. None) (view E (lg_store lg))"
  using ledger.runs [of fresh_ledger lg] by simp

lemma run_exclusive: "(ledger_step E)\<^sup>*\<^sup>* fresh_ledger lg \<Longrightarrow> exclusive (view E (lg_store lg))"
  by (rule ledger.invariant) (auto simp: exclusive_def [of "\<lambda>_. None"] intro: move_exclusive)

lemma run_evidenced: "(ledger_step E)\<^sup>*\<^sup>* fresh_ledger lg \<Longrightarrow> evidenced (view E (lg_store lg))"
  by (rule ledger.invariant) (auto simp: evidenced_def [of "\<lambda>_. None"] intro: move_evidenced)

lemma run_later:
  assumes "(ledger_step E)\<^sup>*\<^sup>* fresh_ledger lg" and "(ledger_step E)\<^sup>*\<^sup>* lg lg'" and "view E (lg_store lg) i = Some (Holds b)"
  shows "no_earlier i b (view E (lg_store lg'))"
  using assms(2) run_flat [OF assms(1)]
  by (rule ledger.invariant) (auto simp: no_earlier_def [of i b "view E (lg_store lg)"] assms(3) intro: move_no_earlier)

lemma prepare_ledger_again:
  assumes "attachment_ok E a" and run: "prepare_and_claim E flt killed a task_id events lg = (Inr b, lg')"
  shows "prepare_and_claim E flt' killed' a task_id events lg' = (Inr b, lg')"
proof -
  from run obtain native source where proj: "project_events E task_id events = Inr (native, source)"
    and lk: "ledger_locked E (prepare_unlocked E flt killed a task_id native source) lg = (Inr b, lg')"
    by (auto simp: prepare_and_claim_def split: sum.splits)
  from lk obtain l s' where l: "open_lock E (bridge_error ''ledger_lock'') (bridge_error ''ledger_lock'') (lg_lock lg) = Inr l"
    and p: "prepare_unlocked E flt killed a task_id native source (lg_store lg) = (Inr b, s')" and lg': "lg' = \<lparr>lg_lock = l, lg_store = s'\<rparr>"
    by (auto simp: ledger_locked_def split: sum.splits prod.splits)
  have "open_lock E (bridge_error ''ledger_lock'') (bridge_error ''ledger_lock'') l = Inr l"
    using l by (auto simp: open_lock_def split: lock_node.splits)
  then show ?thesis
    using prepare_again [OF p proj assms(1)] by (simp add: prepare_and_claim_def proj ledger_locked_def lg')
qed

text \<open>A preparation that fails or is cut short has added nothing or the whole batch.\<close>


text \<open>Every other entry reads as before, whatever happened.\<close>

lemma prepare_entries:
  assumes run: "prepare_unlocked E flt killed a task_id native source s = (r, s')"
    and proj: "project_events E task_id events = Inr (native, source)" and i: "i = batch_id E a task_id source"
  shows "(\<forall>k. k \<noteq> i \<longrightarrow> k \<noteq> stage_name i \<longrightarrow> map_of s' k = map_of s k)
    \<and> (map_of s' i = map_of s i \<or> \<not> entry_exists s i \<and> map_of s' i = Some (EDir (batch_dir E a task_id i (final_intent E a i native) source)))
    \<and> (\<forall>b. r = Inr b \<longrightarrow> load_unlocked E i s' = Inr b)"
proof (cases "entry_exists s i \<or> (\<exists>e. slot_free E s (JStr (oa_controller_thread_id a)) s = Inl e)")
  case True
  then show ?thesis using run i by (auto simp: prepare_unlocked_def Let_def split: if_splits sum.splits)
next
  case False
  then obtain u where free: "slot_free E s (JStr (oa_controller_thread_id a)) s = Inr u"
    by (cases "slot_free E s (JStr (oa_controller_thread_id a)) s") auto
  obtain r1 where st: "stage_batch E flt killed a task_id i native source s = (r1, s')"
    using False run i free by (auto simp: prepare_unlocked_def Let_def split: prod.splits sum.splits)
  have intent: "batch_intent E a i native = Inr (final_intent E a i native)" using projected_ok [OF proj] by (simp add: batch_intent_ok)
  have "r = Inr b \<Longrightarrow> load_unlocked E i s' = Inr b" for b
    using False run i free st by (auto simp: prepare_unlocked_def Let_def split: prod.splits sum.splits)
  then show ?thesis using stage_batch_cases [OF st intent] False by auto
qed

lemma load_entry: "map_of s' k = map_of s k \<Longrightarrow> load_unlocked E k s' = load_unlocked E k s"
  by (simp add: load_unlocked_def cong: option.case_cong)

lemma prepare_loads:
  assumes run: "prepare_unlocked E flt killed a task_id native source s = (r, s')"
    and proj: "project_events E task_id events = Inr (native, source)" and att: "attachment_ok E a" and i: "i = batch_id E a task_id source"
    and fits: "list_all (\<lambda>(n, v). length (file_text E v) \<le> max_json) (stage_files E a task_id i (final_intent E a i native) source)"
  shows "(\<forall>k. k \<noteq> i \<longrightarrow> load_unlocked E k s' = load_unlocked E k s)
    \<and> (load_unlocked E i s' = load_unlocked E i s
        \<or> \<not> entry_exists s i \<and> load_unlocked E i s' = (if delivery_name i then Inr (prepared_batch E a task_id i native source) else Inl (bridge_error ''delivery_id'')))
    \<and> (\<forall>b. r = Inr b \<longrightarrow> load_unlocked E i s' = Inr b)"
proof -
  note out = prepare_entries [OF run proj i]
  have "load_unlocked E k s' = load_unlocked E k s" if "k \<noteq> i" for k
  proof (cases "k = stage_name i")
    case True
    moreover have "\<not> delivery_name (stage_name i)" using delivery_name_visible by fastforce
    ultimately show ?thesis by (simp add: load_unlocked_def)
  qed (use out that load_entry in blast)
  moreover have "load_dir E i (batch_dir E a task_id i (final_intent E a i native) source) = Inr (prepared_batch E a task_id i native source)"
    using load_batch_dir [of native source a task_id i] projected_ok [OF proj] att fits by (auto simp: stage_files_def)
  ultimately show ?thesis using out load_entry [of s' i s] by (auto simp: load_unlocked_def ensure_def)
qed

text \<open>The four transitions of a delivery that goes well.\<close>

lemma delivery_completes:
  assumes b: "load_unlocked E i s = Inr b" "bt_status b = ''pending''" "bt_turn b = JNull" and calm: "calm E 900 i s"
    and args: "bridge_safe turn" "bridge_safe item" "bridge_hash evidence" "bridge_hash ack"
  shows "\<exists>s1 s2 s3 s4 b1 b2 b3 b4. mark_sending E None i s = (Inr b1, s1) \<and> mark_transport_accepted E None i turn s1 = (Inr b2, s2)
    \<and> confirm_history E None i evidence turn item s2 = (Inr b3, s3) \<and> mark_controller_acked E None i ack s3 = (Inr b4, s4)
    \<and> bt_status b4 = ''controller_acked'' \<and> bt_proof b4 = evidence \<and> bt_turn b4 = turn \<and> bt_item b4 = item
    \<and> load_unlocked E i s4 = Inr b4 \<and> record_history E None i evidence turn item s2 = (Inr b3, s3)"
proof -
  have known: "''sending'' \<in> set known_states" "''transport_accepted'' \<in> set known_states" "''history_confirmed'' \<in> set known_states"
    "''controller_acked'' \<in> set known_states" by (simp_all add: known_states_def slot_blocking_def)
  have c: "calm E (800 + 100) i s" using calm by simp
  obtain s1 where s1: "mark_sending E None i s = (Inr (moved ''sending'' [(''transport_status'', JStr ''ready'')] b), s1)"
    "load_unlocked E i s1 = Inr (moved ''sending'' [(''transport_status'', JStr ''ready'')] b)" "calm E 800 i s1"
    using transition_ok [OF b(1) _ c extra_fields(1) known(1) msize_extra(1), of "[''pending'']"] b(2) by (auto simp: mark_sending_def)
  define b1 where "b1 = moved ''sending'' [(''transport_status'', JStr ''ready'')] b"
  have b1: "bt_status b1 = ''sending''" "bt_turn b1 = JNull" using b(3) by (simp_all add: b1_def moved_def)
  have c1: "calm E (600 + 200) i s1" using s1(3) by simp
  define x2 where "x2 = [(''transport_status'', JStr ''accepted''), (''native_turn_id'', turn)]"
  obtain s2 where s2: "mark_transport_accepted E None i turn s1 = (Inr (moved ''transport_accepted'' x2 b1), s2)"
    "load_unlocked E i s2 = Inr (moved ''transport_accepted'' x2 b1)" "calm E 600 i s2"
    using transition_ok [OF s1(2) _ c1 extra_fields(2) [OF args(1)] known(2) msize_extra(2) [OF args(1)], of "[''sending'']"] b1 args(1)
    by (auto simp: mark_transport_accepted_def x2_def b1_def)
  define b2 where "b2 = moved ''transport_accepted'' x2 b1"
  have b2: "bt_status b2 = ''transport_accepted''" "bt_turn b2 = turn" by (simp_all add: b2_def moved_def x2_def)
  have c2: "calm E (200 + 400) i s2" using s2(3) by simp
  define x3 where "x3 = [(''transport_status'', JStr ''confirmed''), (''history_proof_sha256'', evidence), (''native_turn_id'', turn), (''native_item_id'', item)]"
  have turn: "py_eq turn turn" using args(1) by (auto simp: bridge_safe_def is_str_iff)
  obtain s3 where s3: "confirm_history E None i evidence turn item s2 = (Inr (moved ''history_confirmed'' x3 b2), s3)"
    "load_unlocked E i s3 = Inr (moved ''history_confirmed'' x3 b2)" "calm E 200 i s3"
    "record_history E None i evidence turn item s2 = (Inr (moved ''history_confirmed'' x3 b2), s3)"
    using transition_ok [OF s2(2) _ c2 extra_fields(4) [OF args(3,1,2)] known(3) msize_extra(3) [OF args(3,1,2)], of unsettled] b2 args turn s2(2)
    by (auto simp: confirm_history_def record_history_def x3_def b2_def unsettled_def)
  define b3 where "b3 = moved ''history_confirmed'' x3 b2"
  have b3: "bt_status b3 = ''history_confirmed''" "bt_proof b3 = evidence" "bt_turn b3 = turn" "bt_item b3 = item"
    by (simp_all add: b3_def moved_def x3_def)
  have c3: "calm E (0 + 200) i s3" using s3(3) by simp
  obtain s4 where s4: "mark_controller_acked E None i ack s3 = (Inr (moved ''controller_acked'' [(''controller_ack_sha256'', ack)] b3), s4)"
    "load_unlocked E i s4 = Inr (moved ''controller_acked'' [(''controller_ack_sha256'', ack)] b3)"
    using transition_ok [OF s3(2) _ c3 extra_fields(5) [OF args(4)] known(4) msize_extra(4) [OF args(4)], of "[''history_confirmed'']"] b3 args(4)
    by (auto simp: mark_controller_acked_def b3_def)
  have "bt_status (moved ''controller_acked'' [(''controller_ack_sha256'', ack)] b3) = ''controller_acked''"
    "bt_proof (moved ''controller_acked'' [(''controller_ack_sha256'', ack)] b3) = evidence"
    "bt_turn (moved ''controller_acked'' [(''controller_ack_sha256'', ack)] b3) = turn"
    "bt_item (moved ''controller_acked'' [(''controller_ack_sha256'', ack)] b3) = item"
    using b3 by (simp_all add: moved_def)
  with s1(1) s2(1) s3(1,4) s4 show ?thesis by blast
qed

lemma completing_run:
  assumes "load_unlocked E i (lg_store lg) = Inr b" "bt_status b = ''pending''" "bt_turn b = JNull" and "calm E 900 i (lg_store lg)"
    and args: "bridge_safe turn" "bridge_safe item" "bridge_hash evidence" "bridge_hash ack"
    and lock: "open_lock E (bridge_error ''ledger_lock'') (bridge_error ''ledger_lock'') (lg_lock lg) = Inr (lg_lock lg)"
  shows "\<exists>lg' b'. (ledger_step E)\<^sup>*\<^sup>* lg lg' \<and> load_unlocked E i (lg_store lg') = Inr b' \<and> bt_status b' = ''controller_acked''"
proof -
  from delivery_completes [OF assms(1-8)] obtain s1 s2 s3 s4 b1 b2 b3 b4
    where runs: "mark_sending E None i (lg_store lg) = (Inr b1, s1)" "mark_transport_accepted E None i turn s1 = (Inr b2, s2)"
      "record_history E None i evidence turn item s2 = (Inr b3, s3)" "mark_controller_acked E None i ack s3 = (Inr b4, s4)"
      and fin: "bt_status b4 = ''controller_acked''" "load_unlocked E i s4 = Inr b4" by blast
  define here where "here s = lg\<lparr>lg_store := s\<rparr>" for s
  have lk: "ledger_locked E f (here s) = (r, here s')" if "f s = (r, s')" for f :: "store \<Rightarrow> delivery_batch result \<times> store" and s r s'
    using that lock by (simp add: ledger_locked_def here_def)
  have pid: "at_pid (p_pid E) E = E" by simp
  have "ledger_step E (here (lg_store lg)) (here s1)" using ledger_step.sending [of E "p_pid E" None i] lk [of "mark_sending E None i", OF runs(1)] unfolding pid by blast
  moreover have "ledger_step E (here s1) (here s2)" using ledger_step.accepted [of E "p_pid E" None i turn] lk [of "mark_transport_accepted E None i turn", OF runs(2)] unfolding pid by blast
  moreover have "ledger_step E (here s2) (here s3)"
    using ledger_step.confirm [OF args(3,1,2), of E "p_pid E" None i] lk [of "record_history E None i evidence turn item", OF runs(3)] unfolding pid by blast
  moreover have "ledger_step E (here s3) (here s4)" using ledger_step.acked [of E "p_pid E" None i ack] lk [of "mark_controller_acked E None i ack", OF runs(4)] unfolding pid by blast
  ultimately have "(ledger_step E)\<^sup>*\<^sup>* (here (lg_store lg)) (here s4)" by (meson converse_rtranclp_into_rtranclp rtranclp.rtrancl_refl)
  moreover have "here (lg_store lg) = lg" "lg_store (here s4) = s4" by (simp_all add: here_def)
  ultimately show ?thesis using fin by metis
qed

end

section \<open>Claims\<close>

lemma ledger_loads: "view E (lg_store lg) i = Some (Holds b) \<longleftrightarrow> load_unlocked E i (lg_store lg) = Inr b"
  by (rule view_Holds)

lemma locked_fresh: "ledger_locked E f fresh_ledger = (fst (f []), \<lparr>lg_lock = LockFile (fl_stat (new_file E [])), lg_store = snd (f [])\<rparr>)"
  by (simp add: ledger_locked_def fresh_ledger_def open_lock_def split: prod.splits)

text \<open>The sample delivery on a fresh ledger.\<close>

definition sample_ledger :: ledger where
  "sample_ledger = snd (prepare_and_claim std_platform None False sample_attachment ''task'' [sample_row] fresh_ledger)"

lemma sample_result: "prepare_and_claim std_platform None False sample_attachment ''task'' [sample_row] fresh_ledger = (Inr sample_batch, sample_ledger)"
  using sample_prepared by (auto simp: sample_ledger_def prepare_and_claim_def sample_project locked_fresh)

lemma sample_step: "ledger_step std_platform fresh_ledger sample_ledger"
  using ledger_step.prepare [OF sample_attachment_ok sample_result] .

lemma sample_run: "(ledger_step std_platform)\<^sup>*\<^sup>* fresh_ledger sample_ledger"
  using sample_step by (rule r_into_rtranclp)

lemma sample_loads: "load_unlocked std_platform sample_id (lg_store sample_ledger) = Inr sample_batch"
proof -
  have "view std_platform (lg_store sample_ledger) sample_id = Some (Holds sample_batch)"
    using sample_prepared by (auto simp: sample_ledger_def prepare_and_claim_def sample_project locked_fresh)
  then show ?thesis by (simp only: ledger_loads)
qed

lemma sample_calm: "calm std_platform 900 sample_id (lg_store sample_ledger)"
proof -
  let ?st = "initial_status sample_attachment sample_id"
  let ?d = "batch_dir std_platform sample_attachment ''task'' sample_id (final_intent std_platform sample_attachment sample_id sample_native) sample_source"
  have d: "map_of (lg_store sample_ledger) sample_id = Some (EDir ?d)"
    using sample_prepared by (auto simp: sample_ledger_def prepare_and_claim_def sample_project locked_fresh)
  have flat: "flat (JObj ?st)" by (simp add: flat_def initial_status_def)
  have small: "msize std_platform ?st + 903 \<le> max_json" by code_simp
  then have "stable_json std_platform ?d status_file = Inr (obj_of (sort_keys (JObj ?st)))"
    using std.stable_json_reg [OF files_batch_dir(5)] flat_plain [OF flat] msize_file_text [of std_platform ?st] by simp
  moreover have "map_of (dr_files ?d) (status_stage std_platform) = None"
    by (simp add: batch_dir_def add_files_def stage_files_def status_stage_def ledger_file_defs new_dir_def)
  moreover have "flat (JObj (obj_of (sort_keys (JObj ?st))))" using flat_sorted [OF flat] by simp
  ultimately show ?thesis unfolding calm_def using d small
    by (intro exI [of _ ?d] exI [of _ "obj_of (sort_keys (JObj ?st))"]) (simp add: msize_sorted del: sort_keys.simps)
qed

lemma sample_args: "bridge_safe (JStr ''turn'')" "bridge_safe (JStr ''item'')" "bridge_hash (JStr (replicate 64 CHR ''a''))"
  by code_simp+

lemma sample_lock:
  "open_lock std_platform (bridge_error ''ledger_lock'') (bridge_error ''ledger_lock'') (lg_lock sample_ledger) = Inr (lg_lock sample_ledger)"
  by (simp add: sample_ledger_def prepare_and_claim_def sample_project locked_fresh open_lock_def)

lemma sample_acked_run:
  "\<exists>lg b. (ledger_step std_platform)\<^sup>*\<^sup>* fresh_ledger lg \<and> load_unlocked std_platform sample_id (lg_store lg) = Inr b \<and> bt_status b = ''controller_acked''"
proof -
  have "bt_turn sample_batch = JNull" by (simp add: prepared_batch_def)
  from std.completing_run [OF sample_loads _ this sample_calm sample_args(1,2,3,3) sample_lock]
  show ?thesis using sample_run by (auto simp: prepared_batch_def intro: rtranclp_trans)
qed

lemma sample_sha: "sha256_law std_platform"
  by (simp add: sha256_law_def std_platform_def hex_string_def is_hex_char_def in_range_def list_all_iff)

lemma sample_thread: "bt_thread sample_batch = JStr ''thread-1''" "bt_status sample_batch = ''pending''"
  by (simp_all add: prepared_batch_def sample_attachment_def)

text \<open>
  C1. The delivery ledger refines the abstract batch machine, step by step: a fresh ledger shows no batch,
  and from any ledger that grew from it by any sequence of preparations, transitions, failures and
  process ends (between any two file operations, and in the middle of a write), one further operation
  by any process, complete or cut short anywhere, changes what can be read by a single move of the
  machine: nothing, a claim of a slot that was free, an advance of one batch along the state order with
  the same content, or one directory that is or becomes unreadable. No batch disappears, goes back, or
  changes together with another one.\<close>

theorem ledger_refines_batch_machine:
  assumes "json_codec E" and "(ledger_step E)\<^sup>*\<^sup>* fresh_ledger lg" and "ledger_step E lg lg'"
  shows "view E (lg_store fresh_ledger) = (\<lambda>_. None) \<and> batch_move (view E (lg_store lg)) (view E (lg_store lg'))"
  using json_codec.step_simulates [OF assms(1,3)] json_codec.run_flat [OF assms(1,2)] by simp

theorem ledger_refines_batch_machine_witness:
  "batch_move (\<lambda>_. None) (view std_platform (lg_store sample_ledger)) \<and> view std_platform (lg_store sample_ledger) sample_id = Some (Holds sample_batch)"
  using ledger_refines_batch_machine [OF std.json_codec_axioms rtranclp.rtrancl_refl sample_step] sample_loads by (simp only: ledger_loads fresh_view simp_thms)

text \<open>
  C2. At any time at most one batch of a controller thread is open (pending, sending, accepted or
  uncertain): two open batches of the same thread in a ledger that grew from an empty one are the
  same batch.\<close>

theorem one_open_delivery_per_thread:
  assumes "json_codec E" and "(ledger_step E)\<^sup>*\<^sup>* fresh_ledger lg"
    and "load_unlocked E i (lg_store lg) = Inr b" and "bt_status b \<in> set slot_blocking"
    and "load_unlocked E j (lg_store lg) = Inr c" and "bt_status c \<in> set slot_blocking"
    and "bt_thread b = bt_thread c"
  shows "i = j"
  using json_codec.run_exclusive [OF assms(1,2)] assms(3-7) unfolding exclusive_def ledger_loads by blast

theorem one_open_delivery_per_thread_witness:
  "json_codec std_platform \<and> load_unlocked std_platform sample_id (lg_store sample_ledger) = Inr sample_batch
   \<and> bt_status sample_batch \<in> set slot_blocking \<and> sample_id = sample_id"
  using one_open_delivery_per_thread [OF std.json_codec_axioms sample_run sample_loads _ sample_loads _ refl]
    std.json_codec_axioms sample_loads sample_thread(2) by (simp add: slot_blocking_def)

text \<open>
  C3. The state of a delivery never goes back and its content never changes: a batch that is read
  again later, after any operations of any processes, has the same task, thread, epoch, envelope
  and source events, and its state is the same or further along pending, sending, transport
  accepted, uncertain, confirmed, acknowledged. In particular a delivery that left \<open>pending\<close> is never
  handed out for sending a second time.\<close>

theorem delivery_state_only_advances:
  assumes "json_codec E" and "(ledger_step E)\<^sup>*\<^sup>* fresh_ledger lg" and "(ledger_step E)\<^sup>*\<^sup>* lg lg'"
    and "load_unlocked E i (lg_store lg) = Inr b" and "load_unlocked E i (lg_store lg') = Inr c"
  shows "same_content b c \<and> (bt_status c = bt_status b \<or> state_rank (bt_status b) < state_rank (bt_status c))"
  using json_codec.run_later [OF assms(1-3), of i b] assms(4,5) unfolding no_earlier_def ledger_loads [symmetric]
  by (simp add: later_def)

theorem delivery_state_only_advances_witness:
  "same_content sample_batch sample_batch \<and> load_unlocked std_platform sample_id (lg_store sample_ledger) = Inr sample_batch"
  using delivery_state_only_advances [OF std.json_codec_axioms sample_run rtranclp.rtrancl_refl sample_loads sample_loads] sample_loads by blast

text \<open>
  C36. A delivery counts as confirmed, and can be acknowledged, only with evidence: every batch
  whose state is confirmed or acknowledged carries a history proof that is a SHA-256 digest and
  the identifiers of the turn and the item it was found in.\<close>

theorem acknowledged_only_with_evidence:
  assumes "json_codec E" and "(ledger_step E)\<^sup>*\<^sup>* fresh_ledger lg" and "load_unlocked E i (lg_store lg) = Inr b"
    and "bt_status b = ''history_confirmed'' \<or> bt_status b = ''controller_acked''"
  shows "bridge_hash (bt_proof b) \<and> bridge_safe (bt_turn b) \<and> bridge_safe (bt_item b)"
  using json_codec.run_evidenced [OF assms(1,2)] assms(3,4) unfolding evidenced_def ledger_loads [symmetric] proven_def by blast

theorem acknowledged_only_with_evidence_witness:
  "\<exists>lg b. (ledger_step std_platform)\<^sup>*\<^sup>* fresh_ledger lg \<and> load_unlocked std_platform sample_id (lg_store lg) = Inr b \<and>
     bt_status b = ''controller_acked'' \<and> bridge_hash (bt_proof b)"
  using sample_acked_run acknowledged_only_with_evidence [OF std.json_codec_axioms] by blast

text \<open>
  Preparing the same events again is harmless: once a preparation has returned a batch, the
  same preparation returns the same batch and leaves the ledger as it is, whatever would fail.\<close>

theorem prepare_is_idempotent:
  assumes "json_codec E" and "attachment_ok E a" and "prepare_and_claim E flt killed a task_id events lg = (Inr b, lg')"
  shows "prepare_and_claim E flt' killed' a task_id events lg' = (Inr b, lg')"
  using json_codec.prepare_ledger_again assms by blast

theorem prepare_is_idempotent_witness:
  "prepare_and_claim std_platform (Some (0, 0)) True sample_attachment ''task'' [sample_row] sample_ledger = (Inr sample_batch, sample_ledger)"
  by (rule prepare_is_idempotent [OF std.json_codec_axioms sample_attachment_ok sample_result])

text \<open>
  C4. A preparation is atomic: whether it succeeds, fails or the process is killed, at any file operation
  or in the middle of a write, every other entry of the ledger reads exactly as before (the batches that
  could be read and the errors of those that could not), and the new batch either reads as before too, or
  it was not there and is now there in full; when a batch is returned it is the one that is read
  afterwards. (The files of the batch must be within the limit of the reader.)\<close>

theorem prepare_is_atomic:
  assumes "json_codec E" and "sha256_law E" and "attachment_ok E a" and "project_events E task_id events = Inr (native, source)"
    and "i = batch_id E a task_id source"
    and "list_all (\<lambda>(n, v). length (file_text E v) \<le> max_json) (stage_files E a task_id i (final_intent E a i native) source)"
    and "prepare_unlocked E flt killed a task_id native source s = (r, s')"
  shows "(\<forall>k. k \<noteq> i \<longrightarrow> load_unlocked E k s' = load_unlocked E k s)
    \<and> (load_unlocked E i s' = load_unlocked E i s
        \<or> \<not> entry_exists s i \<and> load_unlocked E i s' = Inr (prepared_batch E a task_id i native source))
    \<and> (\<forall>b. r = Inr b \<longrightarrow> load_unlocked E i s' = Inr b)"
  using json_codec.prepare_loads [OF assms(1) assms(7,4,3,5,6)] batch_id_name [OF assms(2)] assms(5) by simp

theorem prepare_is_atomic_witness:
  "\<exists>s'. prepare_unlocked std_platform None False sample_attachment ''task'' sample_native sample_source [] = (Inr sample_batch, s') \<and>
     load_unlocked std_platform sample_id s' = Inr sample_batch \<and>
     (\<forall>k. k \<noteq> sample_id \<longrightarrow> load_unlocked std_platform k s' = load_unlocked std_platform k [])"
proof -
  from sample_prepared obtain s' where s': "prepare_unlocked std_platform None False sample_attachment ''task'' sample_native sample_source [] = (Inr sample_batch, s')" by auto
  show ?thesis
    using prepare_is_atomic [OF std.json_codec_axioms sample_sha sample_attachment_ok sample_project refl sample_fits s'] s' by blast
qed

text \<open>
  C38. A delivery whose transport goes well completes: from a pending batch with no staged status
  and some room in its status file, marking it as sending, as accepted, as confirmed and as
  acknowledged all succeed, and the acknowledged batch carries the evidence given.\<close>

theorem pending_delivery_completes:
  assumes "json_codec E" and "load_unlocked E i s = Inr b" and "bt_status b = ''pending''" and "bt_turn b = JNull" and "calm E 900 i s"
    and "bridge_safe turn" and "bridge_safe item" and "bridge_hash evidence" and "bridge_hash ack"
  shows "\<exists>s1 s2 s3 s4 b1 b2 b3 b4. mark_sending E None i s = (Inr b1, s1) \<and> mark_transport_accepted E None i turn s1 = (Inr b2, s2)
    \<and> confirm_history E None i evidence turn item s2 = (Inr b3, s3) \<and> mark_controller_acked E None i ack s3 = (Inr b4, s4)
    \<and> bt_status b4 = ''controller_acked'' \<and> bt_proof b4 = evidence \<and> bt_turn b4 = turn \<and> bt_item b4 = item"
  using json_codec.delivery_completes [OF assms] by blast

theorem pending_delivery_completes_witness:
  "\<exists>s1 b1. mark_sending std_platform None sample_id (lg_store sample_ledger) = (Inr b1, s1) \<and>
     (\<exists>s2 b2. mark_transport_accepted std_platform None sample_id (JStr ''turn'') s1 = (Inr b2, s2))"
proof -
  have "bt_turn sample_batch = JNull" by (simp add: prepared_batch_def)
  from pending_delivery_completes [OF std.json_codec_axioms sample_loads sample_thread(2) this sample_calm sample_args(1,2,3,3)]
  show ?thesis by blast
qed

text \<open>
  The envelope of a prepared batch is one the owner helper and the audit accept, if the thread
  is a safe identifier and the epoch and the revisions are within their limits: the projection of
  the events, the identifier of the batch and the digest over the stored intent all pass.\<close>

theorem prepared_envelope_accepted:
  assumes "project_events E task_id events = Inr (native, source)" and "sha256_law E"
    and "id_string (oa_controller_thread_id a)" and "1 \<le> oa_controller_epoch a" and "oa_controller_epoch a \<le> 1000000"
    and "list_all (\<lambda>row. int_of (dget (obj_of row) ''event_revision'') \<le> 1000000) events"
    and "i = batch_id E a task_id source"
  shows "envelope E (JObj (bt_envelope (prepared_batch E a task_id i native source))) = Inr (bt_envelope (prepared_batch E a task_id i native source))"
  using prepared_envelope [OF assms(1-6)] batch_id_name [OF assms(2)] assms(7) by (simp add: delivery_name_def)

theorem prepared_envelope_accepted_witness:
  "envelope std_platform (JObj (bt_envelope sample_batch)) = Inr (bt_envelope sample_batch)"
proof (rule prepared_envelope_accepted [OF sample_project _ _ _ _ _ refl])
  show "sha256_law std_platform" by (rule sample_sha)
  show "id_string (oa_controller_thread_id sample_attachment)" by code_simp
qed (simp_all add: sample_attachment_def sample_row_def)

end
