(* ===== verification/ControlPlane.thy ===== *)
theory ControlPlane
  imports Ledger
begin

text \<open>
  The client of the control plane in \<open>plugins/codex-orchestrator/lib/native_bridge/bridge.py\<close>
  (\<open>ControlPlaneClient\<close>): the checks of the executable, of the control file and of its directories, the
  commands it runs and what it accepts as their answers, and the two requests it writes. The
  operating system and the command itself are arguments.
\<close>

section \<open>The host\<close>

text \<open>
  \<open>ho_lstat\<close> and \<open>ho_open\<close> (the attributes of an opened file and the chunks the reads return) may
  raise; \<open>ho_run\<close> is \<open>subprocess.run\<close>: arguments, environment and timeout to exit status and output.
\<close>

record host =
  ho_lstat :: "string \<Rightarrow> stat result"
  ho_open :: "string \<Rightarrow> (stat \<times> string list) result"
  ho_environ :: "(string \<times> string) list"
  ho_run :: "string list \<Rightarrow> (string \<times> string) list \<Rightarrow> int \<Rightarrow> (int \<times> string) result"

definition catch :: "string list \<Rightarrow> 'a result \<Rightarrow> exn \<Rightarrow> 'a result" where
  "catch classes m e = (case m of Inl x \<Rightarrow> Inl (if exn_class x \<in> set classes then e else x) | Inr v \<Rightarrow> Inr v)"

lemma catch_Inr [simp, result_simps]: "catch cs m e = Inr v \<longleftrightarrow> m = Inr v"
  by (simp add: catch_def split: sum.splits)

section \<open>Paths\<close>

fun split_on :: "char \<Rightarrow> string \<Rightarrow> string list" where
  "split_on c [] = [[]]"
| "split_on c (x # xs) = (if x = c then [] # split_on c xs else (case split_on c xs of [] \<Rightarrow> [[x]] | w # ws \<Rightarrow> (x # w) # ws))"

text \<open>\<open>Path(p)\<close>: empty and \<open>.\<close> components are dropped; exactly two leading slashes are kept.\<close>

definition path_parts :: "string \<Rightarrow> string list" where
  "path_parts p = filter (\<lambda>c. c \<noteq> [] \<and> c \<noteq> ''.'') (split_on CHR ''/'' p)"

definition path_anchor :: "string \<Rightarrow> string" where
  "path_anchor p = (if starts_with ''//'' p \<and> \<not> starts_with ''///'' p then ''//'' else if starts_with ''/'' p then ''/'' else [])"

definition path_text :: "string \<Rightarrow> string list \<Rightarrow> string" where
  "path_text anchor parts = (if anchor = [] \<and> parts = [] then ''.'' else anchor @ join ''/'' parts)"

definition mk_path :: "string \<Rightarrow> string" where
  "mk_path p = path_text (path_anchor p) (path_parts p)"

definition path_parent :: "string \<Rightarrow> string" where
  "path_parent p = path_text (path_anchor p) (butlast (path_parts p))"

definition path_name :: "string \<Rightarrow> string" where
  "path_name p = (if path_parts p = [] then [] else last (path_parts p))"

section \<open>The executable\<close>

record client =
  cl_executable :: string
  cl_sha256 :: string
  cl_fake :: bool

definition verify_executable :: "platform \<Rightarrow> host \<Rightarrow> client \<Rightarrow> unit result" where
  "verify_executable E H c =
     andThen (catch [''OSError''] (ho_open H (cl_executable c)) (bridge_error ''control_binary'')) (\<lambda>(st, chunks).
     ensure (sx_kind st = KRegular \<and> sx_uid st = p_uid E \<and> 0 < sx_size st \<and> sx_size st \<le> 536870912) (bridge_error ''control_binary'')
    (ensure (p_sha256 E (concat (takeWhile (\<lambda>x. x \<noteq> []) chunks)) = cl_sha256 c) (bridge_error ''control_binary_changed'')
    (Inr ())))"

text \<open>\<open>ControlPlaneClient(executable, expected_sha256, enable_test_fake=...)\<close>.\<close>

definition make_client :: "platform \<Rightarrow> host \<Rightarrow> string \<Rightarrow> json \<Rightarrow> json \<Rightarrow> client result" where
  "make_client E H executable digest fake =
     ensure (is_absolute executable \<and> bridge_hash digest) (bridge_error ''control_binary'')
    (ensure (is_bool fake \<and> (fake = JBool False \<or> map_of (ho_environ H) ''ORCHESTRATOR_ENABLE_TEST_FAKE'' = Some ''1''))
       (bridge_error ''test_fake_not_authorized'')
    (let c = \<lparr>cl_executable = mk_path executable, cl_sha256 = str_of digest, cl_fake = (fake = JBool True)\<rparr> in
     andThen (verify_executable E H c) (\<lambda>_. Inr c)))"

definition validate_control_file :: "platform \<Rightarrow> host \<Rightarrow> string \<Rightarrow> string result" where
  "validate_control_file E H p =
    (let path = mk_path p in
     ensure (is_absolute path) (bridge_error ''control_file'')
    (andThen (catch [''OSError''] (ho_lstat H path) (bridge_error ''control_file'')) (\<lambda>st.
     ensure (private_file E st) (bridge_error ''control_file'') (Inr path))))"

definition private_control_dir :: "platform \<Rightarrow> host \<Rightarrow> string \<Rightarrow> unit result" where
  "private_control_dir E H path =
     andThen (catch [''OSError''] (ho_lstat H path) (bridge_error ''control_state'')) (\<lambda>st.
     ensure (private_dir E st) (bridge_error ''control_state'') (Inr ()))"

definition state_for_control :: "platform \<Rightarrow> host \<Rightarrow> string \<Rightarrow> string result" where
  "state_for_control E H p =
     andThen (validate_control_file E H p) (\<lambda>path.
     let control_dir = path_parent path; state_dir = path_parent control_dir in
     ensure (path_name control_dir = ''control'' \<and> is_absolute state_dir) (bridge_error ''control_state'')
    (andThen (for_each (private_control_dir E H) [control_dir, state_dir]) (\<lambda>_. Inr state_dir)))"

section \<open>Running a command\<close>

text \<open>
  \<open>key.upper()\<close> as far as it can reach an ASCII prefix: besides the ASCII letters, the long s and the
  two ligatures of s and t have an ASCII upper case.
\<close>

definition ascii_upper :: "char \<Rightarrow> char" where
  "ascii_upper c = (if in_range CHR ''a'' CHR ''z'' c then char_of (of_char c - 32 :: nat) else c)"

fun py_upper :: "string \<Rightarrow> string" where
  "py_upper [] = []"
| "py_upper (a # s) =
    (case s of
       b # s1 \<Rightarrow>
         if a = CHR 0xC5 \<and> b = CHR 0xBF then CHR ''S'' # py_upper s1
         else if a = CHR 0xEF \<and> b = CHR 0xAC then (case s1 of
             c # s2 \<Rightarrow> if c = CHR 0x85 \<or> c = CHR 0x86 then ''ST'' @ py_upper s2 else a # py_upper s
           | [] \<Rightarrow> a # py_upper s)
         else ascii_upper a # py_upper s
     | [] \<Rightarrow> [ascii_upper a])"

definition dont_write :: string where
  "dont_write = ''PYTHONDONTWRITEBYTECODE''"

definition call_environment :: "client \<Rightarrow> (string \<times> string) list \<Rightarrow> (string \<times> string) list" where
  "call_environment c environ =
    (let kept = filter (\<lambda>(k, _). \<not> starts_with ''ORCHESTRATOR_'' (py_upper k) \<and> k \<noteq> dont_write) environ;
         env = dict_set dont_write ''1'' kept
     in if cl_fake c then dict_set ''ORCHESTRATOR_ENABLE_TEST_FAKE'' ''1'' env else env)"

definition call :: "platform \<Rightarrow> host \<Rightarrow> client \<Rightarrow> string list \<Rightarrow> int \<Rightarrow> jdict result" where
  "call E H c args timeout =
     andThen (verify_executable E H c) (\<lambda>_.
     andThen (catch [''OSError'', ''TimeoutExpired''] (ho_run H (cl_executable c # args) (call_environment c (ho_environ H)) timeout)
       (bridge_error ''control_io'')) (\<lambda>(status, out).
     ensure (status = 0 \<and> length out \<le> 65536) (bridge_error ''control_rejected'')
    (andThen (loads E (bridge_error ''control_output'') out) (\<lambda>v.
     ensure (is_obj v) (bridge_error ''control_output'') (Inr (obj_of v))))))"

section \<open>Queries\<close>

definition valid_delivery_cursor :: "string \<Rightarrow> bool" where
  "valid_delivery_cursor cursor = (py_len cursor \<le> 256)"

definition cursor_args :: "string \<Rightarrow> string list" where
  "cursor_args cursor = (if cursor = [] then [] else [''--cursor'', cursor])"

definition event_page :: "nat \<Rightarrow> json \<Rightarrow> json \<Rightarrow> bool" where
  "event_page n events cursor =
    (is_arr events \<and> length (arr_of events) \<le> n \<and> list_all is_obj (arr_of events) \<and> is_str cursor \<and> py_len (str_of cursor) \<le> 256)"

definition collect_page :: "platform \<Rightarrow> host \<Rightarrow> client \<Rightarrow> json \<Rightarrow> string \<Rightarrow> string \<Rightarrow> (json list \<times> string) result" where
  "collect_page E H c task_id control_file cursor =
     ensure (bridge_safe task_id) (bridge_error ''task_id'')
    (ensure (valid_delivery_cursor cursor) (bridge_error ''delivery_cursor'')
    (andThen (validate_control_file E H control_file) (\<lambda>path.
     andThen (state_for_control E H path) (\<lambda>state.
     andThen (call E H c ([''collect'', ''--state-dir'', state, ''--task-id'', str_of task_id, ''--control-file'', path] @ cursor_args cursor) 10) (\<lambda>response.
     let events = dget response ''events''; next_cursor = dget_or response ''next_cursor'' (JStr []) in
     ensure (dget response ''status'' = JStr ''pending'' \<and> py_eq (dget_or response ''version'' (JInt 1)) (JInt 1)
        \<and> event_page 64 events next_cursor \<and> (arr_of events \<noteq> [] \<or> str_of next_cursor = [])) (bridge_error ''control_collect_output'')
    (Inr (arr_of events, str_of next_cursor)))))))"

definition collect :: "platform \<Rightarrow> host \<Rightarrow> client \<Rightarrow> json \<Rightarrow> string \<Rightarrow> json list result" where
  "collect E H c task_id control_file =
     andThen (collect_page E H c task_id control_file []) (\<lambda>(events, cursor).
     ensure (cursor = []) (bridge_error ''control_collect_paginated'') (Inr events))"

text \<open>The state directory is looked at before it is known to be absolute.\<close>

definition submit :: "platform \<Rightarrow> host \<Rightarrow> client \<Rightarrow> string \<Rightarrow> string \<Rightarrow> jdict result" where
  "submit E H c request state_dir =
     andThen (validate_control_file E H request) (\<lambda>request_path.
     andThen (catch [''OSError''] (ho_lstat H (mk_path state_dir)) (bridge_error ''control_state'')) (\<lambda>st.
     ensure (is_absolute (mk_path state_dir) \<and> private_dir E st) (bridge_error ''control_state'')
    (andThen (call E H c [''submit'', ''--state-dir'', mk_path state_dir, ''--request'', request_path] 10) (\<lambda>response.
     ensure (py_eq (dget_or response ''version'' (JInt 1)) (JInt 1) \<and> dget response ''status'' = JStr ''queued''
        \<and> bridge_safe (dget response ''run_id'') \<and> is_str (dget response ''control_file'')) (bridge_error ''control_submit_output'')
    (andThen (validate_control_file E H (str_of (dget response ''control_file''))) (\<lambda>_.
     andThen (state_for_control E H (str_of (dget response ''control_file''))) (\<lambda>state.
     ensure (state = mk_path state_dir) (bridge_error ''control_submit_output'') (Inr response))))))))"

definition status_query :: "platform \<Rightarrow> host \<Rightarrow> client \<Rightarrow> json \<Rightarrow> string \<Rightarrow> jdict result" where
  "status_query E H c task_id control_file =
     ensure (bridge_safe task_id) (bridge_error ''task_id'')
    (andThen (validate_control_file E H control_file) (\<lambda>path.
     andThen (state_for_control E H path) (\<lambda>state.
     andThen (call E H c [''status'', ''--state-dir'', state, ''--task-id'', str_of task_id, ''--control-file'', path] 10) (\<lambda>response.
     ensure (py_eq (dget response ''task_id'') task_id \<and> is_str (dget response ''status'')) (bridge_error ''control_status_output'')
    (Inr response)))))"

definition wait_events :: "platform \<Rightarrow> host \<Rightarrow> client \<Rightarrow> json \<Rightarrow> string \<Rightarrow> string \<Rightarrow> json \<Rightarrow> (string \<times> json list \<times> string) result" where
  "wait_events E H c task_id control_file cursor timeout_ms =
     ensure (bridge_safe task_id \<and> is_int timeout_ms \<and> 1 \<le> int_of timeout_ms \<and> int_of timeout_ms \<le> 30000) (bridge_error ''wait_events'')
    (ensure (valid_delivery_cursor cursor) (bridge_error ''delivery_cursor'')
    (andThen (validate_control_file E H control_file) (\<lambda>path.
     andThen (state_for_control E H path) (\<lambda>state.
     andThen (call E H c ([''wait-events'', ''--state-dir'', state, ''--task-id'', str_of task_id, ''--control-file'', path,
         ''--timeout-ms'', show_int (int_of timeout_ms)] @ cursor_args cursor) (max 10 (int_of timeout_ms div 1000 + 5))) (\<lambda>response.
     let status = dget response ''status''; events = dget response ''events''; next_cursor = dget_or response ''next_cursor'' (JStr []) in
     ensure (py_eq (dget response ''version'') (JInt 1)) (bridge_error ''control_wait_output'')
    (andThen (in_str_set status [''events'', ''timeout'']) (\<lambda>known.
     ensure (known \<and> event_page 8 events next_cursor
        \<and> (status = JStr ''events'' \<and> arr_of events \<noteq> [] \<or> status = JStr ''timeout'' \<and> arr_of events = [] \<and> str_of next_cursor = []))
       (bridge_error ''control_wait_output'')
    (Inr (str_of status, arr_of events, str_of next_cursor)))))))))"

section \<open>Requests\<close>

text \<open>One file of a directory: written once, and found unchanged afterwards.\<close>

definition write_once :: "platform \<Rightarrow> string \<Rightarrow> jdict \<Rightarrow> string \<Rightarrow> dir \<Rightarrow> unit result \<times> dir" where
  "write_once E name v conflict d =
    (if file_exists d name then
       (andThen (stable_json E d name) (\<lambda>old. ensure (py_eq (JObj old) (JObj v)) (bridge_error conflict) (Inr ())), d)
     else case write_exclusive E name (JObj v) d of Inl e \<Rightarrow> (Inl e, d) | Inr d' \<Rightarrow> (Inr (), d'))"

text \<open>The request to rebind an owner; \<open>d\<close> is the directory of the capability.\<close>

definition build_rebind_request :: "platform \<Rightarrow> host \<Rightarrow> owner_capability \<Rightarrow> string \<Rightarrow> dir \<Rightarrow> jdict result" where
  "build_rebind_request E H cap control_file d =
     andThen (stable_json E d (path_name (oc_path cap))) (\<lambda>v.
     andThen (decode_capability E (oc_path cap) v) (\<lambda>stored.
     ensure (py_eq (oc_controller_thread_id stored) (oc_controller_thread_id cap) \<and> py_eq (oc_origin_context_id stored) (oc_origin_context_id cap)
        \<and> py_eq (oc_origin_pid stored) (oc_origin_pid cap) \<and> py_eq (oc_origin_birth stored) (oc_origin_birth cap)
        \<and> py_eq (oc_host_generation stored) (oc_host_generation cap)
        \<and> py_eq (oc_attachment_proof_sha256 stored) (oc_attachment_proof_sha256 cap)) (bridge_error ''owner_capability_changed'')
    (andThen (validate_control_file E H control_file) (\<lambda>path.
     Inr [(''version'', JInt 1), (''owner_capability'', JStr (oc_path cap)), (''control_file'', JStr path),
       (''controller_thread'', oc_controller_thread_id cap), (''origin_context_id'', oc_origin_context_id cap),
       (''origin_pid'', oc_origin_pid cap), (''origin_birth'', oc_origin_birth cap), (''host_generation'', oc_host_generation cap),
       (''attachment_proof_sha256'', oc_attachment_proof_sha256 cap)]))))"

definition rebind :: "platform \<Rightarrow> host \<Rightarrow> client \<Rightarrow> owner_capability \<Rightarrow> string \<Rightarrow> dir \<Rightarrow> jdict result \<times> dir" where
  "rebind E H c cap control_file d =
    (case andThen (state_for_control E H control_file) (\<lambda>state. andThen (build_rebind_request E H cap control_file d) (\<lambda>request.
        ensure (is_str (oc_host_generation cap)) (Raised ''TypeError'' []) (Inr (state, request)))) of
       Inl e \<Rightarrow> (Inl e, d)
     | Inr (state, request) \<Rightarrow>
        (let name = ''rebind-'' @ str_of (oc_host_generation cap) @ ''.json'' in
         case write_once E name request ''owner_rebind_conflict'' d of
           (Inl e, d') \<Rightarrow> (Inl e, d')
         | (Inr _, d') \<Rightarrow>
             (andThen (call E H c [''rebind-owner'', ''--state-dir'', state, ''--request'', path_parent (oc_path cap) @ ''/'' @ name] 10) (\<lambda>response.
              ensure (py_eq (dget response ''version'') (JInt 1) \<and> dget response ''status'' = JStr ''owner_rebound''
                 \<and> bridge_safe (dget response ''run_id'') \<and> py_eq (dget response ''origin_context_id'') (oc_origin_context_id cap)
                 \<and> py_eq (dget response ''host_generation'') (oc_host_generation cap)) (bridge_error ''control_rebind_output'')
             (Inr response)), d')))"

text \<open>A list used as a set or as dictionary keys raises on a value that cannot be hashed.\<close>

definition hashable :: "json \<Rightarrow> bool" where
  "hashable v = (\<not> is_arr v \<and> \<not> is_obj v)"

definition event_aliases :: "delivery_batch \<Rightarrow> json list result" where
  "event_aliases b =
     andThen (dreq (bt_envelope b) ''events'') (\<lambda>events.
     andThen (py_iter events) (\<lambda>items.
     map_result (\<lambda>item. ensure (is_obj item) (Raised ''TypeError'' []) (dreq (obj_of item) ''event_id'')) items))"

definition source_by_alias :: "delivery_batch \<Rightarrow> (string \<times> jdict) list result" where
  "source_by_alias b =
     fold_result (\<lambda>item acc.
       ensure (is_obj item) (Raised ''TypeError'' [])
      (andThen (dreq (obj_of item) ''native_event_id'') (\<lambda>k.
       ensure (hashable k) (Raised ''TypeError'' []) (Inr (if is_str k then dict_set (str_of k) (obj_of item) acc else acc)))))
     (bt_source_events b) []"

definition decision_row :: "jdict \<Rightarrow> (string \<times> jdict) list \<Rightarrow> json \<Rightarrow> json result" where
  "decision_row decisions source k =
     andThen (dreq decisions (str_of k)) (\<lambda>value.
     ensure (is_obj value \<and> keys_exact (obj_of value) [''decision'', ''command_id'']) (bridge_error ''decision_shape'')
    (let decision = dget (obj_of value) ''decision''; command_id = dget (obj_of value) ''command_id'' in
     andThen (in_str_set decision decision_names) (\<lambda>known.
     ensure (known \<and> bridge_safe command_id) (bridge_error ''decision_value'')
    (case map_of source (str_of k) of
        None \<Rightarrow> key_error
      | Some event \<Rightarrow>
          andThen (for_each (\<lambda>f. andThen (dreq event f) (\<lambda>_. Inr ())) [''event_id'', ''event_revision'', ''payload_hash'', ''action_slot'']) (\<lambda>_.
          Inr (JObj [(''event_id'', dget event ''event_id''), (''event_revision'', dget event ''event_revision''),
            (''event_hash'', dget event ''payload_hash''), (''action_slot'', dget event ''action_slot''),
            (''decision'', decision), (''command_id'', command_id)]))))))"

definition build_ack_request :: "platform \<Rightarrow> host \<Rightarrow> delivery_batch \<Rightarrow> json \<Rightarrow> string \<Rightarrow> jdict result" where
  "build_ack_request E H b decisions control_file =
     ensure (bt_status b = ''history_confirmed'' \<and> bridge_hash (bt_proof b)) (bridge_error ''history_not_confirmed'')
    (andThen (validate_control_file E H control_file) (\<lambda>path.
     andThen (event_aliases b) (\<lambda>aliases.
     ensure (is_obj decisions) (bridge_error ''decision_set'')
    (ensure (list_all hashable aliases) (Raised ''TypeError'' [])
    (ensure (list_all is_str aliases \<and> keys_exact (obj_of decisions) (map str_of aliases)) (bridge_error ''decision_set'')
    (andThen (source_by_alias b) (\<lambda>source.
     andThen (map_result (decision_row (obj_of decisions) source) aliases) (\<lambda>rows.
     Inr [(''version'', JInt 1), (''task_id'', bt_task_id b), (''control_file'', JStr path), (''delivery_id'', JStr (bt_delivery_id b)),
       (''history_proof_sha256'', bt_proof b), (''decisions'', JArr rows)]))))))))"

definition ack_request_file :: string where
  "ack_request_file = ''controller-ack-request.json''"

definition ack_receipt_file :: string where
  "ack_receipt_file = ''controller-ack-receipt.json''"

text \<open>\<open>Path(request.get("control_file", ""))\<close>: a value that is no string raises.\<close>

definition request_control_file :: "jdict \<Rightarrow> string result" where
  "request_control_file request = (case dget_or request ''control_file'' (JStr []) of JStr p \<Rightarrow> Inr p | _ \<Rightarrow> type_error)"

text \<open>\<open>_send_ack_request\<close>; \<open>base\<close> is the path of the batch and \<open>d\<close> its directory.\<close>

definition send_ack_request :: "platform \<Rightarrow> host \<Rightarrow> client \<Rightarrow> string \<Rightarrow> delivery_batch \<Rightarrow> dir \<Rightarrow> string result \<times> dir" where
  "send_ack_request E H c base b d =
    (case andThen (stable_json E d ack_request_file) (\<lambda>request.
          andThen (request_control_file request) (\<lambda>p.
          andThen (validate_control_file E H p) (\<lambda>path.
          andThen (state_for_control E H path) (\<lambda>state.
          andThen (call E H c [''ack'', ''--state-dir'', state, ''--request'', base @ ''/'' @ ack_request_file] 10) (\<lambda>response.
          ensure (py_eq (dget response ''version'') (JInt 1) \<and> dget response ''status'' = JStr ''acknowledged''
             \<and> dget response ''delivery_id'' = JStr (bt_delivery_id b)) (bridge_error ''control_ack_output'')
         (Inr (p_sha256 E (canonical E (JObj response))))))))) of
       Inl e \<Rightarrow> (Inl e, d)
     | Inr digest \<Rightarrow>
        (case write_once E ack_receipt_file
            [(''version'', JInt 1), (''delivery_id'', JStr (bt_delivery_id b)), (''response_sha256'', JStr digest)]
            ''controller_ack_receipt_conflict'' d of
           (Inl e, d') \<Rightarrow> (Inl e, d')
         | (Inr _, d') \<Rightarrow> (Inr digest, d')))"

definition ack :: "platform \<Rightarrow> host \<Rightarrow> client \<Rightarrow> string \<Rightarrow> delivery_batch \<Rightarrow> json \<Rightarrow> string \<Rightarrow> dir \<Rightarrow> string result \<times> dir" where
  "ack E H c base b decisions control_file d =
    (case build_ack_request E H b decisions control_file of
       Inl e \<Rightarrow> (Inl e, d)
     | Inr request \<Rightarrow> (case write_once E ack_request_file request ''controller_ack_conflict'' d of
           (Inl e, d') \<Rightarrow> (Inl e, d')
         | (Inr _, d') \<Rightarrow> send_ack_request E H c base b d'))"

definition replay_ack :: "platform \<Rightarrow> host \<Rightarrow> client \<Rightarrow> string \<Rightarrow> delivery_batch \<Rightarrow> dir \<Rightarrow> string result \<times> dir" where
  "replay_ack E H c base b d =
    (case ensure (bt_status b = ''history_confirmed'' \<and> bridge_hash (bt_proof b)) (bridge_error ''history_not_confirmed'')
         (andThen (stable_json E d ack_request_file) (\<lambda>request.
          ensure (py_eq (dget request ''version'') (JInt 1) \<and> py_eq (dget request ''task_id'') (bt_task_id b)
             \<and> dget request ''delivery_id'' = JStr (bt_delivery_id b) \<and> py_eq (dget request ''history_proof_sha256'') (bt_proof b)
             \<and> is_arr (dget request ''decisions'')) (bridge_error ''controller_ack_conflict'')
         (andThen (request_control_file request) (\<lambda>p.
          andThen (validate_control_file E H p) (\<lambda>_. Inr ()))))) of
       Inl e \<Rightarrow> (Inl e, d)
     | Inr _ \<Rightarrow> send_ack_request E H c base b d)"

end
