(* ===== verification/AckRequest.thy ===== *)
theory AckRequest
  imports LedgerSafety ControlPlane
begin

text \<open>
  The acknowledgement request of a delivery: it decides every event of the batch, names each by its
  durable identity (not by the alias the controller saw), and exists only for a batch whose
  history is proven. The environment of the commands carries none of the orchestrator's variables.
\<close>

section \<open>Aliases and sources of a prepared batch\<close>

lemma map_result_Inr: "(\<And>x. x \<in> set xs \<Longrightarrow> f x = Inr (g x)) \<Longrightarrow> map_result f xs = Inr (map g xs)"
  by (induction xs) auto

lemma map_result_ok: "map_result f xs = Inr ys \<longleftrightarrow> list_all2 (\<lambda>x y. f x = Inr y) xs ys"
  by (induction xs arbitrary: ys) (auto simp: list_all2_Cons1)

definition stored_source :: "platform \<Rightarrow> json \<Rightarrow> jdict" where
  "stored_source E row = obj_of (sort_keys (source_event E (obj_of row)))"

lemma sorted_source: "sort_keys (source_event E r) = JObj (obj_of (sort_keys (source_event E r)))"
  by (simp add: source_event_def)

lemma dget_stored:
  assumes "deliverable_row task_id row"
  shows "map_of (stored_source E row) k = map_of (obj_of (source_event E (obj_of row))) k"
proof -
  obtain d where d: "source_event E (obj_of row) = JObj d" by (simp add: source_event_def)
  have "flat (JObj d)" using flat_events(2) [OF assms, of E] by (simp add: d)
  then show ?thesis unfolding stored_source_def d by (simp only: map_of_flat_sorted json_kind_simps)
qed

lemma dget_native_sorted:
  assumes "deliverable_row task_id row"
  shows "\<exists>d. sort_keys (native_event E (obj_of row)) = JObj d \<and> map_of d ''event_id'' = Some (JStr (row_alias E row))"
proof -
  obtain d where d: "native_event E (obj_of row) = JObj d" by (simp add: native_event_def)
  have "flat (JObj d)" using flat_events(1) [OF assms, of E] by (simp add: d)
  from map_of_flat_sorted [OF this, of "''event_id''"] have "map_of (obj_of (sort_keys (JObj d))) ''event_id'' = map_of d ''event_id''" .
  moreover have "map_of d ''event_id'' = Some (JStr (row_alias E row))" using d by (auto simp: native_event_def row_alias_def)
  ultimately show ?thesis unfolding d by auto
qed

lemma prepared_aliases:
  assumes proj: "project_events E task_id events = Inr (native, source)" and same: "same_content (prepared_batch E a task_id i native source) b"
  shows "event_aliases b = Inr (map (JStr \<circ> row_alias E) events)"
proof -
  note p = project_events_ok [OF proj]
  have ok: "native_ok native" using projected_ok [OF proj] by blast
  have "bt_envelope b = bt_envelope (prepared_batch E a task_id i native source)" using same by (simp add: same_content_def)
  then have ev: "dreq (bt_envelope b) ''events'' = Inr (JArr (map sort_keys native))"
    unfolding prepared_batch_def delivery_batch.select_convs native_envelope_fields [OF ok] by (simp add: Let_def)
  have "ensure (is_obj x) (Raised ''TypeError'' []) (dreq (obj_of x) ''event_id'') = Inr (JStr (row_alias E row))"
    if "x = sort_keys (native_event E (obj_of row))" "row \<in> set events" for x row
    using dget_native_sorted [of task_id row E] p(4) that by (auto simp: list_all_iff)
  then have "map_result ((\<lambda>item. ensure (is_obj item) (Raised ''TypeError'' []) (dreq (obj_of item) ''event_id'')) \<circ> (sort_keys \<circ> (native_event E \<circ> obj_of))) events
      = Inr (map (JStr \<circ> row_alias E) events)"
    by (intro map_result_Inr) (simp add: comp_def)
  then show ?thesis
    unfolding event_aliases_def ev by (simp add: p(5) map_result_map comp_assoc del: map_map)
qed

definition add_source :: "json \<Rightarrow> (string \<times> jdict) list \<Rightarrow> (string \<times> jdict) list result" where
  "add_source item acc =
     ensure (is_obj item) (Raised ''TypeError'' [])
    (andThen (dreq (obj_of item) ''native_event_id'') (\<lambda>k.
     ensure (hashable k) (Raised ''TypeError'' []) (Inr (if is_str k then dict_set (str_of k) (obj_of item) acc else acc))))"

lemma add_source_row:
  assumes "deliverable_row task_id row"
  shows "add_source (sort_keys (source_event E (obj_of row))) acc = Inr (dict_set (row_alias E row) (stored_source E row) acc)"
proof -
  have "map_of (stored_source E row) ''native_event_id'' = Some (JStr (row_alias E row))"
    unfolding dget_stored [OF assms] by (simp add: source_event_def row_alias_def)
  moreover have "sort_keys (source_event E (obj_of row)) = JObj (stored_source E row)" unfolding stored_source_def by (rule sorted_source)
  ultimately show ?thesis by (simp add: add_source_def hashable_def)
qed

lemma fold_sources:
  assumes "list_all (deliverable_row task_id) events" and "distinct (map (row_alias E) events)"
  shows "\<exists>m. fold_result add_source (map (\<lambda>r. sort_keys (source_event E (obj_of r))) events) acc = Inr m
    \<and> (\<forall>r \<in> set events. map_of m (row_alias E r) = Some (stored_source E r))
    \<and> (\<forall>k. k \<notin> row_alias E ` set events \<longrightarrow> map_of m k = map_of acc k)"
  using assms
proof (induction events arbitrary: acc)
  case (Cons r events)
  let ?acc = "dict_set (row_alias E r) (stored_source E r) acc"
  have "\<exists>m. fold_result add_source (map (\<lambda>r. sort_keys (source_event E (obj_of r))) events) ?acc = Inr m
    \<and> (\<forall>r \<in> set events. map_of m (row_alias E r) = Some (stored_source E r))
    \<and> (\<forall>k. k \<notin> row_alias E ` set events \<longrightarrow> map_of m k = map_of ?acc k)"
    by (rule Cons.IH) (use Cons.prems in auto)
  then show ?case using Cons.prems add_source_row [of task_id r E acc] by auto
qed auto

lemma prepared_sources:
  assumes proj: "project_events E task_id events = Inr (native, source)" and same: "same_content (prepared_batch E a task_id i native source) b"
  shows "\<exists>m. source_by_alias b = Inr m \<and> (\<forall>r \<in> set events. map_of m (row_alias E r) = Some (stored_source E r))"
proof -
  note p = project_events_ok [OF proj]
  have src: "bt_source_events b = map (\<lambda>r. sort_keys (source_event E (obj_of r))) events"
    using same p(6) by (simp add: same_content_def prepared_batch_def)
  have "source_by_alias b = fold_result add_source (bt_source_events b) []"
    unfolding source_by_alias_def by (rule arg_cong [where f = "\<lambda>f. fold_result f _ _"]) (simp add: add_source_def fun_eq_iff)
  then show ?thesis using fold_sources [OF p(4,7), of "[]"] by (auto simp: src)
qed

section \<open>Claims\<close>

text \<open>What the request says of an event.\<close>

definition decides :: "platform \<Rightarrow> jdict \<Rightarrow> json \<Rightarrow> json \<Rightarrow> bool" where
  "decides E decisions event row = (\<exists>d choice. row = JObj d \<and> map_of decisions (row_alias E event) = Some (JObj choice)
     \<and> dget d ''event_id'' = dget (obj_of event) ''event_id'' \<and> dget d ''event_revision'' = dget (obj_of event) ''event_revision''
     \<and> dget d ''event_hash'' = dget (obj_of event) ''payload_hash'' \<and> dget d ''action_slot'' = dget (obj_of event) ''action_slot''
     \<and> dget d ''decision'' = dget choice ''decision'' \<and> dget d ''command_id'' = dget choice ''command_id''
     \<and> in_str_tuple (dget d ''decision'') decision_names \<and> bridge_safe (dget d ''command_id''))"

lemma decision_row_decides:
  assumes row: "decision_row decisions m (JStr (row_alias E event)) = Inr row" and ev: "deliverable_row task_id event"
    and m: "map_of m (row_alias E event) = Some (stored_source E event)"
  shows "decides E decisions event row"
proof -
  have g: "dget (stored_source E event) k = dget (obj_of (source_event E (obj_of event))) k" for k
    using dget_stored [OF ev, of E k] by (simp add: dget_def)
  from row m obtain choice known where c: "map_of decisions (row_alias E event) = Some (JObj choice)"
    and k: "in_str_set (dget choice ''decision'') decision_names = Inr known" "known" "bridge_safe (dget choice ''command_id'')"
    and r: "row = JObj [(''event_id'', dget (stored_source E event) ''event_id''), (''event_revision'', dget (stored_source E event) ''event_revision''),
      (''event_hash'', dget (stored_source E event) ''payload_hash''), (''action_slot'', dget (stored_source E event) ''action_slot''),
      (''decision'', dget choice ''decision''), (''command_id'', dget choice ''command_id'')]"
    by (auto simp: decision_row_def Let_def is_obj_iff)
  have "in_str_tuple (dget choice ''decision'') decision_names" using k(1,2) by (auto simp: in_str_tuple_iff)
  then show ?thesis using c k(3) unfolding decides_def r g by (auto simp: source_event_def)
qed

text \<open>
  C37. An acknowledgement request speaks for the whole delivery: it is built only for a batch with
  proven history, and it holds exactly one decision per durable event, in their order, with the
  identity, revision, hash and slot of the event as it was collected and the decision and command
  that the controller gave for the alias of that event.\<close>

theorem ack_request_decides_every_event:
  assumes "project_events E task_id events = Inr (native, source)"
    and "same_content (prepared_batch E a task_id i native source) b"
    and "build_ack_request E H b decisions control_file = Inr request"
  shows "\<exists>rows. dget request ''decisions'' = JArr rows \<and> list_all2 (decides E (obj_of decisions)) events rows
    \<and> dget request ''delivery_id'' = JStr i \<and> dget request ''task_id'' = JStr task_id
    \<and> bt_status b = ''history_confirmed'' \<and> dget request ''history_proof_sha256'' = bt_proof b \<and> bridge_hash (bt_proof b)"
proof -
  note p = project_events_ok [OF assms(1)]
  obtain m where m: "source_by_alias b = Inr m" "\<And>r. r \<in> set events \<Longrightarrow> map_of m (row_alias E r) = Some (stored_source E r)"
    using prepared_sources [OF assms(1,2)] by blast
  from assms(3) prepared_aliases [OF assms(1,2)] m(1) obtain rows path
    where rows: "map_result (decision_row (obj_of decisions) m) (map (JStr \<circ> row_alias E) events) = Inr rows"
      and conf: "bt_status b = ''history_confirmed''" "bridge_hash (bt_proof b)"
      and req: "request = [(''version'', JInt 1), (''task_id'', bt_task_id b), (''control_file'', JStr path), (''delivery_id'', JStr (bt_delivery_id b)),
         (''history_proof_sha256'', bt_proof b), (''decisions'', JArr rows)]"
    by (auto simp: build_ack_request_def)
  have "list_all2 (\<lambda>ev row. decision_row (obj_of decisions) m (JStr (row_alias E ev)) = Inr row) events rows"
    using rows by (simp add: map_result_ok list_all2_map1)
  then have "list_all2 (decides E (obj_of decisions)) events rows"
    by (rule list.rel_mono_strong) (use p(4) m(2) in \<open>auto simp: list_all_iff intro: decision_row_decides\<close>)
  then show ?thesis
    using conf assms(2) by (auto simp: req same_content_def prepared_batch_def)
qed

definition sample_host :: host where
  "sample_host = \<lparr>ho_lstat = \<lambda>_. Inr (fl_stat (new_file std_platform [])), ho_open = \<lambda>_. os_error, ho_environ = [], ho_run = \<lambda>_ _ _. os_error\<rparr>"

definition sample_decisions :: json where
  "sample_decisions = JObj [(''e_'' @ replicate 32 CHR ''0'', JObj [(''decision'', JStr ''handled''), (''command_id'', JStr ''cmd'')])]"

abbreviation sample_confirmed :: delivery_batch where
  "sample_confirmed \<equiv> sample_batch\<lparr>bt_status := ''history_confirmed'', bt_proof := JStr (replicate 64 CHR ''a'')\<rparr>"

lemma sample_request: "succeeds (build_ack_request std_platform sample_host sample_confirmed sample_decisions ''/s/control/f'')"
  by code_simp

theorem ack_request_decides_every_event_witness:
  "\<exists>request rows. build_ack_request std_platform sample_host sample_confirmed sample_decisions ''/s/control/f'' = Inr request
     \<and> dget request ''decisions'' = JArr rows \<and> list_all2 (decides std_platform (obj_of sample_decisions)) [sample_row] rows"
proof -
  obtain request where r: "build_ack_request std_platform sample_host sample_confirmed sample_decisions ''/s/control/f'' = Inr request"
    using sample_request unfolding succeeds_iff by blast
  have "same_content sample_batch sample_confirmed" by (simp add: same_content_def)
  from ack_request_decides_every_event [OF sample_project this r] r show ?thesis by blast
qed

end
