(* ===== verification/DeliveryAdapter.thy ===== *)
theory DeliveryAdapter
  imports Ledger ControlPlane
begin

text \<open>
  The adapter between a claimed batch and the owner helper (\<open>runtime/native/delivery_adapter.py\<close>):
  the check of the intent against the binding, the native envelope, the adoption of a claim, the one
  send of a delivery, the history proof and the acknowledgement. The Go program and the
  connection are arguments; a task directory is the directory of a batch.
\<close>

section \<open>Checks\<close>

definition delivery_error :: "string \<Rightarrow> exn" where
  "delivery_error code = Raised ''DeliveryError'' code"

record binding =
  bd_profile_id :: string
  bd_owner_thread_id :: string
  bd_owner_epoch :: json
  bd_nonce :: string
  bd_revision :: int

text \<open>\<open>_stable_file_bytes\<close> in a directory nobody else writes to at the moment.\<close>

definition stable_file_bytes :: "platform \<Rightarrow> dir \<Rightarrow> string \<Rightarrow> string result" where
  "stable_file_bytes E d name = (case map_of (dr_files d) name of
      Some (Reg f) \<Rightarrow>
        ensure (private_file E (fl_stat f) \<and> 0 < sx_size (fl_stat f) \<and> sx_size (fl_stat f) \<le> 4096) (delivery_error ''claim_file'')
       (ensure (length (fl_data f) = sx_size (fl_stat f)) (delivery_error ''claim_changed'') (Inr (fl_data f)))
    | _ \<Rightarrow> Inl (delivery_error ''claim_missing''))"

definition stable_file_hash :: "platform \<Rightarrow> dir \<Rightarrow> string \<Rightarrow> string result" where
  "stable_file_hash E d name = andThen (stable_file_bytes E d name) (\<lambda>data. Inr (p_sha256 E data))"

text \<open>Every rejection of the read is a \<open>ValueError\<close> too, so it is reported as an invalid artifact.\<close>

definition artifact_json :: "platform \<Rightarrow> dir \<Rightarrow> string \<Rightarrow> jdict result" where
  "artifact_json E d name =
     andThen (except_as (andThen (stable_file_bytes E d name) (loads E (delivery_error ''artifact_invalid''))) (delivery_error ''artifact_invalid'')) (\<lambda>v.
     ensure (is_obj v) (delivery_error ''artifact_invalid'') (Inr (obj_of v)))"

definition event_shape :: "json \<Rightarrow> unit result" where
  "event_shape event =
     ensure (is_obj event \<and> keys_exact (obj_of event) event_fields) (delivery_error ''event_shape'')
    (let e = obj_of event in
     ensure (bridge_safe (dget e ''event_id'') \<and> is_int (dget e ''event_revision'') \<and> 1 \<le> int_of (dget e ''event_revision'')
        \<and> int_of (dget e ''event_revision'') \<le> 1000000) (delivery_error ''event_identity'')
    (andThen (in_str_set (dget e ''kind'') [''progress'', ''question'', ''result'']) (\<lambda>known.
     ensure (known \<and> bridge_hash (dget e ''payload_hash'') \<and> bridge_safe (dget e ''action_slot'')) (delivery_error ''event_shape'')
    (Inr ()))))"

definition validate_event :: "json \<Rightarrow> string list \<times> string list \<Rightarrow> (string list \<times> string list) result" where
  "validate_event event seen = (case seen of (ids, slots) \<Rightarrow>
     andThen (event_shape event) (\<lambda>_.
     let eid = str_of (dget (obj_of event) ''event_id''); slot = str_of (dget (obj_of event) ''action_slot'') in
     ensure (eid \<notin> set ids \<and> slot \<notin> set slots) (delivery_error ''event_duplicate'') (Inr (eid # ids, slot # slots))))"

definition validate_events :: "json \<Rightarrow> unit result" where
  "validate_events events =
     ensure (is_arr events \<and> 1 \<le> length (arr_of events) \<and> length (arr_of events) \<le> 8) (delivery_error ''events_shape'')
    (andThen (fold_result validate_event (arr_of events) ([], [])) (\<lambda>_. Inr ()))"

text \<open>The same digest as the bridge computes.\<close>

definition go_batch_hash :: "platform \<Rightarrow> jdict \<Rightarrow> string result" where
  "go_batch_hash E intent = go_intent_hash E intent"

definition go_intent_fields :: "string list" where
  "go_intent_fields = [''version'', ''delivery_id'', ''nonce'', ''controller_thread'', ''controller_epoch'', ''revision'', ''state'', ''events'', ''payload_hash'']"

definition validate_go_intent :: "platform \<Rightarrow> json \<Rightarrow> binding \<Rightarrow> string option \<Rightarrow> bool \<Rightarrow> jdict result" where
  "validate_go_intent E v b delivery_id allow_uncertain =
     ensure (is_obj v \<and> keys_exact (obj_of v) go_intent_fields) (delivery_error ''intent_shape'')
    (let intent = obj_of v in
     ensure (py_eq (dget intent ''version'') (JInt 1) \<and> bridge_safe (dget intent ''delivery_id'')
        \<and> (case delivery_id of None \<Rightarrow> True | Some i \<Rightarrow> dget intent ''delivery_id'' = JStr i)) (delivery_error ''intent_identity'')
    (ensure (dget intent ''nonce'' = JStr (bd_nonce b) \<and> dget intent ''controller_thread'' = JStr (bd_owner_thread_id b))
       (delivery_error ''owner_mismatch'')
    (ensure (is_int (bd_owner_epoch b) \<and> 0 < int_of (bd_owner_epoch b) \<and> py_eq (dget intent ''controller_epoch'') (bd_owner_epoch b))
       (delivery_error ''epoch_mismatch'')
    (ensure (py_eq (dget intent ''revision'') (JInt (bd_revision b))
        \<and> (dget intent ''state'' = JStr ''prepared'' \<or> allow_uncertain \<and> dget intent ''state'' = JStr ''transport_uncertain''))
       (delivery_error ''revision_mismatch'')
    (andThen (validate_events (dget intent ''events'')) (\<lambda>_.
     ensure (bridge_hash (dget intent ''payload_hash'')) (delivery_error ''intent_hash'')
    (andThen (go_batch_hash E intent) (\<lambda>digest.
     ensure (dget intent ''payload_hash'' = JStr digest) (delivery_error ''intent_hash'')
    (Inr intent)))))))))"

definition native_envelope_from_go_intent :: "platform \<Rightarrow> jdict \<Rightarrow> binding \<Rightarrow> bool \<Rightarrow> jdict result" where
  "native_envelope_from_go_intent E intent b allow_uncertain =
     andThen (validate_go_intent E (JObj intent) b None allow_uncertain) (\<lambda>checked. Inr (native_envelope E checked))"

section \<open>Capabilities\<close>

record capability =
  ca_binding :: binding
  ca_task_dir :: string
  ca_go_intent_bytes :: string
  ca_native_envelope_bytes :: string
  ca_go_intent_sha256 :: string
  ca_native_envelope_sha256 :: string
  ca_claim_sha256 :: string
  ca_id :: string
  ca_send_disabled :: bool
  ca_external_claim :: bool

record history_proof =
  hp_native_envelope_bytes :: string
  hp_summary_bytes :: string
  hp_matched_event_ids :: "string list"
  hp_id :: string
  hp_capability_id :: string
  hp_reads_sha256 :: string

record adapter =
  ad_go_binary :: "string option"
  ad_owner_context :: "string option"
  ad_capabilities :: "(string \<times> capability) list"
  ad_proofs :: "(string \<times> history_proof) list"
  ad_sent :: "string list"

definition syntax_error :: exn where
  "syntax_error = Raised ''JSONDecodeError'' []"

definition parsed_object :: "platform \<Rightarrow> string \<Rightarrow> jdict result" where
  "parsed_object E data = andThen (loads E syntax_error data) (\<lambda>v. Inr (obj_of v))"

text \<open>
  The Go program: its arguments, its environment and the task directory to exit status, output, error
  output and the directory it leaves.
\<close>

type_synonym go_program = "string list \<Rightarrow> (string \<times> string) list \<Rightarrow> dir \<Rightarrow> (int \<times> string \<times> string) result \<times> dir"

record go_host =
  gh_run :: go_program
  gh_environ :: "(string \<times> string) list"

definition go_answer :: "platform \<Rightarrow> (int \<times> string \<times> string) result \<Rightarrow> jdict result" where
  "go_answer E completed =
     andThen (catch [''OSError'', ''TimeoutExpired''] completed (delivery_error ''go_process'')) (\<lambda>(status, out, err).
     if status \<noteq> 0 then
       (let code = (case loads E syntax_error err of Inl _ \<Rightarrow> JNull | Inr v \<Rightarrow> if is_obj v then dget (obj_of v) ''error'' else JNull)
        in Inl (delivery_error (if bridge_safe code then str_of code else ''go_rejected'')))
     else
       andThen (loads E (delivery_error ''go_output'') out) (\<lambda>v.
       ensure (is_obj v) (delivery_error ''go_output'') (Inr (obj_of v))))"

definition run_go :: "platform \<Rightarrow> go_host \<Rightarrow> adapter \<Rightarrow> string list \<Rightarrow> (string \<times> string) list \<Rightarrow> dir \<Rightarrow> jdict result \<times> dir" where
  "run_go E G ad args env d = (case ad_go_binary ad of
      None \<Rightarrow> (Inl (delivery_error ''go_binary_missing''), d)
    | Some binary \<Rightarrow>
        (case gh_run G (binary # args) (dict_set dont_write ''1'' (fold (\<lambda>(k, v). dict_set k v) env (gh_environ G))) d of
           (completed, d') \<Rightarrow> (go_answer E completed, d')))"

text \<open>\<open>DeliveryAdapter(go_binary, ...)\<close>; \<open>content\<close> is what \<open>read_bytes\<close> returns, \<open>None\<close> when there is no file.\<close>

definition make_adapter :: "platform \<Rightarrow> string \<Rightarrow> string option \<Rightarrow> json \<Rightarrow> json \<Rightarrow> adapter result" where
  "make_adapter E go_binary content expected owner_context =
     ensure (is_absolute go_binary) (delivery_error ''go_binary_missing'')
    (case content of
       None \<Rightarrow> Inl (delivery_error ''go_binary_missing'')
     | Some data \<Rightarrow>
        ensure (bridge_hash expected \<and> JStr (p_sha256 E data) = expected) (delivery_error ''go_binary_hash'')
       (ensure (owner_context = JNull \<or> bridge_hash owner_context) (delivery_error ''owner_context'')
       (Inr \<lparr>ad_go_binary = Some go_binary, ad_owner_context = (if owner_context = JNull then None else Some (str_of owner_context)),
          ad_capabilities = [], ad_proofs = [], ad_sent = []\<rparr>)))"

definition for_external :: "json \<Rightarrow> adapter result" where
  "for_external owner_context =
     ensure (bridge_hash owner_context) (delivery_error ''owner_context'')
    (Inr \<lparr>ad_go_binary = None, ad_owner_context = Some (str_of owner_context), ad_capabilities = [], ad_proofs = [], ad_sent = []\<rparr>)"

section \<open>The owner of a task directory\<close>

definition binding_record :: "string \<Rightarrow> binding \<Rightarrow> jdict" where
  "binding_record ctx b =
    [(''version'', JInt 1), (''owner_context_sha256'', JStr ctx), (''nonce'', JStr (bd_nonce b)),
     (''controller_thread'', JStr (bd_owner_thread_id b)), (''revision'', JInt (bd_revision b))]"

definition bind_owner_context :: "platform \<Rightarrow> adapter \<Rightarrow> binding \<Rightarrow> dir \<Rightarrow> unit result \<times> dir" where
  "bind_owner_context E ad b d = (case ad_owner_context ad of
      None \<Rightarrow> (Inr (), d)
    | Some ctx \<Rightarrow>
        (case map_of (dr_files d) binding_file of
           Some _ \<Rightarrow>
             (andThen (artifact_json E d binding_file) (\<lambda>old.
              ensure (py_eq (JObj old) (JObj (binding_record ctx b))) (delivery_error ''owner_context_mismatch'') (Inr ())), d)
         | None \<Rightarrow>
             (Inr (), d\<lparr>dr_files := dict_set binding_file (Reg (new_file E (file_text E (JObj (binding_record ctx b))))) (dr_files d)\<rparr>)))"

definition require_owner_binding :: "platform \<Rightarrow> adapter \<Rightarrow> binding \<Rightarrow> dir \<Rightarrow> unit result" where
  "require_owner_binding E ad b d = (case ad_owner_context ad of
      None \<Rightarrow> Inl (delivery_error ''owner_context_required'')
    | Some ctx \<Rightarrow>
        andThen (artifact_json E d binding_file) (\<lambda>old.
        ensure (py_eq (JObj old) (JObj (binding_record ctx b))) (delivery_error ''owner_context_mismatch'') (Inr ())))"

section \<open>External claims\<close>

definition external_states :: "bool \<Rightarrow> string list" where
  "external_states reconcile = (if reconcile then [''sending'', ''transport_accepted'', ''delivery_uncertain''] else [''sending''])"

definition expected_transport :: "string \<Rightarrow> string" where
  "expected_transport state = (if state = ''sending'' then ''ready'' else if state = ''transport_accepted'' then ''accepted'' else ''uncertain'')"

definition external_status :: "platform \<Rightarrow> adapter \<Rightarrow> capability \<Rightarrow> bool \<Rightarrow> dir \<Rightarrow> jdict result" where
  "external_status E ad c reconcile d =
     andThen (require_owner_binding E ad (ca_binding c) d) (\<lambda>_.
     andThen (artifact_json E d status_file) (\<lambda>status.
     andThen (in_str_set (dget status ''state'') (external_states reconcile)) (\<lambda>known.
     ensure known (delivery_error ''claim_not_current'')
    (andThen (parsed_object E (ca_native_envelope_bytes c)) (\<lambda>envelope.
     andThen (dreq envelope ''delivery_id'') (\<lambda>i.
     ensure (py_eq (dget status ''delivery_id'') i
        \<and> dget status ''controller_thread'' = JStr (bd_owner_thread_id (ca_binding c))
        \<and> py_eq (dget status ''controller_epoch'') (bd_owner_epoch (ca_binding c))
        \<and> py_eq (dget status ''revision'') (JInt (bd_revision (ca_binding c)))) (delivery_error ''claim_not_current'')
    (ensure (dget status ''transport_status'' = JStr (expected_transport (str_of (dget status ''state'')))) (delivery_error ''claim_not_current'')
    (andThen (stable_file_hash E d claim_file) (\<lambda>digest.
     ensure (digest = ca_claim_sha256 c) (delivery_error ''claim_changed'') (Inr status))))))))))"

text \<open>The capability made from a checked intent.\<close>

definition make_capability :: "platform \<Rightarrow> binding \<Rightarrow> string \<Rightarrow> jdict \<Rightarrow> jdict \<Rightarrow> string \<Rightarrow> string \<Rightarrow> bool \<Rightarrow> bool \<Rightarrow> capability" where
  "make_capability E b path checked native claim_sha token send_disabled external =
    (let go_bytes = canonical E (JObj checked); native_bytes = canonical E (JObj native) in
     \<lparr>ca_binding = b, ca_task_dir = path, ca_go_intent_bytes = go_bytes, ca_native_envelope_bytes = native_bytes,
      ca_go_intent_sha256 = p_sha256 E go_bytes, ca_native_envelope_sha256 = p_sha256 E native_bytes,
      ca_claim_sha256 = claim_sha, ca_id = token, ca_send_disabled = send_disabled, ca_external_claim = external\<rparr>)"

definition adopt :: "capability \<Rightarrow> adapter \<Rightarrow> adapter" where
  "adopt c ad = ad\<lparr>ad_capabilities := dict_set (ca_id c) c (ad_capabilities ad)\<rparr>"

definition check_claim :: "platform \<Rightarrow> jdict \<Rightarrow> jdict \<Rightarrow> binding \<Rightarrow> unit result" where
  "check_claim E claim intent b =
     ensure (dget claim ''status'' = JStr ''claimed'' \<and> py_eq (dget claim ''delivery_id'') (dget intent ''delivery_id'')
        \<and> dget claim ''controller_thread'' = JStr (bd_owner_thread_id b) \<and> py_eq (dget claim ''controller_epoch'') (bd_owner_epoch b)
        \<and> py_eq (dget claim ''revision'') (JInt (bd_revision b))
        \<and> dget claim ''intent_sha256'' = JStr (p_sha256 E (canonical E (JObj intent)))) (delivery_error ''claim_artifact'') (Inr ())"

text \<open>\<open>token\<close> is the fresh identifier; the capability is registered before its status is checked.\<close>

definition attach_external_claim :: "platform \<Rightarrow> binding \<Rightarrow> string \<Rightarrow> dir option \<Rightarrow> string \<Rightarrow> adapter \<Rightarrow> capability result \<times> adapter" where
  "attach_external_claim E b path task token ad =
    (case ensure (is_absolute path \<and> task \<noteq> None) (delivery_error ''task_dir'')
         (let d = (case task of Some d \<Rightarrow> d | None \<Rightarrow> new_dir E) in
          andThen (require_owner_binding E ad b d) (\<lambda>_.
          andThen (artifact_json E d intent_file) (\<lambda>intent.
          andThen (validate_go_intent E (JObj intent) b None False) (\<lambda>checked.
          andThen (artifact_json E d claim_file) (\<lambda>claim.
          andThen (check_claim E claim intent b) (\<lambda>_.
          andThen (native_envelope_from_go_intent E checked b False) (\<lambda>native.
          andThen (stable_file_hash E d claim_file) (\<lambda>claim_sha.
          Inr (make_capability E b path checked native claim_sha token False True, d))))))))) of
       Inl e \<Rightarrow> (Inl e, ad)
     | Inr (c, d) \<Rightarrow> (andThen (external_status E (adopt c ad) c False d) (\<lambda>_. Inr c), adopt c ad))"

definition reconcile_external_claim :: "platform \<Rightarrow> binding \<Rightarrow> string \<Rightarrow> dir option \<Rightarrow> string \<Rightarrow> adapter \<Rightarrow> capability result \<times> adapter" where
  "reconcile_external_claim E b path task token ad =
    (case ensure (is_absolute path \<and> task \<noteq> None) (delivery_error ''task_dir'')
         (let d = (case task of Some d \<Rightarrow> d | None \<Rightarrow> new_dir E) in
          andThen (require_owner_binding E ad b d) (\<lambda>_.
          andThen (artifact_json E d intent_file) (\<lambda>intent.
          andThen (validate_go_intent E (JObj intent) b None True) (\<lambda>checked.
          andThen (native_envelope_from_go_intent E checked b True) (\<lambda>native.
          andThen (stable_file_hash E d claim_file) (\<lambda>claim_sha.
          Inr (make_capability E b path checked native claim_sha token True True, d))))))) of
       Inl e \<Rightarrow> (Inl e, ad)
     | Inr (c, d) \<Rightarrow> (andThen (external_status E (adopt c ad) c True d) (\<lambda>_. Inr c), adopt c ad))"

section \<open>Claims through the Go program\<close>

definition binding_args :: "binding \<Rightarrow> string \<Rightarrow> string list" where
  "binding_args b path = [''--dir'', path, ''--nonce'', bd_nonce b, ''--controller-thread'', bd_owner_thread_id b, ''--revision'', show_int (bd_revision b)]"

definition prepare_batch :: "platform \<Rightarrow> go_host \<Rightarrow> binding \<Rightarrow> string \<Rightarrow> bool \<Rightarrow> json \<Rightarrow> json \<Rightarrow> (string \<times> string) list \<Rightarrow> adapter \<Rightarrow> dir \<Rightarrow> jdict result \<times> dir" where
  "prepare_batch E G b path is_directory delivery_id events env ad d =
    (case ensure (is_absolute path \<and> is_directory) (delivery_error ''task_dir'')
         (ensure (bridge_safe delivery_id) (delivery_error ''delivery_id'') (validate_events events)) of
       Inl e \<Rightarrow> (Inl e, d)
     | Inr _ \<Rightarrow>
        (case run_go E G ad ([''batch-prepare''] @ binding_args b path @ [''--delivery-id'', str_of delivery_id, ''--events-json'', canonical E events]) env d of
           (Inl e, d') \<Rightarrow> (Inl e, d')
         | (Inr v, d') \<Rightarrow> (validate_go_intent E (JObj v) b (Some (str_of delivery_id)) False, d')))"

definition claim_batch :: "platform \<Rightarrow> go_host \<Rightarrow> binding \<Rightarrow> string \<Rightarrow> (string \<times> string) list \<Rightarrow> adapter \<Rightarrow> dir \<Rightarrow> jdict result \<times> dir" where
  "claim_batch E G b path env ad d = run_go E G ad ([''batch-claim''] @ binding_args b path) env d"

text \<open>The owner binding, the intent, the claim, and then the capability.\<close>

definition adapter_prepare :: "platform \<Rightarrow> go_host \<Rightarrow> binding \<Rightarrow> string \<Rightarrow> bool \<Rightarrow> json \<Rightarrow> json \<Rightarrow> (string \<times> string) list \<Rightarrow> string \<Rightarrow> adapter \<Rightarrow> dir \<Rightarrow> capability result \<times> adapter \<times> dir" where
  "adapter_prepare E G b path is_directory delivery_id events env token ad d =
    (case bind_owner_context E ad b d of
       (Inl e, d1) \<Rightarrow> (Inl e, ad, d1)
     | (Inr _, d1) \<Rightarrow> (case prepare_batch E G b path is_directory delivery_id events env ad d1 of
         (Inl e, d2) \<Rightarrow> (Inl e, ad, d2)
       | (Inr intent, d2) \<Rightarrow> (case claim_batch E G b path env ad d2 of
           (Inl e, d3) \<Rightarrow> (Inl e, ad, d3)
         | (Inr claim, d3) \<Rightarrow>
             (case ensure (dget claim ''status'' = JStr ''claimed'' \<and> py_eq (dget claim ''delivery_id'') (dget intent ''delivery_id'')
                    \<and> dget claim ''controller_thread'' = JStr (bd_owner_thread_id b) \<and> py_eq (dget claim ''revision'') (JInt (bd_revision b)))
                    (delivery_error ''claim_artifact'')
                  (andThen (stable_file_hash E d3 claim_file) (\<lambda>claim_sha.
                   andThen (native_envelope_from_go_intent E intent b False) (\<lambda>native.
                   Inr (make_capability E b path intent native claim_sha token False False)))) of
                Inl e \<Rightarrow> (Inl e, ad, d3)
              | Inr c \<Rightarrow> (Inr c, adopt c ad, d3)))))"

definition reconcile_claimed :: "platform \<Rightarrow> go_host \<Rightarrow> binding \<Rightarrow> string \<Rightarrow> string \<Rightarrow> (string \<times> string) list \<Rightarrow> string \<Rightarrow> adapter \<Rightarrow> dir \<Rightarrow> capability result \<times> adapter \<times> dir" where
  "reconcile_claimed E G b path delivery_id env token ad d =
    (case require_owner_binding E ad b d of
       Inl e \<Rightarrow> (Inl e, ad, d)
     | Inr _ \<Rightarrow> (case run_go E G ad [''batch-status'', ''--dir'', path, ''--nonce'', bd_nonce b] env d of
         (Inl e, d1) \<Rightarrow> (Inl e, ad, d1)
       | (Inr status, d1) \<Rightarrow>
           (case ensure (dget status ''delivery_id'' = JStr delivery_id \<and> py_eq (dget status ''revision'') (JInt (bd_revision b))
                  \<and> dget status ''claim'' = JStr ''claimed'') (delivery_error ''claim_not_current'')
                (andThen (in_str_set (dget status ''status'') [''cancelled'', ''stale'']) (\<lambda>terminal.
                 ensure (\<not> terminal) (delivery_error ''status_terminal'')
                (andThen (artifact_json E d1 intent_file) (\<lambda>intent.
                 andThen (validate_go_intent E (JObj intent) b (Some delivery_id) True) (\<lambda>checked.
                 andThen (in_str_set (dget status ''transport_status'') [''ready'', ''uncertain'']) (\<lambda>known.
                 ensure known (delivery_error ''transport_status'')
                (andThen (stable_file_hash E d1 claim_file) (\<lambda>claim_sha.
                 andThen (native_envelope_from_go_intent E checked b True) (\<lambda>native.
                 Inr (make_capability E b path checked native claim_sha token True False)))))))))) of
              Inl e \<Rightarrow> (Inl e, ad, d1)
            | Inr c \<Rightarrow> (Inr c, adopt c ad, d1))))"

section \<open>History and acknowledgement\<close>

text \<open>The report of the audit as the dictionary the code returns.\<close>

definition report_json :: "audit_report \<Rightarrow> json" where
  "report_json r = JObj
    [(''version'', JInt (ar_version r)), (''scope'', JStr (ar_scope r)), (''source_service_verified'', JBool (ar_source_service_verified r)),
     (''delivery_id'', JStr (ar_delivery_id r)), (''transport_evidence'', JStr (ar_transport_evidence r)),
     (''matched_history_items'', JInt (int (ar_matched_history_items r))), (''duplicate_displays'', JInt (ar_duplicate_displays r)),
     (''captured_page_chain_complete'', JBool (ar_captured_page_chain_complete r)), (''compaction_seen'', JBool (ar_compaction_seen r)),
     (''absence_proof'', JBool (ar_absence_proof r)), (''resend_authorized'', JBool (ar_resend_authorized r)),
     (''transport_gate'', JStr (ar_transport_gate r)), (''acknowledged_event_ids'', JArr (map JStr (ar_acknowledged_event_ids r))),
     (''pending_event_ids'', JArr (map JStr (ar_pending_event_ids r))), (''waiting_user_event_ids'', JArr (map JStr (ar_waiting_user_event_ids r))),
     (''unique_ack_slots'', JInt (int (ar_unique_ack_slots r))), (''business_ack_complete'', JBool (ar_business_ack_complete r))]"

definition audit_history :: "platform \<Rightarrow> capability \<Rightarrow> json list \<Rightarrow> json list \<Rightarrow> string \<Rightarrow> adapter \<Rightarrow> history_proof result \<times> adapter" where
  "audit_history E c reads decisions token ad =
    (case ensure (map_of (ad_capabilities ad) (ca_id c) = Some c) (delivery_error ''capability_owner'')
         (andThen (parsed_object E (ca_native_envelope_bytes c)) (\<lambda>intent.
          andThen (audit E (JObj [(''version'', JInt 1), (''intent'', JObj intent), (''reads'', JArr reads), (''acks'', JArr decisions)])) (\<lambda>report.
          ensure (ar_transport_evidence report = ''exact_history_marker'') (delivery_error ''history_uncertain'')
         (Inr \<lparr>hp_native_envelope_bytes = canonical E (JObj intent), hp_summary_bytes = canonical E (report_json report),
            hp_matched_event_ids = map (\<lambda>e. str_of (dget (obj_of e) ''event_id'')) (arr_of (dget intent ''events'')),
            hp_id = token, hp_capability_id = ca_id c, hp_reads_sha256 = p_sha256 E (canonical E (JArr reads))\<rparr>)))) of
       Inl e \<Rightarrow> (Inl e, ad)
     | Inr proof \<Rightarrow> (Inr proof, ad\<lparr>ad_proofs := dict_set (hp_id proof) proof (ad_proofs ad)\<rparr>))"

record ack_outcome =
  ao_records :: "jdict list"
  ao_pending :: "string list"
  ao_nonhandled :: "(string \<times> string) list"

definition business_ack_complete :: "ack_outcome \<Rightarrow> bool" where
  "business_ack_complete r = (ao_pending r = [] \<and> ao_nonhandled r = [])"

definition ack_args :: "binding \<Rightarrow> string \<Rightarrow> string \<Rightarrow> jdict \<Rightarrow> string \<Rightarrow> string list" where
  "ack_args b path eid event command_id =
     [''batch-ack''] @ binding_args b path
     @ [''--event-id'', eid, ''--event-revision'', show_int (int_of (dget event ''event_revision'')), ''--event-hash'', str_of (dget event ''payload_hash''),
        ''--action-slot'', str_of (dget event ''action_slot''), ''--command-id'', command_id, ''--decision'', ''handled'']"

text \<open>The loop over the events of the intent; \<open>issued\<close> collects the acknowledgement commands that were run.\<close>

fun ack_events :: "platform \<Rightarrow> go_host \<Rightarrow> adapter \<Rightarrow> capability \<Rightarrow> string list \<Rightarrow> jdict \<Rightarrow> jdict \<Rightarrow> (string \<times> string) list
    \<Rightarrow> (string \<times> jdict) list \<Rightarrow> ack_outcome \<Rightarrow> string list list \<Rightarrow> dir \<Rightarrow> ack_outcome result \<times> string list list \<times> dir" where
  "ack_events E G ad c matched decisions command_ids env [] r issued d = (Inr r, issued, d)"
| "ack_events E G ad c matched decisions command_ids env ((eid, event) # rest) r issued d =
    (let decision = dget decisions eid; command_id = dget command_ids eid in
     if eid \<notin> set matched \<or> decision = JNull then
       ack_events E G ad c matched decisions command_ids env rest (r\<lparr>ao_pending := ao_pending r @ [eid]\<rparr>) issued d
     else case in_str_set decision decision_names of
         Inl e \<Rightarrow> (Inl e, issued, d)
       | Inr False \<Rightarrow> (Inl (delivery_error ''decision_unknown''), issued, d)
       | Inr True \<Rightarrow>
          if decision \<noteq> JStr ''handled'' then
            ack_events E G ad c matched decisions command_ids env rest (r\<lparr>ao_nonhandled := ao_nonhandled r @ [(eid, str_of decision)]\<rparr>) issued d
          else if \<not> bridge_safe command_id then (Inl (delivery_error ''command_id''), issued, d)
          else (let args = ack_args (ca_binding c) (ca_task_dir c) eid event (str_of command_id) in
            case run_go E G ad args env d of
              (Inl e, d') \<Rightarrow> (Inl e, issued @ [args], d')
            | (Inr v, d') \<Rightarrow> ack_events E G ad c matched decisions command_ids env rest (r\<lparr>ao_records := ao_records r @ [v]\<rparr>) (issued @ [args]) d'))"

definition ack_confirmed :: "platform \<Rightarrow> go_host \<Rightarrow> capability \<Rightarrow> history_proof \<Rightarrow> jdict \<Rightarrow> jdict \<Rightarrow> (string \<times> string) list \<Rightarrow> adapter \<Rightarrow> dir
    \<Rightarrow> ack_outcome result \<times> string list list \<times> dir" where
  "ack_confirmed E G c proof decisions command_ids env ad d =
    (case ensure (map_of (ad_capabilities ad) (ca_id c) = Some c) (delivery_error ''capability_owner'')
         (ensure (map_of (ad_proofs ad) (hp_id proof) = Some proof \<and> hp_capability_id proof = ca_id c) (delivery_error ''proof_owner'')
         (andThen (parsed_object E (hp_native_envelope_bytes proof)) (\<lambda>proved.
          andThen (parsed_object E (ca_native_envelope_bytes c)) (\<lambda>envelope.
          ensure (py_eq (JObj proved) (JObj envelope)) (delivery_error ''history_binding'')
         (andThen (parsed_object E (ca_go_intent_bytes c)) (\<lambda>intent.
          validate_go_intent E (JObj intent) (ca_binding c) None (ca_send_disabled c))))))) of
       Inl e \<Rightarrow> (Inl e, [], d)
     | Inr checked \<Rightarrow>
        ack_events E G ad c (hp_matched_event_ids proof) decisions command_ids env (events_by_id checked)
          \<lparr>ao_records = [], ao_pending = [], ao_nonhandled = []\<rparr> [] d)"

section \<open>Sending once\<close>

definition lifecycle :: "string list" where
  "lifecycle = [''turn/started'', ''item/started'', ''item/completed'', ''turn/completed'']"

text \<open>The set of the methods seen; a method that cannot be hashed raises.\<close>

definition lifecycle_seen :: "jdict list \<Rightarrow> bool result" where
  "lifecycle_seen packets =
     ensure (list_all (\<lambda>p. hashable (dget p ''method'')) packets) (Raised ''TypeError'' [])
    (Inr (list_all (\<lambda>m. JStr m \<in> set (map (\<lambda>p. dget p ''method'') packets)) lifecycle))"

definition check_packet :: "int \<Rightarrow> bool \<Rightarrow> jdict \<Rightarrow> bool result" where
  "check_packet rid got p =
     ensure (\<not> has_key p ''id'' \<or> dget p ''id'' = JInt rid) (delivery_error ''turn_start_response_id'')
    (ensure (\<not> (got \<and> has_key p ''id'')) (delivery_error ''turn_start_duplicate_response'')
    (if has_key p ''id'' then
       ensure (keys_exact p [''id'', ''result''] \<and> is_obj (dget p ''result'')) (delivery_error ''turn_start_failed'')
      (let turn = dget (obj_of (dget p ''result'')) ''turn'' in
       ensure (is_obj turn \<and> bridge_safe (dget (obj_of turn) ''id'')) (delivery_error ''turn_start_result'')
      (andThen (in_str_set (dget (obj_of turn) ''status'') [''inProgress'', ''completed'']) (\<lambda>known.
       ensure known (delivery_error ''turn_start_result'') (Inr True))))
     else Inr got))"

text \<open>The loop over what the connection delivers; \<open>None\<close> while it still waits.\<close>

fun await_turn :: "int \<Rightarrow> bool \<Rightarrow> bool \<Rightarrow> jdict list \<Rightarrow> jdict result list \<Rightarrow> jdict list result option" where
  "await_turn rid wait got packets reads =
    (case (if \<not> got then Inr False else if \<not> wait then Inr True else lifecycle_seen packets) of
       Inl e \<Rightarrow> Some (Inl e)
     | Inr True \<Rightarrow> Some (Inr packets)
     | Inr False \<Rightarrow> (case reads of
         [] \<Rightarrow> None
       | Inl e # _ \<Rightarrow> Some (Inl e)
       | Inr p # rest \<Rightarrow> (case check_packet rid got p of
           Inl e \<Rightarrow> Some (Inl e)
         | Inr got' \<Rightarrow> await_turn rid wait got' (packets @ [p]) rest)))"

definition turn_start :: "platform \<Rightarrow> int \<Rightarrow> jdict \<Rightarrow> json" where
  "turn_start E rid wire = JObj
    [(''id'', JInt rid), (''method'', JStr ''turn/start''),
     (''params'', JObj [(''threadId'', dget wire ''controller_thread_id''), (''input'', JArr []),
       (''toolOutput'', JObj [(''name'', JStr ''g0_delivery''), (''namespace'', JStr ''orchestration''),
          (''output'', JStr (canonical E (JObj wire)))])])]"

text \<open>Whether the claim is still the one the capability was made for.\<close>

definition claim_current :: "platform \<Rightarrow> go_host \<Rightarrow> adapter \<Rightarrow> capability \<Rightarrow> jdict \<Rightarrow> dir \<Rightarrow> unit result \<times> dir" where
  "claim_current E G ad c wire d =
    (if ca_external_claim c then (andThen (external_status E ad c False d) (\<lambda>_. Inr ()), d)
     else case run_go E G ad [''batch-status'', ''--dir'', ca_task_dir c, ''--nonce'', bd_nonce (ca_binding c)] [] d of
         (Inl e, d') \<Rightarrow> (Inl e, d')
       | (Inr status, d') \<Rightarrow>
           (ensure (dget status ''claim'' = JStr ''claimed'' \<and> py_eq (dget status ''delivery_id'') (dget wire ''delivery_id'')
               \<and> py_eq (dget status ''revision'') (JInt (bd_revision (ca_binding c))) \<and> dget status ''transport_status'' = JStr ''ready'')
              (delivery_error ''claim_not_current'')
           (andThen (in_str_set (dget status ''status'') [''cancelled'', ''stale'']) (\<lambda>terminal.
            ensure (\<not> terminal) (delivery_error ''claim_not_current'')
           (andThen (stable_file_hash E d' claim_file) (\<lambda>digest.
            ensure (digest = ca_claim_sha256 c) (delivery_error ''claim_changed'') (Inr ()))))), d'))"

text \<open>\<open>send_tool_output_once\<close> up to the first \<open>await\<close>: the envelope that is handed over, or a rejection before anything is written.\<close>

definition send_checks :: "platform \<Rightarrow> json \<Rightarrow> json \<Rightarrow> capability \<Rightarrow> adapter \<Rightarrow> jdict result" where
  "send_checks E request_id wait c ad =
     ensure (is_int request_id \<and> 0 < int_of request_id) (delivery_error ''request_id'')
    (ensure (is_bool wait) (delivery_error ''wait_mode'')
    (ensure (map_of (ad_capabilities ad) (ca_id c) = Some c) (delivery_error ''capability_owner'')
    (ensure (\<not> ca_send_disabled c) (delivery_error ''send_disabled'')
    (andThen (parsed_object E (ca_native_envelope_bytes c)) (\<lambda>wire.
     ensure (keys_exact wire envelope_fields) (delivery_error ''native_envelope'') (Inr wire))))))"

definition unsent_check :: "platform \<Rightarrow> capability \<Rightarrow> jdict \<Rightarrow> adapter \<Rightarrow> unit result" where
  "unsent_check E c wire ad =
     andThen (parsed_object E (ca_go_intent_bytes c)) (\<lambda>intent.
     andThen (native_envelope_from_go_intent E intent (ca_binding c) False) (\<lambda>native.
     ensure (py_eq (JObj native) (JObj wire)) (delivery_error ''capability_changed'')
    (ensure (bridge_safe (dget wire ''delivery_id'') \<and> str_of (dget wire ''delivery_id'') \<notin> set (ad_sent ad))
       (delivery_error ''delivery_already_sent'') (Inr ()))))"

definition send_request :: "platform \<Rightarrow> go_host \<Rightarrow> json \<Rightarrow> json \<Rightarrow> capability \<Rightarrow> adapter \<Rightarrow> dir \<Rightarrow> jdict result \<times> adapter \<times> dir" where
  "send_request E G request_id wait c ad d =
    (case send_checks E request_id wait c ad of
       Inl e \<Rightarrow> (Inl e, ad, d)
     | Inr wire \<Rightarrow> (case claim_current E G ad c wire d of
         (Inl e, d') \<Rightarrow> (Inl e, ad, d')
       | (Inr _, d') \<Rightarrow> (case unsent_check E c wire ad of
           Inl e \<Rightarrow> (Inl e, ad, d')
         | Inr _ \<Rightarrow> (Inr wire, ad\<lparr>ad_sent := str_of (dget wire ''delivery_id'') # ad_sent ad\<rparr>, d'))))"

text \<open>
  The whole operation: \<open>written\<close> is what the connection answers to the request and \<open>reads\<close> what it delivers
  afterwards. The second component is the envelope whose request was handed to the connection, if any.
\<close>

definition send_tool_output_once :: "platform \<Rightarrow> go_host \<Rightarrow> json \<Rightarrow> json \<Rightarrow> capability \<Rightarrow> (json \<Rightarrow> unit result) \<Rightarrow> jdict result list
    \<Rightarrow> adapter \<Rightarrow> dir \<Rightarrow> jdict list result option \<times> jdict option \<times> adapter \<times> dir" where
  "send_tool_output_once E G request_id wait c written reads ad d =
    (case send_request E G request_id wait c ad d of
       (Inl e, ad', d') \<Rightarrow> (Some (Inl e), None, ad', d')
     | (Inr wire, ad', d') \<Rightarrow>
        ((case written (turn_start E (int_of request_id) wire) of
            Inl e \<Rightarrow> Some (Inl e)
          | Inr _ \<Rightarrow> await_turn (int_of request_id) (wait = JBool True) False [] reads), Some wire, ad', d'))"

end
