(* ===== verification/AdapterProps.thy ===== *)
theory AdapterProps
  imports DeliveryAdapter LedgerSafety
begin

text \<open>
  What the delivery adapter guarantees: a delivery is handed to the connection at most once in the
  life of an adapter, whatever the connection does; acknowledgements go out only for events that the
  history proof covers and the controller handled; and a batch that the ledger has marked as
  sending is adopted with exactly the envelope the ledger keeps for it.
\<close>

section \<open>Sending at most once\<close>

text \<open>The life of an adapter, with the envelopes handed to a connection so far.\<close>

inductive adapter_life :: "platform \<Rightarrow> go_host \<Rightarrow> adapter \<Rightarrow> jdict list \<Rightarrow> bool" for E G where
  created: "ad_sent ad = [] \<Longrightarrow> adapter_life E G ad []"
| attached: "adapter_life E G ad ws \<Longrightarrow> attach_external_claim E b path task token ad = (r, ad') \<Longrightarrow> adapter_life E G ad' ws"
| reconciled: "adapter_life E G ad ws \<Longrightarrow> reconcile_external_claim E b path task token ad = (r, ad') \<Longrightarrow> adapter_life E G ad' ws"
| prepared: "adapter_life E G ad ws \<Longrightarrow> adapter_prepare E G b path dd i events env token ad d = (r, ad', d') \<Longrightarrow> adapter_life E G ad' ws"
| adopted: "adapter_life E G ad ws \<Longrightarrow> reconcile_claimed E G b path i env token ad d = (r, ad', d') \<Longrightarrow> adapter_life E G ad' ws"
| audited: "adapter_life E G ad ws \<Longrightarrow> audit_history E c reads decisions token ad = (r, ad') \<Longrightarrow> adapter_life E G ad' ws"
| sent: "adapter_life E G ad ws \<Longrightarrow> send_tool_output_once E G rid wait c written reads ad d = (r, w, ad', d') \<Longrightarrow>
    adapter_life E G ad' (ws @ (case w of None \<Rightarrow> [] | Some x \<Rightarrow> [x]))"

definition wire_id :: "jdict \<Rightarrow> string" where
  "wire_id w = str_of (dget w ''delivery_id'')"

lemma ad_sent_adopt [simp]: "ad_sent (adopt c ad) = ad_sent ad"
  by (simp add: adopt_def)

lemma sent_unchanged:
  "attach_external_claim E b path task token ad = (r, ad') \<Longrightarrow> ad_sent ad' = ad_sent ad"
  "reconcile_external_claim E b path task token ad = (r, ad') \<Longrightarrow> ad_sent ad' = ad_sent ad"
  "adapter_prepare E G b path dd i events env token ad d = (r, ad', d') \<Longrightarrow> ad_sent ad' = ad_sent ad"
  "reconcile_claimed E G b path j env token ad d = (r, ad', d') \<Longrightarrow> ad_sent ad' = ad_sent ad"
  "audit_history E c reads decisions token ad = (q, ad') \<Longrightarrow> ad_sent ad' = ad_sent ad"
  by (auto simp: attach_external_claim_def reconcile_external_claim_def adapter_prepare_def reconcile_claimed_def audit_history_def
      split: sum.splits prod.splits)

lemma send_request_sent:
  assumes "send_request E G rid wait c ad d = (r, ad', d')"
  shows "(\<exists>e. r = Inl e \<and> ad_sent ad' = ad_sent ad) \<or>
    (\<exists>w. r = Inr w \<and> wire_id w \<notin> set (ad_sent ad) \<and> ad_sent ad' = wire_id w # ad_sent ad)"
proof (cases "send_checks E rid wait c ad")
  case (Inl e)
  then have "send_request E G rid wait c ad d = (Inl e, ad, d)" by (simp add: send_request_def)
  with assms show ?thesis by auto
next
  case (Inr w)
  obtain r1 d1 where cur: "claim_current E G ad c w d = (r1, d1)" by fastforce
  have new: "wire_id w \<notin> set (ad_sent ad)" if "unsent_check E c w ad = Inr u" for u
    using that by (auto simp: unsent_check_def wire_id_def)
  have "send_request E G rid wait c ad d = (case r1 of Inl e \<Rightarrow> (Inl e, ad, d1) | Inr _ \<Rightarrow> (case unsent_check E c w ad of
      Inl e \<Rightarrow> (Inl e, ad, d1) | Inr _ \<Rightarrow> (Inr w, ad\<lparr>ad_sent := wire_id w # ad_sent ad\<rparr>, d1)))"
    unfolding wire_id_def by (simp add: send_request_def Inr cur)
  with assms new show ?thesis by (cases r1; cases "unsent_check E c w ad") auto
qed

lemma send_once_sent:
  assumes "send_tool_output_once E G rid wait c written reads ad d = (r, w, ad', d')"
  shows "(w = None \<and> ad_sent ad' = ad_sent ad) \<or> (\<exists>x. w = Some x \<and> wire_id x \<notin> set (ad_sent ad) \<and> ad_sent ad' = wire_id x # ad_sent ad)"
proof -
  obtain r1 a1 d1 where r1: "send_request E G rid wait c ad d = (r1, a1, d1)" by (metis prod_cases3)
  with send_request_sent [OF r1] assms show ?thesis by (auto simp: send_tool_output_once_def)
qed

lemma life_sent: "adapter_life E G ad ws \<Longrightarrow> ad_sent ad = rev (map wire_id ws) \<and> distinct (map wire_id ws)"
proof (induction rule: adapter_life.induct)
  case (sent ad ws rid wait c written reads d r w ad' d')
  from send_once_sent [OF sent.hyps(2)] sent.IH show ?case by (auto simp: image_iff)
qed (auto dest: sent_unchanged)

section \<open>Acknowledging what was proven\<close>

text \<open>The events to acknowledge, those without a decision that counts, and those that were decided otherwise.\<close>

definition to_ack :: "string list \<Rightarrow> jdict \<Rightarrow> (string \<times> jdict) list \<Rightarrow> (string \<times> jdict) list" where
  "to_ack covered decisions = filter (\<lambda>(eid, event). eid \<in> set covered \<and> dget decisions eid = JStr ''handled'')"

definition undecided :: "string list \<Rightarrow> jdict \<Rightarrow> (string \<times> jdict) list \<Rightarrow> string list" where
  "undecided covered decisions events = map fst (filter (\<lambda>(eid, event). eid \<notin> set covered \<or> dget decisions eid = JNull) events)"

definition otherwise :: "string list \<Rightarrow> jdict \<Rightarrow> (string \<times> jdict) list \<Rightarrow> (string \<times> string) list" where
  "otherwise covered decisions events = map (\<lambda>(eid, event). (eid, str_of (dget decisions eid)))
     (filter (\<lambda>(eid, event). eid \<in> set covered \<and> dget decisions eid \<noteq> JNull \<and> dget decisions eid \<noteq> JStr ''handled'') events)"

definition ack_command :: "capability \<Rightarrow> jdict \<Rightarrow> string \<times> jdict \<Rightarrow> string list" where
  "ack_command c command_ids = (\<lambda>(eid, event). ack_args (ca_binding c) (ca_task_dir c) eid event (str_of (dget command_ids eid)))"

lemma ack_events_run:
  assumes "ack_events E G ad c covered decisions command_ids env events r issued d = (res, issued', d')"
  shows "\<exists>new rest. to_ack covered decisions events = new @ rest \<and> issued' = issued @ map (ack_command c command_ids) new
    \<and> list_all (\<lambda>(eid, event). bridge_safe (dget command_ids eid)) new
    \<and> (\<forall>r'. res = Inr r' \<longrightarrow> rest = [] \<and> length (ao_records r') = length (ao_records r) + length new
         \<and> ao_pending r' = ao_pending r @ undecided covered decisions events \<and> ao_nonhandled r' = ao_nonhandled r @ otherwise covered decisions events)"
  using assms
proof (induction events arbitrary: r issued d)
  case Nil
  then show ?case by (auto simp: to_ack_def undecided_def otherwise_def)
next
  case (Cons ev events)
  note defs = to_ack_def undecided_def otherwise_def
  obtain eid event where ev: "ev = (eid, event)" by (cases ev)
  let ?args = "ack_args (ca_binding c) (ca_task_dir c) eid event (str_of (dget command_ids eid))"
  have cmd: "ack_command c command_ids (eid, event) = ?args" by (simp add: ack_command_def)
  consider (pending) "eid \<notin> set covered \<or> dget decisions eid = JNull"
    | (other) "eid \<in> set covered" "dget decisions eid \<noteq> JNull" "dget decisions eid \<noteq> JStr ''handled''"
    | (handled) "eid \<in> set covered" "dget decisions eid = JStr ''handled''" by blast
  then show ?case
  proof cases
    case pending
    then have run: "ack_events E G ad c covered decisions command_ids env events (r\<lparr>ao_pending := ao_pending r @ [eid]\<rparr>) issued d = (res, issued', d')"
      using Cons.prems by (simp add: ev Let_def)
    from pending have eqs: "to_ack covered decisions (ev # events) = to_ack covered decisions events"
      "undecided covered decisions (ev # events) = eid # undecided covered decisions events"
      "otherwise covered decisions (ev # events) = otherwise covered decisions events" by (auto simp: ev defs)
    from Cons.IH [OF run] show ?thesis unfolding eqs by simp
  next
    case other
    then consider (go) "ack_events E G ad c covered decisions command_ids env events
        (r\<lparr>ao_nonhandled := ao_nonhandled r @ [(eid, str_of (dget decisions eid))]\<rparr>) issued d = (res, issued', d')"
      | (stop) e where "res = Inl e" "issued' = issued"
      using Cons.prems by (auto simp: ev Let_def split: sum.splits bool.splits)
    then show ?thesis
    proof cases
      case go
      from other have eqs: "to_ack covered decisions (ev # events) = to_ack covered decisions events"
        "undecided covered decisions (ev # events) = undecided covered decisions events"
        "otherwise covered decisions (ev # events) = (eid, str_of (dget decisions eid)) # otherwise covered decisions events" by (auto simp: ev defs)
      from Cons.IH [OF go] show ?thesis unfolding eqs by simp
    next
      case stop
      then show ?thesis by (intro exI [of _ "[]"] exI [of _ "to_ack covered decisions (ev # events)"]) simp
    qed
  next
    case handled
    then have todo: "to_ack covered decisions (ev # events) = (eid, event) # to_ack covered decisions events" by (simp add: ev defs)
    have known: "in_str_set (JStr ''handled'') decision_names = Inr True" by (simp add: decision_names_def)
    show ?thesis
    proof (cases "bridge_safe (dget command_ids eid)")
      case False
      then have "res = Inl (delivery_error ''command_id'')" "issued' = issued" using Cons.prems handled known by (simp_all add: ev Let_def)
      then show ?thesis by (intro exI [of _ "[]"] exI [of _ "to_ack covered decisions (ev # events)"]) simp
    next
      case safe: True
      obtain v d1 where g: "run_go E G ad ?args env d = (v, d1)" by fastforce
      show ?thesis
      proof (cases v)
        case (Inl e)
        then have "res = Inl e" "issued' = issued @ [?args]" using Cons.prems handled known safe g by (simp_all add: ev Let_def)
        then show ?thesis using todo safe cmd by (intro exI [of _ "[(eid, event)]"] exI [of _ "to_ack covered decisions events"]) simp
      next
        case (Inr x)
        then have "ack_events E G ad c covered decisions command_ids env events (r\<lparr>ao_records := ao_records r @ [x]\<rparr>) (issued @ [?args]) d1 = (res, issued', d')"
          using Cons.prems handled known safe g by (simp add: ev Let_def)
        from Cons.IH [OF this] obtain new rest where "to_ack covered decisions events = new @ rest"
          "issued' = (issued @ [?args]) @ map (ack_command c command_ids) new" "list_all (\<lambda>(eid, event). bridge_safe (dget command_ids eid)) new"
          "\<forall>r'. res = Inr r' \<longrightarrow> rest = [] \<and> length (ao_records r') = length (ao_records r) + 1 + length new
             \<and> ao_pending r' = ao_pending r @ undecided covered decisions events \<and> ao_nonhandled r' = ao_nonhandled r @ otherwise covered decisions events"
          by auto
        moreover have "undecided covered decisions (ev # events) = undecided covered decisions events"
          "otherwise covered decisions (ev # events) = otherwise covered decisions events" using handled by (simp_all add: ev defs)
        ultimately show ?thesis using todo safe cmd by (intro exI [of _ "(eid, event) # new"] exI [of _ rest]) auto
      qed
    qed
  qed
qed

text \<open>
  C8. Acknowledgements follow the proof and the decisions: when anything is acknowledged or an outcome is
  returned, the capability is the adapter's own and the proof is one that the adapter registered for this
  capability; of the events of the checked intent of the capability exactly those that the proof covers
  and the controller decided as handled are to be acknowledged, in their order; the commands that were
  run are an initial part of these, each with a safe command identifier; and when an outcome is returned
  all of them were run, each gave a record, the pending events are exactly those that the proof does not
  cover or that have no decision, and the ones not handled are exactly the covered ones with another
  decision, with that decision.\<close>

theorem acks_only_proven_handled_events:
  assumes "ack_confirmed E G c proof decisions command_ids env ad d = (res, issued, d')" and "issued \<noteq> [] \<or> res = Inr outcome"
  shows "map_of (ad_capabilities ad) (ca_id c) = Some c \<and> map_of (ad_proofs ad) (hp_id proof) = Some proof \<and> hp_capability_id proof = ca_id c
    \<and> (\<exists>intent checked new rest. parsed_object E (ca_go_intent_bytes c) = Inr intent
        \<and> validate_go_intent E (JObj intent) (ca_binding c) None (ca_send_disabled c) = Inr checked
        \<and> to_ack (hp_matched_event_ids proof) decisions (events_by_id checked) = new @ rest
        \<and> issued = map (ack_command c command_ids) new \<and> list_all (\<lambda>(eid, event). bridge_safe (dget command_ids eid)) new
        \<and> (res = Inr outcome \<longrightarrow> rest = [] \<and> length (ao_records outcome) = length new
            \<and> ao_pending outcome = undecided (hp_matched_event_ids proof) decisions (events_by_id checked)
            \<and> ao_nonhandled outcome = otherwise (hp_matched_event_ids proof) decisions (events_by_id checked)))"
proof -
  let ?pre = "ensure (map_of (ad_capabilities ad) (ca_id c) = Some c) (delivery_error ''capability_owner'')
         (ensure (map_of (ad_proofs ad) (hp_id proof) = Some proof \<and> hp_capability_id proof = ca_id c) (delivery_error ''proof_owner'')
         (andThen (parsed_object E (hp_native_envelope_bytes proof)) (\<lambda>proved.
          andThen (parsed_object E (ca_native_envelope_bytes c)) (\<lambda>envelope.
          ensure (py_eq (JObj proved) (JObj envelope)) (delivery_error ''history_binding'')
         (andThen (parsed_object E (ca_go_intent_bytes c)) (\<lambda>intent.
          validate_go_intent E (JObj intent) (ca_binding c) None (ca_send_disabled c)))))))"
  obtain checked where pre: "?pre = Inr checked" and run: "ack_events E G ad c (hp_matched_event_ids proof) decisions command_ids env (events_by_id checked)
      \<lparr>ao_records = [], ao_pending = [], ao_nonhandled = []\<rparr> [] d = (res, issued, d')"
  proof (cases ?pre)
    case (Inl e)
    then have "res = Inl e" "issued = []" using assms(1) by (simp_all add: ack_confirmed_def)
    with assms(2) show thesis by simp
  next
    case (Inr checked)
    show thesis by (rule that [OF Inr]) (use assms(1) in \<open>unfold ack_confirmed_def Inr sum.case\<close>)
  qed
  from pre obtain intent where own: "map_of (ad_capabilities ad) (ca_id c) = Some c" "map_of (ad_proofs ad) (hp_id proof) = Some proof"
      "hp_capability_id proof = ca_id c" "parsed_object E (ca_go_intent_bytes c) = Inr intent"
      "validate_go_intent E (JObj intent) (ca_binding c) None (ca_send_disabled c) = Inr checked"
    by (auto simp: ensure_def andThen_def split: if_splits sum.splits)
  from ack_events_run [OF run] obtain new rest where shape: "to_ack (hp_matched_event_ids proof) decisions (events_by_id checked) = new @ rest"
    "issued = map (ack_command c command_ids) new" "list_all (\<lambda>(eid, event). bridge_safe (dget command_ids eid)) new"
    "res = Inr outcome \<longrightarrow> rest = [] \<and> length (ao_records outcome) = length new
       \<and> ao_pending outcome = undecided (hp_matched_event_ids proof) decisions (events_by_id checked)
       \<and> ao_nonhandled outcome = otherwise (hp_matched_event_ids proof) decisions (events_by_id checked)" by auto
  show ?thesis
    by (intro conjI own(1-3), rule exI [of _ intent], rule exI [of _ checked], rule exI [of _ new], rule exI [of _ rest], intro conjI own(4,5) shape)
qed

section \<open>Adopting a batch of the ledger\<close>

definition owner_bd :: "owner_attachment \<Rightarrow> string \<Rightarrow> binding" where
  "owner_bd a i = \<lparr>bd_profile_id = oa_profile_id a, bd_owner_thread_id = oa_controller_thread_id a, bd_owner_epoch = JInt (oa_controller_epoch a),
     bd_nonce = i, bd_revision = 1\<rparr>"

lemma event_shape_audit: "audit_event eid slot v \<Longrightarrow> event_shape v = Inr () \<and> str_of (dget (obj_of v) ''event_id'') = eid \<and> str_of (dget (obj_of v) ''action_slot'') = slot"
  by (auto simp: audit_event_def event_shape_def bridge_safe_def bridge_hash_def in_str_set_def Let_def)

lemma validate_audit_events:
  assumes "list_all2 (\<lambda>(eid, slot) v. audit_event eid slot v) ks vs" and "distinct (map fst ks @ ids)" and "distinct (map snd ks @ slots)"
  shows "fold_result validate_event vs (ids, slots) = Inr (rev (map fst ks) @ ids, rev (map snd ks) @ slots)"
  using assms
proof (induction ks vs arbitrary: ids slots rule: list_all2_induct)
  case (Cons k ks v vs)
  obtain eid slot where k: "k = (eid, slot)" by (cases k)
  then have "validate_event v (ids, slots) = Inr (eid # ids, slot # slots)"
    using event_shape_audit [of eid slot v] Cons.hyps(1) Cons.prems by (simp add: validate_event_def)
  then show ?case using Cons k by simp
qed simp

lemma projected_audit_events:
  assumes proj: "project_events E task_id events = Inr (native, source)" and sha: "sha256_law E"
    and revs: "list_all (\<lambda>row. int_of (dget (obj_of row) ''event_revision'') \<le> 1000000) events"
  shows "validate_events (JArr (map sort_keys native)) = Inr ()"
proof -
  note p = project_events_ok [OF proj]
  let ?ks = "map (\<lambda>row. (row_alias E row, row_slot E row)) events"
  have "list_all2 (\<lambda>(eid, slot) v. audit_event eid slot v) ?ks (map sort_keys native)"
    using p(4) revs native_audit_event [OF _ sha] by (auto simp: p(5) list_all2_conv_all_nth list_all_length)
  from validate_audit_events [OF this, of "[]" "[]"] p(7,8)
  have "\<exists>r. fold_result validate_event (map sort_keys native) ([], []) = Inr r" by (auto simp: comp_def)
  moreover have "1 \<le> length native" "length native \<le> 8" using p(2,3,5) by simp_all
  ultimately show ?thesis by (auto simp: validate_events_def)
qed

text \<open>An event whose revision is beyond the limit of the adapter.\<close>

lemma native_event_big:
  assumes "deliverable_row task_id row" and "sha256_law E" and "1000000 < int_of (dget (obj_of row) ''event_revision'')"
  shows "event_shape (sort_keys (native_event E (obj_of row))) = Inl (delivery_error ''event_identity'')"
proof -
  define d where "d = obj_of (native_event E (obj_of row))"
  have v: "native_event E (obj_of row) = JObj d" by (simp add: d_def native_event_def)
  have flat: "flat (JObj d)" using flat_events(1) [OF assms(1), of E] by (simp add: v)
  have keys: "keys_exact d event_fields" by (auto simp: d_def native_event_def keys_exact_def event_fields_def)
  have dist: "distinct (map fst d)" using flat by (simp add: flat_def)
  let ?s = "obj_of (sort_keys (JObj d))"
  have s: "sort_keys (native_event E (obj_of row)) = JObj ?s" by (simp add: v)
  have g: "dget ?s k = dget d k" for k by (rule dget_flat_sorted [OF flat])
  have k: "keys_exact ?s event_fields" using keys_exact_sorted [OF dist] keys by blast
  have "\<exists>rev. dget d ''event_revision'' = JInt rev \<and> 1000000 < rev"
    using assms(1,3) by (auto simp: d_def native_event_def deliverable_row_def)
  then show ?thesis unfolding s event_shape_def using k g by (auto simp: Let_def ensure_def simp del: sort_keys.simps)
qed

lemma validate_mixed_events:
  assumes "list_all2 (\<lambda>(eid, slot) v. audit_event eid slot v \<or> event_shape v = Inl x) ks vs" and "list_ex (\<lambda>v. event_shape v = Inl x) vs"
    and "distinct (map fst ks @ ids)" and "distinct (map snd ks @ slots)"
  shows "fold_result validate_event vs (ids, slots) = Inl x"
  using assms
proof (induction ks vs arbitrary: ids slots rule: list_all2_induct)
  case (Cons k ks v vs)
  obtain eid slot where k: "k = (eid, slot)" by (cases k)
  show ?case
  proof (cases "event_shape v = Inl x")
    case True
    then show ?thesis by (simp add: validate_event_def)
  next
    case False
    then have "validate_event v (ids, slots) = Inr (eid # ids, slot # slots)"
      using event_shape_audit [of eid slot v] Cons.hyps(1) Cons.prems k by (simp add: validate_event_def)
    then show ?thesis using Cons k False by simp
  qed
qed simp

lemma projected_big_events:
  assumes proj: "project_events E task_id events = Inr (native, source)" and sha: "sha256_law E"
    and revs: "\<not> list_all (\<lambda>row. int_of (dget (obj_of row) ''event_revision'') \<le> 1000000) events"
  shows "validate_events (JArr (map sort_keys native)) = Inl (delivery_error ''event_identity'')"
proof -
  note p = project_events_ok [OF proj]
  let ?ks = "map (\<lambda>row. (row_alias E row, row_slot E row)) events" and ?x = "delivery_error ''event_identity''"
  have "audit_event (row_alias E row) (row_slot E row) (sort_keys (native_event E (obj_of row))) \<or> event_shape (sort_keys (native_event E (obj_of row))) = Inl ?x"
    if "row \<in> set events" for row
    using that p(4) native_audit_event [OF _ sha] native_event_big [OF _ sha] by (fastforce simp: list_all_iff not_le [symmetric])
  then have l2: "list_all2 (\<lambda>(eid, slot) v. audit_event eid slot v \<or> event_shape v = Inl ?x) ?ks (map sort_keys native)"
    by (auto simp: p(5) list_all2_conv_all_nth)
  have "list_ex (\<lambda>v. event_shape v = Inl ?x) (map sort_keys native)"
    using revs p(4) native_event_big [OF _ sha] by (fastforce simp: p(5) list_all_iff list_ex_iff not_le)
  from validate_mixed_events [OF l2 this, of "[]" "[]"] p(7,8)
  have "fold_result validate_event (map sort_keys native) ([], []) = Inl ?x" by (simp add: comp_def)
  moreover have "1 \<le> length native" "length native \<le> 8" using p(2,3,5) by simp_all
  ultimately show ?thesis by (simp add: validate_events_def)
qed

lemma validate_intent_events:
  assumes ok: "native_ok native" and sha: "sha256_law E" and epoch: "0 < oa_controller_epoch a" and i: "id_string i"
  shows "validate_go_intent E (JObj (obj_of (sort_keys (JObj (final_intent E a i native))))) (owner_bd a i) None False
    = andThen (validate_events (JArr (map sort_keys native))) (\<lambda>_. Inr (obj_of (sort_keys (JObj (final_intent E a i native)))))"
proof -
  let ?i = "obj_of (sort_keys (JObj (final_intent E a i native)))"
  have wf: "wf_json (JObj (final_intent E a i native))" using wf_blank [OF ok] by (simp add: final_intent_def)
  have keys: "keys_exact ?i go_intent_fields"
    by (subst keys_exact_sorted) (auto simp: final_intent_def blank_intent_def keys_exact_def go_intent_fields_def)
  have go: "go_batch_hash E ?i = Inr (go_digest E a i native)"
    unfolding final_intent_def go_batch_hash_def by (rule go_blank_sorted [OF ok])
  have g: "dget ?i ''version'' = JInt 1" "dget ?i ''delivery_id'' = JStr i" "dget ?i ''nonce'' = JStr i"
    "dget ?i ''controller_thread'' = JStr (oa_controller_thread_id a)" "dget ?i ''controller_epoch'' = JInt (oa_controller_epoch a)"
    "dget ?i ''revision'' = JInt 1" "dget ?i ''state'' = JStr ''prepared''" "dget ?i ''events'' = JArr (map sort_keys native)"
    "dget ?i ''payload_hash'' = JStr (go_digest E a i native)"
    unfolding dget_sort_keys [OF wf] by (simp_all add: final_intent_def blank_intent_def)
  have hash: "bridge_hash (JStr (go_digest E a i native))" using sha by (simp add: bridge_hash_def go_digest_def sha256_law_def)
  show ?thesis
    unfolding validate_go_intent_def json_kind_simps Let_def g go
    using keys hash epoch i by (simp add: bridge_safe_def owner_bd_def)
qed

lemma validate_stored_intent:
  assumes proj: "project_events E task_id events = Inr (native, source)" and sha: "sha256_law E"
    and revs: "list_all (\<lambda>row. int_of (dget (obj_of row) ''event_revision'') \<le> 1000000) events"
    and epoch: "0 < oa_controller_epoch a" and i: "id_string i"
  shows "validate_go_intent E (JObj (obj_of (sort_keys (JObj (final_intent E a i native))))) (owner_bd a i) None False
    = Inr (obj_of (sort_keys (JObj (final_intent E a i native))))"
  using validate_intent_events [OF _ sha epoch i] projected_ok [OF proj] projected_audit_events [OF proj sha revs] by simp

definition adoptable :: "platform \<Rightarrow> owner_attachment \<Rightarrow> string \<Rightarrow> json list \<Rightarrow> jdict \<Rightarrow> dir \<Rightarrow> bool" where
  "adoptable E a i native status d =
    (map_of (dr_files d) binding_file = Some (reg E (JObj (owner_binding a i)))
     \<and> map_of (dr_files d) intent_file = Some (reg E (JObj (final_intent E a i native)))
     \<and> map_of (dr_files d) claim_file = Some (reg E (JObj (batch_claim E a i (final_intent E a i native))))
     \<and> map_of (dr_files d) status_file = Some (reg E (JObj status))
     \<and> list_all (\<lambda>v. length (file_text E (JObj v)) \<le> 4096)
         [owner_binding a i, final_intent E a i native, batch_claim E a i (final_intent E a i native), status])"

lemma native_envelope_keys: "distinct (map fst (native_envelope E x))" "keys_exact (native_envelope E x) envelope_fields"
  by (auto simp: native_envelope_def native_envelope_body_def keys_exact_def envelope_fields_def)

lemma plain_no_const: "plain v \<Longrightarrow> no_const v"
  by (induction v rule: plain.induct) (auto simp: list_all_iff)

context json_codec
begin

lemma intent_parsed:
  assumes "native_ok native"
  shows "parsed_object E (canonical E (JObj (obj_of (sort_keys (JObj (final_intent E a i native)))))) = Inr (obj_of (sort_keys (JObj (final_intent E a i native))))"
proof -
  let ?i = "obj_of (sort_keys (JObj (final_intent E a i native)))"
  have fi: "plain (JObj (final_intent E a i native))" "wf_json (JObj (final_intent E a i native))" using wf_blank [OF assms] by (simp_all add: final_intent_def)
  have iobj: "JObj ?i = sort_keys (JObj (final_intent E a i native))" by simp
  have ip: "plain (JObj ?i)" "wf_json (JObj ?i)" unfolding iobj using fi by (simp_all del: sort_keys.simps)
  have "sort_keys (JObj ?i) = JObj ?i" unfolding iobj by (rule sort_keys_twice)
  then show ?thesis using loads_bare [OF ip] by (simp add: parsed_object_def)
qed

lemma artifact_reg:
  assumes "map_of (dr_files d) name = Some (reg E (JObj v))" and "length (file_text E (JObj v)) \<le> 4096" and "plain (JObj v)" and "wf_json (JObj v)"
  shows "artifact_json E d name = Inr (obj_of (sort_keys (JObj v)))" and "stable_file_hash E d name = Inr (p_sha256 E (file_text E (JObj v)))"
proof -
  have "0 < length (file_text E (JObj v))" by (simp add: file_text_def)
  then have b: "stable_file_bytes E d name = Inr (file_text E (JObj v))"
    using assms(1,2) by (simp add: stable_file_bytes_def reg_def new_file_def private_file_def)
  have l: "loads E (delivery_error ''artifact_invalid'') (file_text E (JObj v)) = Inr (sort_keys (JObj v))"
    using loads_canonical [OF assms(3,4)] by (simp add: file_text_def)
  show "artifact_json E d name = Inr (obj_of (sort_keys (JObj v)))" by (simp add: artifact_json_def b l)
  show "stable_file_hash E d name = Inr (p_sha256 E (file_text E (JObj v)))" by (simp add: stable_file_hash_def b)
qed

lemma owner_artifact:
  assumes d: "adoptable E a i native status d" and x: "ad_owner_context x = Some (oa_owner_context_sha256 a)"
  shows "require_owner_binding E x (owner_bd a i) d = Inr ()"
proof -
  have bd: "plain (JObj (owner_binding a i))" "wf_json (JObj (owner_binding a i))" "no_const (JObj (owner_binding a i))" by (simp_all add: owner_binding_def)
  have a_bd: "artifact_json E d binding_file = Inr (obj_of (sort_keys (JObj (owner_binding a i))))"
    using artifact_reg(1) [OF _ _ bd(1,2)] d by (simp add: adoptable_def)
  have rec: "binding_record (oa_owner_context_sha256 a) (owner_bd a i) = owner_binding a i" by (simp add: binding_record_def owner_bd_def owner_binding_def)
  have obj: "JObj (obj_of (sort_keys (JObj (owner_binding a i)))) = sort_keys (JObj (owner_binding a i))" by simp
  have "py_eq (JObj (obj_of (sort_keys (JObj (owner_binding a i))))) (JObj (owner_binding a i))" unfolding obj using py_eq_sort_keys bd by blast
  then show ?thesis unfolding require_owner_binding_def x option.case a_bd rec by simp
qed

text \<open>A batch with an event whose revision is beyond the limit is not adopted.\<close>

lemma big_not_adopted:
  assumes proj: "project_events E task_id events = Inr (native, source)" and sha: "sha256_law E"
    and revs: "\<not> list_all (\<lambda>row. int_of (dget (obj_of row) ''event_revision'') \<le> 1000000) events"
    and epoch: "0 < oa_controller_epoch a" and i: "id_string i"
    and d: "adoptable E a i native status d" and ctx: "ad_owner_context ad = Some (oa_owner_context_sha256 a)" and path: "is_absolute path"
  shows "attach_external_claim E (owner_bd a i) path (Some d) token ad = (Inl (delivery_error ''event_identity''), ad)"
proof -
  have ok: "native_ok native" using projected_ok [OF proj] by blast
  have fi: "plain (JObj (final_intent E a i native))" "wf_json (JObj (final_intent E a i native))" using wf_blank [OF ok] by (simp_all add: final_intent_def)
  have a_in: "artifact_json E d intent_file = Inr (obj_of (sort_keys (JObj (final_intent E a i native))))"
    using artifact_reg(1) [OF _ _ fi] d by (simp add: adoptable_def)
  note val = validate_intent_events [OF ok sha epoch i, unfolded projected_big_events [OF proj sha revs] andThen_simps]
  show ?thesis
    unfolding attach_external_claim_def Let_def option.case owner_artifact [OF d ctx] a_in val andThen_simps
    using path by simp
qed

lemma adopts:
  assumes proj: "project_events E task_id events = Inr (native, source)" and sha: "sha256_law E"
    and revs: "list_all (\<lambda>row. int_of (dget (obj_of row) ''event_revision'') \<le> 1000000) events"
    and epoch: "0 < oa_controller_epoch a" and i: "id_string i"
    and d: "adoptable E a i native status d" and ctx: "ad_owner_context ad = Some (oa_owner_context_sha256 a)" and path: "is_absolute path"
    and st: "flat (JObj status)" "dget status ''state'' = JStr ''sending''" "dget status ''transport_status'' = JStr ''ready''"
      "dget status ''delivery_id'' = JStr i" "dget status ''controller_thread'' = JStr (oa_controller_thread_id a)"
      "dget status ''controller_epoch'' = JInt (oa_controller_epoch a)" "dget status ''revision'' = JInt 1"
    and rid: "0 < rid" and new: "i \<notin> set (ad_sent ad)"
  shows "\<exists>c ad' ad''. attach_external_claim E (owner_bd a i) path (Some d) token ad = (Inr c, ad')
    \<and> send_request E G (JInt rid) (JBool w) c ad' d = (Inr (obj_of (sort_keys (JObj (bt_envelope (prepared_batch E a task_id i native source))))), ad'', d)"
proof -
  have ok: "native_ok native" using projected_ok [OF proj] by blast
  let ?i = "obj_of (sort_keys (JObj (final_intent E a i native)))" and ?env = "native_envelope E (obj_of (sort_keys (JObj (final_intent E a i native))))"
  let ?wire = "obj_of (sort_keys (JObj ?env))"
  have fi: "plain (JObj (final_intent E a i native))" "wf_json (JObj (final_intent E a i native))" using wf_blank [OF ok] by (simp_all add: final_intent_def)
  have cl: "plain (JObj (batch_claim E a i x))" "wf_json (JObj (batch_claim E a i x))" for x by (simp_all add: batch_claim_def)
  have bd: "plain (JObj (owner_binding a i))" "wf_json (JObj (owner_binding a i))" "no_const (JObj (owner_binding a i))" by (simp_all add: owner_binding_def)
  have stp: "plain (JObj status)" "wf_json (JObj status)" using flat_plain [OF st(1)] by blast+
  from d have small: "length (file_text E (JObj (owner_binding a i))) \<le> 4096" "length (file_text E (JObj (final_intent E a i native))) \<le> 4096"
      "length (file_text E (JObj (batch_claim E a i (final_intent E a i native)))) \<le> 4096" "length (file_text E (JObj status)) \<le> 4096"
    and files: "map_of (dr_files d) binding_file = Some (reg E (JObj (owner_binding a i)))"
      "map_of (dr_files d) intent_file = Some (reg E (JObj (final_intent E a i native)))"
      "map_of (dr_files d) claim_file = Some (reg E (JObj (batch_claim E a i (final_intent E a i native))))"
      "map_of (dr_files d) status_file = Some (reg E (JObj status))"
    by (simp_all add: adoptable_def)
  note a_bd = artifact_reg(1) [OF files(1) small(1) bd(1,2)] and a_in = artifact_reg(1) [OF files(2) small(2) fi]
    and a_cl = artifact_reg [OF files(3) small(3) cl] and a_st = artifact_reg(1) [OF files(4) small(4) stp]
  note own = owner_artifact [OF d]
  note val = validate_stored_intent [OF proj sha revs epoch i]
  have nat: "native_envelope_from_go_intent E ?i (owner_bd a i) False = Inr ?env" unfolding native_envelope_from_go_intent_def val by simp
  have dg_c: "dget (obj_of (sort_keys (JObj (batch_claim E a i x)))) k = sort_keys (dget (batch_claim E a i x) k)" for k x by (rule dget_sort_keys [OF cl(2)])
  have iid: "dget ?i ''delivery_id'' = JStr i" unfolding dget_sort_keys [OF fi(2)] by (simp add: final_intent_def blank_intent_def)
  have can: "canonical E (JObj ?i) = canonical E (JObj (final_intent E a i native))"
  proof -
    have "JObj ?i = sort_keys (JObj (final_intent E a i native))" by simp
    then show ?thesis by (simp only: canonical_sort_keys)
  qed
  have claim: "check_claim E (obj_of (sort_keys (JObj (batch_claim E a i (final_intent E a i native))))) ?i (owner_bd a i) = Inr ()"
    unfolding check_claim_def dg_c iid can by (simp add: batch_claim_def owner_bd_def)
  have envp: "plain (JObj ?env)" "wf_json (JObj ?env)"
    unfolding native_envelope_fields [OF ok] using ok flat_plain by (auto simp: Let_def native_ok_def list_all_iff)
  have parsed: "parsed_object E (canonical E (JObj ?env)) = Inr (obj_of (sort_keys (JObj ?env)))"
    using loads_bare [OF envp] by (simp add: parsed_object_def)
  have eid: "dreq (obj_of (sort_keys (JObj ?env))) ''delivery_id'' = Inr (JStr i)"
    using map_of_sorted_wf [OF envp(2), of "''delivery_id''"] unfolding native_envelope_fields [OF ok] by (simp add: Let_def del: sort_keys.simps(2))
  define c where "c = make_capability E (owner_bd a i) path ?i ?env (p_sha256 E (file_text E (JObj (batch_claim E a i (final_intent E a i native))))) token False True"
  have cs: "ca_go_intent_bytes c = canonical E (JObj ?i)" "ca_external_claim c" "ca_binding c = owner_bd a i" "ca_native_envelope_bytes c = canonical E (JObj ?env)"
    "ca_claim_sha256 c = p_sha256 E (file_text E (JObj (batch_claim E a i (final_intent E a i native))))" "ca_id c = token" "\<not> ca_send_disabled c"
    by (simp_all add: c_def make_capability_def Let_def)
  have dg_s: "dget (obj_of (sort_keys (JObj status))) k = dget status k" for k by (rule dget_flat_sorted [OF st(1)])
  have ctx': "ad_owner_context (adopt c ad) = Some (oa_owner_context_sha256 a)" using ctx by (simp add: adopt_def)
  have status: "external_status E (adopt c ad) c False d = Inr (obj_of (sort_keys (JObj status)))"
    unfolding external_status_def cs own [OF ctx'] a_st andThen_simps dg_s st parsed eid a_cl(2)
    by (simp add: in_str_set_def external_states_def expected_transport_def owner_bd_def)
  have "attach_external_claim E (owner_bd a i) path (Some d) token ad = (Inr c, adopt c ad)"
    unfolding attach_external_claim_def Let_def option.case own [OF ctx] a_in val a_cl claim nat andThen_simps
    using path by (simp add: c_def [symmetric] status del: sort_keys.simps)
  moreover have "send_request E G (JInt rid) (JBool w) c (adopt c ad) d = (Inr ?wire, (adopt c ad)\<lparr>ad_sent := i # ad_sent ad\<rparr>, d)"
  proof -
    note gi = intent_parsed [OF ok, of a i]
    have wobj: "JObj ?wire = sort_keys (JObj ?env)" by simp
    have eq: "py_eq (JObj ?env) (JObj ?wire)" unfolding wobj by (rule py_eq_sorted [OF envp(2)]) (use plain_no_const envp(1) in blast)
    have keys: "keys_exact ?wire envelope_fields"
      using keys_exact_sorted [OF native_envelope_keys(1)] native_envelope_keys(2) by blast
    have wid: "dget ?wire ''delivery_id'' = JStr i" using eid by (simp add: dget_def)
    have c1: "send_checks E (JInt rid) (JBool w) c (adopt c ad) = Inr ?wire"
      unfolding send_checks_def cs parsed andThen_simps using rid keys by (simp add: adopt_def cs)
    have c2: "claim_current E G (adopt c ad) c ?wire d = (Inr (), d)"
      unfolding claim_current_def status andThen_simps using cs(2) by simp
    have c3: "unsent_check E c ?wire (adopt c ad) = Inr ()"
      unfolding unsent_check_def cs gi andThen_simps nat using eq wid new i by (simp add: bridge_safe_def)
    show ?thesis unfolding send_request_def c1 sum.case c2 prod.case c3 wid by simp
  qed
  ultimately show ?thesis by (simp add: prepared_batch_def)
qed

text \<open>The status of a batch that was just marked as sending.\<close>

lemma sent_batch_adoptable:
  assumes proj: "project_events E task_id events = Inr (native, source)" and att: "attachment_ok E a" and i: "i = batch_id E a task_id source"
    and new: "\<not> entry_exists s i" and prep: "prepare_unlocked E flt killed a task_id native source s = (Inr b, s1)"
    and mark: "mark_sending E flt' i s1 = (Inr b1, s2)"
    and small: "list_all (\<lambda>v. length (file_text E (JObj v)) \<le> 4096)
      [owner_binding a i, final_intent E a i native, batch_claim E a i (final_intent E a i native),
       updated_status (obj_of (sort_keys (JObj (initial_status a i)))) ''sending'' [(''transport_status'', JStr ''ready'')]]"
  shows "\<exists>d. map_of s2 i = Some (EDir d)
    \<and> adoptable E a i native (updated_status (obj_of (sort_keys (JObj (initial_status a i)))) ''sending'' [(''transport_status'', JStr ''ready'')]) d
    \<and> bt_envelope b1 = bt_envelope (prepared_batch E a task_id i native source) \<and> bt_status b1 = ''sending''"
proof -
  let ?cur = "obj_of (sort_keys (JObj (initial_status a i)))" and ?x = "[(''transport_status'', JStr ''ready'')]"
  let ?d = "batch_dir E a task_id i (final_intent E a i native) source"
  have intent: "batch_intent E a i native = Inr (final_intent E a i native)" using projected_ok [OF proj] by (simp add: batch_intent_ok)
  from new prep i obtain u v where st: "stage_batch E flt killed a task_id i native source s = (Inr v, s1)" and ld: "load_unlocked E i s1 = Inr b"
    by (auto simp: prepare_unlocked_def Let_def split: sum.splits prod.splits)
  have d: "map_of s1 i = Some (EDir ?d)" using stage_batch_cases [OF st intent] by auto
  have name: "delivery_name i" and ldd: "load_dir E i ?d = Inr b" using ld d by (auto simp: load_unlocked_def)
  have b: "b = prepared_batch E a task_id i native source"
    using ldd load_batch_dir [of native source a task_id i] projected_ok [OF proj] att by (auto split: if_splits)
  have fl: "flat (JObj (initial_status a i))" by (simp add: flat_def initial_status_def)
  from mark ld d obtain cur r where cur: "stable_json E ?d status_file = Inr cur"
    and run: "run_ops E flt' (transition_ops E i (updated_status cur ''sending'' ?x)) s1 = (Inr r, s2)" and ld2: "load_unlocked E i s2 = Inr b1"
    by (auto simp: mark_sending_def transition_def replace_status_def split: sum.splits prod.splits if_splits)
  have "stable_json E ?d status_file = (if length (file_text E (JObj (initial_status a i))) \<le> max_json then Inr ?cur else Inl (bridge_error ''ledger_file''))"
    using stable_json_reg [OF files_batch_dir(5)] flat_plain [OF fl] by simp
  with cur have cur_eq: "cur = ?cur" by (simp del: sort_keys.simps split: if_splits)
  from run_transition [OF run d] cur_eq obtain d' where d': "map_of s2 = (map_of s1)(i \<mapsto> EDir d')" and pub: "published E (JObj (updated_status ?cur ''sending'' ?x)) ?d d'"
    by auto
  have flc: "flat (JObj ?cur)" using flat_sorted [OF fl] by simp
  have "load_dir E i d' = Inr b1" using ld2 d' name by (simp add: load_unlocked_def)
  moreover have "load_dir E i d' = (if length (file_text E (JObj (updated_status ?cur ''sending'' ?x))) \<le> max_json then Inr (moved ''sending'' ?x b) else Inl (bridge_error ''ledger_file''))"
    by (rule published_load [OF pub refl refl ldd cur [unfolded cur_eq] flc])
       (use extra_fields(1) in \<open>auto simp: known_states_def slot_blocking_def\<close>)
  ultimately have "b1 = moved ''sending'' ?x b" by (simp split: if_splits)
  then have env: "bt_envelope b1 = bt_envelope (prepared_batch E a task_id i native source)" "bt_status b1 = ''sending''" by (simp_all add: b moved_def)
  have bind: "map_of (dr_files ?d) binding_file = Some (reg E (JObj (owner_binding a i)))"
    by (simp add: batch_dir_def add_files_def stage_files_def ledger_file_defs)
  have ne: "binding_file \<noteq> status_stage E" "binding_file \<noteq> status_file" by (simp_all add: status_stage_def ledger_file_defs)
  have "adoptable E a i native (updated_status ?cur ''sending'' ?x) d'"
    unfolding adoptable_def using pub small bind ne files_batch_dir(2,3) [of E a task_id i "final_intent E a i native" source]
    by (auto simp: published_def status_stage_ne [symmetric] simp del: sort_keys.simps)
  with d' env show ?thesis by auto
qed

lemma sent_status_fields:
  fixes a :: owner_attachment and i :: string
  defines "st \<equiv> updated_status (obj_of (sort_keys (JObj (initial_status a i)))) ''sending'' [(''transport_status'', JStr ''ready'')]"
  shows "flat (JObj st)" "dget st ''state'' = JStr ''sending''" "dget st ''transport_status'' = JStr ''ready''" "dget st ''delivery_id'' = JStr i"
    "dget st ''controller_thread'' = JStr (oa_controller_thread_id a)" "dget st ''controller_epoch'' = JInt (oa_controller_epoch a)" "dget st ''revision'' = JInt 1"
proof -
  have fl: "flat (JObj (initial_status a i))" by (simp add: flat_def initial_status_def)
  have "flat (JObj (obj_of (sort_keys (JObj (initial_status a i)))))" using flat_sorted [OF fl] by simp
  then show "flat (JObj st)" unfolding st_def by (rule flat_updated) simp
  have x: "new_fields [(''transport_status'', JStr ''ready'')]" using extra_fields(1) by blast
  note g = dget_updated [OF x] dget_flat_sorted [OF fl]
  show "dget st ''state'' = JStr ''sending''" "dget st ''transport_status'' = JStr ''ready''" "dget st ''delivery_id'' = JStr i"
    "dget st ''controller_thread'' = JStr (oa_controller_thread_id a)" "dget st ''controller_epoch'' = JInt (oa_controller_epoch a)" "dget st ''revision'' = JInt 1"
    unfolding st_def g by (simp_all add: initial_status_def)
qed

end

lemma ledger_envelope_sent:
  assumes "json_codec E" and "sha256_law E" and "attachment_ok E a" and "project_events E task_id events = Inr (native, source)"
    and "list_all (\<lambda>row. int_of (dget (obj_of row) ''event_revision'') \<le> 1000000) events" and "0 < oa_controller_epoch a"
    and "i = batch_id E a task_id source" and "\<not> entry_exists s i"
    and "prepare_unlocked E flt killed a task_id native source s = (Inr b, s1)" and "mark_sending E flt' i s1 = (Inr b1, s2)"
    and "list_all (\<lambda>v. length (file_text E (JObj v)) \<le> 4096)
      [owner_binding a i, final_intent E a i native, batch_claim E a i (final_intent E a i native),
       updated_status (obj_of (sort_keys (JObj (initial_status a i)))) ''sending'' [(''transport_status'', JStr ''ready'')]]"
    and "ad_owner_context ad = Some (oa_owner_context_sha256 a)" and "is_absolute path" and "0 < rid" and "i \<notin> set (ad_sent ad)"
  shows "\<exists>d c ad' ad''. map_of s2 i = Some (EDir d) \<and> attach_external_claim E (owner_bd a i) path (Some d) token ad = (Inr c, ad')
    \<and> send_request E G (JInt rid) (JBool w) c ad' d = (Inr (obj_of (sort_keys (JObj (bt_envelope b1)))), ad'', d)"
proof -
  from json_codec.sent_batch_adoptable [OF assms(1,4,3,7-11)] obtain d where d: "map_of s2 i = Some (EDir d)"
    and ad: "adoptable E a i native (updated_status (obj_of (sort_keys (JObj (initial_status a i)))) ''sending'' [(''transport_status'', JStr ''ready'')]) d"
    and env: "bt_envelope b1 = bt_envelope (prepared_batch E a task_id i native source)" by blast
  have "id_string i" using batch_id_name [OF assms(2)] assms(7) by (simp add: delivery_name_def)
  from json_codec.adopts [OF assms(1,4,2,5,6) this ad assms(12,13) json_codec.sent_status_fields [OF assms(1)] assms(14,15), of token G w] d env
  show ?thesis by (metis (no_types, lifting))
qed

section \<open>Samples and composition\<close>

definition sample_adapter :: adapter where
  "sample_adapter = \<lparr>ad_go_binary = None, ad_owner_context = Some (replicate 64 CHR ''a''), ad_capabilities = [], ad_proofs = [], ad_sent = []\<rparr>"

definition sample_go :: go_host where
  "sample_go = \<lparr>gh_run = \<lambda>_ _ d. (os_error, d), gh_environ = []\<rparr>"

lemma sample_small:
  "list_all (\<lambda>v. length (file_text std_platform (JObj v)) \<le> 4096)
     [owner_binding sample_attachment sample_id, final_intent std_platform sample_attachment sample_id sample_native,
      batch_claim std_platform sample_attachment sample_id (final_intent std_platform sample_attachment sample_id sample_native),
      updated_status (obj_of (sort_keys (JObj (initial_status sample_attachment sample_id)))) ''sending'' [(''transport_status'', JStr ''ready'')]]"
  by code_simp

lemma sample_marked:
  "\<exists>s1 s2 b1. prepare_unlocked std_platform None False sample_attachment ''task'' sample_native sample_source [] = (Inr sample_batch, s1)
     \<and> mark_sending std_platform None sample_id s1 = (Inr b1, s2)"
proof -
  from sample_prepared obtain s1 where s1: "prepare_unlocked std_platform None False sample_attachment ''task'' sample_native sample_source [] = (Inr sample_batch, s1)" by blast
  then have "lg_store sample_ledger = s1" by (simp add: sample_ledger_def prepare_and_claim_def sample_project locked_fresh)
  moreover have "bt_turn sample_batch = JNull" by (simp add: prepared_batch_def)
  moreover note std.delivery_completes [OF sample_loads sample_thread(2) _ sample_calm sample_args(1,2,3,3)]
  ultimately show ?thesis using s1 by blast
qed

lemma sample_side: "list_all (\<lambda>row. int_of (dget (obj_of row) ''event_revision'') \<le> 1000000) [sample_row]" "0 < oa_controller_epoch sample_attachment"
  "\<not> entry_exists [] sample_id" "ad_owner_context sample_adapter = Some (oa_owner_context_sha256 sample_attachment)" "is_absolute ''/tmp/task''"
  "(0 :: int) < 1" "sample_id \<notin> set (ad_sent sample_adapter)"
  by (simp_all add: sample_row_def sample_attachment_def entry_exists_def sample_adapter_def is_absolute_def starts_with_def)

text \<open>A capability with the intent of the sample batch, and a proof of its one event.\<close>

definition sample_go_ok :: go_host where
  "sample_go_ok = \<lparr>gh_run = \<lambda>_ _ d. (Inr (0, ''{}'', []), d), gh_environ = []\<rparr>"

definition sample_ack_capability :: capability where
  "sample_ack_capability = make_capability std_platform (owner_bd sample_attachment sample_id) ''/tmp/task''
     (obj_of (sort_keys (JObj (final_intent std_platform sample_attachment sample_id sample_native)))) [] [] ''cap'' False True"

definition sample_eid :: string where
  "sample_eid = row_alias std_platform sample_row"

definition sample_proof :: history_proof where
  "sample_proof = \<lparr>hp_native_envelope_bytes = ''{}'', hp_summary_bytes = [], hp_matched_event_ids = [sample_eid], hp_id = ''proof'',
     hp_capability_id = ''cap'', hp_reads_sha256 = []\<rparr>"

definition sample_ack_adapter :: adapter where
  "sample_ack_adapter = sample_adapter\<lparr>ad_go_binary := Some ''/go'', ad_capabilities := [(''cap'', sample_ack_capability)],
     ad_proofs := [(''proof'', sample_proof)]\<rparr>"

abbreviation sample_ack_run :: "ack_outcome result \<times> string list list \<times> dir" where
  "sample_ack_run \<equiv> ack_confirmed std_platform sample_go_ok sample_ack_capability sample_proof [(sample_eid, JStr ''handled'')] [(sample_eid, JStr ''cmd'')] []
     sample_ack_adapter (new_dir std_platform)"

lemma one_ack:
  assumes "A \<and> B \<and> C \<and> (\<exists>intent checked new rest. P intent \<and> Q intent checked \<and> T checked new rest \<and> [x] = map f new \<and> V new
    \<and> (y = y \<longrightarrow> rest = [] \<and> length z = length new \<and> U checked))"
  shows "B" and "length z = 1"
  using assms by (auto simp: Cons_eq_map_conv)

theorem acks_only_proven_handled_events_witness:
  "\<exists>outcome command d'. sample_ack_run = (Inr outcome, [command], d') \<and> ao_pending outcome = [] \<and> length (ao_records outcome) = 1
    \<and> map_of (ad_proofs sample_ack_adapter) (hp_id sample_proof) = Some sample_proof"
proof -
  let ?intent = "obj_of (sort_keys (JObj (final_intent std_platform sample_attachment sample_id sample_native)))"
  let ?run = "ack_events std_platform sample_go_ok sample_ack_adapter sample_ack_capability [sample_eid] [(sample_eid, JStr ''handled'')]
    [(sample_eid, JStr ''cmd'')] [] (events_by_id ?intent) \<lparr>ao_records = [], ao_pending = [], ao_nonhandled = []\<rparr> [] (new_dir std_platform)"
  have cap: "ca_id sample_ack_capability = ''cap''" "ca_native_envelope_bytes sample_ack_capability = ''{}''"
    "ca_go_intent_bytes sample_ack_capability = canonical std_platform (JObj ?intent)" "ca_binding sample_ack_capability = owner_bd sample_attachment sample_id"
    "\<not> ca_send_disabled sample_ack_capability"
    unfolding sample_ack_capability_def make_capability_def Let_def by (simp_all add: canonical_def del: sort_keys.simps)
  have own: "map_of (ad_capabilities sample_ack_adapter) ''cap'' = Some sample_ack_capability" "map_of (ad_proofs sample_ack_adapter) (hp_id sample_proof) = Some sample_proof"
    "hp_capability_id sample_proof = ''cap''" "hp_native_envelope_bytes sample_proof = ''{}''" "hp_matched_event_ids sample_proof = [sample_eid]"
    by (simp_all add: sample_ack_adapter_def sample_proof_def)
  have ok: "native_ok sample_native" using projected_ok [OF sample_project] by blast
  have "id_string sample_id" using batch_id_name [OF sample_sha, of sample_attachment "''task''" sample_source] by (simp add: delivery_name_def)
  note val = validate_stored_intent [OF sample_project sample_sha sample_side(1,2) this]
  have none: "parsed_object std_platform ''{}'' = Inr []" "py_eq (JObj []) (JObj [])" by code_simp+
  have sd: "ca_send_disabled sample_ack_capability = False" using cap by simp
  define q where "q = ?run"
  have q_run: "sample_ack_run = q"
    unfolding q_def ack_confirmed_def cap(1-4) sd own none std.intent_parsed [OF ok] andThen_simps val
    by (simp only: none ensure_simps simp_thms val sum.case)
  have code: "(case fst q of Inl e \<Rightarrow> False | Inr v \<Rightarrow> ao_pending v = []) \<and> length (fst (snd q)) = 1" unfolding q_def by code_simp
  obtain r1 issued d' where parts: "q = (r1, issued, d')" by (cases q)
  with code obtain outcome command where "r1 = Inr outcome" and pend: "ao_pending outcome = []" and "issued = [command]"
    by (cases r1; cases issued) auto
  with parts have q: "q = (Inr outcome, [command], d')" by simp
  note run = q_run [unfolded q]
  have "[command] \<noteq> [] \<or> Inr outcome = (Inr outcome :: ack_outcome result)" by simp
  from one_ack [OF acks_only_proven_handled_events [OF run this]] run pend show ?thesis by (intro exI conjI) simp_all
qed

text \<open>
  C7. The ledger and the adapter fit together up to one limit: take a batch that the ledger newly prepared
  and marked as sending, for an owner of positive epoch, with each of its files within the adapter's limit
  of 4096 bytes, and an adapter of this owner that has not sent it. If no event of the batch has a revision
  above 1000000 the adapter adopts it, and what it then hands to the connection is exactly the envelope that
  the ledger keeps for it. If one has, which the ledger does not object to, the adapter refuses it for its
  event identity and stays as it was, with the batch already marked as sending.\<close>

theorem adapter_sends_ledger_envelope:
  assumes "json_codec E" and "sha256_law E" and "attachment_ok E a" and "project_events E task_id events = Inr (native, source)"
    and "0 < oa_controller_epoch a" and "i = batch_id E a task_id source" and "\<not> entry_exists s i"
    and "prepare_unlocked E flt killed a task_id native source s = (Inr b, s1)" and "mark_sending E flt' i s1 = (Inr b1, s2)"
    and "list_all (\<lambda>v. length (file_text E (JObj v)) \<le> 4096)
      [owner_binding a i, final_intent E a i native, batch_claim E a i (final_intent E a i native),
       updated_status (obj_of (sort_keys (JObj (initial_status a i)))) ''sending'' [(''transport_status'', JStr ''ready'')]]"
    and "ad_owner_context ad = Some (oa_owner_context_sha256 a)" and "is_absolute path" and "0 < rid" and "i \<notin> set (ad_sent ad)"
  shows "\<exists>d. map_of s2 i = Some (EDir d) \<and> bt_status b1 = ''sending''
    \<and> (if list_all (\<lambda>row. int_of (dget (obj_of row) ''event_revision'') \<le> 1000000) events
       then \<exists>c ad' ad''. attach_external_claim E (owner_bd a i) path (Some d) token ad = (Inr c, ad')
         \<and> send_request E G (JInt rid) (JBool w) c ad' d = (Inr (obj_of (sort_keys (JObj (bt_envelope b1)))), ad'', d)
       else attach_external_claim E (owner_bd a i) path (Some d) token ad = (Inl (delivery_error ''event_identity''), ad))"
proof (cases "list_all (\<lambda>row. int_of (dget (obj_of row) ''event_revision'') \<le> 1000000) events")
  case True
  from ledger_envelope_sent [OF assms(1-4) True assms(5-14), of token G w] obtain d c ad' ad'' where d: "map_of s2 i = Some (EDir d)"
    and c: "attach_external_claim E (owner_bd a i) path (Some d) token ad = (Inr c, ad')"
      "send_request E G (JInt rid) (JBool w) c ad' d = (Inr (obj_of (sort_keys (JObj (bt_envelope b1)))), ad'', d)" by blast
  have "bt_status b1 = ''sending''" using json_codec.sent_batch_adoptable [OF assms(1,4,3,6-10)] by blast
  with d c show ?thesis unfolding if_P [OF True] by blast
next
  case False
  from json_codec.sent_batch_adoptable [OF assms(1,4,3,6-10)] obtain d where d: "map_of s2 i = Some (EDir d)" "bt_status b1 = ''sending''"
    and ad: "adoptable E a i native (updated_status (obj_of (sort_keys (JObj (initial_status a i)))) ''sending'' [(''transport_status'', JStr ''ready'')]) d" by blast
  have "id_string i" using batch_id_name [OF assms(2)] assms(6) by (simp add: delivery_name_def)
  from json_codec.big_not_adopted [OF assms(1,4,2) False assms(5) this ad assms(11,12)] d show ?thesis unfolding if_not_P [OF False] by blast
qed

theorem adapter_sends_ledger_envelope_witness:
  "\<exists>s2 (b1 :: delivery_batch) d c ad' ad''. map_of s2 sample_id = Some (EDir d)
     \<and> attach_external_claim std_platform (owner_bd sample_attachment sample_id) ''/tmp/task'' (Some d) ''cap'' sample_adapter = (Inr c, ad')
     \<and> send_request std_platform sample_go (JInt 1) (JBool True) c ad' d = (Inr (obj_of (sort_keys (JObj (bt_envelope b1)))), ad'', d)"
proof -
  from sample_marked obtain s1 s2 b1
    where p: "prepare_unlocked std_platform None False sample_attachment ''task'' sample_native sample_source [] = (Inr sample_batch, s1)"
      and m: "mark_sending std_platform None sample_id s1 = (Inr b1, s2)" by blast
  from adapter_sends_ledger_envelope [OF std.json_codec_axioms sample_sha sample_attachment_ok sample_project sample_side(2) refl sample_side(3) p m
      sample_small sample_side(4-7), unfolded if_P [OF sample_side(1)], of "''cap''" sample_go True]
  obtain d c ad' ad'' where "map_of s2 sample_id = Some (EDir d)"
    "attach_external_claim std_platform (owner_bd sample_attachment sample_id) ''/tmp/task'' (Some d) ''cap'' sample_adapter = (Inr c, ad')"
    "send_request std_platform sample_go (JInt 1) (JBool True) c ad' d = (Inr (obj_of (sort_keys (JObj (bt_envelope b1)))), ad'', d)" by blast
  then show ?thesis by (intro exI conjI)
qed

text \<open>
  C5. A delivery is sent at most once by an adapter: whatever claims it attaches or reconciles and
  however its sends end (an answer, a rejection, a lost connection, an endless wait), no two of the
  envelopes that it handed to a connection have the same delivery identifier.\<close>

theorem delivery_sent_at_most_once:
  assumes "adapter_life E G ad ws"
  shows "distinct (map wire_id ws)"
  using life_sent [OF assms] by blast

theorem delivery_sent_at_most_once_witness:
  "\<exists>ad w. adapter_life std_platform sample_go ad [w] \<and> distinct (map wire_id [w])"
proof -
  from sample_marked obtain s1 s2 b1
    where p: "prepare_unlocked std_platform None False sample_attachment ''task'' sample_native sample_source [] = (Inr sample_batch, s1)"
      and m: "mark_sending std_platform None sample_id s1 = (Inr b1, s2)" by blast
  from ledger_envelope_sent [OF std.json_codec_axioms sample_sha sample_attachment_ok sample_project sample_side(1,2) refl sample_side(3) p m
      sample_small sample_side(4-7), of "''cap''" sample_go True]
  obtain d c ad' ad'' where at: "attach_external_claim std_platform (owner_bd sample_attachment sample_id) ''/tmp/task'' (Some d) ''cap'' sample_adapter = (Inr c, ad')"
    and rq: "send_request std_platform sample_go (JInt 1) (JBool True) c ad' d = (Inr (obj_of (sort_keys (JObj (bt_envelope b1)))), ad'', d)" by blast
  have start: "adapter_life std_platform sample_go sample_adapter []" by (rule adapter_life.created) (simp add: sample_adapter_def)
  have life: "adapter_life std_platform sample_go ad' []" by (rule adapter_life.attached [OF start at])
  have "send_tool_output_once std_platform sample_go (JInt 1) (JBool True) c (\<lambda>_. os_error) [] ad' d =
      (Some os_error, Some (obj_of (sort_keys (JObj (bt_envelope b1)))), ad'', d)" by (simp add: send_tool_output_once_def rq)
  from adapter_life.sent [OF life this] have "adapter_life std_platform sample_go ad'' [obj_of (sort_keys (JObj (bt_envelope b1)))]" by simp
  with delivery_sent_at_most_once [OF this] show ?thesis by blast
qed

end
