(* ===== verification/Utf8.thy ===== *)
theory Utf8
  imports Prelude
begin

text \<open>
  Which bytes \<open>bytes.decode("utf-8")\<close> accepts: the shortest encodings of the code points up to
  10FFFF without the surrogates. As a \<open>str\<close> is its UTF-8 bytes here, decoding accepted bytes is
  the identity.
\<close>

definition is_tail :: "char \<Rightarrow> bool" where
  "is_tail c = in_range CHR 0x80 CHR 0xBF c"

text \<open>The second byte, whose range depends on the first.\<close>

definition tail_after :: "char \<Rightarrow> char \<Rightarrow> bool" where
  "tail_after a b =
    (if a = CHR 0xE0 then in_range CHR 0xA0 CHR 0xBF b
     else if a = CHR 0xED then in_range CHR 0x80 CHR 0x9F b
     else if a = CHR 0xF0 then in_range CHR 0x90 CHR 0xBF b
     else if a = CHR 0xF4 then in_range CHR 0x80 CHR 0x8F b
     else is_tail b)"

text \<open>How many bytes follow a first byte.\<close>

definition tail_length :: "char \<Rightarrow> nat option" where
  "tail_length a =
    (if in_range CHR 0x00 CHR 0x7F a then Some 0
     else if in_range CHR 0xC2 CHR 0xDF a then Some 1
     else if in_range CHR 0xE0 CHR 0xEF a then Some 2
     else if in_range CHR 0xF0 CHR 0xF4 a then Some 3
     else None)"

fun utf8_valid :: "string \<Rightarrow> bool" where
  "utf8_valid [] = True"
| "utf8_valid (a # s) = (case tail_length a of
      None \<Rightarrow> False
    | Some n \<Rightarrow> n \<le> length s \<and> (0 < n \<longrightarrow> tail_after a (hd s)) \<and> list_all is_tail (take n s) \<and> utf8_valid (drop n s))"

lemma utf8_valid_ascii: "list_all (in_range CHR 0x00 CHR 0x7F) s \<Longrightarrow> utf8_valid s"
  by (induction s) (simp_all add: tail_length_def)

end
