(* ===== verification/AuthGuard.thy ===== *)
theory AuthGuard
  imports Bridge Utf8
begin

text \<open>
  The admission of an authentication source
  (\<open>plugins/codex-orchestrator/lib/trial/auth_guard.py\<close>): verified metadata is minted only from a
  trusted source, only such metadata yields the environment of a guarded child, and the login
  status of the native program is reduced to a category. What the source object does when it is
  asked, and which characters Unicode calls printable or space, are arguments.
\<close>

section \<open>Tables\<close>

definition expected_native_version :: string where
  "expected_native_version = ''0.154.0''"

definition expected_native_sha256 :: string where
  "expected_native_sha256 = ''4f85982624b3898c8991cb80c0981b2aa71070e3537046c9a95950318a95afcc''"

definition refresh_override_env :: string where
  "refresh_override_env = ''CODEX_REFRESH_TOKEN_URL_OVERRIDE''"

definition refresh_tripwire :: string where
  "refresh_tripwire = ''invalid://refresh-blocked''"

definition trusted_source_kinds :: "string list" where
  "trusted_source_kinds = [''fixed_native_internal_sdk'', ''fixed_native_login_status_and_internal_config'',
     ''g0_owner_attachment_and_internal_sdk'']"

definition supported_stores :: "(string \<times> string list) list" where
  "supported_stores =
    [(''managed_chatgpt'', [''file'', ''keyring'', ''auto'']),
     (''api_key'', [''file'', ''keyring'', ''auto'', ''environment''])]"

definition unsupported_auth_codes :: "(string \<times> string) list" where
  "unsupported_auth_codes =
    [(''unknown'', ''auth_kind_unknown''), (''workload_identity'', ''auth_kind_workload_identity''),
     (''command_external'', ''auth_kind_command_external''), (''external_chatgpt_tokens'', ''auth_kind_external_chatgpt_tokens'')]"

definition supported_bootstrap_auth_kinds :: "string list" where
  "supported_bootstrap_auth_kinds = [''none'', ''managed_chatgpt'', ''api_key'']"

definition unsupported_bootstrap_auth_codes :: "(string \<times> string) list" where
  "unsupported_bootstrap_auth_codes =
    [(''unknown'', ''bootstrap_auth_kind_unknown''), (''workload_identity'', ''bootstrap_auth_kind_workload_identity''),
     (''command_external'', ''bootstrap_auth_kind_command_external''),
     (''external_chatgpt_tokens'', ''bootstrap_auth_kind_external_chatgpt_tokens'')]"

definition guard_blocked :: "string \<Rightarrow> exn" where
  "guard_blocked code = Raised ''AuthGuardBlocked'' code"

section \<open>Verified metadata\<close>

text \<open>The attributes of an observation may hold anything until they are checked.\<close>

record metadata_observation =
  mo_native_version :: json
  mo_native_sha256 :: json
  mo_auth_kind :: json
  mo_bootstrap_auth_kind :: json
  mo_credential_store :: json
  mo_external_auth_configured :: json
  mo_use_agent_identity :: json
  mo_source_kind :: json
  mo_proof_sha256 :: json

record verified_metadata =
  vm_auth_kind :: string
  vm_bootstrap_auth_kind :: string
  vm_credential_store :: string
  vm_external_auth_configured :: bool
  vm_use_agent_identity :: bool
  vm_source_kind :: string
  vm_proof_sha256 :: string
  vm_sealed :: bool

definition make_metadata :: "bool \<Rightarrow> metadata_observation \<Rightarrow> verified_metadata result" where
  "make_metadata seal ob =
     ensure seal (guard_blocked ''metadata_not_verified'')
    (Inr \<lparr>vm_auth_kind = str_of (mo_auth_kind ob), vm_bootstrap_auth_kind = str_of (mo_bootstrap_auth_kind ob),
       vm_credential_store = str_of (mo_credential_store ob), vm_external_auth_configured = (mo_external_auth_configured ob = JBool True),
       vm_use_agent_identity = (mo_use_agent_identity ob = JBool True), vm_source_kind = str_of (mo_source_kind ob),
       vm_proof_sha256 = str_of (mo_proof_sha256 ob), vm_sealed = seal\<rparr>)"

text \<open>
  What a source object is: asking it for its reader raises, the reader is missing or no function, or
  the reader returns an observation, something else, or raises.
\<close>

datatype metadata_reading = Observed metadata_observation | OtherObject

datatype metadata_source = LookupFails | NoReader | Reader "metadata_reading result"

definition observed_strings :: "metadata_observation \<Rightarrow> json list" where
  "observed_strings ob = [mo_native_version ob, mo_native_sha256 ob, mo_auth_kind ob, mo_bootstrap_auth_kind ob,
     mo_credential_store ob, mo_source_kind ob, mo_proof_sha256 ob]"

definition check_observation :: "metadata_observation \<Rightarrow> unit result" where
  "check_observation ob =
     ensure (list_all is_str (observed_strings ob) \<and> list_all is_bool [mo_external_auth_configured ob, mo_use_agent_identity ob])
       (guard_blocked ''metadata_source_invalid'')
    (ensure (mo_native_version ob = JStr expected_native_version) (guard_blocked ''native_version_mismatch'')
    (ensure (mo_native_sha256 ob = JStr expected_native_sha256) (guard_blocked ''native_sha256_mismatch'')
    (ensure (str_of (mo_proof_sha256 ob) \<noteq> []) (guard_blocked ''metadata_proof_missing'')
    (ensure (hex_string 64 (str_of (mo_proof_sha256 ob))) (guard_blocked ''metadata_proof_invalid'')
    (ensure (str_of (mo_source_kind ob) \<in> set trusted_source_kinds) (guard_blocked ''metadata_source_untrusted'')
    (Inr ()))))))"

definition extract_safe_auth_metadata :: "metadata_source \<Rightarrow> verified_metadata result" where
  "extract_safe_auth_metadata source = (case source of
      LookupFails \<Rightarrow> Inl (guard_blocked ''metadata_source_failed'')
    | NoReader \<Rightarrow> Inl (guard_blocked ''metadata_source_unverified'')
    | Reader r \<Rightarrow>
        andThen (except_as r (guard_blocked ''metadata_source_failed'')) (\<lambda>reading. case reading of
          OtherObject \<Rightarrow> Inl (guard_blocked ''metadata_source_invalid'')
        | Observed ob \<Rightarrow> andThen (check_observation ob) (\<lambda>_. make_metadata True ob)))"

section \<open>The guarded environment\<close>

definition lookup_or :: "(string \<times> string) list \<Rightarrow> string \<Rightarrow> string \<Rightarrow> string" where
  "lookup_or d k v0 = (case map_of d k of None \<Rightarrow> v0 | Some v \<Rightarrow> v)"

text \<open>\<open>None\<close> stands for an argument that is no \<open>VerifiedAuthMetadata\<close>.\<close>

definition prepare_guarded_environment :: "(string \<times> string) list \<Rightarrow> verified_metadata option \<Rightarrow> (string \<times> string) list result" where
  "prepare_guarded_environment env metadata = (case metadata of
      None \<Rightarrow> Inl (guard_blocked ''metadata_not_verified'')
    | Some m \<Rightarrow>
        ensure (vm_sealed m) (guard_blocked ''metadata_not_verified'')
       (ensure (refresh_override_env \<notin> fst ` set env) (guard_blocked ''refresh_override_already_present'')
       (case map_of supported_stores (vm_auth_kind m) of
          None \<Rightarrow> Inl (guard_blocked (lookup_or unsupported_auth_codes (vm_auth_kind m) ''auth_kind_unknown''))
        | Some stores \<Rightarrow>
            ensure (vm_bootstrap_auth_kind m \<noteq> []) (guard_blocked ''bootstrap_auth_kind_missing'')
           (ensure (vm_bootstrap_auth_kind m \<in> set supported_bootstrap_auth_kinds)
              (guard_blocked (lookup_or unsupported_bootstrap_auth_codes (vm_bootstrap_auth_kind m) ''bootstrap_auth_kind_unknown''))
           (ensure (\<not> vm_external_auth_configured m) (guard_blocked ''external_auth_configured'')
           (ensure (\<not> (vm_auth_kind m = ''managed_chatgpt'' \<and> vm_bootstrap_auth_kind m \<noteq> ''managed_chatgpt''))
              (guard_blocked ''auth_path_inconsistent'')
           (ensure (\<not> vm_use_agent_identity m) (guard_blocked ''use_agent_identity_enabled'')
           (ensure (vm_credential_store m \<in> set stores) (guard_blocked ''credential_store_unsupported'')
           (Inr (dict_set refresh_override_env refresh_tripwire env))))))))))"

section \<open>The login status\<close>

record unicode_data =
  uc_printable :: "string \<Rightarrow> bool"
  uc_space :: "string \<Rightarrow> bool"

definition exact_status :: "(string \<times> string) list" where
  "exact_status =
    [(''Logged in using ChatGPT'', ''managed_chatgpt''),
     (''Logged in using workload identity'', ''workload_identity''),
     (''Logged in using access token'', ''agent_identity''),
     (''Logged in using personal access token'', ''personal_access_token''),
     (''Logged in using Amazon Bedrock API key'', ''bedrock_api_key''),
     (''Logged in using Amazon Bedrock AWS access keys'', ''bedrock_access_keys'')]"

definition api_key_prefix :: string where
  "api_key_prefix = ''Logged in using an API key - ''"

definition redacted_key :: "unicode_data \<Rightarrow> string \<Rightarrow> bool" where
  "redacted_key U redacted =
    (redacted = ''***''
     \<or> length (code_points redacted) = 16 \<and> take 3 (drop 8 (code_points redacted)) = [''*'', ''*'', ''*'']
       \<and> list_all (\<lambda>c. uc_printable U c \<and> \<not> uc_space U c) (code_points redacted))"

definition project_login_status :: "unicode_data \<Rightarrow> int \<Rightarrow> string \<Rightarrow> string" where
  "project_login_status U exit_code stderr =
    (if exit_code \<noteq> 0 then ''unknown''
     else if \<not> utf8_valid stderr then ''unknown''
     else if \<not> ends_with [CHR 0x0A] stderr \<or> length (filter (\<lambda>c. c = CHR 0x0A) stderr) \<noteq> 1 then ''unknown''
     else let line = butlast stderr in
       case map_of exact_status line of
         Some category \<Rightarrow> category
       | None \<Rightarrow>
           if starts_with api_key_prefix line \<and> redacted_key U (drop (length api_key_prefix) line) then ''api_key''
           else ''unknown'')"

section \<open>What is admitted\<close>

text \<open>The observations for which a guarded child may be started, written out.\<close>

definition admissible :: "metadata_observation \<Rightarrow> bool" where
  "admissible ob =
    (mo_native_version ob = JStr expected_native_version \<and> mo_native_sha256 ob = JStr expected_native_sha256
     \<and> mo_external_auth_configured ob = JBool False \<and> mo_use_agent_identity ob = JBool False
     \<and> (\<exists>proof source kind boot store.
          mo_proof_sha256 ob = JStr proof \<and> hex_string 64 proof
        \<and> mo_source_kind ob = JStr source \<and> source \<in> set trusted_source_kinds
        \<and> mo_auth_kind ob = JStr kind \<and> mo_bootstrap_auth_kind ob = JStr boot \<and> mo_credential_store ob = JStr store
        \<and> (kind = ''managed_chatgpt'' \<and> boot = ''managed_chatgpt'' \<and> store \<in> {''file'', ''keyring'', ''auto''}
           \<or> kind = ''api_key'' \<and> boot \<in> {''none'', ''managed_chatgpt'', ''api_key''}
              \<and> store \<in> {''file'', ''keyring'', ''auto'', ''environment''})))"

definition metadata_ok :: "verified_metadata \<Rightarrow> bool" where
  "metadata_ok m =
    (vm_sealed m \<and> \<not> vm_external_auth_configured m \<and> \<not> vm_use_agent_identity m
     \<and> (vm_auth_kind m = ''managed_chatgpt'' \<and> vm_bootstrap_auth_kind m = ''managed_chatgpt''
          \<and> vm_credential_store m \<in> {''file'', ''keyring'', ''auto''}
        \<or> vm_auth_kind m = ''api_key'' \<and> vm_bootstrap_auth_kind m \<in> {''none'', ''managed_chatgpt'', ''api_key''}
          \<and> vm_credential_store m \<in> {''file'', ''keyring'', ''auto'', ''environment''}))"

lemma dict_set_new: "k \<notin> fst ` set d \<Longrightarrow> dict_set k v d = d @ [(k, v)]"
  by (induction d) (auto simp: dict_set_def)

lemma prepare_iff:
  "prepare_guarded_environment env (Some m) = Inr child \<longleftrightarrow>
     metadata_ok m \<and> refresh_override_env \<notin> fst ` set env \<and> child = env @ [(refresh_override_env, refresh_tripwire)]"
proof -
  have stores: "map_of supported_stores k =
      (if k = ''managed_chatgpt'' then Some [''file'', ''keyring'', ''auto'']
       else if k = ''api_key'' then Some [''file'', ''keyring'', ''auto'', ''environment''] else None)" for k
    by (simp add: supported_stores_def)
  show ?thesis
    by (auto simp: prepare_guarded_environment_def stores metadata_ok_def supported_bootstrap_auth_kinds_def dict_set_new)
qed

lemma check_observation_iff:
  "check_observation ob = Inr u \<longleftrightarrow>
     (\<exists>kind boot store external agent source proof.
        ob = \<lparr>mo_native_version = JStr expected_native_version, mo_native_sha256 = JStr expected_native_sha256, mo_auth_kind = JStr kind,
          mo_bootstrap_auth_kind = JStr boot, mo_credential_store = JStr store, mo_external_auth_configured = JBool external,
          mo_use_agent_identity = JBool agent, mo_source_kind = JStr source, mo_proof_sha256 = JStr proof\<rparr>
        \<and> hex_string 64 proof \<and> source \<in> set trusted_source_kinds)"
  by (cases ob) (auto simp: check_observation_def observed_strings_def is_str_iff is_bool_iff hex_string_def)

lemma extract_iff:
  "extract_safe_auth_metadata source = Inr m \<longleftrightarrow>
     (\<exists>ob. source = Reader (Inr (Observed ob)) \<and> check_observation ob = Inr () \<and> make_metadata True ob = Inr m)"
  proof (cases source)
  case (Reader r)
  then show ?thesis
    by (cases r; cases "projr r") (auto simp: extract_safe_auth_metadata_def)
qed (simp_all add: extract_safe_auth_metadata_def)

text \<open>
  C34. A child environment is produced exactly for a source whose reader returned an observation of
  the pinned native program with a proof, a trusted kind of source, no external authentication, no
  agent identity and a supported combination of authentication, bootstrap and store, and for an
  environment without the override; it is that environment with the refresh address set to the
  tripwire and nothing else changed.\<close>

theorem guarded_environment_iff:
  "(\<exists>m. extract_safe_auth_metadata source = Inr m \<and> prepare_guarded_environment env (Some m) = Inr child)
   \<longleftrightarrow> (\<exists>ob. source = Reader (Inr (Observed ob)) \<and> admissible ob) \<and> refresh_override_env \<notin> fst ` set env
     \<and> child = env @ [(refresh_override_env, refresh_tripwire)]"
proof -
  have "check_observation ob = Inr () \<and> make_metadata True ob = Inr m \<and> metadata_ok m \<longleftrightarrow>
      admissible ob \<and> make_metadata True ob = Inr m" for ob m
    by (cases ob) (auto simp: check_observation_iff admissible_def make_metadata_def metadata_ok_def)
  moreover have "\<exists>m. make_metadata True ob = Inr m" for ob by (simp add: make_metadata_def)
  ultimately show ?thesis unfolding extract_iff prepare_iff by blast
qed

definition login_categories :: "string list" where
  "login_categories = [''unknown'', ''managed_chatgpt'', ''workload_identity'', ''agent_identity'', ''personal_access_token'',
     ''bedrock_api_key'', ''bedrock_access_keys'', ''api_key'']"

lemma map_of_exact_status: "map_of exact_status line = Some category \<Longrightarrow> category \<in> set login_categories"
  by (drule map_of_SomeD) (auto simp: exact_status_def login_categories_def)

text \<open>
  Whatever the native program prints, its login status is one of eight fixed categories, so
  nothing of the output leaks; the category of a managed login is reported only for a
  successful exit with exactly the one expected line.\<close>

theorem login_status_is_category:
  "project_login_status U exit_code stderr \<in> set login_categories
   \<and> (project_login_status U exit_code stderr = ''managed_chatgpt''
      \<longleftrightarrow> exit_code = 0 \<and> stderr = ''Logged in using ChatGPT'' @ [CHR 0x0A])"
proof
  show "project_login_status U exit_code stderr \<in> set login_categories"
    by (auto simp: project_login_status_def Let_def login_categories_def dest!: map_of_exact_status split: option.split)
  have line: "map_of exact_status line = Some ''managed_chatgpt'' \<longleftrightarrow> line = ''Logged in using ChatGPT''" for line
    by (simp add: exact_status_def)
  let ?ok = "''Logged in using ChatGPT'' @ [CHR 0x0A]"
  show "project_login_status U exit_code stderr = ''managed_chatgpt'' \<longleftrightarrow> exit_code = 0 \<and> stderr = ?ok"
  proof
    assume out: "project_login_status U exit_code stderr = ''managed_chatgpt''"
    then have "exit_code = 0" and nl: "ends_with [CHR 0x0A] stderr" and m: "map_of exact_status (butlast stderr) = Some ''managed_chatgpt''"
      by (auto simp: project_login_status_def Let_def split: if_splits option.splits)
    moreover from nl have "stderr = butlast stderr @ [CHR 0x0A]"
      by (cases stderr rule: rev_cases) (auto simp: ends_with_def starts_with_def)
    ultimately show "exit_code = 0 \<and> stderr = ?ok" using line by simp
  next
    assume a: "exit_code = 0 \<and> stderr = ?ok"
    have "utf8_valid ?ok" by (intro utf8_valid_ascii) (simp add: in_range_def)
    moreover have "map_of exact_status ''Logged in using ChatGPT'' = Some ''managed_chatgpt''" using line by blast
    ultimately show "project_login_status U exit_code stderr = ''managed_chatgpt''"
      using a by (simp add: project_login_status_def Let_def ends_with_def starts_with_def del: utf8_valid.simps)
  qed
qed

end
