(* ===== verification/Relay.thy ===== *)
theory Relay
  imports JsonText
begin

text \<open>
  The relay between a frontend and its private backend (\<open>runtime/native/proxy_transport.py\<close>). Gates and
  the capture sink of the activation service are ordinary functions, so a turn of a pump runs from the
  chunk that was read to the write without giving up control; the awaits of the code (reading,
  draining, starting the backend, waiting for the pumps) are the points between the steps below.

  A gate answers with bytes or raises; its state is \<open>'g\<close>. The sink answers or raises; its state is \<open>'s\<close>.
  What the sockets deliver and who their peers are is an argument of the step.
\<close>

section \<open>Peers and events\<close>

record peer =
  pe_pid :: "int option"
  pe_uid :: "int option"
  pe_birth :: "string option"
  pe_executable :: "string option"
  pe_source :: string

definition peer_complete :: "peer \<Rightarrow> bool" where
  "peer_complete p = (pe_pid p \<noteq> None \<and> pe_uid p \<noteq> None \<and> pe_birth p \<noteq> None \<and> pe_executable p \<noteq> None)"

datatype direction = ToBackend | ToFrontend

definition direction_name :: "direction \<Rightarrow> string" where
  "direction_name d = (case d of ToBackend \<Rightarrow> ''frontend_to_backend'' | ToFrontend \<Rightarrow> ''backend_to_frontend'')"

datatype capture_event =
    ConnectionEvent int string int int int peer peer
  | DataEvent int string int direction int string
  | LifecycleEvent int string int string "direction option" "int option"
  | GapEvent int string int string bool

type_synonym 's capture = "capture_event \<Rightarrow> 's \<Rightarrow> unit result \<times> 's"

section \<open>The state\<close>

text \<open>A pump waits for data, has returned, or has ended with an exception.\<close>

datatype pump = Pumping | Returned | Failed exn

text \<open>What \<open>wire_gate_factory\<close> returned: the shared state of the gates, and which directions have one.\<close>

record 'g gates =
  gt_state :: 'g
  gt_front :: bool
  gt_back :: bool

record 'g link =
  ln_epoch :: int
  ln_gates :: "'g gates option"
  ln_initial :: string
  ln_seq_front :: int
  ln_seq_back :: int
  ln_to_backend :: string
  ln_to_frontend :: string
  ln_eof_backend :: bool
  ln_eof_frontend :: bool
  ln_front :: pump
  ln_back :: pump

record ('g, 's) relay =
  rl_waiting :: nat
  rl_closing :: nat
  rl_links :: "(string \<times> 'g link) list"
  rl_observation :: int
  rl_epoch :: int
  rl_failed :: bool
  rl_probes :: nat
  rl_sink :: 's

record ('g, 's) relay_env =
  re_stop :: bool
  re_wait :: bool
  re_authorize :: "(peer \<Rightarrow> bool result) option"
  re_max :: nat
  re_factory :: "peer \<Rightarrow> peer \<Rightarrow> string \<Rightarrow> int \<Rightarrow> 'g gates option result"
  re_gate :: "direction \<Rightarrow> string \<Rightarrow> 'g \<Rightarrow> string result \<times> 'g"
  re_capture :: "'s capture"

definition new_relay :: "'s \<Rightarrow> ('g, 's) relay" where
  "new_relay sk = \<lparr>rl_waiting = 0, rl_closing = 0, rl_links = [], rl_observation = 0, rl_epoch = 0, rl_failed = False, rl_probes = 0, rl_sink = sk\<rparr>"

text \<open>The fields of a link by direction.\<close>

definition link_seq :: "direction \<Rightarrow> 'g link \<Rightarrow> int" where
  "link_seq d l = (case d of ToBackend \<Rightarrow> ln_seq_front l | ToFrontend \<Rightarrow> ln_seq_back l)"

definition count_event :: "direction \<Rightarrow> 'g link \<Rightarrow> 'g link" where
  "count_event d l = (case d of ToBackend \<Rightarrow> l\<lparr>ln_seq_front := ln_seq_front l + 1\<rparr> | ToFrontend \<Rightarrow> l\<lparr>ln_seq_back := ln_seq_back l + 1\<rparr>)"

definition link_pump :: "direction \<Rightarrow> 'g link \<Rightarrow> pump" where
  "link_pump d l = (case d of ToBackend \<Rightarrow> ln_front l | ToFrontend \<Rightarrow> ln_back l)"

definition set_pump :: "direction \<Rightarrow> pump \<Rightarrow> 'g link \<Rightarrow> 'g link" where
  "set_pump d p l = (case d of ToBackend \<Rightarrow> l\<lparr>ln_front := p\<rparr> | ToFrontend \<Rightarrow> l\<lparr>ln_back := p\<rparr>)"

definition link_written :: "direction \<Rightarrow> 'g link \<Rightarrow> string" where
  "link_written d l = (case d of ToBackend \<Rightarrow> ln_to_backend l | ToFrontend \<Rightarrow> ln_to_frontend l)"

definition write_link :: "direction \<Rightarrow> string \<Rightarrow> 'g link \<Rightarrow> 'g link" where
  "write_link d bytes l = (case d of ToBackend \<Rightarrow> l\<lparr>ln_to_backend := ln_to_backend l @ bytes\<rparr>
     | ToFrontend \<Rightarrow> l\<lparr>ln_to_frontend := ln_to_frontend l @ bytes\<rparr>)"

definition write_eof :: "direction \<Rightarrow> 'g link \<Rightarrow> 'g link" where
  "write_eof d l = (case d of ToBackend \<Rightarrow> l\<lparr>ln_eof_backend := True\<rparr> | ToFrontend \<Rightarrow> l\<lparr>ln_eof_frontend := True\<rparr>)"

definition put_link :: "string \<Rightarrow> 'g link \<Rightarrow> ('g, 's) relay \<Rightarrow> ('g, 's) relay" where
  "put_link i l s = s\<lparr>rl_links := dict_set i l (rl_links s)\<rparr>"

section \<open>Observations\<close>

definition capture_failure :: exn where
  "capture_failure = Raised ''_CaptureFailure'' []"

definition next_seq :: "('g, 's) relay \<Rightarrow> int \<times> ('g, 's) relay" where
  "next_seq s = (rl_observation s + 1, s\<lparr>rl_observation := rl_observation s + 1\<rparr>)"

text \<open>
  \<open>_emit\<close>; the sequence number is taken when the event is made, before the call. A callback that raises
  invalidates the capture for good and the sink is told of the gap.
\<close>

definition emit_event :: "('g, 's) relay_env \<Rightarrow> (int \<Rightarrow> capture_event) \<Rightarrow> string \<Rightarrow> int \<Rightarrow> ('g, 's) relay \<Rightarrow> unit result \<times> ('g, 's) relay" where
  "emit_event R event i epoch s0 =
    (case next_seq s0 of (seq, s) \<Rightarrow>
       if rl_failed s then (Inl capture_failure, s)
       else case re_capture R (event seq) (rl_sink s) of
           (Inr _, sk) \<Rightarrow> (Inr (), s\<lparr>rl_sink := sk\<rparr>)
         | (Inl _, sk) \<Rightarrow>
             (case next_seq (s\<lparr>rl_failed := True, rl_sink := sk\<rparr>) of (seq', s') \<Rightarrow>
                (Inl capture_failure, s'\<lparr>rl_sink := snd (re_capture R (GapEvent seq' i epoch ''capture_callback_failed'' True) sk)\<rparr>)))"

section \<open>Connections\<close>

text \<open>
  The tasks of \<open>_accept_tasks\<close>: handlers before their connection exists, those with one, and those that
  only close their sockets.
\<close>

definition active_frontends :: "('g, 's) relay \<Rightarrow> nat" where
  "active_frontends s = rl_waiting s + length (rl_links s) + rl_closing s"

text \<open>\<open>_accept\<close>: a connection beyond the limit is closed at once.\<close>

definition accept :: "('g, 's) relay_env \<Rightarrow> ('g, 's) relay \<Rightarrow> ('g, 's) relay" where
  "accept R s = (if re_max R \<le> active_frontends s then s else s\<lparr>rl_waiting := rl_waiting s + 1\<rparr>)"

text \<open>A handler that ends before its connection exists goes on to close its sockets; a probe has sent nothing.\<close>

definition leave :: "bool \<Rightarrow> ('g, 's) relay \<Rightarrow> ('g, 's) relay" where
  "leave probe s = s\<lparr>rl_waiting := rl_waiting s - 1, rl_closing := rl_closing s + 1,
     rl_probes := (if probe then rl_probes s + 1 else rl_probes s)\<rparr>"

text \<open>The sockets are closed and the task is over.\<close>

definition closed_client :: "('g, 's) relay \<Rightarrow> ('g, 's) relay" where
  "closed_client s = s\<lparr>rl_closing := rl_closing s - 1\<rparr>"

text \<open>What the handler turns into a gap, with the subclasses its callees raise; anything else ends its task.\<close>

definition isolation_errors :: "string list" where
  "isolation_errors = [''OSError'', ''ConnectionError'', ''TimeoutError'', ''ValueError'', ''TypeError'', ''JSONDecodeError'',
     ''UnicodeDecodeError'', ''OwnerHelperAdmissionError'']"

definition gap_left :: "('g, 's) relay_env \<Rightarrow> exn \<Rightarrow> string \<Rightarrow> int \<Rightarrow> ('g, 's) relay \<Rightarrow> ('g, 's) relay" where
  "gap_left R e i epoch s =
    (if exn_class e \<in> set isolation_errors
     then snd (emit_event R (\<lambda>seq. GapEvent seq i epoch ''isolated_backend_or_relay_failed'' False) i epoch s)
     else s)"

definition connection_name :: "int \<Rightarrow> string \<Rightarrow> string" where
  "connection_name epoch nonce = ''conn-'' @ show_int epoch @ ''-'' @ nonce"

definition new_link :: "int \<Rightarrow> 'g gates option \<Rightarrow> string \<Rightarrow> 'g link" where
  "new_link epoch gates first = \<lparr>ln_epoch = epoch, ln_gates = gates, ln_initial = first, ln_seq_front = 0, ln_seq_back = 0, ln_to_backend = [],
     ln_to_frontend = [], ln_eof_backend = False, ln_eof_frontend = False, ln_front = Pumping, ln_back = Pumping\<rparr>"

text \<open>
  \<open>_handle_client\<close> from the moment both peers are admitted to the start of the pumps. A failing
  capture ends the handler silently, a failing factory with a gap.
\<close>

definition connect_client :: "('g, 's) relay_env \<Rightarrow> int \<Rightarrow> int \<Rightarrow> peer \<Rightarrow> peer \<Rightarrow> string \<Rightarrow> string \<Rightarrow> ('g, 's) relay \<Rightarrow> ('g, 's) relay" where
  "connect_client R ffd bfd fpeer bpeer nonce first s0 =
    (let epoch = rl_epoch s0 + 1; i = connection_name epoch nonce; s = s0\<lparr>rl_epoch := epoch\<rparr> in
     case emit_event R (\<lambda>seq. ConnectionEvent seq i epoch ffd bfd fpeer bpeer) i epoch s of
       (Inl _, s1) \<Rightarrow> leave False s1
     | (Inr _, s1) \<Rightarrow> (case re_factory R fpeer bpeer i epoch of
           Inl e \<Rightarrow> leave False (gap_left R e i epoch s1)
         | Inr gates \<Rightarrow> put_link i (new_link epoch gates first) (s1\<lparr>rl_waiting := rl_waiting s1 - 1\<rparr>)))"

text \<open>A start that fails leaves a gap of no connection.\<close>

definition start_failed :: "('g, 's) relay_env \<Rightarrow> exn \<Rightarrow> ('g, 's) relay \<Rightarrow> ('g, 's) relay" where
  "start_failed R e s = leave False (gap_left R e ''pending'' 0 s)"

definition is_authorized :: "(peer \<Rightarrow> bool result) option \<Rightarrow> peer \<Rightarrow> bool result" where
  "is_authorized authorize p =
    (if \<not> peer_complete p then Inr False else case authorize of None \<Rightarrow> Inr False | Some f \<Rightarrow> f p)"

definition is_backend_authorized :: "(peer \<Rightarrow> bool result) option \<Rightarrow> peer \<Rightarrow> bool result" where
  "is_backend_authorized validator p = (case validator of None \<Rightarrow> Inr True | Some f \<Rightarrow> f p)"

text \<open>
  \<open>_handle_client\<close> up to the start of the pumps. Until then it only waits, so its one change of the
  state is at the end. \<open>first\<close> is what the frontend sent while the backend was not yet there, \<open>backend\<close> what the
  factory gave: a descriptor, the peer and the validator of the lease.
\<close>

definition start_client :: "('g, 's) relay_env \<Rightarrow> int \<Rightarrow> peer \<Rightarrow> string result
    \<Rightarrow> (int \<times> peer \<times> (peer \<Rightarrow> bool result) option) result \<Rightarrow> string \<Rightarrow> ('g, 's) relay \<Rightarrow> ('g, 's) relay" where
  "start_client R ffd fpeer first backend nonce s =
    (case is_authorized (re_authorize R) fpeer of
       Inl e \<Rightarrow> start_failed R e s
     | Inr ok \<Rightarrow>
         if \<not> ok then leave False s
         else case (if re_wait R then first else Inr []) of
             Inl e \<Rightarrow> start_failed R e s
           | Inr initial \<Rightarrow>
         if re_wait R \<and> initial = [] then leave True s
         else case backend of
             Inl e \<Rightarrow> start_failed R e s
           | Inr (bfd, bpeer, validator) \<Rightarrow>
               if \<not> peer_complete bpeer then leave False s
               else (case is_backend_authorized validator bpeer of
                   Inl e \<Rightarrow> start_failed R e s
                 | Inr ok \<Rightarrow> if \<not> ok then leave False s else connect_client R ffd bfd fpeer bpeer nonce initial s))"

section \<open>Pumps\<close>

text \<open>The exceptions of a turn that end a pump without an error.\<close>

definition stream_errors :: "string list" where
  "stream_errors = [''OSError'', ''ConnectionError'', ''TimeoutError'', ''IncompleteReadError'']"


definition gated :: "direction \<Rightarrow> 'g gates \<Rightarrow> bool" where
  "gated d g = (case d of ToBackend \<Rightarrow> gt_front g | ToFrontend \<Rightarrow> gt_back g)"

text \<open>The gate of a direction, \<open>None\<close> when there is none.\<close>

definition run_gate :: "('g, 's) relay_env \<Rightarrow> direction \<Rightarrow> string \<Rightarrow> 'g link \<Rightarrow> (string result \<times> 'g gates) option" where
  "run_gate R d data l = (case ln_gates l of
      None \<Rightarrow> None
    | Some g \<Rightarrow> if gated d g then (case re_gate R d data (gt_state g) of (r, st) \<Rightarrow> Some (r, g\<lparr>gt_state := st\<rparr>)) else None)"

text \<open>\<open>shut\<close> says whether \<open>write_eof\<close> went through.\<close>

definition pump_eof :: "('g, 's) relay_env \<Rightarrow> string \<Rightarrow> direction \<Rightarrow> bool \<Rightarrow> 'g link \<Rightarrow> ('g, 's) relay \<Rightarrow> ('g, 's) relay" where
  "pump_eof R i d shut l0 s =
    (let l = count_event d l0;
         lifecycle = (\<lambda>kind seq. LifecycleEvent seq i (ln_epoch l) kind (Some d) (Some (link_seq d l))) in
     case emit_event R (lifecycle ''eof'') i (ln_epoch l) s of
       (Inl e, s1) \<Rightarrow> put_link i (set_pump d (Failed e) l) s1
     | (Inr _, s1) \<Rightarrow>
         if \<not> shut then put_link i (set_pump d Returned l) s1
         else (case emit_event R (lifecycle ''half_close'') i (ln_epoch l) s1 of
           (Inl e, s2) \<Rightarrow> put_link i (set_pump d (Failed e) (write_eof d l)) s2
         | (Inr _, s2) \<Rightarrow> put_link i (set_pump d Returned (write_eof d l)) s2))"

definition pump_data :: "('g, 's) relay_env \<Rightarrow> string \<Rightarrow> direction \<Rightarrow> string \<Rightarrow> 'g link \<Rightarrow> ('g, 's) relay \<Rightarrow> ('g, 's) relay" where
  "pump_data R i d bytes l0 s =
    (let l = count_event d l0 in
     case emit_event R (\<lambda>seq. DataEvent seq i (ln_epoch l) d (link_seq d l) bytes) i (ln_epoch l) s of
       (Inl e, s1) \<Rightarrow> put_link i (set_pump d (Failed e) l) s1
     | (Inr _, s1) \<Rightarrow> put_link i (write_link d bytes l) s1)"

text \<open>
  One turn of \<open>_pump\<close> on what was read, empty at the end of the stream; the pump to the backend begins
  with the chunk that was read before the backend was started.
\<close>

definition pump_turn :: "('g, 's) relay_env \<Rightarrow> string \<Rightarrow> direction \<Rightarrow> bool \<Rightarrow> string \<Rightarrow> ('g, 's) relay \<Rightarrow> ('g, 's) relay" where
  "pump_turn R i d shut received s = (case map_of (rl_links s) i of
      None \<Rightarrow> s
    | Some l0 \<Rightarrow>
        (let initial = (if d = ToBackend then ln_initial l0 else []);
             data = (if initial \<noteq> [] then initial else received);
             l = (if d = ToBackend then l0\<lparr>ln_initial := []\<rparr> else l0) in
         if link_pump d l \<noteq> Pumping then s
         else if data = [] then pump_eof R i d shut l s
         else case run_gate R d data l of
             None \<Rightarrow> pump_data R i d data l s
           | Some (Inl e, g) \<Rightarrow>
               put_link i (set_pump d (if exn_class e \<in> set stream_errors then Returned else Failed e) (l\<lparr>ln_gates := Some g\<rparr>)) s
           | Some (Inr forwarded, g) \<Rightarrow>
               if forwarded = [] then put_link i (l\<lparr>ln_gates := Some g\<rparr>) s
               else pump_data R i d forwarded (l\<lparr>ln_gates := Some g\<rparr>) s))"

text \<open>A read or a drain that fails ends the pump.\<close>

definition pump_lost :: "string \<Rightarrow> direction \<Rightarrow> ('g, 's) relay \<Rightarrow> ('g, 's) relay" where
  "pump_lost i d s = (case map_of (rl_links s) i of
      None \<Rightarrow> s
    | Some l \<Rightarrow> if link_pump d l = Pumping then put_link i (set_pump d Returned l) s else s)"

section \<open>The end of a connection\<close>

definition pump_over :: "pump \<Rightarrow> bool" where
  "pump_over p = (p \<noteq> Pumping)"

text \<open>When \<open>_handle_client\<close> goes on after \<open>asyncio.wait\<close>.\<close>

definition client_over :: "('g, 's) relay_env \<Rightarrow> 'g link \<Rightarrow> bool" where
  "client_over R l =
    (if re_stop R then pump_over (ln_front l) \<or> pump_over (ln_back l)
     else pump_over (ln_front l) \<and> pump_over (ln_back l) \<or> ln_front l = Failed capture_failure \<or> ln_back l = Failed capture_failure)"

definition drop_link :: "string \<Rightarrow> ('g, 's) relay \<Rightarrow> ('g, 's) relay" where
  "drop_link i s = s\<lparr>rl_links := dict_del i (rl_links s), rl_closing := rl_closing s + 1\<rparr>"

definition finish_client :: "('g, 's) relay_env \<Rightarrow> string \<Rightarrow> ('g, 's) relay \<Rightarrow> ('g, 's) relay" where
  "finish_client R i s = (case map_of (rl_links s) i of
      None \<Rightarrow> s
    | Some l \<Rightarrow>
        if \<not> client_over R l then s
        else if rl_failed s then drop_link i s
        else drop_link i (snd (emit_event R (\<lambda>seq. LifecycleEvent seq i (ln_epoch l) ''disconnect'' None None) i (ln_epoch l) s)))"

text \<open>\<open>close\<close> cancels the handlers; a cancelled one only forgets its connection.\<close>

definition cancel_client :: "string \<Rightarrow> ('g, 's) relay \<Rightarrow> ('g, 's) relay" where
  "cancel_client i s = (case map_of (rl_links s) i of None \<Rightarrow> s | Some _ \<Rightarrow> drop_link i s)"

end
