(* ===== verification/RelayRuns.thy ===== *)
theory RelayRuns
  imports Relay
begin

text \<open>
  The runs of the relay: connections that are accepted, started, pumped and ended in any order. What the
  sink was told is kept by a recording sink, so that the histories of the two sides of a connection can
  be compared.
\<close>

section \<open>Runs\<close>

inductive relay_step :: "('g, 's) relay_env \<Rightarrow> ('g, 's) relay \<Rightarrow> ('g, 's) relay \<Rightarrow> bool" for R where
  accepted: "relay_step R s (accept R s)"
| started: "0 < rl_waiting s \<Longrightarrow> length nonce = 12 \<Longrightarrow> relay_step R s (start_client R ffd fpeer first backend nonce s)"
| refused: "0 < rl_waiting s \<Longrightarrow> relay_step R s (leave False s)"
| turned: "relay_step R s (pump_turn R i d shut received s)"
| broken: "relay_step R s (pump_lost i d s)"
| finished: "relay_step R s (finish_client R i s)"
| cancelled: "relay_step R s (cancel_client i s)"
| closed: "relay_step R s (closed_client s)"

abbreviation relay_steps :: "('g, 's) relay_env \<Rightarrow> ('g, 's) relay \<Rightarrow> ('g, 's) relay \<Rightarrow> bool" where
  "relay_steps R \<equiv> (relay_step R)\<^sup>*\<^sup>*"

definition relay_run :: "('g, 's) relay_env \<Rightarrow> 's \<Rightarrow> ('g, 's) relay \<Rightarrow> bool" where
  "relay_run R sk s = relay_steps R (new_relay sk) s"

section \<open>The fields of a link\<close>

lemma link_simps [simp]:
  "link_seq d (count_event d' l) = (if d' = d then link_seq d l + 1 else link_seq d l)" "link_seq d (set_pump d' p l) = link_seq d l"
  "link_seq d (write_link d' bytes l) = link_seq d l" "link_seq d (write_eof d' l) = link_seq d l"
  "link_pump d (set_pump d' p l) = (if d' = d then p else link_pump d l)" "link_pump d (count_event d' l) = link_pump d l"
  "link_pump d (write_link d' bytes l) = link_pump d l" "link_pump d (write_eof d' l) = link_pump d l"
  "link_written d (write_link d' bytes l) = (if d' = d then link_written d l @ bytes else link_written d l)"
  "link_written d (set_pump d' p l) = link_written d l" "link_written d (count_event d' l) = link_written d l"
  "link_written d (write_eof d' l) = link_written d l"
  "ln_epoch (count_event d' l) = ln_epoch l" "ln_epoch (set_pump d' p l) = ln_epoch l" "ln_epoch (write_link d' bytes l) = ln_epoch l"
  "ln_epoch (write_eof d' l) = ln_epoch l"
  by (simp_all add: link_seq_def link_pump_def link_written_def count_event_def set_pump_def write_link_def write_eof_def split: direction.split)

lemma link_update_simps [simp]:
  "link_seq d (l\<lparr>ln_gates := g\<rparr>) = link_seq d l" "link_pump d (l\<lparr>ln_gates := g\<rparr>) = link_pump d l" "link_written d (l\<lparr>ln_gates := g\<rparr>) = link_written d l"
  "link_seq d (l\<lparr>ln_initial := x\<rparr>) = link_seq d l" "link_pump d (l\<lparr>ln_initial := x\<rparr>) = link_pump d l" "link_written d (l\<lparr>ln_initial := x\<rparr>) = link_written d l"
  by (simp_all add: link_seq_def link_pump_def link_written_def split: direction.split)

lemma new_link_simps [simp]:
  "link_seq d (new_link n g x) = 0" "link_written d (new_link n g x) = []" "link_pump d (new_link n g x) = Pumping" "ln_epoch (new_link n g x) = n"
  by (simp_all add: new_link_def link_seq_def link_written_def link_pump_def split: direction.split)

lemma put_link_simps [simp]:
  "map_of (rl_links (put_link i l s)) = (map_of (rl_links s))(i \<mapsto> l)" "rl_sink (put_link i l s) = rl_sink s" "rl_epoch (put_link i l s) = rl_epoch s"
  "rl_failed (put_link i l s) = rl_failed s" "rl_observation (put_link i l s) = rl_observation s" "rl_waiting (put_link i l s) = rl_waiting s"
  by (simp_all add: put_link_def)

lemma drop_link_simps [simp]:
  "map_of (rl_links (drop_link i s)) = (map_of (rl_links s))(i := None)" "rl_sink (drop_link i s) = rl_sink s" "rl_epoch (drop_link i s) = rl_epoch s"
  "rl_failed (drop_link i s) = rl_failed s" "rl_observation (drop_link i s) = rl_observation s" "rl_waiting (drop_link i s) = rl_waiting s"
  by (simp_all add: drop_link_def)

section \<open>Observations\<close>

lemma emit_frame:
  assumes "emit_event R event i n s = (r, s')"
  shows "rl_links s' = rl_links s" "rl_epoch s' = rl_epoch s" "rl_waiting s' = rl_waiting s" "rl_closing s' = rl_closing s"
  using assms by (auto simp: emit_event_def next_seq_def split: prod.splits sum.splits if_splits)

text \<open>The three ways an observation can go.\<close>

lemma emit_cases:
  assumes "emit_event R event i n s = (r, s')"
  obtains (dead) "rl_failed s" "r = Inl capture_failure" "rl_sink s' = rl_sink s" "rl_failed s'" "rl_observation s' = rl_observation s + 1"
  | (told) u sk where "\<not> rl_failed s" "re_capture R (event (rl_observation s + 1)) (rl_sink s) = (Inr u, sk)" "r = Inr ()" "rl_sink s' = sk"
      "\<not> rl_failed s'" "rl_observation s' = rl_observation s + 1"
  | (raised) e sk where "\<not> rl_failed s" "re_capture R (event (rl_observation s + 1)) (rl_sink s) = (Inl e, sk)" "r = Inl capture_failure"
      "rl_sink s' = snd (re_capture R (GapEvent (rl_observation s + 1 + 1) i n ''capture_callback_failed'' True) sk)" "rl_failed s'"
      "rl_observation s' = rl_observation s + 1 + 1"
  using assms by (auto simp: emit_event_def next_seq_def split: prod.splits sum.splits if_splits simp del: add_2_eq_Suc add_2_eq_Suc')

section \<open>The recording sink\<close>

text \<open>The sink together with the events it has taken without raising.\<close>

definition recording :: "'s capture \<Rightarrow> ('s \<times> capture_event list) capture" where
  "recording C event sk = (case C event (fst sk) of (r, sk') \<Rightarrow> (r, sk', if succeeds r then snd sk @ [event] else snd sk))"

lemma recording_keeps: "recording C e sk = (r, sk') \<Longrightarrow> snd sk' = (if succeeds r then snd sk @ [e] else snd sk)"
  by (auto simp: recording_def split: prod.splits)

text \<open>The sink together with every event it was called with, and whether the callback returned or raised.\<close>

definition minuting :: "'s capture \<Rightarrow> ('s \<times> (capture_event \<times> bool) list) capture" where
  "minuting C event sk = (case C event (fst sk) of (r, sk') \<Rightarrow> (r, sk', snd sk @ [(event, succeeds r)]))"

lemma minuting_keeps: "minuting C e sk = (r, sk') \<Longrightarrow> snd sk' = snd sk @ [(e, succeeds r)]"
  by (auto simp: minuting_def split: prod.splits)

definition event_seq :: "capture_event \<Rightarrow> int" where
  "event_seq event = (case event of ConnectionEvent n _ _ _ _ _ _ \<Rightarrow> n | DataEvent n _ _ _ _ _ \<Rightarrow> n | LifecycleEvent n _ _ _ _ _ \<Rightarrow> n | GapEvent n _ _ _ _ \<Rightarrow> n)"

definition event_epoch :: "capture_event \<Rightarrow> int" where
  "event_epoch event = (case event of ConnectionEvent _ _ n _ _ _ _ \<Rightarrow> n | DataEvent _ _ n _ _ _ \<Rightarrow> n | LifecycleEvent _ _ n _ _ _ \<Rightarrow> n | GapEvent _ _ n _ _ \<Rightarrow> n)"

text \<open>The data events of a connection in one direction: the numbers and the bytes.\<close>

fun shown_rows :: "int \<Rightarrow> direction \<Rightarrow> capture_event list \<Rightarrow> (int \<times> string) list" where
  "shown_rows n d [] = []"
| "shown_rows n d (DataEvent _ _ m d' k bytes # hist) = (if m = n \<and> d' = d then (k, bytes) # shown_rows n d hist else shown_rows n d hist)"
| "shown_rows n d (_ # hist) = shown_rows n d hist"

definition shown :: "int \<Rightarrow> direction \<Rightarrow> capture_event list \<Rightarrow> string" where
  "shown n d hist = concat (map snd (shown_rows n d hist))"

lemma shown_rows_append [simp]: "shown_rows n d (xs @ ys) = shown_rows n d xs @ shown_rows n d ys"
  by (induction n d xs rule: shown_rows.induct) auto

lemma shown_append [simp]: "shown n d (xs @ ys) = shown n d xs @ shown n d ys"
  by (simp add: shown_def)

lemma shown_rows_none: "\<forall>e \<in> set hist. event_epoch e \<noteq> n \<Longrightarrow> shown_rows n d hist = []"
  by (induction n d hist rule: shown_rows.induct) (auto simp: event_epoch_def)

section \<open>The invariant\<close>

definition quiet :: "capture_event \<Rightarrow> bool" where
  "quiet event = (\<forall>n d. shown_rows n d [event] = [])"

lemma quiet_simps [simp]: "quiet (ConnectionEvent k i n fd bd fp bp)" "quiet (LifecycleEvent k i n kind x y)" "quiet (GapEvent k i n reason fatal)"
  by (simp_all add: quiet_def)

definition numbered :: "(int \<times> string) list \<Rightarrow> bool" where
  "numbered rows = (map fst rows = map (\<lambda>k. int k + 1) [0..<length rows])"

lemma numbered_simps: "numbered []" "numbered rows \<Longrightarrow> numbered (rows @ [(int (length rows) + 1, bytes)])"
  by (simp_all add: numbered_def)

definition link_ok :: "capture_event list \<Rightarrow> direction \<Rightarrow> 'g link \<Rightarrow> bool" where
  "link_ok hist d l = (link_written d l = shown (ln_epoch l) d hist \<and> numbered (shown_rows (ln_epoch l) d hist)
     \<and> (link_pump d l = Pumping \<longrightarrow> link_seq d l = int (length (shown_rows (ln_epoch l) d hist))))"

definition hist_ok :: "int \<Rightarrow> int \<Rightarrow> capture_event list \<Rightarrow> bool" where
  "hist_ok seq epoch hist = (sorted_wrt (\<lambda>x y. event_seq x < event_seq y) hist
     \<and> (\<forall>e \<in> set hist. event_seq e \<le> seq \<and> event_epoch e \<le> epoch))"

definition links_ok :: "capture_event list \<Rightarrow> ('g, 's) relay \<Rightarrow> bool" where
  "links_ok hist s =
    ((\<forall>i l. map_of (rl_links s) i = Some l \<longrightarrow> ln_epoch l \<le> rl_epoch s \<and> (\<forall>d. link_ok hist d l))
     \<and> (\<forall>i j l l'. map_of (rl_links s) i = Some l \<and> map_of (rl_links s) j = Some l' \<and> i \<noteq> j \<longrightarrow> ln_epoch l \<noteq> ln_epoch l'))"

definition told_ok :: "('g, 's \<times> capture_event list) relay \<Rightarrow> bool" where
  "told_ok s = (hist_ok (rl_observation s) (rl_epoch s) (snd (rl_sink s)) \<and> links_ok (snd (rl_sink s)) s \<and> 0 \<le> rl_epoch s)"

lemma hist_ok_more: "hist_ok seq epoch hist \<Longrightarrow> seq \<le> seq' \<Longrightarrow> epoch \<le> epoch' \<Longrightarrow> hist_ok seq' epoch' hist"
  by (force simp: hist_ok_def)

lemma hist_ok_snoc:
  "hist_ok seq epoch hist \<Longrightarrow> seq < event_seq e \<Longrightarrow> event_seq e \<le> seq' \<Longrightarrow> event_epoch e \<le> epoch \<Longrightarrow> hist_ok seq' epoch (hist @ [e])"
  by (force simp: hist_ok_def sorted_wrt_append)

lemma link_ok_quiet: "link_ok hist d l \<Longrightarrow> quiet e \<Longrightarrow> link_ok (hist @ [e]) d l"
  by (simp add: link_ok_def quiet_def shown_def)

lemma links_ok_quiet: "links_ok hist s \<Longrightarrow> quiet e \<Longrightarrow> links_ok (hist @ [e]) s"
  unfolding links_ok_def by (blast intro: link_ok_quiet)

lemma links_ok_same: "links_ok hist s \<Longrightarrow> rl_links s' = rl_links s \<Longrightarrow> rl_epoch s' = rl_epoch s \<Longrightarrow> links_ok hist s'"
  by (simp add: links_ok_def)

lemma links_okD:
  assumes "links_ok hist s" and "map_of (rl_links s) i = Some l"
  shows "ln_epoch l \<le> rl_epoch s" "link_ok hist d l" "map_of (rl_links s) j = Some l' \<Longrightarrow> j \<noteq> i \<Longrightarrow> ln_epoch l' \<noteq> ln_epoch l"
  using assms unfolding links_ok_def by blast+

lemma links_okI:
  assumes "\<And>i l. map_of (rl_links s) i = Some l \<Longrightarrow> ln_epoch l \<le> rl_epoch s"
    and "\<And>i l d. map_of (rl_links s) i = Some l \<Longrightarrow> link_ok hist d l"
    and "\<And>i j l l'. map_of (rl_links s) i = Some l \<Longrightarrow> map_of (rl_links s) j = Some l' \<Longrightarrow> i \<noteq> j \<Longrightarrow> ln_epoch l \<noteq> ln_epoch l'"
  shows "links_ok hist s"
  using assms unfolding links_ok_def by blast

lemma links_ok_fewer:
  assumes "links_ok hist s" and e: "rl_epoch s' = rl_epoch s"
    and sub: "\<And>i l. map_of (rl_links s') i = Some l \<Longrightarrow> map_of (rl_links s) i = Some l"
  shows "links_ok hist s'"
proof (rule links_okI)
  fix i j l l' assume l: "map_of (rl_links s') i = Some l"
  show "ln_epoch l \<le> rl_epoch s'" using links_okD(1) [OF assms(1) sub [OF l]] by (simp add: e)
  show "link_ok hist d l" for d by (rule links_okD(2) [OF assms(1) sub [OF l]])
  assume "map_of (rl_links s') j = Some l'" and "i \<noteq> j"
  from links_okD(3) [OF assms(1) sub [OF this(1)] sub [OF l]] this(2) show "ln_epoch l \<noteq> ln_epoch l'" by blast
qed

text \<open>A link is replaced and the history may have grown by something of its own epoch.\<close>

lemma links_ok_put:
  fixes l :: "'g link"
  assumes ok: "links_ok hist s" and l: "map_of (rl_links s) i = Some l" and e: "ln_epoch l' = ln_epoch l" and mine: "\<And>d. link_ok hist' d l'"
    and others: "\<And>d (m :: 'g link). link_ok hist d m \<Longrightarrow> ln_epoch m \<noteq> ln_epoch l \<Longrightarrow> link_ok hist' d m"
  shows "links_ok hist' (put_link i l' s)"
proof (rule links_okI)
  fix j m assume j: "map_of (rl_links (put_link i l' s)) j = Some m"
  show "ln_epoch m \<le> rl_epoch (put_link i l' s)" using j links_okD(1) [OF ok l] links_okD(1) [OF ok, of j m] e by (simp split: if_splits)
  show "link_ok hist' d m" for d
  proof (cases "j = i")
    case True
    with j mine show ?thesis by simp
  next
    case False
    with j have "map_of (rl_links s) j = Some m" by simp
    from others [OF links_okD(2) [OF ok this] links_okD(3) [OF ok l this False]] show ?thesis .
  qed
  fix k m' assume k: "map_of (rl_links (put_link i l' s)) k = Some m'" and "j \<noteq> k"
  then show "ln_epoch m \<noteq> ln_epoch m'"
    using j links_okD(3) [OF ok l, of j m] links_okD(3) [OF ok l, of k m'] links_okD(3) [OF ok, of j m k m'] e by (simp split: if_splits)
qed

definition event_made :: "int \<Rightarrow> (int \<Rightarrow> capture_event) \<Rightarrow> bool" where
  "event_made n event = (\<forall>k. event_seq (event k) = k \<and> event_epoch (event k) = n)"

lemma event_made_simps [simp]:
  "event_made n (\<lambda>k. ConnectionEvent k i n a b c e)" "event_made n (\<lambda>k. DataEvent k i n d m bytes)"
  "event_made n (\<lambda>k. LifecycleEvent k i n kind x y)" "event_made n (\<lambda>k. GapEvent k i n reason fatal)"
  by (simp_all add: event_made_def event_seq_def event_epoch_def)

lemma emit_told:
  assumes R: "re_capture R = recording C" and emit: "emit_event R event i n s = (r, s')" and ok: "told_ok s"
    and event: "event_made n event" and n: "n \<le> rl_epoch s"
  shows "hist_ok (rl_observation s') (rl_epoch s') (snd (rl_sink s')) \<and> rl_links s' = rl_links s \<and> rl_epoch s' = rl_epoch s
     \<and> (r = Inr () \<and> snd (rl_sink s') = snd (rl_sink s) @ [event (rl_observation s + 1)]
        \<or> r = Inl capture_failure \<and> links_ok (snd (rl_sink s')) s)"
proof -
  note same = emit_frame [OF emit]
  from ok have h: "hist_ok (rl_observation s) (rl_epoch s) (snd (rl_sink s))" and l: "links_ok (snd (rl_sink s)) s" by (simp_all add: told_ok_def)
  from emit show ?thesis
  proof (cases rule: emit_cases)
    case dead
    with h l same show ?thesis by (auto intro: hist_ok_more)
  next
    case (told u sk)
    then have "snd (rl_sink s') = snd (rl_sink s) @ [event (rl_observation s + 1)]" using recording_keeps [of C] by (simp add: R)
    moreover have "hist_ok (rl_observation s') (rl_epoch s') (snd (rl_sink s) @ [event (rl_observation s + 1)])"
      using hist_ok_snoc [OF h, of "event (rl_observation s + 1)" "rl_observation s'"] event n same told(6) by (simp add: event_made_def)
    ultimately show ?thesis using told(3) same by simp
  next
    case (raised e sk)
    let ?gap = "GapEvent (rl_observation s + 1 + 1) i n ''capture_callback_failed'' True"
    from raised(2) have "snd sk = snd (rl_sink s)" using recording_keeps [of C] by (simp add: R)
    then have hist: "snd (rl_sink s') = snd (rl_sink s) \<or> snd (rl_sink s') = snd (rl_sink s) @ [?gap]"
      using raised(4) recording_keeps [of C ?gap sk] by (cases "recording C ?gap sk") (simp add: R)
    have "hist_ok (rl_observation s') (rl_epoch s') (snd (rl_sink s) @ [?gap])"
      using hist_ok_snoc [OF h, of ?gap "rl_observation s'"] n same raised(6) by (simp add: event_seq_def event_epoch_def)
    moreover have "hist_ok (rl_observation s') (rl_epoch s') (snd (rl_sink s))" using h same raised(6) by (auto intro: hist_ok_more)
    ultimately show ?thesis using hist l same raised(3) links_ok_quiet [OF l, of ?gap] by auto
  qed
qed

lemmas emit_told_parts = emit_told [THEN conjunct1] emit_told [THEN conjunct2, THEN conjunct1]
  emit_told [THEN conjunct2, THEN conjunct2, THEN conjunct1] emit_told [THEN conjunct2, THEN conjunct2, THEN conjunct2]

section \<open>Every step keeps it\<close>

text \<open>An observation that is not of data leaves all that has to be shown.\<close>

lemma emit_told_quiet:
  assumes "re_capture R = recording C" and "emit_event R event i n s = (r, s')" and "told_ok s"
    and "event_made n event" and "n \<le> rl_epoch s" and "\<And>k. quiet (event k)"
  shows "told_ok s'" "rl_links s' = rl_links s" "rl_epoch s' = rl_epoch s" "r = Inr () \<or> r = Inl capture_failure"
proof -
  note e = emit_told [OF assms(1-5)]
  from e show same: "rl_links s' = rl_links s" "rl_epoch s' = rl_epoch s" "r = Inr () \<or> r = Inl capture_failure" by auto
  have "links_ok (snd (rl_sink s')) s" using e links_ok_quiet [OF _ assms(6)] assms(3) by (auto simp: told_ok_def)
  then show "told_ok s'" using e assms(3) same links_ok_same [of _ s s'] by (simp add: told_ok_def)
qed

lemma told_put:
  assumes "told_ok s" and "map_of (rl_links s) i = Some l" and "ln_epoch l' = ln_epoch l" and "\<And>d. link_ok (snd (rl_sink s)) d l'"
  shows "told_ok (put_link i l' s)"
proof -
  have "links_ok (snd (rl_sink s)) s" using assms(1) by (simp add: told_ok_def)
  from links_ok_put [OF this assms(2-4)] assms(1) show ?thesis by (simp add: told_ok_def)
qed

lemma told_link:
  assumes "told_ok s" and "map_of (rl_links s) i = Some l"
  shows "link_ok (snd (rl_sink s)) d l" "ln_epoch l \<le> rl_epoch s"
  using assms by (auto simp: told_ok_def links_ok_def)

text \<open>A link that is changed where the history does not look.\<close>

definition tamer :: "'g link \<Rightarrow> 'g link \<Rightarrow> bool" where
  "tamer l l' = (ln_epoch l' = ln_epoch l \<and> (\<forall>d. link_written d l' = link_written d l
     \<and> (link_pump d l' = Pumping \<longrightarrow> link_pump d l = Pumping \<and> link_seq d l' = link_seq d l)))"

lemma tamer_ok: "tamer l l' \<Longrightarrow> link_ok hist d l \<Longrightarrow> link_ok hist d l'"
  by (simp add: tamer_def link_ok_def)

lemma told_tamer: "told_ok s \<Longrightarrow> map_of (rl_links s) i = Some l \<Longrightarrow> tamer l l' \<Longrightarrow> told_ok (put_link i l' s)"
  using told_put [of s i l l'] tamer_ok [of l l'] told_link(1) [of s i l] by (simp add: tamer_def)

lemma told_drop:
  assumes "told_ok s"
  shows "told_ok (drop_link i s)"
proof -
  have "links_ok (snd (rl_sink s)) (drop_link i s)"
    by (rule links_ok_fewer) (use assms in \<open>simp_all add: told_ok_def split: if_splits\<close>)
  with assms show ?thesis by (simp add: told_ok_def)
qed

lemma pump_eof_told:
  assumes R: "re_capture R = recording C" and ok: "told_ok s" and l0: "map_of (rl_links s) i = Some l00" and l: "tamer l00 l0"
  shows "told_ok (pump_eof R i d shut l0 s)"
proof -
  let ?l = "count_event d l0"
  let ?event = "\<lambda>kind seq. LifecycleEvent seq i (ln_epoch l0) kind (Some d) (Some (link_seq d ?l))"
  obtain r1 s1 where 1: "emit_event R (?event ''eof'') i (ln_epoch l0) s = (r1, s1)" by (cases "emit_event R (?event ''eof'') i (ln_epoch l0) s")
  obtain r2 s2 where 2: "emit_event R (?event ''half_close'') i (ln_epoch l0) s1 = (r2, s2)" by (cases "emit_event R (?event ''half_close'') i (ln_epoch l0) s1")
  have e: "ln_epoch l0 \<le> rl_epoch s" using told_link(2) [OF ok l0] l by (simp add: tamer_def)
  note k1 = emit_told_quiet [OF R 1 ok event_made_simps(3) e quiet_simps(2)]
  note k2 = emit_told_quiet [OF R 2 k1(1) event_made_simps(3) _ quiet_simps(2)]
  have "p \<noteq> Pumping \<Longrightarrow> tamer l00 (set_pump d p ?l)" "p \<noteq> Pumping \<Longrightarrow> tamer l00 (set_pump d p (write_eof d ?l))" for p
    using l by (auto simp: tamer_def)
  then have "p \<noteq> Pumping \<Longrightarrow> told_ok (put_link i (set_pump d p ?l) s1)" "p \<noteq> Pumping \<Longrightarrow> told_ok (put_link i (set_pump d p (write_eof d ?l)) s2)" for p
    using told_tamer [OF k1(1)] told_tamer [OF k2(1)] l0 k1(2,3) k2(2,3) e by simp_all
  then show ?thesis using 1 2 by (simp add: pump_eof_def Let_def split: sum.split)
qed

lemma pump_data_told:
  assumes R: "re_capture R = recording C" and ok: "told_ok s" and l0: "map_of (rl_links s) i = Some l00" and l: "tamer l00 l0"
    and p: "link_pump d l0 = Pumping"
  shows "told_ok (pump_data R i d bytes l0 s)"
proof -
  let ?l = "count_event d l0" and ?n = "ln_epoch l0"
  let ?event = "\<lambda>seq. DataEvent seq i ?n d (link_seq d ?l) bytes"
  obtain r s1 where e: "emit_event R ?event i ?n s = (r, s1)" by (cases "emit_event R ?event i ?n s")
  have n: "?n \<le> rl_epoch s" "ln_epoch l00 = ?n" using told_link(2) [OF ok l0] l by (simp_all add: tamer_def)
  note k = emit_told_parts [OF R e ok event_made_simps(2) n(1)]
  have lok: "link_ok (snd (rl_sink s)) d' l0" for d' using told_link(1) [OF ok l0] l by (simp add: tamer_ok)
  show ?thesis
  proof (cases r)
    case (Inl x)
    with k(4) have "links_ok (snd (rl_sink s1)) s" by simp
    from links_ok_same [OF this k(2,3)] have "told_ok s1" using ok k(1,3) by (simp add: told_ok_def)
    moreover have "tamer l00 (set_pump d (Failed x) ?l)" using l by (auto simp: tamer_def)
    ultimately show ?thesis using told_tamer [of s1 i l00] l0 k(2) by (simp add: pump_data_def Let_def e [simplified] Inl)
  next
    case (Inr u)
    let ?e = "?event (rl_observation s + 1)" and ?hist = "snd (rl_sink s)"
    from k(4) Inr have hist: "snd (rl_sink s1) = ?hist @ [?e]" by auto
    have others: "link_ok (?hist @ [?e]) d' l'" if "link_ok ?hist d' l'" "ln_epoch l' \<noteq> ?n" for d' l'
      using that by (simp add: link_ok_def shown_def)
    have mine: "link_ok (?hist @ [?e]) d' (write_link d bytes ?l)" for d'
      using lok [of d'] p numbered_simps(2) [of "shown_rows ?n d ?hist" bytes] by (auto simp: link_ok_def shown_def)
    have "links_ok (?hist @ [?e]) (put_link i (write_link d bytes ?l) s1)"
    proof (rule links_ok_put)
      show "links_ok ?hist s1" using ok k(2,3) links_ok_same [of ?hist s s1] by (simp add: told_ok_def)
      show "map_of (rl_links s1) i = Some l00" using l0 k(2) by simp
    qed (use n mine others in simp_all)
    with k(1,3) ok hist show ?thesis by (simp add: pump_data_def Let_def e [simplified] Inr told_ok_def)
  qed
qed

lemma tamer_simps [simp]:
  "tamer l l" "tamer l (l\<lparr>ln_gates := g\<rparr>)" "tamer l (l\<lparr>ln_initial := x\<rparr>)" "tamer l (l\<lparr>ln_initial := x, ln_gates := g\<rparr>)"
  "tamer l (set_pump d p l) \<longleftrightarrow> p \<noteq> Pumping \<or> link_pump d l = Pumping"
  by (auto simp: tamer_def)

lemma tamer_trans: "tamer l l1 \<Longrightarrow> tamer l1 l2 \<Longrightarrow> tamer l l2"
  by (simp add: tamer_def)

text \<open>What a turn of a pump can be, on the link that no longer holds the first chunk.\<close>

lemma pump_turn_cases:
  assumes "map_of (rl_links s) i = Some l0" and l: "l = (if d = ToBackend then l0\<lparr>ln_initial := []\<rparr> else l0)"
  shows "pump_turn R i d shut received s = s
    \<or> link_pump d l = Pumping \<and> pump_turn R i d shut received s = pump_eof R i d shut l s
    \<or> (\<exists>data. link_pump d l = Pumping \<and> pump_turn R i d shut received s = pump_data R i d data l s)
    \<or> (\<exists>g p. p \<noteq> Pumping \<and> pump_turn R i d shut received s = put_link i (set_pump d p (l\<lparr>ln_gates := g\<rparr>)) s)
    \<or> (\<exists>g. pump_turn R i d shut received s = put_link i (l\<lparr>ln_gates := g\<rparr>) s)
    \<or> (\<exists>g data. link_pump d l = Pumping \<and> pump_turn R i d shut received s = pump_data R i d data (l\<lparr>ln_gates := g\<rparr>) s)"
    (is "?cases")
proof -
  define data where "data = (if (if d = ToBackend then ln_initial l0 else []) \<noteq> [] then if d = ToBackend then ln_initial l0 else [] else received)"
  have turn: "pump_turn R i d shut received s =
    (if link_pump d l \<noteq> Pumping then s else if data = [] then pump_eof R i d shut l s
     else case run_gate R d data l of
         None \<Rightarrow> pump_data R i d data l s
       | Some (Inl e, g) \<Rightarrow> put_link i (set_pump d (if exn_class e \<in> set stream_errors then Returned else Failed e) (l\<lparr>ln_gates := Some g\<rparr>)) s
       | Some (Inr forwarded, g) \<Rightarrow> if forwarded = [] then put_link i (l\<lparr>ln_gates := Some g\<rparr>) s
           else pump_data R i d forwarded (l\<lparr>ln_gates := Some g\<rparr>) s)"
    by (simp only: pump_turn_def assms(1) option.case Let_def l data_def)
  show ?cases
  proof (cases "link_pump d l = Pumping \<and> data \<noteq> []")
    case True
    show ?thesis
    proof (cases "run_gate R d data l")
      case None
      with True have "pump_turn R i d shut received s = pump_data R i d data l s" by (simp add: turn)
      with True show ?thesis by blast
    next
      case (Some rg)
      obtain r g where rg: "rg = (r, g)" by (cases rg)
      show ?thesis
      proof (cases r)
        case (Inl e)
        define p where "p = (if exn_class e \<in> set stream_errors then Returned else Failed e)"
        have "p \<noteq> Pumping" by (simp add: p_def)
        moreover have "pump_turn R i d shut received s = put_link i (set_pump d p (l\<lparr>ln_gates := Some g\<rparr>)) s"
          using True Some by (simp add: turn rg Inl p_def)
        ultimately show ?thesis by blast
      next
        case (Inr forwarded)
        have "pump_turn R i d shut received s = (if forwarded = [] then put_link i (l\<lparr>ln_gates := Some g\<rparr>) s
            else pump_data R i d forwarded (l\<lparr>ln_gates := Some g\<rparr>) s)"
          using True Some by (simp add: turn rg Inr)
        with True show ?thesis by (cases "forwarded = []") auto
      qed
    qed
  next
    case False
    then have "pump_turn R i d shut received s = (if link_pump d l \<noteq> Pumping then s else pump_eof R i d shut l s)" by (auto simp: turn)
    then show ?thesis by (cases "link_pump d l = Pumping") simp_all
  qed
qed

lemma pump_turn_told:
  assumes R: "re_capture R = recording C" and ok: "told_ok s"
  shows "told_ok (pump_turn R i d shut received s)"
proof (cases "map_of (rl_links s) i")
  case (Some l0)
  define l where "l = (if d = ToBackend then l0\<lparr>ln_initial := []\<rparr> else l0)"
  have l: "tamer l0 l" by (simp add: l_def)
  then have lg: "tamer l0 (l\<lparr>ln_gates := g\<rparr>)" for g by (rule tamer_trans) simp
  have stop: "tamer l0 (set_pump d p (l\<lparr>ln_gates := g\<rparr>))" if "p \<noteq> Pumping" for p g by (rule tamer_trans [OF lg [of g]]) (simp add: that)
  note keeps = ok pump_eof_told [OF R ok Some l, of d shut] pump_data_told [OF R ok Some l, of d] pump_data_told [OF R ok Some lg, of d]
    told_tamer [OF ok Some lg] told_tamer [OF ok Some stop]
  show ?thesis using pump_turn_cases [OF Some l_def, of R shut received] keeps by (elim disjE exE conjE) simp_all
qed (simp add: pump_turn_def ok)

lemma pump_lost_told:
  assumes "told_ok s"
  shows "told_ok (pump_lost i d s)"
  using assms told_tamer [OF assms] by (simp add: pump_lost_def split: option.split)

lemma gap_left_told:
  assumes R: "re_capture R = recording C" and ok: "told_ok s" and n: "n \<le> rl_epoch s"
  shows "told_ok (gap_left R e i n s)"
proof -
  let ?event = "\<lambda>seq. GapEvent seq i n ''isolated_backend_or_relay_failed'' False"
  obtain r s' where emit: "emit_event R ?event i n s = (r, s')" by (cases "emit_event R ?event i n s")
  from emit_told_quiet(1) [OF R emit ok event_made_simps(4) n] show ?thesis by (simp add: gap_left_def emit ok)
qed

lemma finish_told:
  assumes R: "re_capture R = recording C" and ok: "told_ok s"
  shows "told_ok (finish_client R i s)"
proof (cases "map_of (rl_links s) i")
  case (Some l)
  let ?event = "\<lambda>seq. LifecycleEvent seq i (ln_epoch l) ''disconnect'' None None"
  obtain r s' where e: "emit_event R ?event i (ln_epoch l) s = (r, s')" by (cases "emit_event R ?event i (ln_epoch l) s")
  have "told_ok s'" by (rule emit_told_quiet(1) [OF R e ok event_made_simps(3) told_link(2) [OF ok Some]]) simp
  then show ?thesis using ok e by (simp add: finish_client_def Some told_drop)
qed (simp add: finish_client_def ok)

lemma waiting_told [simp]:
  "told_ok (s\<lparr>rl_waiting := w\<rparr>) = told_ok s" "told_ok (leave probe s) = told_ok s" "told_ok (closed_client s) = told_ok s"
  by (simp_all add: told_ok_def links_ok_def leave_def closed_client_def)

lemma epoch_told: "told_ok s \<Longrightarrow> told_ok (s\<lparr>rl_epoch := rl_epoch s + 1\<rparr>)"
  by (fastforce simp: told_ok_def links_ok_def intro: hist_ok_more)

lemma new_link_told:
  assumes ok: "told_ok s" and old: "\<And>j l. map_of (rl_links s) j = Some l \<Longrightarrow> ln_epoch l < rl_epoch s"
    and none: "\<And>d. shown_rows (rl_epoch s) d (snd (rl_sink s)) = []"
  shows "told_ok (put_link i (new_link (rl_epoch s) g first) s)"
proof -
  have l: "links_ok (snd (rl_sink s)) s" using ok by (simp add: told_ok_def)
  have new: "link_ok (snd (rl_sink s)) d (new_link (rl_epoch s) g first)" for d
    by (simp add: link_ok_def shown_def none numbered_simps)
  have "links_ok (snd (rl_sink s)) (put_link i (new_link (rl_epoch s) g first) s)"
  proof (rule links_okI)
    fix j k m m' assume j: "map_of (rl_links (put_link i (new_link (rl_epoch s) g first) s)) j = Some m"
    show "ln_epoch m \<le> rl_epoch (put_link i (new_link (rl_epoch s) g first) s)" using j links_okD(1) [OF l, of j m] by (auto split: if_splits)
    show "link_ok (snd (rl_sink s)) d m" for d using j new links_okD(2) [OF l, of j m d] by (auto split: if_splits)
    assume k: "map_of (rl_links (put_link i (new_link (rl_epoch s) g first) s)) k = Some m'" and "j \<noteq> k"
    then show "ln_epoch m \<noteq> ln_epoch m'" using j old [of j m] old [of k m'] links_okD(3) [OF l, of j m k m'] by (fastforce split: if_splits)
  qed
  with ok show ?thesis by (simp add: told_ok_def)
qed

lemma connect_told:
  assumes R: "re_capture R = recording C" and ok: "told_ok s0"
  shows "told_ok (connect_client R ffd bfd fpeer bpeer nonce first s0)"
proof -
  let ?n = "rl_epoch s0 + 1" and ?i = "connection_name (rl_epoch s0 + 1) nonce"
  let ?s = "s0\<lparr>rl_epoch := ?n\<rparr>" and ?event = "\<lambda>seq. ConnectionEvent seq ?i ?n ffd bfd fpeer bpeer"
  obtain r s1 where e: "emit_event R ?event ?i ?n ?s = (r, s1)" by (cases "emit_event R ?event ?i ?n ?s")
  note ok' = epoch_told [OF ok]
  note k = emit_told_quiet [OF R e ok' event_made_simps(1)] and h = emit_told_parts(4) [OF R e ok' event_made_simps(1)]
  have s1: "told_ok s1" "rl_links s1 = rl_links s0" "rl_epoch s1 = ?n" using k by simp_all
  have old: "event_epoch x < ?n" if "x \<in> set (snd (rl_sink s0))" for x using ok that by (force simp: told_ok_def hist_ok_def)
  let ?s1 = "s1\<lparr>rl_waiting := rl_waiting s1 - 1\<rparr>"
  have "map_of (rl_links ?s1) j = Some l \<Longrightarrow> ln_epoch l < rl_epoch ?s1" for j l
    using told_link(2) [OF ok, of j l] s1 by simp
  moreover have "shown_rows (rl_epoch ?s1) d (snd (rl_sink ?s1)) = []" if "r = Inr ()" for d
  proof -
    have "shown_rows ?n d (snd (rl_sink s0)) = []" using old by (intro shown_rows_none) fastforce
    with h that s1 show ?thesis by simp
  qed
  ultimately have "r = Inr () \<Longrightarrow> told_ok (put_link ?i (new_link ?n g first) ?s1)" for g
    using new_link_told [of ?s1] s1 by simp
  moreover have "told_ok (gap_left R x ?i ?n s1)" for x using gap_left_told [OF R s1(1)] s1(3) by simp
  ultimately show ?thesis using s1(1) by (cases r) (simp_all add: connect_client_def Let_def e split: sum.split)
qed

lemma start_told:
  assumes R: "re_capture R = recording C" and ok: "told_ok s"
  shows "told_ok (start_client R ffd fpeer first backend nonce s)"
proof -
  have "0 \<le> rl_epoch s" using ok by (simp add: told_ok_def)
  then have f: "told_ok (start_failed R e s)" for e using gap_left_told [OF R ok] by (simp add: start_failed_def)
  show ?thesis using ok f connect_told [OF R ok] by (simp add: start_client_def split: sum.split prod.split)
qed

lemma accept_told: "told_ok s \<Longrightarrow> told_ok (accept R s)"
  by (simp add: accept_def)

lemma step_told:
  assumes "relay_step R s s'" and R: "re_capture R = recording C" and ok: "told_ok s"
  shows "told_ok s'"
  using assms(1)
proof cases
  case accepted
  with accept_told [OF ok] show ?thesis by simp
next
  case started
  with start_told [OF R ok] show ?thesis by simp
next
  case refused
  with ok show ?thesis by simp
next
  case closed
  with ok show ?thesis by simp
next
  case turned
  with pump_turn_told [OF R ok] show ?thesis by simp
next
  case broken
  with pump_lost_told [OF ok] show ?thesis by simp
next
  case finished
  with finish_told [OF R ok] show ?thesis by simp
next
  case cancelled
  with told_drop [OF ok] ok show ?thesis by (simp add: cancel_client_def split: option.split)
qed

lemma new_relay_told: "told_ok (new_relay (sk, []))"
  by (simp add: told_ok_def new_relay_def links_ok_def hist_ok_def)

lemma run_told:
  assumes "relay_run R (sk, []) s" and "re_capture R = recording C"
  shows "told_ok s"
  using assms(1) unfolding relay_run_def 
proof (induction rule: rtranclp_induct)
  case base
  show ?case by (rule new_relay_told)
next
  case (step s s')
  from step_told [OF step.hyps(2) assms(2) step.IH] show ?case .
qed

end
