(* ===== verification/RelayProps.thy ===== *)
theory RelayProps
  imports RelayRuns
begin

text \<open>
  What the relay guarantees of every run: the number of frontends it serves, the agreement between what
  it writes and what its sink was shown, and the finality of a capture failure.
\<close>

section \<open>After a capture failure\<close>

text \<open>A relay whose links are among those of another, with nothing more written.\<close>

definition silenced :: "('g, 's) relay \<Rightarrow> ('g, 's) relay \<Rightarrow> bool" where
  "silenced s s' = (rl_failed s' \<and> rl_sink s' = rl_sink s
     \<and> (\<forall>i l'. map_of (rl_links s') i = Some l' \<longrightarrow>
          (\<exists>l :: 'g link. map_of (rl_links s) i = Some l \<and> (\<forall>d. link_written d l' = link_written d l))))"

lemma silenced_refl: "rl_failed s \<Longrightarrow> silenced s s"
  by (simp add: silenced_def)

lemma silenced_trans:
  assumes "silenced s s1" and "silenced s1 s2"
  shows "silenced s s2"
proof -
  have "\<exists>l :: 'a link. map_of (rl_links s) i = Some l \<and> (\<forall>d. link_written d l' = link_written d l)"
    if "map_of (rl_links s2) i = Some l'" for i and l' :: "'a link"
  proof -
    from assms(2) that obtain l1 :: "'a link" where 1: "map_of (rl_links s1) i = Some l1" "\<forall>d. link_written d l' = link_written d l1"
      unfolding silenced_def by blast
    from assms(1) 1(1) obtain l :: "'a link" where "map_of (rl_links s) i = Some l" "\<forall>d. link_written d l1 = link_written d l"
      unfolding silenced_def by blast
    with 1(2) show ?thesis by simp
  qed
  with assms show ?thesis by (simp add: silenced_def)
qed

lemma silenced_same: "silenced s s1 \<Longrightarrow> rl_links s2 = rl_links s1 \<Longrightarrow> rl_sink s2 = rl_sink s1 \<Longrightarrow> rl_failed s2 = rl_failed s1 \<Longrightarrow> silenced s s2"
  by (simp add: silenced_def)

lemma silenced_put:
  assumes "silenced s s1" and "map_of (rl_links s) i = Some l" and "\<And>d. link_written d l' = link_written d l"
  shows "silenced s (put_link i l' s1)"
  using assms by (auto simp: silenced_def)

lemma silenced_drop: "silenced s s1 \<Longrightarrow> silenced s (drop_link i s1)"
  by (auto simp: silenced_def)

lemma emit_failed:
  assumes "rl_failed s" and "emit_event R event i n s = (r, s')"
  shows "r = Inl capture_failure" "silenced s s'" "rl_links s' = rl_links s"
proof -
  note same = emit_frame [OF assms(2)]
  from assms(2) show r: "r = Inl capture_failure" by (cases rule: emit_cases) (use assms(1) in simp_all)
  from assms(2) have "rl_failed s' \<and> rl_sink s' = rl_sink s" by (cases rule: emit_cases) (use assms(1) in simp_all)
  with same show "silenced s s'" by (simp add: silenced_def)
  show "rl_links s' = rl_links s" by (rule same)
qed

lemma gap_left_failed:
  assumes "rl_failed s"
  shows "silenced s (gap_left R e i n s)"
proof -
  let ?event = "\<lambda>seq. GapEvent seq i n ''isolated_backend_or_relay_failed'' False"
  obtain r s' where emit: "emit_event R ?event i n s = (r, s')" by (cases "emit_event R ?event i n s")
  from emit_failed(2) [OF assms emit] show ?thesis by (simp add: gap_left_def emit silenced_refl assms)
qed

lemma leave_failed: "silenced s s1 \<Longrightarrow> silenced s (leave probe s1)"
  by (rule silenced_same) (simp_all add: leave_def)

lemma connect_failed:
  assumes "rl_failed s0"
  shows "silenced s0 (connect_client R ffd bfd fpeer bpeer nonce first s0)"
proof -
  let ?n = "rl_epoch s0 + 1" and ?i = "connection_name (rl_epoch s0 + 1) nonce"
  let ?event = "\<lambda>seq. ConnectionEvent seq ?i ?n ffd bfd fpeer bpeer"
  obtain r s1 where e: "emit_event R ?event ?i ?n (s0\<lparr>rl_epoch := ?n\<rparr>) = (r, s1)" by (cases "emit_event R ?event ?i ?n (s0\<lparr>rl_epoch := ?n\<rparr>)")
  have "rl_failed (s0\<lparr>rl_epoch := ?n\<rparr>)" using assms by simp
  note k = emit_failed [OF this e]
  have "silenced s0 s1" by (rule silenced_trans [OF _ k(2)]) (simp add: silenced_def assms)
  from leave_failed [OF this] show ?thesis by (simp add: connect_client_def Let_def e [simplified] k(1))
qed

lemma start_failed_silent: "rl_failed s \<Longrightarrow> silenced s (start_failed R e s)"
  by (simp add: start_failed_def leave_failed gap_left_failed)

lemma start_client_failed:
  assumes "rl_failed s"
  shows "silenced s (start_client R ffd fpeer first backend nonce s)"
  using leave_failed [OF silenced_refl [OF assms]] start_failed_silent [OF assms] connect_failed [OF assms]
  by (simp add: start_client_def split: sum.split prod.split)

lemma pump_data_failed:
  assumes "rl_failed s" and l: "map_of (rl_links s) i = Some l" and w: "\<And>d. link_written d l0 = link_written d l"
  shows "silenced s (pump_data R i d bytes l0 s)"
proof -
  let ?l = "count_event d l0"
  let ?event = "\<lambda>seq. DataEvent seq i (ln_epoch l0) d (link_seq d ?l) bytes"
  obtain r s1 where e: "emit_event R ?event i (ln_epoch l0) s = (r, s1)" by (cases "emit_event R ?event i (ln_epoch l0) s")
  note k = emit_failed [OF assms(1) e]
  from silenced_put [OF k(2) l] w show ?thesis by (simp add: pump_data_def Let_def e [simplified] k(1))
qed

lemma pump_eof_failed:
  assumes "rl_failed s" and l: "map_of (rl_links s) i = Some l" and w: "\<And>d. link_written d l0 = link_written d l"
  shows "silenced s (pump_eof R i d shut l0 s)"
proof -
  let ?l = "count_event d l0"
  let ?event = "\<lambda>seq. LifecycleEvent seq i (ln_epoch l0) ''eof'' (Some d) (Some (link_seq d ?l))"
  obtain r s1 where e: "emit_event R ?event i (ln_epoch l0) s = (r, s1)" by (cases "emit_event R ?event i (ln_epoch l0) s")
  note k = emit_failed [OF assms(1) e]
  from silenced_put [OF k(2) l] w show ?thesis by (simp add: pump_eof_def Let_def e [simplified] k(1))
qed

lemma pump_turn_failed:
  assumes f: "rl_failed s"
  shows "silenced s (pump_turn R i d shut received s)"
proof (cases "map_of (rl_links s) i")
  case (Some l0)
  define l where "l = (if d = ToBackend then l0\<lparr>ln_initial := []\<rparr> else l0)"
  have l: "link_written d' l = link_written d' l0" "link_written d' (l\<lparr>ln_gates := g\<rparr>) = link_written d' l0" for d' g by (simp_all add: l_def)
  note keeps = silenced_refl [OF f] pump_eof_failed [OF f Some l(1), of R d shut]
    pump_data_failed [OF f Some l(1), of R d] pump_data_failed [OF f Some l(2), of R d] silenced_put [OF silenced_refl [OF f] Some]
  show ?thesis using pump_turn_cases [OF Some l_def, of R shut received] keeps l by (elim disjE exE) simp_all
qed (simp add: pump_turn_def silenced_refl f)

lemma finish_failed: "rl_failed s \<Longrightarrow> silenced s (finish_client R i s)"
  by (simp add: finish_client_def silenced_refl silenced_drop split: option.split)

lemma pump_lost_failed:
  assumes f: "rl_failed s"
  shows "silenced s (pump_lost i d s)"
  using silenced_put [OF silenced_refl [OF f], of i] by (simp add: pump_lost_def silenced_refl f split: option.split)

lemma step_failed:
  assumes "relay_step R s s'" and f: "rl_failed s"
  shows "silenced s s'"
  using assms(1)
proof cases
  case accepted
  then show ?thesis using silenced_same [OF silenced_refl [OF f], of s'] silenced_refl [OF f] by (simp add: accept_def split: if_splits)
next
  case started
  with start_client_failed [OF f] show ?thesis by simp
next
  case refused
  with leave_failed [OF silenced_refl [OF f]] show ?thesis by simp
next
  case turned
  with pump_turn_failed [OF f] show ?thesis by simp
next
  case broken
  with pump_lost_failed [OF f] show ?thesis by simp
next
  case finished
  with finish_failed [OF f] show ?thesis by simp
next
  case cancelled
  with silenced_refl [OF f] show ?thesis by (simp add: cancel_client_def silenced_drop split: option.split)
next
  case closed
  with silenced_same [OF silenced_refl [OF f], of s'] show ?thesis by (simp add: closed_client_def)
qed

section \<open>How a relay reaches its sink\<close>

text \<open>
  One observation, for a relay of which only the capture flag and the sink are looked at: a callback that
  returns, or one that raises, with the gap after it.
\<close>

inductive heard :: "'s capture \<Rightarrow> bool \<times> 's \<Rightarrow> bool \<times> 's \<Rightarrow> bool" for C where
  returned: "C event sk = (Inr u, sk') \<Longrightarrow> heard C (False, sk) (False, sk')"
| raised: "C event sk = (Inl x, sk1) \<Longrightarrow> C (GapEvent k i n ''capture_callback_failed'' True) sk1 = (r, sk2) \<Longrightarrow> heard C (False, sk) (True, sk2)"

definition reached :: "('g, 's) relay_env \<Rightarrow> ('g, 's) relay \<Rightarrow> ('g, 's) relay \<Rightarrow> bool" where
  "reached R s s' = (heard (re_capture R))\<^sup>*\<^sup>* (rl_failed s, rl_sink s) (rl_failed s', rl_sink s')"

lemma reached_same: "rl_failed s' = rl_failed s \<Longrightarrow> rl_sink s' = rl_sink s \<Longrightarrow> reached R s s'"
  by (simp add: reached_def)

lemma reached_trans: "reached R s s1 \<Longrightarrow> reached R s1 s2 \<Longrightarrow> reached R s s2"
  unfolding reached_def by (rule rtranclp_trans)

lemma reached_moved [simp]: "reached R s (put_link i l s1) = reached R s s1" "reached R s (drop_link i s1) = reached R s s1"
  "reached R s (leave probe s1) = reached R s s1" "reached R s (closed_client s1) = reached R s s1" "reached R s (s1\<lparr>rl_waiting := w\<rparr>) = reached R s s1"
  "reached R (s\<lparr>rl_epoch := m\<rparr>) s1 = reached R s s1"
  by (simp_all add: reached_def leave_def closed_client_def)

lemma emit_reached:
  assumes "emit_event R event i n s = (r, s')"
  shows "reached R s s'"
  using assms
proof (cases rule: emit_cases)
  case dead
  then show ?thesis by (simp add: reached_same)
next
  case (told u sk)
  from heard.returned [of "re_capture R" "event (rl_observation s + 1)", OF told(2)] told show ?thesis by (simp add: reached_def r_into_rtranclp)
next
  case (raised x sk)
  from heard.raised [of "re_capture R" "event (rl_observation s + 1)", OF raised(2) surjective_pairing] raised show ?thesis by (simp add: reached_def r_into_rtranclp)
qed

lemma emit_on: "reached R s s0 \<Longrightarrow> reached R s (snd (emit_event R event i n s0))"
  using emit_reached [of R event i n s0] by (cases "emit_event R event i n s0") (auto intro: reached_trans)

lemma gap_left_reached: "reached R s s0 \<Longrightarrow> reached R s (gap_left R e i n s0)"
  by (simp add: gap_left_def emit_on)

lemma begun_reached: "reached R s (start_client R ffd fpeer first backend nonce s)"
proof -
  have same: "reached R s s" by (rule reached_same) simp_all
  have failed: "reached R s (start_failed R e s)" for e using gap_left_reached [OF same] by (simp add: start_failed_def)
  have "reached R s (connect_client R ffd bfd fpeer bpeer nonce initial s)" for bfd bpeer initial
  proof -
    let ?n = "rl_epoch s + 1" and ?i = "connection_name (rl_epoch s + 1) nonce"
    let ?event = "\<lambda>seq. ConnectionEvent seq ?i ?n ffd bfd fpeer bpeer"
    obtain r s1 where e: "emit_event R ?event ?i ?n (s\<lparr>rl_epoch := ?n\<rparr>) = (r, s1)" by (cases "emit_event R ?event ?i ?n (s\<lparr>rl_epoch := ?n\<rparr>)")
    have 1: "reached R s s1" using emit_reached [OF e] by simp
    show ?thesis using 1 gap_left_reached [OF 1] by (simp add: connect_client_def Let_def e [simplified] split: sum.split)
  qed
  with same failed show ?thesis by (simp add: start_client_def split: sum.split prod.split)
qed

lemma pump_data_reached: "reached R s (pump_data R i d bytes l s)"
  using emit_reached [of R "\<lambda>seq. DataEvent seq i (ln_epoch l) d (link_seq d (count_event d l)) bytes" i "ln_epoch l" s]
  by (simp add: pump_data_def Let_def split: prod.split sum.split)

lemma pump_eof_reached: "reached R s (pump_eof R i d shut l s)"
proof -
  let ?event = "\<lambda>kind seq. LifecycleEvent seq i (ln_epoch l) kind (Some d) (Some (link_seq d (count_event d l)))"
  obtain r1 s1 where 1: "emit_event R (?event ''eof'') i (ln_epoch l) s = (r1, s1)" by (cases "emit_event R (?event ''eof'') i (ln_epoch l) s")
  obtain r2 s2 where 2: "emit_event R (?event ''half_close'') i (ln_epoch l) s1 = (r2, s2)" by (cases "emit_event R (?event ''half_close'') i (ln_epoch l) s1")
  have "reached R s s1" by (rule emit_reached [OF 1])
  moreover from this have "reached R s s2" by (rule reached_trans [OF _ emit_reached [OF 2]])
  ultimately show ?thesis by (simp add: pump_eof_def Let_def 1 [simplified] 2 [simplified] split: sum.split)
qed

lemma pump_turn_reached: "reached R s (pump_turn R i d shut received s)"
proof (cases "map_of (rl_links s) i")
  case (Some l0)
  define l where "l = (if d = ToBackend then l0\<lparr>ln_initial := []\<rparr> else l0)"
  have same: "reached R s s" by (rule reached_same) simp_all
  show ?thesis using pump_turn_cases [OF Some l_def, of R shut received] same pump_data_reached [of R s] pump_eof_reached [of R s]
    by (elim disjE exE conjE) simp_all
qed (simp add: pump_turn_def reached_same)

lemma finish_reached: "reached R s (finish_client R i s)"
proof (cases "map_of (rl_links s) i")
  case (Some l)
  let ?event = "\<lambda>seq. LifecycleEvent seq i (ln_epoch l) ''disconnect'' None None"
  have same: "reached R s s" by (rule reached_same) simp_all
  from emit_on [OF same, of ?event] same show ?thesis by (simp add: finish_client_def Some)
qed (simp add: finish_client_def reached_same)

lemma step_reached: "relay_step R s s' \<Longrightarrow> reached R s s'"
proof (induction rule: relay_step.induct)
  case (started s nonce ffd fpeer first backend)
  show ?case by (rule begun_reached)
next
  case (turned i d shut received s)
  show ?case by (rule pump_turn_reached)
next
  case (finished i s)
  show ?case by (rule finish_reached)
qed (auto simp: reached_same accept_def leave_def pump_lost_def cancel_client_def closed_client_def split: option.split)

lemma steps_reached: "relay_steps R s s' \<Longrightarrow> reached R s s'"
proof (induction rule: rtranclp_induct)
  case base
  show ?case by (rule reached_same) simp_all
next
  case (step s1 s2)
  from reached_trans [OF step.IH step_reached [OF step.hyps(2)]] show ?case .
qed

text \<open>The minutes of a relay: every callback returned, or the last but one raised and the last one was the gap.\<close>

definition minutes_ok :: "bool \<Rightarrow> (capture_event \<times> bool) list \<Rightarrow> bool" where
  "minutes_ok failed rows = (if failed then \<exists>pre e k i n b. rows = pre @ [(e, False), (GapEvent k i n ''capture_callback_failed'' True, b)] \<and> list_all snd pre
     else list_all snd rows)"

lemma heard_minutes: "heard (minuting C) x y \<Longrightarrow> minutes_ok (fst x) (snd (snd x)) \<Longrightarrow> minutes_ok (fst y) (snd (snd y))"
proof (induction rule: heard.induct)
  case (returned event sk u sk')
  from minuting_keeps [of C event, OF returned(1)] returned(2) show ?case by (simp add: minutes_ok_def)
next
  case (raised event sk x sk1 k i n r sk2)
  from minuting_keeps [of C event, OF raised(1)] minuting_keeps [of C "GapEvent k i n ''capture_callback_failed'' True", OF raised(2)] raised(3)
  have "snd sk2 = snd sk @ [(event, False), (GapEvent k i n ''capture_callback_failed'' True, succeeds r)]" "list_all snd (snd sk)"
    by (simp_all add: minutes_ok_def)
  then show ?case unfolding minutes_ok_def by auto
qed

lemma run_minutes:
  assumes "relay_run R (sk, []) s" and "re_capture R = minuting C"
  shows "minutes_ok (rl_failed s) (snd (rl_sink s))"
proof -
  have "(heard (minuting C))\<^sup>*\<^sup>* (False, sk, []) (rl_failed s, rl_sink s)"
    using steps_reached assms by (fastforce simp: relay_run_def reached_def new_relay_def)
  then have "minutes_ok (fst (rl_failed s, rl_sink s)) (snd (snd (rl_failed s, rl_sink s)))"
    by (induction rule: rtranclp_induct) (simp_all add: minutes_ok_def [of False] heard_minutes)
  then show ?thesis by simp
qed

section \<open>The frontends that are served\<close>

lemma dict_set_length: "length (dict_set k v d) = (if map_of d k = None then Suc (length d) else length d)"
  unfolding dict_set_def by (induction d) auto

lemma dict_del_length: "map_of d k = Some v \<Longrightarrow> length (dict_del k d) < length d"
  unfolding dict_del_def by (rule length_filter_less [of "(k, v)"]) (auto dest: map_of_SomeD)

lemma active_emit: "emit_event R event i n s = (r, s') \<Longrightarrow> active_frontends s' = active_frontends s \<and> rl_waiting s' = rl_waiting s"
  using emit_frame [of R event i n s r s'] by (simp add: active_frontends_def)

lemma active_snd [simp]: "active_frontends (snd (emit_event R event i n s)) = active_frontends s" "rl_waiting (snd (emit_event R event i n s)) = rl_waiting s"
  by (cases "emit_event R event i n s", simp add: active_emit)+

lemma active_put: "map_of (rl_links s) i = Some l \<Longrightarrow> active_frontends (put_link i l' s) = active_frontends s"
  by (simp add: active_frontends_def put_link_def dict_set_length)

lemma active_new: "0 < rl_waiting s \<Longrightarrow> active_frontends (put_link i l (s\<lparr>rl_waiting := rl_waiting s - 1\<rparr>)) \<le> active_frontends s"
  by (simp add: active_frontends_def put_link_def dict_set_length)

lemma active_leave: "0 < rl_waiting s \<Longrightarrow> active_frontends (leave probe s) = active_frontends s"
  by (simp add: active_frontends_def leave_def)

lemma active_drop: "map_of (rl_links s) i = Some l \<Longrightarrow> active_frontends (drop_link i s) \<le> active_frontends s"
  using dict_del_length [of "rl_links s" i l] by (simp add: active_frontends_def drop_link_def)

lemma active_gap [simp]: "active_frontends (gap_left R e i n s) = active_frontends s" "rl_waiting (gap_left R e i n s) = rl_waiting s"
  by (simp_all add: gap_left_def)

lemma active_epoch [simp]: "active_frontends (s\<lparr>rl_epoch := n\<rparr>) = active_frontends s"
  by (simp add: active_frontends_def)

lemma active_connect:
  assumes "0 < rl_waiting s"
  shows "active_frontends (connect_client R ffd bfd fpeer bpeer nonce first s) \<le> active_frontends s"
proof -
  let ?n = "rl_epoch s + 1" and ?i = "connection_name (rl_epoch s + 1) nonce"
  let ?event = "\<lambda>seq. ConnectionEvent seq ?i ?n ffd bfd fpeer bpeer"
  obtain r s1 where e: "emit_event R ?event ?i ?n (s\<lparr>rl_epoch := ?n\<rparr>) = (r, s1)" by (cases "emit_event R ?event ?i ?n (s\<lparr>rl_epoch := ?n\<rparr>)")
  from active_emit [OF this] assms have "active_frontends s1 = active_frontends s" "0 < rl_waiting s1" by simp_all
  with active_new [OF this(2)] show ?thesis by (simp add: connect_client_def Let_def e [simplified] active_leave split: sum.split)
qed

lemma active_start:
  assumes "0 < rl_waiting s"
  shows "active_frontends (start_client R ffd fpeer first backend nonce s) \<le> active_frontends s"
  using assms active_connect [OF assms] by (simp add: start_client_def start_failed_def active_leave split: sum.split prod.split)

lemma active_put_after:
  assumes "emit_event R event i n s = (r, s')" and "map_of (rl_links s) j = Some l"
  shows "active_frontends (put_link j l' s') = active_frontends s"
  using active_put [of s' j l l'] active_emit [OF assms(1)] emit_frame(1) [OF assms(1)] assms(2) by simp

lemma pumped_active:
  assumes l: "map_of (rl_links s) i = Some l"
  shows "active_frontends (pump_data R i d bytes l0 s) = active_frontends s" "active_frontends (pump_eof R i d shut l0 s) = active_frontends s"
proof -
  show "active_frontends (pump_data R i d bytes l0 s) = active_frontends s"
    using l by (simp add: pump_data_def Let_def active_put_after split: prod.split sum.split)
  let ?event = "\<lambda>kind seq. LifecycleEvent seq i (ln_epoch l0) kind (Some d) (Some (link_seq d (count_event d l0)))"
  obtain r1 s1 where 1: "emit_event R (?event ''eof'') i (ln_epoch l0) s = (r1, s1)" by (cases "emit_event R (?event ''eof'') i (ln_epoch l0) s")
  obtain r2 s2 where 2: "emit_event R (?event ''half_close'') i (ln_epoch l0) s1 = (r2, s2)" by (cases "emit_event R (?event ''half_close'') i (ln_epoch l0) s1")
  have l1: "map_of (rl_links s1) i = Some l" using emit_frame(1) [OF 1] l by simp
  show "active_frontends (pump_eof R i d shut l0 s) = active_frontends s"
    using active_put_after [OF 1 l] active_put_after [OF 2 l1] active_emit [OF 1]
    by (simp add: pump_eof_def Let_def 1 [simplified] 2 [simplified] split: sum.split)
qed

lemma active_turn: "active_frontends (pump_turn R i d shut received s) = active_frontends s"
proof (cases "map_of (rl_links s) i")
  case (Some l0)
  define l where "l = (if d = ToBackend then l0\<lparr>ln_initial := []\<rparr> else l0)"
  show ?thesis using pump_turn_cases [OF Some l_def, of R shut received] pumped_active [OF Some] active_put [OF Some] by (elim disjE exE conjE) simp_all
qed (simp add: pump_turn_def)

lemma active_finish: "active_frontends (finish_client R i s) \<le> active_frontends s"
proof (cases "map_of (rl_links s) i")
  case (Some l)
  let ?event = "\<lambda>seq. LifecycleEvent seq i (ln_epoch l) ''disconnect'' None None"
  obtain r s1 where e: "emit_event R ?event i (ln_epoch l) s = (r, s1)" by (cases "emit_event R ?event i (ln_epoch l) s")
  have "active_frontends (drop_link i s1) \<le> active_frontends s1" by (rule active_drop) (use Some emit_frame(1) [OF e] in simp)
  moreover have "active_frontends (drop_link i s) \<le> active_frontends s" using Some by (rule active_drop)
  ultimately show ?thesis using active_emit [OF e] by (simp add: finish_client_def Some e)
qed (simp add: finish_client_def)

lemma active_step:
  assumes "relay_step R s s'" and m: "active_frontends s \<le> re_max R"
  shows "active_frontends s' \<le> re_max R"
  using assms(1)
proof cases
  case accepted
  with m show ?thesis by (auto simp: accept_def active_frontends_def)
next
  case started
  with m active_start show ?thesis using le_trans by blast
next
  case finished
  with le_trans [OF active_finish m] show ?thesis by simp
next
  case (cancelled i)
  have "active_frontends (cancel_client i s) \<le> active_frontends s" using active_drop [of s i] by (simp add: cancel_client_def split: option.split)
  from le_trans [OF this m] cancelled show ?thesis by simp
next
  case (broken i d)
  have "active_frontends (pump_lost i d s) = active_frontends s" using active_put [of s i] by (simp add: pump_lost_def split: option.split)
  with broken m show ?thesis by simp
next
  case closed
  have "active_frontends (closed_client s) \<le> active_frontends s" by (simp add: closed_client_def active_frontends_def)
  from le_trans [OF this m] closed show ?thesis by simp
qed (use m in \<open>simp_all add: active_leave active_turn\<close>)

section \<open>A relay that runs\<close>

text \<open>A frontend says \<open>ab\<close> and \<open>cd\<close>; the gate keeps the first chunk back, the backend answers \<open>e\<close>.\<close>

definition relay_peer :: peer where
  "relay_peer = \<lparr>pe_pid = Some 7, pe_uid = Some 501, pe_birth = Some ''b'', pe_executable = Some ''x'', pe_source = ''s''\<rparr>"

definition relay_sample :: "bool \<Rightarrow> (nat, unit \<times> capture_event list) relay_env" where
  "relay_sample fails = \<lparr>re_stop = True, re_wait = True, re_authorize = Some (\<lambda>p. Inr (pe_uid p = Some 501)), re_max = 1,
     re_factory = (\<lambda>f b i n. Inr (Some \<lparr>gt_state = 0, gt_front = True, gt_back = False\<rparr>)),
     re_gate = (\<lambda>d data k. (Inr (if k = 0 then [] else data), k + 1)),
     re_capture = recording (\<lambda>e u. (case e of DataEvent _ _ _ _ _ _ \<Rightarrow> if fails then os_error else Inr () | _ \<Rightarrow> Inr (), u))\<rparr>"

definition relay_opened :: "bool \<Rightarrow> (nat, unit \<times> capture_event list) relay" where
  "relay_opened fails = start_client (relay_sample fails) 3 relay_peer (Inr ''ab'') (Inr (4, relay_peer, None)) ''0123456789ab''
     (accept (relay_sample fails) (new_relay ((), [])))"

definition relay_spoken :: "bool \<Rightarrow> (nat, unit \<times> capture_event list) relay" where
  "relay_spoken fails = pump_turn (relay_sample fails) ''conn-1-0123456789ab'' ToFrontend True ''e''
     (pump_turn (relay_sample fails) ''conn-1-0123456789ab'' ToBackend True ''cd''
       (pump_turn (relay_sample fails) ''conn-1-0123456789ab'' ToBackend True [] (relay_opened fails)))"

lemma relay_opened_run: "relay_run (relay_sample fails) ((), []) (relay_opened fails)"
proof -
  let ?R = "relay_sample fails" and ?s = "new_relay ((), []) :: (nat, unit \<times> capture_event list) relay"
  have "relay_step ?R (accept ?R ?s) (relay_opened fails)"
    unfolding relay_opened_def by (rule relay_step.started) (simp_all add: accept_def new_relay_def active_frontends_def relay_sample_def)
  with relay_step.accepted [of ?R ?s] show ?thesis unfolding relay_run_def by (rule converse_rtranclp_into_rtranclp [OF _ r_into_rtranclp])
qed

lemma relay_spoken_steps: "relay_steps (relay_sample fails) (relay_opened fails) (relay_spoken fails)"
proof -
  let ?R = "relay_sample fails" and ?i = "''conn-1-0123456789ab''" and ?s = "relay_opened fails"
  let ?s1 = "pump_turn ?R ?i ToBackend True [] ?s"
  let ?s2 = "pump_turn ?R ?i ToBackend True ''cd'' ?s1"
  have "relay_steps ?R ?s ?s1" "relay_steps ?R ?s1 ?s2" "relay_steps ?R ?s2 (relay_spoken fails)"
    unfolding relay_spoken_def by (rule r_into_rtranclp, rule relay_step.turned)+
  then show ?thesis by (meson rtranclp_trans)
qed

lemma relay_spoken_run: "relay_run (relay_sample fails) ((), []) (relay_spoken fails)"
  using relay_opened_run relay_spoken_steps unfolding relay_run_def by (rule rtranclp_trans)

lemma relay_sample_records: "\<exists>C. re_capture (relay_sample fails) = recording C"
  by (auto simp: relay_sample_def)

lemma relay_spoken_value:
  "map_option (\<lambda>l. (link_written ToBackend l, link_written ToFrontend l)) (map_of (rl_links (relay_spoken False)) ''conn-1-0123456789ab'')
     = Some (''cd'', ''e'')"
  by code_simp

section \<open>Properties\<close>

text \<open>
  C17. Whatever the gates and the sockets do, the bytes that were written to either side of a live
  connection are exactly the bytes of the data events the capture sink has accepted for the connection
  and the direction, in order; the events of a direction are numbered 1, 2, 3 and so on, the
  observation numbers of all events strictly increase, and no other connection shares the epoch.
\<close>

theorem relay_sends_what_it_showed:
  assumes "relay_run R (sk, []) s" and "re_capture R = recording C" and "map_of (rl_links s) i = Some l"
  shows "link_written d l = concat (map snd (shown_rows (ln_epoch l) d (snd (rl_sink s))))
    \<and> map fst (shown_rows (ln_epoch l) d (snd (rl_sink s))) = map (\<lambda>k. int k + 1) [0..<length (shown_rows (ln_epoch l) d (snd (rl_sink s)))]
    \<and> sorted_wrt (\<lambda>x y. event_seq x < event_seq y) (snd (rl_sink s))
    \<and> (\<forall>j m. map_of (rl_links s) j = Some m \<longrightarrow> j \<noteq> i \<longrightarrow> ln_epoch m \<noteq> ln_epoch l)"
proof -
  have told: "told_ok s" by (rule run_told [OF assms(1,2)])
  from told_link(1) [OF told assms(3), of d] have "link_written d l = shown (ln_epoch l) d (snd (rl_sink s))"
    "numbered (shown_rows (ln_epoch l) d (snd (rl_sink s)))" by (simp_all add: link_ok_def)
  moreover have "sorted_wrt (\<lambda>x y. event_seq x < event_seq y) (snd (rl_sink s))" using told by (simp add: told_ok_def hist_ok_def)
  moreover have "\<forall>j m. map_of (rl_links s) j = Some m \<longrightarrow> j \<noteq> i \<longrightarrow> ln_epoch m \<noteq> ln_epoch l"
    using links_okD(3) [of "snd (rl_sink s)" s i l] told assms(3) by (simp add: told_ok_def)
  ultimately show ?thesis by (simp add: shown_def numbered_def)
qed

theorem relay_sends_what_it_showed_witness:
  "\<exists>l. map_of (rl_links (relay_spoken False)) ''conn-1-0123456789ab'' = Some l \<and> link_written ToBackend l = ''cd''
    \<and> concat (map snd (shown_rows (ln_epoch l) ToBackend (snd (rl_sink (relay_spoken False))))) = ''cd''"
proof -
  obtain l where l: "map_of (rl_links (relay_spoken False)) ''conn-1-0123456789ab'' = Some l" "link_written ToBackend l = ''cd''"
    using relay_spoken_value by auto
  obtain C where C: "re_capture (relay_sample False) = recording C" using relay_sample_records by blast
  from relay_sends_what_it_showed [OF relay_spoken_run C l(1), of ToBackend] l show ?thesis by auto
qed

text \<open>
  C18. A capture failure is final: in a relay with any sink, whose calls are written down with their outcome,
  from the moment on when a callback has raised the sink has been called with nothing after that event but
  the one gap that tells of the failure, and however the relay goes on no further event reaches the
  sink, no new connection is served and not one more byte is written to a side of a connection.
\<close>

theorem capture_failure_is_final:
  assumes "relay_run R (sk, []) s" and "re_capture R = minuting C" and "(event, False) \<in> set (snd (rl_sink s))" and "relay_steps R s s'"
  shows "(\<exists>pre e k i n b. snd (rl_sink s) = pre @ [(e, False), (GapEvent k i n ''capture_callback_failed'' True, b)] \<and> list_all snd pre)
    \<and> rl_sink s' = rl_sink s
    \<and> (\<forall>i l'. map_of (rl_links s') i = Some l' \<longrightarrow>
         (\<exists>l. map_of (rl_links s) i = Some l \<and> (\<forall>d. link_written d l' = link_written d l)))"
proof -
  note minutes = run_minutes [OF assms(1,2)]
  have failed: "rl_failed s" using minutes assms(3) by (auto simp: minutes_ok_def list_all_iff split: if_splits)
  from assms(4) have "silenced s s'"
  proof (induction rule: rtranclp_induct)
    case base
    show ?case by (rule silenced_refl [OF failed])
  next
    case (step s1 s2)
    have "rl_failed s1" using step.IH by (simp add: silenced_def)
    from silenced_trans [OF step.IH step_failed [OF step.hyps(2) this]] show ?case .
  qed
  with minutes failed show ?thesis by (simp add: silenced_def minutes_ok_def)
qed

definition failing_sample :: "(nat, unit \<times> (capture_event \<times> bool) list) relay_env" where
  "failing_sample = \<lparr>re_stop = True, re_wait = True, re_authorize = Some (\<lambda>p. Inr (pe_uid p = Some 501)), re_max = 1,
     re_factory = (\<lambda>f b i n. Inr None), re_gate = (\<lambda>d data k. (Inr data, k)),
     re_capture = minuting (\<lambda>e u. (case e of DataEvent _ _ _ _ _ _ \<Rightarrow> os_error | _ \<Rightarrow> Inr (), u))\<rparr>"

definition failing_opened :: "(nat, unit \<times> (capture_event \<times> bool) list) relay" where
  "failing_opened = start_client failing_sample 3 relay_peer (Inr ''ab'') (Inr (4, relay_peer, None)) ''0123456789ab'' (accept failing_sample (new_relay ((), [])))"

definition failing_spoken :: "(nat, unit \<times> (capture_event \<times> bool) list) relay" where
  "failing_spoken = pump_turn failing_sample ''conn-1-0123456789ab'' ToBackend True ''cd'' failing_opened"

lemma failing_run: "relay_run failing_sample ((), []) failing_spoken"
proof -
  let ?R = failing_sample and ?s = "new_relay ((), []) :: (nat, unit \<times> (capture_event \<times> bool) list) relay"
  have 1: "relay_step ?R ?s (accept ?R ?s)" by (rule relay_step.accepted)
  have 2: "relay_step ?R (accept ?R ?s) failing_opened"
    unfolding failing_opened_def by (rule relay_step.started) (simp_all add: accept_def new_relay_def active_frontends_def failing_sample_def)
  have 3: "relay_step ?R failing_opened failing_spoken" unfolding failing_spoken_def by (rule relay_step.turned)
  show ?thesis unfolding relay_run_def using 1 2 3 by (meson rtranclp.rtrancl_into_rtrancl rtranclp.rtrancl_refl)
qed

theorem capture_failure_is_final_witness:
  "\<exists>pre e g. snd (rl_sink failing_spoken) = pre @ [e, g] \<and> \<not> snd e
     \<and> rl_sink (pump_turn failing_sample ''conn-1-0123456789ab'' ToFrontend True ''x'' failing_spoken) = rl_sink failing_spoken"
proof -
  let ?s' = "pump_turn failing_sample ''conn-1-0123456789ab'' ToFrontend True ''x'' failing_spoken"
  have rows: "map snd (snd (rl_sink failing_spoken)) = [True, False, True]" by code_simp
  then have "False \<in> snd ` set (snd (rl_sink failing_spoken))" using image_set [of snd "snd (rl_sink failing_spoken)"] by simp
  then obtain event where raised: "(event, False) \<in> set (snd (rl_sink failing_spoken))" by auto
  have capture: "re_capture failing_sample = minuting (\<lambda>e u. (case e of DataEvent _ _ _ _ _ _ \<Rightarrow> os_error | _ \<Rightarrow> Inr (), u))" by (simp add: failing_sample_def)
  have "relay_steps failing_sample failing_spoken ?s'" by (rule r_into_rtranclp, rule relay_step.turned)
  from capture_failure_is_final [OF failing_run capture raised this] show ?thesis by (metis snd_conv)
qed

text \<open>
  C21. However connections arrive, start, fail and end, the relay never serves more frontends at once than
  its limit, counting those that only close.
\<close>

theorem frontends_are_bounded:
  assumes "relay_run R sk s"
  shows "active_frontends s \<le> re_max R"
  using assms unfolding relay_run_def
proof (induction rule: rtranclp_induct)
  case base
  show ?case by (simp add: new_relay_def active_frontends_def)
next
  case (step s s')
  from active_step [OF step.hyps(2) step.IH] show ?case .
qed

theorem frontends_are_bounded_witness: "active_frontends (relay_opened False) = 1 \<and> active_frontends (relay_opened False) \<le> re_max (relay_sample False)"
proof
  show "active_frontends (relay_opened False) = 1" by code_simp
  show "active_frontends (relay_opened False) \<le> re_max (relay_sample False)" by (rule frontends_are_bounded [OF relay_opened_run])
qed

end
