(* ===== verification/Base64.thy ===== *)
theory Base64
  imports WebSocket
begin

text \<open>
  The standard Base64 alphabet, as \<open>base64.b64encode\<close> and \<open>base64.b64decode(..., validate=True)\<close>
  use it.
\<close>

definition b64_alphabet :: string where
  "b64_alphabet = ''ABCDEFGHIJKLMNOPQRSTUVWXYZabcdefghijklmnopqrstuvwxyz0123456789+/''"

definition b64_char :: "nat \<Rightarrow> char" where
  "b64_char n = b64_alphabet ! (n mod 64)"

definition b64_value :: "char \<Rightarrow> nat option" where
  "b64_value c = (let n = length (takeWhile (\<lambda>x. x \<noteq> c) b64_alphabet) in if n < 64 then Some n else None)"

fun b64encode :: "string \<Rightarrow> string" where
  "b64encode [] = []"
| "b64encode [a] = [b64_char (byte a div 4), b64_char (byte a mod 4 * 16), CHR ''='', CHR ''='']"
| "b64encode [a, b] =
    [b64_char (byte a div 4), b64_char (byte a mod 4 * 16 + byte b div 16), b64_char (byte b mod 16 * 4), CHR ''='']"
| "b64encode (a # b # c # s) =
    [b64_char (byte a div 4), b64_char (byte a mod 4 * 16 + byte b div 16), b64_char (byte b mod 16 * 4 + byte c div 64),
     b64_char (byte c mod 64)] @ b64encode s"

text \<open>A text is rejected unless it consists of whole groups and only the last one is padded.\<close>

fun b64decode :: "string \<Rightarrow> string option" where
  "b64decode [] = Some []"
| "b64decode (p # q # r # t # s) = (case (b64_value p, b64_value q) of
      (Some i, Some j) \<Rightarrow>
        (let a = byte_char (i * 4 + j div 16) in
         if r = CHR ''='' \<and> t = CHR ''='' \<and> s = [] then Some [a]
         else case b64_value r of
             None \<Rightarrow> None
           | Some k \<Rightarrow>
               (let b = byte_char (j mod 16 * 16 + k div 4) in
                if t = CHR ''='' \<and> s = [] then Some [a, b]
                else case b64_value t of
                    None \<Rightarrow> None
                  | Some l \<Rightarrow> map_option (\<lambda>rest. a # b # byte_char (k mod 4 * 64 + l) # rest) (b64decode s)))
    | _ \<Rightarrow> None)"
| "b64decode s = None"

lemma b64_value_char [simp]: "n < 64 \<Longrightarrow> b64_value (b64_char n) = Some n"
proof -
  have "distinct b64_alphabet" by (simp add: b64_alphabet_def)
  moreover have "length b64_alphabet = 64" by (simp add: b64_alphabet_def)
  moreover assume "n < 64"
  ultimately have "length (takeWhile (\<lambda>x. x \<noteq> b64_alphabet ! n) b64_alphabet) = n"
    by (subst takeWhile_eq_take_P_nth [of n]) (auto simp: nth_eq_iff_index_eq)
  then show ?thesis using \<open>n < 64\<close> by (simp add: b64_value_def b64_char_def)
qed

lemma b64_char_pad [simp]: "n < 64 \<Longrightarrow> b64_char n \<noteq> CHR ''=''"
proof -
  have "CHR ''='' \<notin> set b64_alphabet" and "length b64_alphabet = 64" by (simp_all add: b64_alphabet_def)
  then show "n < 64 \<Longrightarrow> b64_char n \<noteq> CHR ''=''" by (metis b64_char_def mod_less nth_mem)
qed

lemma byte_parts [simp]:
  "byte a div 4 < 64" "byte a div 16 < 16" "byte a div 64 < 4"
  "byte_char (byte a div 4 * 4 + byte a mod 4) = a"
proof -
  have a: "byte a < 256" by simp
  show "byte a div 4 < 64" using a by (simp add: less_mult_imp_div_less)
  show "byte a div 16 < 16" using a by (simp add: less_mult_imp_div_less)
  show "byte a div 64 < 4" using a by (simp add: less_mult_imp_div_less)
qed simp

lemma div_mod_split: "y < m \<Longrightarrow> (x * m + y) div m = x" "y < m \<Longrightarrow> (x * m + y) mod m = (y::nat)"
  by simp_all

lemma byte_split [simp]:
  "byte_char (byte b div 16 * 16 + byte b mod 16) = b"
  "byte_char (byte c div 64 * 64 + byte c mod 64) = c"
  by simp_all

text \<open>Reading back what was encoded.\<close>

lemma b64_roundtrip [simp]: "b64decode (b64encode s) = Some s"
proof (induction s rule: b64encode.induct)
  case (2 a)
  have "byte a mod 4 * 16 < 64" by simp
  then show ?case by (simp add: Let_def)
next
  case (3 a b)
  have b: "byte b div 16 < 16" by simp
  have j: "byte a mod 4 * 16 + byte b div 16 < 64" using b mod_less_divisor [of 4 "byte a"] by linarith
  have k: "byte b mod 16 * 4 < 64" "byte b mod 16 * 4 div 4 = byte b mod 16" by simp_all
  show ?case
    by (simp only: b64encode.simps b64decode.simps b64_value_char [OF byte_parts(1)] b64_value_char [OF j] b64_value_char [OF k(1)]
        option.case prod.case Let_def div_mod_split [OF b] k(2) byte_parts(4) byte_split(1) b64_char_pad [OF k(1)] simp_thms if_True if_False)
next
  case (4 a b c s)
  have b: "byte b div 16 < 16" and c: "byte c div 64 < 4" by simp_all
  have j: "byte a mod 4 * 16 + byte b div 16 < 64" using b mod_less_divisor [of 4 "byte a"] by linarith
  have k: "byte b mod 16 * 4 + byte c div 64 < 64" using c mod_less_divisor [of 16 "byte b"] by linarith
  have l: "byte c mod 64 < 64" by simp
  show ?case
    by (simp only: b64encode.simps b64decode.simps b64_value_char [OF byte_parts(1)] b64_value_char [OF j] b64_value_char [OF k] b64_value_char [OF l]
        append.simps option.case prod.case Let_def div_mod_split [OF b] div_mod_split [OF c] byte_parts(4) byte_split
        b64_char_pad [OF k] b64_char_pad [OF l] simp_thms if_True if_False 4 option.map)
qed simp

end
