(* ===== verification/Observer.thy ===== *)
theory Observer
  imports OwnerSession Base64 Utf8
begin

text \<open>
  The side-channel observer of the relay (\<open>runtime/native/proxy_observer.py\<close>): it parses copies of
  the bytes of both directions of a connection (upgrade, frames, JSON-RPC) and appends bounded
  records to a queue. Anything it cannot follow is a gap, after which the connection is not
  observed any more. The extension of the activation service (\<open>_ActivationObserver\<close>) overrides one
  method and is the second class of observer.

  The digests and the scanner of \<open>json.loads\<close> are arguments. The callback sees every record at the
  moment it enters the queue, and its exceptions are dropped, so the queue tells what it saw.
\<close>

section \<open>The state\<close>

datatype side = Client | Server

definition side_name :: "side \<Rightarrow> string" where
  "side_name d = (case d of Client \<Rightarrow> ''client'' | Server \<Rightarrow> ''server'')"

definition side_of :: "string \<Rightarrow> side option" where
  "side_of s = (if s = ''client'' then Some Client else if s = ''server'' then Some Server else None)"

definition other_side :: "side \<Rightarrow> side" where
  "other_side d = (case d of Client \<Rightarrow> Server | Server \<Rightarrow> Client)"

record parser =
  ps_buffer :: string
  ps_handshake :: bool
  ps_fopcode :: "nat option"
  ps_fpayload :: string

definition fresh_parser :: parser where
  "fresh_parser = \<lparr>ps_buffer = [], ps_handshake = False, ps_fopcode = None, ps_fpayload = []\<rparr>"

record connection =
  cn_epoch :: int
  cn_state :: string
  cn_valid :: bool
  cn_closed :: bool
  cn_overflowed :: bool
  cn_key :: "string option"
  cn_client :: parser
  cn_server :: parser
  cn_pending :: "((side \<times> json) \<times> string) list"

definition new_connection :: "int \<Rightarrow> connection" where
  "new_connection epoch = \<lparr>cn_epoch = epoch, cn_state = ''UNBOUND'', cn_valid = True, cn_closed = False, cn_overflowed = False,
     cn_key = None, cn_client = fresh_parser, cn_server = fresh_parser, cn_pending = []\<rparr>"

definition parser_of :: "side \<Rightarrow> connection \<Rightarrow> parser" where
  "parser_of d c = (case d of Client \<Rightarrow> cn_client c | Server \<Rightarrow> cn_server c)"

definition set_parser :: "side \<Rightarrow> parser \<Rightarrow> connection \<Rightarrow> connection" where
  "set_parser d p c = (case d of Client \<Rightarrow> c\<lparr>cn_client := p\<rparr> | Server \<Rightarrow> c\<lparr>cn_server := p\<rparr>)"

record event =
  ev_kind :: string
  ev_epoch :: "int option"
  ev_seq :: int
  ev_side :: "side option"
  ev_fields :: jdict

record observer =
  ob_max_header :: nat
  ob_max_frame :: nat
  ob_max_message :: nat
  ob_max_events :: nat
  ob_cwd :: json
  ob_connections :: "(string \<times> connection) list"
  ob_max_epoch :: int
  ob_next_epoch :: int
  ob_next_seq :: int
  ob_events :: "event list"

definition value_error :: "string \<Rightarrow> exn" where
  "value_error message = Raised ''ValueError'' message"

definition make_observer :: "int \<Rightarrow> int \<Rightarrow> int \<Rightarrow> int \<Rightarrow> json \<Rightarrow> observer result" where
  "make_observer max_header max_frame max_message max_events cwd =
     ensure (1 \<le> min (min max_header max_frame) (min max_message max_events)) (value_error ''observer limits must be positive'')
    (ensure (2 \<le> max_events) (value_error ''max_events must reserve one slot for an overflow gap'')
    (Inr \<lparr>ob_max_header = nat max_header, ob_max_frame = nat max_frame, ob_max_message = nat max_message, ob_max_events = nat max_events,
       ob_cwd = cwd, ob_connections = [], ob_max_epoch = 0, ob_next_epoch = 1, ob_next_seq = 1, ob_events = []\<rparr>))"

section \<open>Records\<close>

definition invalidate_parser :: "parser \<Rightarrow> parser" where
  "invalidate_parser p = p\<lparr>ps_buffer := [], ps_fpayload := [], ps_fopcode := None\<rparr>"

definition invalidate :: "connection \<Rightarrow> connection" where
  "invalidate c = c\<lparr>cn_valid := False, cn_state := ''PENDING'', cn_client := invalidate_parser (cn_client c),
     cn_server := invalidate_parser (cn_server c), cn_pending := []\<rparr>"

text \<open>
  The record enters the queue unless only the last place is left; then a gap takes its place and its
  sequence number is skipped. The first component says whether that happened.
\<close>

definition append_record :: "string \<Rightarrow> int option \<Rightarrow> side option \<Rightarrow> jdict \<Rightarrow> observer \<Rightarrow> bool \<times> observer" where
  "append_record kind epoch d info ob =
    (let seq = ob_next_seq ob in
     if ob_max_events ob - 1 \<le> length (ob_events ob) then
       (True, ob\<lparr>ob_next_seq := seq + 2,
          ob_events := ob_events ob @ [\<lparr>ev_kind = ''gap'', ev_epoch = epoch, ev_seq = seq + 1, ev_side = d,
            ev_fields = [(''reason'', JStr ''event_queue_overflow'')]\<rparr>]\<rparr>)
     else
       (False, ob\<lparr>ob_next_seq := seq + 1,
          ob_events := ob_events ob @ [\<lparr>ev_kind = kind, ev_epoch = epoch, ev_seq = seq, ev_side = d, ev_fields = info\<rparr>]\<rparr>))"

type_synonym obs_state = "connection \<times> observer"

text \<open>\<open>_emit\<close> for a connection and without one.\<close>

definition emit :: "string \<Rightarrow> side option \<Rightarrow> jdict \<Rightarrow> obs_state \<Rightarrow> obs_state" where
  "emit kind d info s = (case s of (c, ob) \<Rightarrow>
     if cn_overflowed c then (c, ob)
     else case append_record kind (Some (cn_epoch c)) d info ob of (full, ob') \<Rightarrow>
       (if full then (invalidate c)\<lparr>cn_overflowed := True\<rparr> else c, ob'))"

definition emit_free :: "string \<Rightarrow> side option \<Rightarrow> jdict \<Rightarrow> observer \<Rightarrow> observer" where
  "emit_free kind d info ob = snd (append_record kind None d info ob)"

definition gap :: "string \<Rightarrow> side option \<Rightarrow> jdict \<Rightarrow> obs_state \<Rightarrow> obs_state" where
  "gap reason d info s = (case s of (c, ob) \<Rightarrow>
     if cn_valid c then emit ''gap'' d ((''reason'', JStr reason) # info) (invalidate c, ob) else (c, ob))"

definition events_since :: "int \<Rightarrow> observer \<Rightarrow> event list" where
  "events_since seq ob = filter (\<lambda>e. seq \<le> ev_seq e) (ob_events ob)"

section \<open>The upgrade\<close>

record wire_platform =
  wp_sha1 :: "string \<Rightarrow> string"
  wp_sha256 :: "string \<Rightarrow> string"
  wp_scan :: "string \<Rightarrow> json list + json"

definition ws_guid :: string where
  "ws_guid = ''258EAFA5-E914-47DA-95CA-C5AB0DC85B11''"

text \<open>\<open>str.strip()\<close> on ASCII text and \<open>str.split(c)\<close>.\<close>

definition str_space :: "char \<Rightarrow> bool" where
  "str_space c = (c = CHR '' '' \<or> in_range CHR 0x09 CHR 0x0D c \<or> in_range CHR 0x1C CHR 0x1F c)"

definition str_strip :: "string \<Rightarrow> string" where
  "str_strip s = rev (dropWhile str_space (rev (dropWhile str_space s)))"

fun split_at :: "char \<Rightarrow> string \<Rightarrow> string \<Rightarrow> string list" where
  "split_at x acc [] = [rev acc]"
| "split_at x acc (c # cs) = (if c = x then rev acc # split_at x [] cs else split_at x (c # acc) cs)"

definition header_char :: "char \<Rightarrow> bool" where
  "header_char c = (in_range CHR ''a'' CHR ''z'' c \<or> in_range CHR ''0'' CHR ''9'' c \<or> c = CHR ''-'')"

text \<open>The fields of the head: every name with the list of its values.\<close>

type_synonym header_fields = "(string \<times> string list) list"

definition field_values :: "header_fields \<Rightarrow> string \<Rightarrow> string list" where
  "field_values fs name = (case map_of fs name of None \<Rightarrow> [] | Some vs \<Rightarrow> vs)"

definition add_field :: "string \<Rightarrow> header_fields \<Rightarrow> unit + header_fields" where
  "add_field line fs =
     ensure (CHR '':'' \<in> set line) ()
    (let name = takeWhile (\<lambda>c. c \<noteq> CHR '':'') line; key = map ascii_lower (str_strip name) in
     ensure (key \<noteq> [] \<and> list_all header_char key) ()
    (Inr (dict_set key (field_values fs key @ [str_strip (drop (length name + 1) line)]) fs)))"

definition header_tokens :: "string list \<Rightarrow> string list" where
  "header_tokens values = map (\<lambda>t. map ascii_lower (str_strip t)) (filter (\<lambda>t. str_strip t \<noteq> []) (concat (map (split_at CHR '','' []) values)))"

text \<open>The key of a request whose head is acceptable.\<close>

definition check_request :: "string \<Rightarrow> header_fields \<Rightarrow> string option" where
  "check_request request fs =
    (let parts = split_at CHR '' '' [] request; keys = field_values fs ''sec-websocket-key'' in
     if length parts \<noteq> 3 \<or> parts ! 0 \<noteq> ''GET'' \<or> parts ! 2 \<noteq> ''HTTP/1.1''
        \<or> (\<exists>name \<in> set [''host'', ''sec-websocket-key'', ''sec-websocket-version'']. field_values fs name = [])
        \<or> field_values fs ''sec-websocket-version'' \<noteq> [''13''] \<or> length keys \<noteq> 1
        \<or> ''websocket'' \<notin> set (header_tokens (field_values fs ''upgrade''))
        \<or> ''upgrade'' \<notin> set (header_tokens (field_values fs ''connection'')) then None
     else case b64decode (hd keys) of
         None \<Rightarrow> None
       | Some key \<Rightarrow> if length key \<noteq> 16 \<or> b64encode key \<noteq> hd keys then None else Some (hd keys))"

definition check_answer :: "wire_platform \<Rightarrow> string option \<Rightarrow> string \<Rightarrow> header_fields \<Rightarrow> bool" where
  "check_answer W client_key status fs =
    (let accepts = field_values fs ''sec-websocket-accept'';
         expected = b64encode (wp_sha1 W ((case client_key of None \<Rightarrow> [] | Some k \<Rightarrow> k) @ ws_guid)) in
     starts_with ''HTTP/1.1 101 '' status
     \<and> ''websocket'' \<in> set (header_tokens (field_values fs ''upgrade''))
     \<and> ''upgrade'' \<in> set (header_tokens (field_values fs ''connection''))
     \<and> length accepts = 1 \<and> client_key \<noteq> None \<and> hd accepts = expected)"

text \<open>The verdict on a head without its blank line: the reason of a gap or the connection, with the key of a request.\<close>

definition check_head :: "wire_platform \<Rightarrow> side \<Rightarrow> string \<Rightarrow> connection \<Rightarrow> string + connection" where
  "check_head W d head c =
    (let lines = split_crlf [] head in
     ensure (list_all (in_range CHR 0x00 CHR 0x7F) head) ''invalid_http_header''
    (ensure (CHR 0x00 \<notin> set head) ''invalid_http_header''
    (andThen (except_as (fold_result add_field (tl lines) []) ''invalid_http_header'') (\<lambda>fs.
     ensure (list_all (\<lambda>v. str_strip v = []) (field_values fs ''sec-websocket-extensions'')) ''unsupported_extension''
    (case d of
       Client \<Rightarrow> (case check_request (hd lines) fs of
           None \<Rightarrow> Inl ''invalid_upgrade_request''
         | Some key \<Rightarrow> Inr (c\<lparr>cn_key := Some key\<rparr>))
     | Server \<Rightarrow> ensure (check_answer W (cn_key c) (hd lines) fs) ''invalid_upgrade_response'' (Inr c))))))"

definition parse_upgrade :: "wire_platform \<Rightarrow> side \<Rightarrow> obs_state \<Rightarrow> bool \<times> obs_state" where
  "parse_upgrade W d s = (case s of (c, ob) \<Rightarrow>
    (let p = parser_of d c; buf = ps_buffer p in
     case find_marker buf of
       None \<Rightarrow> (False, if ob_max_header ob < length buf then gap ''header_too_large'' (Some d) [] (c, ob) else (c, ob))
     | Some marker \<Rightarrow>
         if ob_max_header ob < marker + 4 then (False, gap ''header_too_large'' (Some d) [] (c, ob))
         else let p1 = p\<lparr>ps_buffer := drop (marker + 4) buf\<rparr>; c1 = set_parser d p1 c in
           case check_head W d (take marker buf) c1 of
             Inl reason \<Rightarrow> (False, gap reason (Some d) [] (c1, ob))
           | Inr c2 \<Rightarrow> (True, emit ''websocket_upgrade'' (Some d) [] (set_parser d (p1\<lparr>ps_handshake := True\<rparr>) c2, ob))))"

section \<open>JSON-RPC\<close>

definition max_safe_id :: nat where
  "max_safe_id = 256"

definition max_safe_string :: nat where
  "max_safe_string = 4096"

definition max_pending_requests :: nat where
  "max_pending_requests = 256"

definition max_cwds :: nat where
  "max_cwds = 64"

definition min_jsonrpc_integer :: int where
  "min_jsonrpc_integer = - (2 ^ 63)"

definition max_jsonrpc_integer :: int where
  "max_jsonrpc_integer = 2 ^ 63 - 1"

definition known_methods :: "string list" where
  "known_methods = [''initialize'', ''initialized'', ''thread/start'', ''thread/resume'', ''thread/fork'', ''thread/read'',
     ''thread/inject_items'', ''thread/subscribe'', ''thread/unsubscribe'', ''thread/started'', ''skills/list'']"

definition thread_param_methods :: "string list" where
  "thread_param_methods = [''thread/start'', ''thread/resume'', ''thread/fork'', ''thread/read'', ''thread/inject_items'',
     ''thread/subscribe'', ''thread/unsubscribe'']"

definition probe_command :: json where
  "probe_command = JArr (map JStr [''git'', ''-c'', ''safe.bareRepository=explicit'', ''branch'', ''--show-current''])"

definition probe_false_keys :: "string list" where
  "probe_false_keys = [''tty'', ''streamStdin'', ''streamStdoutStderr'', ''disableOutputCap'', ''disableTimeout'']"

definition probe_null_keys :: "string list" where
  "probe_null_keys = [''processId'', ''size'', ''sandboxPolicy'', ''permissionProfile'']"

definition thread_keys :: "string list" where
  "thread_keys = [''id'', ''sessionId'', ''parentThreadId'', ''forkedFromId'', ''ephemeral'', ''cwd'']"

text \<open>
  \<open>json.loads\<close> with the two hooks. On a malformed text the scanner reports the values it had completed
  when it gave up: a repeated key among them was met first.
\<close>

definition duplicate_key :: exn where
  "duplicate_key = Raised ''_DuplicateKey'' []"

definition nonfinite :: exn where
  "nonfinite = value_error ''nonfinite''"

definition decode :: "wire_platform \<Rightarrow> string \<Rightarrow> json result" where
  "decode W text = (case wp_scan W text of
      Inr v \<Rightarrow> andThen (hooked duplicate_key nonfinite v) (\<lambda>_. Inr v)
    | Inl completed \<Rightarrow>
        andThen (for_each (hooked duplicate_key nonfinite) completed) (\<lambda>_. Inl (Raised ''JSONDecodeError'' [])))"

definition valid_id :: "json \<Rightarrow> bool" where
  "valid_id v = (case v of JStr s \<Rightarrow> 0 < py_len s \<and> py_len s \<le> max_safe_id
     | JInt i \<Rightarrow> min_jsonrpc_integer \<le> i \<and> i \<le> max_jsonrpc_integer | _ \<Rightarrow> False)"

definition safe_string :: "json \<Rightarrow> bool" where
  "safe_string v = (is_str v \<and> py_len (str_of v) \<le> max_safe_string)"

definition valid_error :: "json \<Rightarrow> bool" where
  "valid_error v = (is_obj v \<and> is_int (dget (obj_of v) ''code'') \<and> min_jsonrpc_integer \<le> int_of (dget (obj_of v) ''code'')
     \<and> int_of (dget (obj_of v) ''code'') \<le> max_jsonrpc_integer \<and> is_str (dget (obj_of v) ''message''))"

text \<open>The members of a dictionary that may be recorded, in the order of the keys.\<close>

definition safe_members :: "string list \<Rightarrow> string list \<Rightarrow> jdict \<Rightarrow> jdict" where
  "safe_members bools keys d =
     map (\<lambda>k. (k, dget d k)) (filter (\<lambda>k. if k \<in> set bools then is_bool (dget d k) else safe_string (dget d k)) keys)"

definition thread_metadata :: "json \<Rightarrow> jdict option" where
  "thread_metadata v =
    (let candidate = (if is_obj v \<and> is_obj (dget (obj_of v) ''thread'') then Some (obj_of (dget (obj_of v) ''thread''))
                      else if is_obj v \<and> (\<exists>k \<in> set thread_keys. has_key (obj_of v) k) then Some (obj_of v) else None)
     in case candidate of
          None \<Rightarrow> None
        | Some d \<Rightarrow> (let m = safe_members [''ephemeral''] thread_keys d in if m = [] then None else Some m))"

text \<open>\<open>None\<close> is the exception for too many directories.\<close>

definition safe_request_params :: "string \<Rightarrow> json \<Rightarrow> jdict option" where
  "safe_request_params meth params =
    (if \<not> is_obj params then Some []
     else let d = obj_of params in
       if meth \<in> set thread_param_methods then
         Some (safe_members [''ephemeral'', ''includeTurns'']
           [''threadId'', ''parentThreadId'', ''forkedFromId'', ''cwd'', ''ephemeral'', ''includeTurns''] d)
       else if meth = ''skills/list'' then
         (let cwds = dget d ''cwds'' in
          if is_arr cwds \<and> max_cwds < length (arr_of cwds) then None
          else Some ((if is_arr cwds \<and> list_all safe_string (arr_of cwds) then [(''cwds'', cwds)] else [])
            @ (if is_bool (dget d ''forceReload'') then [(''forceReload'', dget d ''forceReload'')] else [])))
       else Some [])"

definition workspace_probe_qualified :: "json \<Rightarrow> side \<Rightarrow> json \<Rightarrow> json \<Rightarrow> bool \<Rightarrow> bool" where
  "workspace_probe_qualified expected d rid params has_id =
    (let p = obj_of params; env = dget p ''env'' in
     d = Client \<and> has_id \<and> valid_id rid \<and> is_str expected \<and> starts_with ''/'' (str_of expected) \<and> is_obj params
     \<and> keys_within p ([''command'', ''cwd'', ''env'', ''timeoutMs'', ''outputBytesCap''] @ probe_false_keys @ probe_null_keys)
     \<and> dget p ''command'' = probe_command
     \<and> is_obj env \<and> keys_exact (obj_of env) [''GIT_OPTIONAL_LOCKS''] \<and> dget (obj_of env) ''GIT_OPTIONAL_LOCKS'' = JStr ''0''
     \<and> dget p ''cwd'' = expected \<and> dget p ''timeoutMs'' = JInt 5000 \<and> dget p ''outputBytesCap'' = JInt 65536
     \<and> list_all (\<lambda>k. has_key p k \<longrightarrow> dget p k = JBool False) probe_false_keys
     \<and> list_all (\<lambda>k. has_key p k \<longrightarrow> dget p k = JNull) probe_null_keys)"

text \<open>The record of a request and what becomes of the table of open requests.\<close>

definition request_record :: "json \<Rightarrow> side \<Rightarrow> string \<Rightarrow> jdict \<Rightarrow> jdict \<Rightarrow> string \<times> jdict" where
  "request_record expected d meth params v =
    (let rid = dget v ''id'' in
     if meth \<notin> set known_methods then
       (''rpc_unknown'', [(''request_id'', rid), (''method'', JStr meth), (''opaque'', JBool True)]
          @ (if meth = ''command/exec''
             then [(''workspace_probe_qualified'', JBool (workspace_probe_qualified expected d rid (dget v ''params'') (has_key v ''id'')))] else []))
     else
       (''rpc'', [(''request_id'', rid), (''method'', JStr meth), (''params'', JObj params)]
          @ (if meth = ''thread/started''
             then (case thread_metadata (dget v ''params'') of None \<Rightarrow> [] | Some m \<Rightarrow> [(''thread'', JObj m)]) else [])))"

definition track_request :: "side \<Rightarrow> string \<Rightarrow> jdict \<Rightarrow> jdict \<Rightarrow> obs_state \<Rightarrow> obs_state" where
  "track_request d meth params v s = (case s of (c, ob) \<Rightarrow>
    (case request_record (ob_cwd ob) d meth params v of (kind, info) \<Rightarrow>
       let rid = dget v ''id'' in
       if \<not> has_key v ''id'' then emit kind (Some d) info s
       else if max_pending_requests \<le> length (cn_pending c) then gap ''pending_requests_too_many'' (Some d) [] s
       else if (d, rid) \<in> fst ` set (cn_pending c) then gap ''duplicate_request_id'' (Some d) [] s
       else emit kind (Some d) info (c\<lparr>cn_pending := dict_set (d, rid) meth (cn_pending c)\<rparr>, ob)))"

definition process_request :: "side \<Rightarrow> jdict \<Rightarrow> obs_state \<Rightarrow> obs_state" where
  "process_request d v s =
    (let meth = str_of (dget v ''method''); rid = dget v ''id'' in
     if \<not> is_str (dget v ''method'') \<or> meth = [] \<or> max_safe_string < py_len meth then gap ''invalid_method'' (Some d) [] s
     else if has_key v ''id'' \<and> \<not> valid_id rid then
       gap (if is_int rid then ''request_id_too_large'' else ''invalid_request_id'') (Some d) [] s
     else case (if meth \<in> set known_methods then safe_request_params meth (dget v ''params'') else Some []) of
         None \<Rightarrow> gap ''cwds_too_many'' (Some d) [] s
       | Some params \<Rightarrow> track_request d meth params v s)"

definition response_record :: "side \<Rightarrow> string option \<Rightarrow> jdict \<Rightarrow> string \<times> jdict" where
  "response_record d meth v =
    (let rid = dget v ''id'' in case meth of
       None \<Rightarrow> (''rpc_unknown'', [(''request_id'', rid), (''method'', JNull), (''opaque'', JBool True), (''response'', JBool True)])
     | Some m \<Rightarrow>
         if m \<notin> set known_methods then
           (''rpc_unknown'', [(''request_id'', rid), (''method'', JStr m), (''opaque'', JBool True), (''response'', JBool True)])
         else (''rpc_response'', [(''request_id'', rid), (''request_direction'', JStr (side_name (other_side d))), (''method'', JStr m),
                 (''ok'', JBool (\<not> has_key v ''error''))]
                @ (if has_key v ''error'' then [] else
                     (case thread_metadata (dget v ''result'') of None \<Rightarrow> [] | Some t \<Rightarrow> [(''thread'', JObj t)]))))"

definition process_response :: "side \<Rightarrow> jdict \<Rightarrow> obs_state \<Rightarrow> obs_state" where
  "process_response d v s = (case s of (c, ob) \<Rightarrow>
    (let rid = dget v ''id''; asked = (other_side d, rid) in
     if has_key v ''error'' \<and> \<not> valid_error (dget v ''error'') then gap ''invalid_json_rpc'' (Some d) [] s
     else if \<not> valid_id rid then gap (if is_int rid then ''response_id_too_large'' else ''invalid_response_id'') (Some d) [] s
     else case response_record d (map_of (cn_pending c) asked) v of (kind, info) \<Rightarrow>
       emit kind (Some d) info (c\<lparr>cn_pending := dict_del asked (cn_pending c)\<rparr>, ob)))"

text \<open>
  The two classes. The observer of the activation service looks at the answer to \<open>initialize\<close>; its
  argument is \<open>expected_home\<close>, the home that the lease of an epoch names.
\<close>

datatype observer_class = Plain | Activation "int \<Rightarrow> json"

definition home_record :: "wire_platform \<Rightarrow> (int \<Rightarrow> json) \<Rightarrow> int \<Rightarrow> jdict \<Rightarrow> jdict" where
  "home_record W expected_home epoch v =
    (let answer = dget v ''result''; home = (if is_obj answer then dget (obj_of answer) ''codexHome'' else JNull) in
     if safe_string home then
       [(''request_id'', dget v ''id''), (''home_match'', JBool (py_eq home (expected_home epoch))), (''home_sha256'', JStr (wp_sha256 W (str_of home)))]
     else [(''request_id'', dget v ''id''), (''home_match'', JBool False), (''home_sha256'', JNull)])"

definition activation_response :: "wire_platform \<Rightarrow> (int \<Rightarrow> json) \<Rightarrow> side \<Rightarrow> jdict \<Rightarrow> obs_state \<Rightarrow> obs_state" where
  "activation_response W expected_home d v s =
    (let matched = (d = Server \<and> valid_id (dget v ''id'') \<and> map_of (cn_pending (fst s)) (Client, dget v ''id'') = Some ''initialize'');
         s' = process_response d v s in
     if matched \<and> cn_valid (fst s') \<and> \<not> has_key v ''error'' then
       emit ''initialize_home'' (Some d) (home_record W expected_home (cn_epoch (fst s')) v) s'
     else s')"

definition respond :: "wire_platform \<Rightarrow> observer_class \<Rightarrow> side \<Rightarrow> jdict \<Rightarrow> obs_state \<Rightarrow> obs_state" where
  "respond W cls d v s = (case cls of Plain \<Rightarrow> process_response d v s | Activation home \<Rightarrow> activation_response W home d v s)"

definition process_rpc :: "wire_platform \<Rightarrow> observer_class \<Rightarrow> side \<Rightarrow> json \<Rightarrow> obs_state \<Rightarrow> obs_state" where
  "process_rpc W cls d value s =
    (let v = obj_of value; has_method = has_key v ''method''; has_result = has_key v ''result''; has_error = has_key v ''error'' in
     if \<not> is_obj value then gap ''unsupported_json_rpc'' (Some d) [] s
     else if has_key v ''jsonrpc'' \<and> dget v ''jsonrpc'' \<noteq> JStr ''2.0'' then gap ''invalid_json_rpc'' (Some d) [] s
     else if has_method \<and> (has_result \<or> has_error) \<or> has_result \<and> has_error then gap ''invalid_json_rpc'' (Some d) [] s
     else if has_method then process_request d v s
     else if has_result \<or> has_error then respond W cls d v s
     else gap ''unsupported_json_rpc'' (Some d) [] s)"

definition process_text :: "wire_platform \<Rightarrow> observer_class \<Rightarrow> side \<Rightarrow> string \<Rightarrow> obs_state \<Rightarrow> obs_state" where
  "process_text W cls d payload s =
    (if \<not> utf8_valid payload then gap ''invalid_utf8'' (Some d) [] s
     else case decode W payload of
         Inl e \<Rightarrow> gap (if e = duplicate_key then ''duplicate_json_key'' else ''invalid_json'') (Some d) [] s
       | Inr v \<Rightarrow> process_rpc W cls d v s)"

end
