(* ===== verification/ObserverFeed.thy ===== *)
theory ObserverFeed
  imports Observer
begin

text \<open>
  The frame loop of the observer and its public operations (\<open>open\<close>, \<open>set_pending\<close>, \<open>feed\<close>, \<open>close\<close>,
  \<open>drain_events\<close>). The loop ends because every turn takes a frame from the buffer and nothing that
  handles the frame puts bytes back.
\<close>

section \<open>Frames\<close>

datatype frame_scan =
    NeedMore
  | BadFrame string jdict
  | Whole bool nat string nat

definition scan_frame :: "side \<Rightarrow> nat \<Rightarrow> string \<Rightarrow> frame_scan" where
  "scan_frame d max_frame buf =
    (if length buf < 2 then NeedMore
     else let first = byte (buf ! 0); second = byte (buf ! 1); fin = (first AND 0x80 \<noteq> 0); opcode = first AND 0x0F;
              masked = (second AND 0x80 \<noteq> 0); mask_size = (if masked then 4 else 0) in
       if first AND 0x70 \<noteq> 0 then BadFrame ''reserved_bits'' []
       else if masked \<noteq> (d = Client) then BadFrame (if d = Client then ''client_frame_unmasked'' else ''server_frame_masked'') []
       else case frame_length buf of
           Inl _ \<Rightarrow> BadFrame ''invalid_frame_length'' []
         | Inr None \<Rightarrow> NeedMore
         | Inr (Some (n, offset)) \<Rightarrow>
             if 11 \<le> opcode then BadFrame ''unsupported_opcode'' []
             else if 8 \<le> opcode \<and> (\<not> fin \<or> 125 < n) then BadFrame ''invalid_control_frame'' []
             else if max_frame < n then
               BadFrame ''frame_too_large'' [(''payload_bytes'', JInt (int n)), (''limit_bytes'', JInt (int max_frame))]
             else let used = offset + mask_size + n in
               if length buf < used then NeedMore
               else let body = take n (drop (offset + mask_size) buf); mkey = take mask_size (drop offset buf)
                    in Whole fin opcode (if masked then apply_mask mkey body else body) used)"

definition close_codes :: "nat list" where
  "close_codes = [1000, 1001, 1002, 1003, 1007, 1008, 1009, 1010, 1011, 1012, 1013, 1014]"

definition valid_close_payload :: "string \<Rightarrow> bool" where
  "valid_close_payload payload =
    (payload = []
     \<or> 2 \<le> length payload
       \<and> (let code = from_big_endian (take 2 payload) in code \<in> set close_codes \<or> 3000 \<le> code \<and> code \<le> 4999)
       \<and> utf8_valid (drop 2 payload))"

definition control_name :: "nat \<Rightarrow> string" where
  "control_name opcode = (if opcode = 8 then ''close'' else if opcode = 9 then ''ping'' else if opcode = 10 then ''pong'' else ''unknown'')"

definition size_gap :: "nat \<Rightarrow> nat \<Rightarrow> jdict" where
  "size_gap n limit = [(''message_bytes'', JInt (int n)), (''limit_bytes'', JInt (int limit))]"

text \<open>What one frame does after it was taken from the buffer.\<close>

definition message_frame :: "wire_platform \<Rightarrow> observer_class \<Rightarrow> side \<Rightarrow> nat \<Rightarrow> string \<Rightarrow> obs_state \<Rightarrow> obs_state" where
  "message_frame W cls d opcode payload s =
    (if opcode = 1 then process_text W cls d payload s else gap ''binary_message'' (Some d) [] s)"

definition handle_frame :: "wire_platform \<Rightarrow> observer_class \<Rightarrow> side \<Rightarrow> bool \<Rightarrow> nat \<Rightarrow> string \<Rightarrow> obs_state \<Rightarrow> obs_state" where
  "handle_frame W cls d fin opcode payload s = (case s of (c, ob) \<Rightarrow>
    (let p = parser_of d c; limit = ob_max_message ob in
     if 8 \<le> opcode then
       if opcode = 8 \<and> \<not> valid_close_payload payload then gap ''invalid_close_payload'' (Some d) [] s
       else emit ''ws_control'' (Some d) [(''opcode'', JStr (control_name opcode))] s
     else if opcode = 0 then
       (case ps_fopcode p of
          None \<Rightarrow> gap ''unexpected_continuation'' (Some d) [] s
        | Some started \<Rightarrow>
            let joined = ps_fpayload p @ payload in
            if limit < length joined then gap ''message_too_large'' (Some d) (size_gap (length joined) limit) s
            else if fin then
              message_frame W cls d started joined (set_parser d (p\<lparr>ps_fopcode := None, ps_fpayload := []\<rparr>) c, ob)
            else (set_parser d (p\<lparr>ps_fpayload := joined\<rparr>) c, ob))
     else if opcode = 1 \<or> opcode = 2 then
       if ps_fopcode p \<noteq> None then gap ''new_data_during_fragment'' (Some d) [] s
       else if limit < length payload then gap ''message_too_large'' (Some d) (size_gap (length payload) limit) s
       else if fin then message_frame W cls d opcode payload s
       else (set_parser d (p\<lparr>ps_fopcode := Some opcode, ps_fpayload := payload\<rparr>) c, ob)
     else gap ''unsupported_opcode'' (Some d) [] s))"

section \<open>Nothing puts bytes back\<close>

definition buffer_of :: "side \<Rightarrow> obs_state \<Rightarrow> string" where
  "buffer_of d s = ps_buffer (parser_of d (fst s))"

text \<open>\<open>shrinks s s'\<close>: every buffer is as it was or empty, and the upgrades stand.\<close>

definition shrinks :: "obs_state \<Rightarrow> obs_state \<Rightarrow> bool" where
  "shrinks s s' = (\<forall>d. (buffer_of d s' = buffer_of d s \<or> buffer_of d s' = [])
     \<and> ps_handshake (parser_of d (fst s')) = ps_handshake (parser_of d (fst s)))"

named_theorems shrink_intros \<open>operations that leave or clear the buffers\<close>

lemma parser_of_simps [simp]:
  "parser_of d (set_parser d p c) = p"
  "d' \<noteq> d \<Longrightarrow> parser_of d' (set_parser d p c) = parser_of d' c"
  "parser_of d (c\<lparr>cn_state := st\<rparr>) = parser_of d c" "parser_of d (c\<lparr>cn_valid := b\<rparr>) = parser_of d c"
  "parser_of d (c\<lparr>cn_closed := b\<rparr>) = parser_of d c" "parser_of d (c\<lparr>cn_overflowed := b\<rparr>) = parser_of d c"
  "parser_of d (c\<lparr>cn_key := k\<rparr>) = parser_of d c" "parser_of d (c\<lparr>cn_pending := ps\<rparr>) = parser_of d c"
  "parser_of d (invalidate c) = invalidate_parser (parser_of d c)"
  by (cases d; cases d'; simp add: parser_of_def set_parser_def invalidate_def)+

lemma shrinks_refl [simp, shrink_intros]: "shrinks s s"
  by (simp add: shrinks_def)

lemma shrinks_trans: "shrinks s t \<Longrightarrow> shrinks t u \<Longrightarrow> shrinks s u"
  unfolding shrinks_def by metis

lemma shrinks_length: "shrinks s s' \<Longrightarrow> length (buffer_of d s') \<le> length (buffer_of d s)"
  unfolding shrinks_def by (metis le0 le_refl list.size(3))

lemma shrinks_pending [shrink_intros]: "shrinks (c, ob) (c\<lparr>cn_pending := ps\<rparr>, ob')"
  by (simp add: shrinks_def buffer_of_def)

lemma shrinks_parser [shrink_intros]:
  "ps_buffer p = ps_buffer (parser_of d c) \<Longrightarrow> ps_handshake p = ps_handshake (parser_of d c) \<Longrightarrow> shrinks (c, ob) (set_parser d p c, ob')"
  unfolding shrinks_def buffer_of_def by (metis fst_conv parser_of_simps(1,2))

lemma emit_shrinks [simp, shrink_intros]: "shrinks s (emit kind d info s)"
  by (cases s) (simp add: shrinks_def buffer_of_def emit_def invalidate_parser_def split: prod.splits)

lemma gap_shrinks [simp, shrink_intros]: "shrinks s (gap reason d info s)"
proof (cases s)
  case (Pair c ob)
  have "shrinks (c, ob) (invalidate c, ob)" by (simp add: shrinks_def buffer_of_def invalidate_parser_def)
  then show ?thesis using Pair shrinks_trans [OF _ emit_shrinks] by (simp add: gap_def)
qed

lemma shrinks_emit: "shrinks s t \<Longrightarrow> shrinks s (emit kind d info t)"
  using shrinks_trans emit_shrinks by blast

lemma track_request_shrinks [shrink_intros]: "shrinks s (track_request d meth params v s)"
  by (cases s) (auto simp: track_request_def Let_def split: prod.split intro!: shrinks_emit shrink_intros)

lemma process_request_shrinks [shrink_intros]: "shrinks s (process_request d v s)"
  by (auto simp: process_request_def Let_def split: option.split intro!: shrink_intros)

lemma process_response_shrinks [shrink_intros]: "shrinks s (process_response d v s)"
  by (cases s) (auto simp: process_response_def Let_def split: prod.split intro!: shrinks_emit shrink_intros)

lemma respond_shrinks [shrink_intros]: "shrinks s (respond W cls d v s)"
  by (auto simp: respond_def activation_response_def Let_def split: observer_class.split intro!: shrinks_emit process_response_shrinks)

lemma process_rpc_shrinks [shrink_intros]: "shrinks s (process_rpc W cls d v s)"
  by (auto simp: process_rpc_def Let_def intro!: shrink_intros)

lemma process_text_shrinks [shrink_intros]: "shrinks s (process_text W cls d payload s)"
  by (auto simp: process_text_def split: sum.split intro!: shrink_intros)

lemma message_frame_shrinks [shrink_intros]: "shrinks s (message_frame W cls d opcode payload s)"
  by (auto simp: message_frame_def intro!: shrink_intros)

lemma handle_frame_shrinks: "shrinks s (handle_frame W cls d fin opcode payload s)"
proof (cases s)
  case (Pair c ob)
  have "shrinks (c, ob) (message_frame W cls d started joined (set_parser d (p\<lparr>ps_fopcode := None, ps_fpayload := []\<rparr>) c, ob))"
    if "p = parser_of d c" for p started joined
    using that by (intro shrinks_trans [OF _ message_frame_shrinks] shrinks_parser) simp_all
  then show ?thesis
    unfolding Pair handle_frame_def by (auto simp: Let_def split: option.split intro!: shrink_intros)
qed

lemma scan_frame_Whole: "scan_frame d limit buf = Whole fin opcode payload used \<Longrightarrow> 2 \<le> used \<and> used \<le> length buf"
  by (auto simp: scan_frame_def Let_def dest!: frame_length_header split: if_splits sum.splits option.splits)

section \<open>The loop\<close>

function parse_frames :: "wire_platform \<Rightarrow> observer_class \<Rightarrow> side \<Rightarrow> obs_state \<Rightarrow> obs_state" where
  "parse_frames W cls d s = (case s of (c, ob) \<Rightarrow>
     if \<not> cn_valid c then s
     else case scan_frame d (ob_max_frame ob) (ps_buffer (parser_of d c)) of
         NeedMore \<Rightarrow> s
       | BadFrame reason info \<Rightarrow> gap reason (Some d) info s
       | Whole fin opcode payload used \<Rightarrow>
           let p = parser_of d c in
           parse_frames W cls d (handle_frame W cls d fin opcode payload
             (set_parser d (p\<lparr>ps_buffer := drop used (ps_buffer p)\<rparr>) c, ob)))"
  by pat_completeness auto
termination
proof (relation "measure (\<lambda>(W, cls, d, s). length (buffer_of d s))", goal_cases)
  case (2 W cls d s c ob fin opcode payload used p)
  let ?t = "(set_parser d (p\<lparr>ps_buffer := drop used (ps_buffer p)\<rparr>) c, ob)"
  from 2 have s: "s = (c, ob)" and p: "p = parser_of d c"
    and scan: "scan_frame d (ob_max_frame ob) (ps_buffer (parser_of d c)) = Whole fin opcode payload used" by simp_all
  have "length (buffer_of d (handle_frame W cls d fin opcode payload ?t)) \<le> length (buffer_of d ?t)"
    by (rule shrinks_length [OF handle_frame_shrinks])
  also have "\<dots> = length (buffer_of d s) - used" by (simp add: buffer_of_def p s)
  finally have "length (buffer_of d (handle_frame W cls d fin opcode payload ?t)) \<le> length (buffer_of d s) - used" .
  moreover have "2 \<le> used" "used \<le> length (buffer_of d s)" using scan_frame_Whole [OF scan] by (simp_all add: buffer_of_def s)
  ultimately have "length (buffer_of d (handle_frame W cls d fin opcode payload ?t)) < length (buffer_of d s)" by linarith
  then show ?case by simp
qed simp

declare parse_frames.simps [simp del]

section \<open>The operations\<close>

definition put_connection :: "string \<Rightarrow> obs_state \<Rightarrow> observer" where
  "put_connection i s = (case s of (c, ob) \<Rightarrow> ob\<lparr>ob_connections := dict_set i c (ob_connections ob)\<rparr>)"

text \<open>The epoch that \<open>open\<close> is given, \<open>JNull\<close> for none.\<close>

definition chosen_epoch :: "json \<Rightarrow> observer \<Rightarrow> int result" where
  "chosen_epoch conn_epoch ob =
    (if conn_epoch = JNull then Inr (ob_next_epoch ob)
     else ensure (is_int conn_epoch \<and> 0 < int_of conn_epoch) (value_error ''conn_epoch must be a positive integer'')
       (Inr (int_of conn_epoch)))"

definition close_reopened :: "string \<Rightarrow> observer \<Rightarrow> observer" where
  "close_reopened i ob = (case map_of (ob_connections ob) i of
      None \<Rightarrow> ob
    | Some old \<Rightarrow>
        if cn_closed old then ob
        else case gap ''connection_reopened'' None [] (old, ob) of
          (c, ob1) \<Rightarrow> snd (emit ''connection_close'' None [] (c\<lparr>cn_closed := True\<rparr>, ob1)))"

definition open_connection :: "string \<Rightarrow> json \<Rightarrow> observer \<Rightarrow> int result \<times> observer" where
  "open_connection i conn_epoch ob =
    (case andThen (chosen_epoch conn_epoch ob) (\<lambda>epoch.
            ensure (ob_max_epoch ob < epoch) (value_error ''conn_epoch has already been used or is stale'') (Inr epoch)) of
       Inl e \<Rightarrow> (Inl e, ob)
     | Inr epoch \<Rightarrow>
         let ob1 = close_reopened i (ob\<lparr>ob_max_epoch := epoch\<rparr>);
             ob2 = ob1\<lparr>ob_next_epoch := max (ob_next_epoch ob1) (epoch + 1)\<rparr>
         in (Inr epoch, put_connection i (emit ''connection_open'' None [] (new_connection epoch, ob2))))"

definition set_pending :: "string \<Rightarrow> observer \<Rightarrow> observer" where
  "set_pending i ob = (case map_of (ob_connections ob) i of
      None \<Rightarrow> ob
    | Some c \<Rightarrow> if cn_closed c then ob else put_connection i (c\<lparr>cn_state := ''PENDING'', cn_valid := False\<rparr>, ob))"

definition attachment_state :: "string \<Rightarrow> observer \<Rightarrow> string option" where
  "attachment_state i ob = map_option cn_state (map_of (ob_connections ob) i)"

definition buffer_limit :: "observer \<Rightarrow> nat" where
  "buffer_limit ob = ob_max_message ob + ob_max_header ob + 32"

text \<open>\<open>feed\<close> on a connection that is observed, for bytes in a known direction.\<close>

definition feed_connection :: "wire_platform \<Rightarrow> observer_class \<Rightarrow> side \<Rightarrow> string \<Rightarrow> obs_state \<Rightarrow> obs_state" where
  "feed_connection W cls d bytes s = (case s of (c, ob) \<Rightarrow>
    (let p = parser_of d c in
     if buffer_limit ob < length (ps_buffer p) + length bytes then gap ''input_buffer_too_large'' (Some d) [] s
     else let s1 = (set_parser d (p\<lparr>ps_buffer := ps_buffer p @ bytes\<rparr>) c, ob) in
       case (if ps_handshake p then (True, s1) else parse_upgrade W d s1) of
         (False, s2) \<Rightarrow> s2
       | (True, s2) \<Rightarrow> if cn_valid (fst s2) \<and> ps_handshake (parser_of d (fst s2)) then parse_frames W cls d s2 else s2))"

text \<open>\<open>None\<close> stands for data that is no bytes object.\<close>

definition feed :: "wire_platform \<Rightarrow> observer_class \<Rightarrow> string \<Rightarrow> string \<Rightarrow> string option \<Rightarrow> observer \<Rightarrow> event list \<times> observer" where
  "feed W cls i direction data ob =
    (let since = ob_next_seq ob; report = (\<lambda>ob'. (events_since since ob', ob')) in
     case map_of (ob_connections ob) i of
       None \<Rightarrow> report (emit_free ''gap'' (side_of direction) [(''reason'', JStr ''unknown_connection'')] ob)
     | Some c \<Rightarrow>
         if cn_closed c then report (emit_free ''gap'' (side_of direction) [(''reason'', JStr ''unknown_connection'')] ob)
         else case side_of direction of
             None \<Rightarrow> report (put_connection i (gap ''unknown_direction'' None [] (c, ob)))
           | Some d \<Rightarrow> (case data of
                None \<Rightarrow> report (put_connection i (gap ''non_bytes_input'' (Some d) [] (c, ob)))
              | Some bytes \<Rightarrow>
                  if \<not> cn_valid c then ([], ob)
                  else report (put_connection i (feed_connection W cls d bytes (c, ob)))))"

text \<open>Why the bytes seen in one direction are incomplete at the end.\<close>

definition incomplete :: "bool \<Rightarrow> parser \<Rightarrow> string option" where
  "incomplete any_upgrade p =
    (if ps_fopcode p \<noteq> None then Some ''incomplete_message''
     else if \<not> ps_handshake p \<and> (ps_buffer p \<noteq> [] \<or> any_upgrade) then Some ''incomplete_upgrade''
     else if ps_buffer p \<noteq> [] then Some ''incomplete_frame'' else None)"

definition final_gap :: "obs_state \<Rightarrow> obs_state" where
  "final_gap s =
    (let c = fst s; any_upgrade = (ps_handshake (cn_client c) \<or> ps_handshake (cn_server c)) in
     case incomplete any_upgrade (cn_client c) of
       Some reason \<Rightarrow> gap reason (Some Client) [] s
     | None \<Rightarrow> (case incomplete any_upgrade (cn_server c) of
         Some reason \<Rightarrow> gap reason (Some Server) [] s
       | None \<Rightarrow> s))"

definition close_connection :: "string \<Rightarrow> observer \<Rightarrow> event list \<times> observer" where
  "close_connection i ob =
    (let since = ob_next_seq ob; report = (\<lambda>ob'. (events_since since ob', ob')) in
     case map_of (ob_connections ob) i of
       None \<Rightarrow> report (emit_free ''gap'' None [(''reason'', JStr ''unknown_connection'')] ob)
     | Some c \<Rightarrow>
         if cn_closed c then ([], ob)
         else case (if cn_valid c then final_gap (c, ob) else (c, ob)) of (c1, ob1) \<Rightarrow>
           report (put_connection i (emit ''connection_close'' None []
             (c1\<lparr>cn_closed := True, cn_state := ''DISCONNECTED'', cn_valid := False\<rparr>, ob1))))"

definition drain_events :: "observer \<Rightarrow> event list \<times> observer" where
  "drain_events ob = (ob_events ob, ob\<lparr>ob_events := []\<rparr>)"

text \<open>\<open>complete_boundary\<close> of the activation observer.\<close>

definition at_boundary :: "parser \<Rightarrow> bool" where
  "at_boundary p = (ps_handshake p \<and> ps_buffer p = [] \<and> ps_fopcode p = None)"

definition complete_boundary :: "string \<Rightarrow> observer \<Rightarrow> bool" where
  "complete_boundary i ob = (case map_of (ob_connections ob) i of
      None \<Rightarrow> False
    | Some c \<Rightarrow> cn_valid c \<and> \<not> cn_closed c \<and> at_boundary (cn_client c) \<and> at_boundary (cn_server c))"

end
