(* ===== verification/ObserverLog.thy ===== *)
theory ObserverLog
  imports ObserverFeed
begin

text \<open>
  The records of the observer as a history. Every operation on a connection is a sequence of small
  moves (a change of the parsers, a record, a gap, a request, an answer, the end); the invariants of
  the history are proved once per move and then hold for every run of the public operations.
\<close>

section \<open>Moves\<close>

inductive obs_move :: "wire_platform \<Rightarrow> observer_class \<Rightarrow> obs_state \<Rightarrow> obs_state \<Rightarrow> bool" for W cls where
  parsing: "cn_epoch c' = cn_epoch c \<Longrightarrow> cn_valid c' = cn_valid c \<Longrightarrow> cn_overflowed c' = cn_overflowed c \<Longrightarrow>
      cn_closed c' = cn_closed c \<Longrightarrow> cn_pending c' = cn_pending c \<Longrightarrow> obs_move W cls (c, ob) (c', ob)"
| silenced: "cn_epoch c' = cn_epoch c \<Longrightarrow> \<not> cn_valid c' \<Longrightarrow> cn_overflowed c' = cn_overflowed c \<Longrightarrow>
      cn_closed c' = cn_closed c \<Longrightarrow> cn_pending c' = cn_pending c \<Longrightarrow> obs_move W cls (c, ob) (c', ob)"
| noted: "cn_valid c \<Longrightarrow> kind \<notin> {''gap'', ''connection_close'', ''rpc_response'', ''initialize_home''} \<Longrightarrow> obs_move W cls (c, ob) (emit kind d info (c, ob))"
| homed: "cn_valid c \<Longrightarrow> cls = Activation home \<Longrightarrow> obs_move W cls (c, ob) (emit ''initialize_home'' (Some d) (home_record W home (cn_epoch c) v) (c, ob))"
| failed: "cn_valid c \<Longrightarrow> obs_move W cls (c, ob) (gap reason d info (c, ob))"
| asked: "cn_valid c \<Longrightarrow> request_record x d m params v = (kind, info) \<Longrightarrow>
      obs_move W cls (c, ob) (emit kind (Some d) info (c\<lparr>cn_pending := dict_set (d, dget v ''id'') m (cn_pending c)\<rparr>, ob))"
| answered: "cn_valid c \<Longrightarrow> valid_id (dget v ''id'') \<Longrightarrow> response_record d (map_of (cn_pending c) (other_side d, dget v ''id'')) v = (kind, info) \<Longrightarrow>
      obs_move W cls (c, ob) (emit kind (Some d) info (c\<lparr>cn_pending := dict_del (other_side d, dget v ''id'') (cn_pending c)\<rparr>, ob))"
| ended: "\<not> cn_closed c \<Longrightarrow> cn_closed c' \<Longrightarrow> cn_epoch c' = cn_epoch c \<Longrightarrow> \<not> cn_valid c' \<Longrightarrow> cn_overflowed c' = cn_overflowed c \<Longrightarrow>
      cn_pending c' = cn_pending c \<Longrightarrow> obs_move W cls (c, ob) (emit ''connection_close'' d info (c', ob))"

abbreviation obs_moves :: "wire_platform \<Rightarrow> observer_class \<Rightarrow> obs_state \<Rightarrow> obs_state \<Rightarrow> bool" where
  "obs_moves W cls \<equiv> (obs_move W cls)\<^sup>*\<^sup>*"

named_theorems moves \<open>operations as sequences of moves\<close>

lemma gap_invalid [simp]: "\<not> cn_valid (fst s) \<Longrightarrow> gap reason d info s = s"
  by (cases s) (simp add: gap_def)

lemma gap_moves [simp, moves]: "obs_moves W cls s (gap reason d info s)"
  by (cases s) (metis fst_conv gap_invalid obs_move.failed r_into_rtranclp rtranclp.rtrancl_refl)

lemma emit_moves: "cn_valid (fst s) \<Longrightarrow> kind \<notin> {''gap'', ''connection_close'', ''rpc_response'', ''initialize_home''} \<Longrightarrow> obs_moves W cls s (emit kind d info s)"
  by (cases s) (auto intro!: r_into_rtranclp obs_move.noted)

lemma request_record_kind: "fst (request_record x d m params v) \<in> {''rpc'', ''rpc_unknown''}"
  by (simp add: request_record_def Let_def)

lemma track_request_moves:
  assumes "cn_valid (fst s)"
  shows "obs_moves W cls s (track_request d meth params v s)"
proof -
  obtain c ob kind info where s: "s = (c, ob)" and r: "request_record (ob_cwd ob) d meth params v = (kind, info)"
    by (cases s; cases "request_record (ob_cwd (snd s)) d meth params v") simp
  have "kind \<notin> {''gap'', ''connection_close'', ''rpc_response'', ''initialize_home''}" using request_record_kind [of "ob_cwd ob" d meth params v] r by auto
  then have "obs_moves W cls s (emit kind (Some d) info s)" using assms by (rule emit_moves [rotated])
  moreover have "obs_moves W cls s (emit kind (Some d) info (c\<lparr>cn_pending := dict_set (d, dget v ''id'') meth (cn_pending c)\<rparr>, ob))"
    unfolding s by (rule r_into_rtranclp, rule obs_move.asked [OF _ r]) (use assms s in simp)
  ultimately show ?thesis by (simp add: track_request_def s r Let_def)
qed

lemma process_request_moves [moves]: "cn_valid (fst s) \<Longrightarrow> obs_moves W cls s (process_request d v s)"
  by (simp add: process_request_def Let_def track_request_moves split: option.split)

lemma process_response_moves [moves]:
  assumes "cn_valid (fst s)"
  shows "obs_moves W cls s (process_response d v s)"
proof -
  obtain c ob where s: "s = (c, ob)" by (cases s)
  show ?thesis
    unfolding process_response_def Let_def s
    by (auto split: prod.split intro!: r_into_rtranclp obs_move.answered simp: assms [unfolded s fst_conv])
qed

lemma home_moves:
  assumes "cn_valid (fst s)" and "cls = Activation home"
  shows "obs_moves W cls s (emit ''initialize_home'' (Some d) (home_record W home (cn_epoch (fst s)) v) s)"
  using obs_move.homed [OF _ assms(2), of "fst s" W "snd s" d v] assms(1) by simp

lemma respond_moves [moves]:
  assumes "cn_valid (fst s)"
  shows "obs_moves W cls s (respond W cls d v s)"
proof (cases cls)
  case (Activation home)
  have "obs_moves W cls s (process_response d v s)" by (rule process_response_moves [OF assms])
  with rtranclp_trans [OF this home_moves [OF _ Activation]] show ?thesis
    by (cases d) (simp_all add: Activation respond_def activation_response_def Let_def)
qed (simp add: respond_def process_response_moves [OF assms])

lemma process_rpc_moves [moves]: "cn_valid (fst s) \<Longrightarrow> obs_moves W cls s (process_rpc W cls d v s)"
  by (simp add: process_rpc_def Let_def moves)

lemma process_text_moves [moves]: "cn_valid (fst s) \<Longrightarrow> obs_moves W cls s (process_text W cls d payload s)"
  by (simp add: process_text_def moves split: sum.split)

lemma message_frame_moves [moves]: "cn_valid (fst s) \<Longrightarrow> obs_moves W cls s (message_frame W cls d opcode payload s)"
  by (simp add: message_frame_def moves)

lemma set_parser_same [simp]:
  "cn_epoch (set_parser d p c) = cn_epoch c" "cn_valid (set_parser d p c) = cn_valid c" "cn_overflowed (set_parser d p c) = cn_overflowed c"
  "cn_pending (set_parser d p c) = cn_pending c" "cn_closed (set_parser d p c) = cn_closed c" "cn_key (set_parser d p c) = cn_key c"
  by (cases d; simp add: set_parser_def)+

lemma parser_moves [moves]: "obs_moves W cls (c, ob) (set_parser d p c, ob)"
  by (intro r_into_rtranclp obs_move.parsing) simp_all

lemma handle_frame_moves [moves]:
  assumes "cn_valid (fst s)"
  shows "obs_moves W cls s (handle_frame W cls d fin opcode payload s)"
proof -
  obtain c ob where s: "s = (c, ob)" by (cases s)
  have valid: "cn_valid c" using assms s by simp
  have "obs_moves W cls (c, ob) (message_frame W cls d started joined (set_parser d p c, ob))" for p started joined
    by (rule rtranclp_trans [OF parser_moves message_frame_moves]) (simp add: valid)
  then show ?thesis
    unfolding s handle_frame_def
    by (auto simp: Let_def valid intro!: emit_moves moves split: option.split)
qed

lemma parse_frames_moves [moves]: "obs_moves W cls s (parse_frames W cls d s)"
proof (induction W cls d s rule: parse_frames.induct)
  case (1 W cls d s)
  obtain c ob where s: "s = (c, ob)" by (cases s)
  show ?case
  proof (cases "cn_valid c")
    case False
    then show ?thesis by (simp add: s parse_frames.simps)
  next
    case valid: True
    show ?thesis
    proof (cases "scan_frame d (ob_max_frame ob) (ps_buffer (parser_of d c))")
      case (Whole fin opcode payload used)
      let ?c = "set_parser d (parser_of d c\<lparr>ps_buffer := drop used (ps_buffer (parser_of d c))\<rparr>) c"
      have "obs_moves W cls s (handle_frame W cls d fin opcode payload (?c, ob))"
        unfolding s by (rule rtranclp_trans [OF parser_moves handle_frame_moves]) (simp add: valid)
      also have "obs_moves W cls \<dots> (parse_frames W cls d (handle_frame W cls d fin opcode payload (?c, ob)))"
        using 1 valid Whole s by simp
      finally show ?thesis
        using valid Whole by (simp add: s parse_frames.simps [of W cls d "(c, ob)"] Let_def)
    qed (use valid in \<open>simp_all add: s parse_frames.simps moves\<close>)
  qed
qed

lemma check_head_same:
  assumes "check_head W d head c = Inr c'"
  shows "c' = c\<lparr>cn_key := cn_key c'\<rparr>"
  using assms by (cases d) (auto simp: check_head_def Let_def split: option.splits)

lemma parse_upgrade_moves [moves]:
  assumes "cn_valid (fst s)"
  shows "obs_moves W cls s (snd (parse_upgrade W d s))"
proof -
  obtain c ob where s: "s = (c, ob)" by (cases s)
  have valid: "cn_valid c" using assms s by simp
  show ?thesis
  proof (cases "find_marker (ps_buffer (parser_of d c))")
    case None
    then show ?thesis by (simp add: s parse_upgrade_def Let_def moves)
  next
    case (Some n)
    let ?p = "parser_of d c\<lparr>ps_buffer := drop (n + 4) (ps_buffer (parser_of d c))\<rparr>"
    let ?c = "set_parser d ?p c"
    have bad: "obs_moves W cls (c, ob) (gap reason (Some d) [] (?c, ob))" for reason
      by (rule rtranclp_trans [OF parser_moves gap_moves])
    have "obs_moves W cls (c, ob) (emit ''websocket_upgrade'' (Some d) [] (set_parser d (?p\<lparr>ps_handshake := True\<rparr>) c', ob))"
      if "check_head W d (take n (ps_buffer (parser_of d c))) ?c = Inr c'" for c'
    proof -
      have c': "c' = ?c\<lparr>cn_key := cn_key c'\<rparr>" by (rule check_head_same [OF that])
      have "obs_moves W cls (c, ob) (set_parser d (?p\<lparr>ps_handshake := True\<rparr>) c', ob)"
        by (intro r_into_rtranclp obs_move.parsing) (subst c'; simp)+
      then show ?thesis
        by (rule rtranclp_trans [OF _ emit_moves]) (use valid c' in \<open>simp_all, metis (no_types, lifting) connection.select_convs(3) connection.surjective connection.update_convs(6) set_parser_same(2)\<close>)
    qed
    then show ?thesis
      using bad Some by (auto simp: s parse_upgrade_def Let_def moves split: sum.split)
  qed
qed

lemma feed_connection_moves [moves]:
  assumes "cn_valid (fst s)"
  shows "obs_moves W cls s (feed_connection W cls d bytes s)"
proof -
  obtain c ob where s: "s = (c, ob)" by (cases s)
  have valid: "cn_valid c" using assms s by simp
  let ?s = "(set_parser d (parser_of d c\<lparr>ps_buffer := ps_buffer (parser_of d c) @ bytes\<rparr>) c, ob)"
  have start: "obs_moves W cls s ?s" unfolding s by (rule parser_moves)
  have up: "obs_moves W cls s (snd (parse_upgrade W d ?s))"
    by (rule rtranclp_trans [OF start parse_upgrade_moves]) (simp add: valid)
  have loop: "obs_moves W cls s (parse_frames W cls d t)" if "obs_moves W cls s t" for t
    by (rule rtranclp_trans [OF that parse_frames_moves])
  show ?thesis
  proof (cases "ps_handshake (parser_of d c)")
    case True
    then show ?thesis using start loop by (simp add: s feed_connection_def Let_def gap_moves [where s = "(c, ob)"])
  next
    case False
    obtain ok t where u: "parse_upgrade W d ?s = (ok, t)" by (cases "parse_upgrade W d ?s")
    with up have "obs_moves W cls s t" by simp
    with False u loop show ?thesis
      by (cases ok) (simp_all add: s feed_connection_def Let_def gap_moves [where s = "(c, ob)"])
  qed
qed

lemma final_gap_moves [moves]: "obs_moves W cls s (final_gap s)"
  by (simp add: final_gap_def Let_def split: option.split)

end
