(* ===== verification/ObserverRuns.thy ===== *)
theory ObserverRuns
  imports ObserverLog
begin

text \<open>
  What holds of the history of an observer, whatever it is given: the sequence numbers increase, a
  gap of a connection is followed by nothing but its end, and an answer is recorded only after the
  request it answers. The history is what was drained before followed by what is in the queue.
\<close>

section \<open>Histories\<close>

definition logged :: "event list \<Rightarrow> int \<Rightarrow> side \<Rightarrow> json \<Rightarrow> string \<Rightarrow> bool" where
  "logged hist n d rid m = (\<exists>r \<in> set hist. ev_kind r = ''rpc'' \<and> ev_epoch r = Some n \<and> ev_side r = Some d
     \<and> dget (ev_fields r) ''request_id'' = rid \<and> dget (ev_fields r) ''method'' = JStr m)"

definition has_gap :: "event list \<Rightarrow> int \<Rightarrow> bool" where
  "has_gap hist n = (\<exists>g \<in> set hist. ev_kind g = ''gap'' \<and> ev_epoch g = Some n)"

text \<open>The records of an epoch from its first gap on, and when it is known that there are no more.\<close>

definition after_gap :: "event list \<Rightarrow> int \<Rightarrow> event list" where
  "after_gap hist n = dropWhile (\<lambda>e. ev_kind e \<noteq> ''gap'') (filter (\<lambda>e. ev_epoch e = Some n) hist)"

definition sealed :: "event list \<Rightarrow> int \<Rightarrow> bool" where
  "sealed hist n = (2 \<le> length (after_gap hist n) \<or> (\<exists>e \<in> set hist. ev_kind e = ''connection_close'' \<and> ev_epoch e = Some n))"

text \<open>The end of a connection, or the overflow gap in its place.\<close>

definition last_word :: "event \<Rightarrow> bool" where
  "last_word e = (ev_kind e = ''connection_close'' \<or> ev_kind e = ''gap'' \<and> ev_fields e = [(''reason'', JStr ''event_queue_overflow'')])"

definition calm :: "event list \<Rightarrow> event \<Rightarrow> bool" where
  "calm hist e = (case ev_epoch e of None \<Rightarrow> True | Some n \<Rightarrow> \<not> sealed hist n \<and> (has_gap hist n \<longrightarrow> last_word e))"

lemma has_gap_after: "has_gap hist n = (after_gap hist n \<noteq> [])"
  by (auto simp: has_gap_def after_gap_def)

lemma has_gap_snoc [simp]: "has_gap (hist @ [e]) n = (has_gap hist n \<or> ev_kind e = ''gap'' \<and> ev_epoch e = Some n)"
  by (auto simp: has_gap_def)

lemma after_gap_snoc: "after_gap (hist @ [e]) n = (if ev_epoch e \<noteq> Some n then after_gap hist n else if has_gap hist n then after_gap hist n @ [e]
    else if ev_kind e = ''gap'' then [e] else [])"
proof (cases "has_gap hist n")
  case True
  then obtain g where "g \<in> set (filter (\<lambda>e. ev_epoch e = Some n) hist)" "\<not> ev_kind g \<noteq> ''gap''" by (auto simp: has_gap_def)
  with True show ?thesis by (simp add: after_gap_def)
next
  case False
  then have "dropWhile (\<lambda>e. ev_kind e \<noteq> ''gap'') (filter (\<lambda>e. ev_epoch e = Some n) hist @ es) = dropWhile (\<lambda>e. ev_kind e \<noteq> ''gap'') es" for es
    by (intro dropWhile_append2) (auto simp: has_gap_def)
  moreover have "dropWhile (\<lambda>e. ev_kind e \<noteq> ''gap'') (filter (\<lambda>e. ev_epoch e = Some n) hist) = []"
    using False by (auto simp: has_gap_def)
  ultimately show ?thesis using False by (simp add: after_gap_def del: dropWhile_eq_Nil_conv)
qed

lemma sealed_snoc: "sealed (hist @ [e]) n = (sealed hist n \<or> ev_epoch e = Some n \<and> (has_gap hist n \<or> ev_kind e = ''connection_close''))"
  by (auto simp: sealed_def after_gap_snoc has_gap_after Suc_le_eq)

definition answering :: "event list \<Rightarrow> event \<Rightarrow> bool" where
  "answering hist e = (ev_kind e \<noteq> ''rpc_response''
     \<or> (\<exists>n d m. ev_epoch e = Some n \<and> ev_side e = Some d \<and> dget (ev_fields e) ''method'' = JStr m
          \<and> valid_id (dget (ev_fields e) ''request_id'') \<and> logged hist n (other_side d) (dget (ev_fields e) ''request_id'') m))"

inductive history :: "event list \<Rightarrow> int \<Rightarrow> bool" where
  nothing: "history [] n"
| recorded: "history hist m \<Longrightarrow> m \<le> ev_seq e \<Longrightarrow> ev_seq e < n \<Longrightarrow> calm hist e \<Longrightarrow> answering hist e \<Longrightarrow> history (hist @ [e]) n"

inductive_simps history_snoc: "history (hist @ [e]) n"

lemma history_mono: "history hist m \<Longrightarrow> m \<le> n \<Longrightarrow> history hist n"
  by (cases rule: history.cases) (auto intro: history.intros)

lemma history_seq: "history hist n \<Longrightarrow> e \<in> set hist \<Longrightarrow> ev_seq e < n"
  by (induction rule: history.induct) auto

lemma history_at:
  assumes "history hist n" and "hist = xs @ e # ys"
  shows "calm xs e \<and> answering xs e \<and> (\<forall>x \<in> set xs. ev_seq x < ev_seq e)"
  using assms
proof (induction arbitrary: ys rule: history.induct)
  case (recorded hist m e' n)
  show ?case
  proof (cases ys rule: rev_cases)
    case Nil
    with recorded.prems have "xs = hist" "e = e'" by auto
    with recorded.hyps history_seq [OF recorded.hyps(1)] show ?thesis by fastforce
  next
    case (snoc zs z)
    with recorded.prems have "hist = xs @ e # zs" by auto
    then show ?thesis by (rule recorded.IH)
  qed
qed simp

lemma logged_append [simp]: "logged hist n d rid m \<Longrightarrow> logged (hist @ es) n d rid m"
  by (auto simp: logged_def)

section \<open>The invariant\<close>

definition conn_ok :: "event list \<Rightarrow> connection \<Rightarrow> bool" where
  "conn_ok hist c = ((has_gap hist (cn_epoch c) \<or> cn_overflowed c \<or> cn_closed c \<longrightarrow> \<not> cn_valid c)
     \<and> (sealed hist (cn_epoch c) \<longrightarrow> cn_closed c \<or> cn_overflowed c)
     \<and> (\<forall>d rid m. map_of (cn_pending c) (d, rid) = Some m \<and> m \<in> set known_methods \<longrightarrow> logged hist (cn_epoch c) d rid m))"

definition whole_log :: "event list \<Rightarrow> observer \<Rightarrow> event list" where
  "whole_log drained ob = drained @ ob_events ob"

definition log_ok :: "int \<Rightarrow> event list \<Rightarrow> observer \<Rightarrow> bool" where
  "log_ok bound drained ob = (history (whole_log drained ob) (ob_next_seq ob)
     \<and> (\<forall>e \<in> set (whole_log drained ob). \<forall>n. ev_epoch e = Some n \<longrightarrow> n \<le> bound))"

definition others_ok :: "int \<Rightarrow> event list \<Rightarrow> string \<Rightarrow> int \<Rightarrow> observer \<Rightarrow> bool" where
  "others_ok bound drained i epoch ob =
    ((\<forall>j c. map_of (ob_connections ob) j = Some c \<and> j \<noteq> i \<longrightarrow> conn_ok (whole_log drained ob) c \<and> cn_epoch c \<le> bound \<and> cn_epoch c \<noteq> epoch)
     \<and> (\<forall>j k c c'. map_of (ob_connections ob) j = Some c \<and> map_of (ob_connections ob) k = Some c' \<and> j \<noteq> i \<and> k \<noteq> i \<and> j \<noteq> k
          \<longrightarrow> cn_epoch c \<noteq> cn_epoch c'))"

definition focus_inv :: "int \<Rightarrow> event list \<Rightarrow> string \<Rightarrow> obs_state \<Rightarrow> bool" where
  "focus_inv bound drained i s = (case s of (c, ob) \<Rightarrow> log_ok bound drained ob \<and> conn_ok (whole_log drained ob) c
     \<and> cn_epoch c \<le> bound \<and> others_ok bound drained i (cn_epoch c) ob)"

definition table_inv :: "int \<Rightarrow> event list \<Rightarrow> observer \<Rightarrow> bool" where
  "table_inv bound drained ob = (log_ok bound drained ob
     \<and> (\<forall>i c. map_of (ob_connections ob) i = Some c \<longrightarrow> conn_ok (whole_log drained ob) c \<and> cn_epoch c \<le> bound)
     \<and> (\<forall>i j c c'. map_of (ob_connections ob) i = Some c \<and> map_of (ob_connections ob) j = Some c' \<and> i \<noteq> j \<longrightarrow> cn_epoch c \<noteq> cn_epoch c'))"

lemma focus_table: "focus_inv bound drained i (c, ob) \<Longrightarrow> table_inv bound drained (put_connection i (c, ob))"
proof -
  let ?t = "put_connection i (c, ob)"
  assume f: "focus_inv bound drained i (c, ob)"
  have put: "map_of (ob_connections ?t) j = (if j = i then Some c else map_of (ob_connections ob) j)" for j
    by (simp add: put_connection_def)
  have same: "log_ok bound drained ?t = log_ok bound drained ob" "whole_log drained ?t = whole_log drained ob"
    by (simp_all add: log_ok_def whole_log_def put_connection_def)
  from f have "log_ok bound drained ob" "conn_ok (whole_log drained ob) c" "cn_epoch c \<le> bound"
    and others: "\<And>j c'. map_of (ob_connections ob) j = Some c' \<Longrightarrow> j \<noteq> i \<Longrightarrow>
        conn_ok (whole_log drained ob) c' \<and> cn_epoch c' \<le> bound \<and> cn_epoch c' \<noteq> cn_epoch c"
      "\<And>j k d d'. map_of (ob_connections ob) j = Some d \<Longrightarrow> map_of (ob_connections ob) k = Some d' \<Longrightarrow> j \<noteq> i \<Longrightarrow> k \<noteq> i \<Longrightarrow> j \<noteq> k
        \<Longrightarrow> cn_epoch d \<noteq> cn_epoch d'"
    unfolding focus_inv_def others_ok_def by simp_all
  then show "table_inv bound drained ?t"
    unfolding table_inv_def same put by (metis option.inject)
qed

lemma table_focus: "table_inv bound drained ob \<Longrightarrow> map_of (ob_connections ob) i = Some c \<Longrightarrow> focus_inv bound drained i (c, ob)"
  unfolding focus_inv_def table_inv_def others_ok_def by auto

lemma conn_ok_other: "conn_ok hist c \<Longrightarrow> ev_epoch e \<noteq> Some (cn_epoch c) \<Longrightarrow> conn_ok (hist @ [e]) c"
  by (auto simp: conn_ok_def sealed_snoc)

lemma conn_ok_same: "conn_ok hist c \<Longrightarrow> cn_closed c \<or> cn_valid c \<and> ev_kind e \<notin> {''gap'', ''connection_close''} \<Longrightarrow> conn_ok (hist @ [e]) c"
  by (auto simp: conn_ok_def sealed_snoc)

lemma conn_ok_valid: "conn_ok hist c \<Longrightarrow> cn_valid c \<Longrightarrow> \<not> has_gap hist (cn_epoch c) \<and> \<not> sealed hist (cn_epoch c) \<and> \<not> cn_overflowed c \<and> \<not> cn_closed c"
  by (auto simp: conn_ok_def)

section \<open>One record\<close>

definition new_record :: "string \<Rightarrow> int option \<Rightarrow> side option \<Rightarrow> jdict \<Rightarrow> observer \<Rightarrow> event" where
  "new_record kind epoch d info ob = (if ob_max_events ob - 1 \<le> length (ob_events ob)
     then \<lparr>ev_kind = ''gap'', ev_epoch = epoch, ev_seq = ob_next_seq ob + 1, ev_side = d, ev_fields = [(''reason'', JStr ''event_queue_overflow'')]\<rparr>
     else \<lparr>ev_kind = kind, ev_epoch = epoch, ev_seq = ob_next_seq ob, ev_side = d, ev_fields = info\<rparr>)"

lemma append_record_new:
  assumes "append_record kind epoch d info ob = (full, ob')"
  shows "\<exists>n. ob' = ob\<lparr>ob_next_seq := n, ob_events := ob_events ob @ [new_record kind epoch d info ob]\<rparr>
      \<and> ob_next_seq ob \<le> ev_seq (new_record kind epoch d info ob) \<and> ev_seq (new_record kind epoch d info ob) < n"
    and "full = (ob_max_events ob - 1 \<le> length (ob_events ob))"
    and "ev_epoch (new_record kind epoch d info ob) = epoch"
  using assms by (auto simp: append_record_def new_record_def Let_def split: if_splits)

text \<open>A record of an epoch that is allowed after the history so far keeps what holds of the other connections.\<close>

lemma others_append:
  assumes "others_ok bound drained i n ob" and "ob_connections ob' = ob_connections ob"
    and "whole_log drained ob' = whole_log drained ob @ [e]" and "ev_epoch e = None \<or> ev_epoch e = Some n"
  shows "others_ok bound drained i n ob'"
proof -
  have "conn_ok (whole_log drained ob @ [e]) c" if "conn_ok (whole_log drained ob) c" "cn_epoch c \<noteq> n" for c
    using that assms(4) by (intro conn_ok_other) auto
  then show ?thesis using assms(1) unfolding others_ok_def assms(2,3) by blast
qed

lemma record_kept:
  assumes "append_record kind epoch d info ob = (full, ob')" and "log_ok bound drained ob" and "epoch = None \<or> epoch = Some n \<and> n \<le> bound"
    and "calm (whole_log drained ob) (new_record kind epoch d info ob)" and "answering (whole_log drained ob) (new_record kind epoch d info ob)"
  shows "log_ok bound drained ob'"
    and "epoch = None \<or> epoch = Some n \<Longrightarrow> others_ok bound drained i n ob \<Longrightarrow> others_ok bound drained i n ob'"
    and "whole_log drained ob' = whole_log drained ob @ [new_record kind epoch d info ob]"
proof -
  let ?e = "new_record kind epoch d info ob"
  from append_record_new [OF assms(1)] obtain k
    where ob': "ob' = ob\<lparr>ob_next_seq := k, ob_events := ob_events ob @ [?e]\<rparr>" and k: "ob_next_seq ob \<le> ev_seq ?e" "ev_seq ?e < k"
      and e: "ev_epoch ?e = epoch" by blast
  show w: "whole_log drained ob' = whole_log drained ob @ [?e]" by (simp add: whole_log_def ob')
  have "history (whole_log drained ob) (ob_next_seq ob)" using assms(2) by (simp add: log_ok_def)
  from history.recorded [OF this k assms(4,5)] have "history (whole_log drained ob') (ob_next_seq ob')"
    unfolding w by (simp add: ob')
  moreover have "\<forall>e \<in> set (whole_log drained ob'). \<forall>x. ev_epoch e = Some x \<longrightarrow> x \<le> bound"
    using assms(2,3) e by (auto simp: log_ok_def w)
  ultimately show "log_ok bound drained ob'" by (simp add: log_ok_def)
  assume "epoch = None \<or> epoch = Some n" "others_ok bound drained i n ob"
  then show "others_ok bound drained i n ob'" using e by (intro others_append [OF _ _ w]) (simp_all add: ob')
qed

definition plain_record :: "string \<Rightarrow> int option \<Rightarrow> side option \<Rightarrow> jdict \<Rightarrow> observer \<Rightarrow> event" where
  "plain_record kind epoch d info ob = \<lparr>ev_kind = kind, ev_epoch = epoch, ev_seq = ob_next_seq ob, ev_side = d, ev_fields = info\<rparr>"

lemma new_record_plain: "\<not> ob_max_events ob - 1 \<le> length (ob_events ob) \<Longrightarrow> new_record kind epoch d info ob = plain_record kind epoch d info ob"
  by (simp add: new_record_def plain_record_def)

lemma gap_allowed [simp]: "ev_kind e = ''gap'' \<Longrightarrow> ev_epoch e = None \<Longrightarrow> calm hist e" "ev_kind e = ''gap'' \<Longrightarrow> answering hist e"
  by (simp_all add: calm_def answering_def)

lemma overflow_ok [simp]: "conn_ok hist ((invalidate c)\<lparr>cn_overflowed := True\<rparr>)"
  by (simp add: conn_ok_def invalidate_def)

lemma emit_focus:
  assumes "log_ok bound drained ob" and "others_ok bound drained i (cn_epoch c) ob" and "cn_epoch c \<le> bound"
    and "cn_overflowed c \<Longrightarrow> conn_ok (whole_log drained ob) c"
    and "\<not> cn_overflowed c \<Longrightarrow> calm (whole_log drained ob) (plain_record kind (Some (cn_epoch c)) d info ob)"
    and "answering (whole_log drained ob) (plain_record kind (Some (cn_epoch c)) d info ob)"
    and "conn_ok (whole_log drained ob @ [plain_record kind (Some (cn_epoch c)) d info ob]) c"
  shows "focus_inv bound drained i (emit kind d info (c, ob))"
proof (cases "cn_overflowed c")
  case True
  then show ?thesis using assms by (simp add: emit_def focus_inv_def)
next
  case False
  obtain full ob' where a: "append_record kind (Some (cn_epoch c)) d info ob = (full, ob')" by (cases "append_record kind (Some (cn_epoch c)) d info ob")
  let ?e = "new_record kind (Some (cn_epoch c)) d info ob"
  have full: "full = (ob_max_events ob - 1 \<le> length (ob_events ob))" by (rule append_record_new(2) [OF a])
  have gap: "full \<Longrightarrow> ev_kind ?e = ''gap'' \<and> last_word ?e" using full by (simp add: new_record_def last_word_def)
  have plain: "\<not> full \<Longrightarrow> ?e = plain_record kind (Some (cn_epoch c)) d info ob" using full new_record_plain by blast
  have "ev_epoch ?e = Some (cn_epoch c)" by (rule append_record_new(3) [OF a])
  then have "calm (whole_log drained ob) ?e" "answering (whole_log drained ob) ?e"
    using assms(5) [OF False] assms(6) gap plain by (cases full; simp add: calm_def plain_record_def)+
  from record_kept [OF a assms(1) _ this] assms(2,3)
  have kept: "log_ok bound drained ob'" "others_ok bound drained i (cn_epoch c) ob'" "whole_log drained ob' = whole_log drained ob @ [?e]"
    by blast+
  have "cn_epoch ((invalidate c)\<lparr>cn_overflowed := True\<rparr>) = cn_epoch c" by (simp add: invalidate_def)
  with kept plain assms(3,7) False show ?thesis by (cases full) (simp_all add: emit_def a focus_inv_def)
qed

lemma plain_record_simps [simp]:
  "ev_kind (plain_record kind epoch d info ob) = kind" "ev_epoch (plain_record kind epoch d info ob) = epoch"
  "ev_side (plain_record kind epoch d info ob) = d" "ev_fields (plain_record kind epoch d info ob) = info"
  by (simp_all add: plain_record_def)

lemma emit_valid_focus:
  assumes "focus_inv bound drained i (c, ob)" and "cn_valid c" and "kind \<notin> {''gap'', ''connection_close'', ''rpc_response''}"
  shows "focus_inv bound drained i (emit kind d info (c, ob))"
proof -
  have ok: "conn_ok (whole_log drained ob) c" using assms(1) by (simp add: focus_inv_def)
  with assms conn_ok_valid [OF ok assms(2)] show ?thesis
    by (intro emit_focus) (auto simp: focus_inv_def calm_def answering_def intro!: conn_ok_same)
qed

section \<open>Every move keeps it\<close>

lemma invalidate_simps [simp]:
  "cn_epoch (invalidate c) = cn_epoch c" "cn_valid (invalidate c) = False" "cn_overflowed (invalidate c) = cn_overflowed c"
  "cn_pending (invalidate c) = []" "cn_closed (invalidate c) = cn_closed c"
  by (simp_all add: invalidate_def)

lemma gap_focus:
  assumes "focus_inv bound drained i (c, ob)"
  shows "focus_inv bound drained i (gap reason d info (c, ob))"
proof (cases "cn_valid c")
  case True
  have "conn_ok (whole_log drained ob) c" using assms by (simp add: focus_inv_def)
  note calm = conn_ok_valid [OF this True]
  then have "focus_inv bound drained i (emit ''gap'' d ((''reason'', JStr reason) # info) (invalidate c, ob))"
    using assms by (intro emit_focus) (simp_all add: focus_inv_def calm_def conn_ok_def sealed_snoc)
  with True show ?thesis by (simp add: gap_def)
qed (simp add: assms)

lemma request_logged:
  assumes "request_record x d m params v = (kind, info)" and "m \<in> set known_methods"
  shows "kind = ''rpc''" and "dget info ''request_id'' = dget v ''id''" and "dget info ''method'' = JStr m"
  using assms by (auto simp: request_record_def Let_def)

lemma response_answers:
  assumes "response_record d m v = (''rpc_response'', info)"
  obtains k where "m = Some k" "k \<in> set known_methods" "dget info ''request_id'' = dget v ''id''" "dget info ''method'' = JStr k"
  using assms by (auto simp: response_record_def Let_def split: option.splits if_splits)

lemma response_record_kind: "fst (response_record d m v) \<in> {''rpc_unknown'', ''rpc_response''}"
  by (simp add: response_record_def Let_def split: option.split)

lemma asked_focus:
  assumes "focus_inv bound drained i (c, ob)" and "cn_valid c" and "request_record x d m params v = (kind, info)"
  shows "focus_inv bound drained i (emit kind (Some d) info (c\<lparr>cn_pending := dict_set (d, dget v ''id'') m (cn_pending c)\<rparr>, ob))"
proof (rule emit_focus)
  let ?c = "c\<lparr>cn_pending := dict_set (d, dget v ''id'') m (cn_pending c)\<rparr>"
  let ?e = "plain_record kind (Some (cn_epoch ?c)) (Some d) info ob" and ?log = "whole_log drained ob"
  have ok: "conn_ok ?log c" using assms(1) by (simp add: focus_inv_def)
  note calm = conn_ok_valid [OF ok assms(2)]
  have kind: "kind \<in> {''rpc'', ''rpc_unknown''}" using request_record_kind [of x d m params v] assms(3) by simp
  show "log_ok bound drained ob" "others_ok bound drained i (cn_epoch ?c) ob" "cn_epoch ?c \<le> bound"
    using assms(1) by (simp_all add: focus_inv_def)
  show "cn_overflowed ?c \<Longrightarrow> conn_ok ?log ?c" using calm by simp
  show "calm ?log ?e" "answering ?log ?e" using kind calm by (auto simp: calm_def answering_def)
  have old: "conn_ok (?log @ [?e]) c" using kind ok assms(2) by (intro conn_ok_same) auto
  have "logged (?log @ [?e]) (cn_epoch c) d (dget v ''id'') m" if "m \<in> set known_methods"
    using request_logged [OF assms(3) that] by (auto simp: logged_def)
  then show "conn_ok (?log @ [?e]) ?c" using old by (auto simp: conn_ok_def split: if_splits)
qed

lemma answered_focus:
  assumes "focus_inv bound drained i (c, ob)" and "cn_valid c" and id: "valid_id (dget v ''id'')"
    and "response_record d (map_of (cn_pending c) (other_side d, dget v ''id'')) v = (kind, info)"
  shows "focus_inv bound drained i (emit kind (Some d) info (c\<lparr>cn_pending := dict_del (other_side d, dget v ''id'') (cn_pending c)\<rparr>, ob))"
proof (rule emit_focus)
  let ?c = "c\<lparr>cn_pending := dict_del (other_side d, dget v ''id'') (cn_pending c)\<rparr>"
  let ?e = "plain_record kind (Some (cn_epoch ?c)) (Some d) info ob" and ?log = "whole_log drained ob"
  have ok: "conn_ok ?log c" using assms(1) by (simp add: focus_inv_def)
  note calm = conn_ok_valid [OF ok assms(2)]
  have kind: "kind \<in> {''rpc_unknown'', ''rpc_response''}"
    using response_record_kind [of d "map_of (cn_pending c) (other_side d, dget v ''id'')" v] assms(4) by simp
  show "log_ok bound drained ob" "others_ok bound drained i (cn_epoch ?c) ob" "cn_epoch ?c \<le> bound"
    using assms(1) by (simp_all add: focus_inv_def)
  show "cn_overflowed ?c \<Longrightarrow> conn_ok ?log ?c" using calm by simp
  show "calm ?log ?e" using calm by (auto simp: calm_def)
  show "answering ?log ?e"
  proof (cases "kind = ''rpc_response''")
    case True
    then obtain k where k: "map_of (cn_pending c) (other_side d, dget v ''id'') = Some k" "k \<in> set known_methods"
      "dget info ''request_id'' = dget v ''id''" "dget info ''method'' = JStr k"
      using response_answers assms(4) by metis
    then have "logged ?log (cn_epoch c) (other_side d) (dget v ''id'') k" using ok by (auto simp: conn_ok_def)
    with k True id show ?thesis by (simp add: answering_def)
  qed (simp add: answering_def)
  have "conn_ok (?log @ [?e]) c" using kind ok assms(2) by (intro conn_ok_same) auto
  then show "conn_ok (?log @ [?e]) ?c" by (auto simp: conn_ok_def split: if_splits)
qed

lemma conn_ok_weaken:
  "conn_ok hist c \<Longrightarrow> cn_epoch c' = cn_epoch c \<Longrightarrow> (cn_valid c' \<longrightarrow> cn_valid c) \<Longrightarrow> cn_overflowed c' = cn_overflowed c \<Longrightarrow>
     cn_closed c' = cn_closed c \<Longrightarrow> cn_pending c' = cn_pending c \<Longrightarrow> conn_ok hist c'"
  by (auto simp: conn_ok_def)

lemma move_focus: "obs_move W cls s s' \<Longrightarrow> focus_inv bound drained i s \<Longrightarrow> focus_inv bound drained i s'"
proof (induction rule: obs_move.induct)
  case (parsing c' c ob)
  then show ?case by (auto simp: focus_inv_def intro: conn_ok_weaken)
next
  case (silenced c' c ob)
  then show ?case by (auto simp: focus_inv_def intro: conn_ok_weaken)
next
  case (ended c c' ob d info)
  then have "conn_ok (whole_log drained ob) c" "log_ok bound drained ob" "cn_epoch c \<le> bound" "others_ok bound drained i (cn_epoch c) ob"
    by (simp_all add: focus_inv_def)
  with ended.hyps show ?case
    by (intro emit_focus) (auto simp: calm_def answering_def last_word_def conn_ok_def intro!: conn_ok_same)
qed (simp_all add: emit_valid_focus gap_focus asked_focus answered_focus)

lemma moves_focus: "obs_moves W cls s s' \<Longrightarrow> focus_inv bound drained i s \<Longrightarrow> focus_inv bound drained i s'"
  by (induction rule: rtranclp_induct) (blast intro: move_focus)+

section \<open>Runs\<close>

text \<open>
  Everything a user of the observer may do, in any order; the home that leases name may be different
  at every call. \<open>drained\<close> is what was taken out so far.
\<close>

inductive observer_run :: "wire_platform \<Rightarrow> event list \<Rightarrow> observer \<Rightarrow> bool" for W where
  created: "make_observer max_header max_frame max_message max_events cwd = Inr ob \<Longrightarrow> observer_run W [] ob"
| opened: "observer_run W drained ob \<Longrightarrow> open_connection i conn_epoch ob = (r, ob') \<Longrightarrow> observer_run W drained ob'"
| paused: "observer_run W drained ob \<Longrightarrow> observer_run W drained (set_pending i ob)"
| fed: "observer_run W drained ob \<Longrightarrow> feed W cls i direction data ob = (es, ob') \<Longrightarrow> observer_run W drained ob'"
| closed: "observer_run W drained ob \<Longrightarrow> close_connection i ob = (es, ob') \<Longrightarrow> observer_run W drained ob'"
| emptied: "observer_run W drained ob \<Longrightarrow> drain_events ob = (es, ob') \<Longrightarrow> observer_run W (drained @ es) ob'"

lemma emit_same: "ob_max_epoch (snd (emit kind d info s)) = ob_max_epoch (snd s)"
    "ob_connections (snd (emit kind d info s)) = ob_connections (snd s)" "ob_max_events (snd (emit kind d info s)) = ob_max_events (snd s)"
  by (cases s; simp add: emit_def append_record_def Let_def)+

lemma gap_same: "ob_max_epoch (snd (gap reason d info s)) = ob_max_epoch (snd s)"
    "ob_connections (snd (gap reason d info s)) = ob_connections (snd s)" "ob_max_events (snd (gap reason d info s)) = ob_max_events (snd s)"
  by (cases s; simp add: gap_def emit_same)+

lemma moves_same:
  "obs_moves W cls s s' \<Longrightarrow> ob_max_epoch (snd s') = ob_max_epoch (snd s) \<and> ob_connections (snd s') = ob_connections (snd s)
     \<and> ob_max_events (snd s') = ob_max_events (snd s)"
  by (induction rule: rtranclp_induct) (auto elim!: obs_move.cases simp: emit_same gap_same)

lemma put_same [simp]: "ob_max_epoch (put_connection i s) = ob_max_epoch (snd s)" "ob_max_events (put_connection i s) = ob_max_events (snd s)"
    "ob_events (put_connection i s) = ob_events (snd s)"
  by (cases s; simp add: put_connection_def)+

lemma moves_table:
  assumes "table_inv (ob_max_epoch ob) drained ob" and "map_of (ob_connections ob) i = Some c" and "obs_moves W cls (c, ob) s"
  shows "table_inv (ob_max_epoch (put_connection i s)) drained (put_connection i s)"
proof -
  have "focus_inv (ob_max_epoch ob) drained i s"
    using moves_focus [OF assms(3) table_focus [OF assms(1,2)]] .
  then show ?thesis using moves_same [OF assms(3)] focus_table by (cases s) simp
qed

lemma free_table:
  assumes "table_inv bound drained ob"
  shows "table_inv bound drained (emit_free ''gap'' d info ob)" "ob_max_epoch (emit_free ''gap'' d info ob) = ob_max_epoch ob"
proof -
  obtain full ob' where a: "append_record ''gap'' None d info ob = (full, ob')" by (cases "append_record ''gap'' None d info ob")
  let ?e = "new_record ''gap'' None d info ob"
  have "ev_kind ?e = ''gap''" "ev_epoch ?e = None" by (simp_all add: new_record_def)
  then have ok: "calm (whole_log drained ob) ?e" "answering (whole_log drained ob) ?e" by simp_all
  have "log_ok bound drained ob" using assms by (simp add: table_inv_def)
  note kept = record_kept [OF a this _ ok]
  have e: "ev_epoch ?e = None" by (rule append_record_new(3) [OF a])
  have c: "ob_connections ob' = ob_connections ob" using append_record_new(1) [OF a] by auto
  have "conn_ok (whole_log drained ob @ [?e]) c" if "conn_ok (whole_log drained ob) c" for c
    using that e by (intro conn_ok_other) simp_all
  then show "table_inv bound drained (emit_free ''gap'' d info ob)"
    using assms kept(1,3) unfolding table_inv_def emit_free_def a by (simp add: c)
  show "ob_max_epoch (emit_free ''gap'' d info ob) = ob_max_epoch ob"
    using append_record_new(1) [OF a] by (auto simp: emit_free_def a)
qed

lemma gap_closed [simp]: "cn_closed (fst (gap reason d info s)) = cn_closed (fst s)" "\<not> cn_valid (fst (gap reason d info s))"
  by (cases s; auto simp: gap_def emit_def split: prod.splits)+

lemma final_gap_closed [simp]: "cn_closed (fst (final_gap s)) = cn_closed (fst s)"
  by (simp add: final_gap_def Let_def split: option.split)

lemma reopened_table:
  assumes "table_inv bound drained ob"
  shows "\<exists>ob1. close_reopened i ob = ob1 \<and> log_ok bound drained ob1 \<and> ob_connections ob1 = ob_connections ob \<and> ob_max_epoch ob1 = ob_max_epoch ob
      \<and> (\<forall>n. others_ok bound drained i n ob1 \<or> \<not> bound < n)"
proof -
  have others: "others_ok bound drained i n ob1" if "focus_inv bound drained i (c, ob1)" "bound < n" for n c ob1
    using that unfolding focus_inv_def others_ok_def by fastforce
  have base: "others_ok bound drained i n ob" if "bound < n" for n
    using assms that unfolding table_inv_def others_ok_def by fastforce
  have unchanged: ?thesis if "close_reopened i ob = ob"
    using that assms base by (auto simp: table_inv_def)
  show ?thesis
  proof (cases "map_of (ob_connections ob) i")
    case None
    then show ?thesis by (intro unchanged) (simp add: close_reopened_def)
  next
    case (Some old)
    show ?thesis
    proof (cases "cn_closed old")
      case True
      with Some show ?thesis by (intro unchanged) (simp add: close_reopened_def)
    next
      case False
      obtain c ob1 where g: "gap ''connection_reopened'' None [] (old, ob) = (c, ob1)" by (cases "gap ''connection_reopened'' None [] (old, ob)")
      obtain c2 ob2 where e: "emit ''connection_close'' None [] (c\<lparr>cn_closed := True\<rparr>, ob1) = (c2, ob2)"
        by (cases "emit ''connection_close'' None [] (c\<lparr>cn_closed := True\<rparr>, ob1)")
      have "obs_moves W cls (old, ob) (c, ob1)" using gap_moves [where s = "(old, ob)"] g by metis
      moreover have "obs_move W cls (c, ob1) (c2, ob2)" unfolding e [symmetric]
      proof (rule obs_move.ended)
        show "\<not> cn_closed c" "\<not> cn_valid (c\<lparr>cn_closed := True\<rparr>)" using gap_closed [of "''connection_reopened''" None "[]" "(old, ob)"] g False by simp_all
      qed simp_all
      ultimately have m: "obs_moves W cls (old, ob) (c2, ob2)" by simp
      have f: "focus_inv bound drained i (c2, ob2)" by (rule moves_focus [OF m table_focus [OF assms Some]])
      have "close_reopened i ob = ob2" by (simp add: close_reopened_def Some False g e)
      then show ?thesis using moves_same [OF m] f others [OF f] by (auto simp: focus_inv_def)
    qed
  qed
qed

lemma open_table:
  assumes "table_inv (ob_max_epoch ob) drained ob" and "open_connection i conn_epoch ob = (r, ob')"
  shows "table_inv (ob_max_epoch ob') drained ob'"
proof (cases r)
  case (Inl e)
  with assms show ?thesis by (auto simp: open_connection_def Let_def split: sum.splits)
next
  case (Inr n)
  let ?ob = "ob\<lparr>ob_max_epoch := n\<rparr>" and ?b = "ob_max_epoch ob"
  from assms(2) Inr obtain ob1 where n: "?b < n" and ob1: "ob1 = close_reopened i ?ob"
    and ob': "ob' = put_connection i (emit ''connection_open'' None [] (new_connection n, ob1\<lparr>ob_next_epoch := max (ob_next_epoch ob1) (n + 1)\<rparr>))"
    by (auto simp: open_connection_def Let_def split: sum.splits)
  let ?ob2 = "ob1\<lparr>ob_next_epoch := max (ob_next_epoch ob1) (n + 1)\<rparr>"
  have "table_inv ?b drained ?ob" using assms(1) by (simp add: table_inv_def log_ok_def whole_log_def)
  from reopened_table [OF this, of i] n have r: "log_ok ?b drained ob1" "others_ok ?b drained i n ob1" "ob_max_epoch ob1 = n"
    by (auto simp: ob1)
  have same: "whole_log drained ?ob2 = whole_log drained ob1" by (simp add: whole_log_def)
  have l: "log_ok n drained ?ob2" using r(1) n unfolding log_ok_def same by fastforce
  have o: "others_ok n drained i n ?ob2" using r(2) n unfolding others_ok_def same by fastforce
  have fresh: "ev_epoch e \<noteq> Some n" if "e \<in> set (whole_log drained ?ob2)" for e
    using r(1) n that unfolding log_ok_def same by fastforce
  then have none: "\<not> has_gap (whole_log drained ?ob2) n" unfolding has_gap_def by blast
  with fresh have none2: "\<not> sealed (whole_log drained ?ob2) n" unfolding sealed_def has_gap_after by auto
  have "focus_inv n drained i (emit ''connection_open'' None [] (new_connection n, ?ob2))"
  proof (rule emit_focus)
    show "conn_ok (whole_log drained ?ob2 @ [plain_record ''connection_open'' (Some (cn_epoch (new_connection n))) None [] ?ob2]) (new_connection n)"
      using none none2 by (auto simp: conn_ok_def new_connection_def sealed_snoc)
  qed (use l o none none2 in \<open>simp_all add: new_connection_def calm_def answering_def\<close>)
  moreover have "ob_max_epoch ob' = n" using r(3) by (simp add: ob' emit_same)
  ultimately show ?thesis using focus_table by (cases "emit ''connection_open'' None [] (new_connection n, ?ob2)") (simp add: ob')
qed

lemma feed_table:
  assumes "table_inv (ob_max_epoch ob) drained ob" and "feed W cls i direction data ob = (es, ob')"
  shows "table_inv (ob_max_epoch ob') drained ob'"
proof (cases "map_of (ob_connections ob) i")
  case None
  with assms free_table [OF assms(1)] show ?thesis by (auto simp: feed_def Let_def)
next
  case (Some c)
  note keep = moves_table [OF assms(1) Some]
  show ?thesis
  proof (cases "cn_closed c")
    case True
    with Some assms free_table [OF assms(1)] show ?thesis by (auto simp: feed_def Let_def)
  next
    case open_c: False
    show ?thesis
    proof (cases "cn_valid c")
      case True
      then have "obs_moves W cls (c, ob) (feed_connection W cls d bytes (c, ob))" for d bytes by (intro moves) simp
      note ok = keep [OF this] keep [OF gap_moves]
      from open_c True Some assms(2) show ?thesis
        by (auto simp: feed_def Let_def ok simp del: put_same split: option.splits)
    next
      case False
      note ok = keep [OF gap_moves]
      from False open_c Some assms show ?thesis
        by (auto simp: feed_def Let_def ok simp del: put_same gap_invalid split: option.splits)
    qed
  qed
qed

lemma close_table:
  assumes "table_inv (ob_max_epoch ob) drained ob" and "close_connection i ob = (es, ob')"
  shows "table_inv (ob_max_epoch ob') drained ob'"
proof (cases "map_of (ob_connections ob) i")
  case None
  with assms free_table [OF assms(1)] show ?thesis by (auto simp: close_connection_def Let_def)
next
  case (Some c)
  show ?thesis
  proof (cases "cn_closed c")
    case True
    with Some assms show ?thesis by (auto simp: close_connection_def Let_def)
  next
    case False
    obtain c1 ob1 where g: "(if cn_valid c then final_gap (c, ob) else (c, ob)) = (c1, ob1)"
      by (cases "if cn_valid c then final_gap (c, ob) else (c, ob)")
    let ?c = "c1\<lparr>cn_closed := True, cn_state := ''DISCONNECTED'', cn_valid := False\<rparr>"
    have "obs_moves W cls (c, ob) (c1, ob1)" using final_gap_moves [where s = "(c, ob)"] by (metis g rtranclp.rtrancl_refl)
    moreover have "obs_move W cls (c1, ob1) (emit ''connection_close'' None [] (?c, ob1))"
    proof (rule obs_move.ended)
      show "\<not> cn_closed c1" using g False final_gap_closed [of "(c, ob)", unfolded fst_conv] by (cases "cn_valid c") auto
    qed simp_all
    ultimately have "obs_moves W cls (c, ob) (emit ''connection_close'' None [] (?c, ob1))" by simp
    from moves_table [OF assms(1) Some this] show ?thesis
      using assms(2) Some False g by (auto simp: close_connection_def Let_def simp del: put_same)
  qed
qed

lemma run_table: "observer_run W drained ob \<Longrightarrow> table_inv (ob_max_epoch ob) drained ob"
proof (induction rule: observer_run.induct)
  case (created a b c d cwd ob)
  then have "ob_events ob = []" "ob_connections ob = []" by (auto simp: make_observer_def)
  then show ?case by (simp add: table_inv_def log_ok_def whole_log_def history.nothing)
next
  case (opened drained ob i conn_epoch r ob')
  show ?case by (rule open_table [OF opened.IH opened.hyps(2)])
next
  case (paused drained ob i)
  show ?case
  proof (cases "map_of (ob_connections ob) i")
    case (Some c)
    have "obs_moves W cls (c, ob) (c\<lparr>cn_state := ''PENDING'', cn_valid := False\<rparr>, ob)" by (intro r_into_rtranclp obs_move.silenced) simp_all
    from moves_table [OF paused.IH Some this] show ?thesis by (simp add: set_pending_def Some paused.IH)
  qed (simp add: set_pending_def paused.IH)
next
  case (fed drained ob cls i direction data es ob')
  show ?case by (rule feed_table [OF fed.IH fed.hyps(2)])
next
  case (closed drained ob i es ob')
  show ?case by (rule close_table [OF closed.IH closed.hyps(2)])
next
  case (emptied drained ob es ob')
  then have e: "es = ob_events ob" and ob': "ob' = ob\<lparr>ob_events := []\<rparr>" by (simp_all add: drain_events_def)
  have "whole_log (drained @ es) ob' = whole_log drained ob" "ob_next_seq ob' = ob_next_seq ob"
    "ob_connections ob' = ob_connections ob" "ob_max_epoch ob' = ob_max_epoch ob" by (simp_all add: whole_log_def e ob')
  then show ?case using emptied.IH unfolding table_inv_def log_ok_def by simp
qed

text \<open>What comes after a gap.\<close>

lemma after_gap_tail:
  assumes "ev_kind g = ''gap''" and "ev_epoch g = Some n"
  shows "length (filter (\<lambda>e. ev_epoch e = Some n) zs) < length (after_gap (xs @ g # zs) n)"
proof (cases "has_gap xs n")
  case True
  then obtain h where "h \<in> set (filter (\<lambda>e. ev_epoch e = Some n) xs)" "\<not> ev_kind h \<noteq> ''gap''" by (auto simp: has_gap_def)
  with assms show ?thesis by (simp add: after_gap_def)
next
  case False
  then have "dropWhile (\<lambda>e. ev_kind e \<noteq> ''gap'') (filter (\<lambda>e. ev_epoch e = Some n) xs @ es) = dropWhile (\<lambda>e. ev_kind e \<noteq> ''gap'') es" for es
    by (intro dropWhile_append2) (auto simp: has_gap_def)
  with assms show ?thesis by (simp add: after_gap_def)
qed

lemma history_after_gap:
  assumes h: "history (xs @ g # ys) m" and g: "ev_kind g = ''gap''" "ev_epoch g = Some n"
  shows "filter (\<lambda>e. ev_epoch e = Some n) ys = [] \<or> (\<exists>e. filter (\<lambda>e. ev_epoch e = Some n) ys = [e] \<and> last_word e \<and> ev_seq g < ev_seq e)"
proof (cases "filter (\<lambda>e. ev_epoch e = Some n) ys")
  case (Cons e rest)
  then obtain us vs where ys: "ys = us @ e # vs" and e: "ev_epoch e = Some n" and rest: "rest = filter (\<lambda>e. ev_epoch e = Some n) vs"
    by (auto simp: filter_eq_Cons_iff)
  have "history ((xs @ g # us) @ e # vs) m" using h ys by simp
  from history_at [OF this refl] e have word: "has_gap (xs @ g # us) n \<longrightarrow> last_word e" and seq: "ev_seq g < ev_seq e" by (auto simp: calm_def)
  have "has_gap (xs @ g # us) n" using g by (auto simp: has_gap_def)
  with word have last: "last_word e" by blast
  have "rest = []"
  proof (cases rest)
    case (Cons f more)
    then obtain as bs where vs: "vs = as @ f # bs" and f: "ev_epoch f = Some n" unfolding rest by (auto simp: filter_eq_Cons_iff)
    have "history ((xs @ g # us @ e # as) @ f # bs) m" using h ys vs by simp
    from history_at [OF this refl] f have "\<not> sealed (xs @ g # us @ e # as) n" by (simp add: calm_def)
    moreover have "2 \<le> length (after_gap (xs @ g # us @ e # as) n)"
      using after_gap_tail [OF g, of "us @ e # as" xs] e by simp
    ultimately show ?thesis by (simp add: sealed_def)
  qed simp
  with Cons last seq show ?thesis by simp
qed simp

lemma run_history: "observer_run W drained ob \<Longrightarrow> history (drained @ ob_events ob) (ob_next_seq ob)"
  using run_table by (fastforce simp: table_inv_def log_ok_def whole_log_def)

end
