(* ===== verification/MetadataSink.thy ===== *)
theory MetadataSink
  imports ObserverRuns
begin

text \<open>
  The metadata sink of the activation service (\<open>MetadataSink\<close> in
  \<open>runtime/native/activation_service.py\<close>): it gives the relayed bytes to an activation observer,
  follows the protocol of every connection from the records, and publishes the ready receipt of a
  connection once its handshake is complete. The records of a call reach the sink in the order in which
  they enter the queue, so they are replayed from the queue after the call.
\<close>

section \<open>The protocol of a connection\<close>

record proto =
  pr_connection :: string
  pr_epoch :: int
  pr_lease :: jdict
  pr_frontend :: json
  pr_backend :: json
  pr_valid :: bool
  pr_closed :: bool
  pr_upgrades :: "side option list"
  pr_initialize :: jdict
  pr_initialized :: bool
  pr_thread :: jdict
  pr_turn_starts :: int
  pr_turn_steers :: int
  pr_rpc :: "jdict list"
  pr_published :: bool
  pr_failure :: "json option"
  pr_skills :: "json list"

text \<open>\<open>lease\<close> is what the service knows of the connection, \<open>None\<close> when it knows nothing.\<close>

definition new_proto :: "string \<Rightarrow> int \<Rightarrow> json \<Rightarrow> json \<Rightarrow> jdict option \<Rightarrow> proto" where
  "new_proto i n frontend backend lease =
    \<lparr>pr_connection = i, pr_epoch = n, pr_lease = (case lease of None \<Rightarrow> [] | Some l \<Rightarrow> l), pr_frontend = frontend, pr_backend = backend,
     pr_valid = (lease \<noteq> None), pr_closed = False, pr_upgrades = [], pr_initialize = [], pr_initialized = False, pr_thread = [],
     pr_turn_starts = 0, pr_turn_steers = 0, pr_rpc = [], pr_published = False, pr_failure = None, pr_skills = []\<rparr>"

text \<open>The canonical text of a UUID is the only text that its own parse and print give back.\<close>

definition thread_id :: "json \<Rightarrow> bool" where
  "thread_id v = (case v of
      JStr s \<Rightarrow> length s = 36 \<and> s ! 8 = CHR ''-'' \<and> s ! 13 = CHR ''-'' \<and> s ! 18 = CHR ''-'' \<and> s ! 23 = CHR ''-''
        \<and> list_all is_hex_char (take 8 s @ take 4 (drop 9 s) @ take 4 (drop 14 s) @ take 4 (drop 19 s) @ drop 24 s)
    | _ \<Rightarrow> False)"

definition row_get :: "event \<Rightarrow> string \<Rightarrow> json" where
  "row_get e k = dget (ev_fields e) k"

definition row_thread :: "event \<Rightarrow> jdict" where
  "row_thread e = obj_of (row_get e ''thread'')"

definition row_params :: "event \<Rightarrow> jdict" where
  "row_params e = obj_of (row_get e ''params'')"

definition invalid_unless :: "bool \<Rightarrow> proto \<Rightarrow> proto" where
  "invalid_unless ok p = (if ok then p else p\<lparr>pr_valid := False\<rparr>)"

definition set_thread :: "string \<Rightarrow> json \<Rightarrow> proto \<Rightarrow> proto" where
  "set_thread k v p = p\<lparr>pr_thread := dict_set k v (pr_thread p)\<rparr>"

section \<open>Following the records\<close>

text \<open>The part of a record that is kept.\<close>

definition kept_row :: "event \<Rightarrow> jdict" where
  "kept_row e = (''event'', JStr (ev_kind e)) # (case ev_side e of None \<Rightarrow> [] | Some d \<Rightarrow> [(''direction'', JStr (side_name d))])
     @ map (\<lambda>k. (k, row_get e k)) (filter (has_key (ev_fields e)) [''method'', ''request_id'', ''request_direction'', ''ok'', ''response''])"

definition max_rows :: nat where
  "max_rows = 4096"

definition count_turns :: "event \<Rightarrow> proto \<Rightarrow> proto" where
  "count_turns e p =
    (if truthy (row_get e ''response'') \<or> ev_kind e = ''rpc_response'' then p
     else if row_get e ''method'' = JStr ''turn/start'' then p\<lparr>pr_turn_starts := pr_turn_starts p + 1\<rparr>
     else if row_get e ''method'' = JStr ''turn/steer'' then p\<lparr>pr_turn_steers := pr_turn_steers p + 1\<rparr> else p)"

definition client_row :: "event \<Rightarrow> proto \<Rightarrow> proto" where
  "client_row e p =
    (let meth = row_get e ''method''; rid = row_get e ''request_id''; expected = dget (pr_lease p) ''expected_resume_thread_id'' in
     if meth = JStr ''initialize'' then
       (invalid_unless (\<not> has_key (pr_initialize p) ''request_id'') p)\<lparr>pr_initialize := dict_set ''request_id'' rid (pr_initialize p)\<rparr>
     else if meth = JStr ''initialized'' then
       (invalid_unless (\<not> pr_initialized p \<and> dget (pr_initialize p) ''home_match'' = JBool True) p)\<lparr>pr_initialized := True\<rparr>
     else if meth = JStr ''thread/resume'' then
       set_thread ''resume_request_id'' rid
         (invalid_unless (pr_initialized p \<and> pr_thread p = [] \<and> thread_id expected \<and> dget (row_params e) ''threadId'' = expected) p)
     else if meth = JStr ''skills/list'' \<and> truthy (dget (pr_thread p) ''resume_response'') then
       set_thread ''skills_request_id'' rid (p\<lparr>pr_skills := List.insert rid (pr_skills p)\<rparr>)
     else if meth = JStr ''thread/start'' then
       set_thread ''start_request_id'' rid
         (invalid_unless (expected = JNull \<and> pr_initialized p \<and> dget (pr_thread p) ''id'' = JNull
            \<and> py_eq (dget (row_params e) ''cwd'') (dget (pr_lease p) ''expected_cwd'')) p)
     else p)"

definition to_client :: "event \<Rightarrow> bool" where
  "to_client e = (ev_side e = Some Server \<and> row_get e ''request_direction'' = JStr ''client'')"

definition resume_answer :: "event \<Rightarrow> proto \<Rightarrow> proto" where
  "resume_answer e p =
    (let expected = dget (pr_lease p) ''expected_resume_thread_id'' in
     if row_get e ''ok'' = JBool True \<and> to_client e \<and> dget (pr_thread p) ''resume_request_id'' = row_get e ''request_id''
        \<and> \<not> truthy (dget (pr_thread p) ''resume_response'') \<and> thread_id expected \<and> dget (row_thread e) ''id'' = expected
        \<and> py_eq (dget (row_thread e) ''cwd'') (dget (pr_lease p) ''expected_cwd'')
     then set_thread ''resume_response'' (JBool True) (set_thread ''id'' expected p)
     else invalid_unless False p)"

definition skills_answer :: "event \<Rightarrow> proto \<Rightarrow> proto" where
  "skills_answer e p =
    (if row_get e ''request_id'' \<notin> set (pr_skills p) then p
     else let p1 = p\<lparr>pr_skills := removeAll (row_get e ''request_id'') (pr_skills p)\<rparr> in
       if row_get e ''ok'' = JBool True \<and> to_client e then set_thread ''resume_barrier'' (JBool True) p1 else invalid_unless False p1)"

definition start_answer :: "event \<Rightarrow> proto \<Rightarrow> proto" where
  "start_answer e p =
    (let i = dget (row_thread e) ''id'' in
     if to_client e \<and> dget (pr_thread p) ''start_request_id'' = row_get e ''request_id'' \<and> thread_id i
        \<and> py_eq (dget (row_thread e) ''cwd'') (dget (pr_lease p) ''expected_cwd'') \<and> dget (pr_thread p) ''id'' = JNull
     then set_thread ''id'' i p else invalid_unless False p)"

definition started_row :: "event \<Rightarrow> proto \<Rightarrow> proto" where
  "started_row e p =
    (let i = dget (row_thread e) ''id'' in
     if ev_side e = Some Server \<and> thread_id i \<and> dget (pr_thread p) ''id'' = i \<and> \<not> has_key (pr_thread p) ''started_id''
     then set_thread ''started_id'' i p else invalid_unless False p)"

text \<open>What a record of a message means.\<close>

definition message_row :: "event \<Rightarrow> proto \<Rightarrow> proto" where
  "message_row e p =
    (let meth = row_get e ''method'' in
     if ev_kind e = ''rpc'' \<and> ev_side e = Some Client then client_row e p
     else if ev_kind e = ''rpc_response'' \<and> meth = JStr ''thread/resume'' then resume_answer e p
     else if ev_kind e = ''rpc_response'' \<and> meth = JStr ''skills/list'' \<and> truthy (dget (pr_thread p) ''resume_response'') then skills_answer e p
     else if ev_kind e = ''rpc_response'' \<and> meth = JStr ''thread/start'' \<and> row_get e ''ok'' = JBool True then start_answer e p
     else if ev_kind e = ''rpc'' \<and> meth = JStr ''thread/started'' then started_row e p
     else p)"

definition unknown_answer :: "event \<Rightarrow> bool" where
  "unknown_answer e = (ev_kind e = ''rpc_unknown'' \<and> truthy (row_get e ''response'') \<and> row_get e ''method'' = JNull)"

definition proto_event :: "event \<Rightarrow> proto \<Rightarrow> proto" where
  "proto_event e p =
    (if ev_kind e = ''gap'' then
       p\<lparr>pr_valid := False, pr_failure := Some (dget_or (ev_fields e) ''reason'' (JStr ''decoder_gap''))\<rparr>
     else if ev_kind e = ''connection_close'' then p\<lparr>pr_closed := True\<rparr>
     else if ev_kind e = ''websocket_upgrade'' then p\<lparr>pr_upgrades := List.insert (ev_side e) (pr_upgrades p)\<rparr>
     else if ev_kind e = ''initialize_home'' then
       invalid_unless (truthy (row_get e ''home_match''))
         (p\<lparr>pr_initialize := dict_set ''home_sha256'' (row_get e ''home_sha256'') (dict_set ''home_match'' (row_get e ''home_match'')
              (dict_set ''request_id'' (row_get e ''request_id'') (pr_initialize p)))\<rparr>)
     else if ev_kind e \<in> {''rpc'', ''rpc_response'', ''rpc_unknown''} then
       if max_rows \<le> length (pr_rpc p) then p\<lparr>pr_valid := False\<rparr>
       else message_row e (invalid_unless (\<not> unknown_answer e) (count_turns e (p\<lparr>pr_rpc := pr_rpc p @ [kept_row e]\<rparr>)))
     else p)"

definition ready :: "proto \<Rightarrow> bool" where
  "ready p =
    (pr_valid p \<and> \<not> pr_closed p \<and> \<not> pr_published p \<and> set (pr_upgrades p) = {Some Client, Some Server} \<and> pr_initialized p
     \<and> dget (pr_initialize p) ''home_match'' = JBool True \<and> dget (pr_thread p) ''id'' \<noteq> JNull
     \<and> (dget (pr_thread p) ''id'' = dget (pr_thread p) ''started_id'' \<or> dget (pr_thread p) ''resume_barrier'' = JBool True)
     \<and> pr_turn_starts p = 0 \<and> pr_turn_steers p = 0)"

definition public_protocol :: "proto \<Rightarrow> jdict" where
  "public_protocol p =
    [(''connection_id'', JStr (pr_connection p)), (''epoch'', JInt (pr_epoch p)), (''frontend'', pr_frontend p), (''backend'', pr_backend p),
     (''protocol_valid'', JBool (pr_valid p)), (''closed'', JBool (pr_closed p)), (''initialized'', JBool (pr_initialized p)),
     (''ready_published'', JBool (pr_published p)), (''lease_id'', dget (pr_lease p) ''lease_id''), (''profile_id'', dget (pr_lease p) ''profile_id''),
     (''initialize'', JObj (pr_initialize p)), (''thread'', JObj (pr_thread p)),
     (''turn_counts'', JObj [(''start'', JInt (pr_turn_starts p)), (''steer'', JInt (pr_turn_steers p))]),
     (''zero_turns'', JBool (pr_turn_starts p = 0 \<and> pr_turn_steers p = 0)), (''rpc'', JArr (map JObj (pr_rpc p)))]
    @ (case pr_failure p of None \<Rightarrow> [] | Some r \<Rightarrow> [(''failure_reason'', r)])"

section \<open>The sink\<close>

text \<open>A stream keeps its length and its hash; the hash state is the bytes hashed so far.\<close>

type_synonym protocols = "(int \<times> proto) list"

record sink =
  sk_events :: "jdict list"
  sk_streams :: "((string \<times> string) \<times> (nat \<times> string)) list"
  sk_protocol :: protocols
  sk_observer :: observer

definition new_sink :: "int \<Rightarrow> int \<Rightarrow> int \<Rightarrow> int \<Rightarrow> sink result" where
  "new_sink max_header max_frame max_message max_events =
     andThen (make_observer max_header max_frame max_message max_events JNull) (\<lambda>ob.
     Inr \<lparr>sk_events = [], sk_streams = [], sk_protocol = [], sk_observer = ob\<rparr>)"

definition expected_home :: "protocols \<Rightarrow> int \<Rightarrow> json" where
  "expected_home ps n = (case map_of ps n of None \<Rightarrow> JNull | Some p \<Rightarrow> dget (pr_lease p) ''expected_home'')"

definition protocol_event :: "event \<Rightarrow> protocols \<Rightarrow> protocols" where
  "protocol_event e ps = (case ev_epoch e of
      None \<Rightarrow> ps
    | Some n \<Rightarrow> (case map_of ps n of None \<Rightarrow> ps | Some p \<Rightarrow> dict_set n (proto_event e p) ps))"

text \<open>The observer after a call, and the records the call added replayed.\<close>

definition observed :: "observer \<Rightarrow> sink \<Rightarrow> sink" where
  "observed ob sk = sk\<lparr>sk_observer := ob,
     sk_protocol := fold protocol_event (drop (length (ob_events (sk_observer sk))) (ob_events ob)) (sk_protocol sk)\<rparr>"

definition on_connect :: "string \<Rightarrow> int \<Rightarrow> json \<Rightarrow> json \<Rightarrow> jdict option \<Rightarrow> sink \<Rightarrow> int result \<times> sink" where
  "on_connect i n frontend backend lease sk =
    (let sk1 = sk\<lparr>sk_events := sk_events sk @ [[(''kind'', JStr ''connect''), (''connection_id'', JStr i), (''epoch'', JInt n),
             (''frontend'', frontend), (''backend'', backend)]],
           sk_protocol := dict_set n (new_proto i n frontend backend lease) (sk_protocol sk)\<rparr> in
     case open_connection i (JInt n) (sk_observer sk1) of (r, ob) \<Rightarrow> (r, observed ob sk1))"

definition count_bytes :: "string \<Rightarrow> string \<Rightarrow> string \<Rightarrow> sink \<Rightarrow> sink" where
  "count_bytes i direction bytes sk =
    (let old = (case map_of (sk_streams sk) (i, direction) of None \<Rightarrow> (0, []) | Some v \<Rightarrow> v)
     in sk\<lparr>sk_streams := dict_set (i, direction) (fst old + length bytes, snd old @ bytes) (sk_streams sk)\<rparr>)"

definition relay_direction :: "string \<Rightarrow> string" where
  "relay_direction direction =
    (if direction = ''frontend_to_backend'' then ''client'' else if direction = ''backend_to_frontend'' then ''server'' else [])"

text \<open>
  \<open>publish\<close> is the callback of the service, \<open>None\<close> when there is none; the second component is the
  receipt that was handed to it.
\<close>

definition on_data :: "wire_platform \<Rightarrow> (jdict \<Rightarrow> unit result) option \<Rightarrow> string \<Rightarrow> int \<Rightarrow> string \<Rightarrow> string \<Rightarrow> sink \<Rightarrow> unit result \<times> jdict option \<times> sink" where
  "on_data W publish i n direction bytes sk =
    (let sk1 = count_bytes i direction bytes sk in
     case map_of (sk_protocol sk1) n of
       None \<Rightarrow> (Inr (), None, sk1)
     | Some p \<Rightarrow>
         if pr_connection p \<noteq> i then (Inr (), None, sk1)
         else let ob = snd (feed W (Activation (expected_home (sk_protocol sk1))) i (relay_direction direction) (Some bytes) (sk_observer sk1));
                  sk2 = observed ob sk1 in
           case map_of (sk_protocol sk2) n of
             None \<Rightarrow> (Inr (), None, sk2)
           | Some q \<Rightarrow>
               if ready q \<and> complete_boundary i ob then
                 (let receipt = dict_set ''milestone_only'' (JBool True) (dict_set ''ready_published'' (JBool True) (public_protocol q));
                      sk3 = sk2\<lparr>sk_protocol := dict_set n (q\<lparr>pr_published := True\<rparr>) (sk_protocol sk2)\<rparr> in
                  case publish of
                    None \<Rightarrow> (Inr (), None, sk3)
                  | Some callback \<Rightarrow> (case callback receipt of
                        Inl e \<Rightarrow> (Inl e, Some receipt, sk2)
                      | Inr _ \<Rightarrow> (Inr (), Some receipt, sk3)))
               else (Inr (), None, sk2))"

definition on_lifecycle :: "string \<Rightarrow> string \<Rightarrow> int \<Rightarrow> json \<Rightarrow> sink \<Rightarrow> sink" where
  "on_lifecycle kind i n direction sk =
    (let sk1 = sk\<lparr>sk_events := sk_events sk @ [[(''kind'', JStr kind), (''connection_id'', JStr i), (''epoch'', JInt n), (''direction'', direction)]]\<rparr> in
     if kind = ''eof'' \<or> kind = ''disconnect'' then observed (snd (close_connection i (sk_observer sk1))) sk1 else sk1)"

definition on_gap :: "string \<Rightarrow> int \<Rightarrow> string \<Rightarrow> bool \<Rightarrow> sink \<Rightarrow> sink" where
  "on_gap i n reason fatal sk =
    (let sk1 = sk\<lparr>sk_events := sk_events sk @ [[(''kind'', JStr ''gap''), (''connection_id'', JStr i), (''epoch'', JInt n),
             (''reason'', JStr reason), (''fatal'', JBool fatal)]]\<rparr> in
     case map_of (sk_protocol sk1) n of
       None \<Rightarrow> sk1
     | Some p \<Rightarrow> sk1\<lparr>sk_protocol := dict_set n (p\<lparr>pr_valid := False\<rparr>) (sk_protocol sk1)\<rparr>)"

definition protocol_for_lease :: "json \<Rightarrow> sink \<Rightarrow> jdict list" where
  "protocol_for_lease lease_id sk =
     map public_protocol (filter (\<lambda>p. py_eq (dget (pr_lease p) ''lease_id'') lease_id) (map snd (sk_protocol sk)))"

end
