(* ===== verification/SinkTrace.thy ===== *)
theory SinkTrace
  imports MetadataSink
begin

text \<open>
  What the protocol of a connection proves about the records it was computed from: every milestone has
  its record, in the order of the handshake, and nothing that would spoil the connection was recorded.
  The invariants of the replay share one interface.
\<close>

section \<open>Records in an order\<close>

fun in_order :: "(event \<Rightarrow> bool) list \<Rightarrow> event list \<Rightarrow> bool" where
  "in_order [] hist = True"
| "in_order (P # Ps) [] = False"
| "in_order (P # Ps) (e # hist) = (if P e then in_order Ps hist else in_order (P # Ps) hist)"

lemma in_order_more: "in_order Ps hist \<Longrightarrow> in_order Ps (hist @ es)"
  by (induction Ps hist rule: in_order.induct) auto

lemma in_order_next: "in_order Ps hist \<Longrightarrow> P e \<Longrightarrow> in_order (Ps @ [P]) (hist @ [e])"
proof (induction Ps hist rule: in_order.induct)
  case (1 hist)
  then show ?case by (induction hist) auto
qed auto

section \<open>The handshake\<close>

definition shows_home :: "event \<Rightarrow> bool" where
  "shows_home e = (ev_kind e = ''initialize_home'' \<and> row_get e ''home_match'' = JBool True)"

definition says :: "string \<Rightarrow> event \<Rightarrow> bool" where
  "says m e = (ev_kind e = ''rpc'' \<and> ev_side e = Some Client \<and> row_get e ''method'' = JStr m)"

definition asks :: "string \<Rightarrow> json \<Rightarrow> event \<Rightarrow> bool" where
  "asks m rid e = (says m e \<and> row_get e ''request_id'' = rid)"

definition answers :: "string \<Rightarrow> json \<Rightarrow> event \<Rightarrow> bool" where
  "answers m rid e = (ev_kind e = ''rpc_response'' \<and> to_client e \<and> row_get e ''method'' = JStr m \<and> row_get e ''ok'' = JBool True
     \<and> row_get e ''request_id'' = rid)"

definition lease_expected :: "jdict \<Rightarrow> json" where
  "lease_expected l = dget l ''expected_resume_thread_id''"

definition lease_cwd :: "jdict \<Rightarrow> json" where
  "lease_cwd l = dget l ''expected_cwd''"

definition asks_start :: "jdict \<Rightarrow> json \<Rightarrow> event \<Rightarrow> bool" where
  "asks_start l rid e = (asks ''thread/start'' rid e \<and> py_eq (dget (row_params e) ''cwd'') (lease_cwd l))"

definition asks_resume :: "jdict \<Rightarrow> json \<Rightarrow> event \<Rightarrow> bool" where
  "asks_resume l rid e = (asks ''thread/resume'' rid e \<and> dget (row_params e) ''threadId'' = lease_expected l)"

definition answers_thread :: "string \<Rightarrow> jdict \<Rightarrow> json \<Rightarrow> json \<Rightarrow> event \<Rightarrow> bool" where
  "answers_thread m l rid i e = (answers m rid e \<and> thread_id i \<and> dget (row_thread e) ''id'' = i \<and> py_eq (dget (row_thread e) ''cwd'') (lease_cwd l))"

definition announces :: "json \<Rightarrow> event \<Rightarrow> bool" where
  "announces i e = (ev_kind e = ''rpc'' \<and> ev_side e = Some Server \<and> row_get e ''method'' = JStr ''thread/started'' \<and> dget (row_thread e) ''id'' = i)"

definition opening_path :: "(event \<Rightarrow> bool) list" where
  "opening_path = [shows_home, says ''initialized'']"

definition start_path :: "jdict \<Rightarrow> json \<Rightarrow> json \<Rightarrow> (event \<Rightarrow> bool) list" where
  "start_path l rid i = opening_path @ [asks_start l rid, answers_thread ''thread/start'' l rid i]"

definition resume_path :: "jdict \<Rightarrow> json \<Rightarrow> (event \<Rightarrow> bool) list" where
  "resume_path l rid = opening_path @ [asks_resume l rid, answers_thread ''thread/resume'' l rid (lease_expected l)]"

text \<open>The thread that the lease asks for is open: a new one, or the one it names.\<close>

definition thread_open :: "jdict \<Rightarrow> json \<Rightarrow> (event \<Rightarrow> bool) list \<Rightarrow> event list \<Rightarrow> bool" where
  "thread_open l i Ps hist =
    (lease_expected l = JNull \<and> (\<exists>rid. in_order (start_path l rid i @ Ps) hist)
     \<or> lease_expected l = i \<and> (\<exists>rid. in_order (resume_path l rid @ Ps) hist))"

section \<open>The invariant of the milestones\<close>

definition home_tracked :: "event list \<Rightarrow> proto \<Rightarrow> bool" where
  "home_tracked hist p =
    ((dget (pr_initialize p) ''home_match'' = JBool True \<longrightarrow> in_order [shows_home] hist)
     \<and> (pr_initialized p \<longrightarrow> in_order opening_path hist))"

definition asked_tracked :: "event list \<Rightarrow> proto \<Rightarrow> bool" where
  "asked_tracked hist p =
    ((has_key (pr_thread p) ''start_request_id'' \<longrightarrow> lease_expected (pr_lease p) = JNull
        \<and> in_order (opening_path @ [asks_start (pr_lease p) (dget (pr_thread p) ''start_request_id'')]) hist)
     \<and> (has_key (pr_thread p) ''resume_request_id'' \<longrightarrow> thread_id (lease_expected (pr_lease p))
        \<and> in_order (opening_path @ [asks_resume (pr_lease p) (dget (pr_thread p) ''resume_request_id'')]) hist))"

definition thread_tracked :: "event list \<Rightarrow> proto \<Rightarrow> bool" where
  "thread_tracked hist p =
    ((dget (pr_thread p) ''id'' \<noteq> JNull \<longrightarrow> thread_open (pr_lease p) (dget (pr_thread p) ''id'') [] hist)
     \<and> (has_key (pr_thread p) ''started_id'' \<longrightarrow>
          thread_open (pr_lease p) (dget (pr_thread p) ''started_id'') [announces (dget (pr_thread p) ''started_id'')] hist))"

definition resume_tracked :: "event list \<Rightarrow> proto \<Rightarrow> bool" where
  "resume_tracked hist p =
    ((truthy (dget (pr_thread p) ''resume_response'') \<longrightarrow> thread_id (lease_expected (pr_lease p)) \<and> (\<exists>rid. in_order (resume_path (pr_lease p) rid) hist))
     \<and> (\<forall>r \<in> set (pr_skills p). \<exists>rid. in_order (resume_path (pr_lease p) rid @ [asks ''skills/list'' r]) hist)
     \<and> (dget (pr_thread p) ''resume_barrier'' = JBool True \<longrightarrow> thread_id (lease_expected (pr_lease p))
          \<and> (\<exists>rid r. in_order (resume_path (pr_lease p) rid @ [asks ''skills/list'' r, answers ''skills/list'' r]) hist)))"

definition milestones :: "event list \<Rightarrow> proto \<Rightarrow> bool" where
  "milestones hist p = (home_tracked hist p \<and> asked_tracked hist p \<and> thread_tracked hist p \<and> resume_tracked hist p)"

definition tracked :: "event list \<Rightarrow> proto \<Rightarrow> bool" where
  "tracked hist p =
    (set (pr_upgrades p) \<subseteq> {ev_side e | e. e \<in> set hist \<and> ev_kind e = ''websocket_upgrade''} \<and> (pr_valid p \<longrightarrow> milestones hist p))"

lemma thread_open_more: "thread_open l i Ps hist \<Longrightarrow> thread_open l i Ps (hist @ es)"
  unfolding thread_open_def by (blast intro: in_order_more)

lemma milestones_more: "milestones hist p \<Longrightarrow> milestones (hist @ es) p"
  unfolding milestones_def home_tracked_def asked_tracked_def thread_tracked_def resume_tracked_def
  by (blast intro: in_order_more thread_open_more)

text \<open>The steps of the paths.\<close>

lemma opening_reached: "in_order [shows_home] hist \<Longrightarrow> says ''initialized'' e \<Longrightarrow> in_order opening_path (hist @ [e])"
  using in_order_next [of "[shows_home]"] by (simp add: opening_path_def)

lemma path_next: "in_order Ps hist \<Longrightarrow> P e \<Longrightarrow> Qs = Ps @ [P] \<Longrightarrow> in_order Qs (hist @ [e])"
  by (simp add: in_order_next)

lemma start_reached:
  "in_order (opening_path @ [asks_start l rid]) hist \<Longrightarrow> answers_thread ''thread/start'' l rid i e \<Longrightarrow> lease_expected l = JNull
     \<Longrightarrow> thread_open l i [] (hist @ [e])"
  unfolding thread_open_def start_path_def by (rule disjI1, rule conjI, assumption, rule exI [of _ rid], erule path_next) simp_all

lemma resume_reached:
  "in_order (opening_path @ [asks_resume l rid]) hist \<Longrightarrow> answers_thread ''thread/resume'' l rid (lease_expected l) e
     \<Longrightarrow> in_order (resume_path l rid) (hist @ [e])"
  unfolding resume_path_def by (erule path_next) auto

lemma announced_reached: "thread_open l i [] hist \<Longrightarrow> announces i e \<Longrightarrow> thread_open l i [announces i] (hist @ [e])"
  unfolding thread_open_def by (auto intro: path_next)

lemmas tracked_defs = milestones_def home_tracked_def asked_tracked_def thread_tracked_def resume_tracked_def

lemma thread_id_not_null [simp]: "\<not> thread_id JNull"
  by (simp add: thread_id_def)

lemma client_row_milestones:
  assumes "milestones hist p" and "pr_valid (client_row e p)" and "pr_valid p" and row: "ev_kind e = ''rpc''" "ev_side e = Some Client"
  shows "milestones (hist @ [e]) (client_row e p)"
proof -
  let ?rid = "row_get e ''request_id''" and ?l = "pr_lease p"
  note more = milestones_more [OF assms(1), of "[e]"]
  have none: "client_row e p = p"
    if "row_get e ''method'' \<notin> JStr ` {''initialize'', ''initialized'', ''thread/resume'', ''skills/list'', ''thread/start''}"
    using that by (simp add: client_row_def Let_def)
  consider "row_get e ''method'' = JStr ''initialize''" | "row_get e ''method'' = JStr ''initialized''" | "row_get e ''method'' = JStr ''thread/resume''"
    | "row_get e ''method'' = JStr ''skills/list''" | "row_get e ''method'' = JStr ''thread/start''"
    | "client_row e p = p" using none by blast
  then show ?thesis
  proof cases
    case 1
    with assms(2) more show ?thesis by (simp add: client_row_def invalid_unless_def tracked_defs split: if_splits)
  next
    case 2
    with assms(2) have c: "client_row e p = p\<lparr>pr_initialized := True\<rparr>" and h: "dget (pr_initialize p) ''home_match'' = JBool True"
      by (auto simp: client_row_def invalid_unless_def split: if_splits)
    have "in_order opening_path (hist @ [e])"
      using assms(1) h 2 row by (intro opening_reached) (auto simp: milestones_def home_tracked_def says_def)
    with more show ?thesis by (simp add: c tracked_defs)
  next
    case 3
    with assms(2) have c: "client_row e p = set_thread ''resume_request_id'' ?rid p" and h: "pr_initialized p" "pr_thread p = []"
        "thread_id (lease_expected ?l)" "dget (row_params e) ''threadId'' = lease_expected ?l"
      by (auto simp: client_row_def invalid_unless_def set_thread_def Let_def lease_expected_def split: if_splits)
    have "in_order (opening_path @ [asks_resume ?l ?rid]) (hist @ [e])"
      using assms(1) h 3 row by (intro in_order_next) (auto simp: milestones_def home_tracked_def asks_resume_def asks_def says_def)
    with more h show ?thesis by (simp add: c tracked_defs set_thread_def)
  next
    case 4
    show ?thesis
    proof (cases "truthy (dget (pr_thread p) ''resume_response'')")
      case True
      with 4 have c: "client_row e p = set_thread ''skills_request_id'' ?rid (p\<lparr>pr_skills := List.insert ?rid (pr_skills p)\<rparr>)"
        by (simp add: client_row_def Let_def)
      from True assms(1) obtain rid where "in_order (resume_path ?l rid) hist" by (auto simp: tracked_defs)
      then have "in_order (resume_path ?l rid @ [asks ''skills/list'' ?rid]) (hist @ [e])"
        using 4 row by (intro in_order_next) (auto simp: asks_def says_def)
      with more show ?thesis by (auto simp: c tracked_defs set_thread_def)
    qed (use 4 more in \<open>simp add: client_row_def\<close>)
  next
    case 5
    with assms(2) have c: "client_row e p = set_thread ''start_request_id'' ?rid p" and h: "pr_initialized p"
        "lease_expected ?l = JNull" "py_eq (dget (row_params e) ''cwd'') (lease_cwd ?l)"
      by (auto simp: client_row_def invalid_unless_def set_thread_def Let_def lease_expected_def lease_cwd_def split: if_splits)
    have "in_order (opening_path @ [asks_start ?l ?rid]) (hist @ [e])"
      using assms(1) h 5 row by (intro in_order_next) (auto simp: milestones_def home_tracked_def asks_start_def asks_def says_def)
    with more h show ?thesis by (simp add: c tracked_defs set_thread_def)
  qed (use more in simp)
qed

lemma resume_answer_milestones:
  assumes "milestones hist p" and "pr_valid (resume_answer e p)"
    and row: "ev_kind e = ''rpc_response''" "row_get e ''method'' = JStr ''thread/resume''" "row_get e ''request_id'' \<noteq> JNull"
  shows "milestones (hist @ [e]) (resume_answer e p)"
proof -
  let ?rid = "row_get e ''request_id''" and ?l = "pr_lease p"
  note more = milestones_more [OF assms(1), of "[e]"]
  from assms(2) have c: "resume_answer e p = set_thread ''resume_response'' (JBool True) (set_thread ''id'' (lease_expected ?l) p)"
    and h: "row_get e ''ok'' = JBool True" "to_client e" "dget (pr_thread p) ''resume_request_id'' = ?rid" "thread_id (lease_expected ?l)"
      "dget (row_thread e) ''id'' = lease_expected ?l" "py_eq (dget (row_thread e) ''cwd'') (lease_cwd ?l)"
    by (auto simp: resume_answer_def invalid_unless_def Let_def lease_expected_def lease_cwd_def split: if_splits)
  have "has_key (pr_thread p) ''resume_request_id''" using h(3) row(3) by (intro dget_present) simp
  then have "in_order (opening_path @ [asks_resume ?l ?rid]) hist" using assms(1) h(3) by (simp add: milestones_def asked_tracked_def)
  moreover have "answers_thread ''thread/resume'' ?l ?rid (lease_expected ?l) e" using row h by (simp add: answers_thread_def answers_def)
  ultimately have r: "in_order (resume_path ?l ?rid) (hist @ [e])" by (rule resume_reached)
  then have "thread_open ?l (lease_expected ?l) [] (hist @ [e])" by (auto simp: thread_open_def)
  with more h(4) r show ?thesis by (auto simp: c tracked_defs set_thread_def)
qed

lemma skills_answer_milestones:
  assumes "milestones hist p" and "pr_valid (skills_answer e p)" and "truthy (dget (pr_thread p) ''resume_response'')"
    and row: "ev_kind e = ''rpc_response''" "row_get e ''method'' = JStr ''skills/list''"
  shows "milestones (hist @ [e]) (skills_answer e p)"
proof (cases "row_get e ''request_id'' \<in> set (pr_skills p)")
  case False
  with milestones_more [OF assms(1), of "[e]"] show ?thesis by (simp add: skills_answer_def)
next
  case True
  let ?rid = "row_get e ''request_id''" and ?l = "pr_lease p"
  note more = milestones_more [OF assms(1), of "[e]"]
  from assms(2) True have c: "skills_answer e p = set_thread ''resume_barrier'' (JBool True) (p\<lparr>pr_skills := removeAll ?rid (pr_skills p)\<rparr>)"
    and h: "row_get e ''ok'' = JBool True" "to_client e"
    by (auto simp: skills_answer_def invalid_unless_def Let_def split: if_splits)
  from True assms(1) obtain rid where r: "in_order (resume_path ?l rid @ [asks ''skills/list'' ?rid]) hist" by (auto simp: tracked_defs)
  have "answers ''skills/list'' ?rid e" using row h by (simp add: answers_def)
  then have "in_order (resume_path ?l rid @ [asks ''skills/list'' ?rid, answers ''skills/list'' ?rid]) (hist @ [e])"
    using path_next [OF r] by simp
  moreover have "thread_id (lease_expected ?l)" using assms(1,3) by (simp add: tracked_defs)
  ultimately show ?thesis using more by (auto simp: c tracked_defs set_thread_def)
qed

lemma start_answer_milestones:
  assumes "milestones hist p" and "pr_valid (start_answer e p)"
    and row: "ev_kind e = ''rpc_response''" "row_get e ''method'' = JStr ''thread/start''" "row_get e ''ok'' = JBool True" "row_get e ''request_id'' \<noteq> JNull"
  shows "milestones (hist @ [e]) (start_answer e p)"
proof -
  let ?rid = "row_get e ''request_id''" and ?l = "pr_lease p" and ?i = "dget (row_thread e) ''id''"
  note more = milestones_more [OF assms(1), of "[e]"]
  from assms(2) have c: "start_answer e p = set_thread ''id'' ?i p"
    and h: "to_client e" "dget (pr_thread p) ''start_request_id'' = ?rid" "thread_id ?i" "py_eq (dget (row_thread e) ''cwd'') (lease_cwd ?l)"
    by (auto simp: start_answer_def invalid_unless_def Let_def lease_cwd_def split: if_splits)
  have "has_key (pr_thread p) ''start_request_id''" using h(2) row(4) by (intro dget_present) simp
  then have a: "in_order (opening_path @ [asks_start ?l ?rid]) hist" "lease_expected ?l = JNull"
    using assms(1) h(2) by (simp_all add: milestones_def asked_tracked_def)
  have "answers_thread ''thread/start'' ?l ?rid ?i e" using row h by (simp add: answers_thread_def answers_def)
  from start_reached [OF a(1) this a(2)] more show ?thesis by (simp add: c tracked_defs set_thread_def)
qed

lemma started_row_milestones:
  assumes "milestones hist p" and "pr_valid (started_row e p)"
    and row: "ev_kind e = ''rpc''" "row_get e ''method'' = JStr ''thread/started''"
  shows "milestones (hist @ [e]) (started_row e p)"
proof -
  let ?l = "pr_lease p" and ?i = "dget (row_thread e) ''id''"
  note more = milestones_more [OF assms(1), of "[e]"]
  from assms(2) have c: "started_row e p = set_thread ''started_id'' ?i p"
    and h: "ev_side e = Some Server" "thread_id ?i" "dget (pr_thread p) ''id'' = ?i"
    by (auto simp: started_row_def invalid_unless_def Let_def split: if_splits)
  have "?i \<noteq> JNull" using h(2) by auto
  then have "thread_open ?l ?i [] hist" using assms(1) h(3) by (simp add: milestones_def thread_tracked_def)
  moreover have "announces ?i e" using row h by (simp add: announces_def)
  ultimately have "thread_open ?l ?i [announces ?i] (hist @ [e])" by (rule announced_reached)
  with more show ?thesis by (simp add: c tracked_defs set_thread_def)
qed

text \<open>What the branches of the replay leave alone.\<close>

definition kept :: "proto \<Rightarrow> proto \<Rightarrow> bool" where
  "kept p q = (pr_upgrades q = pr_upgrades p \<and> pr_closed q = pr_closed p \<and> pr_lease q = pr_lease p
     \<and> pr_connection q = pr_connection p \<and> pr_published q = pr_published p \<and> pr_turn_starts q = pr_turn_starts p \<and> pr_turn_steers q = pr_turn_steers p \<and> (pr_valid q \<longrightarrow> pr_valid p))"

named_theorems keeps \<open>branches that keep the rest\<close>

lemma kept_small [keeps]:
  "kept p p" "kept p q \<Longrightarrow> kept p (invalid_unless ok q)" "kept p q \<Longrightarrow> kept p (set_thread k v q)"
  "kept p q \<Longrightarrow> kept p (q\<lparr>pr_initialize := x\<rparr>)" "kept p q \<Longrightarrow> kept p (q\<lparr>pr_initialized := y\<rparr>)" "kept p q \<Longrightarrow> kept p (q\<lparr>pr_skills := z\<rparr>)"
  by (simp_all add: kept_def invalid_unless_def set_thread_def)

lemma kept_if [keeps]: "kept p q \<Longrightarrow> kept p r \<Longrightarrow> kept p (if b then q else r)"
  by simp

lemma branch_keeps [keeps]:
  "kept p (client_row e p)" "kept p (resume_answer e p)" "kept p (skills_answer e p)" "kept p (start_answer e p)" "kept p (started_row e p)"
  unfolding client_row_def resume_answer_def skills_answer_def start_answer_def started_row_def Let_def by (intro keeps)+

lemma message_keeps: "kept p (message_row e p)"
  unfolding message_row_def Let_def by (intro keeps)

lemma small_valid [simp]:
  "pr_valid (invalid_unless ok p) \<longleftrightarrow> ok \<and> pr_valid p" "pr_valid (count_turns e p) = pr_valid p"
  by (simp_all add: invalid_unless_def count_turns_def)

lemma milestones_other [simp]:
  "milestones hist (p\<lparr>pr_rpc := x\<rparr>) = milestones hist p" "milestones hist (count_turns e p) = milestones hist p"
  "milestones hist (p\<lparr>pr_closed := b\<rparr>) = milestones hist p" "milestones hist (p\<lparr>pr_upgrades := u\<rparr>) = milestones hist p"
  "milestones hist (p\<lparr>pr_published := b\<rparr>) = milestones hist p"
  by (simp_all add: tracked_defs count_turns_def)

definition identified :: "event \<Rightarrow> bool" where
  "identified e = (ev_kind e = ''rpc_response'' \<longrightarrow> row_get e ''request_id'' \<noteq> JNull)"

definition upheld :: "event list \<Rightarrow> proto \<Rightarrow> bool" where
  "upheld hist p = (pr_valid p \<longrightarrow> milestones hist p)"

lemma upheld_if: "(b \<Longrightarrow> upheld hist q) \<Longrightarrow> (\<not> b \<Longrightarrow> upheld hist r) \<Longrightarrow> upheld hist (if b then q else r)"
  by simp

lemma message_row_milestones:
  assumes m: "milestones hist p" and v: "pr_valid p" and row: "identified e"
  shows "upheld (hist @ [e]) (message_row e p)"
  unfolding message_row_def Let_def
proof (intro upheld_if)
  show "upheld (hist @ [e]) (client_row e p)" if "ev_kind e = ''rpc'' \<and> ev_side e = Some Client"
    using client_row_milestones [OF m _ v, of e] that by (simp add: upheld_def)
  show "upheld (hist @ [e]) (resume_answer e p)" if "ev_kind e = ''rpc_response'' \<and> row_get e ''method'' = JStr ''thread/resume''"
    using resume_answer_milestones [OF m, of e] that row by (simp add: upheld_def identified_def)
  show "upheld (hist @ [e]) (skills_answer e p)"
    if "ev_kind e = ''rpc_response'' \<and> row_get e ''method'' = JStr ''skills/list'' \<and> truthy (dget (pr_thread p) ''resume_response'')"
    using skills_answer_milestones [OF m, of e] that by (simp add: upheld_def)
  show "upheld (hist @ [e]) (start_answer e p)"
    if "ev_kind e = ''rpc_response'' \<and> row_get e ''method'' = JStr ''thread/start'' \<and> row_get e ''ok'' = JBool True"
    using start_answer_milestones [OF m, of e] that row by (simp add: upheld_def identified_def)
  show "upheld (hist @ [e]) (started_row e p)" if "ev_kind e = ''rpc'' \<and> row_get e ''method'' = JStr ''thread/started''"
    using started_row_milestones [OF m, of e] that by (simp add: upheld_def)
  show "upheld (hist @ [e]) p" using milestones_more [OF m] by (simp add: upheld_def)
qed

section \<open>Invariants of the replay\<close>

text \<open>What a statement on the records of a connection and its protocol needs in order to hold for the whole life of a sink.\<close>

locale replay_invariant =
  fixes J :: "event list \<Rightarrow> proto \<Rightarrow> bool"
  assumes entered: "J [] (new_proto i n frontend backend lease)"
    and replayed: "identified e \<Longrightarrow> J hist p \<Longrightarrow> J (hist @ [e]) (proto_event e p)"
    and spoilt: "J hist p \<Longrightarrow> J hist (p\<lparr>pr_valid := False\<rparr>)"
    and published: "J hist p \<Longrightarrow> J hist (p\<lparr>pr_published := True\<rparr>)"

lemma count_frames [simp]: "pr_upgrades (count_turns e p) = pr_upgrades p" "pr_closed (count_turns e p) = pr_closed p"
    "pr_upgrades (invalid_unless ok p) = pr_upgrades p" "pr_closed (invalid_unless ok p) = pr_closed p"
    "pr_lease (count_turns e p) = pr_lease p" "pr_connection (count_turns e p) = pr_connection p" "pr_published (count_turns e p) = pr_published p"
    "pr_lease (invalid_unless ok p) = pr_lease p" "pr_connection (invalid_unless ok p) = pr_connection p" "pr_published (invalid_unless ok p) = pr_published p"
  by (simp_all add: count_turns_def invalid_unless_def)

lemma message_frames:
  "pr_upgrades (message_row e p) = pr_upgrades p" "pr_closed (message_row e p) = pr_closed p"
  "pr_turn_starts (message_row e p) = pr_turn_starts p" "pr_turn_steers (message_row e p) = pr_turn_steers p"
  "pr_lease (message_row e p) = pr_lease p" "pr_connection (message_row e p) = pr_connection p" "pr_published (message_row e p) = pr_published p"
  "pr_valid (message_row e p) \<Longrightarrow> pr_valid p"
  using message_keeps [of p e] by (simp_all add: kept_def)

definition rpc_row :: "event \<Rightarrow> proto \<Rightarrow> proto" where
  "rpc_row e p = message_row e (invalid_unless (\<not> unknown_answer e) (count_turns e (p\<lparr>pr_rpc := pr_rpc p @ [kept_row e]\<rparr>)))"

lemma rpc_row_valid: "pr_valid (rpc_row e p) \<Longrightarrow> \<not> unknown_answer e \<and> pr_valid p"
  unfolding rpc_row_def by (drule message_frames(8)) simp

lemma rpc_row_milestones:
  assumes "tracked hist p" and v: "pr_valid (rpc_row e p)" and "identified e"
  shows "milestones (hist @ [e]) (rpc_row e p)"
proof -
  let ?q = "count_turns e (p\<lparr>pr_rpc := pr_rpc p @ [kept_row e]\<rparr>)"
  from rpc_row_valid [OF v] have ok: "\<not> unknown_answer e" "pr_valid ?q" "milestones hist ?q" using assms(1) by (simp_all add: tracked_def)
  from message_row_milestones [OF ok(3,2) assms(3)] v ok(1) show ?thesis by (simp add: rpc_row_def invalid_unless_def upheld_def)
qed

lemma home_row_milestones:
  assumes "milestones hist p" and "ev_kind e = ''initialize_home''"
  shows "milestones (hist @ [e]) (p\<lparr>pr_initialize := dict_set ''home_sha256'' x (dict_set ''home_match'' (row_get e ''home_match'') d)\<rparr>)"
proof -
  have "in_order [shows_home] (hist @ [e])" if "row_get e ''home_match'' = JBool True"
    using path_next [of "[]" hist shows_home e "[shows_home]"] that assms(2) by (simp add: shows_home_def)
  with milestones_more [OF assms(1), of "[e]"] show ?thesis by (simp add: tracked_defs)
qed

lemma proto_event_upheld:
  assumes t: "tracked hist p" and row: "identified e"
  shows "upheld (hist @ [e]) (proto_event e p)"
proof -
  have keep: "upheld (hist @ [e]) p" using t milestones_more by (simp add: tracked_def upheld_def)
  show ?thesis
    unfolding proto_event_def rpc_row_def [symmetric]
  proof (intro upheld_if)
    show "upheld (hist @ [e]) (p\<lparr>pr_closed := True\<rparr>)" "upheld (hist @ [e]) (p\<lparr>pr_upgrades := u\<rparr>)" for u
      using keep by (simp_all add: upheld_def)
    show "upheld (hist @ [e]) (rpc_row e p)" using rpc_row_milestones [OF t _ row] by (simp add: upheld_def)
    show "upheld (hist @ [e]) (invalid_unless ok (p\<lparr>pr_initialize := dict_set ''home_sha256'' x (dict_set ''home_match'' (row_get e ''home_match'') d)\<rparr>))"
      if "ev_kind e = ''initialize_home''" for ok x d
      using home_row_milestones [OF _ that] t by (simp add: upheld_def tracked_def invalid_unless_def)
  qed (use keep in \<open>simp_all add: upheld_def\<close>)
qed

lemma proto_event_upgrades:
  "pr_upgrades (proto_event e p) = (if ev_kind e = ''websocket_upgrade'' then List.insert (ev_side e) (pr_upgrades p) else pr_upgrades p)"
  by (simp add: proto_event_def message_frames)

interpretation milestones: replay_invariant tracked
proof
  show "tracked [] (new_proto i n frontend backend lease)" for i n frontend backend lease
    by (simp add: tracked_def new_proto_def tracked_defs truthy_def)
next
  fix e hist p assume row: "identified e" and t: "tracked hist p"
  have "set (pr_upgrades (proto_event e p)) \<subseteq> {ev_side x | x. x \<in> set (hist @ [e]) \<and> ev_kind x = ''websocket_upgrade''}"
    using t unfolding tracked_def proto_event_upgrades by auto
  with proto_event_upheld [OF t row] show "tracked (hist @ [e]) (proto_event e p)" by (simp add: tracked_def upheld_def)
qed (simp_all add: tracked_def)

lemma proto_event_same:
  "pr_lease (proto_event e p) = pr_lease p" "pr_connection (proto_event e p) = pr_connection p" "pr_published (proto_event e p) = pr_published p"
  by (simp_all add: proto_event_def message_frames)

lemma replay_same:
  "pr_lease (fold proto_event es p) = pr_lease p" "pr_connection (fold proto_event es p) = pr_connection p"
  "pr_published (fold proto_event es p) = pr_published p"
  by (induction es arbitrary: p) (simp_all add: proto_event_same)

section \<open>Nothing that spoils the connection\<close>

definition turn_row :: "string \<Rightarrow> event \<Rightarrow> bool" where
  "turn_row m e = (ev_kind e \<in> {''rpc'', ''rpc_unknown''} \<and> row_get e ''method'' = JStr m \<and> \<not> truthy (row_get e ''response''))"

definition turn_rows :: "string \<Rightarrow> event list \<Rightarrow> int" where
  "turn_rows m hist = int (length (filter (turn_row m) hist))"

definition unspoilt :: "event list \<Rightarrow> proto \<Rightarrow> bool" where
  "unspoilt hist p =
    ((pr_valid p \<longrightarrow> (\<forall>e \<in> set hist. ev_kind e \<noteq> ''gap'') \<and> pr_turn_starts p = turn_rows ''turn/start'' hist \<and> pr_turn_steers p = turn_rows ''turn/steer'' hist)
     \<and> (\<not> pr_closed p \<longrightarrow> (\<forall>e \<in> set hist. ev_kind e \<noteq> ''connection_close'')))"

lemma turn_rows_snoc [simp]: "turn_rows m (hist @ [e]) = turn_rows m hist + (if turn_row m e then 1 else 0)"
  by (simp add: turn_rows_def)

lemma rpc_row_unspoilt:
  assumes "unspoilt hist p" and kind: "ev_kind e \<in> {''rpc'', ''rpc_response'', ''rpc_unknown''}"
  shows "unspoilt (hist @ [e]) (rpc_row e p)"
proof -
  have turns: "pr_turn_starts (rpc_row e p) = pr_turn_starts p + (if turn_row ''turn/start'' e then 1 else 0)"
      "pr_turn_steers (rpc_row e p) = pr_turn_steers p + (if turn_row ''turn/steer'' e then 1 else 0)"
    using kind by (auto simp: rpc_row_def message_frames count_turns_def turn_row_def invalid_unless_def)
  have "pr_closed (rpc_row e p) = pr_closed p" by (simp add: rpc_row_def message_frames)
  with assms turns rpc_row_valid [of e p] show ?thesis by (auto simp: unspoilt_def)
qed

lemma quiet_unspoilt:
  assumes "unspoilt hist p" and "ev_kind e \<notin> {''gap'', ''connection_close'', ''rpc'', ''rpc_unknown''}"
  shows "unspoilt (hist @ [e]) p"
  using assms by (auto simp: unspoilt_def turn_row_def)

lemma unspoilt_same: "unspoilt hist p \<Longrightarrow> kept p q \<Longrightarrow> unspoilt hist q"
  by (auto simp: unspoilt_def kept_def)

interpretation spoilers: replay_invariant unspoilt
proof
  show "unspoilt [] (new_proto i n frontend backend lease)" for i n frontend backend lease
    by (simp add: unspoilt_def new_proto_def turn_rows_def)
next
  fix e hist p assume u: "unspoilt hist p"
  have none: "proto_event e p = p"
    if "ev_kind e \<notin> {''gap'', ''connection_close'', ''rpc'', ''rpc_response'', ''rpc_unknown'', ''websocket_upgrade'', ''initialize_home''}"
    using that by (simp add: proto_event_def)
  consider "ev_kind e = ''gap''" | "ev_kind e = ''connection_close''" | (rpc) "ev_kind e \<in> {''rpc'', ''rpc_response'', ''rpc_unknown''}"
    | (upgrade) "ev_kind e = ''websocket_upgrade''" | (home) "ev_kind e = ''initialize_home''"
    | (other) "ev_kind e \<notin> {''gap'', ''connection_close'', ''rpc'', ''rpc_response'', ''rpc_unknown''}" "proto_event e p = p"
    using none by blast
  then show "unspoilt (hist @ [e]) (proto_event e p)"
  proof cases
    case rpc
    then have p: "proto_event e p = (if max_rows \<le> length (pr_rpc p) then p\<lparr>pr_valid := False\<rparr> else rpc_row e p)"
      unfolding proto_event_def rpc_row_def by (elim insertE emptyE) simp_all
    have "ev_kind e \<noteq> ''connection_close''" using rpc by auto
    then have "unspoilt (hist @ [e]) (p\<lparr>pr_valid := False\<rparr>)" using u by (simp add: unspoilt_def)
    with rpc_row_unspoilt [OF u rpc] show ?thesis by (simp add: p)
  next
    case upgrade
    then have "unspoilt (hist @ [e]) p" and "proto_event e p = p\<lparr>pr_upgrades := List.insert (ev_side e) (pr_upgrades p)\<rparr>"
      using quiet_unspoilt [OF u, of e] by (simp_all add: proto_event_def)
    then show ?thesis by (simp add: unspoilt_def)
  next
    case home
    have "unspoilt (hist @ [e]) p" using quiet_unspoilt [OF u] home by simp
    moreover have "kept p (proto_event e p)" using home by (simp add: proto_event_def keeps)
    ultimately show ?thesis by (rule unspoilt_same)
  next
    case other
    then show ?thesis using quiet_unspoilt [OF u] by simp
  qed (use u in \<open>simp_all add: proto_event_def unspoilt_def turn_row_def\<close>)
qed (simp_all add: unspoilt_def)

end
