(* ===== verification/SinkRuns.thy ===== *)
theory SinkRuns
  imports SinkTrace
begin

text \<open>
  The life of a metadata sink. Its observer is never drained, so the queue of the observer is the whole
  history, and the protocol of a connection is the replay of the records of its epoch: an invariant of
  the replay is an invariant of every run.
\<close>

section \<open>What a call adds to the queue\<close>

definition grows :: "observer \<Rightarrow> observer \<Rightarrow> bool" where
  "grows ob ob' = (\<exists>es. ob_events ob' = ob_events ob @ es)"

text \<open>A home that was found to match is the one that was expected for the epoch of the record.\<close>

definition home_made :: "wire_platform \<Rightarrow> (int \<Rightarrow> json) \<Rightarrow> event \<Rightarrow> bool" where
  "home_made W home e = (shows_home e \<longrightarrow> (\<exists>n h. ev_epoch e = Some n \<and> home n = JStr h \<and> row_get e ''home_sha256'' = JStr (wp_sha256 W h)))"

definition adds :: "wire_platform \<Rightarrow> (int \<Rightarrow> json) \<Rightarrow> observer \<Rightarrow> observer \<Rightarrow> bool" where
  "adds W home ob ob' = (\<exists>es. ob_events ob' = ob_events ob @ es \<and> (\<forall>e \<in> set es. home_made W home e))"

lemma adds_grows: "adds W home ob ob' \<Longrightarrow> grows ob ob'"
  by (auto simp: adds_def grows_def)

lemma adds_refl [simp]: "adds W home ob ob"
  by (simp add: adds_def)

lemma adds_trans: "adds W home ob1 ob2 \<Longrightarrow> adds W home ob2 ob3 \<Longrightarrow> adds W home ob1 ob3"
  unfolding adds_def by fastforce

lemma other_home [simp]: "ev_kind e \<noteq> ''initialize_home'' \<Longrightarrow> home_made W home e"
  by (simp add: home_made_def shows_home_def)

lemma append_record_adds:
  assumes "append_record kind epoch d info ob = (full, ob')"
    and "home_made W home \<lparr>ev_kind = kind, ev_epoch = epoch, ev_seq = ob_next_seq ob, ev_side = d, ev_fields = info\<rparr>"
  shows "adds W home ob ob'"
  using assms by (auto simp: append_record_def Let_def adds_def split: if_splits)

lemma emit_adds:
  assumes "home_made W home \<lparr>ev_kind = kind, ev_epoch = Some (cn_epoch (fst s)), ev_seq = ob_next_seq (snd s), ev_side = d, ev_fields = info\<rparr>"
  shows "adds W home (snd s) (snd (emit kind d info s))"
  using append_record_adds [OF _ assms] by (cases s) (auto simp: emit_def split: prod.split)

lemma emit_other [simp]: "kind \<noteq> ''initialize_home'' \<Longrightarrow> adds W home ob (snd (emit kind d info (c, ob)))"
  using emit_adds [of W home kind "(c, ob)" d info] by simp

lemma gap_adds [simp]: "adds W home ob (snd (gap reason d info (c, ob)))"
  by (simp add: gap_def)

lemma free_adds [simp]: "adds W home ob (emit_free ''gap'' d info ob)"
  using append_record_adds [of "''gap''" None d info ob] by (cases "append_record ''gap'' None d info ob") (simp add: emit_free_def)

lemma put_adds [simp]: "adds W home ob (put_connection i s) = adds W home ob (snd s)"
  by (simp add: adds_def)

lemma matching_home:
  assumes "dget (home_record W home n v) ''home_match'' = JBool True"
  shows "\<exists>h. home n = JStr h \<and> dget (home_record W home n v) ''home_sha256'' = JStr (wp_sha256 W h)"
proof -
  define answer where "answer = (if is_obj (dget v ''result'') then dget (obj_of (dget v ''result'')) ''codexHome'' else JNull)"
  have r: "home_record W home n v = (if safe_string answer then [(''request_id'', dget v ''id''), (''home_match'', JBool (py_eq answer (home n))),
      (''home_sha256'', JStr (wp_sha256 W (str_of answer)))] else [(''request_id'', dget v ''id''), (''home_match'', JBool False), (''home_sha256'', JNull)])"
    by (simp add: home_record_def answer_def Let_def)
  from assms have safe: "safe_string answer" and eq: "py_eq answer (home n)" unfolding r by (simp_all split: if_splits)
  then obtain h where h: "answer = JStr h" by (cases answer) (simp_all add: safe_string_def)
  with eq have "home n = JStr h" by (cases "home n") simp_all
  with h safe show ?thesis unfolding r by simp
qed

lemma move_adds: "obs_move W (Activation home) s s' \<Longrightarrow> adds W home (snd s) (snd s')"
proof (induction rule: obs_move.induct)
  case (homed c home' ob d v)
  have "home_made W home \<lparr>ev_kind = ''initialize_home'', ev_epoch = Some (cn_epoch c), ev_seq = ob_next_seq ob, ev_side = Some d,
      ev_fields = home_record W home (cn_epoch c) v\<rparr>"
    using matching_home [of W home "cn_epoch c" v] by (simp add: home_made_def shows_home_def row_get_def)
  with emit_adds [of W home "''initialize_home''" "(c, ob)" "Some d"] homed.hyps show ?case by simp
next
  case (asked c x d m params v kind info ob)
  then show ?case using request_record_kind [of x d m params v] by auto
next
  case (answered c v d kind info ob)
  then show ?case using response_record_kind [of d "map_of (cn_pending c) (other_side d, dget v ''id'')" v] by auto
qed simp_all

lemma moves_add: "obs_moves W (Activation home) s s' \<Longrightarrow> adds W home (snd s) (snd s')"
  by (induction rule: rtranclp_induct) (auto intro: adds_trans move_adds)

lemma feed_adds: "adds W home ob (snd (feed W (Activation home) i direction data ob))"
proof (cases "map_of (ob_connections ob) i")
  case (Some c)
  have fed: "adds W home ob (snd (feed_connection W (Activation home) d bytes (c, ob)))" if "cn_valid c" for d bytes
    using moves_add [OF feed_connection_moves [of "(c, ob)"]] that by simp
  show ?thesis using fed by (simp add: feed_def Some Let_def split: option.split)
qed (simp add: feed_def Let_def)

lemma close_adds: "adds W home ob (snd (close_connection i ob))"
proof (cases "map_of (ob_connections ob) i")
  case (Some c)
  have "adds W home ob (snd (emit ''connection_close'' None [] (c', ob1)))" if "(if cn_valid c then final_gap (c, ob) else (c, ob)) = (c1, ob1)" for c1 ob1 c'
  proof -
    have "adds W home ob ob1" using moves_add [OF final_gap_moves [where s = "(c, ob)"]] that by (auto split: if_splits)
    then show ?thesis by (rule adds_trans) simp
  qed
  then show ?thesis by (simp add: close_connection_def Some Let_def split: prod.split)
qed (simp add: close_connection_def Let_def)

lemma reopened_adds: "adds W home ob (close_reopened i ob)"
proof (cases "map_of (ob_connections ob) i")
  case (Some c)
  obtain c1 ob1 where g: "gap ''connection_reopened'' None [] (c, ob) = (c1, ob1)" by (cases "gap ''connection_reopened'' None [] (c, ob)")
  have "adds W home ob ob1" using gap_adds [of W home ob "''connection_reopened''" None "[]" c] by (simp add: g)
  then have "adds W home ob (snd (emit ''connection_close'' None [] (c1\<lparr>cn_closed := True\<rparr>, ob1)))" by (rule adds_trans) simp
  then show ?thesis by (simp add: close_reopened_def Some g)
qed (simp add: close_reopened_def)

lemma open_adds: "adds W home ob (snd (open_connection i conn_epoch ob))"
proof -
  have "adds W home ob (snd (emit ''connection_open'' d info (c, (close_reopened i (ob\<lparr>ob_max_epoch := n\<rparr>))\<lparr>ob_next_epoch := m\<rparr>)))" for d info c n m
  proof -
    have "adds W home ob ((close_reopened i (ob\<lparr>ob_max_epoch := n\<rparr>))\<lparr>ob_next_epoch := m\<rparr>)"
      using reopened_adds [of W home "ob\<lparr>ob_max_epoch := n\<rparr>" i] by (simp add: adds_def)
    then show ?thesis by (rule adds_trans) simp
  qed
  then show ?thesis by (simp add: open_connection_def Let_def split: sum.split)
qed

lemmas close_grows = adds_grows [OF close_adds] and open_grows = adds_grows [OF open_adds] and feed_grows = adds_grows [OF feed_adds]
  and reopened_grows = adds_grows [OF reopened_adds]

section \<open>Replaying\<close>

definition rows :: "int \<Rightarrow> event list \<Rightarrow> event list" where
  "rows n hist = filter (\<lambda>e. ev_epoch e = Some n) hist"

lemma protocol_event_lookup:
  "map_of (protocol_event e ps) n = (if ev_epoch e = Some n then map_option (proto_event e) (map_of ps n) else map_of ps n)"
  by (simp add: protocol_event_def split: option.split)

text \<open>The records that a call added, each of them met by the protocol of its epoch.\<close>

lemma observed_lookup:
  assumes "ob_events ob = ob_events (sk_observer sk) @ es"
  shows "map_of (sk_protocol (observed ob sk)) n = map_option (fold proto_event (rows n es)) (map_of (sk_protocol sk) n)"
proof -
  have "map_of (fold protocol_event es ps) n = map_option (fold proto_event (rows n es)) (map_of ps n)" for ps
    by (induction es arbitrary: ps) (simp_all add: rows_def protocol_event_lookup option.map_comp option.map_id id_def [symmetric] comp_def)
  with assms show ?thesis by (simp add: observed_def)
qed

section \<open>Runs\<close>

text \<open>
  Everything the relay may do to a sink, in any order. The relay numbers its connections from 1 on, so a
  connection has an epoch that is larger than those before. The list holds the epochs of the receipts
  that the publisher has taken.
\<close>

definition taken :: "int \<Rightarrow> unit result \<Rightarrow> jdict option \<Rightarrow> int list" where
  "taken n r receipt = (if r = Inr () \<and> receipt \<noteq> None then [n] else [])"

inductive sink_step :: "wire_platform \<Rightarrow> sink \<Rightarrow> int list \<Rightarrow> sink \<Rightarrow> bool" for W where
  connected: "0 < n \<Longrightarrow> ob_max_epoch (sk_observer sk) < n \<Longrightarrow> on_connect i n frontend backend lease sk = (r, sk') \<Longrightarrow> sink_step W sk [] sk'"
| relayed: "on_data W publish i n direction bytes sk = (r, receipt, sk') \<Longrightarrow> sink_step W sk (taken n r receipt) sk'"
| turned: "sink_step W sk [] (on_lifecycle kind i n direction sk)"
| gapped: "sink_step W sk [] (on_gap i n reason fatal sk)"

inductive sink_steps :: "wire_platform \<Rightarrow> sink \<Rightarrow> int list \<Rightarrow> sink \<Rightarrow> bool" for W where
  unmoved: "sink_steps W sk [] sk"
| moved: "sink_steps W sk given sk' \<Longrightarrow> sink_step W sk' new sk'' \<Longrightarrow> sink_steps W sk (given @ new) sk''"

definition sink_run :: "wire_platform \<Rightarrow> int list \<Rightarrow> sink \<Rightarrow> bool" where
  "sink_run W given sk = (\<exists>a b c d sk0. new_sink a b c d = Inr sk0 \<and> sink_steps W sk0 given sk)"

lemma sink_run_new: "new_sink a b c d = Inr sk \<Longrightarrow> sink_run W [] sk"
  unfolding sink_run_def by (blast intro: sink_steps.unmoved)

lemma sink_run_step: "sink_run W given sk \<Longrightarrow> sink_step W sk new sk' \<Longrightarrow> sink_run W (given @ new) sk'"
  unfolding sink_run_def by (blast intro: sink_steps.moved)

lemma sink_run_induct [consumes 1, case_names created stepped]:
  assumes "sink_run W given sk"
    and "\<And>a b c d sk. new_sink a b c d = Inr sk \<Longrightarrow> P [] sk"
    and "\<And>given sk new sk'. sink_run W given sk \<Longrightarrow> P given sk \<Longrightarrow> sink_step W sk new sk' \<Longrightarrow> P (given @ new) sk'"
  shows "P given sk"
proof -
  from assms(1) obtain a b c d sk0 where new: "new_sink a b c d = Inr sk0" and steps: "sink_steps W sk0 given sk" by (auto simp: sink_run_def)
  from steps new have "sink_run W given sk \<and> P given sk"
    by (induction rule: sink_steps.induct) (use assms(2,3) sink_run_new sink_run_step in blast)+
  then show ?thesis by simp
qed

text \<open>The receipt of a connection and what a call of the sink leaves.\<close>

definition ready_receipt :: "proto \<Rightarrow> jdict" where
  "ready_receipt p = dict_set ''milestone_only'' (JBool True) (dict_set ''ready_published'' (JBool True) (public_protocol p))"

abbreviation relay_feed :: "wire_platform \<Rightarrow> string \<Rightarrow> string \<Rightarrow> string \<Rightarrow> sink \<Rightarrow> observer" where
  "relay_feed W i direction bytes sk \<equiv>
     snd (feed W (Activation (expected_home (sk_protocol sk))) i (relay_direction direction) (Some bytes) (sk_observer sk))"

lemma count_bytes_same [simp]: "sk_protocol (count_bytes i direction bytes sk) = sk_protocol sk" "sk_observer (count_bytes i direction bytes sk) = sk_observer sk"
  by (simp_all add: count_bytes_def Let_def)

lemma on_data_cases:
  assumes "on_data W publish i n direction bytes sk = (r, receipt, sk')"
  obtains (ignored) "sk' = count_bytes i direction bytes sk" "receipt = None"
  | (followed) p where "map_of (sk_protocol sk) n = Some p" "pr_connection p = i"
      "sk' = observed (relay_feed W i direction bytes sk) (count_bytes i direction bytes sk)" "receipt = None"
  | (finished) p q sk2 where "map_of (sk_protocol sk) n = Some p" "pr_connection p = i"
      "sk2 = observed (relay_feed W i direction bytes sk) (count_bytes i direction bytes sk)" "map_of (sk_protocol sk2) n = Some q"
      "ready q" "complete_boundary i (relay_feed W i direction bytes sk)" "receipt = None \<or> receipt = Some (ready_receipt q)"
      "sk' = sk2 \<and> r \<noteq> Inr () \<or> sk' = sk2\<lparr>sk_protocol := dict_set n (q\<lparr>pr_published := True\<rparr>) (sk_protocol sk2)\<rparr>"
  using assms unfolding on_data_def Let_def count_bytes_same ready_receipt_def [symmetric]
  by (simp split: option.splits if_splits sum.splits) blast+

section \<open>The sink and its observer\<close>

lemma free_same: "ob_max_epoch (emit_free kind d info ob) = ob_max_epoch ob"
  by (simp add: emit_free_def append_record_def Let_def)

lemma feed_same: "ob_max_epoch (snd (feed W cls i direction data ob)) = ob_max_epoch ob"
proof (cases "map_of (ob_connections ob) i")
  case (Some c)
  have fed: "ob_max_epoch (snd (feed_connection W cls d bytes (c, ob))) = ob_max_epoch ob" if "cn_valid c" for d bytes
    using moves_same [OF feed_connection_moves [of "(c, ob)"]] that by simp
  show ?thesis using fed by (simp add: feed_def Some Let_def gap_same free_same split: option.split)
qed (simp add: feed_def Let_def free_same)

lemma close_same: "ob_max_epoch (snd (close_connection i ob)) = ob_max_epoch ob"
proof (cases "map_of (ob_connections ob) i")
  case (Some c)
  obtain c1 ob1 where g: "(if cn_valid c then final_gap (c, ob) else (c, ob)) = (c1, ob1)"
    by (cases "if cn_valid c then final_gap (c, ob) else (c, ob)")
  have "obs_moves W cls (c, ob) (c1, ob1)" using final_gap_moves [where s = "(c, ob)"] g by (metis rtranclp.rtrancl_refl)
  from moves_same [OF this] have "ob_max_epoch ob1 = ob_max_epoch ob" by simp
  then show ?thesis by (simp add: close_connection_def Some Let_def emit_same g)
qed (simp add: close_connection_def Let_def free_same)

lemma reopened_same: "ob_max_epoch (close_reopened i ob) = ob_max_epoch ob"
proof (cases "map_of (ob_connections ob) i")
  case (Some c)
  obtain c1 ob1 where g: "gap ''connection_reopened'' None [] (c, ob) = (c1, ob1)" by (cases "gap ''connection_reopened'' None [] (c, ob)")
  have "ob_max_epoch ob1 = ob_max_epoch ob" using gap_same(1) [of "''connection_reopened''" None "[]" "(c, ob)"] by (simp add: g)
  then show ?thesis by (simp add: close_reopened_def Some g emit_same)
qed (simp add: close_reopened_def)

lemma reopened_max: "ob_max_events (close_reopened i ob) = ob_max_events ob"
proof (cases "map_of (ob_connections ob) i")
  case (Some c)
  obtain c1 ob1 where g: "gap ''connection_reopened'' None [] (c, ob) = (c1, ob1)" by (cases "gap ''connection_reopened'' None [] (c, ob)")
  have "ob_max_events ob1 = ob_max_events ob" using gap_same(3) [of "''connection_reopened''" None "[]" "(c, ob)"] by (simp add: g)
  then show ?thesis by (simp add: close_reopened_def Some g emit_same)
qed (simp add: close_reopened_def)

lemma opened_epoch:
  assumes "0 < n" and "ob_max_epoch ob < n"
  shows "ob_max_epoch (snd (open_connection i (JInt n) ob)) = n" "fst (open_connection i (JInt n) ob) = Inr n"
  using assms by (simp_all add: open_connection_def chosen_epoch_def Let_def emit_same reopened_same)

lemma run_identified: "observer_run W [] ob \<Longrightarrow> e \<in> set (ob_events ob) \<Longrightarrow> identified e"
proof -
  assume run: "observer_run W [] ob" and "e \<in> set (ob_events ob)"
  then obtain xs ys where "[] @ ob_events ob = xs @ e # ys" by (auto simp: in_set_conv_decomp)
  from history_at [OF run_history [OF run] this] show "identified e" by (auto simp: answering_def identified_def row_get_def valid_id_def)
qed

text \<open>The records of an epoch that the observer has not reached.\<close>

lemma rows_new: "observer_run W [] ob \<Longrightarrow> ob_max_epoch ob < n \<Longrightarrow> rows n (ob_events ob) = []"
  using run_table unfolding table_inv_def log_ok_def whole_log_def rows_def by (fastforce simp: filter_empty_conv)

definition sink_good :: "wire_platform \<Rightarrow> sink \<Rightarrow> bool" where
  "sink_good W sk = (observer_run W [] (sk_observer sk) \<and> (\<forall>n p. map_of (sk_protocol sk) n = Some p \<longrightarrow> n \<le> ob_max_epoch (sk_observer sk)))"

lemma observed_observer [simp]: "sk_observer (observed ob sk) = ob"
  by (simp add: observed_def)

lemma sink_good_observed:
  assumes "sink_good W sk" and "observer_run W [] ob" and "grows (sk_observer sk) ob" and "ob_max_epoch ob = ob_max_epoch (sk_observer sk)"
  shows "sink_good W (observed ob sk)"
proof -
  from assms(3) obtain es where "ob_events ob = ob_events (sk_observer sk) @ es" by (auto simp: grows_def)
  from observed_lookup [OF this] assms show ?thesis by (auto simp: sink_good_def)
qed

lemma sink_good_more: "sink_good W sk \<Longrightarrow> sk_observer sk' = sk_observer sk \<Longrightarrow> fst ` set (sk_protocol sk') = fst ` set (sk_protocol sk) \<Longrightarrow> sink_good W sk'"
  unfolding sink_good_def by (metis map_of_eq_None_iff not_Some_eq)

text \<open>The calls of the observer that a sink makes.\<close>

lemma relay_feed_keeps:
  assumes "sink_good W sk"
  shows "observer_run W [] (relay_feed W i direction bytes sk)" "grows (sk_observer sk) (relay_feed W i direction bytes sk)"
    "ob_max_epoch (relay_feed W i direction bytes sk) = ob_max_epoch (sk_observer sk)"
proof -
  have "observer_run W [] (sk_observer sk)" using assms by (simp add: sink_good_def)
  then show "observer_run W [] (relay_feed W i direction bytes sk)" by (metis observer_run.fed prod.collapse)
qed (rule feed_grows, rule feed_same)

lemma close_keeps:
  assumes "observer_run W [] ob"
  shows "observer_run W [] (snd (close_connection i ob))"
  using assms by (metis observer_run.closed prod.collapse)

lemma open_keeps:
  assumes "observer_run W [] ob"
  shows "observer_run W [] (snd (open_connection i conn_epoch ob))"
  using assms by (metis observer_run.opened prod.collapse)

text \<open>\<open>on_connect\<close> before the observer is told.\<close>

definition enter :: "string \<Rightarrow> int \<Rightarrow> json \<Rightarrow> json \<Rightarrow> jdict option \<Rightarrow> sink \<Rightarrow> sink" where
  "enter i n frontend backend lease sk = sk\<lparr>sk_events := sk_events sk @ [[(''kind'', JStr ''connect''), (''connection_id'', JStr i), (''epoch'', JInt n),
             (''frontend'', frontend), (''backend'', backend)]],
           sk_protocol := dict_set n (new_proto i n frontend backend lease) (sk_protocol sk)\<rparr>"

lemma on_connect_enters:
  "snd (on_connect i n frontend backend lease sk)
     = observed (snd (open_connection i (JInt n) (sk_observer sk))) (enter i n frontend backend lease sk)"
  by (simp add: on_connect_def enter_def Let_def split: prod.split)

lemma enter_simps [simp]: "sk_observer (enter i n frontend backend lease sk) = sk_observer sk"
  "sk_protocol (enter i n frontend backend lease sk) = dict_set n (new_proto i n frontend backend lease) (sk_protocol sk)"
  by (simp_all add: enter_def)

lemma on_lifecycle_form:
  "\<exists>evs. on_lifecycle kind i n direction sk = sk\<lparr>sk_events := evs\<rparr>
     \<or> on_lifecycle kind i n direction sk = observed (snd (close_connection i (sk_observer sk))) (sk\<lparr>sk_events := evs\<rparr>)"
  by (auto simp: on_lifecycle_def Let_def)

lemma step_good: "sink_step W sk new sk' \<Longrightarrow> sink_good W sk \<Longrightarrow> sink_good W sk'"
proof (induction rule: sink_step.induct)
  case (connected n sk i frontend backend lease r sk')
  let ?ob = "snd (open_connection i (JInt n) (sk_observer sk))" and ?sk = "enter i n frontend backend lease sk"
  have sk': "sk' = observed ?ob ?sk" using connected(3) on_connect_enters [of i n frontend backend lease sk] by simp
  have run: "observer_run W [] ?ob" using open_keeps connected(4) by (simp add: sink_good_def)
  have "ob_max_epoch ?ob = n" by (rule opened_epoch) (rule connected)+
  moreover obtain es where "ob_events ?ob = ob_events (sk_observer ?sk) @ es" using open_grows [of "sk_observer sk"] by (auto simp: grows_def)
  note observed_lookup [OF this]
  ultimately show ?case using run connected(2,4) by (fastforce simp: sk' sink_good_def split: if_splits)
next
  case (relayed publish i n direction bytes sk r receipt sk')
  have 1: "sink_good W (count_bytes i direction bytes sk)" using relayed(2) by (simp add: sink_good_def)
  have 2: "sink_good W (observed (relay_feed W i direction bytes sk) (count_bytes i direction bytes sk))"
    using sink_good_observed [OF 1] relay_feed_keeps [OF relayed(2)] by simp
  from relayed(1) show ?case
  proof (cases rule: on_data_cases)
    case (finished p q sk2)
    have "sink_good W (sk2\<lparr>sk_protocol := dict_set n (q\<lparr>pr_published := True\<rparr>) (sk_protocol sk2)\<rparr>)"
      using finished(4) 2 by (auto simp: sink_good_def finished(3))
    with finished 2 show ?thesis by blast
  qed (use 1 2 in simp_all)
next
  case (turned sk kind i n direction)
  have "sink_good W (sk\<lparr>sk_events := evs\<rparr>)" for evs using turned by (simp add: sink_good_def)
  moreover from this have "sink_good W (observed (snd (close_connection i (sk_observer sk))) (sk\<lparr>sk_events := evs\<rparr>))" for evs
    by (rule sink_good_observed) (use turned in \<open>simp_all add: sink_good_def close_keeps close_grows close_same\<close>)
  ultimately show ?case using on_lifecycle_form [of kind i n direction sk] by metis
next
  case (gapped sk i n reason fatal)
  then show ?case by (auto simp: on_gap_def sink_good_def Let_def split: option.splits if_splits)
qed

lemma run_good: "sink_run W given sk \<Longrightarrow> sink_good W sk"
proof (induction rule: sink_run_induct)
  case (created a b c d sk)
  then obtain ob where "make_observer a b c d JNull = Inr ob" "sk_observer sk = ob" "sk_protocol sk = []"
    by (auto simp: new_sink_def andThen_def split: sum.splits)
  then show ?case by (simp add: sink_good_def observer_run.created)
next
  case (stepped given sk new sk')
  then show ?case using step_good by blast
qed

section \<open>Invariants of the replay are invariants of the sink\<close>

context replay_invariant
begin

definition holds :: "sink \<Rightarrow> bool" where
  "holds sk = (\<forall>n p. map_of (sk_protocol sk) n = Some p \<longrightarrow> J (rows n (ob_events (sk_observer sk))) p)"

lemma holds_at: "holds sk \<Longrightarrow> map_of (sk_protocol sk) n = Some p \<Longrightarrow> J (rows n (ob_events (sk_observer sk))) p"
  by (simp add: holds_def)

lemma replayed_all: "\<forall>e \<in> set es. identified e \<Longrightarrow> J hist p \<Longrightarrow> J (hist @ es) (fold proto_event es p)"
proof (induction es arbitrary: hist p)
  case (Cons e es)
  with Cons.IH [of "hist @ [e]" "proto_event e p"] replayed show ?case by simp
qed simp

lemma holds_observed:
  assumes "holds sk" and "observer_run W [] ob" and "grows (sk_observer sk) ob"
  shows "holds (observed ob sk)"
  unfolding holds_def
proof (intro allI impI)
  fix n p assume p: "map_of (sk_protocol (observed ob sk)) n = Some p"
  from assms(3) obtain es where es: "ob_events ob = ob_events (sk_observer sk) @ es" by (auto simp: grows_def)
  from p obtain q where q: "map_of (sk_protocol sk) n = Some q" "p = fold proto_event (rows n es) q" by (auto simp: observed_lookup [OF es])
  have "\<forall>e \<in> set (rows n es). identified e" using run_identified [OF assms(2)] by (auto simp: rows_def es)
  from replayed_all [OF this holds_at [OF assms(1) q(1)]] show "J (rows n (ob_events (sk_observer (observed ob sk)))) p"
    by (simp add: q(2) es rows_def)
qed

lemma step_holds: "sink_step W sk new sk' \<Longrightarrow> sink_good W sk \<Longrightarrow> holds sk \<Longrightarrow> holds sk'"
proof (induction rule: sink_step.induct)
  case (connected n sk i frontend backend lease r sk')
  have sk': "sk' = observed (snd (open_connection i (JInt n) (sk_observer sk))) (enter i n frontend backend lease sk)"
    using connected(3) on_connect_enters [of i n frontend backend lease sk] by simp
  have run: "observer_run W [] (sk_observer sk)" using connected(4) by (simp add: sink_good_def)
  have "J (rows n (ob_events (sk_observer sk))) (new_proto i n frontend backend lease)"
    by (simp add: rows_new [OF run connected(2)] entered)
  then have "holds (enter i n frontend backend lease sk)" using connected(5) by (simp add: holds_def)
  from holds_observed [OF this open_keeps [OF run]] open_grows show ?case by (simp add: sk')
next
  case (relayed publish i n direction bytes sk r receipt sk')
  have 1: "holds (count_bytes i direction bytes sk)" using relayed(3) by (simp add: holds_def)
  have 2: "holds (observed (relay_feed W i direction bytes sk) (count_bytes i direction bytes sk))"
    using holds_observed [OF 1 relay_feed_keeps(1) [OF relayed(2)]] relay_feed_keeps(2) [OF relayed(2)] by simp
  from relayed(1) show ?case
  proof (cases rule: on_data_cases)
    case (finished p q sk2)
    have "holds (sk2\<lparr>sk_protocol := dict_set n (q\<lparr>pr_published := True\<rparr>) (sk_protocol sk2)\<rparr>)"
      using finished(4) 2 published holds_at [OF 2] by (auto simp: holds_def finished(3))
    with finished 2 show ?thesis by blast
  qed (use 1 2 in simp_all)
next
  case (turned sk kind i n direction)
  have events: "holds (sk\<lparr>sk_events := evs\<rparr>)" for evs using turned by (simp add: holds_def)
  moreover have "observer_run W [] (snd (close_connection i (sk_observer sk)))" using turned by (simp add: sink_good_def close_keeps)
  ultimately have "holds (observed (snd (close_connection i (sk_observer sk))) (sk\<lparr>sk_events := evs\<rparr>))" for evs
    by (rule holds_observed) (simp add: close_grows)
  then show ?case using events on_lifecycle_form [of kind i n direction sk] by metis
next
  case (gapped sk i n reason fatal)
  then show ?case using spoilt by (auto simp: on_gap_def holds_def Let_def split: option.splits if_splits)
qed

theorem run_holds: "sink_run W given sk \<Longrightarrow> holds sk"
proof (induction rule: sink_run_induct)
  case (created a b c d sk)
  then have "sk_protocol sk = []" by (auto simp: new_sink_def andThen_def split: sum.splits)
  then show ?case by (simp add: holds_def)
next
  case (stepped given sk new sk')
  then show ?case using step_holds run_good by blast
qed

end

end
