(* ===== verification/ObserverChunks.thy ===== *)
theory ObserverChunks
  imports ObserverRuns "HOL-Library.While_Combinator"
begin

text \<open>
  How the relay cuts the bytes does not matter: bytes that arrive later may as well have been in the
  buffer from the start, through the upgrade and the frame loop. The loop itself is also shown to
  end as the \<open>while\<close> loop it is in the code.
\<close>

section \<open>Bytes that arrive later\<close>

definition grown :: "string \<Rightarrow> side \<Rightarrow> obs_state \<Rightarrow> obs_state" where
  "grown y d s = (case s of (c, ob) \<Rightarrow>
     if cn_valid c then (set_parser d ((parser_of d c)\<lparr>ps_buffer := ps_buffer (parser_of d c) @ y\<rparr>) c, ob) else s)"

named_theorems grown_simps \<open>operations on a buffer that has grown\<close>

lemma grown_invalid [simp]: "\<not> cn_valid (fst s) \<Longrightarrow> grown y d s = s"
  by (cases s) (simp add: grown_def)

lemma grown_valid [simp]: "cn_valid (fst (grown y d s)) = cn_valid (fst s)"
  by (cases s) (simp add: grown_def)

lemma set_parser_twice [simp]: "set_parser d p (set_parser d q c) = set_parser d p c"
  by (cases d) (simp_all add: set_parser_def)

lemma set_parser_pending [simp]: "set_parser d p (c\<lparr>cn_pending := ps\<rparr>) = (set_parser d p c)\<lparr>cn_pending := ps\<rparr>"
  by (cases d) (simp_all add: set_parser_def)

lemma set_parser_key [simp]: "set_parser d p (c\<lparr>cn_key := k\<rparr>) = (set_parser d p c)\<lparr>cn_key := k\<rparr>"
  by (cases d) (simp_all add: set_parser_def)

lemma set_parser_id [simp]: "set_parser d (parser_of d c) c = c"
  by (cases d) (simp_all add: set_parser_def parser_of_def)

lemma invalidate_set_parser:
  "ps_handshake p = ps_handshake (parser_of d c) \<Longrightarrow> invalidate (set_parser d p c) = invalidate c"
  by (cases d) (simp_all add: invalidate_def set_parser_def invalidate_parser_def parser_of_def)

lemma emit_invalid_after: "\<not> cn_valid (fst s) \<Longrightarrow> \<not> cn_valid (fst (emit kind d info s))"
  by (cases s) (auto simp: emit_def split: prod.splits)

lemma gap_invalid_after [simp]: "\<not> cn_valid (fst (gap reason d info s))"
proof (cases "cn_valid (fst s)")
  case True
  then show ?thesis by (cases s) (simp add: gap_def emit_invalid_after)
qed simp

lemma gap_grown [grown_simps]: "gap reason d' info (grown y d s) = gap reason d' info s"
  by (cases s) (simp add: gap_def grown_def invalidate_set_parser)

lemma gap_grows [grown_simps]: "grown y d (gap reason d' info s) = gap reason d' info s"
  by simp

lemma emit_grown [grown_simps]: "emit kind d' info (grown y d s) = grown y d (emit kind d' info s)"
  by (cases s) (auto simp: emit_def grown_def invalidate_set_parser split: prod.splits)

lemma pending_grown:
  "s = (c, ob) \<Longrightarrow> grown y d (c\<lparr>cn_pending := ps\<rparr>, ob) = ((fst (grown y d s))\<lparr>cn_pending := ps\<rparr>, ob)"
  by (simp add: grown_def)

lemma grown_same [simp]:
  "cn_pending (fst (grown y d s)) = cn_pending (fst s)" "snd (grown y d s) = snd s" "cn_epoch (fst (grown y d s)) = cn_epoch (fst s)"
  by (cases s; simp add: grown_def)+

lemma grown_pair: "grown y d (c, ob) = (fst (grown y d (c, ob)), ob)"
  by (simp add: grown_def)

lemma track_request_grown [grown_simps]: "track_request d' meth params v (grown y d s) = grown y d (track_request d' meth params v s)"
proof -
  obtain c ob kind info where s: "s = (c, ob)" and r: "request_record (ob_cwd ob) d' meth params v = (kind, info)"
    by (cases s; cases "request_record (ob_cwd (snd s)) d' meth params v") simp
  obtain c' where g: "grown y d s = (c', ob)" "cn_pending c' = cn_pending c"
    and p: "\<And>ps. grown y d (c\<lparr>cn_pending := ps\<rparr>, ob) = (c'\<lparr>cn_pending := ps\<rparr>, ob)"
    using grown_pair [of y d c ob] pending_grown [OF s] s by (metis fst_conv grown_same(1))
  have emits: "emit kind (Some d') info (c', ob) = grown y d (emit kind (Some d') info (c, ob))"
    "emit kind (Some d') info (c'\<lparr>cn_pending := ps\<rparr>, ob) = grown y d (emit kind (Some d') info (c\<lparr>cn_pending := ps\<rparr>, ob))" for ps
    using emit_grown [of kind "Some d'" info y d "(c, ob)"] emit_grown [of kind "Some d'" info y d "(c\<lparr>cn_pending := ps\<rparr>, ob)"] g(1) p s
    by simp_all
  have gaps: "gap reason (Some d') [] (c', ob) = gap reason (Some d') [] (c, ob)" for reason
    using gap_grown [of reason "Some d'" "[]" y d "(c, ob)"] g(1) s by simp
  show ?thesis unfolding g(1) by (simp add: track_request_def r s g(2) Let_def emits gaps)
qed

lemma process_request_grown [grown_simps]: "process_request d' v (grown y d s) = grown y d (process_request d' v s)"
  by (simp add: process_request_def Let_def grown_simps split: option.split)

lemma process_response_grown [grown_simps]: "process_response d' v (grown y d s) = grown y d (process_response d' v s)"
proof -
  obtain c ob where s: "s = (c, ob)" by (cases s)
  obtain kind info where r: "response_record d' (map_of (cn_pending c) (other_side d', dget v ''id'')) v = (kind, info)" by force
  obtain c' where g: "grown y d s = (c', ob)" "cn_pending c' = cn_pending c"
    and p: "\<And>ps. grown y d (c\<lparr>cn_pending := ps\<rparr>, ob) = (c'\<lparr>cn_pending := ps\<rparr>, ob)"
    using grown_pair [of y d c ob] pending_grown [OF s] s by (metis fst_conv grown_same(1))
  have "emit kind (Some d') info (c'\<lparr>cn_pending := ps\<rparr>, ob) = grown y d (emit kind (Some d') info (c\<lparr>cn_pending := ps\<rparr>, ob))" for ps
    using emit_grown [of kind "Some d'" info y d "(c\<lparr>cn_pending := ps\<rparr>, ob)"] p by simp
  moreover have "gap reason (Some d') [] (c', ob) = gap reason (Some d') [] (c, ob)" for reason
    using gap_grown [of reason "Some d'" "[]" y d "(c, ob)"] g(1) s by simp
  ultimately show ?thesis unfolding g(1) by (simp add: process_response_def r s g(2) Let_def)
qed

lemma respond_grown [grown_simps]: "respond W cls d' v (grown y d s) = grown y d (respond W cls d' v s)"
  by (auto simp: respond_def activation_response_def Let_def grown_simps split: observer_class.split)

lemma process_rpc_grown [grown_simps]: "process_rpc W cls d' v (grown y d s) = grown y d (process_rpc W cls d' v s)"
  by (simp add: process_rpc_def Let_def grown_simps)

lemma process_text_grown [grown_simps]: "process_text W cls d' payload (grown y d s) = grown y d (process_text W cls d' payload s)"
  by (simp add: process_text_def grown_simps split: sum.split)

lemma message_frame_grown [grown_simps]: "message_frame W cls d' opcode payload (grown y d s) = grown y d (message_frame W cls d' opcode payload s)"
  by (simp add: message_frame_def grown_simps)

lemma buffer_last:
  "p\<lparr>ps_buffer := b, ps_fopcode := f\<rparr> = p\<lparr>ps_fopcode := f, ps_buffer := b\<rparr>"
  "p\<lparr>ps_buffer := b, ps_fpayload := m\<rparr> = p\<lparr>ps_fpayload := m, ps_buffer := b\<rparr>"
  "p\<lparr>ps_buffer := b, ps_handshake := h\<rparr> = p\<lparr>ps_handshake := h, ps_buffer := b\<rparr>"
  by simp_all

lemma handle_frame_grown:
  assumes valid: "cn_valid (fst s)"
  shows "handle_frame W cls d fin opcode payload (grown y d s) = grown y d (handle_frame W cls d fin opcode payload s)"
proof -
  obtain c ob where s: "s = (c, ob)" by (cases s)
  let ?p = "parser_of d c"
  have g: "grown y d s = (set_parser d (?p\<lparr>ps_buffer := ps_buffer ?p @ y\<rparr>) c, ob)" using valid by (simp add: grown_def s)
  have p: "grown y d (set_parser d q c, ob) = (set_parser d (q\<lparr>ps_buffer := ps_buffer q @ y\<rparr>) c, ob)" for q
    using valid by (simp add: grown_def s)
  have m: "message_frame W cls d o' m (set_parser d (q\<lparr>ps_buffer := ps_buffer q @ y\<rparr>) c, ob)
      = grown y d (message_frame W cls d o' m (set_parser d q c, ob))" for o' m q
    using message_frame_grown [of W cls d o' m y d "(set_parser d q c, ob)"] by (simp add: p)
  have gaps: "gap reason (Some d) info (set_parser d (?p\<lparr>ps_buffer := ps_buffer ?p @ y\<rparr>) c, ob) = gap reason (Some d) info (c, ob)" for reason info
    using gap_grown [of reason "Some d" info y d s] g s by simp
  have emits: "emit kind (Some d) info (set_parser d (?p\<lparr>ps_buffer := ps_buffer ?p @ y\<rparr>) c, ob) = grown y d (emit kind (Some d) info (c, ob))" for kind info
    using emit_grown [of kind "Some d" info y d s] g s by simp
  note m0 = m [of _ _ ?p, unfolded set_parser_id]
  note m1 = m [of _ _ "?p\<lparr>ps_fopcode := None, ps_fpayload := []\<rparr>", simplified]
  show ?thesis
    unfolding g handle_frame_def
    by (auto simp: s Let_def gaps emits m0 m1 p buffer_last split: option.split)
qed

lemma scan_frame_append:
  assumes "scan_frame d limit buf \<noteq> NeedMore"
  shows "scan_frame d limit (buf @ y) = scan_frame d limit buf"
proof -
  from assms have two: "2 \<le> length buf" by (auto simp: scan_frame_def split: if_splits)
  then have first: "(buf @ y) ! 0 = buf ! 0" "(buf @ y) ! 1 = buf ! 1" by (auto simp: nth_append)
  show ?thesis
  proof (cases "frame_length buf")
    case (Inl e)
    from frame_length_append_error [OF this two, of y] Inl two first show ?thesis by (simp add: scan_frame_def Let_def)
  next
    case (Inr r)
    show ?thesis
    proof (cases r)
      case None
      with Inr assms two first show ?thesis by (auto simp: scan_frame_def Let_def split: if_splits)
    next
      case (Some q)
      with Inr have "frame_length buf = Inr (Some q)" by simp
      from frame_length_append [OF this two, of y] Inr Some two first assms show ?thesis
        by (cases q) (auto simp: scan_frame_def Let_def split: if_splits)
    qed
  qed
qed

lemma parse_frames_invalid [simp]: "\<not> cn_valid (fst s) \<Longrightarrow> parse_frames W cls d s = s"
  by (cases s) (simp add: parse_frames.simps)

lemma parse_frames_grown: "parse_frames W cls d (grown y d s) = parse_frames W cls d (grown y d (parse_frames W cls d s))"
proof (induction W cls d s rule: parse_frames.induct)
  case (1 W cls d s)
  obtain c ob where s: "s = (c, ob)" by (cases s)
  show ?case
  proof (cases "cn_valid c")
    case False
    then show ?thesis by (simp add: s)
  next
    case valid: True
    let ?p = "parser_of d c"
    let ?c = "set_parser d (?p\<lparr>ps_buffer := ps_buffer ?p @ y\<rparr>) c"
    have g: "grown y d s = (?c, ob)" using valid by (simp add: grown_def s)
    show ?thesis
    proof (cases "scan_frame d (ob_max_frame ob) (ps_buffer ?p)")
      case NeedMore
      then show ?thesis using valid by (simp add: s parse_frames.simps [of W cls d "(c, ob)"])
    next
      case (BadFrame reason info)
      then have "scan_frame d (ob_max_frame ob) (ps_buffer ?p @ y) = BadFrame reason info"
        using scan_frame_append [of d "ob_max_frame ob" "ps_buffer ?p" y] by simp
      then have "parse_frames W cls d (grown y d s) = gap reason (Some d) info (grown y d s)"
        using valid unfolding g by (simp add: parse_frames.simps [of W cls d "(?c, ob)"])
      moreover have "parse_frames W cls d s = gap reason (Some d) info s"
        using valid BadFrame by (simp add: s parse_frames.simps [of W cls d "(c, ob)"])
      ultimately show ?thesis by (simp add: grown_simps)
    next
      case (Whole fin opcode payload used)
      let ?h = "\<lambda>b. handle_frame W cls d fin opcode payload (set_parser d (?p\<lparr>ps_buffer := b\<rparr>) c, ob)"
      from Whole have "scan_frame d (ob_max_frame ob) (ps_buffer ?p @ y) = Whole fin opcode payload used"
        using scan_frame_append [of d "ob_max_frame ob" "ps_buffer ?p" y] by simp
      moreover have used: "used \<le> length (ps_buffer ?p)" using scan_frame_Whole [OF Whole] by simp
      ultimately have "parse_frames W cls d (grown y d s) = parse_frames W cls d (?h (drop used (ps_buffer ?p) @ y))"
        using valid unfolding g by (simp add: parse_frames.simps [of W cls d "(?c, ob)"] Let_def)
      also have "?h (drop used (ps_buffer ?p) @ y) = grown y d (?h (drop used (ps_buffer ?p)))"
        using handle_frame_grown [of "(set_parser d (?p\<lparr>ps_buffer := drop used (ps_buffer ?p)\<rparr>) c, ob)" W cls d fin opcode payload y] valid
        by (simp add: grown_def)
      also have "parse_frames W cls d \<dots> = parse_frames W cls d (grown y d (parse_frames W cls d (?h (drop used (ps_buffer ?p)))))"
        using 1 valid Whole s by simp
      also have "parse_frames W cls d (?h (drop used (ps_buffer ?p))) = parse_frames W cls d s"
        using valid Whole by (simp add: s parse_frames.simps [of W cls d "(c, ob)"] Let_def)
      finally show ?thesis .
    qed
  qed
qed

section \<open>The upgrade\<close>

lemma starts_with_longer: "length p \<le> length s \<Longrightarrow> starts_with p (s @ t) = starts_with p s"
  by (simp add: starts_with_def)

lemma length_crlf2 [simp]: "length crlf2 = 4"
  by (simp add: crlf2_def)

lemma starts_with_crlf2_length: "starts_with crlf2 s \<Longrightarrow> 4 \<le> length s"
  unfolding starts_with_def by (metis length_crlf2 length_take min_def nat_le_linear)

lemma find_marker_append: "find_marker s = Some n \<Longrightarrow> find_marker (s @ t) = Some n"
proof (induction s arbitrary: n)
  case (Cons c cs)
  show ?case
  proof (cases "starts_with crlf2 (c # cs)")
    case True
    then have "starts_with crlf2 ((c # cs) @ t)" using starts_with_crlf2_length starts_with_longer length_crlf2 by metis
    with True Cons.prems show ?thesis by simp
  next
    case False
    with Cons.prems obtain m where m: "find_marker cs = Some m" "n = Suc m" by auto
    then have "length crlf2 \<le> length (c # cs)" using find_marker_bound [OF m(1)] by simp
    then have "\<not> starts_with crlf2 ((c # cs) @ t)" using starts_with_longer False by blast
    with m Cons.IH [OF m(1)] show ?thesis by simp
  qed
qed simp

lemma find_marker_beyond: "find_marker s = None \<Longrightarrow> find_marker (s @ t) = Some n \<Longrightarrow> length s < n + 4"
proof (induction s arbitrary: n)
  case (Cons c cs)
  show ?case
  proof (cases "starts_with crlf2 ((c # cs) @ t)")
    case True
    have "\<not> starts_with crlf2 (c # cs)" using Cons.prems(1) by (auto split: if_splits)
    then have "length (c # cs) < 4" using True starts_with_longer [of crlf2 "c # cs" t] by fastforce
    with True Cons.prems(2) show ?thesis by simp
  next
    case False
    with Cons.prems obtain m where "find_marker cs = None" "find_marker (cs @ t) = Some m" "n = Suc m" by (auto split: if_splits)
    with Cons.IH show ?thesis by simp
  qed
qed simp


lemma check_head_grown:
  "check_head W d head (set_parser d p c) = (case check_head W d head c of Inl e \<Rightarrow> Inl e | Inr c' \<Rightarrow> Inr (set_parser d p c'))"
  by (cases d) (auto simp: check_head_def Let_def andThen_def ensure_def split: option.split sum.split)

lemma parse_upgrade_grown:
  assumes "cn_valid (fst s)" and "parse_upgrade W d s = (True, t)"
  shows "parse_upgrade W d (grown y d s) = (True, grown y d t)" and "ps_handshake (parser_of d (fst t))"
proof -
  obtain c ob where s: "s = (c, ob)" by (cases s)
  let ?p = "parser_of d c"
  from assms s obtain n c2 where n: "find_marker (ps_buffer ?p) = Some n" and fits: "\<not> ob_max_header ob < n + 4"
    and h: "check_head W d (take n (ps_buffer ?p)) (set_parser d (?p\<lparr>ps_buffer := drop (n + 4) (ps_buffer ?p)\<rparr>) c) = Inr c2"
    and t: "t = emit ''websocket_upgrade'' (Some d) [] (set_parser d (?p\<lparr>ps_buffer := drop (n + 4) (ps_buffer ?p), ps_handshake := True\<rparr>) c2, ob)"
    by (auto simp: parse_upgrade_def Let_def split: option.splits sum.splits if_splits)
  from h obtain c1 where c1: "check_head W d (take n (ps_buffer ?p)) c = Inr c1"
    and c2: "c2 = set_parser d (?p\<lparr>ps_buffer := drop (n + 4) (ps_buffer ?p)\<rparr>) c1"
    by (auto simp: check_head_grown split: sum.splits)
  have valid: "cn_valid c" "cn_valid c1" using assms(1) s check_head_same [OF c1]
    by (simp_all, metis connection.select_convs(3) connection.surjective connection.update_convs(6))
  have bound: "n + 4 \<le> length (ps_buffer ?p)" by (rule find_marker_bound [OF n])
  let ?q = "?p\<lparr>ps_buffer := drop (n + 4) (ps_buffer ?p) @ y, ps_handshake := True\<rparr>"
  have "parse_upgrade W d (grown y d s) = (True, emit ''websocket_upgrade'' (Some d) [] (set_parser d ?q c1, ob))"
    using valid n fits bound c1
    by (simp add: s grown_def parse_upgrade_def Let_def find_marker_append check_head_grown c2)
  also have "(set_parser d ?q c1, ob) = grown y d (set_parser d (?p\<lparr>ps_buffer := drop (n + 4) (ps_buffer ?p), ps_handshake := True\<rparr>) c2, ob)"
    using valid by (simp add: grown_def c2 buffer_last)
  finally show "parse_upgrade W d (grown y d s) = (True, grown y d t)" by (simp add: t grown_simps)
  show "ps_handshake (parser_of d (fst t))"
    using emit_shrinks [of "(set_parser d (?p\<lparr>ps_buffer := drop (n + 4) (ps_buffer ?p), ps_handshake := True\<rparr>) c2, ob)" "''websocket_upgrade''" "Some d" "[]"]
    by (simp add: t shrinks_def)
qed

lemma parse_upgrade_False_invalid:
  assumes "parse_upgrade W d s = (False, t)" and "\<not> cn_valid (fst t)" and "cn_valid (fst s)"
  shows "parse_upgrade W d (grown y d s) = (False, t)"
proof -
  obtain c ob where s: "s = (c, ob)" by (cases s)
  let ?p = "parser_of d c" and ?g = "fst (grown y d s)"
  have valid: "cn_valid c" using assms(3) s by simp
  then have g: "grown y d s = (set_parser d (?p\<lparr>ps_buffer := ps_buffer ?p @ y\<rparr>) c, ob)" by (simp add: s grown_def)
  have gaps: "gap reason (Some d) [] (set_parser d (?p\<lparr>ps_buffer := b\<rparr>) c, ob) = gap reason (Some d) [] (c, ob)" for reason b
    using valid by (simp add: gap_def invalidate_set_parser)
  show ?thesis
  proof (cases "find_marker (ps_buffer ?p)")
    case None
    with assms valid s have long: "ob_max_header ob < length (ps_buffer ?p)" and t: "t = gap ''header_too_large'' (Some d) [] (c, ob)"
      by (auto simp: parse_upgrade_def Let_def split: if_splits)
    have "ob_max_header ob < n + 4" if "find_marker (ps_buffer ?p @ y) = Some n" for n
      using find_marker_beyond [OF None that] long by simp
    then show ?thesis using long unfolding g t
      by (simp add: parse_upgrade_def Let_def gaps split: option.split)
  next
    case (Some n)
    have bound: "n + 4 \<le> length (ps_buffer ?p)" by (rule find_marker_bound [OF Some])
    show ?thesis
    proof (cases "ob_max_header ob < n + 4")
      case True
      with assms(1) Some s show ?thesis unfolding g by (simp add: parse_upgrade_def Let_def find_marker_append gaps)
    next
      case False
      with assms(1) Some s bound show ?thesis unfolding g
        by (auto simp: parse_upgrade_def Let_def find_marker_append check_head_grown gaps split: sum.splits)
    qed
  qed
qed

lemma parse_upgrade_waits:
  assumes "parse_upgrade W d s = (False, t)" and "cn_valid (fst t)"
  shows "t = s"
  using assms by (cases s) (auto simp: parse_upgrade_def Let_def split: option.splits if_splits sum.splits)

section \<open>Feeding\<close>

lemma moves_limits:
  "obs_moves W cls s s' \<Longrightarrow> ob_max_header (snd s') = ob_max_header (snd s) \<and> ob_max_message (snd s') = ob_max_message (snd s)"
proof (induction rule: rtranclp_induct)
  case (step s s')
  have "ob_max_header (snd (emit kind d info q)) = ob_max_header (snd q) \<and> ob_max_message (snd (emit kind d info q)) = ob_max_message (snd q)" for kind d info q
    by (cases q) (simp add: emit_def append_record_def Let_def)
  then show ?case using step by (auto elim!: obs_move.cases simp: gap_def)
qed simp

lemma moves_limit: "obs_moves W cls s s' \<Longrightarrow> buffer_limit (snd s') = buffer_limit (snd s)"
  by (simp add: buffer_limit_def moves_limits)

text \<open>\<open>feed\<close> on the connection as long as it is observed.\<close>

definition feed_valid :: "wire_platform \<Rightarrow> observer_class \<Rightarrow> side \<Rightarrow> string \<Rightarrow> obs_state \<Rightarrow> obs_state" where
  "feed_valid W cls d bytes s = (if cn_valid (fst s) then feed_connection W cls d bytes s else s)"

lemma feed_grown:
  assumes "cn_valid (fst s)" and "length (buffer_of d s) + length bytes \<le> buffer_limit (snd s)"
  shows "feed_connection W cls d bytes s = (if ps_handshake (parser_of d (fst s)) then parse_frames W cls d (grown bytes d s)
     else case parse_upgrade W d (grown bytes d s) of
       (False, t) \<Rightarrow> t
     | (True, t) \<Rightarrow> parse_frames W cls d t)"
proof -
  obtain c ob where s: "s = (c, ob)" by (cases s)
  have g: "grown bytes d s = (set_parser d ((parser_of d c)\<lparr>ps_buffer := ps_buffer (parser_of d c) @ bytes\<rparr>) c, ob)"
    using assms(1) by (simp add: s grown_def)
  have "ps_handshake (parser_of d (fst t))" if "parse_upgrade W d (grown bytes d s) = (True, t)" for t
    using parse_upgrade_grown(2) [OF _ that] assms(1) by simp
  then have "(if cn_valid (fst t) \<and> ps_handshake (parser_of d (fst t)) then parse_frames W cls d t else t) = parse_frames W cls d t"
    if "parse_upgrade W d (grown bytes d s) = (True, t)" for t using that by simp
  then show ?thesis
    using assms(2) g unfolding s feed_connection_def
    by (auto simp: buffer_of_def Let_def split: prod.split bool.split)
qed

lemma parse_frames_shrinks: "length (buffer_of d (parse_frames W cls d s)) \<le> length (buffer_of d s)
    \<and> ps_handshake (parser_of d (fst (parse_frames W cls d s))) = ps_handshake (parser_of d (fst s))"
proof (induction W cls d s rule: parse_frames.induct)
  case (1 W cls d s)
  obtain c ob where s: "s = (c, ob)" by (cases s)
  show ?case
  proof (cases "cn_valid c")
    case valid: True
    show ?thesis
    proof (cases "scan_frame d (ob_max_frame ob) (ps_buffer (parser_of d c))")
      case (Whole fin opcode payload used)
      let ?t = "(set_parser d (parser_of d c\<lparr>ps_buffer := drop used (ps_buffer (parser_of d c))\<rparr>) c, ob)"
      let ?h = "handle_frame W cls d fin opcode payload ?t"
      have "shrinks ?t ?h" by (rule handle_frame_shrinks)
      then have "length (buffer_of d ?h) \<le> length (buffer_of d s)" "ps_handshake (parser_of d (fst ?h)) = ps_handshake (parser_of d c)"
        using shrinks_length [of ?t ?h d] by (simp_all add: shrinks_def buffer_of_def s)
      then show ?thesis
        using 1 valid Whole s by (force simp: parse_frames.simps [of W cls d "(c, ob)"] Let_def)
    next
      case (BadFrame reason info)
      with valid show ?thesis
        using gap_shrinks [of s reason "Some d" info] shrinks_length [OF gap_shrinks [of s reason "Some d" info], of d]
        by (simp add: s parse_frames.simps [of W cls d "(c, ob)"] shrinks_def)
    qed (use valid in \<open>simp add: s parse_frames.simps [of W cls d "(c, ob)"]\<close>)
  qed (simp add: s)
qed

lemma grown_append: "cn_valid (fst s) \<Longrightarrow> grown (a @ b) d s = grown b d (grown a d s)"
  by (cases s) (simp add: grown_def)

lemma grown_buffer: "cn_valid (fst s) \<Longrightarrow> buffer_of d (grown a d s) = buffer_of d s @ a"
    "cn_valid (fst s) \<Longrightarrow> ps_handshake (parser_of d (fst (grown a d s))) = ps_handshake (parser_of d (fst s))"
  by (cases s; simp add: grown_def buffer_of_def)+

lemma feed_frames_rest:
  assumes "ps_handshake (parser_of d (fst t))" and "length (buffer_of d t) + length b \<le> buffer_limit (snd t)"
  shows "parse_frames W cls d (grown b d t) = feed_valid W cls d b (parse_frames W cls d t)"
proof -
  let ?u = "parse_frames W cls d t"
  have u: "length (buffer_of d ?u) \<le> length (buffer_of d t)" "ps_handshake (parser_of d (fst ?u))"
    using parse_frames_shrinks [of d W cls t] assms(1) by simp_all
  have "buffer_limit (snd ?u) = buffer_limit (snd t)" by (rule moves_limit [OF parse_frames_moves])
  then have "cn_valid (fst ?u) \<Longrightarrow> feed_connection W cls d b ?u = parse_frames W cls d (grown b d ?u)"
    using feed_grown [of ?u d b W cls] u assms(2) by simp
  then show ?thesis using parse_frames_grown [of W cls d b t] by (simp add: feed_valid_def)
qed

lemma feed_twice:
  assumes "cn_valid (fst s)" and "length (buffer_of d s) + length (a @ b) \<le> buffer_limit (snd s)"
  shows "feed_connection W cls d (a @ b) s = feed_valid W cls d b (feed_connection W cls d a s)"
proof -
  let ?g = "grown a d s"
  have valid: "cn_valid (fst ?g)" using assms(1) by simp
  have limit: "length (buffer_of d ?g) + length b \<le> buffer_limit (snd ?g)" using assms grown_buffer(1) [OF assms(1), of d a] by simp
  have both: "feed_connection W cls d (a @ b) s = (if ps_handshake (parser_of d (fst s)) then parse_frames W cls d (grown b d ?g)
      else case parse_upgrade W d (grown b d ?g) of (False, t) \<Rightarrow> t | (True, t) \<Rightarrow> parse_frames W cls d t)"
    using feed_grown [OF assms, of W cls] grown_append [OF assms(1)] by simp
  have one: "feed_connection W cls d a s = (if ps_handshake (parser_of d (fst s)) then parse_frames W cls d ?g
      else case parse_upgrade W d ?g of (False, t) \<Rightarrow> t | (True, t) \<Rightarrow> parse_frames W cls d t)"
    using feed_grown [OF assms(1), of d a W cls] assms(2) by simp
  have hs: "ps_handshake (parser_of d (fst ?g)) = ps_handshake (parser_of d (fst s))" by (rule grown_buffer(2) [OF assms(1)])
  show ?thesis
  proof (cases "ps_handshake (parser_of d (fst s))")
    case True
    then show ?thesis using feed_frames_rest [OF _ limit, of W cls] hs by (simp add: both one)
  next
    case False
    obtain ok t where u: "parse_upgrade W d ?g = (ok, t)" by (cases "parse_upgrade W d ?g")
    have moved: "obs_moves W cls ?g t" using parse_upgrade_moves [OF valid, where W = W and d = d] u by simp
    show ?thesis
    proof (cases ok)
      case ok: True
      with u have u: "parse_upgrade W d ?g = (True, t)" by simp
      note later = parse_upgrade_grown [OF valid u]
      have "length (buffer_of d t) \<le> length (buffer_of d ?g)"
      proof -
        obtain c ob where g: "?g = (c, ob)" by (cases ?g)
        from u g obtain n c2 where h: "check_head W d (take n (ps_buffer (parser_of d c))) (set_parser d (parser_of d c\<lparr>ps_buffer := drop (n + 4) (ps_buffer (parser_of d c))\<rparr>) c) = Inr c2"
          and t: "t = emit ''websocket_upgrade'' (Some d) [] (set_parser d (parser_of d c\<lparr>ps_buffer := drop (n + 4) (ps_buffer (parser_of d c)), ps_handshake := True\<rparr>) c2, ob)"
          by (auto simp: parse_upgrade_def Let_def split: option.splits sum.splits if_splits)
        show ?thesis unfolding t g by (rule order_trans [OF shrinks_length [OF emit_shrinks]]) (simp add: buffer_of_def)
      qed
      then have "length (buffer_of d t) + length b \<le> buffer_limit (snd t)" using limit moves_limit [OF moved] by simp
      from feed_frames_rest [OF later(2) this] later(1) show ?thesis using False u by (simp add: both one)
    next
      case no: False
      with u have u: "parse_upgrade W d ?g = (False, t)" by simp
      show ?thesis
      proof (cases "cn_valid (fst t)")
        case True
        with parse_upgrade_waits [OF u] have t: "t = ?g" by simp
        have "feed_valid W cls d b t = feed_connection W cls d b ?g" using valid by (simp add: feed_valid_def t)
        also have "\<dots> = feed_connection W cls d (a @ b) s"
          using feed_grown [OF valid limit, of W cls] hs False by (simp add: both)
        finally show ?thesis using False u by (simp add: one)
      next
        case bad: False
        with parse_upgrade_False_invalid [OF u bad valid, of b] u False show ?thesis by (simp add: both one feed_valid_def)
      qed
    qed
  qed
qed

lemma feed_limit:
  assumes "cn_valid (fst s)" and "length (buffer_of d s) + length bytes \<le> buffer_limit (snd s)"
  shows "length (buffer_of d (feed_connection W cls d bytes s)) \<le> length (buffer_of d s) + length bytes"
    and "buffer_limit (snd (feed_connection W cls d bytes s)) = buffer_limit (snd s)"
proof -
  let ?g = "grown bytes d s"
  have g: "length (buffer_of d ?g) = length (buffer_of d s) + length bytes" using grown_buffer(1) [OF assms(1)] by simp
  have "length (buffer_of d t) \<le> length (buffer_of d ?g)" if u: "parse_upgrade W d ?g = (ok, t)" for ok t
  proof -
    obtain c ob where q: "?g = (c, ob)" by (cases ?g)
    let ?p = "\<lambda>n. parser_of d c\<lparr>ps_buffer := drop (n + 4) (ps_buffer (parser_of d c))\<rparr>"
    have shorter: "length (buffer_of d (set_parser d (?p n) c, ob)) \<le> length (buffer_of d (c, ob))"
      "length (buffer_of d (set_parser d ((?p n)\<lparr>ps_handshake := True\<rparr>) c2, ob)) \<le> length (buffer_of d (c, ob))" for n c2
      by (simp_all add: buffer_of_def)
    have gap0: "length (buffer_of d (gap reason (Some d) [] (c, ob))) \<le> length (buffer_of d (c, ob))" for reason
      by (rule shrinks_length [OF gap_shrinks])
    have gap1: "length (buffer_of d (gap reason (Some d) [] (set_parser d (?p n) c, ob))) \<le> length (buffer_of d (c, ob))" for reason n
      by (rule order_trans [OF shrinks_length [OF gap_shrinks] shorter(1)])
    have emit: "length (buffer_of d (emit kind (Some d) [] (set_parser d ((?p n)\<lparr>ps_handshake := True\<rparr>) c2, ob))) \<le> length (buffer_of d (c, ob))" for kind n c2
      by (rule order_trans [OF shrinks_length [OF emit_shrinks] shorter(2)])
    from u q show ?thesis
      by (auto simp: parse_upgrade_def Let_def gap0 gap1 emit [simplified] split: option.splits sum.splits if_splits)
  qed
  note up = this
  have loop: "length (buffer_of d (parse_frames W cls d t)) \<le> length (buffer_of d t)" for t
    using parse_frames_shrinks by blast
  show "length (buffer_of d (feed_connection W cls d bytes s)) \<le> length (buffer_of d s) + length bytes"
  proof (cases "ps_handshake (parser_of d (fst s))")
    case True
    then show ?thesis using loop [of ?g] g by (simp add: feed_grown [OF assms])
  next
    case False
    obtain ok t where u: "parse_upgrade W d ?g = (ok, t)" by (cases "parse_upgrade W d ?g")
    from up [OF u] loop [of t] g have "length (buffer_of d t) \<le> length (buffer_of d s) + length bytes"
      "length (buffer_of d (parse_frames W cls d t)) \<le> length (buffer_of d s) + length bytes" by simp_all
    then show ?thesis using False u by (cases ok) (simp_all add: feed_grown [OF assms])
  qed
  show "buffer_limit (snd (feed_connection W cls d bytes s)) = buffer_limit (snd s)"
    by (rule moves_limit [OF feed_connection_moves [OF assms(1)]])
qed

lemma feed_valid_simps [simp]:
  "cn_valid (fst s) \<Longrightarrow> feed_valid W cls d bytes s = feed_connection W cls d bytes s"
  "\<not> cn_valid (fst s) \<Longrightarrow> feed_valid W cls d bytes s = s"
  by (simp_all add: feed_valid_def)

lemma fold_feed_invalid: "\<not> cn_valid (fst s) \<Longrightarrow> fold (feed_valid W cls d) chunks s = s"
  by (induction chunks) simp_all

lemma feed_concat:
  assumes "chunks \<noteq> []" and "cn_valid (fst s)" and "length (buffer_of d s) + length (concat chunks) \<le> buffer_limit (snd s)"
  shows "fold (feed_valid W cls d) chunks s = feed_connection W cls d (concat chunks) s"
  using assms
proof (induction chunks arbitrary: s rule: list_nonempty_induct)
  case (cons x xs)
  let ?t = "feed_connection W cls d x s"
  have x: "length (buffer_of d s) + length x \<le> buffer_limit (snd s)" using cons.prems by simp
  note t = feed_limit [OF cons.prems(1) x, of W cls]
  have "fold (feed_valid W cls d) (x # xs) s = fold (feed_valid W cls d) xs ?t" using cons.prems by simp
  also have "\<dots> = feed_valid W cls d (concat xs) ?t"
    using cons.IH [of ?t] t cons.prems by (cases "cn_valid (fst ?t)") (simp_all add: fold_feed_invalid)
  also have "\<dots> = feed_connection W cls d (concat (x # xs)) s"
    using feed_twice [of s d x "concat xs" W cls] cons.prems by simp
  finally show ?case .
qed simp

section \<open>The loop of the code\<close>

definition frame_ready :: "side \<Rightarrow> obs_state \<Rightarrow> bool" where
  "frame_ready d s = (case s of (c, ob) \<Rightarrow> cn_valid c
     \<and> (case scan_frame d (ob_max_frame ob) (ps_buffer (parser_of d c)) of Whole _ _ _ _ \<Rightarrow> True | _ \<Rightarrow> False))"

definition frame_turn :: "wire_platform \<Rightarrow> observer_class \<Rightarrow> side \<Rightarrow> obs_state \<Rightarrow> obs_state" where
  "frame_turn W cls d s = (case s of (c, ob) \<Rightarrow>
    (let p = parser_of d c in case scan_frame d (ob_max_frame ob) (ps_buffer p) of
       Whole fin opcode payload used \<Rightarrow>
         handle_frame W cls d fin opcode payload (set_parser d (p\<lparr>ps_buffer := drop used (ps_buffer p)\<rparr>) c, ob)
     | _ \<Rightarrow> s))"

text \<open>The turn that leaves the loop: nothing more to do, or a gap.\<close>

definition last_turn :: "side \<Rightarrow> obs_state \<Rightarrow> obs_state" where
  "last_turn d s = (case s of (c, ob) \<Rightarrow>
     case scan_frame d (ob_max_frame ob) (ps_buffer (parser_of d c)) of BadFrame reason info \<Rightarrow> gap reason (Some d) info s | _ \<Rightarrow> s)"

lemma frame_turn_shorter:
  assumes "frame_ready d s"
  shows "length (buffer_of d (frame_turn W cls d s)) + 2 \<le> length (buffer_of d s)"
proof -
  obtain c ob where s: "s = (c, ob)" by (cases s)
  from assms s obtain fin opcode payload used where w: "scan_frame d (ob_max_frame ob) (ps_buffer (parser_of d c)) = Whole fin opcode payload used"
    by (auto simp: frame_ready_def split: frame_scan.splits)
  let ?t = "(set_parser d (parser_of d c\<lparr>ps_buffer := drop used (ps_buffer (parser_of d c))\<rparr>) c, ob)"
  have "length (buffer_of d (handle_frame W cls d fin opcode payload ?t)) \<le> length (buffer_of d ?t)"
    by (rule shrinks_length [OF handle_frame_shrinks])
  also have "\<dots> = length (buffer_of d s) - used" by (simp add: buffer_of_def s)
  finally have "length (buffer_of d (handle_frame W cls d fin opcode payload ?t)) \<le> length (buffer_of d s) - used" .
  moreover have "2 \<le> used" "used \<le> length (buffer_of d s)" using scan_frame_Whole [OF w] by (simp_all add: buffer_of_def s)
  ultimately have "length (buffer_of d (handle_frame W cls d fin opcode payload ?t)) + 2 \<le> length (buffer_of d s)" by linarith
  then show ?thesis using w by (simp add: frame_turn_def s Let_def)
qed

lemma parse_frames_turn: "frame_ready d s \<Longrightarrow> parse_frames W cls d s = parse_frames W cls d (frame_turn W cls d s)"
  by (subst parse_frames.simps, cases s) (auto simp: frame_ready_def frame_turn_def Let_def split: frame_scan.splits)

lemma parse_frames_last: "\<not> frame_ready d s \<Longrightarrow> parse_frames W cls d s = last_turn d s"
  by (subst parse_frames.simps, cases s) (auto simp: frame_ready_def last_turn_def split: frame_scan.splits)

lemma loop_turns:
  "\<exists>n. 2 * n \<le> length (buffer_of d s) \<and> while_option (frame_ready d) (frame_turn W cls d) s = Some ((frame_turn W cls d ^^ n) s)
     \<and> parse_frames W cls d s = last_turn d ((frame_turn W cls d ^^ n) s)"
proof (induction "length (buffer_of d s)" arbitrary: s rule: less_induct)
  case less
  show ?case
  proof (cases "frame_ready d s")
    case True
    let ?t = "frame_turn W cls d s"
    have l: "length (buffer_of d ?t) + 2 \<le> length (buffer_of d s)" by (rule frame_turn_shorter [OF True])
    then obtain n where n: "2 * n \<le> length (buffer_of d ?t)"
      "while_option (frame_ready d) (frame_turn W cls d) ?t = Some ((frame_turn W cls d ^^ n) ?t)"
      "parse_frames W cls d ?t = last_turn d ((frame_turn W cls d ^^ n) ?t)" using less [of ?t] by auto
    have "while_option (frame_ready d) (frame_turn W cls d) s = Some ((frame_turn W cls d ^^ Suc n) s)"
      using n(2) True by (subst while_option_unfold) (simp add: funpow_swap1)
    moreover have "parse_frames W cls d s = last_turn d ((frame_turn W cls d ^^ Suc n) s)"
      using n(3) parse_frames_turn [OF True, of W cls] by (simp add: funpow_swap1)
    ultimately show ?thesis using n(1) l by (intro exI [of _ "Suc n"]) simp
  next
    case False
    then have "while_option (frame_ready d) (frame_turn W cls d) s = Some s" by (subst while_option_unfold) simp
    with parse_frames_last [OF False] show ?thesis by (intro exI [of _ 0]) simp
  qed
qed

end
