(* ===== verification/ObserverProps.thy ===== *)
theory ObserverProps
  imports ObserverChunks
begin

text \<open>The properties of the observer, and the concrete runs that show that they apply.\<close>

section \<open>A run\<close>

definition sample_request :: json where
  "sample_request = JObj [(''id'', JInt 1), (''method'', JStr ''initialize''), (''params'', JObj [])]"

definition sample_answer :: json where
  "sample_answer = JObj [(''id'', JInt 1), (''result'', JObj [(''codexHome'', JStr ''/home'')])]"

definition sample_wire :: wire_platform where
  "sample_wire = \<lparr>wp_sha1 = (\<lambda>_. []), wp_sha256 = (\<lambda>_. []),
     wp_scan = (\<lambda>t. if t = ''Q'' then Inr sample_request else if t = ''A'' then Inr sample_answer else Inl [])\<rparr>"

definition sample_observer :: observer where
  "sample_observer = \<lparr>ob_max_header = 65536, ob_max_frame = 1048576, ob_max_message = 2097152, ob_max_events = 4096, ob_cwd = JNull,
     ob_connections = [], ob_max_epoch = 0, ob_next_epoch = 1, ob_next_seq = 1, ob_events = []\<rparr>"

definition sample_opened :: observer where
  "sample_opened = snd (open_connection ''c'' JNull sample_observer)"

definition sample_head :: string where
  "sample_head = upgrade_request ''AAAAAAAAAAAAAAAAAAAAAA==''"

definition sample_reply :: string where
  "sample_reply = ''HTTP/1.1 101 Switching'' @ crlf @ ''Upgrade: websocket'' @ crlf @ ''Connection: Upgrade'' @ crlf @ ''Sec-WebSocket-Accept: '' @ crlf2"

definition client_message :: string where
  "client_message = [CHR 0x81, CHR 0x81, CHR 0x00, CHR 0x00, CHR 0x00, CHR 0x00, CHR ''Q'']"

definition server_message :: string where
  "server_message = [CHR 0x81, CHR 0x01, CHR ''A'']"

definition sample_talk :: observer where
  "sample_talk = snd (feed sample_wire Plain ''c'' ''server'' (Some server_message)
     (snd (feed sample_wire Plain ''c'' ''client'' (Some client_message)
     (snd (feed sample_wire Plain ''c'' ''server'' (Some sample_reply)
     (snd (feed sample_wire Plain ''c'' ''client'' (Some sample_head) sample_opened)))))))"

definition sample_lost :: observer where
  "sample_lost = snd (close_connection ''c'' (snd (feed sample_wire Plain ''c'' ''sideways'' (Some []) sample_opened)))"

lemma sample_make: "make_observer 65536 1048576 2097152 4096 JNull = Inr sample_observer"
  by (simp add: make_observer_def sample_observer_def)

lemma opened_run: "observer_run sample_wire [] sample_opened"
  using observer_run.opened [OF observer_run.created [OF sample_make]] unfolding sample_opened_def by (metis prod.collapse)

lemma fed_run: "observer_run W drained ob \<Longrightarrow> observer_run W drained (snd (feed W cls i direction data ob))"
  using observer_run.fed by (metis prod.collapse)

lemma closed_run: "observer_run W drained ob \<Longrightarrow> observer_run W drained (snd (close_connection i ob))"
  using observer_run.closed by (metis prod.collapse)

lemma talk_run: "observer_run sample_wire [] sample_talk"
  unfolding sample_talk_def by (intro fed_run opened_run)

lemma lost_run: "observer_run sample_wire [] sample_lost"
  unfolding sample_lost_def by (intro closed_run fed_run opened_run)

lemma sample_talk_events:
  "ob_events sample_talk =
    [\<lparr>ev_kind = ''connection_open'', ev_epoch = Some 1, ev_seq = 1, ev_side = None, ev_fields = []\<rparr>,
     \<lparr>ev_kind = ''websocket_upgrade'', ev_epoch = Some 1, ev_seq = 2, ev_side = Some Client, ev_fields = []\<rparr>,
     \<lparr>ev_kind = ''websocket_upgrade'', ev_epoch = Some 1, ev_seq = 3, ev_side = Some Server, ev_fields = []\<rparr>,
     \<lparr>ev_kind = ''rpc'', ev_epoch = Some 1, ev_seq = 4, ev_side = Some Client,
       ev_fields = [(''request_id'', JInt 1), (''method'', JStr ''initialize''), (''params'', JObj [])]\<rparr>,
     \<lparr>ev_kind = ''rpc_response'', ev_epoch = Some 1, ev_seq = 5, ev_side = Some Server,
       ev_fields = [(''request_id'', JInt 1), (''request_direction'', JStr ''client''), (''method'', JStr ''initialize''), (''ok'', JBool True)]\<rparr>]"
  by code_simp

lemma sample_lost_events:
  "ob_events sample_lost =
    [\<lparr>ev_kind = ''connection_open'', ev_epoch = Some 1, ev_seq = 1, ev_side = None, ev_fields = []\<rparr>,
     \<lparr>ev_kind = ''gap'', ev_epoch = Some 1, ev_seq = 2, ev_side = None, ev_fields = [(''reason'', JStr ''unknown_direction'')]\<rparr>,
     \<lparr>ev_kind = ''connection_close'', ev_epoch = Some 1, ev_seq = 3, ev_side = None, ev_fields = []\<rparr>]"
  by code_simp

section \<open>Properties\<close>

text \<open>
  C13. The records do not depend on how the relay cuts the byte stream: feeding the chunks one after
  the other leaves the same connection, the same open requests and the same records as feeding them
  at once, through the upgrade, fragmented messages, gaps and a full queue, as long as the whole fits the
  input buffer.\<close>

theorem feed_in_chunks:
  assumes "chunks \<noteq> []" and "cn_valid (fst s)" and "length (buffer_of d s) + length (concat chunks) \<le> buffer_limit (snd s)"
  shows "fold (feed_valid W cls d) chunks s = feed_connection W cls d (concat chunks) s"
  by (rule feed_concat) (rule assms)+

theorem feed_in_chunks_witness:
  "fold (feed_valid sample_wire Plain Client) [take 30 sample_head, drop 30 sample_head @ client_message] (new_connection 1, sample_observer)
     = feed_connection sample_wire Plain Client (concat [take 30 sample_head, drop 30 sample_head @ client_message]) (new_connection 1, sample_observer)"
proof (rule feed_in_chunks)
  have "length (concat [take 30 sample_head, drop 30 sample_head @ client_message]) \<le> 1000" by code_simp
  moreover have "length (buffer_of Client (new_connection 1, sample_observer)) = 0" "buffer_limit sample_observer = 2162720" by code_simp+
  ultimately show "length (buffer_of Client (new_connection 1, sample_observer)) + length (concat [take 30 sample_head, drop 30 sample_head @ client_message])
      \<le> buffer_limit (snd (new_connection 1, sample_observer))" by (simp only: snd_conv)
qed (simp_all add: new_connection_def)

text \<open>
  C40. The frame loop ends whatever was received: as the \<open>while\<close> loop it is in the code it stops after at
  most one turn for every two bytes of the buffer, and the observer's state is the one after that turn.\<close>

theorem frame_loop_ends:
  "\<exists>n. 2 * n \<le> length (buffer_of d s) \<and> while_option (frame_ready d) (frame_turn W cls d) s = Some ((frame_turn W cls d ^^ n) s)
     \<and> parse_frames W cls d s = last_turn d ((frame_turn W cls d ^^ n) s)"
  by (rule loop_turns)

text \<open>
  C15. A gap is final: in everything an observer ever recorded, a gap of a connection epoch is followed
  by at most one record of that epoch, which is its end or the overflow gap in its place, with a larger
  sequence number, so no later record (not even a second ordinary gap) can pass as evidence of a stream that
  was not followed.\<close>

theorem gap_is_final:
  assumes "observer_run W drained ob" and "drained @ ob_events ob = xs @ g # ys"
    and "ev_kind g = ''gap''" and "ev_epoch g = Some n"
  shows "filter (\<lambda>e. ev_epoch e = Some n) ys = [] \<or> (\<exists>e. filter (\<lambda>e. ev_epoch e = Some n) ys = [e] \<and> ev_seq g < ev_seq e
     \<and> (ev_kind e = ''connection_close'' \<or> ev_kind e = ''gap'' \<and> ev_fields e = [(''reason'', JStr ''event_queue_overflow'')]))"
  using history_after_gap [OF run_history [OF assms(1), unfolded assms(2)] assms(3,4)] unfolding last_word_def by blast

theorem gap_is_final_witness:
  "\<exists>x g e. ob_events sample_lost = [x, g, e] \<and> ev_kind g = ''gap'' \<and> ev_kind e = ''connection_close'' \<and> ev_seq g < ev_seq e"
  using gap_is_final [OF lost_run, of "[hd (ob_events sample_lost)]" "ob_events sample_lost ! 1" "[ob_events sample_lost ! 2]" 1]
  by (simp add: sample_lost_events)

text \<open>
  C14. Every recorded answer answers a recorded request: before a response record there is a request
  record of the same connection epoch in the opposite direction with the same identifier, and the
  method that the response names is the method of that request.\<close>

theorem responses_answer_requests:
  assumes "observer_run W drained ob" and "drained @ ob_events ob = xs @ e # ys" and "ev_kind e = ''rpc_response''"
  shows "\<exists>r d m. r \<in> set xs \<and> ev_kind r = ''rpc'' \<and> ev_epoch r = ev_epoch e \<and> ev_seq r < ev_seq e
     \<and> ev_side e = Some d \<and> ev_side r = Some (other_side d)
     \<and> dget (ev_fields r) ''request_id'' = dget (ev_fields e) ''request_id''
     \<and> dget (ev_fields r) ''method'' = JStr m \<and> dget (ev_fields e) ''method'' = JStr m"
proof -
  from history_at [OF run_history [OF assms(1)] assms(2)] have "answering xs e" "\<forall>x \<in> set xs. ev_seq x < ev_seq e" by simp_all
  with assms(3) show ?thesis unfolding answering_def logged_def by metis
qed

theorem responses_answer_requests_witness:
  "\<exists>r d m. r \<in> set (take 4 (ob_events sample_talk)) \<and> ev_kind r = ''rpc'' \<and> ev_side (ob_events sample_talk ! 4) = Some d
     \<and> ev_side r = Some (other_side d) \<and> dget (ev_fields r) ''method'' = JStr m \<and> dget (ev_fields (ob_events sample_talk ! 4)) ''method'' = JStr m"
proof -
  let ?l = "ob_events sample_talk"
  have split: "[] @ ?l = take 4 ?l @ ?l ! 4 # []" by (simp add: sample_talk_events)
  have "ev_kind (?l ! 4) = ''rpc_response''" by (simp add: sample_talk_events)
  from responses_answer_requests [OF talk_run split this] show ?thesis by blast
qed

end
