(* ===== verification/SinkProps.thy ===== *)
theory SinkProps
  imports SinkRuns ObserverProps
begin

text \<open>The properties of the metadata sink, and the concrete runs that show that they apply.\<close>

section \<open>What a ready connection has shown\<close>

definition handshake :: "jdict \<Rightarrow> json \<Rightarrow> event list \<Rightarrow> bool" where
  "handshake l i hist =
    (thread_open l i [announces i] hist
     \<or> lease_expected l = i \<and> (\<exists>rid r. in_order (resume_path l rid @ [asks ''skills/list'' r, answers ''skills/list'' r]) hist))"

definition undisturbed :: "event list \<Rightarrow> bool" where
  "undisturbed hist = ((\<forall>e \<in> set hist. ev_kind e \<noteq> ''gap'' \<and> ev_kind e \<noteq> ''connection_close'')
     \<and> turn_rows ''turn/start'' hist = 0 \<and> turn_rows ''turn/steer'' hist = 0)"

definition upgraded :: "side \<Rightarrow> event list \<Rightarrow> bool" where
  "upgraded d hist = (\<exists>e \<in> set hist. ev_kind e = ''websocket_upgrade'' \<and> ev_side e = Some d)"

lemma ready_handshake:
  assumes "ready p" and "tracked hist p"
  shows "handshake (pr_lease p) (dget (pr_thread p) ''id'') hist"
proof -
  let ?l = "pr_lease p" and ?i = "dget (pr_thread p) ''id''"
  from assms have m: "milestones hist p" and i: "?i \<noteq> JNull"
    and or: "?i = dget (pr_thread p) ''started_id'' \<or> dget (pr_thread p) ''resume_barrier'' = JBool True"
    by (simp_all add: ready_def tracked_def)
  from m i have thread: "thread_open ?l ?i [] hist" by (simp add: milestones_def thread_tracked_def)
  from or show ?thesis
  proof
    assume started: "?i = dget (pr_thread p) ''started_id''"
    have "has_key (pr_thread p) ''started_id''" using i started by (intro dget_present) simp
    with m started show ?thesis by (simp add: handshake_def milestones_def thread_tracked_def)
  next
    assume "dget (pr_thread p) ''resume_barrier'' = JBool True"
    with m have "thread_id (lease_expected ?l)"
        "\<exists>rid r. in_order (resume_path ?l rid @ [asks ''skills/list'' r, answers ''skills/list'' r]) hist"
      by (simp_all add: milestones_def resume_tracked_def)
    with thread show ?thesis by (auto simp: handshake_def thread_open_def)
  qed
qed

lemma ready_undisturbed: "ready p \<Longrightarrow> unspoilt hist p \<Longrightarrow> undisturbed hist"
  by (auto simp: ready_def unspoilt_def undisturbed_def)

lemma ready_upgraded:
  assumes "ready p" and "tracked hist p"
  shows "upgraded d hist"
proof -
  have "set (pr_upgrades p) = {Some Client, Some Server}" using assms(1) unfolding ready_def by blast
  then have "Some d \<in> set (pr_upgrades p)" by (cases d) simp_all
  with assms(2) obtain e where "e \<in> set hist" "ev_kind e = ''websocket_upgrade''" "Some d = ev_side e" unfolding tracked_def by blast
  then show ?thesis unfolding upgraded_def by metis
qed

lemma receipt_thread: "dget (obj_of (dget (ready_receipt p) ''thread'')) k = dget (pr_thread p) k"
  "dget (ready_receipt p) ''lease_id'' = dget (pr_lease p) ''lease_id''" "dget (ready_receipt p) ''connection_id'' = JStr (pr_connection p)"
  by (simp_all add: ready_receipt_def public_protocol_def)

section \<open>The home of a connection\<close>

definition homes_ok :: "wire_platform \<Rightarrow> sink \<Rightarrow> bool" where
  "homes_ok W sk = (\<forall>e \<in> set (ob_events (sk_observer sk)). home_made W (expected_home (sk_protocol sk)) e)"

lemma homes_observed:
  assumes "homes_ok W sk" and "adds W (expected_home (sk_protocol sk)) (sk_observer sk) ob"
  shows "homes_ok W (observed ob sk)"
proof -
  from assms(2) obtain es where es: "ob_events ob = ob_events (sk_observer sk) @ es" and new: "\<forall>e \<in> set es. home_made W (expected_home (sk_protocol sk)) e"
    by (auto simp: adds_def)
  have "expected_home (sk_protocol (observed ob sk)) = expected_home (sk_protocol sk)"
    by (rule ext) (simp add: expected_home_def observed_lookup [OF es] replay_same split: option.split)
  with assms(1) new show ?thesis by (auto simp: homes_ok_def es)
qed

lemma homes_kept: "homes_ok W sk \<Longrightarrow> sk_observer sk' = sk_observer sk \<Longrightarrow> expected_home (sk_protocol sk') = expected_home (sk_protocol sk) \<Longrightarrow> homes_ok W sk'"
  by (simp add: homes_ok_def)

lemma same_home: "map_of ps n = Some p \<Longrightarrow> pr_lease q = pr_lease p \<Longrightarrow> expected_home (dict_set n q ps) = expected_home ps"
  by (rule ext) (simp add: expected_home_def)

lemma step_homes: "sink_step W sk new sk' \<Longrightarrow> sink_good W sk \<Longrightarrow> homes_ok W sk \<Longrightarrow> homes_ok W sk'"
proof (induction rule: sink_step.induct)
  case (connected n sk i frontend backend lease r sk')
  have sk': "sk' = observed (snd (open_connection i (JInt n) (sk_observer sk))) (enter i n frontend backend lease sk)"
    using connected(3) on_connect_enters [of i n frontend backend lease sk] by simp
  have run: "observer_run W [] (sk_observer sk)" using connected(4) by (simp add: sink_good_def)
  have "ev_epoch e \<noteq> Some n" if "e \<in> set (ob_events (sk_observer sk))" for e
    using rows_new [OF run connected(2)] that by (auto simp: rows_def filter_empty_conv)
  then have "homes_ok W (enter i n frontend backend lease sk)"
    using connected(5) unfolding homes_ok_def home_made_def by (fastforce simp: expected_home_def)
  from homes_observed [OF this] open_adds show ?case by (simp add: sk')
next
  case (relayed publish i n direction bytes sk r receipt sk')
  have 1: "homes_ok W (count_bytes i direction bytes sk)" using relayed(3) by (simp add: homes_ok_def)
  have 2: "homes_ok W (observed (relay_feed W i direction bytes sk) (count_bytes i direction bytes sk))"
    using homes_observed [OF 1] feed_adds by simp
  from relayed(1) show ?case
  proof (cases rule: on_data_cases)
    case (finished p q sk2)
    have "homes_ok W (sk2\<lparr>sk_protocol := dict_set n (q\<lparr>pr_published := True\<rparr>) (sk_protocol sk2)\<rparr>)"
      by (rule homes_kept [OF 2]) (use same_home [OF finished(4)] in \<open>simp_all add: finished(3)\<close>)
    with finished 2 show ?thesis by blast
  qed (use 1 2 in simp_all)
next
  case (turned sk kind i n direction)
  have events: "homes_ok W (sk\<lparr>sk_events := evs\<rparr>)" for evs using turned by (simp add: homes_ok_def)
  then have "homes_ok W (observed (snd (close_connection i (sk_observer sk))) (sk\<lparr>sk_events := evs\<rparr>))" for evs
    by (rule homes_observed) (simp add: close_adds)
  then show ?case using events on_lifecycle_form [of kind i n direction sk] by metis
next
  case (gapped sk i n reason fatal)
  show ?case by (rule homes_kept [OF gapped(2)]) (auto simp: on_gap_def Let_def intro: same_home split: option.splits)
qed

lemma run_homes: "sink_run W given sk \<Longrightarrow> homes_ok W sk"
proof (induction rule: sink_run_induct)
  case (created a b c d sk)
  then have "ob_events (sk_observer sk) = []" by (auto simp: new_sink_def make_observer_def andThen_def split: sum.splits)
  then show ?case by (simp add: homes_ok_def)
next
  case (stepped given sk new sk')
  then show ?case using step_homes run_good by blast
qed

section \<open>One receipt for a connection\<close>

definition published_given :: "int list \<Rightarrow> sink \<Rightarrow> bool" where
  "published_given given sk = (distinct given \<and> (\<forall>n \<in> set given. \<exists>p. map_of (sk_protocol sk) n = Some p \<and> pr_published p))"

lemma published_observed:
  assumes "published_given given sk" and "grows (sk_observer sk) ob"
  shows "published_given given (observed ob sk)"
proof -
  from assms(2) obtain es where "ob_events ob = ob_events (sk_observer sk) @ es" by (auto simp: grows_def)
  from observed_lookup [OF this] assms(1) show ?thesis by (fastforce simp: published_given_def replay_same)
qed

lemma published_more:
  assumes "published_given given sk"
    and "\<And>n p. map_of (sk_protocol sk) n = Some p \<Longrightarrow> pr_published p \<Longrightarrow> \<exists>q. map_of (sk_protocol sk') n = Some q \<and> pr_published q"
  shows "published_given given sk'"
  using assms unfolding published_given_def by blast

lemma step_published: "sink_step W sk new sk' \<Longrightarrow> sink_good W sk \<Longrightarrow> published_given given sk \<Longrightarrow> published_given (given @ new) sk'"
proof (induction rule: sink_step.induct)
  case (connected n sk i frontend backend lease r sk')
  have sk': "sk' = observed (snd (open_connection i (JInt n) (sk_observer sk))) (enter i n frontend backend lease sk)"
    using connected(3) on_connect_enters [of i n frontend backend lease sk] by simp
  have "map_of (sk_protocol sk) n = None" using connected(2,4) unfolding sink_good_def by (metis not_Some_eq not_le)
  then have "published_given given (enter i n frontend backend lease sk)" by (intro published_more [OF connected(5)]) auto
  from published_observed [OF this] open_grows show ?case by (simp add: sk')
next
  case (relayed publish i n direction bytes sk r receipt sk')
  have 1: "published_given given (count_bytes i direction bytes sk)" using relayed(3) by (simp add: published_given_def)
  have 2: "published_given given (observed (relay_feed W i direction bytes sk) (count_bytes i direction bytes sk))"
    using published_observed [OF 1] relay_feed_keeps(2) [OF relayed(2)] by simp
  from relayed(1) show ?case
  proof (cases rule: on_data_cases)
    case (finished p q sk2)
    let ?sk3 = "sk2\<lparr>sk_protocol := dict_set n (q\<lparr>pr_published := True\<rparr>) (sk_protocol sk2)\<rparr>"
    have keep: "published_given given ?sk3" using 2 unfolding finished(3) [symmetric] by (rule published_more) auto
    have "n \<notin> set given" using 2 finished(3-5) by (auto simp: published_given_def ready_def)
    with keep have "published_given (given @ [n]) ?sk3" by (auto simp: published_given_def)
    with keep 2 finished show ?thesis by (auto simp: taken_def)
  qed (use 1 2 in \<open>simp_all add: taken_def\<close>)
next
  case (turned sk kind i n direction)
  have events: "published_given given (sk\<lparr>sk_events := evs\<rparr>)" for evs using turned by (simp add: published_given_def)
  then have "published_given given (observed (snd (close_connection i (sk_observer sk))) (sk\<lparr>sk_events := evs\<rparr>))" for evs
    by (rule published_observed) (simp add: close_grows)
  then show ?case using events on_lifecycle_form [of kind i n direction sk] by (metis append_Nil2)
next
  case (gapped sk i n reason fatal)
  then show ?case by (auto simp: on_gap_def Let_def intro!: published_more [OF gapped(2)] split: option.splits)
qed

lemma run_published: "sink_run W given sk \<Longrightarrow> published_given given sk"
proof (induction rule: sink_run_induct)
  case (created a b c d sk)
  show ?case by (simp add: published_given_def)
next
  case (stepped given sk new sk')
  then show ?case using step_published run_good by blast
qed

section \<open>A lost connection stays lost\<close>

definition lost :: "int \<Rightarrow> sink \<Rightarrow> bool" where
  "lost n sk = (\<exists>p. map_of (sk_protocol sk) n = Some p \<and> \<not> pr_valid p)"

lemma valid_if: "(pr_valid q \<longrightarrow> v) \<Longrightarrow> (pr_valid r \<longrightarrow> v) \<Longrightarrow> pr_valid (if b then q else r) \<longrightarrow> v"
  by simp

lemma proto_event_valid: "pr_valid (proto_event e p) \<Longrightarrow> pr_valid p"
proof (rule mp)
  have row: "pr_valid (rpc_row e p) \<longrightarrow> pr_valid p" using rpc_row_valid by blast
  show "pr_valid (proto_event e p) \<longrightarrow> pr_valid p"
    unfolding proto_event_def rpc_row_def [symmetric] by (intro valid_if row) simp_all
qed

lemma replay_valid: "pr_valid (fold proto_event es p) \<Longrightarrow> pr_valid p"
  by (induction es arbitrary: p) (auto dest: proto_event_valid)

lemma lost_observed: "lost n sk \<Longrightarrow> grows (sk_observer sk) ob \<Longrightarrow> lost n (observed ob sk)"
proof -
  assume l: "lost n sk" and "grows (sk_observer sk) ob"
  then obtain es where "ob_events ob = ob_events (sk_observer sk) @ es" by (auto simp: grows_def)
  from observed_lookup [OF this] l show "lost n (observed ob sk)" by (auto simp: lost_def dest: replay_valid)
qed

lemma step_lost: "sink_step W sk new sk' \<Longrightarrow> sink_good W sk \<Longrightarrow> lost m sk \<Longrightarrow> lost m sk' \<and> m \<notin> set new"
proof (induction rule: sink_step.induct)
  case (connected n sk i frontend backend lease r sk')
  have sk': "sk' = observed (snd (open_connection i (JInt n) (sk_observer sk))) (enter i n frontend backend lease sk)"
    using connected(3) on_connect_enters [of i n frontend backend lease sk] by simp
  have "n \<noteq> m" using connected(2,4,5) unfolding sink_good_def lost_def by (metis not_le)
  then have "lost m (enter i n frontend backend lease sk)" using connected(5) by (auto simp: lost_def)
  from lost_observed [OF this] open_grows show ?case by (simp add: sk')
next
  case (relayed publish i n direction bytes sk r receipt sk')
  have 1: "lost m (count_bytes i direction bytes sk)" using relayed(3) by (simp add: lost_def)
  have 2: "lost m (observed (relay_feed W i direction bytes sk) (count_bytes i direction bytes sk))"
    using lost_observed [OF 1] relay_feed_keeps(2) [OF relayed(2)] by simp
  from relayed(1) show ?case
  proof (cases rule: on_data_cases)
    case (finished p q sk2)
    have l: "lost m sk2" using 2 by (simp only: finished(3))
    have "pr_valid q" using finished(5) by (simp add: ready_def)
    with l have "n \<noteq> m" using finished(4) by (auto simp: lost_def)
    moreover from this l have "lost m (sk2\<lparr>sk_protocol := dict_set n (q\<lparr>pr_published := True\<rparr>) (sk_protocol sk2)\<rparr>)" by (simp add: lost_def)
    ultimately show ?thesis using l finished(8) by (simp add: taken_def) blast
  qed (use 1 2 in \<open>simp_all add: taken_def\<close>)
next
  case (turned sk kind i n direction)
  have events: "lost m (sk\<lparr>sk_events := evs\<rparr>)" for evs using turned by (simp add: lost_def)
  then have "lost m (observed (snd (close_connection i (sk_observer sk))) (sk\<lparr>sk_events := evs\<rparr>))" for evs
    by (rule lost_observed) (simp add: close_grows)
  then show ?case using events on_lifecycle_form [of kind i n direction sk] by (metis empty_iff list.set(1))
next
  case (gapped sk i n reason fatal)
  then show ?case by (auto simp: on_gap_def Let_def lost_def split: option.splits)
qed

lemma steps_lost:
  assumes "sink_steps W sk new sk'" and "sink_good W sk" and "lost m sk"
  shows "lost m sk' \<and> m \<notin> set new"
proof -
  from assms have "lost m sk' \<and> m \<notin> set new \<and> sink_good W sk'"
  proof (induction rule: sink_steps.induct)
    case (moved sk given sk' new sk'')
    then show ?case using step_lost [of W sk' new sk'' m] step_good [of W sk' new sk''] by simp
  qed simp
  then show ?thesis by simp
qed

lemma full_open:
  assumes "observer_run W [] ob" and "0 < n" and "ob_max_epoch ob < n" and "ob_max_events ob - 1 \<le> length (ob_events ob)"
  shows "\<exists>xs g. ob_events (snd (open_connection i (JInt n) ob)) = xs @ [g] \<and> length (ob_events ob) \<le> length xs \<and> rows n xs = []
    \<and> ev_kind g = ''gap'' \<and> ev_epoch g = Some n \<and> ev_fields g = [(''reason'', JStr ''event_queue_overflow'')]"
    and "ob_max_events (snd (open_connection i (JInt n) ob)) = ob_max_events ob"
proof -
  let ?ob = "close_reopened i (ob\<lparr>ob_max_epoch := n\<rparr>)"
  have max: "ob_max_events ?ob = ob_max_events ob" using reopened_max by simp
  obtain es where es: "ob_events ?ob = ob_events ob @ es" using reopened_grows [of "ob\<lparr>ob_max_epoch := n\<rparr>" i] by (auto simp: grows_def)
  have "table_inv (ob_max_epoch ob) [] (ob\<lparr>ob_max_epoch := n\<rparr>)"
    using run_table [OF assms(1)] by (simp add: table_inv_def log_ok_def whole_log_def)
  from reopened_table [OF this, of i] have "log_ok (ob_max_epoch ob) [] ?ob" by blast
  then have none: "rows n (ob_events ?ob) = []" using assms(3) by (fastforce simp: log_ok_def whole_log_def rows_def filter_empty_conv)
  have o: "snd (open_connection i (JInt n) ob) = put_connection i (emit ''connection_open'' None [] (new_connection n, ?ob\<lparr>ob_next_epoch := max (ob_next_epoch ?ob) (n + 1)\<rparr>))"
    using assms(2,3) by (simp add: open_connection_def chosen_epoch_def Let_def)
  show "ob_max_events (snd (open_connection i (JInt n) ob)) = ob_max_events ob" by (simp add: o emit_same max)
  have "emit ''connection_open'' None [] (new_connection n, ?ob\<lparr>ob_next_epoch := max (ob_next_epoch ?ob) (n + 1)\<rparr>)
      = ((invalidate (new_connection n))\<lparr>cn_overflowed := True\<rparr>, ?ob\<lparr>ob_next_epoch := max (ob_next_epoch ?ob) (n + 1), ob_next_seq := ob_next_seq ?ob + 2,
          ob_events := ob_events ?ob @ [\<lparr>ev_kind = ''gap'', ev_epoch = Some n, ev_seq = ob_next_seq ?ob + 1, ev_side = None,
            ev_fields = [(''reason'', JStr ''event_queue_overflow'')]\<rparr>]\<rparr>)"
    using assms(4) max es by (simp add: emit_def append_record_def Let_def new_connection_def)
  then show "\<exists>xs g. ob_events (snd (open_connection i (JInt n) ob)) = xs @ [g] \<and> length (ob_events ob) \<le> length xs \<and> rows n xs = []
    \<and> ev_kind g = ''gap'' \<and> ev_epoch g = Some n \<and> ev_fields g = [(''reason'', JStr ''event_queue_overflow'')]"
    unfolding o by (intro exI [of _ "ob_events ?ob"] exI) (auto simp: es none [unfolded es])
qed

section \<open>Concrete runs\<close>

definition sink_thread :: json where
  "sink_thread = JObj [(''thread'', JObj [(''id'', JStr ''01234567-89ab-4def-8123-456789abcdef''), (''cwd'', JStr ''/w'')])]"

definition sink_wire :: wire_platform where
  "sink_wire = \<lparr>wp_sha1 = (\<lambda>_. []), wp_sha256 = (\<lambda>_. []),
     wp_scan = (\<lambda>t. if t = ''Q'' then Inr sample_request else if t = ''A'' then Inr sample_answer
       else if t = ''I'' then Inr (JObj [(''method'', JStr ''initialized'')])
       else if t = ''S'' then Inr (JObj [(''id'', JInt 2), (''method'', JStr ''thread/start''), (''params'', JObj [(''cwd'', JStr ''/w'')])])
       else if t = ''T'' then Inr (JObj [(''id'', JInt 2), (''result'', sink_thread)])
       else if t = ''N'' then Inr (JObj [(''method'', JStr ''thread/started''), (''params'', sink_thread)])
       else Inl [])\<rparr>"

definition sink_lease :: jdict where
  "sink_lease = [(''lease_id'', JStr ''L''), (''expected_home'', JStr ''/home''), (''expected_cwd'', JStr ''/w'')]"

definition from_client :: "char \<Rightarrow> string" where
  "from_client x = [CHR 0x81, CHR 0x81, CHR 0x00, CHR 0x00, CHR 0x00, CHR 0x00, x]"

definition from_server :: "char \<Rightarrow> string" where
  "from_server x = [CHR 0x81, CHR 0x01, x]"

definition sink_chunks :: "(string \<times> string) list" where
  "sink_chunks = [(''frontend_to_backend'', sample_head @ from_client CHR ''Q''), (''backend_to_frontend'', sample_reply @ from_server CHR ''A''),
     (''frontend_to_backend'', from_client CHR ''I'' @ from_client CHR ''S'')]"

definition relay_chunk :: "(string \<times> string) \<Rightarrow> sink \<Rightarrow> sink" where
  "relay_chunk c sk = snd (snd (on_data sink_wire None ''c'' 1 (fst c) (snd c) sk))"

definition sink_start :: "int \<Rightarrow> sink" where
  "sink_start events = (case new_sink 65536 1048576 2097152 events of
      Inr sk \<Rightarrow> snd (on_connect ''c'' 1 JNull JNull (Some sink_lease) sk)
    | Inl _ \<Rightarrow> \<lparr>sk_events = [], sk_streams = [], sk_protocol = [], sk_observer = sample_observer\<rparr>)"

definition sink_almost :: sink where
  "sink_almost = fold relay_chunk sink_chunks (sink_start 4096)"

definition sink_last :: "unit result \<times> jdict option \<times> sink" where
  "sink_last = on_data sink_wire (Some (\<lambda>_. Inr ())) ''c'' 1 ''backend_to_frontend'' (from_server CHR ''T'' @ from_server CHR ''N'') sink_almost"

text \<open>The sink before the last chunk, without its byte counters.\<close>

definition bare :: "sink \<Rightarrow> sink" where
  "bare sk = sk\<lparr>sk_streams := [], sk_events := []\<rparr>"

definition sink_bare :: sink where
  "sink_bare =
    \<lparr>sk_events = [], sk_streams = [], sk_protocol = [(1, \<lparr>pr_connection = ''c'', pr_epoch = 1, pr_lease = [(''lease_id'', JStr
    ''L''), (''expected_home'', JStr ''/home''), (''expected_cwd'', JStr ''/w'')], pr_frontend = JNull, pr_backend = JNull, pr_valid = True,
    pr_closed = False, pr_upgrades = [Some Server, Some Client], pr_initialize = [(''request_id'', JInt 1), (''home_match'', JBool True),
    (''home_sha256'', JStr [])], pr_initialized = True, pr_thread = [(''start_request_id'', JInt 2)], pr_turn_starts = 0, pr_turn_steers = 0,
    pr_rpc = [[(''event'', JStr ''rpc''), (''direction'', JStr ''client''), (''method'', JStr ''initialize''), (''request_id'', JInt 1)],
    [(''event'', JStr ''rpc_response''), (''direction'', JStr ''server''), (''method'', JStr ''initialize''), (''request_id'', JInt 1),
    (''request_direction'', JStr ''client''), (''ok'', JBool True)], [(''event'', JStr ''rpc''), (''direction'', JStr ''client''), (''method'',
    JStr ''initialized''), (''request_id'', JNull)], [(''event'', JStr ''rpc''), (''direction'', JStr ''client''), (''method'', JStr
    ''thread/start''), (''request_id'', JInt 2)]], pr_published = False, pr_failure = None, pr_skills = []\<rparr>)], sk_observer =
    \<lparr>ob_max_header = nat 65536, ob_max_frame = nat 1048576, ob_max_message = nat 2097152, ob_max_events = nat 4096, ob_cwd = JNull,
    ob_connections = [(''c'', \<lparr>cn_epoch = 1, cn_state = ''UNBOUND'', cn_valid = True, cn_closed = False, cn_overflowed = False, cn_key =
    Some ''AAAAAAAAAAAAAAAAAAAAAA=='', cn_client = \<lparr>ps_buffer = [], ps_handshake = True, ps_fopcode = None, ps_fpayload = []\<rparr>,
    cn_server = \<lparr>ps_buffer = [], ps_handshake = True, ps_fopcode = None, ps_fpayload = []\<rparr>, cn_pending = [((Client, JInt 2),
    ''thread/start'')]\<rparr>)], ob_max_epoch = 1, ob_next_epoch = 2, ob_next_seq = 9, ob_events = [\<lparr>ev_kind = ''connection_open'',
    ev_epoch = Some 1, ev_seq = 1, ev_side = None, ev_fields = []\<rparr>, \<lparr>ev_kind = ''websocket_upgrade'', ev_epoch = Some 1, ev_seq =
    2, ev_side = Some Client, ev_fields = []\<rparr>, \<lparr>ev_kind = ''rpc'', ev_epoch = Some 1, ev_seq = 3, ev_side = Some Client, ev_fields
    = [(''request_id'', JInt 1), (''method'', JStr ''initialize''), (''params'', JObj [])]\<rparr>, \<lparr>ev_kind = ''websocket_upgrade'',
    ev_epoch = Some 1, ev_seq = 4, ev_side = Some Server, ev_fields = []\<rparr>, \<lparr>ev_kind = ''rpc_response'', ev_epoch = Some 1, ev_seq
    = 5, ev_side = Some Server, ev_fields = [(''request_id'', JInt 1), (''request_direction'', JStr ''client''), (''method'', JStr
    ''initialize''), (''ok'', JBool True)]\<rparr>, \<lparr>ev_kind = ''initialize_home'', ev_epoch = Some 1, ev_seq = 6, ev_side = Some Server,
    ev_fields = [(''request_id'', JInt 1), (''home_match'', JBool True), (''home_sha256'', JStr [])]\<rparr>, \<lparr>ev_kind = ''rpc'',
    ev_epoch = Some 1, ev_seq = 7, ev_side = Some Client, ev_fields = [(''request_id'', JNull), (''method'', JStr ''initialized''), (''params'',
    JObj [])]\<rparr>, \<lparr>ev_kind = ''rpc'', ev_epoch = Some 1, ev_seq = 8, ev_side = Some Client, ev_fields = [(''request_id'', JInt 2),
    (''method'', JStr ''thread/start''), (''params'', JObj [(''cwd'', JStr ''/w'')])]\<rparr>]\<rparr>\<rparr>"

lemma bare_almost: "bare sink_almost = sink_bare"
  by code_simp

lemma bare_simps [simp]: "sk_protocol (bare sk) = sk_protocol sk" "sk_observer (bare sk) = sk_observer sk"
  by (simp_all add: bare_def)

lemma on_data_bare:
  "fst (on_data W publish i n direction bytes (bare sk)) = fst (on_data W publish i n direction bytes sk)"
  "fst (snd (on_data W publish i n direction bytes (bare sk))) = fst (snd (on_data W publish i n direction bytes sk))"
proof -
  have "sk_protocol (observed ob (count_bytes i direction bytes (bare sk))) = sk_protocol (observed ob (count_bytes i direction bytes sk))" for ob
    by (simp add: observed_def)
  then show "fst (on_data W publish i n direction bytes (bare sk)) = fst (on_data W publish i n direction bytes sk)"
    "fst (snd (on_data W publish i n direction bytes (bare sk))) = fst (snd (on_data W publish i n direction bytes sk))"
    unfolding on_data_def Let_def by (simp_all split: option.split sum.split)
qed

lemma last_receipt: "fst (on_data sink_wire (Some (\<lambda>_. Inr ())) ''c'' 1 ''backend_to_frontend'' (from_server CHR ''T'' @ from_server CHR ''N'') sink_bare) = Inr ()
    \<and> fst (snd (on_data sink_wire (Some (\<lambda>_. Inr ())) ''c'' 1 ''backend_to_frontend'' (from_server CHR ''T'' @ from_server CHR ''N'') sink_bare)) \<noteq> None"
  by code_simp

lemma start_run: "2 \<le> events \<Longrightarrow> sink_run sink_wire [] (sink_start events)"
proof -
  assume "2 \<le> events"
  then obtain sk where sk: "new_sink 65536 1048576 2097152 events = Inr sk" "ob_max_epoch (sk_observer sk) = 0"
    by (simp add: new_sink_def make_observer_def)
  have "on_connect ''c'' 1 JNull JNull (Some sink_lease) sk = (fst (on_connect ''c'' 1 JNull JNull (Some sink_lease) sk), sink_start events)"
    by (simp add: sink_start_def sk(1))
  then have "sink_step sink_wire sk [] (sink_start events)" by (rule sink_step.connected [rotated 2]) (simp_all add: sk(2))
  from sink_run_step [OF sink_run_new [OF sk(1)] this] show ?thesis by simp
qed

lemma relay_run:
  assumes "sink_run sink_wire [] sk"
  shows "sink_run sink_wire [] (relay_chunk c sk)"
proof -
  obtain r receipt sk' where d: "on_data sink_wire None ''c'' 1 (fst c) (snd c) sk = (r, receipt, sk')"
    by (cases "on_data sink_wire None ''c'' 1 (fst c) (snd c) sk") auto
  have "receipt = None" using d by (auto simp: on_data_def Let_def split: option.splits if_splits)
  with sink_run_step [OF assms sink_step.relayed [OF d]] show ?thesis by (simp add: relay_chunk_def d taken_def)
qed

lemma almost_run: "sink_run sink_wire [] sink_almost"
  unfolding sink_almost_def sink_chunks_def fold_simps by (intro relay_run start_run) simp

section \<open>Properties\<close>

text \<open>
  C16. A ready receipt is only handed out for a connection that has shown everything it claims. When the
  sink hands out a receipt for a connection, the records of that connection, in this order, hold the answer
  of the backend with the home of the lease, \<open>initialized\<close>, the request of the client for the thread that the
  lease asks for (\<open>thread/start\<close> with the directory of the lease, or \<open>thread/resume\<close> of the thread that the lease
  names), its successful answer with the same request identifier, that thread and the directory of the lease,
  and the announcement of that thread or the barrier of a resumed one; every record of a matching home carries
  the hash of the home that the lease expects; both upgrades were seen, no
  gap, no end and no turn was recorded, and the receipt names that thread and that lease.\<close>

theorem ready_receipt_proves_handshake:
  assumes "sink_run W given sk" and "on_data W publish i n direction bytes sk = (r, Some receipt, sk')"
  shows "\<exists>p. map_of (sk_protocol sk) n = Some p \<and> pr_connection p = i
     \<and> dget receipt ''connection_id'' = JStr i \<and> dget receipt ''lease_id'' = dget (pr_lease p) ''lease_id''
     \<and> handshake (pr_lease p) (dget (obj_of (dget receipt ''thread'')) ''id'') (rows n (ob_events (sk_observer sk')))
     \<and> upgraded Client (rows n (ob_events (sk_observer sk'))) \<and> upgraded Server (rows n (ob_events (sk_observer sk')))
     \<and> undisturbed (rows n (ob_events (sk_observer sk')))
     \<and> (\<forall>e \<in> set (rows n (ob_events (sk_observer sk'))). shows_home e \<longrightarrow>
          (\<exists>h. dget (pr_lease p) ''expected_home'' = JStr h \<and> row_get e ''home_sha256'' = JStr (wp_sha256 W h)))"
  using assms(2)
proof (cases rule: on_data_cases)
  case (finished p q sk2)
  have good: "sink_good W sk" by (rule run_good [OF assms(1)])
  let ?ob = "relay_feed W i direction bytes sk"
  note run = relay_feed_keeps(1) [OF good, of i direction bytes]
  note grow = relay_feed_keeps(2) [OF good, of i direction bytes]
  have "milestones.holds (count_bytes i direction bytes sk)" "spoilers.holds (count_bytes i direction bytes sk)"
    using milestones.run_holds [OF assms(1)] spoilers.run_holds [OF assms(1)] by (simp_all add: milestones.holds_def spoilers.holds_def)
  then have "milestones.holds sk2" "spoilers.holds sk2"
    unfolding finished(3) using milestones.holds_observed [OF _ run] spoilers.holds_observed [OF _ run] grow by simp_all
  from milestones.holds_at [OF this(1) finished(4)] spoilers.holds_at [OF this(2) finished(4)]
  have q: "tracked (rows n (ob_events ?ob)) q" "unspoilt (rows n (ob_events ?ob)) q" by (simp_all add: finished(3))
  have ob: "sk_observer sk' = ?ob" using finished(3,8) by auto
  obtain es where es: "ob_events ?ob = ob_events (sk_observer (count_bytes i direction bytes sk)) @ es" using grow by (auto simp: grows_def)
  have same: "pr_lease q = pr_lease p" "pr_connection q = i"
    using finished(1,2,4) by (auto simp: finished(3) observed_lookup [OF es] replay_same)
  have step: "sink_step W sk (taken n r (Some receipt)) sk'" using assms(2) by (rule sink_step.relayed)
  have lease: "\<exists>q'. map_of (sk_protocol sk') n = Some q' \<and> pr_lease q' = pr_lease p" using finished(4,8) same by auto
  have homes: "\<exists>h. dget (pr_lease p) ''expected_home'' = JStr h \<and> row_get e ''home_sha256'' = JStr (wp_sha256 W h)"
    if "e \<in> set (rows n (ob_events (sk_observer sk')))" "shows_home e" for e
    using run_homes [OF sink_run_step [OF assms(1) step]] lease that by (fastforce simp: homes_ok_def home_made_def rows_def expected_home_def)
  show ?thesis
    using homes finished(1,2,7) ready_handshake [OF finished(5) q(1)] ready_upgraded [OF finished(5) q(1)] ready_undisturbed [OF finished(5) q(2)]
    by (auto simp: ob receipt_thread same)
qed simp_all

theorem ready_receipt_proves_handshake_witness:
  "\<exists>receipt sk' (p :: proto). on_data sink_wire (Some (\<lambda>_. Inr ())) ''c'' 1 ''backend_to_frontend'' (from_server CHR ''T'' @ from_server CHR ''N'') sink_almost
       = (Inr (), Some receipt, sk')
     \<and> handshake (pr_lease p) (dget (obj_of (dget receipt ''thread'')) ''id'') (rows 1 (ob_events (sk_observer sk')))"
proof -
  obtain receipt sk' where d: "on_data sink_wire (Some (\<lambda>_. Inr ())) ''c'' 1 ''backend_to_frontend'' (from_server CHR ''T'' @ from_server CHR ''N'') sink_almost
       = (Inr (), Some receipt, sk')"
    using last_receipt unfolding bare_almost [symmetric] on_data_bare by (metis not_Some_eq prod.collapse)
  from ready_receipt_proves_handshake [OF almost_run d]
  obtain p :: proto where "handshake (pr_lease p) (dget (obj_of (dget receipt ''thread'')) ''id'') (rows 1 (ob_events (sk_observer sk')))" by fast
  with d show ?thesis by (intro exI conjI)
qed

text \<open>
  A connection is published once: whatever the relay does, no two receipts that the publisher took
  are for the same connection.\<close>

theorem one_ready_receipt_per_connection:
  assumes "sink_run W given sk"
  shows "distinct given"
  using run_published [OF assms] by (simp add: published_given_def)

theorem one_ready_receipt_per_connection_witness:
  "distinct (taken 1 (fst sink_last) (fst (snd sink_last))) \<and> taken 1 (fst sink_last) (fst (snd sink_last)) = [1]"
proof -
  obtain r receipt sk' where d: "sink_last = (r, receipt, sk')" by (cases sink_last) auto
  have "sink_step sink_wire sink_almost (taken 1 r receipt) sk'" using d unfolding sink_last_def by (rule sink_step.relayed)
  from one_ready_receipt_per_connection [OF sink_run_step [OF almost_run this]] have "distinct (taken 1 (fst sink_last) (fst (snd sink_last)))"
    by (simp add: d)
  moreover have "fst sink_last = Inr ()" "fst (snd sink_last) \<noteq> None"
    using last_receipt unfolding sink_last_def bare_almost [symmetric] on_data_bare by simp_all
  ultimately show ?thesis by (simp add: taken_def)
qed

text \<open>
  C33. The observer of a sink is never drained, so once its queue is full every later connection is
  lost: when the queue holds all but one of the records it may hold, or more, a connection that is opened then
  is given an overflow gap as its only record, in place of the opening record, however full the queue is
  (when it holds all the records it may hold already, it outgrows its bound), its protocol is invalid from the
  start, and no receipt for it is ever taken, whatever the relay does.\<close>

theorem full_queue_blocks_connections:
  assumes "sink_run W given sk" and "ob_max_events (sk_observer sk) - 1 \<le> length (ob_events (sk_observer sk))"
    and "0 < n" and "ob_max_epoch (sk_observer sk) < n" and "on_connect i n frontend backend lease sk = (r, sk1)"
    and "sink_steps W sk1 later sk2"
  shows "(\<exists>g. rows n (ob_events (sk_observer sk1)) = [g] \<and> last (ob_events (sk_observer sk1)) = g \<and> ev_kind g = ''gap''
         \<and> ev_fields g = [(''reason'', JStr ''event_queue_overflow'')])
     \<and> length (ob_events (sk_observer sk)) < length (ob_events (sk_observer sk1))
     \<and> (ob_max_events (sk_observer sk) \<le> length (ob_events (sk_observer sk)) \<longrightarrow> ob_max_events (sk_observer sk1) < length (ob_events (sk_observer sk1)))
     \<and> n \<notin> set later
     \<and> (\<exists>p. map_of (sk_protocol sk2) n = Some p \<and> \<not> pr_valid p)"
proof -
  have good: "sink_good W sk" by (rule run_good [OF assms(1)])
  have sk1: "sk1 = observed (snd (open_connection i (JInt n) (sk_observer sk))) (enter i n frontend backend lease sk)"
    using assms(5) on_connect_enters [of i n frontend backend lease sk] by simp
  have run: "observer_run W [] (sk_observer sk)" using good by (simp add: sink_good_def)
  note full = full_open [OF run assms(3,4,2), of i]
  obtain xs g where g: "ob_events (snd (open_connection i (JInt n) (sk_observer sk))) = xs @ [g]" "length (ob_events (sk_observer sk)) \<le> length xs"
      "ev_kind g = ''gap''" "ev_epoch g = Some n" and own: "rows n xs = []" "ev_fields g = [(''reason'', JStr ''event_queue_overflow'')]"
    using full(1) by (elim exE conjE) (rule that)
  from g have alone: "rows n (ob_events (sk_observer sk1)) = [g]" using own(1) by (simp add: sk1 rows_def)
  have max: "ob_max_events (sk_observer sk1) = ob_max_events (sk_observer sk)" using full(2) by (simp add: sk1)
  have last: "ob_events (sk_observer sk1) = xs @ [g]" using g(1) by (simp add: sk1)
  have step: "sink_step W sk [] sk1" by (rule sink_step.connected [OF assms(3,4,5)])
  obtain es where es: "ob_events (snd (open_connection i (JInt n) (sk_observer sk))) = ob_events (sk_observer (enter i n frontend backend lease sk)) @ es"
    using open_grows [of "sk_observer sk"] by (auto simp: grows_def)
  obtain p where p: "map_of (sk_protocol sk1) n = Some p" by (simp add: sk1 observed_lookup [OF es])
  from spoilers.run_holds [OF sink_run_step [OF assms(1) step]] p have "unspoilt (rows n (ob_events (sk_observer sk1))) p"
    by (rule spoilers.holds_at)
  then have "\<not> pr_valid p" using g(3,4) by (auto simp: last unspoilt_def rows_def)
  with p have "lost n sk1" by (simp add: lost_def)
  from steps_lost [OF assms(6) step_good [OF step good] this] g(2,3) own(2) show ?thesis unfolding alone max by (simp add: last lost_def)
qed

theorem full_queue_blocks_connections_witness:
  "\<exists>p. map_of (sk_protocol (snd (on_connect ''d'' 2 JNull JNull (Some sink_lease) (sink_start 2)))) 2 = Some p \<and> \<not> pr_valid p"
proof -
  let ?sk = "snd (on_connect ''d'' 2 JNull JNull (Some sink_lease) (sink_start 2))"
  have "ob_max_events (sk_observer (sink_start 2)) - 1 \<le> length (ob_events (sk_observer (sink_start 2)))"
    "ob_max_epoch (sk_observer (sink_start 2)) < 2" by code_simp+
  from full_queue_blocks_connections [OF start_run this(1) _ this(2) surjective_pairing sink_steps.unmoved] show ?thesis by simp
qed

end
