(* ===== verification/RelaySink.thy ===== *)
theory RelaySink
  imports RelayProps SinkProps
begin

text \<open>
  The relay with the metadata sink of the activation service: the callbacks as the relay calls them, the
  relay as a run of the sink, and the counters and hashes of the sink against the bytes on the wire.
\<close>

section \<open>The sink as the relay calls it\<close>

definition peer_json :: "peer \<Rightarrow> json" where
  "peer_json p =
    (let int_of = (\<lambda>x. case x of None \<Rightarrow> JNull | Some n \<Rightarrow> JInt n); text_of = (\<lambda>x. case x of None \<Rightarrow> JNull | Some t \<Rightarrow> JStr t) in
     JObj [(''pid'', int_of (pe_pid p)), (''uid'', int_of (pe_uid p)), (''birth'', text_of (pe_birth p)),
       (''executable'', text_of (pe_executable p)), (''complete'', JBool (peer_complete p)), (''source'', JStr (pe_source p))])"

text \<open>\<open>leases\<close> is \<open>lease_for_connection\<close>, \<open>publish\<close> is \<open>publish_ready\<close> of the service.\<close>

definition metadata_capture :: "wire_platform \<Rightarrow> (peer \<Rightarrow> peer \<Rightarrow> jdict option) \<Rightarrow> (jdict \<Rightarrow> unit result) option \<Rightarrow> sink capture" where
  "metadata_capture W leases publish event sk = (case event of
      ConnectionEvent _ i n _ _ fpeer bpeer \<Rightarrow>
        (case on_connect i n (peer_json fpeer) (peer_json bpeer) (leases fpeer bpeer) sk of (r, sk') \<Rightarrow> (map_sum id (\<lambda>_. ()) r, sk'))
    | DataEvent _ i n d _ bytes \<Rightarrow>
        (case on_data W publish i n (direction_name d) bytes sk of (r, _, sk') \<Rightarrow> (r, sk'))
    | LifecycleEvent _ i n kind d _ \<Rightarrow>
        (Inr (), on_lifecycle kind i n (case d of None \<Rightarrow> JNull | Some x \<Rightarrow> JStr (direction_name x)) sk)
    | GapEvent _ i n reason fatal \<Rightarrow> (Inr (), on_gap i n reason fatal sk))"

section \<open>What a relay asks of a sink\<close>

text \<open>
  A property \<open>I n\<close> of the state of a sink that has seen connections up to epoch \<open>n\<close>, kept by every callback;
  the relay calls \<open>on_connect\<close> with the next epoch only.
\<close>

definition is_connection :: "capture_event \<Rightarrow> bool" where
  "is_connection event = (case event of ConnectionEvent _ _ _ _ _ _ _ \<Rightarrow> True | _ \<Rightarrow> False)"

lemma is_connection_simps [simp]: "\<not> is_connection (DataEvent k i n d m bytes)" "\<not> is_connection (LifecycleEvent k i n kind x y)"
  "\<not> is_connection (GapEvent k i n reason fatal)"
  by (simp_all add: is_connection_def)

locale capture_client =
  fixes C :: "'s capture" and I :: "int \<Rightarrow> 's \<Rightarrow> bool"
  assumes connecting: "I n s \<Longrightarrow> 0 \<le> n \<Longrightarrow> I (n + 1) (snd (C (ConnectionEvent k i (n + 1) ffd bfd fpeer bpeer) s))"
    and seeing: "I n s \<Longrightarrow> \<not> is_connection event \<Longrightarrow> I n (snd (C event s))"
    and later: "I n s \<Longrightarrow> I (n + 1) s"
begin

definition served :: "('g, 's) relay \<Rightarrow> bool" where
  "served s = (0 \<le> rl_epoch s \<and> I (rl_epoch s) (rl_sink s))"

lemma served_same: "served s \<Longrightarrow> rl_epoch s' = rl_epoch s \<Longrightarrow> rl_sink s' = rl_sink s \<Longrightarrow> served s'"
  by (simp add: served_def)

lemma emit_served:
  assumes R: "re_capture R = C" and emit: "emit_event R event i n s = (r, s')" and ok: "served s" and e: "\<And>k. \<not> is_connection (event k)"
  shows "served s'"
proof -
  note epoch = emit_frame(2) [OF emit]
  have ok': "0 \<le> rl_epoch s" "I (rl_epoch s) (rl_sink s)" using ok by (simp_all add: served_def)
  from emit show ?thesis
  proof (cases rule: emit_cases)
    case dead
    show ?thesis by (rule served_same [OF ok epoch dead(3)])
  next
    case (told u sk)
    with seeing [OF ok'(2) e [of "rl_observation s + 1"]] ok' show ?thesis by (simp add: served_def epoch R)
  next
    case (raised x sk)
    with seeing [OF ok'(2) e [of "rl_observation s + 1"]] have "I (rl_epoch s) sk" by (simp add: R)
    from seeing [OF this is_connection_simps(3)] raised ok' show ?thesis by (simp add: served_def epoch R)
  qed
qed

lemma connect_served:
  assumes R: "re_capture R = C" and ok: "served s" and n: "n = rl_epoch s + 1"
    and emit: "emit_event R (\<lambda>k. ConnectionEvent k i n ffd bfd fpeer bpeer) i n (s\<lparr>rl_epoch := n\<rparr>) = (r, s')"
  shows "served s'" "rl_epoch s' = n"
proof -
  show epoch: "rl_epoch s' = n" using emit_frame(2) [OF emit] by simp
  have ok': "0 \<le> rl_epoch s" "I (rl_epoch s) (rl_sink s)" using ok by (simp_all add: served_def)
  note told' = connecting [OF ok'(2,1), folded n]
  from emit show "served s'"
  proof (cases rule: emit_cases)
    case dead
    with later [OF ok'(2)] ok'(1) epoch show ?thesis by (simp add: served_def n)
  next
    case (told u sk)
    with told' [of "rl_observation s + 1" i ffd bfd fpeer bpeer] ok'(1) epoch show ?thesis by (simp add: served_def n R)
  next
    case (raised x sk)
    with told' [of "rl_observation s + 1" i ffd bfd fpeer bpeer] have "I n sk" by (simp add: R)
    from seeing [OF this is_connection_simps(3)] raised ok'(1) epoch show ?thesis by (simp add: served_def R n)
  qed
qed

lemma gap_left_served: "re_capture R = C \<Longrightarrow> served s \<Longrightarrow> served (gap_left R e i n s)"
  using emit_served [of R "\<lambda>seq. GapEvent seq i n ''isolated_backend_or_relay_failed'' False" i n s]
  by (cases "emit_event R (\<lambda>seq. GapEvent seq i n ''isolated_backend_or_relay_failed'' False) i n s") (simp add: gap_left_def)

lemma moved_served [simp]: "served (put_link i l s) = served s" "served (drop_link i s) = served s" "served (leave probe s) = served s"
  "served (closed_client s) = served s" "served (s\<lparr>rl_waiting := w\<rparr>) = served s"
  by (simp_all add: served_def leave_def closed_client_def)

lemma start_served:
  assumes R: "re_capture R = C" and ok: "served s"
  shows "served (start_client R ffd fpeer first backend nonce s)"
proof -
  have failed: "served (start_failed R e s)" for e using gap_left_served [OF R ok] by (simp add: start_failed_def)
  have "served (connect_client R ffd bfd fpeer bpeer nonce initial s)" for bfd bpeer initial
  proof -
    let ?n = "rl_epoch s + 1" and ?i = "connection_name (rl_epoch s + 1) nonce"
    let ?event = "\<lambda>seq. ConnectionEvent seq ?i ?n ffd bfd fpeer bpeer"
    obtain r s1 where e: "emit_event R ?event ?i ?n (s\<lparr>rl_epoch := ?n\<rparr>) = (r, s1)" by (cases "emit_event R ?event ?i ?n (s\<lparr>rl_epoch := ?n\<rparr>)")
    have 1: "served s1" by (rule connect_served(1) [OF R ok refl e])
    show ?thesis using 1 gap_left_served [OF R 1] by (simp add: connect_client_def Let_def e [simplified] split: sum.split)
  qed
  then show ?thesis using ok failed by (simp add: start_client_def split: sum.split prod.split)
qed

lemma pump_data_served: "re_capture R = C \<Longrightarrow> served s \<Longrightarrow> served (pump_data R i d bytes l s)"
  using emit_served [of R "\<lambda>seq. DataEvent seq i (ln_epoch l) d (link_seq d (count_event d l)) bytes" i "ln_epoch l" s]
  by (simp add: pump_data_def Let_def split: prod.split sum.split)

lemma pump_eof_served:
  assumes R: "re_capture R = C" and ok: "served s"
  shows "served (pump_eof R i d shut l s)"
proof -
  let ?event = "\<lambda>kind seq. LifecycleEvent seq i (ln_epoch l) kind (Some d) (Some (link_seq d (count_event d l)))"
  obtain r1 s1 where 1: "emit_event R (?event ''eof'') i (ln_epoch l) s = (r1, s1)" by (cases "emit_event R (?event ''eof'') i (ln_epoch l) s")
  obtain r2 s2 where 2: "emit_event R (?event ''half_close'') i (ln_epoch l) s1 = (r2, s2)" by (cases "emit_event R (?event ''half_close'') i (ln_epoch l) s1")
  have "served s1" by (rule emit_served [OF R 1 ok is_connection_simps(2)])
  moreover from this have "served s2" by (rule emit_served [OF R 2 _ is_connection_simps(2)])
  ultimately show ?thesis by (simp add: pump_eof_def Let_def 1 [simplified] 2 [simplified] split: sum.split)
qed

lemma pump_turn_served:
  assumes R: "re_capture R = C" and ok: "served s"
  shows "served (pump_turn R i d shut received s)"
proof (cases "map_of (rl_links s) i")
  case (Some l0)
  define l where "l = (if d = ToBackend then l0\<lparr>ln_initial := []\<rparr> else l0)"
  show ?thesis using pump_turn_cases [OF Some l_def, of R shut received] ok pump_data_served [OF R ok] pump_eof_served [OF R ok]
    by (elim disjE exE conjE) simp_all
qed (simp add: pump_turn_def ok)

lemma finish_served:
  assumes R: "re_capture R = C" and ok: "served s"
  shows "served (finish_client R i s)"
proof (cases "map_of (rl_links s) i")
  case (Some l)
  let ?event = "\<lambda>seq. LifecycleEvent seq i (ln_epoch l) ''disconnect'' None None"
  obtain r s1 where e: "emit_event R ?event i (ln_epoch l) s = (r, s1)" by (cases "emit_event R ?event i (ln_epoch l) s")
  from emit_served [OF R e ok is_connection_simps(2)] ok show ?thesis by (simp add: finish_client_def Some e)
qed (simp add: finish_client_def ok)

lemma step_served:
  assumes "relay_step R s s'" and R: "re_capture R = C" and ok: "served s"
  shows "served s'"
  using assms(1)
proof cases
  case accepted
  with ok show ?thesis by (simp add: accept_def)
next
  case started
  with start_served [OF R ok] show ?thesis by simp
next
  case turned
  with pump_turn_served [OF R ok] show ?thesis by simp
next
  case finished
  with finish_served [OF R ok] show ?thesis by simp
next
  case broken
  with ok show ?thesis by (simp add: pump_lost_def split: option.split)
next
  case cancelled
  with ok show ?thesis by (simp add: cancel_client_def split: option.split)
qed (use ok in simp_all)

lemma run_served:
  assumes "relay_run R sk s" and R: "re_capture R = C" and "I 0 sk"
  shows "I (rl_epoch s) (rl_sink s)"
proof -
  from assms(1) have "served s" unfolding relay_run_def
  proof (induction rule: rtranclp_induct)
    case base
    with assms(3) show ?case by (simp add: served_def new_relay_def)
  next
    case (step s1 s2)
    from step_served [OF step.hyps(2) R step.IH] show ?case .
  qed
  then show ?thesis by (simp add: served_def)
qed

end

section \<open>The metadata sink serves a relay\<close>

definition sink_at :: "wire_platform \<Rightarrow> int \<Rightarrow> sink \<Rightarrow> bool" where
  "sink_at W n sk = ((\<exists>given. sink_run W given sk) \<and> ob_max_epoch (sk_observer sk) \<le> n)"

lemma sink_at_step: "sink_at W n sk \<Longrightarrow> sink_step W sk new sk' \<Longrightarrow> ob_max_epoch (sk_observer sk') \<le> m \<Longrightarrow> sink_at W m sk'"
  unfolding sink_at_def using sink_run_step by blast

lemma on_data_same: "on_data W publish i n direction bytes sk = (r, receipt, sk') \<Longrightarrow> ob_max_epoch (sk_observer sk') = ob_max_epoch (sk_observer sk)"
  by (erule on_data_cases) (auto simp: feed_same)

lemma on_lifecycle_same: "ob_max_epoch (sk_observer (on_lifecycle kind i n direction sk)) = ob_max_epoch (sk_observer sk)"
  by (simp add: on_lifecycle_def Let_def close_same)

lemma on_gap_same: "sk_observer (on_gap i n reason fatal sk) = sk_observer sk"
  by (simp add: on_gap_def Let_def split: option.split)

interpretation relayed_sink: capture_client "metadata_capture W leases publish" "sink_at W"
proof unfold_locales
  fix n k i ffd bfd fpeer bpeer and s :: sink
  assume at: "sink_at W n s" and n: "0 \<le> n"
  let ?call = "on_connect i (n + 1) (peer_json fpeer) (peer_json bpeer) (leases fpeer bpeer) s"
  obtain r s' where call: "?call = (r, s')" by (cases ?call)
  have epochs: "0 < n + 1" "ob_max_epoch (sk_observer s) < n + 1" using at n by (simp_all add: sink_at_def)
  have "ob_max_epoch (sk_observer s') = n + 1"
    using opened_epoch(1) [OF epochs, where i = i] on_connect_enters [of i "n + 1" "peer_json fpeer" "peer_json bpeer" "leases fpeer bpeer" s] call by simp
  with sink_at_step [OF at sink_step.connected [OF epochs call], where m = "n + 1"]
  show "sink_at W (n + 1) (snd (metadata_capture W leases publish (ConnectionEvent k i (n + 1) ffd bfd fpeer bpeer) s))"
    by (simp add: metadata_capture_def call)
next
  fix n event and s :: sink
  assume at: "sink_at W n s" and event: "\<not> is_connection event"
  have max: "ob_max_epoch (sk_observer s) \<le> n" using at by (simp add: sink_at_def)
  show "sink_at W n (snd (metadata_capture W leases publish event s))"
  proof (cases event)
    case (ConnectionEvent x1 x2 x3 x4 x5 x6 x7)
    with event show ?thesis by (simp add: is_connection_def)
  next
    case (DataEvent k i m d number bytes)
    obtain r receipt s' where call: "on_data W publish i m (direction_name d) bytes s = (r, receipt, s')"
      by (cases "on_data W publish i m (direction_name d) bytes s")
    from sink_at_step [OF at sink_step.relayed [OF call], where m = n] on_data_same [OF call] max show ?thesis
      by (simp add: metadata_capture_def DataEvent call)
  next
    case (LifecycleEvent k i m kind d number)
    from sink_at_step [OF at sink_step.turned, where m = n] on_lifecycle_same max show ?thesis
      by (simp add: metadata_capture_def LifecycleEvent)
  next
    case (GapEvent k i m reason fatal)
    from sink_at_step [OF at sink_step.gapped, where m = n] on_gap_same max show ?thesis by (simp add: metadata_capture_def GapEvent)
  qed
next
  fix n and s :: sink
  show "sink_at W n s \<Longrightarrow> sink_at W (n + 1) s" by (simp add: sink_at_def)
qed

end
