(* ===== verification/RelayStreams.thy ===== *)
theory RelayStreams
  imports RelaySink JsonScan
begin

text \<open>
  The counters and hashes of the metadata sink against the bytes the relay wrote, and the properties of
  the relay and the sink together.
\<close>

section \<open>Names of connections\<close>

definition named :: "int \<Rightarrow> string \<Rightarrow> bool" where
  "named n i = (\<exists>m nonce. 0 < m \<and> m \<le> n \<and> length nonce = 12 \<and> i = connection_name m nonce)"

lemma named_later: "named n i \<Longrightarrow> n \<le> m \<Longrightarrow> named m i"
  unfolding named_def using order_trans by blast

lemma named_pending [simp]: "\<not> named n ''pending''"
  by (auto simp: named_def connection_name_def)

text \<open>A positive epoch is printed without a sign, so the name gives it back.\<close>

lemma connection_name_epoch:
  assumes "connection_name m x = connection_name n y" and "length x = 12" and "length y = 12" and "0 < m" and "0 < n"
  shows "m = n"
proof -
  from assms(1-3) have "show_int m = show_int n" by (simp add: connection_name_def)
  with assms(4,5) have "show_nat (nat m) = show_nat (nat n)" by (simp add: show_int_def)
  then have "digits_value (show_nat (nat m)) = digits_value (show_nat (nat n))" by simp
  then have "nat m = nat n" by (simp only: show_nat_digits)
  with assms(4,5) show ?thesis by simp
qed

lemma not_named: "0 < n \<Longrightarrow> length nonce = 12 \<Longrightarrow> \<not> named (n - 1) (connection_name n nonce)"
  unfolding named_def using connection_name_epoch by fastforce

section \<open>What the sink has counted\<close>

definition counted :: "sink \<Rightarrow> string \<Rightarrow> direction \<Rightarrow> nat \<times> string" where
  "counted sk i d = (case map_of (sk_streams sk) (i, direction_name d) of None \<Rightarrow> (0, []) | Some v \<Rightarrow> v)"

lemma direction_name_eq [simp]: "direction_name d = direction_name d' \<longleftrightarrow> d = d'"
  by (simp add: direction_name_def split: direction.split)

lemma counted_bytes: "counted (count_bytes i (direction_name d) bytes sk) j d' =
    (if j = i \<and> d' = d then (fst (counted sk i d) + length bytes, snd (counted sk i d) @ bytes) else counted sk j d')"
  by (simp add: counted_def count_bytes_def Let_def)

lemma observed_streams [simp]: "sk_streams (observed ob sk) = sk_streams sk"
  by (simp add: observed_def)

lemma on_data_streams: "on_data W publish i n direction bytes sk = (r, receipt, sk') \<Longrightarrow> sk_streams sk' = sk_streams (count_bytes i direction bytes sk)"
  by (erule on_data_cases) auto

definition is_data :: "capture_event \<Rightarrow> bool" where
  "is_data event = (case event of DataEvent _ _ _ _ _ _ \<Rightarrow> True | _ \<Rightarrow> False)"

lemma is_data_simps [simp]: "is_data (DataEvent k i n d m bytes)" "\<not> is_data (ConnectionEvent k i n fd bd fp bp)"
  "\<not> is_data (LifecycleEvent k i n kind x y)" "\<not> is_data (GapEvent k i n reason fatal)"
  by (simp_all add: is_data_def)

lemma callback_streams:
  assumes "\<not> is_data event"
  shows "sk_streams (snd (metadata_capture W leases publish event sk)) = sk_streams sk"
  using assms by (cases event)
    (auto simp: metadata_capture_def on_connect_def on_lifecycle_def on_gap_def Let_def split: prod.split option.split)

section \<open>The invariant\<close>

definition counted_ok :: "('g, sink) relay \<Rightarrow> bool" where
  "counted_ok s = (0 \<le> rl_epoch s
     \<and> (\<forall>key \<in> fst ` set (sk_streams (rl_sink s)). named (rl_epoch s) (fst key))
     \<and> (\<forall>i l. map_of (rl_links s) i = Some l \<longrightarrow> named (rl_epoch s) i
          \<and> (\<not> rl_failed s \<longrightarrow> (\<forall>d. counted (rl_sink s) i d = (length (link_written d l), link_written d l)))))"

text \<open>A relay that has changed in nothing the invariant looks at.\<close>

definition weaker :: "('g, sink) relay \<Rightarrow> ('g, sink) relay \<Rightarrow> bool" where
  "weaker s s' = (rl_epoch s \<le> rl_epoch s' \<and> sk_streams (rl_sink s') = sk_streams (rl_sink s) \<and> (rl_failed s \<longrightarrow> rl_failed s')
     \<and> (\<forall>i l'. map_of (rl_links s') i = Some l' \<longrightarrow>
          (\<exists>l :: 'g link. map_of (rl_links s) i = Some l \<and> (\<forall>d. link_written d l' = link_written d l))))"

lemma weaker_refl [simp]: "weaker s s"
  by (simp add: weaker_def)

lemma weaker_trans:
  assumes "weaker s s1" and "weaker s1 s2"
  shows "weaker s s2"
proof -
  have "\<exists>l :: 'a link. map_of (rl_links s) i = Some l \<and> (\<forall>d. link_written d l' = link_written d l)"
    if "map_of (rl_links s2) i = Some l'" for i and l' :: "'a link"
  proof -
    from assms(2) that obtain l1 :: "'a link" where 1: "map_of (rl_links s1) i = Some l1" "\<forall>d. link_written d l' = link_written d l1"
      unfolding weaker_def by blast
    from assms(1) 1(1) obtain l :: "'a link" where "map_of (rl_links s) i = Some l" "\<forall>d. link_written d l1 = link_written d l"
      unfolding weaker_def by blast
    with 1(2) show ?thesis by simp
  qed
  with assms show ?thesis by (simp add: weaker_def)
qed

lemma weaker_put:
  assumes "weaker s s1" and "map_of (rl_links s) i = Some l" and "\<And>d. link_written d l' = link_written d l"
  shows "weaker s (put_link i l' s1)"
  using assms by (auto simp: weaker_def)

lemma weaker_drop: "weaker s s1 \<Longrightarrow> weaker s (drop_link i s1)"
  by (auto simp: weaker_def)

lemma weaker_same [simp]: "weaker s (leave probe s1) = weaker s s1" "weaker s (s1\<lparr>rl_waiting := w\<rparr>) = weaker s s1" "weaker s (closed_client s1) = weaker s s1"
  by (simp_all add: weaker_def leave_def closed_client_def)

lemma weaker_ok:
  assumes ok: "counted_ok s" and w: "weaker s s'"
  shows "counted_ok s'"
proof -
  have epoch: "rl_epoch s \<le> rl_epoch s'" and streams: "sk_streams (rl_sink s') = sk_streams (rl_sink s)" using w by (simp_all add: weaker_def)
  have "named (rl_epoch s') i \<and> (\<not> rl_failed s' \<longrightarrow> (\<forall>d. counted (rl_sink s') i d = (length (link_written d l'), link_written d l')))"
    if l': "map_of (rl_links s') i = Some l'" for i l'
  proof -
    from w l' obtain l :: "'a link" where l: "map_of (rl_links s) i = Some l" "\<And>d. link_written d l' = link_written d l" "rl_failed s \<longrightarrow> rl_failed s'"
      unfolding weaker_def by blast
    have "named (rl_epoch s) i" "\<not> rl_failed s \<Longrightarrow> counted (rl_sink s) i d = (length (link_written d l), link_written d l)" for d
      using ok l(1) by (simp_all add: counted_ok_def)
    with l(2,3) epoch streams named_later show ?thesis by (auto simp: counted_def)
  qed
  moreover have "\<forall>key \<in> fst ` set (sk_streams (rl_sink s')). named (rl_epoch s') (fst key)"
    using ok epoch streams named_later unfolding counted_ok_def by auto
  ultimately show ?thesis using ok epoch by (simp add: counted_ok_def)
qed

lemma emit_weaker:
  assumes R: "re_capture R = metadata_capture W leases publish" and emit: "emit_event R event i n s = (r, s')"
    and e: "\<And>x. \<not> is_data (event x)"
  shows "weaker s s'"
proof -
  have event: "sk_streams (snd (metadata_capture W leases publish (event k) sk)) = sk_streams sk" for k sk
    by (rule callback_streams) (rule e)
  have gap: "sk_streams (snd (metadata_capture W leases publish (GapEvent k i n reason fatal) sk)) = sk_streams sk" for k reason fatal sk
    by (rule callback_streams) simp
  have kept: "weaker s s'" if "sk_streams (rl_sink s') = sk_streams (rl_sink s)" "rl_failed s \<longrightarrow> rl_failed s'"
    using that emit_frame [OF emit] by (simp add: weaker_def)
  from emit show ?thesis
  proof (cases rule: emit_cases)
    case dead
    with kept show ?thesis by simp
  next
    case (told u sk)
    with event [of "rl_observation s + 1" "rl_sink s"] kept show ?thesis by (simp add: R)
  next
    case (raised x sk)
    with event [of "rl_observation s + 1" "rl_sink s"] gap kept show ?thesis by (simp add: R)
  qed
qed

section \<open>Every step keeps it\<close>

lemma gap_left_weaker: "re_capture R = metadata_capture W leases publish \<Longrightarrow> weaker s (gap_left R e i n s)"
  using emit_weaker [of R W leases publish "\<lambda>seq. GapEvent seq i n ''isolated_backend_or_relay_failed'' False" i n s]
  by (cases "emit_event R (\<lambda>seq. GapEvent seq i n ''isolated_backend_or_relay_failed'' False) i n s") (simp add: gap_left_def)

lemma pump_eof_weaker:
  assumes R: "re_capture R = metadata_capture W leases publish" and l: "map_of (rl_links s) i = Some l" and w: "\<And>d. link_written d l0 = link_written d l"
  shows "weaker s (pump_eof R i d shut l0 s)"
proof -
  let ?event = "\<lambda>kind seq. LifecycleEvent seq i (ln_epoch l0) kind (Some d) (Some (link_seq d (count_event d l0)))"
  obtain r1 s1 where 1: "emit_event R (?event ''eof'') i (ln_epoch l0) s = (r1, s1)" by (cases "emit_event R (?event ''eof'') i (ln_epoch l0) s")
  obtain r2 s2 where 2: "emit_event R (?event ''half_close'') i (ln_epoch l0) s1 = (r2, s2)" by (cases "emit_event R (?event ''half_close'') i (ln_epoch l0) s1")
  have w1: "weaker s s1" by (rule emit_weaker [OF R 1]) simp
  have "weaker s1 s2" by (rule emit_weaker [OF R 2]) simp
  with w1 have w2: "weaker s s2" by (rule weaker_trans)
  show ?thesis using weaker_put [OF w1 l] weaker_put [OF w2 l] w
    by (simp add: pump_eof_def Let_def 1 [simplified] 2 [simplified] split: sum.split)
qed

lemma one_more_key: "\<forall>key \<in> K. P (fst key) \<Longrightarrow> P i \<Longrightarrow> K' = K \<or> K' = insert (i, x) K \<Longrightarrow> \<forall>key \<in> K'. P (fst key)"
  by auto

lemma pump_data_counted:
  assumes R: "re_capture R = metadata_capture W leases publish" and ok: "counted_ok s"
    and l: "map_of (rl_links s) i = Some l" and w: "\<And>d. link_written d l0 = link_written d l"
  shows "counted_ok (pump_data R i d bytes l0 s)"
proof -
  let ?l = "count_event d l0"
  let ?event = "\<lambda>seq. DataEvent seq i (ln_epoch l0) d (link_seq d ?l) bytes"
  obtain r s1 where e: "emit_event R ?event i (ln_epoch l0) s = (r, s1)" by (cases "emit_event R ?event i (ln_epoch l0) s")
  note frame = emit_frame [OF e]
  let ?counted = "sk_streams (count_bytes i (direction_name d) bytes (rl_sink s))"
  have data: "sk_streams (snd (metadata_capture W leases publish (?event k) (rl_sink s))) = ?counted" for k
    using on_data_streams [of W publish i "ln_epoch l0" "direction_name d" bytes "rl_sink s"]
    by (cases "on_data W publish i (ln_epoch l0) (direction_name d) bytes (rl_sink s)") (simp add: metadata_capture_def)
  have gap: "sk_streams (snd (metadata_capture W leases publish (GapEvent k i n reason fatal) sk)) = sk_streams sk" for k n reason fatal sk
    by (rule callback_streams) simp
  have streams: "sk_streams (rl_sink s1) = sk_streams (rl_sink s) \<and> rl_failed s1 \<and> (\<exists>x. r = Inl x)
      \<or> sk_streams (rl_sink s1) = ?counted \<and> (rl_failed s1 \<and> (\<exists>x. r = Inl x) \<or> \<not> rl_failed s \<and> r = Inr ())"
    using e
  proof (cases rule: emit_cases)
    case (told u sk)
    with data [of "rl_observation s + 1"] show ?thesis by (simp add: R)
  next
    case (raised x sk)
    with data [of "rl_observation s + 1"] gap show ?thesis by (simp add: R)
  qed simp
  have i: "named (rl_epoch s) i" and old: "\<forall>key \<in> fst ` set (sk_streams (rl_sink s)). named (rl_epoch s) (fst key)"
    using ok l by (simp_all add: counted_ok_def)
  have "fst ` set ?counted = insert (i, direction_name d) (fst ` set (sk_streams (rl_sink s)))" by (simp add: count_bytes_def Let_def)
  with streams have "fst ` set (sk_streams (rl_sink s1)) = fst ` set (sk_streams (rl_sink s))
      \<or> fst ` set (sk_streams (rl_sink s1)) = insert (i, direction_name d) (fst ` set (sk_streams (rl_sink s)))" by (elim disjE) simp_all
  note keys = one_more_key [OF old i this]
  have names: "\<And>j m. map_of (rl_links s) j = Some m \<Longrightarrow> named (rl_epoch s) j" and epoch: "0 \<le> rl_epoch s" using ok by (simp_all add: counted_ok_def)
  show ?thesis
  proof (cases r)
    case (Inl x)
    then have "rl_failed s1" using streams by auto
    then have "counted_ok (put_link i (set_pump d (Failed x) ?l) s1)" using keys names epoch l by (auto simp: counted_ok_def frame)
    then show ?thesis by (simp add: pump_data_def Let_def e [simplified] Inl)
  next
    case (Inr u)
    with streams have new: "sk_streams (rl_sink s1) = ?counted" and alive: "\<not> rl_failed s" by auto
    have old: "counted (rl_sink s) j d' = (length (link_written d' m), link_written d' m)" if "map_of (rl_links s) j = Some m" for j d' m
      using ok alive that by (simp add: counted_ok_def)
    have "counted (rl_sink s1) j d' = counted (count_bytes i (direction_name d) bytes (rl_sink s)) j d'" for j d'
      by (simp add: counted_def new)
    then have "counted_ok (put_link i (write_link d bytes ?l) s1)"
      using keys names epoch l old w by (auto simp: counted_ok_def frame counted_bytes)
    then show ?thesis by (simp add: pump_data_def Let_def e [simplified] Inr)
  qed
qed

lemma pump_turn_counted:
  assumes R: "re_capture R = metadata_capture W leases publish" and ok: "counted_ok s"
  shows "counted_ok (pump_turn R i d shut received s)"
proof (cases "map_of (rl_links s) i")
  case (Some l0)
  define l where "l = (if d = ToBackend then l0\<lparr>ln_initial := []\<rparr> else l0)"
  have l: "link_written d' l = link_written d' l0" "link_written d' (l\<lparr>ln_gates := g\<rparr>) = link_written d' l0" for d' g by (simp_all add: l_def)
  note keeps = ok weaker_ok [OF ok pump_eof_weaker [OF R Some l(1)], of d shut]
    pump_data_counted [OF R ok Some l(1), of d] pump_data_counted [OF R ok Some l(2), of d] weaker_ok [OF ok weaker_put [OF weaker_refl Some]]
  show ?thesis using pump_turn_cases [OF Some l_def, of R shut received] keeps l by (elim disjE exE conjE) simp_all
qed (simp add: pump_turn_def ok)

lemma connect_counted:
  assumes R: "re_capture R = metadata_capture W leases publish" and ok: "counted_ok s0" and nonce: "length nonce = 12"
  shows "counted_ok (connect_client R ffd bfd fpeer bpeer nonce first s0)"
proof -
  let ?n = "rl_epoch s0 + 1" and ?i = "connection_name (rl_epoch s0 + 1) nonce"
  let ?event = "\<lambda>seq. ConnectionEvent seq ?i ?n ffd bfd fpeer bpeer"
  obtain r s1 where e: "emit_event R ?event ?i ?n (s0\<lparr>rl_epoch := ?n\<rparr>) = (r, s1)" by (cases "emit_event R ?event ?i ?n (s0\<lparr>rl_epoch := ?n\<rparr>)")
  have "weaker (s0\<lparr>rl_epoch := ?n\<rparr>) s1" by (rule emit_weaker [OF R e]) simp
  moreover have "weaker s0 (s0\<lparr>rl_epoch := ?n\<rparr>)" by (simp add: weaker_def)
  ultimately have w: "weaker s0 s1" using weaker_trans by blast
  have 1: "counted_ok s1" by (rule weaker_ok [OF ok w])
  have epoch: "rl_epoch s1 = ?n" and links: "rl_links s1 = rl_links s0" using emit_frame [OF e] by simp_all
  have pos: "0 < ?n" using ok by (simp add: counted_ok_def)
  have "\<not> named (rl_epoch s0) ?i" using not_named [OF pos nonce] by simp
  then have "(?i, direction_name d) \<notin> fst ` set (sk_streams (rl_sink s0))" for d using ok by (force simp: counted_ok_def)
  then have "map_of (sk_streams (rl_sink s1)) (?i, direction_name d) = None" for d using w by (simp add: weaker_def map_of_eq_None_iff)
  then have fresh: "counted (rl_sink s1) ?i d = (0, [])" for d by (simp add: counted_def)
  have "named ?n ?i" unfolding named_def using pos nonce by blast
  then have "counted_ok (put_link ?i (new_link ?n g first) (s1\<lparr>rl_waiting := rl_waiting s1 - 1\<rparr>))" for g
    using 1 fresh by (simp add: counted_ok_def epoch)
  moreover have "counted_ok (gap_left R x ?i ?n s1)" for x by (rule weaker_ok [OF 1 gap_left_weaker [OF R]])
  moreover have "counted_ok (leave p s2) = counted_ok s2" for p and s2 :: "('a, sink) relay" by (simp add: counted_ok_def leave_def)
  ultimately show ?thesis using 1 by (simp add: connect_client_def Let_def e [simplified] split: sum.split)
qed

lemma start_counted:
  assumes R: "re_capture R = metadata_capture W leases publish" and ok: "counted_ok s" and nonce: "length nonce = 12"
  shows "counted_ok (start_client R ffd fpeer first backend nonce s)"
proof -
  have "counted_ok (leave p s)" "counted_ok (start_failed R e s)" for p e
    by (rule weaker_ok [OF ok], simp add: start_failed_def gap_left_weaker [OF R])+
  then show ?thesis using connect_counted [OF R ok nonce] by (simp add: start_client_def split: sum.split prod.split)
qed

lemma finish_weaker:
  assumes R: "re_capture R = metadata_capture W leases publish"
  shows "weaker s (finish_client R i s)"
proof (cases "map_of (rl_links s) i")
  case (Some l)
  let ?event = "\<lambda>seq. LifecycleEvent seq i (ln_epoch l) ''disconnect'' None None"
  obtain r s1 where e: "emit_event R ?event i (ln_epoch l) s = (r, s1)" by (cases "emit_event R ?event i (ln_epoch l) s")
  have "weaker s s1" by (rule emit_weaker [OF R e]) simp
  from weaker_drop [OF this] show ?thesis by (simp add: finish_client_def Some e weaker_drop)
qed (simp add: finish_client_def)

lemma step_counted:
  assumes "relay_step R s s'" and R: "re_capture R = metadata_capture W leases publish" and ok: "counted_ok s"
  shows "counted_ok s'"
  using assms(1)
proof cases
  case accepted
  show ?thesis unfolding accepted by (rule weaker_ok [OF ok]) (simp add: accept_def)
next
  case started
  with start_counted [OF R ok] show ?thesis by simp
next
  case refused
  show ?thesis unfolding refused by (rule weaker_ok [OF ok]) simp
next
  case turned
  with pump_turn_counted [OF R ok] show ?thesis by simp
next
  case (broken i d)
  have "weaker s (pump_lost i d s)" using weaker_put [of s s i] by (simp add: pump_lost_def split: option.split)
  from weaker_ok [OF ok this] broken show ?thesis by simp
next
  case finished
  with weaker_ok [OF ok finish_weaker [OF R]] show ?thesis by simp
next
  case (cancelled i)
  have "weaker s (cancel_client i s)" by (simp add: cancel_client_def weaker_drop split: option.split)
  from weaker_ok [OF ok this] cancelled show ?thesis by simp
next
  case closed
  show ?thesis unfolding closed by (rule weaker_ok [OF ok]) simp
qed

section \<open>Properties\<close>

definition sink_relay :: "(unit, sink) relay_env" where
  "sink_relay = \<lparr>re_stop = True, re_wait = True, re_authorize = Some (\<lambda>p. Inr (pe_uid p = Some 501)), re_max = 64,
     re_factory = (\<lambda>f b i n. Inr None), re_gate = (\<lambda>d data g. (Inr data, g)),
     re_capture = metadata_capture sink_wire (\<lambda>f b. Some sink_lease) (Some (\<lambda>_. Inr ()))\<rparr>"

definition relay_sink :: sink where
  "relay_sink = (case new_sink 65536 1048576 2097152 9 of Inr sk \<Rightarrow> sk | Inl _ \<Rightarrow> sink_start 9)"

definition sink_relay_said :: "(unit, sink) relay" where
  "sink_relay_said = pump_turn sink_relay ''conn-1-0123456789ab'' ToBackend True []
     (start_client sink_relay 3 relay_peer (Inr ''GE'') (Inr (4, relay_peer, None)) ''0123456789ab''
       (accept sink_relay (new_relay relay_sink)))"

lemma sink_relay_run: "relay_run sink_relay relay_sink sink_relay_said"
proof -
  let ?s = "new_relay relay_sink :: (unit, sink) relay"
  let ?s1 = "accept sink_relay ?s"
  have "relay_step sink_relay ?s ?s1" by (rule relay_step.accepted)
  moreover have "relay_step sink_relay ?s1 (start_client sink_relay 3 relay_peer (Inr ''GE'') (Inr (4, relay_peer, None)) ''0123456789ab'' ?s1)"
    by (rule relay_step.started) (simp_all add: accept_def new_relay_def active_frontends_def sink_relay_def)
  moreover have "relay_step sink_relay (start_client sink_relay 3 relay_peer (Inr ''GE'') (Inr (4, relay_peer, None)) ''0123456789ab'' ?s1) sink_relay_said"
    unfolding sink_relay_said_def by (rule relay_step.turned)
  ultimately show ?thesis unfolding relay_run_def by (meson r_into_rtranclp rtranclp.rtrancl_into_rtrancl)
qed

lemma sink_relay_link: "\<not> rl_failed sink_relay_said
    \<and> map_option (link_written ToBackend) (map_of (rl_links sink_relay_said) ''conn-1-0123456789ab'') = Some ''GE''"
  by code_simp

lemma sink_relay_new: "new_sink 65536 1048576 2097152 9 = Inr relay_sink"
  by (simp add: relay_sink_def new_sink_def make_observer_def)

lemma sink_relay_capture: "re_capture sink_relay = metadata_capture sink_wire (\<lambda>f b. Some sink_lease) (Some (\<lambda>_. Inr ()))"
  by (simp add: sink_relay_def)

text \<open>
  C19. The relay drives its metadata sink only as the sink may be driven: whatever the frontends, the
  backends and the gates do, the sink of a relay is at every moment the end of a run of the sink, so that what
  is shown of such runs holds of the running service, and it has seen no epoch the relay has not given out.
\<close>

theorem relay_runs_its_sink:
  assumes "relay_run R sk s" and "re_capture R = metadata_capture W leases publish" and "new_sink a b c d = Inr sk"
  shows "(\<exists>given. sink_run W given (rl_sink s)) \<and> ob_max_epoch (sk_observer (rl_sink s)) \<le> rl_epoch s"
proof -
  from assms(3) obtain ob where "make_observer a b c d JNull = Inr ob" "sk_observer sk = ob" by (auto simp: new_sink_def andThen_def split: sum.splits)
  moreover from this(1) have "ob_max_epoch ob = 0" by (auto simp: make_observer_def split: if_splits)
  ultimately have "ob_max_epoch (sk_observer sk) = 0" by simp
  then have "sink_at W 0 sk" using sink_run_new [OF assms(3)] unfolding sink_at_def by auto
  from relayed_sink.run_served [OF assms(1,2) this] show ?thesis by (simp add: sink_at_def)
qed

theorem relay_runs_its_sink_witness: "\<exists>given. sink_run sink_wire given (rl_sink sink_relay_said)"
  using relay_runs_its_sink [OF sink_relay_run sink_relay_capture sink_relay_new] by blast

text \<open>
  C20. The byte counts and the hashes that the sink reports are those of the wire: as long as the capture
  has not failed, what the sink has counted and hashed for a live connection and a direction is exactly what
  the relay has written to that side, nothing when it has written nothing; the names of the connections
  keep their streams apart.
\<close>

theorem sink_counts_what_is_written:
  assumes "relay_run R sk s" and "re_capture R = metadata_capture W leases publish" and "new_sink a b c e = Inr sk"
    and "map_of (rl_links s) i = Some l" and "\<not> rl_failed s"
  shows "(case map_of (sk_streams (rl_sink s)) (i, direction_name d) of None \<Rightarrow> (0, []) | Some v \<Rightarrow> v)
    = (length (link_written d l), link_written d l)"
proof -
  have "sk_streams sk = []" using assms(3) by (auto simp: new_sink_def andThen_def split: sum.splits)
  with assms(1) have "counted_ok s" unfolding relay_run_def
  proof (induction rule: rtranclp_induct)
    case base
    then show ?case by (simp add: counted_ok_def new_relay_def)
  next
    case (step s1 s2)
    from step_counted [OF step.hyps(2) assms(2) step.IH [OF step.prems]] show ?case .
  qed
  with assms(4,5) show ?thesis by (simp add: counted_ok_def counted_def)
qed

theorem sink_counts_what_is_written_witness:
  "(case map_of (sk_streams (rl_sink sink_relay_said)) (''conn-1-0123456789ab'', direction_name ToBackend) of None \<Rightarrow> (0, []) | Some v \<Rightarrow> v)
     = (2, ''GE'')"
proof -
  obtain l where "map_of (rl_links sink_relay_said) ''conn-1-0123456789ab'' = Some l" "link_written ToBackend l = ''GE''" "\<not> rl_failed sink_relay_said"
    using sink_relay_link by auto
  with sink_counts_what_is_written [OF sink_relay_run sink_relay_capture sink_relay_new this(1,3), of ToBackend] show ?thesis by simp
qed

end
