(* ===== verification/PolicyFiles.thy ===== *)
theory PolicyFiles
  imports ControlPlane Observer Relay WireChain
begin

text \<open>
  The policy files of the activation service (\<open>runtime/native/activation_service.py\<close>): canonical paths,
  pinned digests, owner-only directories and documents, the identity of processes, and the checks of
  the frozen policy made before anything is started. The operating system is an argument.
\<close>

section \<open>The operating system\<close>

text \<open>
  What \<open>lstat\<close> and \<open>fstat\<close> tell. \<open>st_mode\<close> is the kind and the permission bits together; the record is
  \<open>_file_identity\<close> itself, which holds all of it.
\<close>

record node =
  nd_dev :: int
  nd_ino :: int
  nd_uid :: int
  nd_kind :: file_kind
  nd_perm :: nat
  nd_size :: nat
  nd_mtime :: int
  nd_ctime :: int

type_synonym dir_identity = "int \<times> int \<times> int \<times> file_kind \<times> nat"

definition file_identity :: "node \<Rightarrow> node" where
  "file_identity n = n"

text \<open>\<open>(st_dev, st_ino, st_uid, st_mode)\<close>.\<close>

definition node_identity :: "node \<Rightarrow> dir_identity" where
  "node_identity n = (nd_dev n, nd_ino n, nd_uid n, nd_kind n, nd_perm n)"

text \<open>
  \<open>sy_open\<close> opens with \<open>O_NOFOLLOW\<close>, and gives \<open>fstat\<close> before, all bytes read, and \<open>fstat\<close> after. \<open>sy_process\<close> is
  \<open>_process_metadata\<close>, \<open>sy_kill\<close> is \<open>os.kill(pid, 0)\<close>, \<open>sy_realpath\<close> is \<open>os.path.realpath\<close>, which does not raise.
\<close>

record system =
  sy_resolve :: "string \<Rightarrow> string result"
  sy_realpath :: "string \<Rightarrow> string"
  sy_symlink :: "string \<Rightarrow> bool"
  sy_lstat :: "string \<Rightarrow> node result"
  sy_open :: "string \<Rightarrow> (node \<times> string \<times> node) result"
  sy_process :: "int option \<Rightarrow> string option \<times> string option"
  sy_kill :: "int \<Rightarrow> unit result"

section \<open>Paths\<close>

text \<open>\<open>(path, *path.parents)\<close>.\<close>

fun path_ups :: "string \<Rightarrow> string list \<Rightarrow> string list" where
  "path_ups anchor [] = [path_text anchor []]"
| "path_ups anchor (c # cs) = path_text anchor (rev (c # cs)) # path_ups anchor cs"

definition path_and_parents :: "string \<Rightarrow> string list" where
  "path_and_parents p = path_ups (path_anchor p) (rev (path_parts p))"

text \<open>
  \<open>_canonical_path\<close>. An absolute path differs from its \<open>os.path.abspath\<close> exactly when it has a component
  \<open>..\<close>, since a \<open>Path\<close> has no other redundancy.
\<close>

definition canonical_path :: "system \<Rightarrow> string \<Rightarrow> unit result" where
  "canonical_path Y p =
     ensure (is_absolute p \<and> ''..'' \<notin> set (path_parts p)) (value_error ''policy path must be absolute without aliases or symlinks'')
    (andThen (sy_resolve Y p) (\<lambda>r.
     ensure (r = p) (value_error ''policy path must be absolute without aliases or symlinks'')
    (ensure (\<not> list_ex (sy_symlink Y) (path_and_parents p)) (value_error ''symlink policy component is forbidden'')
    (Inr ()))))"

section \<open>Files and directories\<close>

text \<open>\<open>_sha\<close>.\<close>

definition pinned_sha :: "platform \<Rightarrow> system \<Rightarrow> string \<Rightarrow> string result" where
  "pinned_sha E Y p =
     andThen (canonical_path Y p) (\<lambda>_.
     andThen (sy_open Y p) (\<lambda>(st, bytes, st').
     ensure (nd_kind st = KRegular) (value_error ''pin is not a regular file'')
    (ensure (file_identity st = file_identity st' \<and> length bytes = nd_size st) (value_error ''pinned file changed while hashing'')
    (Inr (p_sha256 E bytes)))))"

text \<open>No permission for anybody but the owner: \<open>st_mode & 0o077 == 0\<close>.\<close>

definition owner_only :: "nat \<Rightarrow> bool" where
  "owner_only perm = (perm mod 64 = 0)"

definition private_directory :: "platform \<Rightarrow> system \<Rightarrow> string \<Rightarrow> dir_identity result" where
  "private_directory E Y p =
     andThen (canonical_path Y p) (\<lambda>_.
     andThen (sy_lstat Y p) (\<lambda>st.
     ensure (nd_kind st = KDirectory \<and> nd_uid st = p_uid E \<and> owner_only (nd_perm st))
       (value_error ''expected an existing owner-only real directory'') (Inr (node_identity st))))"

text \<open>The document and its digest; one byte more than the limit is read.\<close>

definition private_json :: "platform \<Rightarrow> system \<Rightarrow> string \<Rightarrow> (jdict \<times> string) result" where
  "private_json E Y p =
     andThen (canonical_path Y p) (\<lambda>_.
     andThen (sy_open Y p) (\<lambda>(st, bytes, st').
     ensure (nd_kind st = KRegular \<and> nd_uid st = p_uid E \<and> owner_only (nd_perm st) \<and> nd_size st \<le> 1048576)
       (value_error ''expected a bounded owner-only policy file'')
    (let data = take 1048577 bytes in
     ensure (file_identity st = file_identity st' \<and> length data = nd_size st) (value_error ''policy changed while reading'')
    (andThen (loads E (Raised ''JSONDecodeError'' []) data) (\<lambda>v.
     ensure (is_obj v) (value_error ''policy must be an object'') (Inr (obj_of v, p_sha256 E data)))))))"

section \<open>Processes\<close>

definition same_process :: "platform \<Rightarrow> system \<Rightarrow> json \<Rightarrow> json \<Rightarrow> string \<Rightarrow> peer \<Rightarrow> bool" where
  "same_process E Y pid birth executable p =
    (case (pe_pid p, pe_uid p, pe_birth p, pe_executable p) of
       (Some i, Some u, Some b, Some x) \<Rightarrow>
         py_eq pid (JInt i) \<and> u = p_uid E \<and> birth = JStr b \<and> x \<noteq> [] \<and> sy_realpath Y x = sy_realpath Y executable
     | _ \<Rightarrow> False)"

text \<open>\<open>_original_process_gone\<close>; birth and executable are text.\<close>

definition original_process_gone :: "system \<Rightarrow> json \<Rightarrow> json \<Rightarrow> json \<Rightarrow> bool result" where
  "original_process_gone Y pid birth executable =
    (case (sy_process Y (Some (int_of pid))) of (b, x) \<Rightarrow>
     let unknown = value_error ''original process state unknown''; shown = (\<lambda>t. t \<noteq> None \<and> t \<noteq> Some []) in
     ensure (is_int pid \<and> 0 < int_of pid \<and> truthy birth \<and> truthy executable) (value_error ''original identity incomplete'')
    (if shown b \<and> shown x then Inr (birth \<noteq> JStr (the b))
     else if b = None \<and> x = None then
       (case sy_kill Y (int_of pid) of
          Inr _ \<Rightarrow> Inl unknown
        | Inl e \<Rightarrow> if exn_class e = ''ProcessLookupError'' then Inr True
            else if exn_class e = ''PermissionError'' then Inl unknown else Inl e)
     else Inl unknown))"

section \<open>The frozen policy\<close>

record profile_context =
  cx_profile :: string
  cx_home :: string
  cx_codex_home :: string
  cx_workspace :: string
  cx_backend_socket :: string
  cx_executable_sha256 :: string

record policy =
  po_contexts :: "(string \<times> profile_context) list"
  po_directory_pins :: "(string \<times> dir_identity) list"
  po_config_pins :: "(string \<times> string) list"
  po_file_pins :: "(string \<times> string) list"
  po_executable :: string
  po_executable_sha256 :: string
  po_isolation :: string
  po_isolation_sha256 :: string
  po_helper_pins :: jdict
  po_state_dir :: string
  po_grants_dir :: string
  po_activation_id :: string
  po_manifest_sha256 :: string
  po_service :: jdict
  po_tui_policy :: bool

definition check_pins :: "platform \<Rightarrow> system \<Rightarrow> policy \<Rightarrow> unit result" where
  "check_pins E Y P =
     andThen (pinned_sha E Y (po_executable P)) (\<lambda>h.
     ensure (h = po_executable_sha256 P) (value_error ''backend executable changed'')
    (for_each (\<lambda>(p, expected). andThen (pinned_sha E Y p) (\<lambda>h.
       ensure (h = expected) (value_error ''backend implementation changed'') (Inr ()))) (po_file_pins P)))"

definition check_roots :: "platform \<Rightarrow> system \<Rightarrow> policy \<Rightarrow> unit result" where
  "check_roots E Y P = for_each (\<lambda>(p, pinned). andThen (private_directory E Y p) (\<lambda>i.
     ensure (i = pinned) (value_error ''activation directory identity changed'') (Inr ()))) (po_directory_pins P)"

definition check_runtime_policy :: "platform \<Rightarrow> system \<Rightarrow> policy \<Rightarrow> unit result" where
  "check_runtime_policy E Y P =
     andThen (check_roots E Y P) (\<lambda>_.
     andThen (private_json E Y (po_isolation P)) (\<lambda>(_, h).
     ensure (h = po_isolation_sha256 P) (value_error ''isolation manifest changed after admission'')
    (andThen (for_each (\<lambda>(p, pinned). andThen (pinned_sha E Y p) (\<lambda>h.
       ensure (h = pinned) (value_error ''isolated profile configuration changed'') (Inr ()))) (po_config_pins P)) (\<lambda>_.
     check_pins E Y P))))"

text \<open>\<open>_owner_context_sha\<close>; a pin that is there is not empty.\<close>

definition config_path :: "profile_context \<Rightarrow> string" where
  "config_path x = cx_codex_home x @ ''/config.toml''"

definition owner_context_sha :: "platform \<Rightarrow> system \<Rightarrow> policy \<Rightarrow> profile_context \<Rightarrow> string result" where
  "owner_context_sha E Y P x =
     andThen (case map_of (po_config_pins P) (config_path x) of Some h \<Rightarrow> Inr h | None \<Rightarrow> pinned_sha E Y (config_path x)) (\<lambda>config.
     Inr (p_sha256 E (dumps True True E (JObj
       [(''profile_id'', JStr (cx_profile x)), (''home'', JStr (cx_home x)), (''codex_home'', JStr (cx_codex_home x)),
        (''workspace'', JStr (cx_workspace x)), (''backend_socket'', JStr (cx_backend_socket x)), (''config_sha256'', JStr config),
        (''expected_executable_sha256'', JStr (cx_executable_sha256 x))]))))"

text \<open>\<open>native_tui_policy\<close>: nothing, or exactly the one policy there is.\<close>

definition native_tui_policy :: "json \<Rightarrow> bool result" where
  "native_tui_policy v =
    (if v = JNull then Inr False
     else ensure (is_obj v \<and> keys_exact (obj_of v) [''version'', ''resume_owned_thread'', ''initial_history_discovery'']
         \<and> dget (obj_of v) ''version'' = JInt 1 \<and> dget (obj_of v) ''resume_owned_thread'' = JBool True
         \<and> dget (obj_of v) ''initial_history_discovery'' = JBool True)
       (value_error ''invalid native TUI policy'') (Inr True))"

end
