(* ===== verification/Admission.thy ===== *)
theory Admission
  imports PolicyFiles RelaySink OwnerSession
begin

text \<open>
  The admission of frontends and helpers and the leases of the activation service
  (\<open>_admit\<close>, \<open>_helper_admission\<close>, \<open>_publish_ready\<close>, \<open>_backend\<close>, \<open>_leased_helper\<close>, \<open>_leased_backend\<close> in
  \<open>runtime/native/activation_service.py\<close>). What the service keeps of a backend is a dictionary, as in the
  code; the operating system and the start of processes are arguments.
\<close>

section \<open>The state\<close>

type_synonym process_key = "int option \<times> string option \<times> string option"

definition peer_key :: "peer \<Rightarrow> process_key" where
  "peer_key p = (pe_pid p, pe_birth p, pe_executable p)"

text \<open>
  \<open>sv_closing\<close> are the leases whose backend is being released: the owner lease is gone, the admissions of
  its helpers are not yet (\<open>await owner_lease.close()\<close>); \<open>sv_over\<close> are those whose admissions are gone.
\<close>

record service =
  sv_records :: "jdict list"
  sv_leases :: "(string \<times> owner_lease) list"
  sv_admissions :: "(process_key \<times> json \<times> string) list"
  sv_helpers :: "(process_key \<times> jdict \<times> string) list"
  sv_rows :: "jdict list"
  sv_closing :: "string list"
  sv_over :: "string list"

definition new_service :: service where
  "new_service = \<lparr>sv_records = [], sv_leases = [], sv_admissions = [], sv_helpers = [], sv_rows = [], sv_closing = [], sv_over = []\<rparr>"

definition int_json :: "int option \<Rightarrow> json" where
  "int_json x = (case x of None \<Rightarrow> JNull | Some i \<Rightarrow> JInt i)"

definition str_json :: "string option \<Rightarrow> json" where
  "str_json x = (case x of None \<Rightarrow> JNull | Some t \<Rightarrow> JStr t)"

definition identity_json :: "dir_identity \<Rightarrow> json" where
  "identity_json i = (case i of (dev, ino, uid, kind, perm) \<Rightarrow>
     JArr [JInt dev, JInt ino, JInt uid, JInt ((case kind of KRegular \<Rightarrow> 32768 | KDirectory \<Rightarrow> 16384 | KSymlink \<Rightarrow> 40960 | KSocket \<Rightarrow> 49152 | KOther \<Rightarrow> 4096) + int perm)])"

text \<open>\<open>_record_for_lease\<close>: the first record of the lease.\<close>

definition record_for_lease :: "json \<Rightarrow> service \<Rightarrow> jdict option" where
  "record_for_lease lease sv = find (\<lambda>r. py_eq (dget r ''lease_id'') lease) (sv_records sv)"

text \<open>An update of the record of a lease.\<close>

definition update_record :: "string \<Rightarrow> (jdict \<Rightarrow> jdict) \<Rightarrow> service \<Rightarrow> service" where
  "update_record lease f sv = sv\<lparr>sv_records := map (\<lambda>r. if dget r ''lease_id'' = JStr lease then f r else r) (sv_records sv)\<rparr>"

definition dict_put :: "(string \<times> json) list \<Rightarrow> jdict \<Rightarrow> jdict" where
  "dict_put kvs d = fold (\<lambda>(k, v) d. dict_set k v d) kvs d"

section \<open>Diagnostics\<close>

definition max_diagnostics :: nat where
  "max_diagnostics = 64"

definition diagnose :: "peer \<Rightarrow> string \<Rightarrow> bool \<Rightarrow> exn option \<Rightarrow> service \<Rightarrow> service" where
  "diagnose p reason accepted e sv =
    (if length (sv_rows sv) < max_diagnostics
     then sv\<lparr>sv_rows := sv_rows sv @ [[(''frontend_pid'', int_json (pe_pid p)), (''reason'', JStr reason), (''accepted'', JBool accepted),
            (''failure_type'', case e of None \<Rightarrow> JNull | Some x \<Rightarrow> JStr (exn_class x))]]\<rparr>
     else sv)"

section \<open>The admission of a helper\<close>

definition required_grant :: "string list" where
  "required_grant = [''version'', ''role'', ''profile_id'', ''owner_context_sha256'', ''lease_id'', ''owner_connection_id'',
     ''owner_epoch'', ''owner_thread_id'', ''private_socket'', ''helper_pid'', ''helper_uid'', ''helper_birth'',
     ''helper_executable'', ''helper_executable_sha256'', ''helper_source_sha256'']"

text \<open>
  A check ends with a reason, with an exception that leaves the function, or goes on. \<open>refuse_unless\<close> is
  \<open>if ...: return self._admission_diagnostic(peer, reason)\<close>.
\<close>

datatype refusal = Because string "exn option" | Escaped exn

definition refuse_unless :: "bool \<Rightarrow> string \<Rightarrow> refusal + 'a \<Rightarrow> refusal + 'a" where
  "refuse_unless ok reason k = (if ok then k else Inl (Because reason None))"

definition admission_errors :: "string list" where
  "admission_errors = [''OSError'', ''FileNotFoundError'', ''ProcessLookupError'', ''PermissionError'', ''ValueError'', ''JSONDecodeError'',
     ''UnicodeDecodeError'', ''OwnerHelperAdmissionError'', ''KeyError'', ''TypeError'']"

text \<open>A call inside \<open>try\<close>: a caught exception is the reason, with its type.\<close>

definition tried :: "string list \<Rightarrow> string \<Rightarrow> 'a result \<Rightarrow> ('a \<Rightarrow> refusal + 'b) \<Rightarrow> refusal + 'b" where
  "tried classes reason m k = (case m of
      Inl e \<Rightarrow> Inl (if exn_class e \<in> set classes then Because reason (Some e) else Escaped e)
    | Inr x \<Rightarrow> k x)"

text \<open>A call outside of any \<open>try\<close> of the function.\<close>

definition called :: "'a result \<Rightarrow> ('a \<Rightarrow> refusal + 'b) \<Rightarrow> refusal + 'b" where
  "called m k = (case m of Inl e \<Rightarrow> Inl (Escaped e) | Inr x \<Rightarrow> k x)"

definition pin_errors :: "string list" where
  "pin_errors = filter (\<lambda>c. c \<noteq> ''KeyError'' \<and> c \<noteq> ''TypeError'') admission_errors"

text \<open>\<open>dict.get\<close> of a key that came from outside.\<close>

definition lookup_json :: "(string \<times> 'a) list \<Rightarrow> json \<Rightarrow> 'a option result" where
  "lookup_json d key = (if \<not> hashable key then type_error else case key of JStr s \<Rightarrow> Inr (map_of d s) | _ \<Rightarrow> Inr None)"

definition socket_kind :: "system \<Rightarrow> string \<Rightarrow> path_kind" where
  "socket_kind Y p = (case sy_lstat Y p of
      Inl e \<Rightarrow> if exn_class e = ''FileNotFoundError'' then Missing else Unreadable
    | Inr n \<Rightarrow> (case nd_kind n of KSymlink \<Rightarrow> Symlink | KSocket \<Rightarrow> Socket | _ \<Rightarrow> OtherFile))"

definition helper_identity_of :: "peer \<Rightarrow> jdict \<Rightarrow> helper_identity" where
  "helper_identity_of p grant =
    \<lparr>hi_pid = int_of (int_json (pe_pid p)), hi_uid = int_of (int_json (pe_uid p)), hi_birth = str_of (str_json (pe_birth p)),
     hi_executable = str_of (str_json (pe_executable p)), hi_executable_sha256 = str_of (dget grant ''helper_executable_sha256''),
     hi_source_sha256 = str_of (dget grant ''helper_source_sha256'')\<rparr>"

definition pinned_text :: "jdict \<Rightarrow> string \<Rightarrow> bool" where
  "pinned_text pins k = (is_str (dget pins k) \<and> dget pins k \<noteq> JStr [])"

definition helper_pin_checks :: "platform \<Rightarrow> system \<Rightarrow> policy \<Rightarrow> peer \<Rightarrow> jdict \<Rightarrow> refusal + unit" where
  "helper_pin_checks E Y P p grant =
    (let pins = po_helper_pins P; source = mk_path (str_of (dget pins ''source_path'')) in
     refuse_unless (list_all (pinned_text pins) [''executable'', ''executable_sha256'', ''source_path'', ''source_sha256'']) ''helper_policy_shape''
    (refuse_unless (dget grant ''helper_executable'' = dget pins ''executable'' \<and> dget grant ''helper_source_sha256'' = dget pins ''source_sha256'')
       ''helper_policy_pin''
    (tried pin_errors ''helper_pin_check'' (canonical_path Y source) (\<lambda>_.
     tried pin_errors ''helper_pin_check'' (pinned_sha E Y source) (\<lambda>h.
     refuse_unless (JStr h = dget pins ''source_sha256'') ''helper_source_hash''
    (refuse_unless (dget grant ''helper_executable_sha256'' = dget pins ''executable_sha256'') ''helper_executable_hash''
    (tried pin_errors ''helper_pin_check'' (pinned_sha E Y (mk_path (str_of (str_json (pe_executable p))))) (\<lambda>h.
     refuse_unless (JStr h = dget pins ''executable_sha256'') ''helper_executable_hash''
    (refuse_unless (sy_process Y (pe_pid p) = (pe_birth p, pe_executable p)) ''process_changed'' (Inr ()))))))))))"

definition helper_lease_checks :: "platform \<Rightarrow> system \<Rightarrow> policy \<Rightarrow> peer \<Rightarrow> jdict \<Rightarrow> service \<Rightarrow> refusal + unit" where
  "helper_lease_checks E Y P p grant sv =
     called (lookup_json (sv_leases sv) (dget grant ''lease_id'')) (\<lambda>found.
     case (record_for_lease (dget grant ''lease_id'') sv, found) of
       (Some r, Some lease) \<Rightarrow>
         refuse_unless (dget r ''state'' = JStr ''connected'') ''helper_owner_inactive''
        (called (lookup_json (po_contexts P) (dget grant ''profile_id'')) (\<lambda>known. case known of
            None \<Rightarrow> Inl (Because ''helper_profile'' None)
          | Some x \<Rightarrow>
              refuse_unless (py_eq (dget r ''profile_id'') (dget grant ''profile_id'')) ''helper_profile''
             (called (owner_context_sha E Y P x) (\<lambda>context_sha.
              refuse_unless (dget grant ''owner_context_sha256'' = JStr context_sha) ''helper_context''
             (refuse_unless (py_eq (dget grant ''private_socket'') (dget r ''private_socket'') \<and> dget grant ''private_socket'' = JStr (ol_private_socket lease))
                ''helper_socket_path''
             (refuse_unless (py_eq (dget grant ''owner_connection_id'') (dget r ''owner_connection_id'')
                 \<and> py_eq (dget grant ''owner_epoch'') (dget r ''owner_epoch'') \<and> py_eq (dget grant ''owner_thread_id'') (dget r ''owner_thread_id''))
                ''helper_owner_binding''
             (tried admission_errors ''helper_lease_check'' (sy_lstat Y (ol_private_socket lease)) (\<lambda>st.
              refuse_unless (identity_json (node_identity st) = dget r ''private_socket_identity'') ''helper_socket_identity''
             (tried admission_errors ''helper_lease_check'' (validate_grant (socket_kind Y) lease grant (helper_identity_of p grant)) Inr)))))))))
     | _ \<Rightarrow> Inl (Because ''helper_owner_inactive'' None))"

definition helper_checks :: "platform \<Rightarrow> system \<Rightarrow> policy \<Rightarrow> peer \<Rightarrow> jdict \<Rightarrow> string \<Rightarrow> service \<Rightarrow> refusal + unit" where
  "helper_checks E Y P p grant grant_sha sv =
     refuse_unless (keys_exact grant required_grant \<and> dget grant ''version'' = JInt 1 \<and> dget grant ''role'' = JStr ''owner-helper'') ''helper_shape''
    (refuse_unless (py_eq (dget grant ''helper_pid'') (int_json (pe_pid p)) \<and> py_eq (dget grant ''helper_uid'') (int_json (pe_uid p))
       \<and> dget grant ''helper_birth'' = str_json (pe_birth p)) ''helper_process''
    (refuse_unless (dget grant ''helper_executable'' = str_json (pe_executable p) \<and> peer_complete p) ''helper_executable''
    (case helper_pin_checks E Y P p grant of Inl r \<Rightarrow> Inl r | Inr _ \<Rightarrow>
    (case helper_lease_checks E Y P p grant sv of Inl r \<Rightarrow> Inl r | Inr _ \<Rightarrow>
     refuse_unless (case map_of (sv_helpers sv) (peer_key p) of None \<Rightarrow> True | Some (_, h) \<Rightarrow> h = grant_sha) ''helper_grant_changed'' (Inr ())))))"

definition helper_admission :: "platform \<Rightarrow> system \<Rightarrow> policy \<Rightarrow> peer \<Rightarrow> jdict \<Rightarrow> string \<Rightarrow> service \<Rightarrow> bool result \<times> service" where
  "helper_admission E Y P p grant grant_sha sv =
    (case helper_checks E Y P p grant grant_sha sv of
       Inl (Because reason e) \<Rightarrow> (Inr False, diagnose p reason False e sv)
     | Inl (Escaped e) \<Rightarrow> (Inl e, sv)
     | Inr _ \<Rightarrow> (Inr True, diagnose p ''helper_admitted'' True None (sv\<lparr>sv_helpers := dict_set (peer_key p) (grant, grant_sha) (sv_helpers sv)\<rparr>)))"

section \<open>Admission\<close>

definition grant_path :: "policy \<Rightarrow> int option \<Rightarrow> string" where
  "grant_path P pid = po_grants_dir P @ ''/'' @ (case pid of None \<Rightarrow> ''None'' | Some i \<Rightarrow> show_int i) @ ''.json''"

text \<open>The grant of an owner; the conjunction is evaluated from the left.\<close>

definition owner_allowed :: "platform \<Rightarrow> system \<Rightarrow> policy \<Rightarrow> peer \<Rightarrow> jdict \<Rightarrow> bool result" where
  "owner_allowed E Y P p grant =
    (if \<not> (py_eq (dget grant ''version'') (JInt 1) \<and> py_eq (dget grant ''pid'') (int_json (pe_pid p)) \<and> py_eq (dget grant ''uid'') (int_json (pe_uid p))
         \<and> dget grant ''birth'' = str_json (pe_birth p) \<and> dget grant ''expected_executable'' = str_json (pe_executable p)) then Inr False
     else andThen (pinned_sha E Y (mk_path (str_of (str_json (pe_executable p))))) (\<lambda>h.
     if dget grant ''executable_sha256'' \<noteq> JStr h then Inr False
     else andThen (lookup_json (po_contexts P) (dget grant ''profile_id'')) (\<lambda>known. Inr (known \<noteq> None))))"

text \<open>The handler of \<open>_admit\<close>: what it catches becomes a diagnostic of the stage.\<close>

definition at_stage :: "peer \<Rightarrow> string \<Rightarrow> exn \<Rightarrow> service \<Rightarrow> bool result \<times> service" where
  "at_stage p stage e sv = (if exn_class e \<in> set admission_errors then (Inr False, diagnose p stage False (Some e) sv) else (Inl e, sv))"

definition owner_admission :: "platform \<Rightarrow> system \<Rightarrow> policy \<Rightarrow> peer \<Rightarrow> jdict \<Rightarrow> string \<Rightarrow> service \<Rightarrow> bool result \<times> service" where
  "owner_admission E Y P p grant digest sv =
    (case owner_allowed E Y P p grant of
       Inl e \<Rightarrow> at_stage p ''owner_grant_check'' e sv
     | Inr ok \<Rightarrow>
         if \<not> ok then (Inr False, diagnose p ''owner_grant'' False None sv)
         else (case map_of (sv_admissions sv) (peer_key p) of
             None \<Rightarrow> (Inr True, sv\<lparr>sv_admissions := dict_set (peer_key p) (dget grant ''profile_id'', digest) (sv_admissions sv)\<rparr>)
           | Some previous \<Rightarrow> (Inr (previous = (dget grant ''profile_id'', digest)), sv)))"

definition admit :: "platform \<Rightarrow> system \<Rightarrow> policy \<Rightarrow> peer \<Rightarrow> service \<Rightarrow> bool result \<times> service" where
  "admit E Y P p sv =
    (if \<not> (peer_complete p \<and> pe_uid p = Some (p_uid E)) then (Inr False, diagnose p ''peer_incomplete_or_uid'' False None sv)
     else case check_roots E Y P of
       Inl e \<Rightarrow> at_stage p ''roots'' e sv
     | Inr _ \<Rightarrow>
         if sy_process Y (pe_pid p) \<noteq> (pe_birth p, pe_executable p) then (Inr False, diagnose p ''process_changed'' False None sv)
         else case private_json E Y (grant_path P (pe_pid p)) of
           Inl e \<Rightarrow> at_stage p ''grant_read'' e sv
         | Inr (grant, digest) \<Rightarrow>
             if dget grant ''role'' = JStr ''owner-helper'' then
               (case helper_admission E Y P p grant digest sv of
                  (Inl e, sv1) \<Rightarrow> at_stage p ''helper_admission'' e sv1
                | (Inr ok, sv1) \<Rightarrow> (Inr ok, sv1))
             else owner_admission E Y P p grant digest sv)"

section \<open>The ready receipt and the lease\<close>

text \<open>
  \<open>_publish_ready\<close>: \<open>published\<close> is the answer of \<open>_publish_receipt\<close>. The record is updated before the lease is
  made, the lease is entered after the receipt is out.
\<close>

definition lease_record_keys :: "string list" where
  "lease_record_keys = [''private_socket'', ''pid'', ''birth'']"

definition ready_thread :: "jdict \<Rightarrow> json" where
  "ready_thread protocol = (if is_obj (dget_or protocol ''thread'' (JObj [])) then dget (obj_of (dget_or protocol ''thread'' (JObj []))) ''id'' else JNull)"

definition lease_of_record :: "jdict \<Rightarrow> string \<Rightarrow> json \<Rightarrow> owner_lease" where
  "lease_of_record r context_sha thread =
    \<lparr>ol_profile_id = str_of (dget r ''profile_id''), ol_owner_context_sha256 = context_sha, ol_lease_id = str_of (dget r ''lease_id''),
     ol_owner_connection_id = str_of (dget r ''owner_connection_id''), ol_owner_epoch = int_of (dget r ''owner_epoch''),
     ol_owner_thread_id = str_of thread, ol_private_socket = str_of (dget r ''private_socket''), ol_backend_pid = int_of (dget r ''pid''),
     ol_backend_birth = str_of (dget r ''birth''), ol_helper_identity = None, ol_closed = False, ol_owner_registered = False, ol_helpers = []\<rparr>"

definition owner_fields :: "jdict \<Rightarrow> string \<Rightarrow> jdict \<Rightarrow> jdict" where
  "owner_fields protocol context_sha r =
     dict_put [(''owner_connection_id'', dget protocol ''connection_id''), (''owner_epoch'', dget protocol ''epoch''),
       (''owner_thread_id'', ready_thread protocol), (''owner_context_sha256'', JStr context_sha)] r"

definition lease_receipt :: "policy \<Rightarrow> jdict \<Rightarrow> string \<Rightarrow> jdict" where
  "lease_receipt P r backend_sha =
    [(''profile_id'', dget r ''profile_id''), (''owner_context_sha256'', dget r ''owner_context_sha256''), (''lease_id'', dget r ''lease_id''),
     (''owner_connection_id'', dget r ''owner_connection_id''), (''owner_epoch'', dget r ''owner_epoch''), (''owner_thread_id'', dget r ''owner_thread_id''),
     (''private_socket'', dget r ''private_socket''), (''backend_pid'', dget r ''pid''), (''backend_birth'', dget r ''birth''),
     (''backend_executable_sha256'', JStr backend_sha), (''private_socket_identity'', dget_or r ''private_socket_identity'' (JArr [])),
     (''service_identity'', JObj (po_service P))]"

definition receipt_row :: "policy \<Rightarrow> jdict \<Rightarrow> jdict" where
  "receipt_row P protocol = dict_put [(''version'', JInt 1), (''activation_id'', JStr (po_activation_id P)), (''manifest_sha256'', JStr (po_manifest_sha256 P))] protocol"

definition publish_ready :: "platform \<Rightarrow> system \<Rightarrow> policy \<Rightarrow> unit result \<Rightarrow> jdict \<Rightarrow> service \<Rightarrow> unit result \<times> jdict option \<times> service" where
  "publish_ready E Y P published protocol sv =
    (case check_runtime_policy E Y P of Inl e \<Rightarrow> (Inl e, None, sv) | Inr _ \<Rightarrow>
     let row = receipt_row P protocol; thread = ready_thread protocol in
     case record_for_lease (dget protocol ''lease_id'') sv of
       Some r \<Rightarrow>
         if \<not> (dget r ''state'' = JStr ''connected'' \<and> is_str thread \<and> list_all (has_key r) lease_record_keys) then (published, Some row, sv)
         else (case map_of (po_contexts P) (str_of (dget r ''profile_id'')) of None \<Rightarrow> (key_error, None, sv) | Some x \<Rightarrow>
           (case owner_context_sha E Y P x of Inl e \<Rightarrow> (Inl e, None, sv) | Inr context_sha \<Rightarrow>
            let lid = str_of (dget r ''lease_id''); r1 = owner_fields protocol context_sha r; sv1 = update_record lid (owner_fields protocol context_sha) sv in
            case check_lease (lease_of_record r1 context_sha thread) of Inl e \<Rightarrow> (Inl e, None, sv1) | Inr lease \<Rightarrow>
            (case pinned_sha E Y (po_executable P) of Inl e \<Rightarrow> (Inl e, None, sv1) | Inr backend_sha \<Rightarrow>
             let row1 = dict_set ''owner_lease'' (JObj (lease_receipt P r1 backend_sha)) row in
             (case published of Inl e \<Rightarrow> (Inl e, Some row1, sv1)
              | Inr _ \<Rightarrow> (Inr (), Some row1, sv1\<lparr>sv_leases := dict_set lid lease (sv_leases sv1)\<rparr>)))))
     | None \<Rightarrow> (published, Some row, sv))"

section \<open>The backend of an owner\<close>

text \<open>
  The parts of \<open>_leased_backend\<close> that change the service: the record at the start, its process, its
  connection, a failure, and the release in its four parts.
\<close>

definition start_record :: "string \<Rightarrow> string \<Rightarrow> string \<Rightarrow> peer \<Rightarrow> string \<Rightarrow> json \<Rightarrow> service \<Rightarrow> service" where
  "start_record lease profile grant_sha frontend socket resume sv =
     sv\<lparr>sv_records := sv_records sv @ [[(''lease_id'', JStr lease), (''profile_id'', JStr profile), (''grant_sha256'', JStr grant_sha),
       (''frontend'', peer_json frontend), (''private_socket'', JStr socket), (''state'', JStr ''starting''),
       (''process_stopped'', JBool False), (''socket_removed'', JBool False)]
       @ (if resume = JNull then [] else [(''expected_resume_thread_id'', resume)])]\<rparr>"

definition spawned :: "string \<Rightarrow> int \<Rightarrow> service \<Rightarrow> service" where
  "spawned lease pid = update_record lease (dict_put [(''pid'', JInt pid)])"

definition backend_connected :: "platform \<Rightarrow> policy \<Rightarrow> string \<Rightarrow> string \<Rightarrow> node \<Rightarrow> peer \<Rightarrow> service \<Rightarrow> unit result \<times> service" where
  "backend_connected E P lease birth st backend sv =
    (if nd_kind st = KSocket \<and> nd_uid st = p_uid E \<and> owner_only (nd_perm st)
     then (Inr (), update_record lease (dict_put [(''state'', JStr ''connected''), (''birth'', JStr birth), (''executable'', JStr (po_executable P)),
         (''private_socket_identity'', identity_json (node_identity st)), (''backend_peer'', peer_json backend)]) sv)
     else (Inl (value_error ''backend socket is not private and owned''), sv))"

definition backend_failed :: "string \<Rightarrow> exn \<Rightarrow> service \<Rightarrow> service" where
  "backend_failed lease e = update_record lease (dict_put [(''state'', JStr ''failed''), (''failure_type'', JStr (exn_class e))])"

text \<open>The lease is taken and closed; while that is awaited other tasks run.\<close>

definition release_lease :: "string \<Rightarrow> service \<Rightarrow> service" where
  "release_lease lease sv = sv\<lparr>sv_leases := dict_del lease (sv_leases sv), sv_closing := sv_closing sv @ [lease]\<rparr>"

definition drop_admissions :: "string \<Rightarrow> service \<Rightarrow> service" where
  "drop_admissions lease sv = sv\<lparr>sv_helpers := filter (\<lambda>(_, grant, _). dget grant ''lease_id'' \<noteq> JStr lease) (sv_helpers sv),
     sv_closing := removeAll lease (sv_closing sv), sv_over := sv_over sv @ [lease]\<rparr>"

definition backend_closed :: "string \<Rightarrow> service \<Rightarrow> service" where
  "backend_closed lease = update_record lease (\<lambda>r. if dget r ''state'' = JStr ''failed'' then r else dict_set ''state'' (JStr ''closed'') r)"

section \<open>The connection of a helper\<close>

text \<open>\<open>_backend\<close> for a frontend that was admitted as a helper, up to the lease: the grant is checked again.\<close>

definition helper_backend :: "platform \<Rightarrow> system \<Rightarrow> policy \<Rightarrow> peer \<Rightarrow> service \<Rightarrow> (jdict \<times> string) result \<times> service" where
  "helper_backend E Y P p sv =
    (case map_of (sv_helpers sv) (peer_key p) of None \<Rightarrow> (key_error, sv) | Some (grant, grant_sha) \<Rightarrow>
       (case check_runtime_policy E Y P of
          Inl e \<Rightarrow> (Inl e, if exn_class e \<in> set admission_errors then diagnose p ''helper_runtime_policy'' False (Some e) sv else sv)
        | Inr _ \<Rightarrow>
            (case admit E Y P p sv of
               (Inl e, sv1) \<Rightarrow> (Inl e, sv1)
             | (Inr ok, sv1) \<Rightarrow>
                 (case map_of (sv_helpers sv1) (peer_key p) of
                    None \<Rightarrow> (if ok then key_error else Inl (value_error ''helper grant changed before connection''), sv1)
                  | Some (_, h) \<Rightarrow> if ok \<and> h = grant_sha then (Inr (grant, grant_sha), sv1)
                      else (Inl (value_error ''helper grant changed before connection''), sv1)))))"

text \<open>\<open>_leased_helper\<close> up to the connection that is awaited: the lease that will be used.\<close>

definition helper_opens :: "system \<Rightarrow> peer \<Rightarrow> jdict \<Rightarrow> service \<Rightarrow> owner_lease result" where
  "helper_opens Y p grant sv =
     andThen (lookup_json (sv_leases sv) (dget grant ''lease_id'')) (\<lambda>found.
     case (found, record_for_lease (dget grant ''lease_id'') sv) of
       (Some lease, Some r) \<Rightarrow>
         ensure (dget r ''state'' = JStr ''connected'') (value_error ''owner lease is not active'')
        (andThen (validate_grant (socket_kind Y) lease grant (helper_identity_of p grant)) (\<lambda>_. Inr lease))
     | _ \<Rightarrow> Inl (value_error ''owner lease is not active''))"

text \<open>After the connection: the peer is the backend of the record and the socket is the one of the record.\<close>

definition helper_attached :: "platform \<Rightarrow> system \<Rightarrow> policy \<Rightarrow> peer \<Rightarrow> jdict \<Rightarrow> unit result \<Rightarrow> service \<Rightarrow> unit result" where
  "helper_attached E Y P backend grant published sv = (case record_for_lease (dget grant ''lease_id'') sv of
      None \<Rightarrow> Inl (value_error ''owner lease is not active'')
    | Some r \<Rightarrow>
        ensure (peer_complete backend \<and> same_process E Y (dget r ''pid'') (dget r ''birth'') (po_executable P) backend)
          (value_error ''helper backend peer identity mismatch'')
       (andThen (sy_lstat Y (str_of (dget grant ''private_socket''))) (\<lambda>st.
        ensure (identity_json (node_identity st) = dget r ''private_socket_identity'') (value_error ''helper backend socket identity changed'')
       (andThen (pinned_sha E Y (po_executable P)) (\<lambda>_. published)))))"

text \<open>The gates of the connection, by the admission of the frontend at that moment.\<close>

definition connection_gates :: "bool \<Rightarrow> peer \<Rightarrow> service \<Rightarrow> wire_gates" where
  "connection_gates with_auth p sv =
     wire_gate_factory with_auth (map_option (\<lambda>(grant, _). str_of (dget grant ''owner_thread_id'')) (map_of (sv_helpers sv) (peer_key p)))"

text \<open>\<open>_protocol_lease\<close>: what the sink learns of a connection.\<close>

definition protocol_lease :: "policy \<Rightarrow> peer \<Rightarrow> peer \<Rightarrow> service \<Rightarrow> jdict option" where
  "protocol_lease P frontend backend sv =
    (case find (\<lambda>r. dget r ''state'' = JStr ''connected'' \<and> py_eq (dget r ''pid'') (int_json (pe_pid backend))
         \<and> dget r ''birth'' = str_json (pe_birth backend) \<and> py_eq (dget r ''frontend'') (peer_json frontend)) (sv_records sv) of
       None \<Rightarrow> None
     | Some r \<Rightarrow> (case map_of (po_contexts P) (str_of (dget r ''profile_id'')) of
          None \<Rightarrow> None
        | Some x \<Rightarrow> Some ([(''lease_id'', dget r ''lease_id''), (''profile_id'', dget r ''profile_id''),
             (''expected_home'', JStr (cx_codex_home x)), (''expected_cwd'', JStr (cx_workspace x))]
            @ (if truthy (dget r ''expected_resume_thread_id'') then [(''expected_resume_thread_id'', dget r ''expected_resume_thread_id'')] else []))))"

section \<open>The backend of an owner, before it is started\<close>

definition proof_fields :: "string list" where
  "proof_fields = [''activation_id'', ''lease_id'', ''ready_sha256'', ''backend_sha256'']"

definition resume_binding_keys :: "string list" where
  "resume_binding_keys = [''lease_id'', ''profile_id'', ''owner_thread_id'', ''owner_context_sha256'', ''owner_connection_id'', ''owner_epoch'', ''private_socket'']"

text \<open>\<open>_resume_owner_proof\<close>. \<open>lexists\<close> is \<open>os.path.lexists\<close>.\<close>

definition gone :: "system \<Rightarrow> jdict \<Rightarrow> bool result" where
  "gone Y d = andThen (dreq d ''pid'') (\<lambda>pid. andThen (dreq d ''birth'') (\<lambda>birth. andThen (dreq d ''executable'') (\<lambda>executable.
     original_process_gone Y pid birth executable)))"

definition mismatch :: exn where
  "mismatch = value_error ''resume proof owner/cleanup mismatch''"

definition remain :: exn where
  "remain = value_error ''resume owner resources remain''"

text \<open>The long disjunction, from the left; \<open>get\<close> of something that is not an object is an \<open>AttributeError\<close>.\<close>

definition resume_bound :: "platform \<Rightarrow> system \<Rightarrow> policy \<Rightarrow> string \<Rightarrow> string \<Rightarrow> json \<Rightarrow> string \<Rightarrow> profile_context \<Rightarrow> jdict \<Rightarrow> jdict \<Rightarrow> unit result" where
  "resume_bound E Y P activation lease thread profile x opened final =
    (let owner = dget_or opened ''owner_lease'' (JObj []); binding = obj_of owner; guardian = dget_or final ''guardian'' (JObj []) in
     ensure (dget opened ''activation_id'' = JStr activation \<and> dget opened ''manifest_sha256'' = JStr (po_manifest_sha256 P)) mismatch
    (ensure (is_obj owner) (Raised ''AttributeError'' [])
    (ensure (dget binding ''lease_id'' = JStr lease \<and> py_eq (dget binding ''owner_thread_id'') thread \<and> dget binding ''profile_id'' = JStr profile) mismatch
    (andThen (owner_context_sha E Y P x) (\<lambda>context_sha.
     ensure (dget binding ''owner_context_sha256'' = JStr context_sha
       \<and> list_all (\<lambda>k. py_eq (dget final k) (dget binding k)) resume_binding_keys
       \<and> py_eq (dget final ''pid'') (dget binding ''backend_pid'') \<and> py_eq (dget final ''birth'') (dget binding ''backend_birth'')
       \<and> py_eq (dget final ''frontend'') (dget opened ''frontend'') \<and> dget final ''state'' = JStr ''closed''
       \<and> truthy (dget final ''process_stopped'') \<and> truthy (dget final ''socket_removed'') \<and> \<not> truthy (dget final ''cleanup_failure'')) mismatch
    (ensure (is_obj guardian) (Raised ''AttributeError'' [])
    (ensure (dget (obj_of guardian) ''child_reaped'' = JBool True) mismatch (Inr ()))))))))"

text \<open>What is left of the old owner: its helpers, its backend, its frontend, its socket and its service.\<close>

definition resume_gone :: "system \<Rightarrow> policy \<Rightarrow> (string \<Rightarrow> bool) \<Rightarrow> string \<Rightarrow> jdict \<Rightarrow> jdict \<Rightarrow> unit result" where
  "resume_gone Y P lexists activation opened final =
     andThen (py_iter (dget_or final ''helpers'' (JArr []))) (\<lambda>helpers.
     andThen (for_each (\<lambda>h. ensure (is_obj h) (Raised ''AttributeError'' [])
       (ensure (dget (obj_of h) ''state'' = JStr ''closed'') remain (Inr ()))) helpers) (\<lambda>_.
     andThen (gone Y final) (\<lambda>backend_gone.
     ensure backend_gone remain
    (andThen (dreq final ''frontend'') (\<lambda>frontend.
     ensure (is_obj frontend) (Raised ''TypeError'' [])
    (andThen (gone Y (obj_of frontend)) (\<lambda>frontend_gone.
     ensure frontend_gone remain
    (andThen (dreq final ''private_socket'') (\<lambda>socket.
     ensure (is_str socket) (Raised ''TypeError'' [])
    (ensure (\<not> lexists (str_of socket)) remain
    (let service = dget_or (obj_of (dget_or opened ''owner_lease'' (JObj []))) ''service_identity'' (JObj []) in
     if activation = po_activation_id P then Inr ()
     else ensure (is_obj service) (Raised ''TypeError'' [])
       (andThen (gone Y (obj_of service)) (\<lambda>service_gone. ensure service_gone (value_error ''prior service remains'') (Inr ()))))))))))))))"

definition resume_owner_proof :: "platform \<Rightarrow> system \<Rightarrow> policy \<Rightarrow> (string \<Rightarrow> bool) \<Rightarrow> json \<Rightarrow> json \<Rightarrow> string \<Rightarrow> profile_context \<Rightarrow> unit result" where
  "resume_owner_proof E Y P lexists proof thread profile x =
    (let d = obj_of proof; activation = str_of (dget d ''activation_id''); lease = str_of (dget d ''lease_id''); parent = po_state_dir P @ ''/'' @ activation in
     ensure (is_obj proof \<and> keys_exact d proof_fields) (value_error ''resume owner proof missing'')
    (ensure (is_str (dget d ''activation_id'') \<and> hex_string 32 activation \<and> is_str (dget d ''lease_id'') \<and> hex_string 12 lease)
       (value_error ''resume proof identity invalid'')
    (andThen (private_directory E Y parent) (\<lambda>_.
     andThen (private_json E Y (parent @ ''/ready-'' @ lease @ ''.json'')) (\<lambda>(opened, ready_sha).
     andThen (private_json E Y (parent @ ''/backend-'' @ lease @ ''.json'')) (\<lambda>(final, final_sha).
     ensure (JStr ready_sha = dget d ''ready_sha256'' \<and> JStr final_sha = dget d ''backend_sha256'') (value_error ''resume proof changed'')
    (andThen (resume_bound E Y P activation lease thread profile x opened final) (\<lambda>_.
     resume_gone Y P lexists activation opened final))))))))"

text \<open>\<open>_backend\<close> for an owner, up to the lock of the profile, and again under the lock.\<close>

definition owner_backend :: "platform \<Rightarrow> system \<Rightarrow> policy \<Rightarrow> (string \<Rightarrow> bool) \<Rightarrow> peer \<Rightarrow> service \<Rightarrow> (json \<times> string \<times> json) result" where
  "owner_backend E Y P lexists p sv = (case map_of (sv_admissions sv) (peer_key p) of
      None \<Rightarrow> key_error
    | Some (profile, grant_sha) \<Rightarrow>
        (case map_of (po_contexts P) (str_of profile) of None \<Rightarrow> key_error | Some x \<Rightarrow>
         andThen (private_json E Y (grant_path P (pe_pid p))) (\<lambda>(grant, current).
         ensure (current = grant_sha) (value_error ''owner grant changed before launch'')
        (let resume = dget grant ''expected_resume_thread_id'' in
         if resume = JNull then Inr (profile, grant_sha, resume)
         else ensure (po_tui_policy P \<and> thread_id resume) (value_error ''resume policy absent'')
          (andThen (resume_owner_proof E Y P lexists (dget grant ''resume_owner_proof'') resume (str_of profile) x) (\<lambda>_.
           Inr (profile, grant_sha, resume)))))))"

definition owner_backend_locked :: "platform \<Rightarrow> system \<Rightarrow> policy \<Rightarrow> peer \<Rightarrow> json \<Rightarrow> string \<Rightarrow> service \<Rightarrow> unit result \<times> service" where
  "owner_backend_locked E Y P p profile grant_sha sv =
    (case check_runtime_policy E Y P of
       Inl e \<Rightarrow> (Inl e, sv)
     | Inr _ \<Rightarrow> (case admit E Y P p sv of
           (Inl e, sv1) \<Rightarrow> (Inl e, sv1)
         | (Inr ok, sv1) \<Rightarrow> if ok \<and> map_of (sv_admissions sv1) (peer_key p) = Some (profile, grant_sha) then (Inr (), sv1)
             else (Inl (value_error ''frontend grant changed before backend start''), sv1)))"

end
