(* ===== verification/AdmissionRuns.thy ===== *)
theory AdmissionRuns
  imports Admission
begin

text \<open>
  The runs of the activation service: admissions, backends that are started, connected, published and
  released, and helpers that connect, in any order; the operating system may answer differently each
  time.
\<close>

section \<open>Inversion of the checks\<close>

lemma refuse_unless_ok [simp]: "refuse_unless c reason k = Inr u \<longleftrightarrow> c \<and> k = Inr u"
  by (simp add: refuse_unless_def)

lemma tried_ok [simp]: "tried classes reason m k = Inr u \<longleftrightarrow> (\<exists>x. m = Inr x \<and> k x = Inr u)"
  by (simp add: tried_def split: sum.split)

lemma called_ok [simp]: "called m k = Inr u \<longleftrightarrow> (\<exists>x. m = Inr x \<and> k x = Inr u)"
  by (simp add: called_def split: sum.split)

lemma lookup_json_some: "lookup_json d key = Inr (Some v) \<longleftrightarrow> (\<exists>s. key = JStr s \<and> map_of d s = Some v)"
  by (cases key) (auto simp: lookup_json_def hashable_def)

text \<open>
  What an accepted helper has shown of its lease: the grant repeats every field of the live lease, the record of
  the backend agrees with it, and the socket is the one of the record.
\<close>

definition lease_bound :: "platform \<Rightarrow> system \<Rightarrow> policy \<Rightarrow> jdict \<Rightarrow> service \<Rightarrow> bool" where
  "lease_bound E Y P grant sv = (\<exists>lid lease r x st.
     dget grant ''lease_id'' = JStr lid \<and> map_of (sv_leases sv) lid = Some lease \<and> \<not> ol_closed lease
     \<and> record_for_lease (JStr lid) sv = Some r \<and> dget r ''state'' = JStr ''connected''
     \<and> lid = ol_lease_id lease \<and> dget grant ''profile_id'' = JStr (ol_profile_id lease) \<and> map_of (po_contexts P) (ol_profile_id lease) = Some x
     \<and> owner_context_sha E Y P x = Inr (ol_owner_context_sha256 lease) \<and> dget grant ''owner_context_sha256'' = JStr (ol_owner_context_sha256 lease)
     \<and> dget grant ''owner_connection_id'' = JStr (ol_owner_connection_id lease) \<and> py_eq (dget grant ''owner_epoch'') (JInt (ol_owner_epoch lease))
     \<and> dget grant ''owner_thread_id'' = JStr (ol_owner_thread_id lease) \<and> dget grant ''private_socket'' = JStr (ol_private_socket lease)
     \<and> (\<forall>k \<in> {''profile_id'', ''private_socket'', ''owner_connection_id'', ''owner_epoch'', ''owner_thread_id''}. py_eq (dget grant k) (dget r k) \<or> py_eq (dget r k) (dget grant k))
     \<and> sy_lstat Y (ol_private_socket lease) = Inr st \<and> nd_kind st = KSocket
     \<and> identity_json (node_identity st) = dget r ''private_socket_identity'')"

lemma helper_lease_checks_bound:
  assumes "helper_lease_checks E Y P p grant sv = Inr ()"
  shows "lease_bound E Y P grant sv"
proof -
  from assms obtain found where found: "lookup_json (sv_leases sv) (dget grant ''lease_id'') = Inr found"
    by (auto simp: helper_lease_checks_def)
  obtain r lease where rl: "record_for_lease (dget grant ''lease_id'') sv = Some r" "found = Some lease"
    using assms found by (auto simp: helper_lease_checks_def split: option.splits)
  from found rl(2) obtain lid where lid: "dget grant ''lease_id'' = JStr lid" "map_of (sv_leases sv) lid = Some lease"
    by (auto simp: lookup_json_some)
  from assms found rl obtain known where known: "lookup_json (po_contexts P) (dget grant ''profile_id'') = Inr known"
    and state: "dget r ''state'' = JStr ''connected''" by (auto simp: helper_lease_checks_def)
  obtain x where x: "known = Some x" using assms found rl known by (cases known) (auto simp: helper_lease_checks_def)
  from known x obtain profile where profile: "dget grant ''profile_id'' = JStr profile" "map_of (po_contexts P) profile = Some x"
    by (auto simp: lookup_json_some)
  from assms found rl known x obtain context_sha st where rest: "owner_context_sha E Y P x = Inr context_sha"
    "dget grant ''owner_context_sha256'' = JStr context_sha" "sy_lstat Y (ol_private_socket lease) = Inr st"
    "identity_json (node_identity st) = dget r ''private_socket_identity''" "py_eq (dget r ''profile_id'') (dget grant ''profile_id'')"
    "py_eq (dget grant ''private_socket'') (dget r ''private_socket'')" "py_eq (dget grant ''owner_connection_id'') (dget r ''owner_connection_id'')"
    "py_eq (dget grant ''owner_epoch'') (dget r ''owner_epoch'')" "py_eq (dget grant ''owner_thread_id'') (dget r ''owner_thread_id'')"
    "validate_grant (socket_kind Y) lease grant (helper_identity_of p grant) = Inr ()"
    by (auto simp: helper_lease_checks_def)
  from rest(10) have v: "\<not> ol_closed lease" "socket_kind Y (ol_private_socket lease) = Socket"
    "\<forall>(key, v) \<in> set (expected_grant lease (helper_identity_of p grant)). py_eq (dget grant key) v"
    by (simp_all add: validate_grant_ok)
  have fields: "dget grant ''lease_id'' = JStr (ol_lease_id lease)" "dget grant ''profile_id'' = JStr (ol_profile_id lease)"
    "dget grant ''owner_context_sha256'' = JStr (ol_owner_context_sha256 lease)" "dget grant ''owner_connection_id'' = JStr (ol_owner_connection_id lease)"
    "py_eq (dget grant ''owner_epoch'') (JInt (ol_owner_epoch lease))" "dget grant ''owner_thread_id'' = JStr (ol_owner_thread_id lease)"
    "dget grant ''private_socket'' = JStr (ol_private_socket lease)" using v(3) by (simp_all add: expected_grant_def)
  have kind: "nd_kind st = KSocket" using v(2) rest(3) by (simp add: socket_kind_def split: file_kind.splits)
  have same: "lid = ol_lease_id lease" "profile = ol_profile_id lease" "context_sha = ol_owner_context_sha256 lease"
    using lid(1) profile(1) rest(2) fields(1-3) by simp_all
  have rec: "\<forall>k \<in> {''profile_id'', ''private_socket'', ''owner_connection_id'', ''owner_epoch'', ''owner_thread_id''}.
      py_eq (dget grant k) (dget r k) \<or> py_eq (dget r k) (dget grant k)" using rest(5-9) by blast
  show ?thesis unfolding lease_bound_def
    by (rule exI [of _ lid], rule exI [of _ lease], rule exI [of _ r], rule exI [of _ x], rule exI [of _ st])
      (intro conjI lid v(1) rl(1) [unfolded lid(1)] state same(1) fields profile(2) [unfolded same(2)] rest(1) [unfolded same(3)] rec rest(3) kind rest(4))
qed

section \<open>What an admission changes\<close>

definition diagnosed :: "service \<Rightarrow> service \<Rightarrow> bool" where
  "diagnosed sv sv' = (\<exists>rows. sv' = sv\<lparr>sv_rows := rows\<rparr> \<and> (length (sv_rows sv) \<le> max_diagnostics \<longrightarrow> length rows \<le> max_diagnostics))"

lemma diagnosed_refl [simp]: "diagnosed sv sv"
  unfolding diagnosed_def by (rule exI [of _ "sv_rows sv"]) simp

lemma diagnosed_diagnose [simp]: "diagnosed sv (diagnose p reason ok e sv)"
proof (cases "length (sv_rows sv) < max_diagnostics")
  case True
  let ?rows = "sv_rows sv @ [[(''frontend_pid'', int_json (pe_pid p)), (''reason'', JStr reason), (''accepted'', JBool ok),
            (''failure_type'', case e of None \<Rightarrow> JNull | Some x \<Rightarrow> JStr (exn_class x))]]"
  show ?thesis unfolding diagnosed_def by (rule exI [of _ ?rows]) (use True in \<open>simp add: diagnose_def\<close>)
qed (simp add: diagnose_def)

lemma at_stage_diagnosed: "at_stage p stage e sv = (r, sv') \<Longrightarrow> diagnosed sv sv'"
  by (auto simp: at_stage_def split: if_splits)

lemma diagnosed_same: "diagnosed sv sv' \<Longrightarrow> sv_records sv' = sv_records sv \<and> sv_leases sv' = sv_leases sv \<and> sv_admissions sv' = sv_admissions sv
    \<and> sv_helpers sv' = sv_helpers sv \<and> sv_closing sv' = sv_closing sv \<and> sv_over sv' = sv_over sv
    \<and> (length (sv_rows sv) \<le> max_diagnostics \<longrightarrow> length (sv_rows sv') \<le> max_diagnostics)"
  by (auto simp: diagnosed_def)

lemma at_stage_refuses: "at_stage p stage e sv = (r, sv') \<Longrightarrow> r \<noteq> Inr True"
  by (auto simp: at_stage_def split: if_splits)

lemma owner_admission_cases:
  assumes "owner_admission E Y P p grant digest sv = (r, sv')"
  obtains (refused) "diagnosed sv sv'"
  | (entered) "map_of (sv_admissions sv) (peer_key p) = None"
      "sv' = sv\<lparr>sv_admissions := dict_set (peer_key p) (dget grant ''profile_id'', digest) (sv_admissions sv)\<rparr>"
proof (cases "owner_allowed E Y P p grant")
  case (Inl e)
  with assms have "at_stage p ''owner_grant_check'' e sv = (r, sv')" by (simp add: owner_admission_def)
  with at_stage_diagnosed refused show ?thesis by blast
next
  case (Inr ok)
  show ?thesis
  proof (cases "map_of (sv_admissions sv) (peer_key p)")
    case None
    with Inr assms refused entered show ?thesis by (cases ok) (auto simp: owner_admission_def)
  next
    case (Some v)
    with Inr assms refused show ?thesis by (cases ok) (auto simp: owner_admission_def)
  qed
qed

text \<open>An admission of a helper, of an owner, or nothing.\<close>

lemma helper_admission_cases:
  assumes "helper_admission E Y P p grant digest sv = (r, sv')"
  obtains (refused) "diagnosed sv sv'" "r \<noteq> Inr True"
  | (accepted) "r = Inr True" "helper_checks E Y P p grant digest sv = Inr ()"
      "diagnosed (sv\<lparr>sv_helpers := dict_set (peer_key p) (grant, digest) (sv_helpers sv)\<rparr>) sv'"
proof (cases "helper_checks E Y P p grant digest sv")
  case (Inl a)
  show ?thesis by (rule refused; cases a) (use assms Inl in \<open>auto simp: helper_admission_def\<close>)
next
  case (Inr b)
  show ?thesis by (rule accepted) (use assms Inr in \<open>auto simp: helper_admission_def\<close>)
qed

lemma admit_cases:
  assumes "admit E Y P p sv = (r, sv')"
  obtains (nothing) "diagnosed sv sv'" "r = Inr True \<Longrightarrow> \<exists>grant digest. private_json E Y (grant_path P (pe_pid p)) = Inr (grant, digest) \<and> dget grant ''role'' \<noteq> JStr ''owner-helper''"
  | (helper) grant digest where "r = Inr True" "private_json E Y (grant_path P (pe_pid p)) = Inr (grant, digest)" "dget grant ''role'' = JStr ''owner-helper''"
      "helper_checks E Y P p grant digest sv = Inr ()" "diagnosed (sv\<lparr>sv_helpers := dict_set (peer_key p) (grant, digest) (sv_helpers sv)\<rparr>) sv'"
      "peer_complete p" "pe_uid p = Some (p_uid E)" "sy_process Y (pe_pid p) = (pe_birth p, pe_executable p)"
  | (owner) grant digest where "private_json E Y (grant_path P (pe_pid p)) = Inr (grant, digest)" "dget grant ''role'' \<noteq> JStr ''owner-helper''"
      "map_of (sv_admissions sv) (peer_key p) = None"
      "sv' = sv\<lparr>sv_admissions := dict_set (peer_key p) (dget grant ''profile_id'', digest) (sv_admissions sv)\<rparr>"
proof -
  note stage = at_stage_diagnosed [of p _ _ sv r sv'] at_stage_refuses [of p _ _ sv r sv']
  show ?thesis
  proof (cases "peer_complete p \<and> pe_uid p = Some (p_uid E)")
    case False
    show ?thesis by (rule nothing) (use assms False in \<open>auto simp: admit_def\<close>)
  next
    case complete: True
    show ?thesis
    proof (cases "check_roots E Y P")
      case (Inl e)
      from assms complete Inl have st: "at_stage p ''roots'' e sv = (r, sv')" by (simp add: admit_def)
      show ?thesis by (rule nothing) (use stage [OF st] in auto)
    next
      case roots: (Inr u)
      show ?thesis
      proof (cases "sy_process Y (pe_pid p) = (pe_birth p, pe_executable p)")
        case False
        show ?thesis by (rule nothing) (use assms complete roots False in \<open>auto simp: admit_def\<close>)
      next
        case same: True
        show ?thesis
        proof (cases "private_json E Y (grant_path P (pe_pid p))")
          case (Inl e)
          from assms complete roots same Inl have st: "at_stage p ''grant_read'' e sv = (r, sv')" by (simp add: admit_def)
          show ?thesis by (rule nothing) (use stage [OF st] in auto)
        next
          case (Inr gd)
          then obtain grant digest where read: "private_json E Y (grant_path P (pe_pid p)) = Inr (grant, digest)" by (cases gd) simp
          have a: "admit E Y P p sv = (if dget grant ''role'' = JStr ''owner-helper'' then
               (case helper_admission E Y P p grant digest sv of
                  (Inl e, sv1) \<Rightarrow> at_stage p ''helper_admission'' e sv1
                | (Inr ok, sv1) \<Rightarrow> (Inr ok, sv1))
             else owner_admission E Y P p grant digest sv)"
            using complete roots same read by (simp add: admit_def)
          show ?thesis
          proof (cases "dget grant ''role'' = JStr ''owner-helper''")
            case role: True
            obtain r1 sv1 where h: "helper_admission E Y P p grant digest sv = (r1, sv1)" by (cases "helper_admission E Y P p grant digest sv")
            from h show ?thesis
            proof (cases rule: helper_admission_cases)
              case refused
              show ?thesis
              proof (cases r1)
                case (Inl e)
                have "sv1 = sv" using h Inl by (auto simp: helper_admission_def split: sum.splits refusal.splits)
                then have st: "at_stage p ''helper_admission'' e sv = (r, sv')" using assms a role h Inl by simp
                show ?thesis by (rule nothing) (use stage [OF st] in auto)
              next
                case (Inr ok)
                then have "r = Inr ok" "sv' = sv1" using assms a role h by simp_all
                show ?thesis by (rule nothing) (use refused Inr \<open>r = Inr ok\<close> \<open>sv' = sv1\<close> in simp_all)
              qed
            next
              case accepted
              then have "r = Inr True" "sv' = sv1" using assms a role h by simp_all
              show ?thesis by (rule helper [of grant digest]) (use accepted read role complete same \<open>r = Inr True\<close> \<open>sv' = sv1\<close> in simp_all)
            qed
          next
            case role: False
            with a assms have "owner_admission E Y P p grant digest sv = (r, sv')" by simp
            then show ?thesis
            proof (cases rule: owner_admission_cases)
              case refused
              show ?thesis by (rule nothing) (use refused read role in auto)
            next
              case entered
              show ?thesis by (rule owner [of grant digest]) (use entered read role in simp_all)
            qed
          qed
        qed
      qed
    qed
  qed
qed

section \<open>Runs\<close>

text \<open>
  The ready receipt of a lease is published by the sink of its own connection, while its backend is still in
  use, and once it has been published not again. The release of a backend is taken at most once.
\<close>

definition unreleased :: "string \<Rightarrow> service \<Rightarrow> bool" where
  "unreleased lease sv = (map_of (sv_leases sv) lease = None \<and> lease \<notin> set (sv_closing sv) \<and> lease \<notin> set (sv_over sv))"

inductive service_step :: "platform \<Rightarrow> policy \<Rightarrow> service \<Rightarrow> service \<Rightarrow> bool" for E P where
  admits: "admit E Y P p sv = (r, sv') \<Longrightarrow> service_step E P sv sv'"
| publishes: "publish_ready E Y P published protocol sv = (r, receipt, sv') \<Longrightarrow>
    (\<And>rec. record_for_lease (dget protocol ''lease_id'') sv = Some rec \<Longrightarrow> unreleased (str_of (dget rec ''lease_id'')) sv) \<Longrightarrow>
    service_step E P sv sv'"
| starts: "record_for_lease (JStr lease) sv = None \<Longrightarrow> service_step E P sv (start_record lease profile grant_sha frontend socket resume sv)"
| spawns: "service_step E P sv (spawned lease pid sv)"
| connects: "backend_connected E P lease birth st backend sv = (r, sv') \<Longrightarrow> service_step E P sv sv'"
| fails: "service_step E P sv (backend_failed lease e sv)"
| releases: "lease \<notin> set (sv_closing sv) \<Longrightarrow> lease \<notin> set (sv_over sv) \<Longrightarrow> service_step E P sv (release_lease lease sv)"
| drops: "lease \<in> set (sv_closing sv) \<Longrightarrow> service_step E P sv (drop_admissions lease sv)"
| closes: "service_step E P sv (backend_closed lease sv)"
| backs: "helper_backend E Y P p sv = (r, sv') \<Longrightarrow> service_step E P sv sv'"
| backs_owner: "owner_backend_locked E Y P p profile grant_sha sv = (r', sv') \<Longrightarrow> service_step E P sv sv'"
| attaches: "map_of (sv_leases sv) lease = Some l \<Longrightarrow> service_step E P sv (sv\<lparr>sv_leases := dict_set lease (attach_helper c l) (sv_leases sv)\<rparr>)"

abbreviation service_steps :: "platform \<Rightarrow> policy \<Rightarrow> service \<Rightarrow> service \<Rightarrow> bool" where
  "service_steps E P \<equiv> (service_step E P)\<^sup>*\<^sup>*"

lemma update_record_same [simp]:
  "sv_leases (update_record lease f sv) = sv_leases sv" "sv_admissions (update_record lease f sv) = sv_admissions sv"
  "sv_helpers (update_record lease f sv) = sv_helpers sv" "sv_rows (update_record lease f sv) = sv_rows sv"
  "sv_closing (update_record lease f sv) = sv_closing sv" "sv_over (update_record lease f sv) = sv_over sv"
  by (simp_all add: update_record_def)

lemma dict_set_elements: "set (dict_set k v d) \<subseteq> insert (k, v) (set d)"
  unfolding dict_set_def by (induction d) auto

end
