(* ===== verification/AdmissionProps.thy ===== *)
theory AdmissionProps
  imports AdmissionRuns
begin

text \<open>
  The invariant of the runs of the service: an admission belongs to a live lease or to one that is just
  being released; a process has one admission, and a lease whose admissions are gone stays so.
\<close>

section \<open>The invariant of the admissions\<close>

text \<open>
  An admission of a helper belongs to a live lease, whose thread it names, or to one that is just being
  released.
\<close>

definition admission_ok :: "service \<Rightarrow> jdict \<Rightarrow> bool" where
  "admission_ok sv grant = (\<exists>lid. dget grant ''lease_id'' = JStr lid
     \<and> (map_of (sv_leases sv) lid = None \<longrightarrow> lid \<in> set (sv_closing sv))
     \<and> (\<forall>l. map_of (sv_leases sv) lid = Some l \<longrightarrow> dget grant ''owner_thread_id'' = JStr (ol_owner_thread_id l)))"

definition service_ok :: "service \<Rightarrow> bool" where
  "service_ok sv = ((\<forall>(k, grant, h) \<in> set (sv_helpers sv). admission_ok sv grant)
     \<and> (\<forall>lid. map_of (sv_leases sv) lid \<noteq> None \<longrightarrow> lid \<notin> set (sv_closing sv) \<and> lid \<notin> set (sv_over sv))
     \<and> (\<forall>lid \<in> set (sv_closing sv). lid \<notin> set (sv_over sv))
     \<and> length (sv_rows sv) \<le> max_diagnostics)"

lemma service_okI:
  assumes "\<And>k grant h. (k, grant, h) \<in> set (sv_helpers sv) \<Longrightarrow> admission_ok sv grant"
    and "\<And>lid. map_of (sv_leases sv) lid \<noteq> None \<Longrightarrow> lid \<notin> set (sv_closing sv) \<and> lid \<notin> set (sv_over sv)"
    and "\<And>lid. lid \<in> set (sv_closing sv) \<Longrightarrow> lid \<notin> set (sv_over sv)" and "length (sv_rows sv) \<le> max_diagnostics"
  shows "service_ok sv"
  using assms unfolding service_ok_def by blast

lemma service_okD:
  assumes "service_ok sv"
  shows "(k, grant, h) \<in> set (sv_helpers sv) \<Longrightarrow> admission_ok sv grant"
    "map_of (sv_leases sv) lid \<noteq> None \<Longrightarrow> lid \<notin> set (sv_closing sv) \<and> lid \<notin> set (sv_over sv)"
    "lid \<in> set (sv_closing sv) \<Longrightarrow> lid \<notin> set (sv_over sv)" "length (sv_rows sv) \<le> max_diagnostics"
  using assms unfolding service_ok_def by blast+

lemma admission_okE:
  assumes "admission_ok sv grant"
  obtains i where "dget grant ''lease_id'' = JStr i" "map_of (sv_leases sv) i = None \<longrightarrow> i \<in> set (sv_closing sv)"
    "\<forall>l. map_of (sv_leases sv) i = Some l \<longrightarrow> dget grant ''owner_thread_id'' = JStr (ol_owner_thread_id l)"
  using assms unfolding admission_ok_def by (elim exE conjE)

lemma admission_ok_same: "admission_ok sv grant \<Longrightarrow> sv_leases sv' = sv_leases sv \<Longrightarrow> sv_closing sv' = sv_closing sv \<Longrightarrow> admission_ok sv' grant"
  by (simp add: admission_ok_def)

text \<open>What a step of another kind leaves alone.\<close>

lemma service_ok_same:
  assumes "service_ok sv" and "sv_helpers sv' = sv_helpers sv" "sv_leases sv' = sv_leases sv" "sv_closing sv' = sv_closing sv" "sv_over sv' = sv_over sv"
    and "length (sv_rows sv') \<le> max_diagnostics"
  shows "service_ok sv'"
  using assms unfolding service_ok_def admission_ok_def by simp

lemma diagnosed_ok: "service_ok sv \<Longrightarrow> diagnosed sv sv' \<Longrightarrow> service_ok sv'"
  using diagnosed_same [of sv sv'] service_okD(4) [of sv] by (intro service_ok_same [of sv sv']) simp_all

lemma bound_admission:
  assumes "lease_bound E Y P grant sv"
  shows "admission_ok sv grant"
  using assms by (auto simp: lease_bound_def admission_ok_def)

lemma helper_checks_bound: "helper_checks E Y P p grant digest sv = Inr () \<Longrightarrow> lease_bound E Y P grant sv"
  by (rule helper_lease_checks_bound) (simp add: helper_checks_def split: sum.splits)

lemma admit_ok:
  assumes "admit E Y P p sv = (r, sv')" and ok: "service_ok sv"
  shows "service_ok sv'"
  using assms(1)
proof (cases rule: admit_cases)
  case nothing
  with diagnosed_ok [OF ok] show ?thesis by blast
next
  case (helper grant digest)
  let ?sv = "sv\<lparr>sv_helpers := dict_set (peer_key p) (grant, digest) (sv_helpers sv)\<rparr>"
  have "admission_ok sv grant" by (rule bound_admission [OF helper_checks_bound [OF helper(4)]])
  then have "admission_ok ?sv g" if "(k, g, h) \<in> set (sv_helpers ?sv)" for k g h
    using that dict_set_elements [of "peer_key p" "(grant, digest)" "sv_helpers sv"] service_okD(1) [OF ok, of k g h]
    by (auto simp: admission_ok_def)
  then have "service_ok ?sv" by (rule service_okI) (use service_okD(2-) [OF ok] in simp_all)
  from diagnosed_ok [OF this helper(5)] show ?thesis .
next
  case (owner grant digest)
  show ?thesis by (rule service_ok_same [OF ok]) (use owner service_okD(4) [OF ok] in simp_all)
qed

lemma publish_ready_cases:
  assumes "publish_ready E Y P published protocol sv = (r, receipt, sv')"
  obtains (nothing) "sv' = sv"
  | (noted) lid f where "sv' = update_record lid f sv"
  | (leased) rec lid lease f where "record_for_lease (dget protocol ''lease_id'') sv = Some rec" "lid = str_of (dget rec ''lease_id'')"
      "sv' = (update_record lid f sv)\<lparr>sv_leases := dict_set lid lease (sv_leases sv)\<rparr>"
proof (cases "record_for_lease (dget protocol ''lease_id'') sv")
  case None
  show ?thesis by (rule nothing) (use assms None in \<open>auto simp: publish_ready_def Let_def split: sum.splits\<close>)
next
  case (Some rec)
  note unfolded = assms [unfolded publish_ready_def Let_def Some, simplified]
  show ?thesis
  proof (cases "check_runtime_policy E Y P")
    case (Inl e)
    show ?thesis by (rule nothing) (use unfolded Inl in simp)
  next
    case (Inr u)
    show ?thesis
    proof (cases "dget rec ''state'' = JStr ''connected'' \<and> is_str (ready_thread protocol) \<and> list_all (has_key rec) lease_record_keys")
      case False
      show ?thesis by (rule nothing) (use unfolded Inr False in \<open>simp split: if_splits\<close>)
    next
      case cond: True
      show ?thesis
      proof (cases "map_of (po_contexts P) (str_of (dget rec ''profile_id''))")
        case None
        show ?thesis by (rule nothing) (use unfolded Inr cond None in simp)
      next
        case x: (Some x)
        show ?thesis
        proof (cases "owner_context_sha E Y P x")
          case (Inl e)
          show ?thesis by (rule nothing) (use unfolded Inr cond x Inl in simp)
        next
          case sha: (Inr context_sha)
          let ?lid = "str_of (dget rec ''lease_id'')" and ?f = "owner_fields protocol context_sha"
          have "sv' = update_record ?lid ?f sv \<or> (\<exists>lease. sv' = (update_record ?lid ?f sv)\<lparr>sv_leases := dict_set ?lid lease (sv_leases sv)\<rparr>)"
            using unfolded Inr cond x sha by (auto split: sum.splits)
          with noted leased [OF Some refl] show ?thesis by blast
        qed
      qed
    qed
  qed
qed

lemma record_lease: "record_for_lease (JStr lid) sv = Some r \<Longrightarrow> dget r ''lease_id'' = JStr lid"
  unfolding record_for_lease_def by (auto simp: find_Some_iff)

lemma update_ok: "service_ok sv \<Longrightarrow> service_ok (update_record lid f sv)"
  by (rule service_ok_same) (simp_all add: service_ok_def)

lemma leased_ok:
  assumes ok: "service_ok sv" and new: "unreleased lid sv"
  shows "service_ok (sv\<lparr>sv_leases := dict_set lid lease (sv_leases sv)\<rparr>)"
proof (rule service_okI)
  fix k grant h assume "(k, grant, h) \<in> set (sv_helpers (sv\<lparr>sv_leases := dict_set lid lease (sv_leases sv)\<rparr>))"
  then have "admission_ok sv grant" using service_okD(1) [OF ok, of k grant h] by simp
  then obtain i where i: "dget grant ''lease_id'' = JStr i" "map_of (sv_leases sv) i = None \<longrightarrow> i \<in> set (sv_closing sv)"
    "\<forall>l. map_of (sv_leases sv) i = Some l \<longrightarrow> dget grant ''owner_thread_id'' = JStr (ol_owner_thread_id l)" by (rule admission_okE)
  with new have "i \<noteq> lid" by (auto simp: unreleased_def)
  show "admission_ok (sv\<lparr>sv_leases := dict_set lid lease (sv_leases sv)\<rparr>) grant"
    unfolding admission_ok_def by (rule exI [of _ i]) (use i \<open>i \<noteq> lid\<close> in simp)
qed (use service_okD [OF ok] new in \<open>auto simp: unreleased_def split: if_splits\<close>)

lemma publish_ok:
  assumes "publish_ready E Y P published protocol sv = (r, receipt, sv')" and ok: "service_ok sv"
    and new: "\<And>rec. record_for_lease (dget protocol ''lease_id'') sv = Some rec \<Longrightarrow> unreleased (str_of (dget rec ''lease_id'')) sv"
  shows "service_ok sv'"
  using assms(1)
proof (cases rule: publish_ready_cases)
  case nothing
  with ok show ?thesis by simp
next
  case (noted lid f)
  with update_ok [OF ok] show ?thesis by simp
next
  case (leased rec lid lease f)
  have "unreleased lid (update_record lid f sv)" using new [OF leased(1)] leased(2) by (simp add: unreleased_def)
  from leased_ok [OF update_ok [OF ok] this, of lease] leased(3) show ?thesis by simp
qed

lemma release_ok:
  assumes ok: "service_ok sv" and new: "lid \<notin> set (sv_closing sv)" "lid \<notin> set (sv_over sv)"
  shows "service_ok (release_lease lid sv)"
proof (rule service_okI)
  fix k grant h assume "(k, grant, h) \<in> set (sv_helpers (release_lease lid sv))"
  then have "admission_ok sv grant" using service_okD(1) [OF ok, of k grant h] by (simp add: release_lease_def)
  then show "admission_ok (release_lease lid sv) grant" by (auto simp: admission_ok_def release_lease_def split: option.splits)
qed (use service_okD [OF ok] new in \<open>auto simp: release_lease_def split: if_splits\<close>)

lemma drop_ok:
  assumes ok: "service_ok sv" and closing: "lid \<in> set (sv_closing sv)"
  shows "service_ok (drop_admissions lid sv)"
proof (rule service_okI)
  fix k grant h assume in_helpers: "(k, grant, h) \<in> set (sv_helpers (drop_admissions lid sv))"
  then have "admission_ok sv grant" "dget grant ''lease_id'' \<noteq> JStr lid" using service_okD(1) [OF ok, of k grant h] by (simp_all add: drop_admissions_def)
  then show "admission_ok (drop_admissions lid sv) grant" by (auto simp: admission_ok_def drop_admissions_def split: option.splits)
next
  fix i assume "map_of (sv_leases (drop_admissions lid sv)) i \<noteq> None"
  then have i: "map_of (sv_leases sv) i \<noteq> None" by (simp add: drop_admissions_def)
  with service_okD(2) [OF ok i] closing show "i \<notin> set (sv_closing (drop_admissions lid sv)) \<and> i \<notin> set (sv_over (drop_admissions lid sv))"
    by (auto simp: drop_admissions_def)
qed (use service_okD(3,4) [OF ok] in \<open>auto simp: drop_admissions_def\<close>)

lemma attach_ok:
  assumes ok: "service_ok sv" and l: "map_of (sv_leases sv) lid = Some l"
  shows "service_ok (sv\<lparr>sv_leases := dict_set lid (attach_helper c l) (sv_leases sv)\<rparr>)"
proof (rule service_okI)
  fix k grant h assume "(k, grant, h) \<in> set (sv_helpers (sv\<lparr>sv_leases := dict_set lid (attach_helper c l) (sv_leases sv)\<rparr>))"
  then have "admission_ok sv grant" using service_okD(1) [OF ok, of k grant h] by simp
  then obtain i where i: "dget grant ''lease_id'' = JStr i" "map_of (sv_leases sv) i = None \<longrightarrow> i \<in> set (sv_closing sv)"
    "\<forall>l. map_of (sv_leases sv) i = Some l \<longrightarrow> dget grant ''owner_thread_id'' = JStr (ol_owner_thread_id l)" by (rule admission_okE)
  have "ol_owner_thread_id (attach_helper c l) = ol_owner_thread_id l" by (simp add: attach_helper_def)
  with i l show "admission_ok (sv\<lparr>sv_leases := dict_set lid (attach_helper c l) (sv_leases sv)\<rparr>) grant"
    unfolding admission_ok_def by (intro exI [of _ i]) (cases "i = lid"; simp)
next
  fix i assume "map_of (sv_leases (sv\<lparr>sv_leases := dict_set lid (attach_helper c l) (sv_leases sv)\<rparr>)) i \<noteq> None"
  then have "map_of (sv_leases sv) i \<noteq> None" using l by (auto split: if_splits)
  from service_okD(2) [OF ok this]
  show "i \<notin> set (sv_closing (sv\<lparr>sv_leases := dict_set lid (attach_helper c l) (sv_leases sv)\<rparr>))
    \<and> i \<notin> set (sv_over (sv\<lparr>sv_leases := dict_set lid (attach_helper c l) (sv_leases sv)\<rparr>))" by simp
qed (use service_okD(3,4) [OF ok] in simp_all)

text \<open>Both kinds of \<open>_backend\<close> change the service by an admission and a diagnostic only.\<close>

lemma helper_backend_cases:
  assumes "helper_backend E Y P p sv = (r, sv')"
  obtains (quiet) "diagnosed sv sv'" | (again) r1 where "admit E Y P p sv = (r1, sv')"
proof (cases "map_of (sv_helpers sv) (peer_key p)")
  case None
  with assms quiet show ?thesis by (simp add: helper_backend_def)
next
  case (Some gh)
  obtain grant h where gh: "gh = (grant, h)" by (cases gh)
  show ?thesis
  proof (cases "check_runtime_policy E Y P")
    case (Inl e)
    then have "diagnosed sv sv'" using assms Some gh by (auto simp: helper_backend_def)
    with quiet show ?thesis .
  next
    case (Inr u)
    obtain r1 sv1 where a: "admit E Y P p sv = (r1, sv1)" by (cases "admit E Y P p sv")
    have "sv' = sv1" using assms Some gh Inr a by (auto simp: helper_backend_def split: sum.splits option.splits if_splits)
    with a again show ?thesis by blast
  qed
qed

lemma locked_cases:
  assumes "owner_backend_locked E Y P p profile grant_sha sv = (r, sv')"
  obtains (quiet) "sv' = sv" | (again) r1 where "admit E Y P p sv = (r1, sv')"
proof (cases "check_runtime_policy E Y P")
  case (Inl e)
  with assms quiet show ?thesis by (simp add: owner_backend_locked_def)
next
  case (Inr u)
  obtain r1 sv1 where a: "admit E Y P p sv = (r1, sv1)" by (cases "admit E Y P p sv")
  have "sv' = sv1" using assms Inr a by (auto simp: owner_backend_locked_def split: sum.splits if_splits)
  with a again show ?thesis by blast
qed

lemma step_ok: "service_step E P sv sv' \<Longrightarrow> service_ok sv \<Longrightarrow> service_ok sv'"
proof (induction rule: service_step.induct)
  case (admits Y p sv r sv')
  then show ?case by (rule admit_ok)
next
  case (publishes Y published protocol sv r receipt sv')
  from publish_ok [OF publishes(1,3,2)] show ?case .
next
  case (starts lease sv profile grant_sha frontend socket resume)
  show ?case by (rule service_ok_same [OF starts(2)]) (use service_okD(4) [OF starts(2)] in \<open>simp_all add: start_record_def\<close>)
next
  case (connects lease birth st backend sv r sv')
  then show ?case by (auto simp: backend_connected_def update_ok split: if_splits)
next
  case (backs Y p sv r sv')
  from backs(1) show ?case by (cases rule: helper_backend_cases) (use diagnosed_ok [OF backs(2)] admit_ok [OF _ backs(2)] in blast)+
next
  case (backs_owner Y p profile grant_sha sv r sv')
  from backs_owner(1) show ?case by (cases rule: locked_cases) (use backs_owner(2) admit_ok [OF _ backs_owner(2)] in blast)+
qed (simp_all add: spawned_def backend_failed_def backend_closed_def update_ok release_ok drop_ok attach_ok)

lemma new_service_ok: "service_ok new_service"
  by (simp add: service_ok_def new_service_def)

lemma steps_ok: "service_steps E P sv sv' \<Longrightarrow> service_ok sv \<Longrightarrow> service_ok sv'"
  by (induction rule: rtranclp_induct) (use step_ok in blast)+

section \<open>Admissions of owners\<close>

lemma admit_keeps: "admit E Y P p sv = (r, sv') \<Longrightarrow> map_of (sv_admissions sv) k = Some v \<Longrightarrow> map_of (sv_admissions sv') k = Some v"
  by (erule admit_cases) (auto dest: diagnosed_same)

lemma step_keeps: "service_step E P sv sv' \<Longrightarrow> map_of (sv_admissions sv) k = Some v \<Longrightarrow> map_of (sv_admissions sv') k = Some v"
proof (induction rule: service_step.induct)
  case (admits Y p sv r sv')
  then show ?case by (rule admit_keeps)
next
  case (publishes Y published protocol sv r receipt sv')
  from publishes(1) show ?case by (cases rule: publish_ready_cases) (use publishes(3) in simp_all)
next
  case (connects lease birth st backend sv r sv')
  then show ?case by (auto simp: backend_connected_def split: if_splits)
next
  case (backs Y p sv r sv')
  from backs(1) show ?case
    by (cases rule: helper_backend_cases) (use diagnosed_same [of sv sv'] admit_keeps [OF _ backs(2)] backs(2) in auto)
next
  case (backs_owner Y p profile grant_sha sv r sv')
  from backs_owner(1) show ?case by (cases rule: locked_cases) (use admit_keeps [OF _ backs_owner(2)] backs_owner(2) in auto)
qed (simp_all add: start_record_def spawned_def backend_failed_def backend_closed_def release_lease_def drop_admissions_def)

section \<open>What a released lease leaves\<close>

text \<open>A process has one admission, and a lease whose admissions are gone stays so.\<close>

definition forward :: "service \<Rightarrow> service \<Rightarrow> bool" where
  "forward sv sv' = (set (sv_over sv) \<subseteq> set (sv_over sv') \<and> (distinct (map fst (sv_helpers sv)) \<longrightarrow> distinct (map fst (sv_helpers sv'))))"

lemma forward_same: "sv_over sv' = sv_over sv \<Longrightarrow> sv_helpers sv' = sv_helpers sv \<Longrightarrow> forward sv sv'"
  by (simp add: forward_def)

lemma diagnosed_forward: "diagnosed sv sv' \<Longrightarrow> forward sv sv'"
  by (rule forward_same) (simp_all add: diagnosed_same)

lemma admit_forward:
  assumes "admit E Y P p sv = (r, sv')"
  shows "forward sv sv'"
  using assms
proof (cases rule: admit_cases)
  case nothing
  then show ?thesis by (simp add: diagnosed_forward)
next
  case (helper grant digest)
  from diagnosed_same [OF helper(5)] show ?thesis by (simp add: forward_def)
qed (simp add: forward_same)

lemma step_forward: "service_step E P sv sv' \<Longrightarrow> forward sv sv'"
proof (induction rule: service_step.induct)
  case (admits Y p sv r sv')
  then show ?case by (rule admit_forward)
next
  case (publishes Y published protocol sv r receipt sv')
  from publishes(1) show ?case by (cases rule: publish_ready_cases) (simp_all add: forward_same)
next
  case (connects lease birth st backend sv r sv')
  then show ?case by (auto simp: backend_connected_def forward_same split: if_splits)
next
  case (drops lease sv)
  show ?case by (auto simp: forward_def drop_admissions_def distinct_map_filter)
next
  case (backs Y p sv r sv')
  from backs(1) show ?case by (cases rule: helper_backend_cases) (auto dest: diagnosed_forward admit_forward)
next
  case (backs_owner Y p profile grant_sha sv r sv')
  from backs_owner(1) show ?case by (cases rule: locked_cases) (auto simp: forward_same dest: admit_forward)
qed (simp_all add: forward_same start_record_def spawned_def backend_failed_def backend_closed_def release_lease_def)

lemma steps_forward: "service_steps E P sv sv' \<Longrightarrow> forward sv sv'"
proof (induction rule: rtranclp_induct)
  case (step sv1 sv2)
  from step.IH step_forward [OF step.hyps(2)] show ?case unfolding forward_def by blast
qed (simp add: forward_def)

end
