(* ===== verification/LeaseProps.thy ===== *)
theory LeaseProps
  imports AdmissionProps
begin

text \<open>
  The properties of admission and of the leases: what an admitted helper has shown, what a run keeps of
  the admissions, the gates of a helper and the moment in which it gets none; with the concrete service
  they are applied to.
\<close>

section \<open>A service that runs\<close>

definition sample_peer :: peer where
  "sample_peer = \<lparr>pe_pid = Some 77, pe_uid = Some 501, pe_birth = Some ''b1'', pe_executable = Some ''/usr/bin/python3'', pe_source = ''s''\<rparr>"

definition sample_backend :: peer where
  "sample_backend = \<lparr>pe_pid = Some 60, pe_uid = Some 501, pe_birth = Some ''b0'', pe_executable = Some ''/bin/codex'', pe_source = ''s''\<rparr>"

definition service_platform :: platform where
  "service_platform = sample_platform\<lparr>p_scan := \<lambda>_. Some (JObj sample_grant), p_sha256 := \<lambda>_. sample_digest, p_uid := 501\<rparr>"

definition socket_node :: node where
  "socket_node = \<lparr>nd_dev = 1, nd_ino = 2, nd_uid = 501, nd_kind = KSocket, nd_perm = 448, nd_size = 0, nd_mtime = 0, nd_ctime = 0\<rparr>"

definition file_node :: node where
  "file_node = \<lparr>nd_dev = 1, nd_ino = 3, nd_uid = 501, nd_kind = KRegular, nd_perm = 384, nd_size = 2, nd_mtime = 0, nd_ctime = 0\<rparr>"

definition sample_system :: system where
  "sample_system = \<lparr>sy_resolve = Inr, sy_realpath = id, sy_symlink = (\<lambda>_. False), sy_lstat = (\<lambda>_. Inr socket_node),
     sy_open = (\<lambda>_. Inr (file_node, ''{}'', file_node)),
     sy_process = (\<lambda>pid. if pid = Some 77 then (Some ''b1'', Some ''/usr/bin/python3'') else (Some ''b0'', Some ''/bin/codex'')),
     sy_kill = (\<lambda>_. Inr ())\<rparr>"

definition sample_context :: profile_context where
  "sample_context = \<lparr>cx_profile = ''p1'', cx_home = ''/h'', cx_codex_home = ''/c'', cx_workspace = ''/w'', cx_backend_socket = ''/private/b'',
     cx_executable_sha256 = sample_digest\<rparr>"

definition sample_policy :: policy where
  "sample_policy = \<lparr>po_contexts = [(''p1'', sample_context)], po_directory_pins = [], po_config_pins = [(''/c/config.toml'', sample_digest)],
     po_file_pins = [], po_executable = ''/bin/codex'', po_executable_sha256 = sample_digest, po_isolation = ''/i.json'',
     po_isolation_sha256 = sample_digest,
     po_helper_pins = [(''executable'', JStr ''/usr/bin/python3''), (''executable_sha256'', JStr sample_digest),
        (''source_path'', JStr ''/h.py''), (''source_sha256'', JStr sample_digest)],
     po_state_dir = ''/state'', po_grants_dir = ''/grants'', po_activation_id = ''a'', po_manifest_sha256 = sample_digest,
     po_service = [], po_tui_policy = True\<rparr>"

definition sample_protocol :: jdict where
  "sample_protocol = [(''lease_id'', JStr ''lease-1''), (''connection_id'', JStr ''conn-1''), (''epoch'', JInt 3),
     (''thread'', JObj [(''id'', JStr ''owner'')])]"

definition service_started :: service where
  "service_started = spawned ''lease-1'' 60 (start_record ''lease-1'' ''p1'' sample_digest relay_peer ''/private/s'' JNull new_service)"

definition service_connected :: service where
  "service_connected = snd (backend_connected service_platform sample_policy ''lease-1'' ''b0'' socket_node sample_backend service_started)"

definition service_ready :: service where
  "service_ready = snd (snd (publish_ready service_platform sample_system sample_policy (Inr ()) sample_protocol service_connected))"

definition service_admitted :: service where
  "service_admitted = snd (admit service_platform sample_system sample_policy sample_peer service_ready)"

definition service_released :: service where
  "service_released = drop_admissions ''lease-1'' (release_lease ''lease-1'' service_admitted)"

lemma service_connected_free: "sv_leases service_connected = []" "sv_closing service_connected = []" "sv_over service_connected = []"
  by (simp_all add: service_connected_def backend_connected_def service_started_def spawned_def start_record_def new_service_def)

lemma service_admitted_run: "service_steps service_platform sample_policy new_service service_admitted"
proof -
  let ?E = service_platform and ?P = sample_policy
  have "service_step ?E ?P new_service (start_record ''lease-1'' ''p1'' sample_digest relay_peer ''/private/s'' JNull new_service)"
    by (rule service_step.starts) (simp add: new_service_def record_for_lease_def)
  moreover have "service_step ?E ?P (start_record ''lease-1'' ''p1'' sample_digest relay_peer ''/private/s'' JNull new_service) service_started"
    unfolding service_started_def by (rule service_step.spawns)
  moreover have "service_step ?E ?P service_started service_connected"
    unfolding service_connected_def by (rule service_step.connects [OF surjective_pairing])
  moreover have "publish_ready ?E sample_system ?P (Inr ()) sample_protocol service_connected = (r, receipt, service_ready)"
    if "publish_ready ?E sample_system ?P (Inr ()) sample_protocol service_connected = (r, receipt, sv)" for r receipt sv
    using that by (simp add: service_ready_def)
  then have "service_step ?E ?P service_connected service_ready"
    by (cases "publish_ready ?E sample_system ?P (Inr ()) sample_protocol service_connected")
       (rule service_step.publishes, blast, simp add: unreleased_def service_connected_free)
  moreover have "service_step ?E ?P service_ready service_admitted"
    unfolding service_admitted_def by (rule service_step.admits [OF surjective_pairing])
  ultimately show ?thesis by (meson r_into_rtranclp rtranclp.rtrancl_into_rtrancl)
qed

lemma service_admits: "fst (admit service_platform sample_system sample_policy sample_peer service_ready) = Inr True"
  by code_simp

lemma service_helper: "map_option fst (map_of (sv_helpers service_admitted) (peer_key sample_peer)) = Some sample_grant"
  by code_simp

lemma service_opens: "helper_opens sample_system sample_peer sample_grant service_admitted = Inr (sample_lease\<lparr>ol_owner_registered := False\<rparr>)"
  by code_simp

lemma service_attached: "helper_attached service_platform sample_system sample_policy sample_backend sample_grant (Inr ()) service_released = Inr ()"
  by code_simp

section \<open>Properties\<close>

text \<open>
  C22. A helper that is admitted is bound in every respect: its process is the one of the peer and of the grant, run by
  the user of the service from the pinned executable with the pinned source; its grant names a live lease of a
  connected backend and repeats the profile, the context, the connection, the epoch, the thread and the socket of the lease,
  and the record of the backend agrees; the socket is still the one that was frozen; and the grant file is
  the one it was admitted with before, if it was.
\<close>

theorem helper_admission_is_bound:
  assumes "admit E Y P p sv = (Inr True, sv')" and "private_json E Y (grant_path P (pe_pid p)) = Inr (grant, digest)"
    and "dget grant ''role'' = JStr ''owner-helper''"
  shows "lease_bound E Y P grant sv
    \<and> pe_uid p = Some (p_uid E) \<and> sy_process Y (pe_pid p) = (pe_birth p, pe_executable p)
    \<and> py_eq (dget grant ''helper_pid'') (int_json (pe_pid p)) \<and> py_eq (dget grant ''helper_uid'') (int_json (pe_uid p))
    \<and> dget grant ''helper_birth'' = str_json (pe_birth p) \<and> dget grant ''helper_executable'' = str_json (pe_executable p)
    \<and> dget grant ''helper_executable'' = dget (po_helper_pins P) ''executable''
    \<and> (\<exists>h. pinned_sha E Y (mk_path (str_of (str_json (pe_executable p)))) = Inr h \<and> JStr h = dget (po_helper_pins P) ''executable_sha256'')
    \<and> (\<exists>h. pinned_sha E Y (mk_path (str_of (dget (po_helper_pins P) ''source_path''))) = Inr h \<and> JStr h = dget grant ''helper_source_sha256'')
    \<and> (\<forall>old h. map_of (sv_helpers sv) (peer_key p) = Some (old, h) \<longrightarrow> h = digest)
    \<and> map_of (sv_helpers sv') (peer_key p) = Some (grant, digest)"
  using assms(1)
proof (cases rule: admit_cases)
  case nothing
  with assms show ?thesis by auto
next
  case (owner grant' digest')
  with assms show ?thesis by simp
next
  case (helper grant' digest')
  with assms(2) have same: "grant' = grant" "digest' = digest" by simp_all
  from helper(4) have checks: "helper_pin_checks E Y P p grant = Inr ()"
    "\<forall>old h. map_of (sv_helpers sv) (peer_key p) = Some (old, h) \<longrightarrow> h = digest"
    "py_eq (dget grant ''helper_pid'') (int_json (pe_pid p))" "py_eq (dget grant ''helper_uid'') (int_json (pe_uid p))"
    "dget grant ''helper_birth'' = str_json (pe_birth p)" "dget grant ''helper_executable'' = str_json (pe_executable p)"
    unfolding same by (auto simp: helper_checks_def split: sum.splits option.splits)
  from checks(1) obtain h1 h2 where
    "pinned_sha E Y (mk_path (str_of (dget (po_helper_pins P) ''source_path''))) = Inr h1" "JStr h1 = dget grant ''helper_source_sha256''"
    "pinned_sha E Y (mk_path (str_of (str_json (pe_executable p)))) = Inr h2" "JStr h2 = dget (po_helper_pins P) ''executable_sha256''"
    "dget grant ''helper_executable'' = dget (po_helper_pins P) ''executable''"
    by (auto simp: helper_pin_checks_def Let_def)
  moreover have "map_of (sv_helpers sv') (peer_key p) = Some (grant, digest)" using diagnosed_same [OF helper(5)] same by simp
  moreover have "lease_bound E Y P grant sv" using helper_checks_bound [OF helper(4)] same by simp
  ultimately show ?thesis using helper(7,8) checks(2-) by blast
qed

theorem helper_admission_is_bound_witness: "lease_bound service_platform sample_system sample_policy sample_grant service_ready"
proof -
  have "private_json service_platform sample_system (grant_path sample_policy (pe_pid sample_peer)) = Inr (sample_grant, sample_digest)" by code_simp
  moreover have "dget sample_grant ''role'' = JStr ''owner-helper''" by code_simp
  moreover have "admit service_platform sample_system sample_policy sample_peer service_ready = (Inr True, service_admitted)"
    using service_admits by (simp add: service_admitted_def prod_eq_iff)
  ultimately show ?thesis using helper_admission_is_bound by blast
qed

text \<open>
  An admission of an owner is never changed: once a process is admitted for a profile with a grant, it
  stays admitted for that profile and that grant only, whatever else the service does.
\<close>

theorem owner_admission_is_permanent:
  assumes "service_steps E P sv sv'" and "map_of (sv_admissions sv) k = Some v"
  shows "map_of (sv_admissions sv') k = Some v"
  using assms by (induction rule: rtranclp_induct) (use step_keeps in blast)+

theorem owner_admission_is_permanent_witness:
  "map_of (sv_admissions (release_lease ''l'' (new_service\<lparr>sv_admissions := [((Some 5, None, None), (JNull, ''g''))]\<rparr>))) (Some 5, None, None) = Some (JNull, ''g'')"
proof -
  let ?s = "new_service\<lparr>sv_admissions := [((Some 5, None, None), (JNull, ''g''))]\<rparr>"
  have "service_step service_platform sample_policy ?s (release_lease ''l'' ?s)" by (rule service_step.releases) (simp_all add: new_service_def)
  from owner_admission_is_permanent [OF r_into_rtranclp [of "service_step service_platform sample_policy", OF this], of "(Some 5, None, None)" "(JNull, ''g'')"]
  show ?thesis by simp
qed

text \<open>
  C23. The admission of a helper lives and dies with its lease: in every run, an admitted helper belongs to
  a lease that is live, and then the gates of its connection are those of the thread of that very lease, or
  whose release is under way; no admission of a released lease is left. At most 64 diagnostics are kept.
\<close>

theorem helper_admission_follows_lease:
  assumes "service_steps E P new_service sv" and "map_of (sv_helpers sv) (peer_key p) = Some (grant, h)"
  shows "\<exists>lid. dget grant ''lease_id'' = JStr lid \<and> lid \<notin> set (sv_over sv)
    \<and> (map_of (sv_leases sv) lid = None \<longrightarrow> lid \<in> set (sv_closing sv))
    \<and> (\<forall>l. map_of (sv_leases sv) lid = Some l \<longrightarrow>
         connection_gates with_auth p sv = wire_gate_factory with_auth (Some (ol_owner_thread_id l)))
    \<and> length (sv_rows sv) \<le> 64"
proof -
  have ok: "service_ok sv" by (rule steps_ok [OF assms(1) new_service_ok])
  have "(peer_key p, grant, h) \<in> set (sv_helpers sv)" using assms(2) by (rule map_of_SomeD)
  then have "admission_ok sv grant" by (rule service_okD(1) [OF ok])
  then obtain i where i: "dget grant ''lease_id'' = JStr i" "map_of (sv_leases sv) i = None \<longrightarrow> i \<in> set (sv_closing sv)"
    "\<forall>l. map_of (sv_leases sv) i = Some l \<longrightarrow> dget grant ''owner_thread_id'' = JStr (ol_owner_thread_id l)" by (rule admission_okE)
  have over: "i \<notin> set (sv_over sv)" using i(2) service_okD(2,3) [OF ok, of i] by blast
  have gates: "connection_gates with_auth p sv = wire_gate_factory with_auth (Some (ol_owner_thread_id l))" if "map_of (sv_leases sv) i = Some l" for l
    using i(3) that assms(2) by (simp add: connection_gates_def str_of_def)
  have rows: "length (sv_rows sv) \<le> 64" using service_okD(4) [OF ok] by (simp add: max_diagnostics_def)
  show ?thesis by (rule exI [of _ i]) (intro conjI allI impI gates; use i over rows in simp)
qed

theorem helper_admission_follows_lease_witness:
  "connection_gates False sample_peer service_admitted = HelperOnly (helper_gates ''owner'')"
proof -
  obtain h where h: "map_of (sv_helpers service_admitted) (peer_key sample_peer) = Some (sample_grant, h)"
    using service_helper by auto
  have lease: "map_of (sv_leases service_admitted) ''lease-1'' = Some (sample_lease\<lparr>ol_owner_registered := False\<rparr>)" by code_simp
  have "dget sample_grant ''lease_id'' = JStr ''lease-1''" by code_simp
  with helper_admission_follows_lease [OF service_admitted_run h, of False] lease
  have "connection_gates False sample_peer service_admitted = wire_gate_factory False (Some (ol_owner_thread_id (sample_lease\<lparr>ol_owner_registered := False\<rparr>)))" by auto
  then show ?thesis by (simp add: wire_gate_factory_def sample_lease_def)
qed

text \<open>
  C24. Between the check of a grant and the gates of the connection the admission can go away: in any run, when the
  owner leaves (its lease is released and the admissions of the lease are dropped) while the connection of an admitted
  helper is awaited, the checks after the connection still answer as if it had not left, and the factory, which
  finds no admission, gives the helper the gates of an owner, which are none at all without
  authentication, in place of those of the owner's thread; and no admission for this lease ever comes back.
\<close>

theorem helper_connects_without_gate:
  assumes "service_steps E P new_service sv" and "map_of (sv_helpers sv) (peer_key p) = Some (grant, h)" and "helper_opens Y p grant sv = Inr l"
  shows "\<exists>lid. dget grant ''lease_id'' = JStr lid
    \<and> service_steps E P sv (drop_admissions lid (release_lease lid sv))
    \<and> connection_gates with_auth p sv = wire_gate_factory with_auth (Some (ol_owner_thread_id l))
    \<and> (\<forall>backend published. helper_attached E Y P backend grant published (drop_admissions lid (release_lease lid sv))
         = helper_attached E Y P backend grant published sv)
    \<and> connection_gates with_auth p (drop_admissions lid (release_lease lid sv)) = (if with_auth then AuthOnly auth_wire_gates else Unchecked)
    \<and> (\<forall>sv' k g h'. service_steps E P (drop_admissions lid (release_lease lid sv)) sv' \<longrightarrow> (k, g, h') \<in> set (sv_helpers sv')
         \<longrightarrow> dget g ''lease_id'' \<noteq> JStr lid)"
proof -
  from assms(3) obtain lid where lid: "dget grant ''lease_id'' = JStr lid" "map_of (sv_leases sv) lid = Some l"
  proof -
    obtain found where found: "lookup_json (sv_leases sv) (dget grant ''lease_id'') = Inr found"
      using assms(3) by (auto simp: helper_opens_def)
    then obtain r where "found = Some l" "record_for_lease (dget grant ''lease_id'') sv = Some r"
      using assms(3) by (cases found; cases "record_for_lease (dget grant ''lease_id'') sv") (auto simp: helper_opens_def)
    with found that show thesis by (auto simp: lookup_json_some)
  qed
  let ?r = "release_lease lid sv" and ?d = "drop_admissions lid (release_lease lid sv)"
  have ok: "service_ok sv" by (rule steps_ok [OF assms(1) new_service_ok])
  have free: "lid \<notin> set (sv_closing sv)" "lid \<notin> set (sv_over sv)" using service_okD(2) [OF ok, of lid] lid(2) by simp_all
  have "service_step E P sv ?r" by (rule service_step.releases) (rule free)+
  moreover have "service_step E P ?r ?d" by (rule service_step.drops) (simp add: release_lease_def)
  ultimately have steps: "service_steps E P sv ?d" by (meson r_into_rtranclp rtranclp.rtrancl_into_rtrancl)
  obtain lid' where "dget grant ''lease_id'' = JStr lid'"
    "\<forall>l. map_of (sv_leases sv) lid' = Some l \<longrightarrow> connection_gates with_auth p sv = wire_gate_factory with_auth (Some (ol_owner_thread_id l))"
  proof -
    have "admission_ok sv grant" using service_okD(1) [OF ok map_of_SomeD [OF assms(2)]] .
    then show thesis using that assms(2) by (auto simp: admission_ok_def connection_gates_def)
  qed
  with lid have gates: "connection_gates with_auth p sv = wire_gate_factory with_auth (Some (ol_owner_thread_id l))" by simp
  have same: "helper_attached E Y P backend grant published ?d = helper_attached E Y P backend grant published sv" for backend published
    by (simp add: helper_attached_def record_for_lease_def drop_admissions_def release_lease_def)
  have keys: "distinct (map fst (sv_helpers sv))" using steps_forward [OF assms(1)] by (simp add: forward_def new_service_def)
  have "(peer_key p, g, h') \<notin> set (sv_helpers ?d)" for g h'
  proof
    assume "(peer_key p, g, h') \<in> set (sv_helpers ?d)"
    then have "(peer_key p, g, h') \<in> set (sv_helpers sv)" and other: "dget g ''lease_id'' \<noteq> JStr lid"
      by (simp_all add: drop_admissions_def release_lease_def)
    from map_of_is_SomeI [OF keys this(1)] assms(2) have "g = grant" by simp
    with other lid(1) show False by simp
  qed
  then have "map_of (sv_helpers ?d) (peer_key p) = None" by (auto simp: map_of_eq_None_iff)
  then have bare: "connection_gates with_auth p ?d = (if with_auth then AuthOnly auth_wire_gates else Unchecked)"
    by (simp add: connection_gates_def wire_gate_factory_def)
  have never: "dget g ''lease_id'' \<noteq> JStr lid" if "service_steps E P ?d sv'" "(k, g, h') \<in> set (sv_helpers sv')" for sv' k g h'
  proof -
    have "lid \<in> set (sv_over sv')" using steps_forward [OF that(1)] by (auto simp: forward_def drop_admissions_def)
    moreover have "service_ok sv'" by (rule steps_ok [OF that(1) steps_ok [OF steps ok]])
    ultimately show ?thesis using service_okD(1) [OF _ that(2)] service_okD(2,3) [of sv' lid] by (auto simp: admission_ok_def)
  qed
  show ?thesis by (rule exI [of _ lid]) (intro conjI allI impI lid(1) steps gates same bare never)
qed

theorem helper_connects_without_gate_witness:
  "connection_gates False sample_peer service_admitted = HelperOnly (helper_gates ''owner'')
     \<and> helper_attached service_platform sample_system sample_policy sample_backend sample_grant (Inr ()) service_released = Inr ()
     \<and> connection_gates False sample_peer service_released = Unchecked"
proof -
  obtain h where h: "map_of (sv_helpers service_admitted) (peer_key sample_peer) = Some (sample_grant, h)"
    using service_helper by auto
  have lid: "dget sample_grant ''lease_id'' = JStr ''lease-1''" by code_simp
  from helper_connects_without_gate [OF service_admitted_run h service_opens, of False] lid
  have "connection_gates False sample_peer service_admitted = wire_gate_factory False (Some (ol_owner_thread_id (sample_lease\<lparr>ol_owner_registered := False\<rparr>)))"
    "connection_gates False sample_peer service_released = Unchecked" by (simp_all add: service_released_def)
  then show ?thesis using service_attached by (simp add: wire_gate_factory_def sample_lease_def)
qed

end
