(* ===== verification/ResumeProps.thy ===== *)
theory ResumeProps
  imports LeaseProps
begin

text \<open>What has to be over before the thread of an earlier owner is resumed.\<close>

section \<open>The proof of a resumed owner\<close>

lemma gone_ok: "gone Y d = Inr True \<longleftrightarrow> (\<exists>pid birth executable. map_of d ''pid'' = Some pid \<and> map_of d ''birth'' = Some birth
    \<and> map_of d ''executable'' = Some executable \<and> original_process_gone Y pid birth executable = Inr True)"
  by (auto simp: gone_def dreq_def andThen_def split: option.splits)

lemma resume_gone_ok:
  assumes "resume_gone Y P lexists activation opened final = Inr u"
  shows "\<exists>frontend. gone Y final = Inr True \<and> map_of final ''frontend'' = Some (JObj frontend) \<and> gone Y frontend = Inr True
    \<and> (\<exists>path. map_of final ''private_socket'' = Some (JStr path) \<and> \<not> lexists path)
    \<and> (\<exists>helpers. py_iter (dget_or final ''helpers'' (JArr [])) = Inr helpers \<and> (\<forall>h \<in> set helpers. is_obj h \<and> dget (obj_of h) ''state'' = JStr ''closed''))
    \<and> (activation \<noteq> po_activation_id P \<longrightarrow>
         gone Y (obj_of (dget_or (obj_of (dget_or opened ''owner_lease'' (JObj []))) ''service_identity'' (JObj []))) = Inr True)"
proof -
  from assms obtain frontend socket where 1: "gone Y final = Inr True" "dreq final ''frontend'' = Inr frontend" "is_obj frontend"
    "gone Y (obj_of frontend) = Inr True" "dreq final ''private_socket'' = Inr socket" "is_str socket" "\<not> lexists (str_of socket)"
    and helpers: "\<exists>helpers. py_iter (dget_or final ''helpers'' (JArr [])) = Inr helpers \<and> (\<forall>h \<in> set helpers. is_obj h \<and> dget (obj_of h) ''state'' = JStr ''closed'')"
    and 2: "activation \<noteq> po_activation_id P \<Longrightarrow>
         gone Y (obj_of (dget_or (obj_of (dget_or opened ''owner_lease'' (JObj []))) ''service_identity'' (JObj []))) = Inr True"
    by (auto simp: resume_gone_def result_simps Let_def split: if_splits)
  from 1(3,6) obtain f path where fp: "frontend = JObj f" "socket = JStr path" by (auto simp: is_obj_iff is_str_iff)
  show ?thesis
  proof (intro exI [of _ f] conjI impI)
    show "gone Y final = Inr True" by (rule 1)
    show "map_of final ''frontend'' = Some (JObj f)" using 1(2) fp by (simp add: dreq_def split: option.splits)
    show "gone Y f = Inr True" using 1(4) fp by simp
    show "\<exists>path. map_of final ''private_socket'' = Some (JStr path) \<and> \<not> lexists path" using 1(5,7) fp by (simp add: dreq_def split: option.splits)
  qed (rule helpers, rule 2)
qed

lemma resume_bound_ok:
  assumes "resume_bound E Y P activation lease thread profile x opened final = Inr u"
  shows "\<exists>binding sha. dget_or opened ''owner_lease'' (JObj []) = JObj binding \<and> dget binding ''lease_id'' = JStr lease
    \<and> py_eq (dget binding ''owner_thread_id'') thread \<and> dget binding ''profile_id'' = JStr profile
    \<and> owner_context_sha E Y P x = Inr sha \<and> dget binding ''owner_context_sha256'' = JStr sha
    \<and> (\<forall>k \<in> set resume_binding_keys. py_eq (dget final k) (dget binding k))
    \<and> dget final ''state'' = JStr ''closed'' \<and> truthy (dget final ''process_stopped'') \<and> truthy (dget final ''socket_removed'')
    \<and> \<not> truthy (dget final ''cleanup_failure'')
    \<and> py_eq (dget final ''pid'') (dget binding ''backend_pid'') \<and> py_eq (dget final ''birth'') (dget binding ''backend_birth'')
    \<and> py_eq (dget final ''frontend'') (dget opened ''frontend'')
    \<and> (\<exists>guardian. dget_or final ''guardian'' (JObj []) = JObj guardian \<and> dget guardian ''child_reaped'' = JBool True)
    \<and> dget opened ''activation_id'' = JStr activation \<and> dget opened ''manifest_sha256'' = JStr (po_manifest_sha256 P)"
proof -
  from assms have "is_obj (dget_or opened ''owner_lease'' (JObj []))" by (simp add: resume_bound_def result_simps Let_def)
  then obtain binding where b: "dget_or opened ''owner_lease'' (JObj []) = JObj binding" by (auto simp: is_obj_iff)
  from assms obtain sha where "owner_context_sha E Y P x = Inr sha" by (auto simp: resume_bound_def result_simps Let_def)
  moreover from assms have "is_obj (dget_or final ''guardian'' (JObj []))" by (auto simp: resume_bound_def result_simps Let_def)
  then obtain guardian where "dget_or final ''guardian'' (JObj []) = JObj guardian" by (auto simp: is_obj_iff)
  ultimately show ?thesis using assms b by (intro exI [of _ binding] exI [of _ sha]) (simp add: resume_bound_def result_simps Let_def list_all_iff)
qed

section \<open>A proof that is accepted\<close>

definition old_activation :: string where
  "old_activation = replicate 32 CHR ''a''"

definition old_lease :: string where
  "old_lease = replicate 12 CHR ''b''"

definition old_binding :: jdict where
  "old_binding = [(''lease_id'', JStr old_lease), (''profile_id'', JStr ''p1''), (''owner_thread_id'', JStr ''owner''),
     (''owner_context_sha256'', JStr sample_digest), (''owner_connection_id'', JStr ''conn-1''), (''owner_epoch'', JInt 3),
     (''private_socket'', JStr ''/private/s''), (''backend_pid'', JInt 60), (''backend_birth'', JStr ''b9''),
     (''service_identity'', JObj [(''pid'', JInt 61), (''birth'', JStr ''b9''), (''executable'', JStr ''/bin/service'')])]"

definition old_frontend :: jdict where
  "old_frontend = [(''pid'', JInt 62), (''birth'', JStr ''b9''), (''executable'', JStr ''/bin/tui'')]"

definition old_ready :: jdict where
  "old_ready = [(''activation_id'', JStr old_activation), (''manifest_sha256'', JStr sample_digest), (''owner_lease'', JObj old_binding),
     (''frontend'', JObj old_frontend)]"

definition old_final :: jdict where
  "old_final = [(''lease_id'', JStr old_lease), (''profile_id'', JStr ''p1''), (''owner_thread_id'', JStr ''owner''),
     (''owner_context_sha256'', JStr sample_digest), (''owner_connection_id'', JStr ''conn-1''), (''owner_epoch'', JInt 3),
     (''private_socket'', JStr ''/private/s''), (''pid'', JInt 60), (''birth'', JStr ''b9''), (''executable'', JStr ''/bin/codex''),
     (''frontend'', JObj old_frontend), (''state'', JStr ''closed''), (''process_stopped'', JBool True), (''socket_removed'', JBool True),
     (''guardian'', JObj [(''child_reaped'', JBool True)]), (''helpers'', JArr [JObj [(''state'', JStr ''closed'')]])]"

definition old_proof :: json where
  "old_proof = JObj [(''activation_id'', JStr old_activation), (''lease_id'', JStr old_lease), (''ready_sha256'', JStr sample_digest),
     (''backend_sha256'', JStr sample_digest)]"

definition resume_platform :: platform where
  "resume_platform = service_platform\<lparr>p_scan := \<lambda>text. if text = ''r'' then Some (JObj old_ready) else Some (JObj old_final)\<rparr>"

text \<open>Every process of the earlier owner is gone: its identifier now belongs to a process born later.\<close>

definition resume_system :: system where
  "resume_system = sample_system\<lparr>
     sy_lstat := \<lambda>_. Inr (socket_node\<lparr>nd_kind := KDirectory\<rparr>),
     sy_open := \<lambda>p. Inr (file_node\<lparr>nd_size := 1\<rparr>, if starts_with (''/state/'' @ old_activation @ ''/ready'') p then ''r'' else ''f'', file_node\<lparr>nd_size := 1\<rparr>),
     sy_process := \<lambda>_. (Some ''later'', Some ''/bin/other'')\<rparr>"

lemma resume_accepted:
  "resume_owner_proof resume_platform resume_system sample_policy (\<lambda>_. False) old_proof (JStr ''owner'') ''p1'' sample_context = Inr ()"
  by code_simp

section \<open>Property\<close>

text \<open>
  C25. A thread is resumed only when its earlier owner is over: an accepted proof points to the ready and the
  final receipt of one lease, both with the digests of the proof; they are of this manifest, of that thread,
  profile and context; the final one agrees with the ready one in lease, profile, thread, context, connection, epoch,
  socket, process and frontend, and reports the backend closed, stopped and reaped, its socket removed, every helper
  closed and no cleanup failed; its
  process and that of its frontend no longer run, the socket is gone, and when it was another service that
  started it, that service no longer runs either.
\<close>

theorem resume_needs_dead_owner:
  assumes "resume_owner_proof E Y P lexists proof thread profile x = Inr u"
  shows "\<exists>d activation lease opened final binding frontend sha ready_sha final_sha.
     proof = JObj d \<and> dget d ''activation_id'' = JStr activation \<and> dget d ''lease_id'' = JStr lease
     \<and> private_json E Y (po_state_dir P @ ''/'' @ activation @ ''/ready-'' @ lease @ ''.json'') = Inr (opened, ready_sha)
     \<and> private_json E Y (po_state_dir P @ ''/'' @ activation @ ''/backend-'' @ lease @ ''.json'') = Inr (final, final_sha)
     \<and> dget d ''ready_sha256'' = JStr ready_sha \<and> dget d ''backend_sha256'' = JStr final_sha
     \<and> dget opened ''activation_id'' = JStr activation \<and> dget opened ''manifest_sha256'' = JStr (po_manifest_sha256 P)
     \<and> dget_or opened ''owner_lease'' (JObj []) = JObj binding \<and> dget binding ''lease_id'' = JStr lease
     \<and> py_eq (dget binding ''owner_thread_id'') thread \<and> dget binding ''profile_id'' = JStr profile
     \<and> owner_context_sha E Y P x = Inr sha \<and> dget binding ''owner_context_sha256'' = JStr sha
     \<and> (\<forall>k \<in> {''lease_id'', ''profile_id'', ''owner_thread_id'', ''owner_context_sha256'', ''owner_connection_id'', ''owner_epoch'', ''private_socket''}.
          py_eq (dget final k) (dget binding k))
     \<and> py_eq (dget final ''pid'') (dget binding ''backend_pid'') \<and> py_eq (dget final ''birth'') (dget binding ''backend_birth'')
     \<and> py_eq (dget final ''frontend'') (dget opened ''frontend'')
     \<and> dget final ''state'' = JStr ''closed'' \<and> truthy (dget final ''process_stopped'') \<and> truthy (dget final ''socket_removed'')
     \<and> \<not> truthy (dget final ''cleanup_failure'')
     \<and> (\<exists>guardian. dget_or final ''guardian'' (JObj []) = JObj guardian \<and> dget guardian ''child_reaped'' = JBool True)
     \<and> (\<exists>helpers. py_iter (dget_or final ''helpers'' (JArr [])) = Inr helpers \<and> (\<forall>h \<in> set helpers. is_obj h \<and> dget (obj_of h) ''state'' = JStr ''closed''))
     \<and> gone Y final = Inr True \<and> map_of final ''frontend'' = Some (JObj frontend) \<and> gone Y frontend = Inr True
     \<and> (\<exists>path. map_of final ''private_socket'' = Some (JStr path) \<and> \<not> lexists path)
     \<and> (activation \<noteq> po_activation_id P \<longrightarrow> gone Y (obj_of (dget_or binding ''service_identity'' (JObj []))) = Inr True)"
proof -
  let ?d = "obj_of proof" and ?activation = "str_of (dget (obj_of proof) ''activation_id'')" and ?lease = "str_of (dget (obj_of proof) ''lease_id'')"
  from assms have shape: "is_obj proof" "is_str (dget ?d ''activation_id'')" "is_str (dget ?d ''lease_id'')"
    by (simp_all add: resume_owner_proof_def Let_def result_simps)
  from assms obtain opened ready_sha final final_sha where
    o: "private_json E Y ((po_state_dir P @ ''/'' @ ?activation) @ ''/ready-'' @ ?lease @ ''.json'') = Inr (opened, ready_sha)"
    and f: "private_json E Y ((po_state_dir P @ ''/'' @ ?activation) @ ''/backend-'' @ ?lease @ ''.json'') = Inr (final, final_sha)"
    and sha: "JStr ready_sha = dget ?d ''ready_sha256''" "JStr final_sha = dget ?d ''backend_sha256''"
    and b: "succeeds (resume_bound E Y P ?activation ?lease thread profile x opened final)"
    and g: "resume_gone Y P lexists ?activation opened final = Inr u"
    by (auto simp: resume_owner_proof_def Let_def result_simps succeeds_iff)
  from b obtain v where v: "resume_bound E Y P ?activation ?lease thread profile x opened final = Inr v" by (auto simp: succeeds_iff)
  have d: "proof = JObj ?d" "dget ?d ''activation_id'' = JStr ?activation" "dget ?d ''lease_id'' = JStr ?lease"
    using shape by (auto simp: is_obj_iff is_str_iff)
  from resume_bound_ok [OF v] obtain binding s where bound: "dget_or opened ''owner_lease'' (JObj []) = JObj binding"
    "dget binding ''lease_id'' = JStr ?lease" "py_eq (dget binding ''owner_thread_id'') thread" "dget binding ''profile_id'' = JStr profile"
    "owner_context_sha E Y P x = Inr s" "dget binding ''owner_context_sha256'' = JStr s"
    "\<forall>k \<in> set resume_binding_keys. py_eq (dget final k) (dget binding k)" "dget final ''state'' = JStr ''closed''"
    "truthy (dget final ''process_stopped'')" "truthy (dget final ''socket_removed'')" "\<not> truthy (dget final ''cleanup_failure'')"
    "py_eq (dget final ''pid'') (dget binding ''backend_pid'')" "py_eq (dget final ''birth'') (dget binding ''backend_birth'')"
    "py_eq (dget final ''frontend'') (dget opened ''frontend'')"
    "\<exists>guardian. dget_or final ''guardian'' (JObj []) = JObj guardian \<and> dget guardian ''child_reaped'' = JBool True"
    "dget opened ''activation_id'' = JStr ?activation" "dget opened ''manifest_sha256'' = JStr (po_manifest_sha256 P)" by auto
  from resume_gone_ok [OF g] obtain frontend where over: "gone Y final = Inr True" "map_of final ''frontend'' = Some (JObj frontend)"
    "gone Y frontend = Inr True" "\<exists>path. map_of final ''private_socket'' = Some (JStr path) \<and> \<not> lexists path"
    "\<exists>helpers. py_iter (dget_or final ''helpers'' (JArr [])) = Inr helpers \<and> (\<forall>h \<in> set helpers. is_obj h \<and> dget (obj_of h) ''state'' = JStr ''closed'')"
    "?activation \<noteq> po_activation_id P \<longrightarrow> gone Y (obj_of (dget_or binding ''service_identity'' (JObj []))) = Inr True"
    unfolding bound(1) by auto
  show ?thesis
    by (rule exI [of _ ?d], rule exI [of _ ?activation], rule exI [of _ ?lease], rule exI [of _ opened], rule exI [of _ final], rule exI [of _ binding],
        rule exI [of _ frontend], rule exI [of _ s], rule exI [of _ ready_sha], rule exI [of _ final_sha])
       (intro conjI d bound over bound(7) [unfolded resume_binding_keys_def list.set]; use o f sha in simp)
qed

theorem resume_needs_dead_owner_witness:
  "\<exists>final. gone resume_system final = Inr True \<and> dget final ''state'' = JStr ''closed''"
  using resume_needs_dead_owner [OF resume_accepted] by blast

end
