(* ===== verification/ReceiptStore.thy ===== *)
theory ReceiptStore
  imports PolicyFiles
begin

text \<open>
  The reader of receipts (\<open>runtime/native/receipt_store.py\<close>): it binds itself to one activation directory
  and pins every receipt it has read. The operating system is an argument of every call, so that
  the files may change between the calls and between the looks of one call.
\<close>

section \<open>The operating system\<close>

text \<open>\<open>identity\<close> holds the link count, too.\<close>

record linked = node +
  nd_nlink :: nat

text \<open>
  \<open>rf_stat\<close> is \<open>path.stat()\<close>, \<open>rf_names\<close> lists the state directory, \<open>rf_open_dir\<close> opens the directory of an
  activation and \<open>rf_children\<close> lists it. \<open>rf_open\<close> opens a receipt: \<open>fstat\<close> before, what can be read, \<open>fstat\<close>
  after. \<open>rf_again\<close> is \<open>rf_stat\<close> and \<open>rf_names\<close> when \<open>read\<close> looks a second time.
\<close>

record look =
  lk_resolve :: "string \<Rightarrow> string result"
  lk_symlink :: "string \<Rightarrow> bool"
  lk_stat :: "string \<Rightarrow> node result"
  lk_names :: "string list result"
  lk_open_dir :: "string \<Rightarrow> node result"

record receipt_files =
  rf_look :: look
  rf_again :: look
  rf_open :: "string \<Rightarrow> (linked \<times> string \<times> linked) result"
  rf_children :: "string list result"

section \<open>The store\<close>

definition receipt_error :: "string \<Rightarrow> exn" where
  "receipt_error reason = value_error reason"

definition receipt_directory :: "platform \<Rightarrow> look \<Rightarrow> string \<Rightarrow> dir_identity result" where
  "receipt_directory E L p =
     ensure (is_absolute p) (receipt_error ''receipt directory alias'')
    (andThen (lk_resolve L p) (\<lambda>r.
     ensure (r = p \<and> \<not> list_ex (lk_symlink L) (path_and_parents p)) (receipt_error ''receipt directory alias'')
    (andThen (lk_stat L p) (\<lambda>st.
     ensure (nd_kind st = KDirectory \<and> nd_uid st = p_uid E \<and> nd_perm st = perm_dir) (receipt_error ''receipt directory unsafe'')
    (Inr (node_identity st))))))"

type_synonym receipt_pin = "linked \<times> string"

record receipt_store =
  rs_pending :: bool
  rs_selected :: "string option"
  rs_state :: string
  rs_state_identity :: dir_identity
  rs_activation :: "(string \<times> dir_identity) option"
  rs_pins :: "(string \<times> receipt_pin) list"

text \<open>The constructor; \<open>opened\<close> is \<open>fstat\<close> of the state directory after it was opened.\<close>

definition new_receipt_store :: "platform \<Rightarrow> look \<Rightarrow> node result \<Rightarrow> string \<Rightarrow> string option \<Rightarrow> bool \<Rightarrow> receipt_store result" where
  "new_receipt_store E L opened state selected pending =
     ensure (case selected of None \<Rightarrow> True | Some a \<Rightarrow> hex_string 32 a) (receipt_error ''invalid explicit activation'')
    (andThen (receipt_directory E L (mk_path state)) (\<lambda>i.
     andThen opened (\<lambda>st.
     ensure (node_identity st = i) (receipt_error ''receipt state changed during open'')
    (Inr \<lparr>rs_pending = pending, rs_selected = selected, rs_state = mk_path state, rs_state_identity = i, rs_activation = None, rs_pins = []\<rparr>))))"

section \<open>Finding the activation\<close>

definition candidates :: "string option \<Rightarrow> string list \<Rightarrow> string list" where
  "candidates selected names = (case selected of None \<Rightarrow> names | Some a \<Rightarrow> filter (\<lambda>n. n = a) names)"

definition discover :: "platform \<Rightarrow> look \<Rightarrow> receipt_store \<Rightarrow> bool result \<times> receipt_store" where
  "discover E L s =
    (case andThen (receipt_directory E L (rs_state s)) (\<lambda>i. ensure (i = rs_state_identity s) (receipt_error ''receipt state replaced'')
        (andThen (lk_names L) (\<lambda>names.
         ensure (length names \<le> (if rs_selected s = None then 1 else 2) \<and> list_all (hex_string 32) names)
           (receipt_error ''multiple or invalid service activation'') (Inr (candidates (rs_selected s) names))))) of
       Inl e \<Rightarrow> (Inl e, s)
     | Inr [] \<Rightarrow> (if rs_activation s = None then Inr False else Inl (receipt_error ''bound activation disappeared''), s)
     | Inr (name # _) \<Rightarrow>
         (case receipt_directory E L (rs_state s @ ''/'' @ name) of Inl e \<Rightarrow> (Inl e, s) | Inr current \<Rightarrow>
         (case rs_activation s of
            Some bound \<Rightarrow> (if bound = (name, current) then Inr True else Inl (receipt_error ''service activation replaced''), s)
          | None \<Rightarrow> (case lk_open_dir L name of
               Inl e \<Rightarrow> (Inl e, s)
             | Inr st \<Rightarrow> if node_identity st = current then (Inr True, s\<lparr>rs_activation := Some (name, current)\<rparr>)
                 else (Inl (receipt_error ''activation changed during open''), s)))))"

section \<open>Reading a receipt\<close>

definition receipt_char :: "char \<Rightarrow> bool" where
  "receipt_char c = (in_range CHR ''a'' CHR ''z'' c \<or> in_range CHR ''0'' CHR ''9'' c \<or> c = CHR ''-'')"

definition receipt_name :: "string \<Rightarrow> bool" where
  "receipt_name name = (ends_with ''.json'' name \<and> 5 < length name \<and> list_all receipt_char (take (length name - 5) name))"

definition safe_receipt :: "platform \<Rightarrow> linked \<Rightarrow> bool" where
  "safe_receipt E st = (nd_kind st = KRegular \<and> nd_uid st = p_uid E \<and> nd_perm st = perm_file)"

text \<open>The bytes of a receipt that is complete; a pending one is no receipt yet.\<close>

definition read_bytes :: "platform \<Rightarrow> bool \<Rightarrow> linked \<times> string \<times> linked \<Rightarrow> (linked \<times> string) option result" where
  "read_bytes E pending f = (case f of (st, bytes, st') \<Rightarrow>
     if pending \<and> nd_nlink st = 2 then ensure (safe_receipt E st) (receipt_error ''pending receipt unsafe'') (Inr None)
     else
       ensure (safe_receipt E st \<and> nd_nlink st = 1 \<and> nd_size st \<le> 4194304) (receipt_error ''receipt file unsafe'')
      (ensure (nd_size st \<le> length bytes) (receipt_error ''receipt short read'')
      (ensure (length bytes = nd_size st \<and> st = st') (receipt_error ''receipt changed while reading'')
      (Inr (Some (st, bytes))))))"

text \<open>\<open>json.loads\<close> with its three hooks; a number that is not finite raises what a constant raises.\<close>

definition parse_receipt :: "platform \<Rightarrow> string \<Rightarrow> jdict result" where
  "parse_receipt E raw =
     andThen (loads_unique E (Raised ''JSONDecodeError'' []) (receipt_error ''duplicate receipt key'') (receipt_error ''nonfinite receipt number'') raw) (\<lambda>v.
     ensure (is_obj v) (receipt_error ''receipt shape invalid'') (Inr (obj_of v)))"

definition read_receipt :: "platform \<Rightarrow> receipt_files \<Rightarrow> string \<Rightarrow> receipt_store \<Rightarrow> (jdict \<times> string) option result \<times> receipt_store" where
  "read_receipt E F name s =
    (if \<not> receipt_name name then (Inl (receipt_error ''receipt filename invalid''), s)
     else case discover E (rf_look F) s of
       (Inl e, s1) \<Rightarrow> (Inl e, s1)
     | (Inr found, s1) \<Rightarrow>
         if \<not> found then (Inr None, s1)
         else (case rf_open F name of
             Inl e \<Rightarrow> (if exn_class e = ''FileNotFoundError'' then Inr None else Inl e, s1)
           | Inr f \<Rightarrow> (case read_bytes E (rs_pending s1) f of
               Inl e \<Rightarrow> (Inl e, s1)
             | Inr None \<Rightarrow> (Inr None, s1)
             | Inr (Some (st, raw)) \<Rightarrow>
                 (let pin = (st, p_sha256 E raw) in
                  if (case map_of (rs_pins s1) name of None \<Rightarrow> False | Some p \<Rightarrow> p \<noteq> pin) then (Inl (receipt_error ''receipt replaced''), s1)
                  else let s2 = s1\<lparr>rs_pins := dict_set name pin (rs_pins s1)\<rparr> in
                    (case parse_receipt E raw of
                       Inl e \<Rightarrow> (Inl e, s2)
                     | Inr v \<Rightarrow> (case discover E (rf_again F) s2 of
                         (Inl e, s3) \<Rightarrow> (Inl e, s3)
                       | (Inr _, s3) \<Rightarrow> (Inr (Some (v, snd pin)), s3)))))))"

definition children :: "platform \<Rightarrow> receipt_files \<Rightarrow> receipt_store \<Rightarrow> string list result \<times> receipt_store" where
  "children E F s = (case discover E (rf_look F) s of
      (Inl e, s1) \<Rightarrow> (Inl e, s1)
    | (Inr found, s1) \<Rightarrow> (if found then rf_children F else Inr [], s1))"

section \<open>What is bound stays bound\<close>

inductive store_step :: "platform \<Rightarrow> receipt_store \<Rightarrow> receipt_store \<Rightarrow> bool" for E where
  discovered: "discover E L s = (r, s') \<Longrightarrow> store_step E s s'"
| read: "read_receipt E F name s = (r, s') \<Longrightarrow> store_step E s s'"
| listed: "children E F s = (r, s') \<Longrightarrow> store_step E s s'"

abbreviation store_steps :: "platform \<Rightarrow> receipt_store \<Rightarrow> receipt_store \<Rightarrow> bool" where
  "store_steps E \<equiv> (store_step E)\<^sup>*\<^sup>*"

definition keeps_bound :: "receipt_store \<Rightarrow> receipt_store \<Rightarrow> bool" where
  "keeps_bound s s' = ((\<forall>a. rs_activation s = Some a \<longrightarrow> rs_activation s' = Some a)
     \<and> (\<forall>name pin. map_of (rs_pins s) name = Some pin \<longrightarrow> map_of (rs_pins s') name = Some pin))"

lemma keeps_bound_refl [simp]: "keeps_bound s s"
  by (simp add: keeps_bound_def)

lemma keeps_bound_trans: "keeps_bound s s1 \<Longrightarrow> keeps_bound s1 s2 \<Longrightarrow> keeps_bound s s2"
  by (simp add: keeps_bound_def)

lemma discover_keeps:
  assumes "discover E L s = (r, s')"
  shows "keeps_bound s s'" "rs_pins s' = rs_pins s" "r = Inr True \<Longrightarrow> rs_activation s' \<noteq> None"
  using assms by (auto simp: discover_def keeps_bound_def split: sum.splits list.splits option.splits if_splits)

lemma discover_pins: "discover E L s = (r, s') \<Longrightarrow> rs_pins s' = rs_pins s"
  by (rule discover_keeps)

text \<open>A read that changes the pins, and one that returns a receipt.\<close>

lemma read_cases:
  assumes "read_receipt E F name s = (r, s')"
  obtains (nothing) "keeps_bound s s'" "\<And>v. r \<noteq> Inr (Some v)"
  | (pinned) s1 st raw s2 where "discover E (rf_look F) s = (Inr True, s1)"
      "map_of (rs_pins s1) name = None \<or> map_of (rs_pins s1) name = Some (st, p_sha256 E raw)"
      "s2 = s1\<lparr>rs_pins := dict_set name (st, p_sha256 E raw) (rs_pins s1)\<rparr>"
      "s' = s2 \<and> (\<forall>v. r \<noteq> Inr (Some v))
        \<or> (\<exists>q v. parse_receipt E raw = Inr v \<and> discover E (rf_again F) s2 = (q, s') \<and> (\<forall>w. r = Inr (Some w) \<longrightarrow> w = (v, p_sha256 E raw)))"
proof (cases "receipt_name name")
  case False
  show ?thesis by (rule nothing) (use assms False in \<open>auto simp: read_receipt_def\<close>)
next
  case name: True
  obtain d s1 where d: "discover E (rf_look F) s = (d, s1)" by (cases "discover E (rf_look F) s")
  show ?thesis
  proof (cases "d = Inr True \<and> succeeds (rf_open F name)")
    case False
    show ?thesis by (rule nothing)
      (use assms name d discover_keeps(1) [OF d] False in \<open>auto simp: read_receipt_def succeeds_iff split: sum.splits if_splits\<close>)
  next
    case True
    then obtain f where f: "rf_open F name = Inr f" by (auto simp: succeeds_iff)
    have body: "read_receipt E F name s = (case read_bytes E (rs_pending s1) f of
               Inl e \<Rightarrow> (Inl e, s1)
             | Inr None \<Rightarrow> (Inr None, s1)
             | Inr (Some (st, raw)) \<Rightarrow>
                 (let pin = (st, p_sha256 E raw) in
                  if (case map_of (rs_pins s1) name of None \<Rightarrow> False | Some p \<Rightarrow> p \<noteq> pin) then (Inl (receipt_error ''receipt replaced''), s1)
                  else let s2 = s1\<lparr>rs_pins := dict_set name pin (rs_pins s1)\<rparr> in
                    (case parse_receipt E raw of
                       Inl e \<Rightarrow> (Inl e, s2)
                     | Inr v \<Rightarrow> (case discover E (rf_again F) s2 of
                         (Inl e, s3) \<Rightarrow> (Inl e, s3)
                       | (Inr _, s3) \<Rightarrow> (Inr (Some (v, snd pin)), s3)))))"
      using name d True f by (simp add: read_receipt_def)
    show ?thesis
    proof (cases "\<exists>st raw. read_bytes E (rs_pending s1) f = Inr (Some (st, raw)) \<and>
        (map_of (rs_pins s1) name = None \<or> map_of (rs_pins s1) name = Some (st, p_sha256 E raw))")
      case False
      show ?thesis by (rule nothing)
        (use assms body discover_keeps(1) [OF d] False in \<open>auto simp: Let_def split: sum.splits option.splits if_splits\<close>)
    next
      case True
      then obtain st raw where b: "read_bytes E (rs_pending s1) f = Inr (Some (st, raw))"
        and pin: "map_of (rs_pins s1) name = None \<or> map_of (rs_pins s1) name = Some (st, p_sha256 E raw)" by blast
      let ?s2 = "s1\<lparr>rs_pins := dict_set name (st, p_sha256 E raw) (rs_pins s1)\<rparr>"
      have rest: "(case parse_receipt E raw of Inl e \<Rightarrow> (Inl e, ?s2)
          | Inr v \<Rightarrow> (case discover E (rf_again F) ?s2 of (Inl e, s3) \<Rightarrow> (Inl e, s3) | (Inr _, s3) \<Rightarrow> (Inr (Some (v, snd (st, p_sha256 E raw))), s3))) = (r, s')"
        using assms body b pin by (auto simp: Let_def)
      show ?thesis
      proof (rule pinned [OF _ pin refl])
        show "discover E (rf_look F) s = (Inr True, s1)" using d \<open>d = Inr True \<and> succeeds (rf_open F name)\<close> by simp
        show "s' = ?s2 \<and> (\<forall>v. r \<noteq> Inr (Some v))
          \<or> (\<exists>q v. parse_receipt E raw = Inr v \<and> discover E (rf_again F) ?s2 = (q, s') \<and> (\<forall>w. r = Inr (Some w) \<longrightarrow> w = (v, p_sha256 E raw)))"
          using rest by (cases "discover E (rf_again F) ?s2") (auto split: sum.splits)
      qed
    qed
  qed
qed

lemma read_keeps: "read_receipt E F name s = (r, s') \<Longrightarrow> keeps_bound s s'"
proof (erule read_cases)
  fix s1 st raw s2
  assume 1: "discover E (rf_look F) s = (Inr True, s1)" and pin: "map_of (rs_pins s1) name = None \<or> map_of (rs_pins s1) name = Some (st, p_sha256 E raw)"
    and s2: "s2 = s1\<lparr>rs_pins := dict_set name (st, p_sha256 E raw) (rs_pins s1)\<rparr>"
    and rest: "s' = s2 \<and> (\<forall>v. r \<noteq> Inr (Some v))
        \<or> (\<exists>q v. parse_receipt E raw = Inr v \<and> discover E (rf_again F) s2 = (q, s') \<and> (\<forall>w. r = Inr (Some w) \<longrightarrow> w = (v, p_sha256 E raw)))"
  have "keeps_bound s1 s2" using pin by (auto simp: s2 keeps_bound_def)
  moreover have "keeps_bound s2 s'" using rest discover_keeps(1) by auto
  ultimately show ?thesis using discover_keeps(1) [OF 1] keeps_bound_trans by blast
qed

lemma step_bound: "store_step E s s' \<Longrightarrow> keeps_bound s s'"
proof (induction rule: store_step.induct)
  case (discovered L s r s')
  then show ?case by (rule discover_keeps)
next
  case (read F name s r s')
  then show ?case by (rule read_keeps)
next
  case (listed F s r s')
  then obtain q where "discover E (rf_look F) s = (q, s')" by (auto simp: children_def split: prod.splits sum.splits)
  then show ?case by (rule discover_keeps)
qed

lemma steps_bound: "store_steps E s s' \<Longrightarrow> keeps_bound s s'"
proof (induction rule: rtranclp_induct)
  case (step s1 s2)
  from keeps_bound_trans [OF step.IH step_bound [OF step.hyps(2)]] show ?case .
qed simp

lemma read_pins:
  assumes "read_receipt E F name s = (Inr (Some (v, h)), s')"
  shows "\<exists>st raw. map_of (rs_pins s') name = Some (st, h) \<and> h = p_sha256 E raw \<and> parse_receipt E raw = Inr v \<and> rs_activation s' \<noteq> None"
  using assms
proof (cases rule: read_cases)
  case nothing
  then show ?thesis by blast
next
  case (pinned s1 st raw s2)
  then obtain q where q: "parse_receipt E raw = Inr v" "discover E (rf_again F) s2 = (q, s')" "h = p_sha256 E raw" by auto
  have "rs_activation s2 \<noteq> None" using discover_keeps(3) [OF pinned(1)] pinned(3) by simp
  moreover have "keeps_bound s2 s'" by (rule discover_keeps [OF q(2)])
  ultimately have "rs_activation s' \<noteq> None" by (auto simp: keeps_bound_def)
  moreover have "map_of (rs_pins s') name = Some (st, h)" using discover_keeps(2) [OF q(2)] pinned(3) q(3) by simp
  ultimately show ?thesis using q by blast
qed

section \<open>A store that reads\<close>

definition receipt_look :: look where
  "receipt_look = \<lparr>lk_resolve = Inr, lk_symlink = (\<lambda>_. False),
     lk_stat = (\<lambda>_. Inr \<lparr>nd_dev = 1, nd_ino = 2, nd_uid = 501, nd_kind = KDirectory, nd_perm = 448, nd_size = 0, nd_mtime = 0, nd_ctime = 0\<rparr>),
     lk_names = Inr [replicate 32 CHR ''a''],
     lk_open_dir = (\<lambda>_. Inr \<lparr>nd_dev = 1, nd_ino = 2, nd_uid = 501, nd_kind = KDirectory, nd_perm = 448, nd_size = 0, nd_mtime = 0, nd_ctime = 0\<rparr>)\<rparr>"

definition receipt_node :: linked where
  "receipt_node = \<lparr>nd_dev = 1, nd_ino = 3, nd_uid = 501, nd_kind = KRegular, nd_perm = 384, nd_size = 2, nd_mtime = 0, nd_ctime = 0, nd_nlink = 1\<rparr>"

definition receipt_disk :: receipt_files where
  "receipt_disk = \<lparr>rf_look = receipt_look, rf_again = receipt_look, rf_open = (\<lambda>_. Inr (receipt_node, ''{}'', receipt_node)), rf_children = Inr []\<rparr>"

definition receipt_platform :: platform where
  "receipt_platform = \<lparr>p_sha256 = (\<lambda>_. ''h''), p_scan = (\<lambda>_. Some (JObj [])), p_float_repr = (\<lambda>_. ''0.0''), p_uid = 501, p_pid = 1\<rparr>"

definition fresh_store :: receipt_store where
  "fresh_store = \<lparr>rs_pending = False, rs_selected = None, rs_state = ''/s'', rs_state_identity = (1, 2, 501, KDirectory, 448), rs_activation = None, rs_pins = []\<rparr>"

lemma fresh_store_reads: "fst (read_receipt receipt_platform receipt_disk ''ready-x.json'' fresh_store) = Inr (Some ([], ''h''))"
  by code_simp

lemma read_store_reads:
  "fst (read_receipt receipt_platform receipt_disk ''ready-x.json'' (snd (read_receipt receipt_platform receipt_disk ''ready-x.json'' fresh_store))) = Inr (Some ([], ''h''))"
  by code_simp

section \<open>Property\<close>

text \<open>
  C32. A receipt that was read once can only be read again unchanged: whatever happens to the files between
  two reads of a name, if both return a receipt then it is the same file with the same digest, in the same
  activation directory, and each returned document is what the bytes with that digest parse to.
\<close>

theorem receipts_are_pinned:
  assumes "read_receipt E F name s = (Inr (Some (v, h)), s1)" and "store_steps E s1 s2" and "read_receipt E F' name s2 = (Inr (Some (v', h')), s3)"
  shows "h' = h \<and> map_of (rs_pins s3) name = map_of (rs_pins s1) name \<and> map_of (rs_pins s1) name \<noteq> None
    \<and> rs_activation s3 = rs_activation s1 \<and> rs_activation s1 \<noteq> None
    \<and> (\<exists>raw raw'. p_sha256 E raw = h \<and> parse_receipt E raw = Inr v \<and> p_sha256 E raw' = h \<and> parse_receipt E raw' = Inr v')"
proof -
  from read_pins [OF assms(1)] obtain st raw a where 1: "map_of (rs_pins s1) name = Some (st, h)" "h = p_sha256 E raw" "parse_receipt E raw = Inr v"
    "rs_activation s1 = Some a" by auto
  from read_pins [OF assms(3)] obtain st' raw' where 3: "map_of (rs_pins s3) name = Some (st', h')" "h' = p_sha256 E raw'" "parse_receipt E raw' = Inr v'"
    by auto
  have "keeps_bound s1 s3" by (rule keeps_bound_trans [OF steps_bound [OF assms(2)] read_keeps [OF assms(3)]])
  with 1 have "map_of (rs_pins s3) name = Some (st, h)" "rs_activation s3 = Some a" by (simp_all add: keeps_bound_def)
  with 1 3 show ?thesis by auto
qed

theorem receipts_are_pinned_witness:
  "map_of (rs_pins (snd (read_receipt receipt_platform receipt_disk ''ready-x.json'' fresh_store))) ''ready-x.json'' \<noteq> None"
proof -
  let ?s1 = "snd (read_receipt receipt_platform receipt_disk ''ready-x.json'' fresh_store)"
  have 1: "read_receipt receipt_platform receipt_disk ''ready-x.json'' fresh_store = (Inr (Some ([], ''h'')), ?s1)"
    using fresh_store_reads by (simp add: prod_eq_iff)
  have 2: "read_receipt receipt_platform receipt_disk ''ready-x.json'' ?s1 = (Inr (Some ([], ''h'')), snd (read_receipt receipt_platform receipt_disk ''ready-x.json'' ?s1))"
    using read_store_reads by (simp add: prod_eq_iff)
  from receipts_are_pinned [OF 1 rtranclp.rtrancl_refl 2] show ?thesis by simp
qed

end
