(* ===== verification/Isolation.thy ===== *)
theory Isolation
  imports ReceiptStore "HOL-Library.Word"
begin

text \<open>
  Isolated profiles (\<open>runtime/native/auth_isolation.py\<close>): what a profile must satisfy, the stable reading
  of its manifest and of its executable, the loading of a profile and the environment of its processes.
  The operating system is an argument, and a \<open>Path\<close> is its text.
\<close>

section \<open>The operating system\<close>

text \<open>
  \<open>ih_read\<close> opens with \<open>O_NOFOLLOW\<close> and gives \<open>fstat\<close> before, the bytes of the file, and \<open>fstat\<close> after.
\<close>

record isolation_host =
  ih_resolve :: "string \<Rightarrow> string result"
  ih_symlink :: "string \<Rightarrow> bool"
  ih_lexists :: "string \<Rightarrow> bool"
  ih_absolute :: "string \<Rightarrow> string"
  ih_lstat :: "string \<Rightarrow> linked result"
  ih_read :: "string \<Rightarrow> (linked \<times> string \<times> linked) result"

definition auth_env_names :: "string list" where
  "auth_env_names = [''CODEX_API_KEY'', ''CODEX_ACCESS_TOKEN'', ''OPENAI_API_KEY'', ''OPENAI_ACCESS_TOKEN'', ''ANTHROPIC_API_KEY'',
     ''GEMINI_API_KEY'', ''GOOGLE_API_KEY'', ''AWS_ACCESS_KEY_ID'', ''AWS_SECRET_ACCESS_KEY'', ''AWS_SESSION_TOKEN'',
     ''AWS_WEB_IDENTITY_TOKEN_FILE'', ''AWS_SHARED_CREDENTIALS_FILE'', ''AZURE_OPENAI_API_KEY'']"

definition unix_socket_path_limit :: nat where
  "unix_socket_path_limit = 104"

definition max_context_bytes :: nat where
  "max_context_bytes = 65536"

definition max_auth_snapshot_bytes :: nat where
  "max_auth_snapshot_bytes = 8388608"

definition private_test_root :: string where
  "private_test_root = ''/private/tmp''"

definition safe_inherited_env_names :: "string list" where
  "safe_inherited_env_names = [''PATH'', ''LANG'', ''LC_ALL'', ''LC_CTYPE'', ''TERM'', ''TERM_PROGRAM'', ''COLORTERM'']"

section \<open>Paths\<close>

text \<open>\<open>p / c\<close> for an absolute \<open>p\<close> and a plain component \<open>c\<close>.\<close>

definition path_child :: "string \<Rightarrow> string \<Rightarrow> string" where
  "path_child p c = path_text (path_anchor p) (path_parts p @ [c])"

definition path_parents :: "string \<Rightarrow> string list" where
  "path_parents p = tl (path_and_parents p)"

text \<open>\<open>p == d or d in p.parents\<close>.\<close>

definition path_within :: "string \<Rightarrow> string \<Rightarrow> bool" where
  "path_within d p = (p = d \<or> d \<in> set (path_parents p))"

definition path_overlap :: "string \<Rightarrow> string \<Rightarrow> bool" where
  "path_overlap l r = (l = r \<or> l \<in> set (path_parents r) \<or> r \<in> set (path_parents l))"

text \<open>
  The paths \<open>_reject_symlink_components\<close> looks at: \<open>parts[1:]\<close> leaves out the root of an absolute path, and
  the first component of a relative one.
\<close>

definition looked_components :: "string \<Rightarrow> string list" where
  "looked_components p =
    (let a = path_anchor p; parts = (if a = [] then tl (path_parts p) else path_parts p) in
     map (\<lambda>n. path_text a (take (Suc n) parts)) [0..<length parts])"

definition reject_symlink_components :: "isolation_host \<Rightarrow> string \<Rightarrow> unit result" where
  "reject_symlink_components H p = for_each (\<lambda>c.
     ensure (\<not> ih_symlink H c) (value_error (''symlink path component is not allowed: '' @ c)) (Inr ())) (looked_components p)"

section \<open>A profile\<close>

record isolation_spec =
  ip_task_root :: string
  ip_home :: string
  ip_codex_home :: string
  ip_workspace :: string
  ip_profile_id :: string
  ip_public_socket :: string
  ip_backend_socket :: string
  ip_protected :: "string list"
  ip_protected_read :: "string list"
  ip_executables :: "string list"
  ip_port :: json

definition default_control_socket :: "string \<Rightarrow> string" where
  "default_control_socket codex_home = path_child (path_child codex_home ''app-server-control'') ''app-server-control.sock''"

text \<open>\<open>str.isspace\<close> on a character outside ASCII, by its UTF-8 bytes.\<close>

definition wide_spaces :: "string list" where
  "wide_spaces = [[CHR 0xC2, CHR 0x85], [CHR 0xC2, CHR 0xA0], [CHR 0xE1, CHR 0x9A, CHR 0x80]]
     @ map (\<lambda>n. [CHR 0xE2, CHR 0x80, char_of (n :: nat)]) ([128..<139] @ [168, 169, 175])
     @ [[CHR 0xE2, CHR 0x81, CHR 0x9F], [CHR 0xE3, CHR 0x80, CHR 0x80]]"

definition has_space :: "string \<Rightarrow> bool" where
  "has_space s = (list_ex str_space s \<or> list_ex (\<lambda>w. contains w s) wide_spaces)"

text \<open>\<open>None\<close>, or an exact integer: \<open>type(True) is int\<close> is false.\<close>

definition loopback_port_ok :: "json \<Rightarrow> bool" where
  "loopback_port_ok v = (v = JNull \<or> (is_int v \<and> 1 \<le> int_of v \<and> int_of v \<le> 65535))"

definition check_spec_shape :: "isolation_spec \<Rightarrow> unit result" where
  "check_spec_shape s =
     ensure (loopback_port_ok (ip_port s)) (value_error ''owned loopback port must be an exact integer in 1..65535'')
    (ensure (ip_profile_id s \<noteq> [] \<and> \<not> has_space (ip_profile_id s)) (value_error ''profile_id must be opaque and whitespace-free'')
    (ensure (list_all is_absolute [ip_task_root s, ip_home s, ip_codex_home s, ip_workspace s]) (value_error ''isolated paths must be absolute'')
    (ensure (list_all is_absolute (ip_protected s)) (value_error ''protected paths must be absolute'')
    (ensure (list_all is_absolute (ip_protected_read s)) (value_error ''protected read paths must be absolute'')
    (ensure (list_all is_absolute (ip_executables s)) (value_error ''allowed executables must be absolute'')
    (for_each (\<lambda>p.
       ensure (is_absolute p) (value_error ''socket paths must be absolute'')
      (ensure (length p < unix_socket_path_limit) (value_error ''Unix socket path exceeds macOS sockaddr_un limit'') (Inr ())))
       [ip_public_socket s, ip_backend_socket s, default_control_socket (ip_codex_home s)]))))))"

text \<open>The resolved task root.\<close>

definition resolved_root :: "isolation_host \<Rightarrow> isolation_spec \<Rightarrow> string result" where
  "resolved_root H s = andThen (ih_resolve H (ip_task_root s)) (\<lambda>base.
     ensure (path_parent base = private_test_root \<and> starts_with ''g0-auth-'' (path_name base))
       (value_error ''task_root must be a new short /private/tmp/g0-auth-* root'') (Inr base))"

fun pairs :: "'a list \<Rightarrow> ('a \<times> 'a) list" where
  "pairs [] = []"
| "pairs (x # xs) = map (Pair x) xs @ pairs xs"

text \<open>Two different directories, one in the other.\<close>

definition nested :: "string \<Rightarrow> string \<Rightarrow> bool" where
  "nested l r = (l \<noteq> r \<and> (l \<in> set (path_parents r) \<or> r \<in> set (path_parents l)))"

definition check_spec_places :: "isolation_host \<Rightarrow> isolation_spec \<Rightarrow> string \<Rightarrow> unit result" where
  "check_spec_places H s base =
     andThen (for_each (reject_symlink_components H) [ip_task_root s, ip_home s, ip_codex_home s, ip_workspace s, ip_backend_socket s]) (\<lambda>_.
     ensure (path_parent (ip_backend_socket s) \<noteq> base \<and> path_parent (path_parent (ip_backend_socket s)) = base)
       (value_error ''backend socket must be below its own direct task child directory'')
    (andThen (for_each (\<lambda>p. andThen (ih_resolve H p) (\<lambda>r. ensure (path_within base r) (value_error ''isolated path escapes task_root'') (Inr ())))
       [ip_home s, ip_codex_home s, ip_workspace s]) (\<lambda>_.
     andThen (map_result (ih_resolve H) [ip_home s, ip_codex_home s, ip_workspace s, path_parent (ip_backend_socket s)]) (\<lambda>dirs.
     ensure (\<not> list_ex (\<lambda>(l, r). nested l r) (pairs dirs)) (value_error ''isolated profile directories overlap'') (Inr ())))))"

definition outside_root :: "isolation_host \<Rightarrow> string \<Rightarrow> exn \<Rightarrow> string list \<Rightarrow> unit result" where
  "outside_root H base e ps = for_each (\<lambda>p. andThen (ih_resolve H p) (\<lambda>r. ensure (\<not> path_within base r) e (Inr ()))) ps"

text \<open>\<open>IsolationSpec.validate\<close>.\<close>

definition validate_spec :: "isolation_host \<Rightarrow> isolation_spec \<Rightarrow> unit result" where
  "validate_spec H s =
     andThen (check_spec_shape s) (\<lambda>_.
     andThen (resolved_root H s) (\<lambda>base.
     andThen (check_spec_places H s base) (\<lambda>_.
     andThen (outside_root H base (value_error ''protected path overlaps isolated task_root'') (ip_protected s)) (\<lambda>_.
     outside_root H base (value_error ''protected read path overlaps isolated task_root'') (ip_protected_read s)))))"

section \<open>Stable reading\<close>

text \<open>\<open>_snapshot_stat_tuple\<close>: everything but the change time.\<close>

definition snapshot_stat :: "linked \<Rightarrow> dir_identity \<times> nat \<times> nat \<times> int" where
  "snapshot_stat n = ((nd_dev n, nd_ino n, nd_uid n, nd_kind n, nd_perm n), nd_size n, nd_nlink n, nd_mtime n)"

definition read_stable_manifest :: "platform \<Rightarrow> isolation_host \<Rightarrow> string \<Rightarrow> string result" where
  "read_stable_manifest E H p =
     andThen (reject_symlink_components H p) (\<lambda>_.
     andThen (ih_lstat H p) (\<lambda>info.
     ensure (nd_kind info = KRegular) (value_error ''isolation manifest must be a regular non-symlink file'')
    (ensure (nd_uid info = p_uid E \<and> nd_perm info = perm_file) (value_error ''isolation manifest must be owner-only'')
    (ensure (nd_size info \<le> max_context_bytes) (value_error ''isolation manifest is too large'')
    (andThen (ih_read H p) (\<lambda>(first, bytes, second).
     ensure (nd_kind first = KRegular \<and> snapshot_stat info = snapshot_stat first) (value_error ''isolation manifest changed before read'')
    (let data = take (max_context_bytes + 1) bytes in
     ensure (snapshot_stat first = snapshot_stat second) (value_error ''isolation manifest changed while reading'')
    (ensure (length data \<le> max_context_bytes) (value_error ''isolation manifest is too large'')
    (Inr data)))))))))"

text \<open>
  The loop that reads a file and feeds a digest: every turn asks for at most one megabyte and for at most one
  byte more than the limit leaves. What has been hashed so far is \<open>acc\<close>.
\<close>

definition chunk_size :: "nat \<Rightarrow> nat \<Rightarrow> nat" where
  "chunk_size limit seen = min 1048576 (limit - seen + 1)"

function hash_loop :: "exn \<Rightarrow> nat \<Rightarrow> string \<Rightarrow> nat \<Rightarrow> string \<Rightarrow> string result" where
  "hash_loop e limit acc seen bytes =
    (let chunk = take (chunk_size limit seen) bytes in
     if chunk = [] then Inr acc
     else if limit < seen + length chunk then Inl e
     else hash_loop e limit (acc @ chunk) (seen + length chunk) (drop (chunk_size limit seen) bytes))"
  by pat_completeness auto
termination
  by (relation "measure (\<lambda>(e, limit, acc, seen, bytes). length bytes)") (auto simp: chunk_size_def)

declare hash_loop.simps [simp del]

definition max_executable_bytes :: nat where
  "max_executable_bytes = 536870912"

definition hash_stable_file :: "platform \<Rightarrow> isolation_host \<Rightarrow> string \<Rightarrow> string result" where
  "hash_stable_file E H p =
     andThen (ih_read H p) (\<lambda>(first, bytes, second).
     ensure (nd_kind first = KRegular) (value_error ''expected executable is not regular'')
    (andThen (hash_loop (value_error ''expected executable is too large'') max_executable_bytes [] 0 bytes) (\<lambda>data.
     ensure (snapshot_stat first = snapshot_stat second) (value_error ''expected executable changed while hashing'')
    (Inr (p_sha256 E data)))))"

section \<open>Loading a profile\<close>

definition owned_private_dir :: "platform \<Rightarrow> string \<Rightarrow> file_kind \<Rightarrow> int \<Rightarrow> nat \<Rightarrow> unit result" where
  "owned_private_dir E p kind uid perm =
     ensure (kind = KDirectory) (value_error (''isolated directory is not a real directory: '' @ p))
    (ensure (uid = p_uid E \<and> perm = perm_dir) (value_error (''isolated directory owner/mode mismatch: '' @ p)) (Inr ()))"

record isolation_context =
  ix_spec :: isolation_spec
  ix_executable :: string
  ix_executable_sha256 :: string

definition profile_path_keys :: "string list" where
  "profile_path_keys = [''task_root'', ''home'', ''codex_home'', ''workspace'', ''backend_socket'']"

definition absolute_text :: "json \<Rightarrow> bool" where
  "absolute_text v = (is_str v \<and> is_absolute (mk_path (str_of v)))"

text \<open>The resolved paths of every profile of the manifest, and that no two profiles share any.\<close>

definition profile_roots :: "isolation_host \<Rightarrow> jdict \<Rightarrow> (string \<times> string list) list result" where
  "profile_roots H profiles = map_result (\<lambda>(name, v).
     ensure (is_obj v) (value_error ''invalid profile entry'')
    (let paths = map (dget (obj_of v)) profile_path_keys in
     ensure (list_all absolute_text paths) (value_error ''profile paths must be absolute'')
    (andThen (map_result (\<lambda>p. ih_resolve H (mk_path (str_of p))) paths) (\<lambda>rs. Inr (name, rs))))) profiles"

definition check_disjoint_profiles :: "(string \<times> string list) list \<Rightarrow> unit result" where
  "check_disjoint_profiles roots = for_each (\<lambda>((ln, ls), (rn, rs)).
     ensure (\<not> list_ex (\<lambda>l. list_ex (path_overlap l) rs) ls) (value_error (''profile roots overlap: '' @ ln @ '' and '' @ rn)) (Inr ()))
     (pairs roots)"

definition text_list :: "json \<Rightarrow> bool" where
  "text_list v = (is_arr v \<and> list_all is_str (arr_of v))"

definition text_paths :: "json \<Rightarrow> string list" where
  "text_paths v = map (mk_path \<circ> str_of) (arr_of v)"

definition profile_spec :: "jdict \<Rightarrow> string \<Rightarrow> isolation_spec" where
  "profile_spec raw profile_id =
    (let path = (\<lambda>k. mk_path (str_of (dget raw k))) in
     \<lparr>ip_task_root = path ''task_root'', ip_home = path ''home'', ip_codex_home = path ''codex_home'', ip_workspace = path ''workspace'',
      ip_profile_id = profile_id, ip_public_socket = path ''public_socket'', ip_backend_socket = path ''backend_socket'',
      ip_protected = text_paths (dget_or raw ''protected_paths'' (JArr [])),
      ip_protected_read = text_paths (dget_or raw ''protected_read_paths'' (JArr [])),
      ip_executables = [path ''expected_executable''], ip_port = dget raw ''owned_loopback_port''\<rparr>)"

definition lower_text :: "string \<Rightarrow> string" where
  "lower_text s = map ascii_lower s"

definition check_profile_entry :: "jdict \<Rightarrow> unit result" where
  "check_profile_entry raw =
    (let expected = dget raw ''expected_executable''; digest = dget raw ''expected_executable_sha256'';
         protected = dget_or raw ''protected_paths'' (JArr []); protected_read = dget_or raw ''protected_read_paths'' (JArr []) in
     ensure (list_all (\<lambda>k. is_str (dget raw k)) [''task_root'', ''home'', ''codex_home'', ''workspace'', ''public_socket'', ''backend_socket''])
       (value_error ''incomplete isolation profile'')
    (ensure (absolute_text expected) (value_error ''profile executable must be absolute'')
    (ensure (is_str digest \<and> hex_string 64 (lower_text (str_of digest))) (value_error ''profile executable digest is required'')
    (ensure (text_list protected) (value_error ''invalid protected path list'')
    (ensure (text_list protected_read) (value_error ''invalid protected read path list'')
    (ensure (arr_of protected \<noteq> [] \<and> arr_of protected_read \<noteq> []) (value_error ''manifest must include write and read credential boundaries'')
    (Inr ())))))))"

definition check_profile_files :: "platform \<Rightarrow> isolation_host \<Rightarrow> isolation_spec \<Rightarrow> string \<Rightarrow> string \<Rightarrow> unit result" where
  "check_profile_files E H s expected digest =
     andThen (ih_lstat H expected) (\<lambda>info.
     ensure (nd_kind info = KRegular) (value_error ''expected executable must be a regular non-symlink file'')
    (ensure (nd_perm info AND 73 \<noteq> 0) (value_error ''expected executable is not executable'')
    (andThen (hash_stable_file E H (mk_path expected)) (\<lambda>h.
     ensure (h = digest) (value_error ''expected executable digest mismatch'')
    (for_each (\<lambda>d. andThen (ih_lstat H d) (\<lambda>i. owned_private_dir E d (nd_kind i) (nd_uid i) (nd_perm i)))
       [ip_task_root s, ip_home s, ip_codex_home s, ip_workspace s])))))"

text \<open>\<open>load_isolation_context\<close>.\<close>

definition load_isolation_context :: "platform \<Rightarrow> isolation_host \<Rightarrow> string \<Rightarrow> string \<Rightarrow> isolation_context result" where
  "load_isolation_context E H p profile_id =
     andThen (read_stable_manifest E H (mk_path p)) (\<lambda>bytes.
     andThen (loads E (Raised ''JSONDecodeError'' []) bytes) (\<lambda>document.
     ensure (is_obj document) (Raised ''AttributeError'' [])
    (let profiles = dget (obj_of document) ''profiles'' in
     ensure (py_eq (dget (obj_of document) ''version'') (JInt 1) \<and> is_obj profiles) (value_error ''unsupported isolation context manifest'')
    (let raw = dget (obj_of profiles) profile_id in
     ensure (is_obj raw) (value_error ''unknown isolation profile'')
    (andThen (check_profile_entry (obj_of raw)) (\<lambda>_.
     andThen (profile_roots H (obj_of profiles)) (\<lambda>roots.
     andThen (check_disjoint_profiles roots) (\<lambda>_.
     let s = profile_spec (obj_of raw) profile_id;
         expected = str_of (dget (obj_of raw) ''expected_executable'');
         digest = lower_text (str_of (dget (obj_of raw) ''expected_executable_sha256'')) in
     andThen (validate_spec H s) (\<lambda>_.
     andThen (check_profile_files E H s expected digest) (\<lambda>_.
     Inr \<lparr>ix_spec = s, ix_executable = mk_path expected, ix_executable_sha256 = digest\<rparr>))))))))))"

section \<open>The environment\<close>

type_synonym environment = "(string \<times> string) list"

definition credential_name :: "string \<Rightarrow> bool" where
  "credential_name name = (name \<in> set auth_env_names \<or> contains ''TOKEN'' name \<or> contains ''SECRET'' name \<or> contains ''KEY'' name)"

text \<open>\<open>build_clean_environment\<close> on a given source.\<close>

definition build_clean_environment :: "isolation_host \<Rightarrow> isolation_spec \<Rightarrow> environment \<Rightarrow> environment result" where
  "build_clean_environment H s source =
     andThen (validate_spec H s) (\<lambda>_.
     let clean = filter (\<lambda>(name, _). name \<in> set safe_inherited_env_names) source;
         clean = dict_set ''PATH'' ''/usr/bin:/bin:/usr/sbin:/sbin'' clean;
         clean = dict_set ''HOME'' (ip_home s) clean;
         clean = dict_set ''CODEX_HOME'' (ip_codex_home s) clean;
         clean = dict_set ''CODEX_SQLITE_HOME'' (ip_codex_home s) clean;
         clean = dict_set ''PWD'' (ip_workspace s) clean;
         clean = dict_set ''TMPDIR'' (path_child (ip_task_root s) ''tmp'') clean;
         clean = dict_set ''CODEX_ORCHESTRATION_PROFILE_ID'' (ip_profile_id s) clean in
     Inr (filter (\<lambda>(name, _). \<not> credential_name name) clean))"

end
