(* ===== verification/Sandbox.thy ===== *)
theory Sandbox
  imports Isolation
begin

text \<open>
  The sandbox profile of an isolated process and the plan of its launch (\<open>render_sandbox_profile\<close>,
  \<open>sandboxed_argv\<close> and \<open>build_backend_launch\<close> of \<open>runtime/native/auth_isolation.py\<close>).
\<close>

section \<open>The profile\<close>

definition line_safe :: "char \<Rightarrow> bool" where
  "line_safe c = (c \<noteq> CHR 0x0D \<and> c \<noteq> CHR 0x0A \<and> c \<noteq> CHR 0x00)"

text \<open>\<open>value.replace("\\", "\\\\").replace('"', '\\"')\<close>.\<close>

fun replace_char :: "char \<Rightarrow> string \<Rightarrow> string \<Rightarrow> string" where
  "replace_char c r [] = []"
| "replace_char c r (x # xs) = (if x = c then r else [x]) @ replace_char c r xs"

definition sbpl_escape :: "string \<Rightarrow> string" where
  "sbpl_escape p = replace_char CHR 0x22 [CHR 0x5C, CHR 0x22] (replace_char CHR 0x5C [CHR 0x5C, CHR 0x5C] p)"

definition sbpl_path :: "string \<Rightarrow> string result" where
  "sbpl_path p = ensure (is_absolute p \<and> list_all line_safe p) (value_error ''sandbox path must be absolute and line-safe'') (Inr (sbpl_escape p))"

text \<open>A text between double quotes.\<close>

definition quoted :: "string \<Rightarrow> string" where
  "quoted t = CHR 0x22 # t @ [CHR 0x22]"

definition write_paths :: "isolation_spec \<Rightarrow> string list" where
  "write_paths s = [ip_home s, ip_codex_home s, ip_workspace s, path_child (ip_task_root s) ''tmp'', path_parent (ip_backend_socket s)]"

definition subpath_line :: "string \<Rightarrow> string \<Rightarrow> string" where
  "subpath_line operation p = ''('' @ operation @ '' (subpath '' @ quoted p @ ''))''"

definition literal_line :: "string \<Rightarrow> string \<Rightarrow> string" where
  "literal_line operation p = ''('' @ operation @ '' (literal '' @ quoted p @ ''))''"

definition security_services :: "string list" where
  "security_services = [''com.apple.SecurityServer'', ''com.apple.securityd.systemkeychain'', ''com.apple.securityd'', ''com.apple.securityd.system'']"

definition render_sandbox_profile :: "isolation_host \<Rightarrow> isolation_spec \<Rightarrow> string option \<Rightarrow> string result" where
  "render_sandbox_profile H s pty =
     andThen (validate_spec H s) (\<lambda>_.
     ensure (case pty of None \<Rightarrow> True | Some p \<Rightarrow> is_absolute (mk_path p)) (value_error ''PTY slave path must be absolute'')
    (andThen (map_result sbpl_path (write_paths s)) (\<lambda>ws.
     andThen (map_result sbpl_path (ip_protected_read s)) (\<lambda>rs.
     andThen (map_result sbpl_path (ip_protected s)) (\<lambda>ps.
     andThen (sbpl_path (ip_backend_socket s)) (\<lambda>backend.
     andThen (sbpl_path (ip_public_socket s)) (\<lambda>public.
     andThen (case pty of None \<Rightarrow> Inr [] | Some p \<Rightarrow> andThen (sbpl_path (mk_path p)) (\<lambda>t.
       Inr [literal_line ''allow file-read* file-write* file-ioctl'' t])) (\<lambda>tty.
     let rendered = [''(version 1)'', ''(deny default)'', ''(allow process-fork)'', ''(allow signal (target self))'', ''(allow file-read*)'']
       @ map (subpath_line ''allow file-write*'') ws
       @ [''(allow process-exec*)'']
       @ map (subpath_line ''deny file-read*'') rs
       @ map (subpath_line ''deny file-write*'') ps
       @ [''(deny network-outbound)'',
          literal_line ''allow file-write*'' ''/dev/null'',
          ''(allow sysctl-read (sysctl-name '' @ quoted ''hw.pagesize_compat'' @ ''))'',
          literal_line ''allow network-outbound'' backend,
          literal_line ''allow network-outbound'' public,
          literal_line ''allow network-bind'' backend,
          literal_line ''allow network-inbound'' backend]
       @ map (\<lambda>name. ''(deny mach-lookup (global-name '' @ quoted name @ ''))'') security_services
       @ tty
       @ (if ip_port s = JNull then []
          else [''(allow network-outbound (remote tcp4 '' @ quoted (''localhost:'' @ show_int (int_of (ip_port s))) @ ''))''])
     in Inr (join [CHR 0x0A] rendered @ [CHR 0x0A])))))))))"

text \<open>The elements of the command are texts.\<close>

definition sandboxed_argv :: "isolation_host \<Rightarrow> isolation_spec \<Rightarrow> string list \<Rightarrow> string \<Rightarrow> string list result" where
  "sandboxed_argv H s command profile_path =
     andThen (validate_spec H s) (\<lambda>_.
     ensure (command \<noteq> [] \<and> list_all (\<lambda>t. t \<noteq> []) command) (value_error ''command must be a non-empty argv'')
    (Inr ([''/usr/bin/sandbox-exec'', ''-f'', profile_path] @ command)))"

section \<open>The plan of a launch\<close>

record launch_plan =
  lp_profile_id :: string
  lp_argv :: "string list"
  lp_env :: environment
  lp_cwd :: string
  lp_private_socket :: string
  lp_executable :: string
  lp_executable_sha256 :: string
  lp_sandbox_profile :: string

text \<open>
  \<open>build_backend_launch\<close>, with \<open>os.environ\<close> as an argument; \<open>ih_absolute\<close> is \<open>Path.absolute\<close>. A symbolic link
  at the socket raises.
\<close>

definition build_backend_launch ::
  "platform \<Rightarrow> isolation_host \<Rightarrow> environment \<Rightarrow> isolation_context \<Rightarrow> string list \<Rightarrow> string option \<Rightarrow> launch_plan result" where
  "build_backend_launch E H environ x argv private_socket =
     ensure (argv \<noteq> []) (value_error ''backend argv must be non-empty'')
    (ensure (ih_absolute H (mk_path (hd argv)) = ix_executable x) (value_error ''backend argv executable does not match the profile lease'')
    (let socket = (case private_socket of None \<Rightarrow> ip_backend_socket (ix_spec x) | Some p \<Rightarrow> mk_path p);
         s = (ix_spec x)\<lparr>ip_backend_socket := socket\<rparr> in
     andThen (validate_spec H s) (\<lambda>_.
     andThen (hash_stable_file E H (ix_executable x)) (\<lambda>h.
     ensure (h = ix_executable_sha256 x) (value_error ''expected executable changed after manifest admission'')
    (ensure (path_parent socket = path_parent (ip_backend_socket (ix_spec x)))
       (value_error ''private backend socket must remain in the profile backend directory'')
    (ensure (socket \<noteq> ip_public_socket s \<and> socket \<noteq> default_control_socket (ip_codex_home s))
       (value_error ''private backend socket aliases a public/default socket'')
    (ensure (\<not> (ih_lexists H socket \<and> ih_symlink H socket)) (value_error ''private backend socket cannot be a symlink'')
    (andThen (build_clean_environment H s environ) (\<lambda>env.
     andThen (render_sandbox_profile H s None) (\<lambda>rendered.
     Inr \<lparr>lp_profile_id = ip_profile_id s, lp_argv = argv, lp_env = env, lp_cwd = ip_workspace s, lp_private_socket = socket,
          lp_executable = ix_executable x, lp_executable_sha256 = ix_executable_sha256 x, lp_sandbox_profile = rendered\<rparr>))))))))))"

end
