(* ===== verification/SandboxProps.thy ===== *)
theory SandboxProps
  imports Sandbox
begin

text \<open>
  The text of a sandbox profile says what it is meant to say: read as the list of symbols, texts and
  parentheses that the profile language has, it is the list of rules over the raw paths.
\<close>

section \<open>Reading a profile\<close>

datatype token = LP | RP | Word string | Quoted string

datatype lexer = Outside | InWord string | InText string | InEscape string

definition blank :: "char \<Rightarrow> bool" where
  "blank c = (c = CHR '' '' \<or> c = CHR 0x0A)"

text \<open>Inside a text a backslash takes a backslash or a quote; nothing else may be escaped.\<close>

fun lex :: "lexer \<Rightarrow> string \<Rightarrow> token list option" where
  "lex Outside [] = Some []"
| "lex Outside (c # cs) =
    (if blank c then lex Outside cs
     else if c = CHR ''('' then map_option (Cons LP) (lex Outside cs)
     else if c = CHR '')'' then map_option (Cons RP) (lex Outside cs)
     else if c = CHR 0x22 then lex (InText []) cs
     else lex (InWord [c]) cs)"
| "lex (InWord w) [] = Some [Word w]"
| "lex (InWord w) (c # cs) =
    (if blank c then map_option (Cons (Word w)) (lex Outside cs)
     else if c = CHR ''('' then map_option (\<lambda>ts. Word w # LP # ts) (lex Outside cs)
     else if c = CHR '')'' then map_option (\<lambda>ts. Word w # RP # ts) (lex Outside cs)
     else if c = CHR 0x22 then None
     else lex (InWord (w @ [c])) cs)"
| "lex (InText w) [] = None"
| "lex (InText w) (c # cs) =
    (if c = CHR 0x5C then lex (InEscape w) cs
     else if c = CHR 0x22 then map_option (Cons (Quoted w)) (lex Outside cs)
     else lex (InText (w @ [c])) cs)"
| "lex (InEscape w) [] = None"
| "lex (InEscape w) (c # cs) = (if c = CHR 0x5C \<or> c = CHR 0x22 then lex (InText (w @ [c])) cs else None)"

lemma replace_char_append [simp]: "replace_char c r (xs @ ys) = replace_char c r xs @ replace_char c r ys"
  by (induction xs) simp_all

lemma lex_escaped: "lex (InText w) (sbpl_escape p @ rest) = lex (InText (w @ p)) rest"
proof (induction p arbitrary: w)
  case Nil
  show ?case by (simp add: sbpl_escape_def)
next
  case (Cons c cs)
  have "sbpl_escape (c # cs) = sbpl_escape [c] @ sbpl_escape cs" by (simp add: sbpl_escape_def)
  then show ?case using Cons.IH [of "w @ [c]"] by (auto simp: sbpl_escape_def)
qed

lemma lex_quoted: "lex Outside (quoted (sbpl_escape p) @ rest) = map_option (Cons (Quoted p)) (lex Outside rest)"
  by (simp add: quoted_def blank_def lex_escaped)

text \<open>A plain text needs no escape.\<close>

definition plain :: "string \<Rightarrow> bool" where
  "plain t = (CHR 0x5C \<notin> set t \<and> CHR 0x22 \<notin> set t)"

lemma replace_absent: "c \<notin> set t \<Longrightarrow> replace_char c r t = t"
  by (induction t) auto

lemma escape_plain: "plain t \<Longrightarrow> sbpl_escape t = t"
  by (simp add: plain_def sbpl_escape_def replace_absent)

lemma lex_quoted_plain: "plain t \<Longrightarrow> lex Outside (quoted t @ rest) = map_option (Cons (Quoted t)) (lex Outside rest)"
  using lex_quoted [of t rest] by (simp add: escape_plain)

section \<open>The rules\<close>

text \<open>A rule is a verb, its operations and a filter, all over raw texts.\<close>

definition filter_rule :: "string list \<Rightarrow> string \<Rightarrow> string \<Rightarrow> token list" where
  "filter_rule ws f t = LP # map Word ws @ [LP, Word f, Quoted t, RP, RP]"

definition plain_rule :: "string list \<Rightarrow> token list" where
  "plain_rule ws = LP # map Word ws @ [RP]"

definition sandbox_rules :: "isolation_spec \<Rightarrow> string option \<Rightarrow> token list list" where
  "sandbox_rules s pty =
     [plain_rule [''version'', ''1''], plain_rule [''deny'', ''default''], plain_rule [''allow'', ''process-fork''],
      [LP, Word ''allow'', Word ''signal'', LP, Word ''target'', Word ''self'', RP, RP], plain_rule [''allow'', ''file-read*'']]
   @ map (filter_rule [''allow'', ''file-write*''] ''subpath'') (write_paths s)
   @ [plain_rule [''allow'', ''process-exec*'']]
   @ map (filter_rule [''deny'', ''file-read*''] ''subpath'') (ip_protected_read s)
   @ map (filter_rule [''deny'', ''file-write*''] ''subpath'') (ip_protected s)
   @ [plain_rule [''deny'', ''network-outbound''],
      filter_rule [''allow'', ''file-write*''] ''literal'' ''/dev/null'',
      filter_rule [''allow'', ''sysctl-read''] ''sysctl-name'' ''hw.pagesize_compat'',
      filter_rule [''allow'', ''network-outbound''] ''literal'' (ip_backend_socket s),
      filter_rule [''allow'', ''network-outbound''] ''literal'' (ip_public_socket s),
      filter_rule [''allow'', ''network-bind''] ''literal'' (ip_backend_socket s),
      filter_rule [''allow'', ''network-inbound''] ''literal'' (ip_backend_socket s)]
   @ map (filter_rule [''deny'', ''mach-lookup''] ''global-name'') security_services
   @ (case pty of None \<Rightarrow> [] | Some p \<Rightarrow> [filter_rule [''allow'', ''file-read*'', ''file-write*'', ''file-ioctl''] ''literal'' (mk_path p)])
   @ (if ip_port s = JNull then []
      else [[LP, Word ''allow'', Word ''network-outbound'', LP, Word ''remote'', Word ''tcp4'',
             Quoted (''localhost:'' @ show_int (int_of (ip_port s))), RP, RP]])"

text \<open>\<open>reads_as line tokens\<close>: in front of anything the line contributes exactly these tokens.\<close>

definition reads_as :: "string \<Rightarrow> token list \<Rightarrow> bool" where
  "reads_as line ts = (\<forall>rest. lex Outside (line @ rest) = map_option (append ts) (lex Outside rest))"

lemma lex_newline: "lex Outside (CHR 0x0A # cs) = lex Outside cs"
  by (simp add: blank_def)

text \<open>To compute with prefixes of token lists.\<close>

lemma append_fun: "append (x # xs) = (\<lambda>r. x # xs @ r)"
  by (simp add: fun_eq_iff)

lemmas lex_simps = reads_as_def blank_def filter_rule_def plain_rule_def lex_quoted lex_quoted_plain option.map_comp comp_def append_fun

lemma lex_lines:
  assumes "list_all2 reads_as ls tss" "ls \<noteq> []"
  shows "lex Outside (join [CHR 0x0A] ls @ [CHR 0x0A]) = Some (concat tss)"
  using assms
proof (induction ls tss)
  case Nil
  then show ?case by simp
next
  case (Cons l ls ts tss)
  show ?case
  proof (cases ls)
    case Nil
    then show ?thesis using Cons.hyps by (simp add: reads_as_def lex_newline del: lex.simps(2))
  next
    case (Cons l' ls')
    then show ?thesis using Cons.hyps Cons.IH by (simp add: reads_as_def lex_newline del: lex.simps(2))
  qed
qed

lemma reads_subpath:
  "reads_as (subpath_line ''allow file-write*'' (sbpl_escape p)) (filter_rule [''allow'', ''file-write*''] ''subpath'' p)"
  "reads_as (subpath_line ''deny file-read*'' (sbpl_escape p)) (filter_rule [''deny'', ''file-read*''] ''subpath'' p)"
  "reads_as (subpath_line ''deny file-write*'' (sbpl_escape p)) (filter_rule [''deny'', ''file-write*''] ''subpath'' p)"
  by (simp_all add: subpath_line_def lex_simps)

lemma reads_literal:
  "reads_as (literal_line ''allow network-outbound'' (sbpl_escape p)) (filter_rule [''allow'', ''network-outbound''] ''literal'' p)"
  "reads_as (literal_line ''allow network-bind'' (sbpl_escape p)) (filter_rule [''allow'', ''network-bind''] ''literal'' p)"
  "reads_as (literal_line ''allow network-inbound'' (sbpl_escape p)) (filter_rule [''allow'', ''network-inbound''] ''literal'' p)"
  "reads_as (literal_line ''allow file-read* file-write* file-ioctl'' (sbpl_escape p))
     (filter_rule [''allow'', ''file-read*'', ''file-write*'', ''file-ioctl''] ''literal'' p)"
  "reads_as (literal_line ''allow file-write*'' ''/dev/null'') (filter_rule [''allow'', ''file-write*''] ''literal'' ''/dev/null'')"
  by (simp_all add: literal_line_def lex_simps plain_def)

lemma reads_plain:
  "reads_as ''(version 1)'' (plain_rule [''version'', ''1''])"
  "reads_as ''(deny default)'' (plain_rule [''deny'', ''default''])"
  "reads_as ''(allow process-fork)'' (plain_rule [''allow'', ''process-fork''])"
  "reads_as ''(allow signal (target self))'' [LP, Word ''allow'', Word ''signal'', LP, Word ''target'', Word ''self'', RP, RP]"
  "reads_as ''(allow file-read*)'' (plain_rule [''allow'', ''file-read*''])"
  "reads_as ''(allow process-exec*)'' (plain_rule [''allow'', ''process-exec*''])"
  "reads_as ''(deny network-outbound)'' (plain_rule [''deny'', ''network-outbound''])"
  by (simp_all add: lex_simps)

lemma reads_named:
  "plain t \<Longrightarrow> reads_as (''(deny mach-lookup (global-name '' @ quoted t @ ''))'') (filter_rule [''deny'', ''mach-lookup''] ''global-name'' t)"
  "plain t \<Longrightarrow> reads_as (''(allow sysctl-read (sysctl-name '' @ quoted t @ ''))'') (filter_rule [''allow'', ''sysctl-read''] ''sysctl-name'' t)"
  "plain t \<Longrightarrow> reads_as (''(allow network-outbound (remote tcp4 '' @ quoted t @ ''))'')
     [LP, Word ''allow'', Word ''network-outbound'', LP, Word ''remote'', Word ''tcp4'', Quoted t, RP, RP]"
  by (simp_all add: lex_simps)

lemma plain_port: "plain (''localhost:'' @ show_int i)"
proof -
  have "c \<noteq> CHR 0x5C \<and> c \<noteq> CHR 0x22" if "c \<in> set (show_nat n)" for c n
    using that show_nat_digits [of n] by (auto simp: list_all_iff is_digit_def in_range_def)
  then show ?thesis by (auto simp: plain_def show_int_def)
qed

lemmas reads_port = reads_named(3) [OF plain_port]

lemma reads_services:
  "list_all2 reads_as (map (\<lambda>name. ''(deny mach-lookup (global-name '' @ quoted name @ ''))'') security_services)
     (map (filter_rule [''deny'', ''mach-lookup''] ''global-name'') security_services)"
proof -
  have "plain name" if "name \<in> set security_services" for name
    using that by (auto simp: security_services_def plain_def)
  then show ?thesis unfolding list_all2_map1 list_all2_map2 by (intro list.rel_refl_strong reads_named(1))
qed

lemma sbpl_path_ok: "sbpl_path p = Inr t \<longleftrightarrow> is_absolute p \<and> list_all line_safe p \<and> t = sbpl_escape p"
  by (auto simp: sbpl_path_def)

lemma sbpl_paths_ok: "map_result sbpl_path ps = Inr ts \<Longrightarrow> ts = map sbpl_escape ps"
  by (induction ps arbitrary: ts) (auto simp: sbpl_path_ok)

lemma reads_map:
  "(\<And>p. reads_as (f (sbpl_escape p)) (g p)) \<Longrightarrow> list_all2 reads_as (map f (map sbpl_escape ps)) (map g ps)"
  by (induction ps) simp_all

lemma sandbox_text_reads:
  assumes "render_sandbox_profile H s pty = Inr rendered"
  shows "lex Outside rendered = Some (concat (sandbox_rules s pty))"
proof -
  obtain ws rs ps backend public tty where
    v: "map_result sbpl_path (write_paths s) = Inr ws" "map_result sbpl_path (ip_protected_read s) = Inr rs"
      "map_result sbpl_path (ip_protected s) = Inr ps"
      "sbpl_path (ip_backend_socket s) = Inr backend" "sbpl_path (ip_public_socket s) = Inr public"
    and tty: "(case pty of None \<Rightarrow> Inr [] | Some p \<Rightarrow> andThen (sbpl_path (mk_path p)) (\<lambda>t.
       Inr [literal_line ''allow file-read* file-write* file-ioctl'' t])) = Inr tty"
    and out: "rendered = join [CHR 0x0A] ([''(version 1)'', ''(deny default)'', ''(allow process-fork)'', ''(allow signal (target self))'', ''(allow file-read*)'']
       @ map (subpath_line ''allow file-write*'') ws @ [''(allow process-exec*)'']
       @ map (subpath_line ''deny file-read*'') rs @ map (subpath_line ''deny file-write*'') ps
       @ [''(deny network-outbound)'', literal_line ''allow file-write*'' ''/dev/null'',
          ''(allow sysctl-read (sysctl-name '' @ quoted ''hw.pagesize_compat'' @ ''))'',
          literal_line ''allow network-outbound'' backend, literal_line ''allow network-outbound'' public,
          literal_line ''allow network-bind'' backend, literal_line ''allow network-inbound'' backend]
       @ map (\<lambda>name. ''(deny mach-lookup (global-name '' @ quoted name @ ''))'') security_services
       @ tty
       @ (if ip_port s = JNull then []
          else [''(allow network-outbound (remote tcp4 '' @ quoted (''localhost:'' @ show_int (int_of (ip_port s))) @ ''))''])) @ [CHR 0x0A]"
    using assms unfolding render_sandbox_profile_def Let_def andThen_eq_Inr ensure_eq_Inr by blast
  have t: "list_all2 reads_as tty
      (case pty of None \<Rightarrow> [] | Some p \<Rightarrow> [filter_rule [''allow'', ''file-read*'', ''file-write*'', ''file-ioctl''] ''literal'' (mk_path p)])"
    using tty by (auto simp: sbpl_path_ok reads_literal split: option.splits)
  have e: "ws = map sbpl_escape (write_paths s)" "rs = map sbpl_escape (ip_protected_read s)" "ps = map sbpl_escape (ip_protected s)"
      "backend = sbpl_escape (ip_backend_socket s)" "public = sbpl_escape (ip_public_socket s)"
    using v by (simp_all add: sbpl_paths_ok sbpl_path_ok)
  show ?thesis unfolding out e sandbox_rules_def
    by (intro lex_lines list_all2_appendI reads_map reads_subpath reads_services t)
      (simp_all add: reads_plain reads_literal reads_named(1,2) [simplified] reads_port [simplified] plain_def)
qed

text \<open>
  C26. The text of a sandbox profile is exactly the rules it stands for: whatever characters the paths
  of the profile contain, the text reads as the fixed rules over the paths themselves, so that no
  path can end its quotes, add a rule or change one.
\<close>

theorem sandbox_profile_reads_back:
  assumes "render_sandbox_profile H s pty = Inr rendered"
  shows "lex Outside rendered = Some (concat (sandbox_rules s pty))"
  using assms by (rule sandbox_text_reads)

definition sample_node :: "string \<Rightarrow> linked" where
  "sample_node p = \<lparr>nd_dev = 1, nd_ino = 2, nd_uid = 501, nd_kind = (if p \<in> {''/bin/codex'', ''/m.json''} then KRegular else KDirectory),
     nd_perm = (if p = ''/m.json'' then 384 else 448), nd_size = 3, nd_mtime = 0, nd_ctime = 0, nd_nlink = 1\<rparr>"

definition sample_host :: isolation_host where
  "sample_host = \<lparr>ih_resolve = Inr, ih_symlink = (\<lambda>_. False), ih_lexists = (\<lambda>_. False), ih_absolute = (\<lambda>p. p),
     ih_lstat = (\<lambda>p. Inr (sample_node p)), ih_read = (\<lambda>p. Inr (sample_node p, ''elf'', sample_node p))\<rparr>"

text \<open>A home whose name tries to end its quotes and to open another rule.\<close>

definition sample_spec :: isolation_spec where
  "sample_spec = \<lparr>ip_task_root = ''/private/tmp/g0-auth-1'', ip_home = ''/private/tmp/g0-auth-1/h'' @ [CHR 0x22] @ '')) (allow default'',
     ip_codex_home = ''/private/tmp/g0-auth-1/c'', ip_workspace = ''/private/tmp/g0-auth-1/w'', ip_profile_id = ''alpha'',
     ip_public_socket = ''/private/tmp/s/p.sock'', ip_backend_socket = ''/private/tmp/g0-auth-1/b/b.sock'',
     ip_protected = [''/Users/me/.codex''], ip_protected_read = [''/Users/me/.codex''], ip_executables = [''/bin/codex''], ip_port = JInt 8080\<rparr>"

lemma sample_valid: "validate_spec sample_host sample_spec = Inr ()"
  by code_simp

lemma sandbox_profile_reads_back_witness:
  "\<exists>rendered. render_sandbox_profile sample_host sample_spec None = Inr rendered
     \<and> lex Outside rendered = Some (concat (sandbox_rules sample_spec None))"
proof -
  have "succeeds (render_sandbox_profile sample_host sample_spec None)" by code_simp
  then obtain rendered where "render_sandbox_profile sample_host sample_spec None = Inr rendered" by (auto simp: succeeds_iff)
  then show ?thesis using sandbox_profile_reads_back by blast
qed

end
