(* ===== verification/IsolationProps.thy ===== *)
theory IsolationProps
  imports SandboxProps
begin

text \<open>
  What an isolated profile that was loaded, its environment and the plan of its launch guarantee.
\<close>

section \<open>The digest of a file\<close>

lemma hash_loop_ok:
  "seen \<le> limit \<Longrightarrow> hash_loop e limit acc seen bytes = (if seen + length bytes \<le> limit then Inr (acc @ bytes) else Inl e)"
proof (induction e limit acc seen bytes rule: hash_loop.induct)
  case (1 e limit acc seen bytes)
  define n where "n = chunk_size limit seen"
  have n: "0 < n" "n \<le> limit - seen + 1" by (simp_all add: n_def chunk_size_def)
  show ?case
  proof (cases "bytes = []")
    case True
    then show ?thesis using 1(2) by (simp add: hash_loop.simps)
  next
    case some: False
    show ?thesis
    proof (cases "limit < seen + length (take n bytes)")
      case True
      then show ?thesis using some n by (simp add: hash_loop.simps [of e limit acc seen bytes] Let_def n_def [symmetric])
    next
      case False
      have "hash_loop e limit (acc @ take n bytes) (seen + length (take n bytes)) (drop n bytes) =
          (if seen + length (take n bytes) + length (drop n bytes) \<le> limit then Inr ((acc @ take n bytes) @ drop n bytes) else Inl e)"
        by (rule 1(1) [of "take n bytes", folded n_def]) (use some n False in auto)
      moreover have "hash_loop e limit acc seen bytes = hash_loop e limit (acc @ take n bytes) (seen + length (take n bytes)) (drop n bytes)"
        using some n False by (simp add: hash_loop.simps [of e limit acc seen bytes] Let_def n_def [symmetric])
      moreover have "seen + length (take n bytes) + length (drop n bytes) = seen + length bytes" by auto
      ultimately show ?thesis by simp
    qed
  qed
qed

text \<open>The digest is that of the whole file, which did not change and is not too large.\<close>

definition digest_of_file :: "platform \<Rightarrow> isolation_host \<Rightarrow> string \<Rightarrow> string \<Rightarrow> bool" where
  "digest_of_file E H p digest = (\<exists>first bytes second. ih_read H p = Inr (first, bytes, second) \<and> nd_kind first = KRegular
     \<and> snapshot_stat first = snapshot_stat second \<and> length bytes \<le> max_executable_bytes \<and> digest = p_sha256 E bytes)"

lemma hash_stable_file_ok: "hash_stable_file E H p = Inr digest \<longleftrightarrow> digest_of_file E H p digest"
  by (auto simp: hash_stable_file_def digest_of_file_def hash_loop_ok split: prod.splits if_splits)

section \<open>A valid profile\<close>

text \<open>What \<open>validate\<close> promises of the places of a profile.\<close>

definition confined :: "isolation_host \<Rightarrow> string \<Rightarrow> string \<Rightarrow> bool" where
  "confined H base p = (\<exists>r. ih_resolve H p = Inr r \<and> path_within base r)"

definition kept_out :: "isolation_host \<Rightarrow> string \<Rightarrow> string \<Rightarrow> bool" where
  "kept_out H base p = (\<exists>r. ih_resolve H p = Inr r \<and> \<not> path_within base r)"

definition places_ok :: "isolation_host \<Rightarrow> isolation_spec \<Rightarrow> string \<Rightarrow> bool" where
  "places_ok H s base = (ih_resolve H (ip_task_root s) = Inr base \<and> path_parent base = private_test_root
     \<and> starts_with ''g0-auth-'' (path_name base)
     \<and> (\<forall>p \<in> {ip_home s, ip_codex_home s, ip_workspace s}. confined H base p)
     \<and> path_parent (path_parent (ip_backend_socket s)) = base
     \<and> (\<forall>p \<in> set (ip_protected s) \<union> set (ip_protected_read s). kept_out H base p))"

lemma outside_root_ok: "outside_root H base e ps = Inr () \<longleftrightarrow> (\<forall>p \<in> set ps. kept_out H base p)"
  by (simp add: outside_root_def kept_out_def)

lemma validate_places:
  assumes "validate_spec H s = Inr ()"
  shows "\<exists>base. places_ok H s base"
proof -
  obtain base where b: "resolved_root H s = Inr base" "check_spec_places H s base = Inr ()"
      "\<forall>p \<in> set (ip_protected s). kept_out H base p" "\<forall>p \<in> set (ip_protected_read s). kept_out H base p"
    using assms unfolding validate_spec_def by (auto simp: outside_root_ok)
  moreover have "confined H base p" if "p \<in> {ip_home s, ip_codex_home s, ip_workspace s}" for p
    using b(2) that unfolding check_spec_places_def andThen_eq_Inr ensure_eq_Inr for_each_ok confined_def by auto
  moreover have "path_parent (path_parent (ip_backend_socket s)) = base"
    using b(2) unfolding check_spec_places_def andThen_eq_Inr ensure_eq_Inr by blast
  ultimately have "places_ok H s base"
    unfolding places_ok_def by (auto simp: resolved_root_def)
  then show ?thesis ..
qed

section \<open>A sample manifest\<close>

definition sample_profile :: "string \<Rightarrow> json" where
  "sample_profile base = JObj [(''task_root'', JStr base), (''home'', JStr (base @ ''/h'')), (''codex_home'', JStr (base @ ''/c'')),
     (''workspace'', JStr (base @ ''/w'')), (''public_socket'', JStr ''/private/tmp/s/p.sock''), (''backend_socket'', JStr (base @ ''/b/b.sock'')),
     (''expected_executable'', JStr ''/bin/codex''), (''expected_executable_sha256'', JStr (replicate 64 CHR ''A'')),
     (''protected_paths'', JArr [JStr ''/Users/me/.codex'']), (''protected_read_paths'', JArr [JStr ''/Users/me/.codex''])]"

definition sample_manifest :: json where
  "sample_manifest = JObj [(''version'', JInt 1), (''profiles'', JObj [(''alpha'', sample_profile ''/private/tmp/g0-auth-1''),
     (''beta'', sample_profile ''/private/tmp/g0-auth-2'')])]"

definition isolation_platform :: platform where
  "isolation_platform = \<lparr>p_sha256 = (\<lambda>_. replicate 64 CHR ''a''), p_scan = (\<lambda>_. Some sample_manifest), p_float_repr = (\<lambda>_. []), p_uid = 501, p_pid = 7\<rparr>"

section \<open>The environment\<close>

definition inherited_names :: "string list" where
  "inherited_names = [''LANG'', ''LC_ALL'', ''LC_CTYPE'', ''TERM'', ''TERM_PROGRAM'', ''COLORTERM'']"

text \<open>What the environment is, name by name.\<close>

definition isolated_value :: "isolation_spec \<Rightarrow> (string \<Rightarrow> string option) \<Rightarrow> string \<Rightarrow> string option" where
  "isolated_value s inherited name =
    (if name = ''PATH'' then Some ''/usr/bin:/bin:/usr/sbin:/sbin''
     else if name = ''HOME'' then Some (ip_home s)
     else if name = ''CODEX_HOME'' \<or> name = ''CODEX_SQLITE_HOME'' then Some (ip_codex_home s)
     else if name = ''PWD'' then Some (ip_workspace s)
     else if name = ''TMPDIR'' then Some (path_child (ip_task_root s) ''tmp'')
     else if name = ''CODEX_ORCHESTRATION_PROFILE_ID'' then Some (ip_profile_id s)
     else if name \<in> set inherited_names then inherited name
     else None)"

lemma map_of_filter_key: "map_of (filter (\<lambda>(k, _). P k) d) k = (if P k then map_of d k else None)"
  by (induction d) auto

lemma harmless_names:
  assumes "name \<in> set safe_inherited_env_names \<union> {''HOME'', ''CODEX_HOME'', ''CODEX_SQLITE_HOME'', ''PWD'', ''TMPDIR'', ''CODEX_ORCHESTRATION_PROFILE_ID''}"
  shows "\<not> credential_name name"
proof -
  have "list_all (\<lambda>n. \<not> credential_name n) (safe_inherited_env_names @
      [''HOME'', ''CODEX_HOME'', ''CODEX_SQLITE_HOME'', ''PWD'', ''TMPDIR'', ''CODEX_ORCHESTRATION_PROFILE_ID''])"
    by code_simp
  with assms show ?thesis by (auto simp: list_all_iff)
qed

lemma clean_environment_value:
  assumes "build_clean_environment H s source = Inr env"
  shows "validate_spec H s = Inr () \<and> map_of env name = isolated_value s (map_of source) name
    \<and> (name \<in> fst ` set env \<longrightarrow> \<not> credential_name name)"
proof -
  have v: "validate_spec H s = Inr ()" using assms by (auto simp: build_clean_environment_def)
  have env: "env = filter (\<lambda>(n, _). \<not> credential_name n)
      (dict_set ''CODEX_ORCHESTRATION_PROFILE_ID'' (ip_profile_id s) (dict_set ''TMPDIR'' (path_child (ip_task_root s) ''tmp'')
      (dict_set ''PWD'' (ip_workspace s) (dict_set ''CODEX_SQLITE_HOME'' (ip_codex_home s) (dict_set ''CODEX_HOME'' (ip_codex_home s)
      (dict_set ''HOME'' (ip_home s) (dict_set ''PATH'' ''/usr/bin:/bin:/usr/sbin:/sbin''
        (filter (\<lambda>(n, _). n \<in> set safe_inherited_env_names) source))))))))"
    using assms v by (simp add: build_clean_environment_def Let_def)
  have look: "map_of env name = (if \<not> credential_name name then
      ((map_of (filter (\<lambda>(n, _). n \<in> set safe_inherited_env_names) source))
        (''PATH'' \<mapsto> ''/usr/bin:/bin:/usr/sbin:/sbin'', ''HOME'' \<mapsto> ip_home s, ''CODEX_HOME'' \<mapsto> ip_codex_home s,
         ''CODEX_SQLITE_HOME'' \<mapsto> ip_codex_home s, ''PWD'' \<mapsto> ip_workspace s, ''TMPDIR'' \<mapsto> path_child (ip_task_root s) ''tmp'',
         ''CODEX_ORCHESTRATION_PROFILE_ID'' \<mapsto> ip_profile_id s)) name else None)"
    unfolding env map_of_filter_key map_of_dict_set ..
  have "map_of env name = isolated_value s (map_of source) name"
  proof (cases "name \<in> set safe_inherited_env_names \<union> {''HOME'', ''CODEX_HOME'', ''CODEX_SQLITE_HOME'', ''PWD'', ''TMPDIR'', ''CODEX_ORCHESTRATION_PROFILE_ID''}")
    case True
    from harmless_names [OF True] True show ?thesis
      unfolding look by (auto simp: isolated_value_def map_of_filter_key safe_inherited_env_names_def inherited_names_def)
  next
    case False
    then show ?thesis
      unfolding look by (auto simp: isolated_value_def map_of_filter_key safe_inherited_env_names_def inherited_names_def)
  qed
  moreover have "name \<in> fst ` set env \<longrightarrow> \<not> credential_name name"
    using look by (metis map_of_eq_None_iff)
  ultimately show ?thesis using v by simp
qed

section \<open>A relative path\<close>

text \<open>
  Of a relative path the first component is never looked at, and the others are looked for in the working
  directory: a manifest is read through a symbolic link to its directory.
\<close>

lemma relative_manifest_through_link:
  "\<exists>H. ih_symlink H ''d'' \<and> read_stable_manifest isolation_platform H ''d/m.json'' = Inr ''elf''"
proof -
  let ?st = "\<lparr>nd_dev = 1, nd_ino = 2, nd_uid = 501, nd_kind = KRegular, nd_perm = 384, nd_size = 3, nd_mtime = 0, nd_ctime = 0, nd_nlink = 1\<rparr>"
  let ?H = "sample_host\<lparr>ih_symlink := (\<lambda>p. p = ''d''), ih_lstat := (\<lambda>_. Inr ?st), ih_read := (\<lambda>_. Inr (?st, ''elf'', ?st))\<rparr>"
  have looked: "looked_components ''d/m.json'' = [''m.json'']" by code_simp
  have plain: "(\<not> ih_symlink ?H ''m.json'') = True" by simp
  have "reject_symlink_components ?H ''d/m.json'' = Inr ()"
    unfolding reject_symlink_components_def looked for_each.simps plain ensure_simps andThen_simps ..
  then have "read_stable_manifest isolation_platform ?H ''d/m.json'' = Inr ''elf''"
    by (simp add: read_stable_manifest_def isolation_platform_def perm_file_def max_context_bytes_def Let_def)
  then show ?thesis by (intro exI [of _ ?H]) simp
qed

section \<open>A loaded profile\<close>

lemma pairs_cover: "x \<in> set xs \<Longrightarrow> y \<in> set xs \<Longrightarrow> x \<noteq> y \<Longrightarrow> (x, y) \<in> set (pairs xs) \<or> (y, x) \<in> set (pairs xs)"
  by (induction xs) auto

lemma path_overlap_sym: "path_overlap l r = path_overlap r l"
  by (auto simp: path_overlap_def)

text \<open>No path of one entry of the manifest lies in, around or at a path of the other.\<close>

definition apart :: "isolation_host \<Rightarrow> jdict \<Rightarrow> jdict \<Rightarrow> bool" where
  "apart H a b = (\<forall>k \<in> set profile_path_keys. \<forall>k' \<in> set profile_path_keys. \<exists>l r.
     ih_resolve H (mk_path (str_of (dget a k))) = Inr l \<and> ih_resolve H (mk_path (str_of (dget b k'))) = Inr r \<and> \<not> path_overlap l r)"

lemma map_result_mem:
  assumes "map_result f xs = Inr ys" "x \<in> set xs"
  shows "\<exists>y \<in> set ys. f x = Inr y"
  using assms by (induction xs arbitrary: ys) auto

lemma profile_root_entry:
  assumes "profile_roots H profiles = Inr roots" "(name, JObj d) \<in> set profiles"
  obtains rs where "(name, rs) \<in> set roots"
    "\<And>k. k \<in> set profile_path_keys \<Longrightarrow> \<exists>r \<in> set rs. ih_resolve H (mk_path (str_of (dget d k))) = Inr r"
proof -
  obtain y where y: "y \<in> set roots" and f: "(let paths = map (dget d) profile_path_keys in
     ensure (list_all absolute_text paths) (value_error ''profile paths must be absolute'')
    (andThen (map_result (\<lambda>p. ih_resolve H (mk_path (str_of p))) paths) (\<lambda>rs. Inr (name, rs)))) = Inr y"
    using map_result_mem [OF assms [unfolded profile_roots_def]] by auto
  then obtain rs where rs: "map_result (\<lambda>p. ih_resolve H (mk_path (str_of p))) (map (dget d) profile_path_keys) = Inr rs" "y = (name, rs)"
    by (auto simp: Let_def)
  show ?thesis
  proof (rule that)
    show "(name, rs) \<in> set roots" using y rs(2) by simp
    show "\<exists>r \<in> set rs. ih_resolve H (mk_path (str_of (dget d k))) = Inr r" if "k \<in> set profile_path_keys" for k
      using map_result_mem [OF rs(1), of "dget d k"] that by auto
  qed
qed

lemma disjoint_profiles_apart:
  assumes "profile_roots H profiles = Inr roots" "check_disjoint_profiles roots = Inr ()"
    and "(n, JObj a) \<in> set profiles" "(m, JObj b) \<in> set profiles" "n \<noteq> m"
  shows "apart H a b"
proof -
  obtain ls where l: "(n, ls) \<in> set roots" "\<And>k. k \<in> set profile_path_keys \<Longrightarrow> \<exists>r \<in> set ls. ih_resolve H (mk_path (str_of (dget a k))) = Inr r"
    using assms(1,3) by (rule profile_root_entry) blast
  obtain rs where r: "(m, rs) \<in> set roots" "\<And>k. k \<in> set profile_path_keys \<Longrightarrow> \<exists>r \<in> set rs. ih_resolve H (mk_path (str_of (dget b k))) = Inr r"
    using assms(1,4) by (rule profile_root_entry) blast
  have no: "\<not> path_overlap x y" if "x \<in> set ls" "y \<in> set rs" for x y
    using assms(2) pairs_cover [OF l(1) r(1)] assms(5) that path_overlap_sym [of x y]
    by (auto simp: check_disjoint_profiles_def list_ex_iff)
  show ?thesis unfolding apart_def
  proof (intro ballI)
    fix k k' assume "k \<in> set profile_path_keys" "k' \<in> set profile_path_keys"
    then show "\<exists>x y. ih_resolve H (mk_path (str_of (dget a k))) = Inr x \<and> ih_resolve H (mk_path (str_of (dget b k'))) = Inr y \<and> \<not> path_overlap x y"
      using l(2) r(2) no by meson
  qed
qed

lemma profile_entries:
  assumes "profile_roots H profiles = Inr roots" "(name, v) \<in> set profiles"
  shows "is_obj v"
  using map_result_mem [OF assms [unfolded profile_roots_def]] by auto

definition own_directory :: "platform \<Rightarrow> isolation_host \<Rightarrow> string \<Rightarrow> bool" where
  "own_directory E H p = (\<exists>st. ih_lstat H p = Inr st \<and> nd_kind st = KDirectory \<and> nd_uid st = p_uid E \<and> nd_perm st = perm_dir)"

lemma profile_files_ok:
  assumes "check_profile_files E H s expected digest = Inr ()"
  shows "digest_of_file E H (mk_path expected) digest"
    "\<forall>d \<in> {ip_task_root s, ip_home s, ip_codex_home s, ip_workspace s}. own_directory E H d"
  using assms by (auto simp: check_profile_files_def hash_stable_file_ok own_directory_def owned_private_dir_def)

text \<open>
  C28. A profile that is loaded is isolated: it is the entry of that name in an owner-only manifest; its
  directories are private directories of the user below one task root in \<open>/private/tmp\<close>; every path
  that it protects lies outside that root; none of its paths lies in, around or at a path of another
  profile of the manifest; and the pinned digest is that of the whole executable, as it was read.
\<close>

theorem loaded_profile_is_isolated:
  assumes "load_isolation_context E H p profile_id = Inr x"
  shows "\<exists>base document raw. read_stable_manifest E H (mk_path p) = Inr document \<and> places_ok H (ix_spec x) base
    \<and> (\<forall>d \<in> {ip_task_root (ix_spec x), ip_home (ix_spec x), ip_codex_home (ix_spec x), ip_workspace (ix_spec x)}. own_directory E H d)
    \<and> digest_of_file E H (ix_executable x) (ix_executable_sha256 x)
    \<and> ip_protected (ix_spec x) \<noteq> [] \<and> ip_protected_read (ix_spec x) \<noteq> []
    \<and> (\<exists>v. loads E (Raised ''JSONDecodeError'' []) document = Inr v \<and>
        (let profiles = obj_of (dget (obj_of v) ''profiles'') in
           map_of profiles profile_id = Some (JObj raw) \<and> ix_spec x = profile_spec raw profile_id
           \<and> (\<forall>(name, other) \<in> set profiles. name \<noteq> profile_id \<longrightarrow> apart H raw (obj_of other))))"
proof -
  obtain document v raw roots where
    v: "read_stable_manifest E H (mk_path p) = Inr document" "loads E (Raised ''JSONDecodeError'' []) document = Inr v"
      "is_obj (dget (obj_of (dget (obj_of v) ''profiles'')) profile_id)"
      "raw = obj_of (dget (obj_of (dget (obj_of v) ''profiles'')) profile_id)"
    and c: "check_profile_entry raw = Inr ()" "profile_roots H (obj_of (dget (obj_of v) ''profiles'')) = Inr roots"
      "check_disjoint_profiles roots = Inr ()" "validate_spec H (profile_spec raw profile_id) = Inr ()"
      "check_profile_files E H (profile_spec raw profile_id) (str_of (dget raw ''expected_executable''))
        (lower_text (str_of (dget raw ''expected_executable_sha256''))) = Inr ()"
    and x: "x = \<lparr>ix_spec = profile_spec raw profile_id, ix_executable = mk_path (str_of (dget raw ''expected_executable'')),
        ix_executable_sha256 = lower_text (str_of (dget raw ''expected_executable_sha256''))\<rparr>"
    using assms unfolding load_isolation_context_def Let_def by auto
  define profiles where "profiles = obj_of (dget (obj_of v) ''profiles'')"
  have raw: "map_of profiles profile_id = Some (JObj raw)"
    using v(3,4) by (auto simp: profiles_def dget_def is_obj_iff split: option.splits)
  have others: "\<forall>(name, other) \<in> set profiles. name \<noteq> profile_id \<longrightarrow> apart H raw (obj_of other)"
  proof clarify
    fix name other assume o: "(name, other) \<in> set profiles" "name \<noteq> profile_id"
    then obtain d where d: "other = JObj d" using profile_entries [OF c(2)] by (auto simp: profiles_def is_obj_iff)
    show "apart H raw (obj_of other)"
      using disjoint_profiles_apart [OF c(2,3), of profile_id raw name d] map_of_SomeD [OF raw] o d by (auto simp: profiles_def)
  qed
  obtain base where "places_ok H (ix_spec x) base" using validate_places [OF c(4)] x by auto
  moreover have "ip_protected (ix_spec x) \<noteq> [] \<and> ip_protected_read (ix_spec x) \<noteq> []"
    using c(1) x by (auto simp: check_profile_entry_def Let_def profile_spec_def text_paths_def)
  moreover note profile_files_ok [OF c(5)]
  ultimately show ?thesis using v(1,2) raw others x unfolding profiles_def Let_def
    by (intro exI [of _ base] exI [of _ document] exI [of _ raw] conjI exI [of _ v]) simp_all
qed

lemma sample_digest_of_file: "hash_stable_file isolation_platform sample_host ''/bin/codex'' = Inr (replicate 64 CHR ''a'')"
  by (simp add: hash_stable_file_ok digest_of_file_def sample_host_def isolation_platform_def sample_node_def snapshot_stat_def max_executable_bytes_def)

definition sample_raw :: jdict where
  "sample_raw = obj_of (sample_profile ''/private/tmp/g0-auth-1'')"

lemma sample_checks:
  "read_stable_manifest isolation_platform sample_host (mk_path ''/m.json'') = Inr ''elf''"
  "loads isolation_platform e ''elf'' = Inr sample_manifest"
  "dget (obj_of (dget (obj_of sample_manifest) ''profiles'')) ''alpha'' = JObj sample_raw"
  "check_profile_entry sample_raw = Inr ()"
  "validate_spec sample_host (profile_spec sample_raw ''alpha'') = Inr ()"
  by code_simp+

lemma sample_fields:
  "ip_task_root (profile_spec sample_raw ''alpha'') = ''/private/tmp/g0-auth-1''"
  "ip_home (profile_spec sample_raw ''alpha'') = ''/private/tmp/g0-auth-1/h''"
  "ip_codex_home (profile_spec sample_raw ''alpha'') = ''/private/tmp/g0-auth-1/c''"
  "ip_workspace (profile_spec sample_raw ''alpha'') = ''/private/tmp/g0-auth-1/w''"
  "mk_path ''/bin/codex'' = ''/bin/codex''"
  "str_of (dget sample_raw ''expected_executable'') = ''/bin/codex''"
  "lower_text (str_of (dget sample_raw ''expected_executable_sha256'')) = replicate 64 CHR ''a''"
  by code_simp+

lemma sample_nodes:
  "ih_lstat sample_host p = Inr (sample_node p)" "nd_uid (sample_node p) = 501" "p_uid isolation_platform = 501"
  "nd_kind (sample_node ''/bin/codex'') = KRegular" "nd_perm (sample_node ''/bin/codex'') = 448"
  "ih_absolute sample_host p = p" "\<not> ih_lexists sample_host p"
  by (simp_all add: sample_host_def sample_node_def isolation_platform_def)

lemma sample_directory:
  assumes "starts_with ''/private'' d"
  shows "owned_private_dir isolation_platform d (nd_kind (sample_node d)) (nd_uid (sample_node d)) (nd_perm (sample_node d)) = Inr ()"
  using assms by (auto simp: sample_node_def owned_private_dir_def isolation_platform_def perm_dir_def starts_with_def)

lemma sample_places:
  "starts_with ''/private'' ''/private/tmp/g0-auth-1''" "starts_with ''/private'' ''/private/tmp/g0-auth-1/h''"
  "starts_with ''/private'' ''/private/tmp/g0-auth-1/c''" "starts_with ''/private'' ''/private/tmp/g0-auth-1/w''"
  by code_simp+

lemmas sample_directories = sample_places [THEN sample_directory]

lemma sample_files:
  "check_profile_files isolation_platform sample_host (profile_spec sample_raw ''alpha'') ''/bin/codex'' (replicate 64 CHR ''a'') = Inr ()"
proof -
  have exec: "ensure ((448::nat) AND 73 \<noteq> 0) e k = k" for e :: exn and k :: "unit result" by simp
  show ?thesis unfolding check_profile_files_def sample_fields sample_digest_of_file sample_nodes(1) andThen_simps sample_nodes(4,5)
      exec for_each.simps sample_directories ensure_simps simp_thms ..
qed

lemma sample_disjoint:
  "succeeds (andThen (profile_roots sample_host (obj_of (dget (obj_of sample_manifest) ''profiles''))) check_disjoint_profiles)"
  "is_obj sample_manifest" "is_obj (dget (obj_of sample_manifest) ''profiles'')" "dget (obj_of sample_manifest) ''version'' = JInt 1"
  by code_simp+

lemma sample_profile_loads: "succeeds (load_isolation_context isolation_platform sample_host ''/m.json'' ''alpha'')"
proof -
  obtain roots where roots: "profile_roots sample_host (obj_of (dget (obj_of sample_manifest) ''profiles'')) = Inr roots"
      "check_disjoint_profiles roots = Inr ()" using sample_disjoint(1) by (auto simp: succeeds_iff)
  have version: "ensure (py_eq (JInt 1) (JInt 1) \<and> True) e k = k" for e :: exn and k :: "isolation_context result" by simp
  show ?thesis unfolding load_isolation_context_def Let_def sample_checks andThen_simps sample_disjoint(4) roots
      sample_disjoint(2,3) [THEN eqTrueI] version ensure_simps json_kind_simps(4) [THEN eqTrueI]
    unfolding json_kind_simps(9) sample_checks sample_fields(6,7) sample_files andThen_simps succeeds_simps ..
qed

lemma loaded_profile_is_isolated_witness:
  "\<exists>x base. load_isolation_context isolation_platform sample_host ''/m.json'' ''alpha'' = Inr x \<and> places_ok sample_host (ix_spec x) base"
proof -
  obtain x where x: "load_isolation_context isolation_platform sample_host ''/m.json'' ''alpha'' = Inr x"
    using sample_profile_loads by (auto simp: succeeds_iff)
  then show ?thesis using loaded_profile_is_isolated [OF x] by blast
qed

section \<open>The plan of a launch\<close>

text \<open>
  C27. A launch plan keeps what the profile was pinned to: the program is the pinned executable and its
  whole content has the pinned digest at that time, the socket stays in the backend directory of the
  profile below the task root and is neither the public nor the default socket, the environment is
  the fixed one, and the sandbox is the rules of the profile with this socket.
\<close>

theorem launch_plan_is_confined:
  assumes "build_backend_launch E H environ x argv private_socket = Inr plan"
  shows "\<exists>base s. s = (ix_spec x)\<lparr>ip_backend_socket := lp_private_socket plan\<rparr> \<and> places_ok H s base
    \<and> lp_argv plan = argv \<and> argv \<noteq> [] \<and> ih_absolute H (mk_path (hd argv)) = ix_executable x
    \<and> lp_executable plan = ix_executable x \<and> digest_of_file E H (ix_executable x) (ix_executable_sha256 x)
    \<and> path_parent (lp_private_socket plan) = path_parent (ip_backend_socket (ix_spec x))
    \<and> lp_private_socket plan \<noteq> ip_public_socket s \<and> lp_private_socket plan \<noteq> default_control_socket (ip_codex_home s)
    \<and> confined H base (lp_cwd plan)
    \<and> map_of (lp_env plan) = isolated_value s (map_of environ)
    \<and> lex Outside (lp_sandbox_profile plan) = Some (concat (sandbox_rules s None))"
proof -
  define socket where "socket = (case private_socket of None \<Rightarrow> ip_backend_socket (ix_spec x) | Some q \<Rightarrow> mk_path q)"
  define s where "s = (ix_spec x)\<lparr>ip_backend_socket := socket\<rparr>"
  obtain h env rendered where p: "argv \<noteq> []" "ih_absolute H (mk_path (hd argv)) = ix_executable x" "validate_spec H s = Inr ()"
      "hash_stable_file E H (ix_executable x) = Inr h" "h = ix_executable_sha256 x"
      "path_parent socket = path_parent (ip_backend_socket (ix_spec x))"
      "socket \<noteq> ip_public_socket s" "socket \<noteq> default_control_socket (ip_codex_home s)"
    and env: "build_clean_environment H s environ = Inr env"
    and rendered: "render_sandbox_profile H s None = Inr rendered"
    and plan: "plan = \<lparr>lp_profile_id = ip_profile_id s, lp_argv = argv, lp_env = env, lp_cwd = ip_workspace s, lp_private_socket = socket,
          lp_executable = ix_executable x, lp_executable_sha256 = ix_executable_sha256 x, lp_sandbox_profile = rendered\<rparr>"
    using assms unfolding build_backend_launch_def Let_def socket_def [symmetric] s_def [symmetric] by auto
  obtain base where base: "places_ok H s base" using validate_places [OF p(3)] ..
  have fields: "lp_argv plan = argv" "lp_executable plan = ix_executable x" "lp_private_socket plan = socket" "lp_cwd plan = ip_workspace s"
      "lp_env plan = env" "lp_sandbox_profile plan = rendered" by (simp_all add: plan)
  have facts: "map_of env = isolated_value s (map_of environ)" "confined H base (ip_workspace s)"
      "digest_of_file E H (ix_executable x) (ix_executable_sha256 x)"
    using clean_environment_value [OF env] base p(4,5) by (auto simp: fun_eq_iff places_ok_def hash_stable_file_ok)
  show ?thesis unfolding fields
    by (intro exI [of _ base] exI [of _ s] conjI s_def base facts sandbox_text_reads [OF rendered] p(1,2,6-8) refl)
qed

definition sample_context :: isolation_context where
  "sample_context = \<lparr>ix_spec = sample_spec, ix_executable = ''/bin/codex'', ix_executable_sha256 = replicate 64 CHR ''a''\<rparr>"

lemma launch_plan_is_confined_witness:
  "\<exists>plan. build_backend_launch isolation_platform sample_host [(''OPENAI_API_KEY'', ''k'')] sample_context [''/bin/codex'', ''app-server'']
       (Some ''/private/tmp/g0-auth-1/b/s2.sock'') = Inr plan
     \<and> lp_argv plan = [''/bin/codex'', ''app-server'']
     \<and> path_parent (lp_private_socket plan) = path_parent (ip_backend_socket sample_spec)"
proof -
  let ?s = "sample_spec\<lparr>ip_backend_socket := ''/private/tmp/g0-auth-1/b/s2.sock''\<rparr>"
  have "succeeds (build_clean_environment sample_host ?s [(''OPENAI_API_KEY'', ''k'')])"
    "succeeds (render_sandbox_profile sample_host ?s None)" "validate_spec sample_host ?s = Inr ()" by code_simp+
  moreover have "mk_path ''/private/tmp/g0-auth-1/b/s2.sock'' = ''/private/tmp/g0-auth-1/b/s2.sock''"
    "path_parent ''/private/tmp/g0-auth-1/b/s2.sock'' = path_parent (ip_backend_socket sample_spec)"
    "''/private/tmp/g0-auth-1/b/s2.sock'' \<noteq> ip_public_socket ?s"
    "''/private/tmp/g0-auth-1/b/s2.sock'' \<noteq> default_control_socket (ip_codex_home ?s)" by code_simp+
  ultimately have "succeeds (build_backend_launch isolation_platform sample_host [(''OPENAI_API_KEY'', ''k'')] sample_context [''/bin/codex'', ''app-server'']
       (Some ''/private/tmp/g0-auth-1/b/s2.sock''))"
    unfolding build_backend_launch_def
    by (auto simp: succeeds_iff Let_def sample_context_def sample_digest_of_file sample_nodes sample_fields(5))
  then obtain plan where p: "build_backend_launch isolation_platform sample_host [(''OPENAI_API_KEY'', ''k'')] sample_context [''/bin/codex'', ''app-server'']
       (Some ''/private/tmp/g0-auth-1/b/s2.sock'') = Inr plan" by (auto simp: succeeds_iff)
  show ?thesis using launch_plan_is_confined [OF p] p by (auto simp: sample_context_def)
qed

end
