(* ===== verification/IsolationHome.thy ===== *)
theory IsolationHome
  imports IsolationProps
begin

text \<open>
  The directories and files of an isolated profile (\<open>prepare_isolated_home\<close> and
  \<open>write_synthetic_api_key_fixture\<close> of \<open>runtime/native/auth_isolation.py\<close>) on a tree of paths. No function here
  catches an exception, so the tree after a call that raises is also the tree that is left when the
  process ends at that operation.
\<close>

section \<open>The tree\<close>

text \<open>
  A path that exists: a directory or a file with its owner, permission bits and content, or something
  else, of which \<open>exists()\<close> says whether it leads anywhere.
\<close>

datatype item = IDir int nat | IFile int nat string | IOther bool

type_synonym tree = "(string \<times> item) list"

definition lexists :: "tree \<Rightarrow> string \<Rightarrow> bool" where
  "lexists t p = (map_of t p \<noteq> None)"

definition item_exists :: "tree \<Rightarrow> string \<Rightarrow> bool" where
  "item_exists t p = (case map_of t p of None \<Rightarrow> False | Some (IOther b) \<Rightarrow> b | Some _ \<Rightarrow> True)"

text \<open>Where the operating system fails for a reason of its own; a failing write leaves a part of the text.\<close>

record file_faults =
  ff_mkdir :: "string \<Rightarrow> exn option"
  ff_open :: "string \<Rightarrow> exn option"
  ff_write :: "string \<Rightarrow> (nat \<times> exn) option"

type_synonym action = "tree \<Rightarrow> unit result \<times> tree"

fun run_actions :: "action list \<Rightarrow> action" where
  "run_actions [] t = (Inr (), t)"
| "run_actions (a # as) t = (case a t of (Inl e, t1) \<Rightarrow> (Inl e, t1) | (Inr _, t1) \<Rightarrow> run_actions as t1)"

definition checked :: "(tree \<Rightarrow> unit result) \<Rightarrow> action" where
  "checked f t = (f t, t)"

definition parent_dir :: "tree \<Rightarrow> string \<Rightarrow> unit result" where
  "parent_dir t p = (case map_of t (path_parent p) of
      Some (IDir _ _) \<Rightarrow> Inr ()
    | None \<Rightarrow> Inl (Raised ''FileNotFoundError'' [])
    | _ \<Rightarrow> Inl (Raised ''NotADirectoryError'' []))"

text \<open>\<open>os.mkdir(path, 0o700)\<close>.\<close>

definition make_dir :: "platform \<Rightarrow> file_faults \<Rightarrow> string \<Rightarrow> action" where
  "make_dir E F p t = (case ff_mkdir F p of
      Some e \<Rightarrow> (Inl e, t)
    | None \<Rightarrow> if lexists t p then (Inl (Raised ''FileExistsError'' []), t)
        else (case parent_dir t p of Inl e \<Rightarrow> (Inl e, t) | Inr _ \<Rightarrow> (Inr (), dict_set p (IDir (p_uid E) perm_dir) t)))"

definition create_new_private_dir :: "platform \<Rightarrow> file_faults \<Rightarrow> string \<Rightarrow> action" where
  "create_new_private_dir E F p t =
    (if lexists t p then (Inl (Raised ''FileExistsError'' (''refusing to reuse existing isolated directory: '' @ p)), t)
     else make_dir E F p t)"

text \<open>\<open>os.open\<close> with \<open>O_CREAT\<close>, \<open>O_EXCL\<close> and mode \<open>0o600\<close>, and what is written to the new file.\<close>

definition create_file :: "platform \<Rightarrow> file_faults \<Rightarrow> string \<Rightarrow> string \<Rightarrow> action" where
  "create_file E F p data t = (case ff_open F p of
      Some e \<Rightarrow> (Inl e, t)
    | None \<Rightarrow> if lexists t p then (Inl (Raised ''FileExistsError'' []), t)
        else (case parent_dir t p of
            Inl e \<Rightarrow> (Inl e, t)
          | Inr _ \<Rightarrow> (case ff_write F p of
              Some (n, e) \<Rightarrow> (Inl e, dict_set p (IFile (p_uid E) perm_file (take n data)) t)
            | None \<Rightarrow> (Inr (), dict_set p (IFile (p_uid E) perm_file data) t))))"

section \<open>A new home\<close>

definition check_owned :: "platform \<Rightarrow> string \<Rightarrow> item \<Rightarrow> unit result" where
  "check_owned E p i = (case i of
      IDir uid perm \<Rightarrow> owned_private_dir E p KDirectory uid perm
    | IFile uid perm _ \<Rightarrow> owned_private_dir E p KRegular uid perm
    | IOther _ \<Rightarrow> owned_private_dir E p KOther 0 0)"

definition has_children :: "tree \<Rightarrow> string \<Rightarrow> bool" where
  "has_children t p = list_ex (\<lambda>(q, _). q \<noteq> p \<and> path_parent q = p) t"

definition claim_task_root :: "platform \<Rightarrow> file_faults \<Rightarrow> string \<Rightarrow> action" where
  "claim_task_root E F p t = (case map_of t p of
      None \<Rightarrow> create_new_private_dir E F p t
    | Some i \<Rightarrow> (andThen (check_owned E p i) (\<lambda>_.
        ensure (\<not> has_children t p) (value_error ''task_root must be empty before this transaction claims it'') (Inr ())), t))"

definition owner_marker :: "platform \<Rightarrow> isolation_spec \<Rightarrow> string" where
  "owner_marker E s = path_child (ip_task_root s) (''.auth-isolation-owner-'' @ take 16 (p_sha256 E (ip_profile_id s)))"

definition config_file :: "isolation_spec \<Rightarrow> string" where
  "config_file s = path_child (ip_codex_home s) ''config.toml''"

definition toml_text :: "string \<Rightarrow> string \<Rightarrow> string" where
  "toml_text key v = key @ '' = '' @ [CHR 0x22] @ v @ [CHR 0x22]"

definition config_lines :: "isolation_spec \<Rightarrow> bool \<Rightarrow> string list" where
  "config_lines s no_auth_provider =
     [toml_text ''cli_auth_credentials_store'' ''file'', toml_text ''model'' ''gpt-5.6-luna'', toml_text ''model_reasoning_effort'' ''medium'', []]
   @ (if \<not> no_auth_provider then [] else
       [toml_text ''model_provider'' ''synthetic'', [], ''[model_providers.synthetic]'', toml_text ''name'' ''synthetic-offline'',
        toml_text ''base_url'' (''http://127.0.0.1:'' @ show_int (if truthy (ip_port s) then int_of (ip_port s) else 1)),
        toml_text ''wire_api'' ''responses'', ''requires_openai_auth = false'', []]
     @ (if ip_port s = JNull then []
        else [''supports_websockets = false'', ''request_max_retries = 0'', ''stream_max_retries = 0'', ''stream_idle_timeout_ms = 10000'']))"

definition config_text :: "isolation_spec \<Rightarrow> bool \<Rightarrow> string" where
  "config_text s no_auth_provider = join [CHR 0x0A] (config_lines s no_auth_provider)"

definition home_actions :: "platform \<Rightarrow> file_faults \<Rightarrow> isolation_spec \<Rightarrow> bool \<Rightarrow> action list" where
  "home_actions E F s no_auth_provider =
    (let backend_parent = path_parent (ip_backend_socket s) in
     [claim_task_root E F (ip_task_root s),
      create_file E F (owner_marker E s) [],
      create_new_private_dir E F (path_child (ip_task_root s) ''tmp''),
      create_new_private_dir E F (ip_home s),
      create_new_private_dir E F (ip_codex_home s),
      create_new_private_dir E F (ip_workspace s)]
   @ (if backend_parent = ip_task_root s then [] else
       [checked (\<lambda>_. ensure (path_parent backend_parent = ip_task_root s) (value_error ''backend socket directory must be a direct task child'') (Inr ())),
        create_new_private_dir E F backend_parent])
   @ [checked (\<lambda>t. ensure (\<not> item_exists t (config_file s))
        (Raised ''FileExistsError'' (''refusing to overwrite existing isolated config: '' @ config_file s)) (Inr ())),
      create_file E F (config_file s) (config_text s no_auth_provider)])"

definition prepare_isolated_home :: "platform \<Rightarrow> isolation_host \<Rightarrow> file_faults \<Rightarrow> isolation_spec \<Rightarrow> bool \<Rightarrow> action" where
  "prepare_isolated_home E H F s no_auth_provider t = (case validate_spec H s of
      Inl e \<Rightarrow> (Inl e, t)
    | Inr _ \<Rightarrow> run_actions (home_actions E F s no_auth_provider) t)"

section \<open>A synthetic key\<close>

definition fixture_payload :: "string \<Rightarrow> jdict" where
  "fixture_payload marker = [(''auth_mode'', JStr ''apikey''), (''OPENAI_API_KEY'', JStr marker), (''tokens'', JNull), (''last_refresh'', JNull),
     (''agent_identity'', JNull), (''personal_access_token'', JNull), (''bedrock_api_key'', JNull), (''bedrock_access_keys'', JNull)]"

definition auth_file :: "isolation_spec \<Rightarrow> string" where
  "auth_file s = path_child (ip_codex_home s) ''auth.json''"

definition write_synthetic_api_key_fixture :: "platform \<Rightarrow> isolation_host \<Rightarrow> file_faults \<Rightarrow> isolation_spec \<Rightarrow> string \<Rightarrow> tree \<Rightarrow> string result \<times> tree" where
  "write_synthetic_api_key_fixture E H F s marker t =
    (case andThen (validate_spec H s) (\<lambda>_.
        ensure (starts_with ''synthetic-'' marker \<and> list_all line_safe marker)
          (value_error ''API-key fixture must be a newline-free synthetic marker'') (Inr ())) of
       Inl e \<Rightarrow> (Inl e, t)
     | Inr _ \<Rightarrow> (case create_file E F (auth_file s) (dumps True False E (JObj (fixture_payload marker)) @ [CHR 0x0A]) t of
         (Inl e, t1) \<Rightarrow> (Inl e, t1)
       | (Inr _, t1) \<Rightarrow> (Inr (auth_file s), t1)))"

end
