(* ===== verification/HomeProps.thy ===== *)
theory HomeProps
  imports IsolationHome
begin

text \<open>
  Preparing an isolated home only adds: what was there is untouched, whatever fails, and what is new
  is private and one of the places of the profile.
\<close>

section \<open>Trees that only grow\<close>

definition grown :: "platform \<Rightarrow> string set \<Rightarrow> string set \<Rightarrow> tree \<Rightarrow> tree \<Rightarrow> bool" where
  "grown E dirs files t t' =
    ((\<forall>p i. map_of t p = Some i \<longrightarrow> map_of t' p = Some i)
   \<and> (\<forall>p i. map_of t p = None \<longrightarrow> map_of t' p = Some i \<longrightarrow>
        p \<in> dirs \<and> i = IDir (p_uid E) perm_dir \<or> p \<in> files \<and> (\<exists>data. i = IFile (p_uid E) perm_file data)))"

lemma grown_refl [simp]: "grown E D W t t"
  by (simp add: grown_def)

lemma grown_trans: "grown E D W t t1 \<Longrightarrow> grown E D W t1 t2 \<Longrightarrow> grown E D W t t2"
  unfolding grown_def by (metis not_None_eq)

lemma grown_keeps: "grown E D W t t' \<Longrightarrow> map_of t p = Some i \<Longrightarrow> map_of t' p = Some i"
  by (simp add: grown_def)

lemma grown_add_dir: "map_of t p = None \<Longrightarrow> p \<in> D \<Longrightarrow> grown E D W t (dict_set p (IDir (p_uid E) perm_dir) t)"
  by (auto simp: grown_def)

lemma grown_add_file: "map_of t p = None \<Longrightarrow> p \<in> W \<Longrightarrow> grown E D W t (dict_set p (IFile (p_uid E) perm_file data) t)"
  by (auto simp: grown_def)

lemma make_dir_grown: "make_dir E F p t = (r, t') \<Longrightarrow> p \<in> D \<Longrightarrow> grown E D W t t'"
  by (auto simp: make_dir_def lexists_def grown_add_dir split: option.splits if_splits sum.splits)

lemma create_dir_grown: "create_new_private_dir E F p t = (r, t') \<Longrightarrow> p \<in> D \<Longrightarrow> grown E D W t t'"
  by (auto simp: create_new_private_dir_def make_dir_grown split: if_splits)

lemma create_dir_ok:
  assumes "create_new_private_dir E F p t = (Inr u, t')"
  shows "map_of t p = None" "map_of t' p = Some (IDir (p_uid E) perm_dir)"
  using assms by (auto simp: create_new_private_dir_def make_dir_def lexists_def split: option.splits if_splits sum.splits)

lemma create_file_grown: "create_file E F p data t = (r, t') \<Longrightarrow> p \<in> W \<Longrightarrow> grown E D W t t'"
  by (auto simp: create_file_def lexists_def grown_add_file split: option.splits if_splits sum.splits)

lemma create_file_ok:
  assumes "create_file E F p data t = (Inr u, t')"
  shows "map_of t p = None" "map_of t' p = Some (IFile (p_uid E) perm_file data)"
  using assms by (auto simp: create_file_def lexists_def split: option.splits if_splits sum.splits)

lemma claim_grown: "claim_task_root E F p t = (r, t') \<Longrightarrow> p \<in> D \<Longrightarrow> grown E D W t t'"
  by (auto simp: claim_task_root_def create_dir_grown split: option.splits)

lemma checked_grown: "checked f t = (r, t') \<Longrightarrow> grown E D W t t'"
  by (simp add: checked_def)

lemmas action_grown = claim_grown create_dir_grown create_file_grown checked_grown

lemma run_actions_grown:
  assumes "run_actions as t = (r, t')" "\<And>a s q s'. a \<in> set as \<Longrightarrow> a s = (q, s') \<Longrightarrow> grown E D W s s'"
  shows "grown E D W t t'"
  using assms
proof (induction as arbitrary: t)
  case Nil
  then show ?case by simp
next
  case (Cons a as)
  obtain q s where a: "a t = (q, s)" by (cases "a t")
  then have s: "grown E D W t s" using Cons.prems(2) [of a t q s] by simp
  show ?case
  proof (cases q)
    case (Inl e)
    then show ?thesis using Cons.prems(1) a s by simp
  next
    case (Inr u)
    then have "run_actions as s = (r, t')" using Cons.prems(1) a by simp
    then have "grown E D W s t'" using Cons.IH [of s] Cons.prems(2) by auto
    with s show ?thesis by (rule grown_trans)
  qed
qed

text \<open>An action of a successful run succeeded, on a tree grown from the first, and the last tree is grown from its result.\<close>

lemma run_actions_step:
  assumes "run_actions (as @ a # bs) t = (Inr u, t')"
    and g: "\<And>a' s q s'. a' \<in> set (as @ a # bs) \<Longrightarrow> a' s = (q, s') \<Longrightarrow> grown E D W s s'"
  obtains s v s' where "grown E D W t s" "a s = (Inr v, s')" "grown E D W s' t'"
  using assms
proof (induction as arbitrary: t thesis)
  case Nil
  obtain q s where a: "a t = (q, s)" by (cases "a t")
  show ?case
  proof (cases q)
    case (Inl e)
    then show ?thesis using Nil.prems(2) a by simp
  next
    case (Inr v)
    then have r: "run_actions bs s = (Inr u, t')" using Nil.prems(2) a by simp
    show ?thesis
    proof (rule Nil.prems(1))
      show "a t = (Inr v, s)" using a Inr by simp
      show "grown E D W s t'" by (rule run_actions_grown [OF r]) (use Nil.prems(3) in auto)
    qed simp
  qed
next
  case (Cons b as)
  obtain q s where b: "b t = (q, s)" by (cases "b t")
  then have s: "grown E D W t s" using Cons.prems(3) [of b t q s] by simp
  show ?case
  proof (cases q)
    case (Inl e)
    then show ?thesis using Cons.prems(2) b by simp
  next
    case (Inr v)
    then have "run_actions (as @ a # bs) s = (Inr u, t')" using Cons.prems(2) b by simp
    then obtain s1 v1 s2 where n: "grown E D W s s1" "a s1 = (Inr v1, s2)" "grown E D W s2 t'"
      using Cons.IH Cons.prems(3) by (metis append_Cons list.set_intros(2))
    show ?thesis by (rule Cons.prems(1) [OF grown_trans [OF s n(1)] n(2,3)])
  qed
qed

section \<open>The home\<close>

definition home_dirs :: "isolation_spec \<Rightarrow> string set" where
  "home_dirs s = {ip_task_root s, path_child (ip_task_root s) ''tmp'', ip_home s, ip_codex_home s, ip_workspace s, path_parent (ip_backend_socket s)}"

lemma home_actions_grown:
  "a \<in> set (home_actions E F s b) \<Longrightarrow> a t = (q, t') \<Longrightarrow> grown E (home_dirs s) {owner_marker E s, config_file s} t t'"
  unfolding home_actions_def Let_def
  by (auto simp: home_dirs_def intro: action_grown split: if_splits)

lemma home_dir_created:
  assumes run: "run_actions (home_actions E F s b) t = (Inr u, t')"
    and d: "d \<in> home_dirs s - {ip_task_root s}"
  shows "map_of t d = None \<and> map_of t' d = Some (IDir (p_uid E) perm_dir)"
proof -
  have "create_new_private_dir E F d \<in> set (home_actions E F s b)"
    using d by (auto simp: home_dirs_def home_actions_def Let_def)
  then obtain as bs where split: "home_actions E F s b = as @ create_new_private_dir E F d # bs" by (meson split_list)
  obtain s1 v s2 where g: "grown E (home_dirs s) {owner_marker E s, config_file s} t s1"
      "create_new_private_dir E F d s1 = (Inr v, s2)" "grown E (home_dirs s) {owner_marker E s, config_file s} s2 t'"
    by (rule run_actions_step [OF run [unfolded split] home_actions_grown [of _ E F s b, unfolded split]])
  from create_dir_ok [OF g(2)] grown_keeps [OF g(1), of d] grown_keeps [OF g(3), of d] show ?thesis
    by (cases "map_of t d") auto
qed

lemma config_created:
  assumes run: "run_actions (home_actions E F s b) t = (Inr u, t')"
  shows "map_of t (config_file s) = None \<and> map_of t' (config_file s) = Some (IFile (p_uid E) perm_file (config_text s b))"
proof -
  have "create_file E F (config_file s) (config_text s b) \<in> set (home_actions E F s b)"
    by (simp add: home_actions_def Let_def)
  then obtain as bs where split: "home_actions E F s b = as @ create_file E F (config_file s) (config_text s b) # bs" by (meson split_list)
  obtain s1 v s2 where g: "grown E (home_dirs s) {owner_marker E s, config_file s} t s1"
      "create_file E F (config_file s) (config_text s b) s1 = (Inr v, s2)" "grown E (home_dirs s) {owner_marker E s, config_file s} s2 t'"
    by (rule run_actions_step [OF run [unfolded split] home_actions_grown [of _ E F s b, unfolded split]])
  from create_file_ok [OF g(2)] grown_keeps [OF g(1), of "config_file s"] grown_keeps [OF g(3), of "config_file s"] show ?thesis
    by (cases "map_of t (config_file s)") auto
qed

text \<open>
  C29. Preparing an isolated home only adds: however it ends, at whatever operation it fails, every path
  that existed is as it was, and every new path is a private directory at one of the places of the
  profile, its owner marker or its configuration. If it succeeds, the profile is valid, every
  directory but the task root was created now, and the configuration is new and complete.
\<close>

theorem prepared_home_is_new:
  assumes "prepare_isolated_home E H F s no_auth_provider t = (r, t')"
  shows "grown E (home_dirs s) {owner_marker E s, config_file s} t t'
    \<and> (r = Inr () \<longrightarrow> (\<exists>base. places_ok H s base)
        \<and> (\<forall>d \<in> home_dirs s - {ip_task_root s}. map_of t d = None \<and> map_of t' d = Some (IDir (p_uid E) perm_dir))
        \<and> map_of t (config_file s) = None
        \<and> map_of t' (config_file s) = Some (IFile (p_uid E) perm_file (config_text s no_auth_provider)))"
proof (cases "validate_spec H s")
  case (Inl e)
  then show ?thesis using assms by (auto simp: prepare_isolated_home_def)
next
  case (Inr u)
  then have run: "run_actions (home_actions E F s no_auth_provider) t = (r, t')"
    using assms by (simp add: prepare_isolated_home_def)
  then have "grown E (home_dirs s) {owner_marker E s, config_file s} t t'"
    by (rule run_actions_grown) (rule home_actions_grown)
  moreover have "\<exists>base. places_ok H s base" using validate_places Inr by simp
  ultimately show ?thesis using run home_dir_created config_created by auto
qed

definition no_faults :: file_faults where
  "no_faults = \<lparr>ff_mkdir = (\<lambda>_. None), ff_open = (\<lambda>_. None), ff_write = (\<lambda>_. None)\<rparr>"

lemma prepared_home_is_new_witness:
  "\<exists>t'. prepare_isolated_home isolation_platform sample_host no_faults sample_spec True [(''/private/tmp'', IDir 0 511)] = (Inr (), t')
     \<and> map_of t' (config_file sample_spec) = Some (IFile 501 384 (config_text sample_spec True))
     \<and> map_of t' ''/private/tmp'' = Some (IDir 0 511)"
proof -
  have "succeeds (fst (prepare_isolated_home isolation_platform sample_host no_faults sample_spec True [(''/private/tmp'', IDir 0 511)]))"
    by code_simp
  then obtain t' where p: "prepare_isolated_home isolation_platform sample_host no_faults sample_spec True [(''/private/tmp'', IDir 0 511)] = (Inr (), t')"
    by (cases "prepare_isolated_home isolation_platform sample_host no_faults sample_spec True [(''/private/tmp'', IDir 0 511)]") (auto simp: succeeds_iff)
  then show ?thesis using prepared_home_is_new [OF p] grown_keeps [of isolation_platform "home_dirs sample_spec" _ "[(''/private/tmp'', IDir 0 511)]" t']
    by (auto simp: perm_file_def isolation_platform_def)
qed

end
