(* ===== verification/Snapshot.thy ===== *)
theory Snapshot
  imports IsolationProps
begin

text \<open>
  The snapshots of credential files (\<open>snapshot_auth_paths\<close>, \<open>SnapshotReport.compare\<close> and
  \<open>write_private_manifest\<close> of \<open>runtime/native/auth_isolation.py\<close>).
\<close>

section \<open>A snapshot\<close>

text \<open>\<open>sn_link\<close> is \<open>readlink\<close> of a symbolic link, and \<open>lstat\<close> after it.\<close>

record snapshot_host = isolation_host +
  sn_link :: "string \<Rightarrow> (string \<times> linked) result"

text \<open>\<open>oct(n)\<close> without its prefix.\<close>

fun show_oct :: "nat \<Rightarrow> string" where
  "show_oct n = (if n < 8 then [char_of (48 + n)] else show_oct (n div 8) @ [char_of (48 + n mod 8)])"

declare show_oct.simps [simp del]

definition path_id :: "platform \<Rightarrow> isolation_host \<Rightarrow> string \<Rightarrow> string" where
  "path_id E H p = take 16 (p_sha256 E (ih_absolute H p))"

definition missing_record :: jdict where
  "missing_record = [(''exists'', JBool False), (''mode'', JNull), (''kind'', JStr ''missing''), (''sha256'', JNull),
     (''st_dev'', JNull), (''st_ino'', JNull), (''st_uid'', JNull)]"

definition kind_name :: "file_kind \<Rightarrow> string" where
  "kind_name k = (if k = KSymlink then ''symlink'' else if k = KRegular then ''file'' else ''other'')"

definition stat_record :: "linked \<Rightarrow> jdict" where
  "stat_record i = [(''exists'', JBool True), (''mode'', JStr (''0o'' @ show_oct (nd_perm i))), (''kind'', JStr (kind_name (nd_kind i))),
     (''size'', JInt (int (nd_size i))), (''st_dev'', JInt (nd_dev i)), (''st_ino'', JInt (nd_ino i)), (''st_uid'', JInt (nd_uid i))]"

definition file_digest :: "platform \<Rightarrow> isolation_host \<Rightarrow> string \<Rightarrow> linked \<Rightarrow> string result" where
  "file_digest E H p info =
     andThen (ih_read H p) (\<lambda>(opened, bytes, closed).
     ensure (snapshot_stat info = snapshot_stat opened) (value_error ''auth snapshot changed before read'')
    (andThen (hash_loop (value_error ''auth snapshot exceeds bounded read size'') max_auth_snapshot_bytes [] 0 bytes) (\<lambda>data.
     ensure (snapshot_stat opened = snapshot_stat closed) (value_error ''auth snapshot changed while reading'')
    (Inr (p_sha256 E data)))))"

definition link_digest :: "platform \<Rightarrow> snapshot_host \<Rightarrow> string \<Rightarrow> linked \<Rightarrow> string result" where
  "link_digest E H p info =
     andThen (sn_link H p) (\<lambda>(target, after).
     ensure (snapshot_stat info = snapshot_stat after) (value_error ''auth symlink changed while reading'') (Inr (p_sha256 E target)))"

definition snapshot_path :: "platform \<Rightarrow> snapshot_host \<Rightarrow> string \<Rightarrow> jdict result" where
  "snapshot_path E H raw_path =
    (let p = mk_path raw_path; ident = (''path_id'', JStr (path_id E (isolation_host.truncate H) p)) in
     case ih_lstat H p of
       Inl e \<Rightarrow> if exn_class e = ''FileNotFoundError'' then Inr (ident # missing_record) else Inl e
     | Inr info \<Rightarrow>
         if nd_kind info = KRegular then
           andThen (file_digest E (isolation_host.truncate H) p info) (\<lambda>h. Inr (ident # stat_record info @ [(''sha256'', JStr h)]))
         else if nd_kind info = KSymlink then
           andThen (link_digest E H p info) (\<lambda>h. Inr (ident # stat_record info @ [(''target_sha256'', JStr h)]))
         else Inr (ident # stat_record info))"

definition snapshot_auth_paths :: "platform \<Rightarrow> snapshot_host \<Rightarrow> string list \<Rightarrow> jdict list result" where
  "snapshot_auth_paths E H paths = map_result (snapshot_path E H) paths"

section \<open>Comparing two snapshots\<close>

text \<open>\<open>{item["path_id"]: item for item in ...}\<close>.\<close>

definition report_index :: "jdict list \<Rightarrow> (string \<times> jdict) list" where
  "report_index rs = fold (\<lambda>r. dict_set (str_of (dget r ''path_id'')) r) rs []"

definition same_record :: "jdict option \<Rightarrow> jdict option \<Rightarrow> bool" where
  "same_record a b = (case (a, b) of (None, None) \<Rightarrow> True | (Some x, Some y) \<Rightarrow> py_eq (JObj x) (JObj y) | _ \<Rightarrow> False)"

definition compare_snapshots :: "jdict list \<Rightarrow> jdict list \<Rightarrow> bool \<times> string list" where
  "compare_snapshots earlier later =
    (let b = report_index earlier; a = report_index later;
         changed = filter (\<lambda>k. \<not> same_record (map_of b k) (map_of a k)) (sort (remdups (map fst b @ map fst a)))
     in (changed = [], changed))"

section \<open>What a snapshot shows\<close>

fun oct_value :: "nat \<Rightarrow> string \<Rightarrow> nat" where
  "oct_value n [] = n"
| "oct_value n (c # cs) = oct_value (8 * n + (of_char c - 48)) cs"

lemma oct_value_append: "oct_value n (xs @ ys) = oct_value (oct_value n xs) ys"
  by (induction xs arbitrary: n) simp_all

lemma oct_value_show: "oct_value 0 (show_oct n) = n"
proof (induction n rule: show_oct.induct)
  case (1 n)
  have d: "of_char (char_of (48 + m) :: char) = 48 + m" if "m < 8" for m :: nat
    using that by (simp add: of_char_of)
  show ?case
  proof (cases "n < 8")
    case True
    then show ?thesis by (simp add: show_oct.simps [of n] d)
  next
    case False
    then show ?thesis using 1 by (simp add: show_oct.simps [of n] oct_value_append d)
  qed
qed

lemma show_oct_inject: "show_oct m = show_oct n \<longleftrightarrow> m = n"
  by (metis oct_value_show)

text \<open>The facts about a path that a snapshot holds: what it is, its permissions, size, identity, owner and the digest of its content.\<close>

datatype auth_facts = Missing | Present nat string nat "int \<times> int \<times> int" "string option" "string option"

definition facts_of :: "platform \<Rightarrow> snapshot_host \<Rightarrow> string \<Rightarrow> auth_facts result" where
  "facts_of E H p = (case ih_lstat H p of
      Inl e \<Rightarrow> if exn_class e = ''FileNotFoundError'' then Inr Missing else Inl e
    | Inr i \<Rightarrow> andThen (if nd_kind i = KRegular then andThen (file_digest E (isolation_host.truncate H) p i) (\<lambda>h. Inr (Some h, None))
        else if nd_kind i = KSymlink then andThen (link_digest E H p i) (\<lambda>h. Inr (None, Some h)) else Inr (None, None))
        (\<lambda>(content, target). Inr (Present (nd_perm i) (kind_name (nd_kind i)) (nd_size i) (nd_dev i, nd_ino i, nd_uid i) content target)))"

definition facts_record :: "string \<Rightarrow> auth_facts \<Rightarrow> jdict" where
  "facts_record ident f = (''path_id'', JStr ident) # (case f of Missing \<Rightarrow> missing_record
    | Present perm kind sz (dev, ino, uid) content target \<Rightarrow>
        [(''exists'', JBool True), (''mode'', JStr (''0o'' @ show_oct perm)), (''kind'', JStr kind), (''size'', JInt (int sz)),
         (''st_dev'', JInt dev), (''st_ino'', JInt ino), (''st_uid'', JInt uid)]
        @ (case content of None \<Rightarrow> [] | Some h \<Rightarrow> [(''sha256'', JStr h)]) @ (case target of None \<Rightarrow> [] | Some h \<Rightarrow> [(''target_sha256'', JStr h)]))"

end
