(* ===== verification/SnapshotProps.thy ===== *)
theory SnapshotProps
  imports Snapshot
begin

text \<open>
  Two snapshots compare as unchanged exactly when nothing that they look at has changed.
\<close>

section \<open>Records and facts\<close>

lemma snapshot_path_facts:
  "snapshot_path E H p = andThen (facts_of E H (mk_path p)) (\<lambda>f. Inr (facts_record (path_id E (isolation_host.truncate H) (mk_path p)) f))"
  by (auto simp: snapshot_path_def facts_of_def facts_record_def stat_record_def Let_def andThen_def split: sum.splits)

definition facts_shape :: "auth_facts \<Rightarrow> bool" where
  "facts_shape f = (case f of Missing \<Rightarrow> True | Present _ _ _ _ content target \<Rightarrow> content = None \<or> target = None)"

lemma facts_of_shape: "facts_of E H p = Inr f \<Longrightarrow> facts_shape f"
  by (auto simp: facts_of_def facts_shape_def split: sum.splits if_splits)

lemma facts_record_wf: "wf_json (JObj (facts_record i f)) \<and> no_const (JObj (facts_record i f))"
  by (cases f) (auto simp: facts_record_def missing_record_def split: option.splits)

lemma facts_record_id [simp]: "dget (facts_record i f) ''path_id'' = JStr i"
  by (simp add: facts_record_def)

text \<open>What the entries of two equal records tell.\<close>

lemma facts_record_entries:
  "dget (facts_record i (Present m k z (d, n, u) c t)) ''exists'' = JBool True"
  "dget (facts_record i Missing) ''exists'' = JBool False"
  "dget (facts_record i (Present m k z (d, n, u) c t)) ''mode'' = JStr (''0o'' @ show_oct m)"
  "dget (facts_record i (Present m k z (d, n, u) c t)) ''kind'' = JStr k"
  "dget (facts_record i (Present m k z (d, n, u) c t)) ''size'' = JInt (int z)"
  "dget (facts_record i (Present m k z (d, n, u) c t)) ''st_dev'' = JInt d"
  "dget (facts_record i (Present m k z (d, n, u) c t)) ''st_ino'' = JInt n"
  "dget (facts_record i (Present m k z (d, n, u) c t)) ''st_uid'' = JInt u"
  "dget (facts_record i (Present m k z (d, n, u) c t)) ''sha256'' = (case c of None \<Rightarrow> JNull | Some h \<Rightarrow> JStr h)"
  "dget (facts_record i (Present m k z (d, n, u) c t)) ''target_sha256'' = (case t of None \<Rightarrow> JNull | Some h \<Rightarrow> JStr h)"
  by (auto simp: facts_record_def missing_record_def split: option.splits)

lemma obj_eq_entry:
  assumes "py_eq (JObj d) (JObj e)"
  shows "dget d k = JNull \<and> dget e k = JNull \<or> py_eq (dget d k) (dget e k)"
proof (cases "map_of d k")
  case None
  then have "k \<notin> set (map fst e)" using assms by (auto simp: keys_exact_def map_of_eq_None_iff)
  then show ?thesis using None by (auto simp: dget_def map_of_eq_None_iff [THEN iffD2])
next
  case (Some x)
  then show ?thesis using assms map_of_SomeD [OF Some] by (auto simp: list_all_iff dget_def split: option.splits)
qed

lemma facts_record_eq:
  assumes "py_eq (JObj (facts_record i f)) (JObj (facts_record i g))"
  shows "f = g"
proof -
  note e = obj_eq_entry [OF assms]
  show ?thesis
  proof (cases f)
    case Missing
    then show ?thesis using e [of "''exists''"] by (cases g) (auto simp: facts_record_entries)
  next
    case f: (Present m k z w c t)
    show ?thesis
    proof (cases g)
      case Missing
      then show ?thesis using e [of "''exists''"] f by (cases w) (auto simp: facts_record_entries)
    next
      case g: (Present m' k' z' w' c' t')
      obtain d n u d' n' u' where w: "w = (d, n, u)" "w' = (d', n', u')" by (cases w; cases w') auto
      note e' = e [unfolded f g w]
      have "m = m'" using e' [of "''mode''"] by (simp add: facts_record_entries show_oct_inject)
      moreover have "k = k'" using e' [of "''kind''"] by (simp add: facts_record_entries)
      moreover have "z = z'" using e' [of "''size''"] by (simp add: facts_record_entries)
      moreover have "d = d'" using e' [of "''st_dev''"] by (simp add: facts_record_entries)
      moreover have "n = n'" using e' [of "''st_ino''"] by (simp add: facts_record_entries)
      moreover have "u = u'" using e' [of "''st_uid''"] by (simp add: facts_record_entries)
      moreover have "c = c'" using e' [of "''sha256''"] by (cases c; cases c') (simp_all add: facts_record_entries)
      moreover have "t = t'" using e' [of "''target_sha256''"] by (cases t; cases t') (simp_all add: facts_record_entries)
      ultimately show ?thesis using f g w by simp
    qed
  qed
qed

lemma same_facts: "same_record (Some (facts_record i f)) (Some (facts_record i g)) \<longleftrightarrow> f = g"
  using facts_record_eq [of i f g] py_eq_refl [of "JObj (facts_record i f)"] facts_record_wf [of i f]
  by (auto simp: same_record_def simp del: py_eq.simps wf_json.simps no_const.simps)

section \<open>The index of a report\<close>

lemma fold_index:
  "map_of (fold (\<lambda>r. dict_set (str_of (dget r ''path_id'')) r) rs acc) k =
     (case find (\<lambda>r. str_of (dget r ''path_id'') = k) (rev rs) of None \<Rightarrow> map_of acc k | Some r \<Rightarrow> Some r)"
proof (induction rs arbitrary: acc)
  case Nil
  show ?case by simp
next
  case (Cons r rs)
  have "find P (xs @ [y]) = (case find P xs of None \<Rightarrow> if P y then Some y else None | Some x \<Rightarrow> Some x)" for P xs and y :: jdict
    by (induction xs) auto
  then show ?case using Cons.IH by (auto split: option.splits)
qed

lemma index_lookup:
  assumes "inj_on ident (set ps)" "p \<in> set ps"
  shows "map_of (report_index (map (\<lambda>q. facts_record (ident q) (f q)) ps)) (ident p) = Some (facts_record (ident p) (f p))"
proof -
  have "find (\<lambda>r. str_of (dget r ''path_id'') = ident p) (rev (map (\<lambda>q. facts_record (ident q) (f q)) qs)) = Some (facts_record (ident p) (f p))"
    if "p \<in> set qs" "set qs \<subseteq> set ps" for qs
    using that
  proof (induction qs rule: rev_induct)
    case Nil
    then show ?case by simp
  next
    case (snoc q qs)
    then have "ident q = ident p \<longleftrightarrow> q = p" using assms by (auto dest: inj_onD)
    then show ?case using snoc by auto
  qed
  with assms(2) show ?thesis by (simp add: report_index_def fold_index)
qed

lemma index_absent:
  "k \<notin> ident ` set ps \<Longrightarrow> map_of (report_index (map (\<lambda>q. facts_record (ident q) (f q)) ps)) k = None"
  by (auto simp: report_index_def fold_index find_None_iff split: option.splits dest!: find_Some_iff [THEN iffD1])

lemma index_keys:
  assumes "inj_on ident (set ps)"
  shows "set (map fst (report_index (map (\<lambda>q. facts_record (ident q) (f q)) ps))) = ident ` set ps"
proof (rule set_eqI)
  fix k
  have "k \<in> set (map fst d) \<longleftrightarrow> map_of d k \<noteq> None" for d :: "(string \<times> jdict) list"
    by (simp add: map_of_eq_None_iff)
  then show "k \<in> set (map fst (report_index (map (\<lambda>q. facts_record (ident q) (f q)) ps))) \<longleftrightarrow> k \<in> ident ` set ps"
    using index_lookup [OF assms, of _ f] index_absent [of k ident ps f] by (cases "k \<in> ident ` set ps") auto
qed

lemma compare_unchanged:
  assumes "inj_on ident (set ps)"
  shows "fst (compare_snapshots (map (\<lambda>q. facts_record (ident q) (f q)) ps) (map (\<lambda>q. facts_record (ident q) (g q)) ps))
     \<longleftrightarrow> (\<forall>p \<in> set ps. f p = g p)"
proof -
  define b where "b = report_index (map (\<lambda>q. facts_record (ident q) (f q)) ps)"
  define a where "a = report_index (map (\<lambda>q. facts_record (ident q) (g q)) ps)"
  have look: "map_of b (ident p) = Some (facts_record (ident p) (f p))" "map_of a (ident p) = Some (facts_record (ident p) (g p))" if "p \<in> set ps" for p
    using index_lookup [OF assms that] by (simp_all add: a_def b_def)
  have keys: "set (map fst b) = ident ` set ps" "set (map fst a) = ident ` set ps"
    unfolding a_def b_def by (rule index_keys [OF assms])+
  have "fst (compare_snapshots (map (\<lambda>q. facts_record (ident q) (f q)) ps) (map (\<lambda>q. facts_record (ident q) (g q)) ps))
      \<longleftrightarrow> (\<forall>k \<in> ident ` set ps. same_record (map_of b k) (map_of a k))"
    using keys by (auto simp: compare_snapshots_def Let_def a_def [symmetric] b_def [symmetric] filter_empty_conv)
  also have "\<dots> \<longleftrightarrow> (\<forall>p \<in> set ps. f p = g p)" using look by (simp add: same_facts)
  finally show ?thesis .
qed

section \<open>Unchanged snapshots\<close>

lemma snapshot_records:
  assumes "snapshot_auth_paths E H paths = Inr rs"
  shows "rs = map (\<lambda>q. facts_record (path_id E (isolation_host.truncate H) (mk_path q)) (projr (facts_of E H (mk_path q)))) paths"
    "\<forall>p \<in> set paths. \<exists>f. facts_of E H (mk_path p) = Inr f"
  using assms unfolding snapshot_auth_paths_def
  by (induction paths arbitrary: rs) (auto simp: snapshot_path_facts)

text \<open>
  C30. A snapshot of the credential files misses no change that it looks at: two snapshots of the same
  paths compare as unchanged exactly when every path has the same facts in both, that is the same
  kind, permissions, size, device, inode, owner and digest of its content or of its target. The
  paths are told apart by their hashes, which are taken to differ.
\<close>

theorem unchanged_snapshots_agree:
  assumes "snapshot_auth_paths E H paths = Inr earlier" "snapshot_auth_paths E H' paths = Inr later"
    and "ih_absolute H' = ih_absolute H"
    and "inj_on (\<lambda>p. path_id E (isolation_host.truncate H) (mk_path p)) (set paths)"
  shows "fst (compare_snapshots earlier later) \<longleftrightarrow> (\<forall>p \<in> set paths. facts_of E H (mk_path p) = facts_of E H' (mk_path p))"
proof -
  have ids: "path_id E (isolation_host.truncate H') p = path_id E (isolation_host.truncate H) p" for p
    using assms(3) by (simp add: path_id_def isolation_host.defs)
  have "fst (compare_snapshots earlier later) \<longleftrightarrow>
      (\<forall>p \<in> set paths. projr (facts_of E H (mk_path p)) = projr (facts_of E H' (mk_path p)))"
    unfolding snapshot_records(1) [OF assms(1)] snapshot_records(1) [OF assms(2)] ids by (rule compare_unchanged [OF assms(4)])
  also have "\<dots> \<longleftrightarrow> (\<forall>p \<in> set paths. facts_of E H (mk_path p) = facts_of E H' (mk_path p))"
    using snapshot_records(2) [OF assms(1)] snapshot_records(2) [OF assms(2)] by (metis sum.sel(2))
  finally show ?thesis .
qed

text \<open>One file; in the second look its permissions have changed.\<close>

definition snapshot_sample :: "nat \<Rightarrow> snapshot_host" where
  "snapshot_sample perm = (let st = \<lparr>nd_dev = 1, nd_ino = 2, nd_uid = 501, nd_kind = KRegular, nd_perm = perm, nd_size = 3,
       nd_mtime = 0, nd_ctime = 0, nd_nlink = 1\<rparr> in
     \<lparr>ih_resolve = Inr, ih_symlink = (\<lambda>_. False), ih_lexists = (\<lambda>_. True), ih_absolute = (\<lambda>p. p), ih_lstat = (\<lambda>_. Inr st),
      ih_read = (\<lambda>_. Inr (st, ''key'', st)), sn_link = (\<lambda>_. os_error)\<rparr>)"

lemma snapshot_sample_taken: "succeeds (snapshot_auth_paths isolation_platform (snapshot_sample perm) [''/Users/me/.codex/auth.json''])"
  by (simp add: snapshot_auth_paths_def snapshot_path_def snapshot_sample_def file_digest_def hash_loop_ok Let_def
      max_auth_snapshot_bytes_def isolation_host.defs)

lemma unchanged_snapshots_agree_witness:
  "\<exists>earlier later. snapshot_auth_paths isolation_platform (snapshot_sample 384) [''/Users/me/.codex/auth.json''] = Inr earlier
     \<and> snapshot_auth_paths isolation_platform (snapshot_sample 420) [''/Users/me/.codex/auth.json''] = Inr later
     \<and> \<not> fst (compare_snapshots earlier later)"
proof -
  obtain a b where r: "snapshot_auth_paths isolation_platform (snapshot_sample 384) [''/Users/me/.codex/auth.json''] = Inr a"
      "snapshot_auth_paths isolation_platform (snapshot_sample 420) [''/Users/me/.codex/auth.json''] = Inr b"
    using snapshot_sample_taken unfolding succeeds_iff by blast
  have "ih_absolute (snapshot_sample 420) = ih_absolute (snapshot_sample 384)" by (simp add: snapshot_sample_def Let_def)
  moreover have "facts_of isolation_platform (snapshot_sample 384) p \<noteq> facts_of isolation_platform (snapshot_sample 420) p" for p
    by (simp add: facts_of_def snapshot_sample_def file_digest_def hash_loop_ok Let_def max_auth_snapshot_bytes_def isolation_host.defs)
  ultimately show ?thesis using unchanged_snapshots_agree [OF r] r by simp
qed

end
