(* ===== verification/BridgeEntry.thy ===== *)
theory BridgeEntry
  imports ReceiptStore
begin

text \<open>
  The entrypoint of the product bridge (\<open>plugins/codex-orchestrator/scripts/native-product-bridge.py\<close>): the
  stable reads, the check of the pinned package and runtime before anything of them is imported, and
  the identity of processes and of the public socket. The operating system is an argument.
\<close>

section \<open>The operating system\<close>

text \<open>
  \<open>eh_open\<close> opens with \<open>O_NOFOLLOW\<close> and gives \<open>fstat\<close> before, the bytes of the file and \<open>fstat\<close> after; \<open>eh_kernel\<close> is
  the path that \<open>proc_pidpath\<close> gives for this process and \<open>eh_self\<close> is \<open>Path(__file__).resolve()\<close>.
\<close>

record entry_host =
  eh_resolve :: "string \<Rightarrow> string result"
  eh_lstat :: "string \<Rightarrow> linked result"
  eh_open :: "string \<Rightarrow> (linked \<times> string \<times> linked) result"
  eh_kernel :: "string result"
  eh_self :: "string"
  eh_process :: "int \<Rightarrow> string option \<times> string option"
  eh_pid :: int
  eh_ppid :: int

definition entry_error :: "string \<Rightarrow> exn" where
  "entry_error code = Raised ''EntryError'' code"

text \<open>The exceptions of the operating system.\<close>

definition os_classes :: "string list" where
  "os_classes = [''OSError'', ''FileNotFoundError'', ''PermissionError'', ''NotADirectoryError'', ''IsADirectoryError'', ''FileExistsError'',
     ''ProcessLookupError'', ''BlockingIOError'', ''InterruptedError'', ''TimeoutError'']"

section \<open>Stable reads\<close>

definition entry_file_ok :: "platform \<Rightarrow> nat \<Rightarrow> linked \<Rightarrow> bool" where
  "entry_file_ok E limit st = (nd_kind st = KRegular \<and> (nd_uid st = 0 \<or> nd_uid st = p_uid E) \<and> nd_nlink st = 1
     \<and> 0 < nd_size st \<and> nd_size st \<le> limit)"

definition open_stable :: "entry_host \<Rightarrow> string \<Rightarrow> (linked \<times> string \<times> linked) result" where
  "open_stable H p = ensure (is_absolute p) (entry_error ''path_not_absolute'')
     (with_error (\<lambda>e. if exn_class e \<in> set os_classes then entry_error ''file_unavailable'' else e) (eh_open H p))"

definition stable_bytes :: "platform \<Rightarrow> entry_host \<Rightarrow> nat \<Rightarrow> string \<Rightarrow> string result" where
  "stable_bytes E H limit p =
     andThen (open_stable H (mk_path p)) (\<lambda>(st, bytes, st').
     ensure (entry_file_ok E limit st) (entry_error ''file_identity'')
    (let data = take (nd_size st + 1) bytes in
     ensure (length data = nd_size st \<and> st = st') (entry_error ''file_changed'') (Inr data)))"

text \<open>
  \<open>EntryError\<close> is a \<open>ValueError\<close>, so that what \<open>stable_bytes\<close> raises inside the \<open>try\<close> is turned into \<open>invalid_json\<close>
  as well.
\<close>

definition entry_json :: "platform \<Rightarrow> entry_host \<Rightarrow> bool \<Rightarrow> string \<Rightarrow> jdict result" where
  "entry_json E H private p =
     andThen (if private then andThen (eh_lstat H p) (\<lambda>st.
         ensure (nd_kind st = KRegular \<and> nd_perm st = perm_file \<and> nd_uid st = p_uid E \<and> nd_nlink st = 1)
           (entry_error ''private_file'') (Inr ())) else Inr ()) (\<lambda>_.
     andThen (with_error (\<lambda>e. if exn_class e \<in> set os_classes then e else entry_error ''invalid_json'')
       (andThen (stable_bytes E H 16777216 p) (loads E (Raised ''JSONDecodeError'' [])))) (\<lambda>v.
     ensure (is_obj v) (entry_error ''invalid_json'') (Inr (obj_of v))))"

text \<open>The loop that hashes exactly \<open>rest\<close> more bytes: what is hashed, and what the file has beyond it.\<close>

function digest_loop :: "nat \<Rightarrow> string \<Rightarrow> string \<Rightarrow> (string \<times> string) result" where
  "digest_loop rest acc bytes =
    (if rest = 0 then Inr (acc, bytes)
     else let block = take (min 1048576 rest) bytes in
       if block = [] then Inl (entry_error ''file_changed'')
       else digest_loop (rest - length block) (acc @ block) (drop (length block) bytes))"
  by pat_completeness auto
termination
  by (relation "measure (\<lambda>(rest, acc, bytes). rest)") (auto simp: min_def)

declare digest_loop.simps [simp del]

definition entry_digest :: "platform \<Rightarrow> entry_host \<Rightarrow> string \<Rightarrow> string result" where
  "entry_digest E H p =
     andThen (open_stable H (mk_path p)) (\<lambda>(st, bytes, st').
     ensure (entry_file_ok E 536870912 st) (entry_error ''file_identity'')
    (andThen (digest_loop (nd_size st) [] bytes) (\<lambda>(data, beyond).
     ensure (beyond = []) (entry_error ''file_changed'')
    (ensure (st = st') (entry_error ''file_changed'') (Inr (p_sha256 E data))))))"

section \<open>The pinned runtime\<close>

text \<open>\<open>Path(v)\<close> raises on what is no text; \<open>p / q\<close>.\<close>

definition path_of :: "json \<Rightarrow> string result" where
  "path_of v = (case v of JStr p \<Rightarrow> Inr (mk_path p) | _ \<Rightarrow> type_error)"

definition path_join :: "string \<Rightarrow> string \<Rightarrow> string" where
  "path_join p q = (if is_absolute q then mk_path q else path_text (path_anchor p) (path_parts p @ path_parts q))"

definition kernel_executable :: "entry_host \<Rightarrow> string result" where
  "kernel_executable H = andThen (eh_kernel H) (\<lambda>p.
     ensure (is_absolute (mk_path p)) (entry_error ''interpreter_changed'')
    (andThen (eh_resolve H (mk_path p)) (\<lambda>r. ensure (r = mk_path p) (entry_error ''interpreter_changed'') (Inr r))))"

definition runtime_request_keys :: "string list" where
  "runtime_request_keys = [''version'', ''package_root'', ''package_manifest'', ''package_manifest_sha256'', ''interpreter'', ''interpreter_sha256'',
     ''g0_runtime_root'', ''g0_runtime_manifest'', ''g0_runtime_manifest_sha256'', ''g0_modules'']"

definition canonical_root :: "entry_host \<Rightarrow> string \<Rightarrow> string \<Rightarrow> bool \<Rightarrow> unit result" where
  "canonical_root H p code extra =
     ensure (is_absolute p) (entry_error code)
    (andThen (eh_resolve H p) (\<lambda>r. ensure (r = p \<and> extra) (entry_error code) (Inr ())))"

definition private_root :: "platform \<Rightarrow> entry_host \<Rightarrow> string \<Rightarrow> string \<Rightarrow> unit result" where
  "private_root E H p code = andThen (eh_lstat H p) (\<lambda>st.
     ensure (nd_kind st = KDirectory \<and> nd_uid st = p_uid E \<and> nd_perm st = perm_dir) (entry_error code) (Inr ()))"

definition digest_is :: "platform \<Rightarrow> entry_host \<Rightarrow> string \<Rightarrow> json \<Rightarrow> string \<Rightarrow> unit result" where
  "digest_is E H p expected code = andThen (entry_digest E H p) (\<lambda>h. ensure (JStr h = expected) (entry_error code) (Inr ()))"

definition check_interpreter :: "platform \<Rightarrow> entry_host \<Rightarrow> jdict \<Rightarrow> unit result" where
  "check_interpreter E H request =
     andThen (path_of (dget request ''interpreter'')) (\<lambda>p.
     andThen (canonical_root H p ''interpreter_changed'' True) (\<lambda>_.
     andThen (kernel_executable H) (\<lambda>k.
     ensure (k = p) (entry_error ''interpreter_changed'')
    (digest_is E H p (dget request ''interpreter_sha256'') ''interpreter_changed''))))"

text \<open>The rows of a manifest by their path; a path that cannot be a key raises.\<close>

definition rows_by_path :: "json list \<Rightarrow> (string \<times> jdict) list result" where
  "rows_by_path files = fold_result (\<lambda>row acc.
     if \<not> is_obj row then Inr acc
     else (case dget (obj_of row) ''path'' of
         JStr name \<Rightarrow> Inr (dict_set name (obj_of row) acc)
       | JArr _ \<Rightarrow> type_error
       | JObj _ \<Rightarrow> type_error
       | _ \<Rightarrow> Inr acc)) files []"

definition package_sources :: "entry_host \<Rightarrow> string \<Rightarrow> (string \<times> string) list" where
  "package_sources H root_path =
    [(''scripts/native-product-bridge.py'', eh_self H),
     (''lib/native_bridge/bridge.py'', path_join root_path ''lib/native_bridge/bridge.py'')]"

definition check_source :: "platform \<Rightarrow> entry_host \<Rightarrow> string \<Rightarrow> (string \<times> jdict) list \<Rightarrow> string \<times> string \<Rightarrow> unit result" where
  "check_source E H root_path rows f = (case f of (name, path) \<Rightarrow>
    (case map_of rows name of
       None \<Rightarrow> Inl (entry_error ''package_source'')
     | Some row \<Rightarrow>
         andThen (eh_resolve H (path_join root_path name)) (\<lambda>r.
         ensure (path = r) (entry_error ''package_source'')
        (andThen (eh_lstat H path) (\<lambda>st.
         ensure (nd_kind st = KRegular \<and> py_eq (JInt (int (nd_perm st))) (dget row ''mode'')) (entry_error ''package_source_changed'')
        (digest_is E H path (dget row ''sha256'') ''package_source_changed''))))))"

definition check_package :: "platform \<Rightarrow> entry_host \<Rightarrow> jdict \<Rightarrow> unit result" where
  "check_package E H request =
     andThen (path_of (dget request ''package_root'')) (\<lambda>root_path.
     andThen (path_of (dget request ''package_manifest'')) (\<lambda>manifest_path.
     andThen (canonical_root H root_path ''package_binding'' (manifest_path = path_join root_path ''manifest.json'')) (\<lambda>_.
     andThen (private_root E H root_path ''package_binding'') (\<lambda>_.
     andThen (digest_is E H manifest_path (dget request ''package_manifest_sha256'') ''package_manifest_changed'') (\<lambda>_.
     andThen (entry_json E H False manifest_path) (\<lambda>manifest.
     ensure (py_eq (dget manifest ''schema_version'') (JInt 1) \<and> is_arr (dget manifest ''files'')) (entry_error ''package_manifest'')
    (andThen (rows_by_path (arr_of (dget manifest ''files''))) (\<lambda>rows.
     for_each (check_source E H root_path rows) (package_sources H root_path)))))))))"

definition required_modules :: "string list" where
  "required_modules = [''delivery_adapter'', ''delivery_audit'', ''owner_helper'', ''proxy_transport'', ''receipt_store'']"

definition pin_row :: "json \<Rightarrow> (string \<times> jdict) list \<Rightarrow> (string \<times> jdict) list result" where
  "pin_row row pins =
    (let r = obj_of row; ident = dget r ''logical_id''; p = dget r ''path'' in
     ensure (is_obj row \<and> keys_exact r [''logical_id'', ''path'', ''sha256'', ''mode''] \<and> is_str ident \<and> is_str p
         \<and> path_name (str_of p) = str_of p \<and> str_of ident \<notin> set (map fst pins)) (entry_error ''g0_runtime_manifest'')
    (Inr (pins @ [(str_of ident, r)])))"

definition check_module :: "platform \<Rightarrow> entry_host \<Rightarrow> string \<Rightarrow> jdict \<Rightarrow> (string \<times> jdict) list \<Rightarrow> string \<Rightarrow> (string \<times> string) result" where
  "check_module E H root_path modules pins name =
     andThen (path_of (dget modules name)) (\<lambda>path.
     case map_of pins name of
       None \<Rightarrow> Inl (entry_error ''g0_module_path'')
     | Some row \<Rightarrow>
         ensure (path = path_join root_path (str_of (dget row ''path'')) \<and> path_name path = name @ ''.py'') (entry_error ''g0_module_path'')
        (andThen (eh_lstat H path) (\<lambda>st.
         ensure (nd_kind st = KRegular \<and> nd_uid st = p_uid E \<and> py_eq (JInt (int (nd_perm st))) (dget row ''mode'')) (entry_error ''g0_module_changed'')
        (andThen (digest_is E H path (dget row ''sha256'') ''g0_module_changed'') (\<lambda>_. Inr (name, path))))))"

text \<open>The shape of the runtime manifest against the request.\<close>

definition runtime_shape :: "jdict \<Rightarrow> jdict \<Rightarrow> bool" where
  "runtime_shape request manifest =
    (let pin = dget manifest ''interpreter''; modules = dget request ''g0_modules'' in
     py_eq (dget manifest ''version'') (JInt 1) \<and> is_obj pin \<and> keys_exact (obj_of pin) [''path'', ''sha256'']
     \<and> py_eq (dget (obj_of pin) ''path'') (dget request ''interpreter'') \<and> py_eq (dget (obj_of pin) ''sha256'') (dget request ''interpreter_sha256'')
     \<and> is_arr (dget manifest ''files'') \<and> is_obj modules \<and> keys_exact (obj_of modules) required_modules)"

definition check_runtime :: "platform \<Rightarrow> entry_host \<Rightarrow> jdict \<Rightarrow> (string \<times> string) list result" where
  "check_runtime E H request =
     andThen (path_of (dget request ''g0_runtime_root'')) (\<lambda>root_path.
     andThen (path_of (dget request ''g0_runtime_manifest'')) (\<lambda>manifest_path.
     andThen (canonical_root H root_path ''g0_runtime_root'' (manifest_path = path_join root_path ''runtime-manifest.json'')) (\<lambda>_.
     andThen (private_root E H root_path ''g0_runtime_root'') (\<lambda>_.
     andThen (digest_is E H manifest_path (dget request ''g0_runtime_manifest_sha256'') ''g0_manifest_changed'') (\<lambda>_.
     andThen (entry_json E H False manifest_path) (\<lambda>manifest.
     ensure (runtime_shape request manifest) (entry_error ''g0_runtime_shape'')
    (andThen (fold_result pin_row (arr_of (dget manifest ''files'')) []) (\<lambda>pins.
     map_result (check_module E H root_path (obj_of (dget request ''g0_modules'')) pins) required_modules))))))))"

text \<open>\<open>validate_runtime\<close>.\<close>

definition validate_runtime :: "platform \<Rightarrow> entry_host \<Rightarrow> json \<Rightarrow> (string \<times> string) list result" where
  "validate_runtime E H v =
     ensure (is_obj v \<and> keys_exact (obj_of v) runtime_request_keys \<and> py_eq (dget (obj_of v) ''version'') (JInt 1)) (entry_error ''request_shape'')
    (andThen (check_interpreter E H (obj_of v)) (\<lambda>_.
     andThen (check_package E H (obj_of v)) (\<lambda>_.
     check_runtime E H (obj_of v))))"

section \<open>Processes and the socket\<close>

definition process_inspector :: "platform \<Rightarrow> entry_host \<Rightarrow> int \<Rightarrow> jdict result" where
  "process_inspector E H pid = (case eh_process H pid of
      (Some birth, Some executable) \<Rightarrow> andThen (entry_digest E H executable) (\<lambda>h.
        Inr [(''pid'', JInt pid), (''uid'', JInt (p_uid E)), (''birth'', JStr birth), (''executable'', JStr executable), (''executable_sha256'', JStr h)])
    | _ \<Rightarrow> Inl (entry_error ''process_identity''))"

definition process_keys :: "string list" where
  "process_keys = [''pid'', ''uid'', ''birth'', ''executable'', ''executable_sha256'']"

definition same_fields :: "jdict \<Rightarrow> jdict \<Rightarrow> bool" where
  "same_fields a b = list_all (\<lambda>k. py_eq (dget a k) (dget b k)) process_keys"

definition validate_controller_parent :: "platform \<Rightarrow> entry_host \<Rightarrow> jdict \<Rightarrow> unit result" where
  "validate_controller_parent E H expected =
     ensure (py_eq (JInt (eh_ppid H)) (dget expected ''pid'') \<and> py_eq (dget expected ''uid'') (JInt (p_uid E))) (entry_error ''controller_parent'')
    (andThen (process_inspector E H (eh_ppid H)) (\<lambda>current.
     ensure (same_fields current expected) (entry_error ''controller_parent_changed'') (Inr ())))"

text \<open>The mode of a socket is \<open>S_IFSOCK\<close> and its permission bits.\<close>

definition entry_socket_identity :: "platform \<Rightarrow> entry_host \<Rightarrow> string \<Rightarrow> int list result" where
  "entry_socket_identity E H p = andThen (eh_lstat H p) (\<lambda>st.
     ensure (nd_kind st = KSocket \<and> nd_uid st = p_uid E \<and> owner_only (nd_perm st)) (entry_error ''public_socket'') (Inr [nd_dev st, nd_ino st, nd_uid st, 49152 + int (nd_perm st)]))"

section \<open>The controller and private directories\<close>

text \<open>\<open>control\<close>: what reading a line gave, empty at the end of the input.\<close>

definition control_packet :: "platform \<Rightarrow> string result \<Rightarrow> jdict result" where
  "control_packet E line =
     andThen line (\<lambda>raw.
     ensure (raw \<noteq> [] \<and> length raw \<le> 65536) (entry_error ''controller_eof'')
    (andThen (loads E (entry_error ''controller_json'') raw) (\<lambda>v.
     ensure (is_obj v) (entry_error ''controller_json'') (Inr (obj_of v)))))"

definition entry_directory :: "platform \<Rightarrow> entry_host \<Rightarrow> string \<Rightarrow> string result" where
  "entry_directory E H p =
     ensure (is_absolute (mk_path p)) (entry_error ''driver_root'')
    (andThen (eh_lstat H (mk_path p)) (\<lambda>st.
     ensure (nd_kind st = KDirectory \<and> nd_uid st = p_uid E \<and> nd_perm st = perm_dir) (entry_error ''driver_root'') (Inr (mk_path p))))"

end
