(* ===== verification/EntryProps.thy ===== *)
theory EntryProps
  imports BridgeEntry AckRequest
begin

text \<open>
  What the entrypoint of the product bridge knows of the code before it imports it: every file is the one
  that the request and the manifests pin, the modules of the runtime directly in its root.
\<close>

section \<open>Digests\<close>

text \<open>The loop reads exactly what was announced, and hashes all of it.\<close>

lemma digest_loop_split:
  "digest_loop rest acc bytes = Inr (data, beyond) \<Longrightarrow> data @ beyond = acc @ bytes \<and> length data = length acc + rest"
proof (induction rest acc bytes rule: digest_loop.induct)
  case (1 rest acc bytes)
  define block where "block = take (min 1048576 rest) bytes"
  show ?case
  proof (cases "rest = 0 \<or> block = []")
    case True
    then show ?thesis using 1(2) by (auto simp: digest_loop.simps [of rest acc bytes] Let_def block_def split: if_splits)
  next
    case False
    then have run: "digest_loop (rest - length block) (acc @ block) (drop (length block) bytes) = Inr (data, beyond)"
      using 1(2) by (simp add: digest_loop.simps [of rest acc bytes] Let_def block_def [symmetric])
    have "data @ beyond = (acc @ block) @ drop (length block) bytes \<and> length data = length (acc @ block) + (rest - length block)"
      by (rule 1(1) [OF _ block_def _ run]) (use False in simp_all)
    moreover have "block @ drop (length block) bytes = bytes" "length block \<le> rest"
      unfolding block_def by (simp_all add: min_def)
    ultimately show ?thesis by simp
  qed
qed

text \<open>A file whose whole content has the digest \<open>v\<close>, and that did not change while it was read.\<close>

definition pinned_file :: "platform \<Rightarrow> entry_host \<Rightarrow> string \<Rightarrow> json \<Rightarrow> bool" where
  "pinned_file E H p v = (is_absolute (mk_path p) \<and> (\<exists>st bytes. eh_open H (mk_path p) = Inr (st, bytes, st)
     \<and> entry_file_ok E 536870912 st \<and> length bytes = nd_size st \<and> v = JStr (p_sha256 E bytes)))"

lemma open_stable_ok: "open_stable H p = Inr x \<longleftrightarrow> is_absolute p \<and> eh_open H p = Inr x"
  by (auto simp: open_stable_def ensure_def with_error_def split: sum.splits)

lemma entry_digest_pins: "entry_digest E H p = Inr h \<Longrightarrow> pinned_file E H p (JStr h)"
  unfolding pinned_file_def entry_digest_def
  by (auto simp: open_stable_ok ensure_def andThen_def dest!: digest_loop_split split: sum.splits if_splits)

lemma digest_is_pins: "digest_is E H p v code = Inr () \<Longrightarrow> pinned_file E H p v"
  using entry_digest_pins by (auto simp: digest_is_def ensure_def andThen_def split: sum.splits if_splits)

section \<open>The interpreter and the package\<close>

lemma interpreter_pinned:
  assumes "check_interpreter E H request = Inr ()"
  shows "\<exists>p. path_of (dget request ''interpreter'') = Inr p \<and> kernel_executable H = Inr p \<and> pinned_file E H p (dget request ''interpreter_sha256'')"
  using assms digest_is_pins
  by (auto simp: check_interpreter_def ensure_def andThen_def split: sum.splits if_splits)

lemma rows_by_path_rows:
  assumes "rows_by_path files = Inr rows" and "map_of rows name = Some row"
  shows "JObj row \<in> set files \<and> dget row ''path'' = JStr name"
proof -
  have "\<forall>k r. map_of rows k = Some r \<longrightarrow> JObj r \<in> set files \<and> dget r ''path'' = JStr k"
  proof (rule fold_result_invariant [OF assms(1) [unfolded rows_by_path_def]])
    fix row acc acc'
    assume "row \<in> set files" and old: "\<forall>k r. map_of acc k = Some r \<longrightarrow> JObj r \<in> set files \<and> dget r ''path'' = JStr k"
      and step: "(if \<not> is_obj row then Inr acc else case dget (obj_of row) ''path'' of
         JStr name \<Rightarrow> Inr (dict_set name (obj_of row) acc) | JArr _ \<Rightarrow> type_error | JObj _ \<Rightarrow> type_error | _ \<Rightarrow> Inr acc) = Inr acc'"
    then have "acc' = acc \<or> (\<exists>name. is_obj row \<and> dget (obj_of row) ''path'' = JStr name \<and> acc' = dict_set name (obj_of row) acc)"
      by (auto split: if_splits json.splits)
    then show "\<forall>k r. map_of acc' k = Some r \<longrightarrow> JObj r \<in> set files \<and> dget r ''path'' = JStr k"
      using old \<open>row \<in> set files\<close> by (auto simp: json_kind_iffs split: if_splits)
  qed simp
  then show ?thesis using assms(2) by blast
qed

lemma source_pinned:
  assumes "check_source E H root_path rows (name, path) = Inr ()"
  shows "\<exists>row. map_of rows name = Some row \<and> eh_resolve H (path_join root_path name) = Inr path \<and> pinned_file E H path (dget row ''sha256'')"
  using assms digest_is_pins
  by (auto simp: check_source_def ensure_def andThen_def split: option.splits sum.splits if_splits)

lemma package_pinned:
  assumes "check_package E H request = Inr ()"
  shows "\<exists>pkg manifest. path_of (dget request ''package_root'') = Inr pkg
    \<and> pinned_file E H (path_join pkg ''manifest.json'') (dget request ''package_manifest_sha256'')
    \<and> entry_json E H False (path_join pkg ''manifest.json'') = Inr manifest
    \<and> (\<forall>(name, path) \<in> set (package_sources H pkg). eh_resolve H (path_join pkg name) = Inr path
        \<and> (\<exists>row. JObj row \<in> set (arr_of (dget manifest ''files'')) \<and> dget row ''path'' = JStr name \<and> pinned_file E H path (dget row ''sha256'')))"
proof -
  from assms obtain pkg mp manifest rows where "path_of (dget request ''package_root'') = Inr pkg" and can: "canonical_root H pkg ''package_binding'' (mp = path_join pkg ''manifest.json'') = Inr ()"
    and dg: "digest_is E H mp (dget request ''package_manifest_sha256'') ''package_manifest_changed'' = Inr ()"
    and js: "entry_json E H False mp = Inr manifest" and rows: "rows_by_path (arr_of (dget manifest ''files'')) = Inr rows"
    and all: "\<forall>f \<in> set (package_sources H pkg). check_source E H pkg rows f = Inr ()"
    unfolding check_package_def by (auto simp: ensure_def split: if_splits)
  moreover have "mp = path_join pkg ''manifest.json''"
    using can by (auto simp: canonical_root_def ensure_def andThen_def split: if_splits sum.splits)
  ultimately show ?thesis
    using digest_is_pins [OF dg] source_pinned rows_by_path_rows [OF rows] by (intro exI [of _ pkg] exI [of _ manifest]) fastforce
qed

section \<open>Paths\<close>

lemma split_on_piece: "w \<in> set (split_on c s) \<Longrightarrow> c \<notin> set w"
  by (induction c s arbitrary: w rule: split_on.induct) (auto split: if_splits list.splits)

lemma split_on_single: "c \<notin> set w \<Longrightarrow> split_on c w = [w]"
  by (induction w) auto

lemma split_on_append: "c \<notin> set w \<Longrightarrow> split_on c (w @ c # s) = w # split_on c s"
  by (induction w) auto

lemma split_on_join: "ps \<noteq> [] \<Longrightarrow> \<forall>w \<in> set ps. c \<notin> set w \<Longrightarrow> split_on c (join [c] ps) = ps"
  by (induction "[c]" ps rule: join.induct) (auto simp: split_on_single split_on_append)

text \<open>The parts of a path, and the text that is made of parts.\<close>

definition path_piece :: "string \<Rightarrow> bool" where
  "path_piece w = (w \<noteq> [] \<and> w \<noteq> ''.'' \<and> CHR ''/'' \<notin> set w)"

lemma path_parts_pieces: "\<forall>w \<in> set (path_parts p). path_piece w"
  by (auto simp: path_parts_def path_piece_def dest: split_on_piece)

lemma path_anchor_cases: "path_anchor p = [] \<or> path_anchor p = ''/'' \<or> path_anchor p = ''//''"
  by (simp add: path_anchor_def)

lemma path_parts_join: "\<forall>w \<in> set ps. path_piece w \<Longrightarrow> path_parts (join ''/'' ps) = ps"
  by (cases "ps = []") (auto simp: path_parts_def path_piece_def split_on_join)

lemma path_parts_text:
  assumes "\<forall>w \<in> set ps. path_piece w" and "a = [] \<or> a = ''/'' \<or> a = ''//''"
  shows "path_parts (path_text a ps) = ps"
proof (cases "a = [] \<and> ps = []")
  case True
  then show ?thesis by (simp add: path_text_def path_parts_def)
next
  case False
  then have "path_text a ps = a @ join ''/'' ps" by (simp add: path_text_def)
  moreover have "path_parts (a @ join ''/'' ps) = path_parts (join ''/'' ps)"
    using assms(2) by (auto simp: path_parts_def)
  ultimately show ?thesis using path_parts_join assms(1) by simp
qed

lemma join_not_slash: "\<forall>w \<in> set ps. path_piece w \<Longrightarrow> join ''/'' ps = [] \<or> hd (join ''/'' ps) \<noteq> CHR ''/''"
proof (cases ps)
  case (Cons w ws)
  assume "\<forall>w \<in> set ps. path_piece w"
  then obtain x xs where w: "w = x # xs" and x: "x \<noteq> CHR ''/''" using Cons by (cases w) (auto simp: path_piece_def)
  have "hd (join ''/'' ((x # xs) # ws)) = x" by (cases ws) simp_all
  then show ?thesis using x by (simp add: Cons w)
qed simp

lemma path_anchor_text:
  assumes "\<forall>w \<in> set ps. path_piece w" and "a = [] \<or> a = ''/'' \<or> a = ''//''"
  shows "path_anchor (path_text a ps) = a"
  using join_not_slash [OF assms(1)] assms(2)
  by (cases "join ''/'' ps") (auto simp: path_text_def path_anchor_def starts_with_def)

lemma mk_path_again: "path_text (path_anchor (mk_path p)) (path_parts (mk_path p)) = mk_path p"
  unfolding mk_path_def
  by (simp only: path_anchor_text [OF path_parts_pieces path_anchor_cases] path_parts_text [OF path_parts_pieces path_anchor_cases])

text \<open>Nothing but the last component: a name without a directory, or nothing at all.\<close>

lemma bare_name:
  assumes "path_name b = b" and "b \<noteq> []"
  shows "path_piece b" "path_parts b = [b]" "\<not> is_absolute b"
proof -
  have "b \<in> set (path_parts b)" using assms by (cases "path_parts b = []") (simp_all add: path_name_def, metis last_in_set)
  then show piece: "path_piece b" using path_parts_pieces by blast
  then show "path_parts b = [b]" by (simp add: path_parts_def path_piece_def split_on_single)
  from piece show "\<not> is_absolute b" by (cases b) (auto simp: is_absolute_def starts_with_def path_piece_def)
qed

lemma path_join_bare:
  assumes "path_name b = b" and "path_name (path_join rt b) = n" and "path_join rt b \<noteq> rt" and "rt = mk_path r"
  shows "b = n"
proof (cases "b = []")
  case True
  then have "path_join rt b = rt"
    unfolding assms(4) using mk_path_again by (simp add: path_join_def is_absolute_def starts_with_def path_parts_def)
  then show ?thesis using assms(3) by blast
next
  case False
  note bare = bare_name [OF assms(1) False]
  have "path_parts (path_join rt b) = path_parts rt @ [b]"
    unfolding path_join_def if_not_P [OF bare(3)] bare(2)
    by (rule path_parts_text [OF _ path_anchor_cases]) (use path_parts_pieces bare(1) in auto)
  then show ?thesis using assms(2) by (simp add: path_name_def)
qed

section \<open>The runtime\<close>

lemma pin_rows:
  assumes "fold_result pin_row files [] = Inr pins" and "map_of pins name = Some row"
  shows "JObj row \<in> set files \<and> dget row ''logical_id'' = JStr name \<and> is_str (dget row ''path'') \<and> path_name (str_of (dget row ''path'')) = str_of (dget row ''path'')"
proof -
  let ?ok = "\<lambda>k r. JObj r \<in> set files \<and> dget r ''logical_id'' = JStr k \<and> is_str (dget r ''path'') \<and> path_name (str_of (dget r ''path'')) = str_of (dget r ''path'')"
  have "\<forall>(k, r) \<in> set pins. ?ok k r"
  proof (rule fold_result_invariant [OF assms(1)])
    fix row acc acc'
    assume "row \<in> set files" and old: "\<forall>(k, r) \<in> set acc. ?ok k r" and step: "pin_row row acc = Inr acc'"
    then have "is_obj row" "is_str (dget (obj_of row) ''logical_id'')" "is_str (dget (obj_of row) ''path'')"
        "path_name (str_of (dget (obj_of row) ''path'')) = str_of (dget (obj_of row) ''path'')" "acc' = acc @ [(str_of (dget (obj_of row) ''logical_id''), obj_of row)]"
      by (auto simp: pin_row_def Let_def ensure_def split: if_splits)
    then show "\<forall>(k, r) \<in> set acc'. ?ok k r"
      using old \<open>row \<in> set files\<close> by (auto simp: json_kind_iffs)
  qed simp
  then show ?thesis using map_of_SomeD [OF assms(2)] by blast
qed

lemma module_pinned:
  assumes "check_module E H root_path modules pins name = Inr (n, path)"
  shows "n = name \<and> (\<exists>row. map_of pins name = Some row \<and> path = path_join root_path (str_of (dget row ''path'')) \<and> path_name path = name @ ''.py''
    \<and> pinned_file E H path (dget row ''sha256'')) \<and> (\<exists>st. eh_lstat H path = Inr st \<and> nd_kind st = KRegular)"
  using assms digest_is_pins
  by (auto simp: check_module_def ensure_def andThen_def split: option.splits sum.splits if_splits)

lemma list_all2_right: "list_all2 P xs ys \<Longrightarrow> y \<in> set ys \<Longrightarrow> \<exists>x. P x y"
  by (auto simp: list_all2_conv_all_nth in_set_conv_nth)

lemma runtime_pinned:
  assumes "check_runtime E H request = Inr checked"
  shows "\<exists>rt manifest. path_of (dget request ''g0_runtime_root'') = Inr rt
    \<and> pinned_file E H (path_join rt ''runtime-manifest.json'') (dget request ''g0_runtime_manifest_sha256'')
    \<and> entry_json E H False (path_join rt ''runtime-manifest.json'') = Inr manifest \<and> map fst checked = required_modules
    \<and> (\<forall>(name, path) \<in> set checked. \<exists>row. JObj row \<in> set (arr_of (dget manifest ''files'')) \<and> dget row ''logical_id'' = JStr name
        \<and> dget row ''path'' = JStr (name @ ''.py'') \<and> path = path_join rt (name @ ''.py'') \<and> pinned_file E H path (dget row ''sha256''))"
proof -
  from assms obtain rt mp manifest pins where "path_of (dget request ''g0_runtime_root'') = Inr rt" and own: "private_root E H rt ''g0_runtime_root'' = Inr ()" and can: "canonical_root H rt ''g0_runtime_root'' (mp = path_join rt ''runtime-manifest.json'') = Inr ()"
    and dg: "digest_is E H mp (dget request ''g0_runtime_manifest_sha256'') ''g0_manifest_changed'' = Inr ()"
    and js: "entry_json E H False mp = Inr manifest" and pins: "fold_result pin_row (arr_of (dget manifest ''files'')) [] = Inr pins"
    and all: "map_result (check_module E H rt (obj_of (dget request ''g0_modules'')) pins) required_modules = Inr checked"
    unfolding check_runtime_def by (auto simp: ensure_def split: if_splits)
  moreover have "mp = path_join rt ''runtime-manifest.json''"
    using can by (auto simp: canonical_root_def ensure_def andThen_def split: if_splits sum.splits)
  moreover have l2: "list_all2 (\<lambda>n np. check_module E H rt (obj_of (dget request ''g0_modules'')) pins n = Inr np) required_modules checked"
    using all by (simp add: map_result_ok)
  have "map fst checked = required_modules"
    using l2 by (induction rule: list_all2_induct) (auto dest: module_pinned)
  moreover have "\<exists>row. JObj row \<in> set (arr_of (dget manifest ''files'')) \<and> dget row ''logical_id'' = JStr name
        \<and> dget row ''path'' = JStr (name @ ''.py'') \<and> path = path_join rt (name @ ''.py'') \<and> pinned_file E H path (dget row ''sha256'')"
    if inside: "(name, path) \<in> set checked" for name path
  proof -
    obtain m where "check_module E H rt (obj_of (dget request ''g0_modules'')) pins m = Inr (name, path)"
      using list_all2_right [OF l2 inside] by blast
    from module_pinned [OF this] obtain row st where row: "map_of pins name = Some row" and at: "path = path_join rt (str_of (dget row ''path''))"
      and named: "path_name path = name @ ''.py''" and pinned: "pinned_file E H path (dget row ''sha256'')"
      and node: "eh_lstat H path = Inr st" "nd_kind st = KRegular" by blast
    obtain r where rt: "rt = mk_path r" using \<open>path_of (dget request ''g0_runtime_root'') = Inr rt\<close> by (auto simp: path_of_def split: json.splits)
    have "path \<noteq> rt" using own node by (auto simp: private_root_def ensure_def andThen_def split: if_splits sum.splits)
    then have "str_of (dget row ''path'') = name @ ''.py''"
      using path_join_bare [OF _ _ _ rt] pin_rows [OF pins row] named at by blast
    moreover have "is_str (dget row ''path'')" using pin_rows [OF pins row] by blast
    ultimately have "dget row ''path'' = JStr (name @ ''.py'')" by (cases "dget row ''path''") simp_all
    then show ?thesis using pin_rows [OF pins row] at pinned by (intro exI [of _ row]) simp
  qed
  ultimately show ?thesis
    using digest_is_pins [OF dg] by (intro exI [of _ rt] exI [of _ manifest]) fastforce
qed


section \<open>A sample\<close>

definition entry_node :: "file_kind \<Rightarrow> nat \<Rightarrow> linked" where
  "entry_node k perm = \<lparr>nd_dev = 1, nd_ino = 2, nd_uid = 501, nd_kind = k, nd_perm = perm, nd_size = 1, nd_mtime = 3, nd_ctime = 4, nd_nlink = 1\<rparr>"

definition entry_sample :: entry_host where
  "entry_sample = \<lparr>eh_resolve = Inr,
     eh_lstat = \<lambda>p. Inr (if p = ''/pkg'' \<or> p = ''/rt'' then entry_node KDirectory perm_dir else entry_node KRegular perm_file),
     eh_open = \<lambda>p. Inr (entry_node KRegular perm_file, if p = ''/pkg/manifest.json'' then ''P'' else if p = ''/rt/runtime-manifest.json'' then ''G'' else ''x'',
       entry_node KRegular perm_file),
     eh_kernel = Inr ''/py'', eh_self = ''/pkg/scripts/native-product-bridge.py'', eh_process = \<lambda>_. (None, None), eh_pid = 7, eh_ppid = 6\<rparr>"

definition entry_sha :: string where
  "entry_sha = replicate 64 CHR ''a''"

definition entry_package :: json where
  "entry_package = JObj [(''schema_version'', JInt 1), (''files'', JArr (map (\<lambda>name. JObj [(''path'', JStr name), (''sha256'', JStr entry_sha), (''mode'', JInt 384)])
     [''scripts/native-product-bridge.py'', ''lib/native_bridge/bridge.py'']))]"

definition entry_runtime :: json where
  "entry_runtime = JObj [(''version'', JInt 1), (''interpreter'', JObj [(''path'', JStr ''/py''), (''sha256'', JStr entry_sha)]),
     (''files'', JArr (map (\<lambda>name. JObj [(''logical_id'', JStr name), (''path'', JStr (name @ ''.py'')), (''sha256'', JStr entry_sha), (''mode'', JInt 384)])
       required_modules))]"

definition entry_request :: json where
  "entry_request = JObj [(''version'', JInt 1), (''package_root'', JStr ''/pkg''), (''package_manifest'', JStr ''/pkg/manifest.json''),
     (''package_manifest_sha256'', JStr entry_sha), (''interpreter'', JStr ''/py''), (''interpreter_sha256'', JStr entry_sha),
     (''g0_runtime_root'', JStr ''/rt''), (''g0_runtime_manifest'', JStr ''/rt/runtime-manifest.json''), (''g0_runtime_manifest_sha256'', JStr entry_sha),
     (''g0_modules'', JObj (map (\<lambda>name. (name, JStr (''/rt/'' @ name @ ''.py''))) required_modules))]"

definition entry_platform :: platform where
  "entry_platform = \<lparr>p_sha256 = \<lambda>_. entry_sha, p_scan = \<lambda>t. if t = ''P'' then Some entry_package else if t = ''G'' then Some entry_runtime else None,
     p_float_repr = \<lambda>_. [], p_uid = 501, p_pid = 7\<rparr>"

lemma entry_sample_ok: "succeeds (validate_runtime entry_platform entry_sample entry_request)"
  by code_simp

text \<open>
  C31. The entrypoint accepts, before its import, only pinned files: when it accepts a request, the interpreter is the one
  the kernel runs, the manifests of the package and of the runtime are those of the request, the
  entrypoint itself, the bridge and each of the five modules of the runtime are files that a manifest
  lists under their name, and the whole content of every one of these files has the digest that is pinned
  for it. The modules come in the order they are required; the row of the manifest for each of them gives the bare
  name of its file, and the module is that file directly in the root of the runtime. (The import itself is
  outside the model.)\<close>

theorem validated_runtime_is_pinned:
  assumes "validate_runtime E H v = Inr checked"
  shows "(\<exists>p. path_of (dget (obj_of v) ''interpreter'') = Inr p \<and> kernel_executable H = Inr p \<and> pinned_file E H p (dget (obj_of v) ''interpreter_sha256''))
    \<and> (\<exists>pkg manifest. path_of (dget (obj_of v) ''package_root'') = Inr pkg
        \<and> pinned_file E H (path_join pkg ''manifest.json'') (dget (obj_of v) ''package_manifest_sha256'')
        \<and> entry_json E H False (path_join pkg ''manifest.json'') = Inr manifest
        \<and> (\<forall>(name, path) \<in> set (package_sources H pkg). eh_resolve H (path_join pkg name) = Inr path
            \<and> (\<exists>row. JObj row \<in> set (arr_of (dget manifest ''files'')) \<and> dget row ''path'' = JStr name \<and> pinned_file E H path (dget row ''sha256''))))
    \<and> (\<exists>rt manifest. path_of (dget (obj_of v) ''g0_runtime_root'') = Inr rt
        \<and> pinned_file E H (path_join rt ''runtime-manifest.json'') (dget (obj_of v) ''g0_runtime_manifest_sha256'')
        \<and> entry_json E H False (path_join rt ''runtime-manifest.json'') = Inr manifest \<and> map fst checked = required_modules
        \<and> (\<forall>(name, path) \<in> set checked. \<exists>row. JObj row \<in> set (arr_of (dget manifest ''files'')) \<and> dget row ''logical_id'' = JStr name
            \<and> dget row ''path'' = JStr (name @ ''.py'') \<and> path = path_join rt (name @ ''.py'') \<and> pinned_file E H path (dget row ''sha256'')))"
proof -
  have "check_interpreter E H (obj_of v) = Inr ()" "check_package E H (obj_of v) = Inr ()" "check_runtime E H (obj_of v) = Inr checked"
    using assms by (auto simp: validate_runtime_def ensure_def split: if_splits)
  from interpreter_pinned [OF this(1)] package_pinned [OF this(2)] runtime_pinned [OF this(3)]
  show ?thesis by (intro conjI)
qed

theorem validated_runtime_is_pinned_witness:
  "\<exists>checked. validate_runtime entry_platform entry_sample entry_request = Inr checked \<and> map fst checked = required_modules"
proof -
  obtain checked where run: "validate_runtime entry_platform entry_sample entry_request = Inr checked"
    using entry_sample_ok unfolding succeeds_iff by blast
  from validated_runtime_is_pinned [OF run] run show ?thesis by blast
qed

end
