(* ===== verification/BridgeDriver.thy ===== *)
theory BridgeDriver
  imports BridgeEntry AdapterProps
begin

text \<open>
  The delivery of events by the processes of the product bridge (\<open>run_driver\<close> and \<open>run_helper\<close> of
  \<open>plugins/codex-orchestrator/scripts/native-product-bridge.py\<close>): one turn is cut where the process takes the
  lock of the ledger, writes to the connection or waits, so that other processes may run in between.
\<close>

section \<open>Waiting\<close>

text \<open>The end of the list is the end of the time.\<close>

fun wait_for_id :: "int \<Rightarrow> jdict list \<Rightarrow> jdict result list \<Rightarrow> (jdict \<times> jdict list) result" where
  "wait_for_id rid packets [] = Inl (entry_error ''rpc_timeout'')"
| "wait_for_id rid packets (Inl e # reads) = Inl e"
| "wait_for_id rid packets (Inr p # reads) =
    (if py_eq (dget p ''id'') (JInt rid) then Inr (p, packets @ [p]) else wait_for_id rid (packets @ [p]) reads)"

text \<open>\<open>attachment_live\<close>.\<close>

fun peers_live :: "platform \<Rightarrow> entry_host \<Rightarrow> jdict list \<Rightarrow> bool result" where
  "peers_live E H [] = Inr True"
| "peers_live E H (x # xs) =
     andThen (dreq x ''pid'') (\<lambda>pid.
     andThen (process_inspector E H (int_of pid)) (\<lambda>current.
     if same_fields current x then peers_live E H xs else Inr False))"

definition origin_peer :: "platform \<Rightarrow> owner_attachment \<Rightarrow> jdict" where
  "origin_peer E a = [(''pid'', JInt (oa_origin_pid a)), (''uid'', JInt (p_uid E)), (''birth'', oa_origin_birth a),
     (''executable'', oa_origin_executable a), (''executable_sha256'', oa_origin_executable_sha256 a)]"

definition attachment_live :: "platform \<Rightarrow> entry_host \<Rightarrow> owner_attachment \<Rightarrow> bool result" where
  "attachment_live E H a =
    (case andThen (peers_live E H [oa_service_identity a, oa_backend_identity a, origin_peer E a]) (\<lambda>ok.
       if ok then andThen (entry_socket_identity E H (oa_private_socket a)) (\<lambda>i. Inr (i = oa_private_socket_identity a)) else Inr False) of
       Inl e \<Rightarrow> if exn_class e \<in> set os_classes \<union> {''EntryError'', ''KeyError''} then Inr False else Inl e
     | Inr ok \<Rightarrow> Inr ok)"

definition require_live :: "platform \<Rightarrow> entry_host \<Rightarrow> owner_attachment \<Rightarrow> unit result" where
  "require_live E H a = andThen (attachment_live E H a) (\<lambda>ok. ensure ok (entry_error ''owner_detached'') (Inr ()))"

text \<open>A poll is the system before the call, what the call gives, and the system after it; \<open>None\<close> while it still waits.\<close>

type_synonym event_answer = "string \<times> json list \<times> string"

fun wait_actionable_events :: "platform \<Rightarrow> owner_attachment \<Rightarrow> (entry_host \<times> event_answer result \<times> entry_host) list \<Rightarrow> event_answer result option" where
  "wait_actionable_events E a [] = None"
| "wait_actionable_events E a ((H, answer, H') # polls) =
    (case andThen (require_live E H a) (\<lambda>_. answer) of
       Inl e \<Rightarrow> Some (Inl e)
     | Inr (status, events, cursor) \<Rightarrow>
         if status = ''timeout'' then wait_actionable_events E a polls
         else Some (andThen (require_live E H' a) (\<lambda>_. Inr (status, events, cursor))))"

fun wait_decision :: "platform \<Rightarrow> owner_attachment \<Rightarrow> string \<Rightarrow> (entry_host \<times> bool) list \<Rightarrow> jdict result option" where
  "wait_decision E a path [] = None"
| "wait_decision E a path ((H, exists) # polls) =
    (case require_live E H a of
       Inl e \<Rightarrow> Some (Inl e)
     | Inr _ \<Rightarrow> if exists then Some (entry_json E H True path) else wait_decision E a path polls)"

section \<open>The history\<close>

definition history_request :: "string \<Rightarrow> int \<Rightarrow> json" where
  "history_request thread_id rid = JObj
    [(''id'', JInt rid), (''method'', JStr ''thread/read''),
     (''params'', JObj [(''threadId'', JStr thread_id), (''includeTurns'', JBool True)])]"

definition get_obj :: "jdict \<Rightarrow> string \<Rightarrow> jdict result" where
  "get_obj d k = (case dget_or d k (JObj []) of JObj x \<Rightarrow> Inr x | _ \<Rightarrow> attribute_error)"

text \<open>The marker that an item is, if its output is the envelope and its turn is completed.\<close>

definition item_marker :: "platform \<Rightarrow> json \<Rightarrow> jdict \<Rightarrow> json \<Rightarrow> (json \<times> json) list \<Rightarrow> (json \<times> json) list result" where
  "item_marker E expected turn v ms =
    (if \<not> is_obj v then attribute_error
     else let item = obj_of v in
       if \<not> (dget item ''type'' = JStr ''functionCallOutput'' \<and> dget item ''name'' = JStr ''g0_delivery'' \<and> dget item ''namespace'' = JStr ''orchestration'')
       then Inr ms
       else (case dget_or item ''output'' (JStr []) of
           JStr t \<Rightarrow> (case loads E (Raised ''JSONDecodeError'' []) t of
               Inl _ \<Rightarrow> Inr ms
             | Inr x \<Rightarrow> Inr (if py_eq x expected \<and> dget turn ''status'' = JStr ''completed'' then ms @ [(dget turn ''id'', dget item ''id'')] else ms))
         | _ \<Rightarrow> Inr ms))"

definition turn_markers :: "platform \<Rightarrow> json \<Rightarrow> json \<Rightarrow> (json \<times> json) list \<Rightarrow> (json \<times> json) list result" where
  "turn_markers E expected v ms =
    (if \<not> is_obj v then attribute_error
     else andThen (py_iter (dget_or (obj_of v) ''items'' (JArr []))) (\<lambda>items. fold_result (item_marker E expected (obj_of v)) items ms))"

definition history_markers :: "platform \<Rightarrow> json \<Rightarrow> string \<Rightarrow> jdict \<Rightarrow> (json \<times> json) list result" where
  "history_markers E expected thread_id response =
     andThen (get_obj response ''result'') (\<lambda>result.
     andThen (get_obj result ''thread'') (\<lambda>thread.
     ensure (dget thread ''id'' = JStr thread_id) (entry_error ''history_owner_changed'')
    (andThen (py_iter (dget_or thread ''turns'' (JArr []))) (\<lambda>turns. fold_result (turn_markers E expected) turns []))))"

text \<open>
  \<open>exact_history\<close>: what sending the request gave and what was read afterwards, for every attempt; \<open>tokens\<close> are the
  fresh identifiers of the proofs. The first argument counts the attempts that are left.
\<close>

primrec history_tries :: "nat \<Rightarrow> platform \<Rightarrow> (nat \<Rightarrow> unit result) \<Rightarrow> (nat \<Rightarrow> jdict result list) \<Rightarrow> (nat \<Rightarrow> string) \<Rightarrow> capability \<Rightarrow> string
    \<Rightarrow> adapter \<Rightarrow> (history_proof \<times> json \<times> json) result \<times> adapter" where
  "history_tries 0 E sent reads tokens c thread_id ad = (Inl (entry_error ''history_uncertain''), ad)"
| "history_tries (Suc n) E sent reads tokens c thread_id ad =
    (let k = 19 - n; rid = 20 + int k; request = history_request thread_id rid in
     case andThen (sent k) (\<lambda>_. andThen (wait_for_id rid [] (reads k)) (\<lambda>(response, _).
        ensure (\<not> has_key response ''error'') (entry_error ''history_read_rejected'') (Inr response))) of
       Inl e \<Rightarrow> (Inl e, ad)
     | Inr response \<Rightarrow>
        (case audit_history E c [JObj [(''request'', request), (''response'', JObj response)]] [] (tokens k) ad of
           (Inl e, ad1) \<Rightarrow> if exn_code e \<noteq> ''history_uncertain'' \<or> n = 0 then (Inl e, ad1)
             else history_tries n E sent reads tokens c thread_id ad1
         | (Inr proof, ad1) \<Rightarrow>
            (case andThen (parsed_object E (ca_native_envelope_bytes c)) (\<lambda>envelope. history_markers E (JObj envelope) thread_id response) of
               Inl e \<Rightarrow> (Inl e, ad1)
             | Inr ms \<Rightarrow> if ms = [] \<and> 0 < n then history_tries n E sent reads tokens c thread_id ad1
                 else (ensure (length ms = 1) (entry_error ''history_marker_ambiguous'') (Inr (proof, hd ms)), ad1))))"

definition exact_history :: "platform \<Rightarrow> (nat \<Rightarrow> unit result) \<Rightarrow> (nat \<Rightarrow> jdict result list) \<Rightarrow> (nat \<Rightarrow> string) \<Rightarrow> capability \<Rightarrow> string
    \<Rightarrow> adapter \<Rightarrow> (history_proof \<times> json \<times> json) result \<times> adapter" where
  "exact_history = history_tries 20"

definition proof_digest :: "platform \<Rightarrow> history_proof \<Rightarrow> string result" where
  "proof_digest E proof = andThen (parsed_object E (hp_summary_bytes proof)) (\<lambda>summary.
     Inr (p_sha256 E (dumps True True E (JObj [(''reads_sha256'', JStr (hp_reads_sha256 proof)), (''summary'', JObj summary)]))))"

end
