(* ===== verification/HistoryProps.thy ===== *)
theory HistoryProps
  imports BridgeDriver
begin

text \<open>
  What the product bridge accepts as the proof that a delivery arrived: the one completed item of the
  thread of the owner that shows the envelope.
\<close>

section \<open>The markers of a thread\<close>

definition exact_marker :: "platform \<Rightarrow> json \<Rightarrow> jdict \<Rightarrow> jdict \<Rightarrow> bool" where
  "exact_marker E expected turn item =
    (dget item ''type'' = JStr ''functionCallOutput'' \<and> dget item ''name'' = JStr ''g0_delivery'' \<and> dget item ''namespace'' = JStr ''orchestration''
     \<and> dget turn ''status'' = JStr ''completed''
     \<and> (\<exists>t x. dget_or item ''output'' (JStr []) = JStr t \<and> loads E (Raised ''JSONDecodeError'' []) t = Inr x \<and> py_eq x expected))"

definition shown_items :: "jdict \<Rightarrow> json list" where
  "shown_items turn = arr_of (dget_or turn ''items'' (JArr []))"

definition turn_marks :: "platform \<Rightarrow> json \<Rightarrow> json \<Rightarrow> (json \<times> json) list" where
  "turn_marks E expected v = map (\<lambda>item. (dget (obj_of v) ''id'', dget (obj_of item) ''id''))
     (filter (\<lambda>item. exact_marker E expected (obj_of v) (obj_of item)) (shown_items (obj_of v)))"

definition marker_list :: "platform \<Rightarrow> json \<Rightarrow> json list \<Rightarrow> (json \<times> json) list" where
  "marker_list E expected turns = concat (map (turn_marks E expected) turns)"

definition shown_thread :: "jdict \<Rightarrow> jdict" where
  "shown_thread response = obj_of (dget (obj_of (dget response ''result'')) ''thread'')"

lemma item_marker_appends:
  assumes "item_marker E expected turn v ms = Inr ms'"
  shows "is_obj v \<and> ms' = ms @ (if exact_marker E expected turn (obj_of v) then [(dget turn ''id'', dget (obj_of v) ''id'')] else [])"
  using assms unfolding item_marker_def exact_marker_def Let_def
  by (auto split: if_splits json.splits sum.splits)

lemma fold_appends:
  assumes "fold_result f xs ms = Inr ms'" and "\<And>x m m'. f x m = Inr m' \<Longrightarrow> m' = m @ g x"
  shows "ms' = ms @ concat (map g xs)"
  using assms(1)
proof (induction xs arbitrary: ms)
  case (Cons x xs)
  then obtain m where "f x ms = Inr m" "fold_result f xs m = Inr ms'" by auto
  with Cons.IH assms(2) show ?case by fastforce
qed simp

text \<open>What is iterated over is a list, unless there is nothing in it.\<close>

lemma iter_objects:
  assumes "py_iter v = Inr xs" and "list_all is_obj xs"
  shows "xs = arr_of v"
proof -
  have "ys = []" if "list_all is_obj (map JStr ys)" for ys using that by (cases ys) auto
  moreover have "d = []" if "list_all is_obj (map (JStr \<circ> fst) d)" for d :: jdict using that by (cases d) auto
  ultimately show ?thesis using assms by (cases v) (auto simp: py_iter_def arr_of_def)
qed

lemma fold_objects:
  assumes "\<And>x m m'. f x m = Inr m' \<Longrightarrow> is_obj x"
  shows "fold_result f xs ms = Inr ms' \<Longrightarrow> list_all is_obj xs"
proof (induction xs arbitrary: ms)
  case (Cons y ys)
  then obtain m where "f y ms = Inr m" "fold_result f ys m = Inr ms'" by auto
  with Cons.IH assms show ?case by auto
qed simp

lemma iter_fold:
  assumes "py_iter v = Inr xs" and "fold_result f xs ms = Inr ms'" and "\<And>x m m'. f x m = Inr m' \<Longrightarrow> is_obj x \<and> m' = m @ g x"
  shows "ms' = ms @ concat (map g (arr_of v))"
proof -
  have "list_all is_obj xs" by (rule fold_objects [OF _ assms(2)]) (use assms(3) in blast)
  then have "xs = arr_of v" by (rule iter_objects [OF assms(1)])
  then show ?thesis using fold_appends [OF assms(2)] assms(3) by blast
qed

lemma turn_markers_appends:
  assumes "turn_markers E expected v ms = Inr ms'"
  shows "is_obj v \<and> ms' = ms @ turn_marks E expected v"
proof -
  from assms obtain items where v: "is_obj v" and items: "py_iter (dget_or (obj_of v) ''items'' (JArr [])) = Inr items"
    and run: "fold_result (item_marker E expected (obj_of v)) items ms = Inr ms'"
    by (auto simp: turn_markers_def split: if_splits)
  have one: "concat (map (\<lambda>i. if P i then [g i] else []) xs) = map g (filter P xs)" for P xs and g :: "json \<Rightarrow> json \<times> json"
    by (induction xs) auto
  from iter_fold [OF items run item_marker_appends] v show ?thesis
    by (simp add: turn_marks_def shown_items_def one)
qed

lemma history_markers_list:
  assumes "history_markers E expected tid response = Inr ms"
  shows "dget (shown_thread response) ''id'' = JStr tid \<and> ms = marker_list E expected (arr_of (dget (shown_thread response) ''turns''))"
proof -
  from assms obtain result thread turns where r: "get_obj response ''result'' = Inr result" "get_obj result ''thread'' = Inr thread"
    and id: "dget thread ''id'' = JStr tid" and turns: "py_iter (dget_or thread ''turns'' (JArr [])) = Inr turns"
    and run: "fold_result (turn_markers E expected) turns [] = Inr ms"
    by (auto simp: history_markers_def ensure_def split: if_splits)
  have get: "obj_of (dget d k) = x" if "get_obj d k = Inr x" for d k x
    using that by (auto simp: get_obj_def dget_or_def dget_def obj_of_def split: json.splits option.splits)
  have th: "shown_thread response = thread" using get [OF r(2)] get [OF r(1)] by (simp add: shown_thread_def)
  have "arr_of (dget_or thread ''turns'' (JArr [])) = arr_of (dget thread ''turns'')"
    by (simp add: dget_or_def dget_def arr_of_def split: option.splits)
  with iter_fold [OF turns run turn_markers_appends] id th show ?thesis by (simp add: marker_list_def)
qed

section \<open>The proof\<close>

lemma wait_for_id_answer:
  "wait_for_id rid packets reads = Inr (p, ps) \<Longrightarrow> Inr p \<in> set reads \<and> py_eq (dget p ''id'') (JInt rid)"
  by (induction rid packets reads rule: wait_for_id.induct) (auto split: if_splits)

lemma audit_proof:
  assumes "audit_history E c reads ds token ad = (Inr proof, ad')"
  shows "hp_capability_id proof = ca_id c \<and> hp_id proof = token \<and> hp_reads_sha256 proof = p_sha256 E (canonical E (JArr reads))
    \<and> map_of (ad_proofs ad') token = Some proof
    \<and> (\<forall>envelope. parsed_object E (ca_native_envelope_bytes c) = Inr envelope \<longrightarrow> hp_native_envelope_bytes proof = canonical E (JObj envelope)
         \<and> hp_matched_event_ids proof = map (\<lambda>e. str_of (dget (obj_of e) ''event_id'')) (arr_of (dget envelope ''events'')))"
  using assms by (auto simp: audit_history_def ensure_def andThen_def map_of_dict_set split: sum.splits if_splits)

text \<open>What one attempt found.\<close>

definition found_by :: "platform \<Rightarrow> (nat \<Rightarrow> jdict result list) \<Rightarrow> (nat \<Rightarrow> string) \<Rightarrow> capability \<Rightarrow> string \<Rightarrow> adapter \<Rightarrow> history_proof \<Rightarrow> json \<Rightarrow> json \<Rightarrow> nat \<Rightarrow> jdict \<Rightarrow> bool" where
  "found_by E reads tokens c tid ad' proof turn item k response =
    (Inr response \<in> set (reads k) \<and> py_eq (dget response ''id'') (JInt (20 + int k)) \<and> \<not> has_key response ''error''
     \<and> dget (shown_thread response) ''id'' = JStr tid
     \<and> (\<exists>envelope. parsed_object E (ca_native_envelope_bytes c) = Inr envelope
          \<and> marker_list E (JObj envelope) (arr_of (dget (shown_thread response) ''turns'')) = [(turn, item)]
          \<and> hp_native_envelope_bytes proof = canonical E (JObj envelope)
          \<and> hp_matched_event_ids proof = map (\<lambda>e. str_of (dget (obj_of e) ''event_id'')) (arr_of (dget envelope ''events'')))
     \<and> map_of (ad_proofs ad') (tokens k) = Some proof \<and> hp_capability_id proof = ca_id c \<and> hp_id proof = tokens k
     \<and> hp_reads_sha256 proof = p_sha256 E (canonical E (JArr
          [JObj [(''request'', history_request tid (20 + int k)), (''response'', JObj response)]])))"

lemma history_step:
  assumes run: "history_tries (Suc n) E sent reads tokens c tid ad = (Inr (proof, turn, item), ad')" and n: "n < 20"
  shows "(\<exists>ad1. history_tries n E sent reads tokens c tid ad1 = (Inr (proof, turn, item), ad'))
    \<or> (\<exists>response. found_by E reads tokens c tid ad' proof turn item (19 - n) response)"
proof -
  define k where "k = 19 - n"
  define request where "request = history_request tid (20 + int k)"
  note step = run [unfolded history_tries.simps Let_def k_def [symmetric] request_def [symmetric]]
  obtain response where asked: "andThen (sent k) (\<lambda>_. andThen (wait_for_id (20 + int k) [] (reads k)) (\<lambda>(response, _).
      ensure (\<not> has_key response ''error'') (entry_error ''history_read_rejected'') (Inr response))) = Inr response"
    using step by (auto split: sum.splits)
  then obtain ps where answer: "wait_for_id (20 + int k) [] (reads k) = Inr (response, ps)" "\<not> has_key response ''error''"
    by (auto simp: ensure_def split: if_splits)
  obtain q ad1 where audit: "audit_history E c [JObj [(''request'', request), (''response'', JObj response)]] [] (tokens k) ad = (q, ad1)" by fastforce
  note step = step [unfolded asked sum.case audit prod.case]
  show ?thesis
  proof (cases q)
    case (Inl e)
    then show ?thesis using step by (auto split: if_splits)
  next
    case (Inr p)
    note step = step [unfolded Inr sum.case]
    show ?thesis
    proof (cases "andThen (parsed_object E (ca_native_envelope_bytes c)) (\<lambda>envelope. history_markers E (JObj envelope) tid response)")
      case (Inl e)
      then show ?thesis using step by simp
    next
      case marks: (Inr ms)
      then obtain envelope where env: "parsed_object E (ca_native_envelope_bytes c) = Inr envelope"
        and hm: "history_markers E (JObj envelope) tid response = Inr ms" by auto
      show ?thesis
      proof (cases "ms = [] \<and> 0 < n")
        case True
        then show ?thesis using step marks by auto
      next
        case False
        then have one: "length ms = 1" and res: "(proof, turn, item) = (p, hd ms)" "ad' = ad1"
          using step marks by (auto simp: ensure_def split: if_splits)
        then have "ms = [(turn, item)]" by (cases ms) auto
        with history_markers_list [OF hm] env answer wait_for_id_answer [OF answer(1)] audit_proof [OF audit [unfolded Inr]] res
        have "found_by E reads tokens c tid ad' proof turn item k response" by (auto simp: found_by_def request_def)
        then show ?thesis unfolding k_def by blast
      qed
    qed
  qed
qed

lemma history_tries_found:
  "history_tries n E sent reads tokens c tid ad = (Inr (proof, turn, item), ad') \<Longrightarrow> n \<le> 20
    \<Longrightarrow> \<exists>k response. k < 20 \<and> found_by E reads tokens c tid ad' proof turn item k response"
proof (induction n arbitrary: ad)
  case (Suc n)
  from history_step [OF Suc.prems(1)] Suc.prems(2) have "(\<exists>ad1. history_tries n E sent reads tokens c tid ad1 = (Inr (proof, turn, item), ad'))
    \<or> (\<exists>response. found_by E reads tokens c tid ad' proof turn item (19 - n) response)" by simp
  moreover have "19 - n < 20" "n \<le> 20" using Suc.prems(2) by simp_all
  ultimately show ?case using Suc.IH by blast
qed simp

section \<open>A sample\<close>

definition history_capability :: capability where
  "history_capability = \<lparr>ca_binding = \<lparr>bd_profile_id = ''p'', bd_owner_thread_id = ''owner'', bd_owner_epoch = JInt 3, bd_nonce = ''n'', bd_revision = 1\<rparr>,
     ca_task_dir = ''/t'', ca_go_intent_bytes = [], ca_native_envelope_bytes = ''envelope'', ca_go_intent_sha256 = [], ca_native_envelope_sha256 = [],
     ca_claim_sha256 = [], ca_id = ''c'', ca_send_disabled = False, ca_external_claim = True\<rparr>"

definition history_adapter :: adapter where
  "history_adapter = \<lparr>ad_go_binary = None, ad_owner_context = None, ad_capabilities = [(''c'', history_capability)], ad_proofs = [], ad_sent = []\<rparr>"

definition history_answer :: "int \<Rightarrow> json list \<Rightarrow> jdict" where
  "history_answer rid items = [(''id'', JInt rid), (''result'', JObj [(''thread'', JObj [(''id'', JStr ''owner''),
     (''turns'', JArr [JObj [(''id'', JStr ''turn-1''), (''status'', JStr ''completed''), (''items'', JArr items)]])])])]"

text \<open>The first read comes too early.\<close>

definition history_reads :: "nat \<Rightarrow> jdict result list" where
  "history_reads k = [Inr [(''method'', JStr ''turn/started'')], Inr (history_answer (20 + int k) (if k = 0 then [] else [sample_item]))]"

lemma sample_history:
  "succeeds (fst (exact_history sample_platform (\<lambda>_. Inr ()) history_reads (\<lambda>_. ''proof'') history_capability ''owner'' history_adapter))"
  by code_simp

text \<open>
  C9. The proof of an arrival is exact: when \<open>exact_history\<close> gives a proof, a turn and an item, one of at most
  twenty reads was answered without an error with the thread of the owner, that thread shows exactly
  one completed item of the orchestration whose output is the envelope of the capability, the turn and
  the item are those of that item, and the proof is registered in
  the adapter under the token of this read, names this capability, and was made over precisely this request
  and this response for precisely the events of that envelope.\<close>

theorem exact_history_is_unique:
  assumes "exact_history E sent reads tokens c tid ad = (Inr (proof, turn, item), ad')"
  shows "\<exists>k response envelope. k < 20 \<and> Inr response \<in> set (reads k) \<and> py_eq (dget response ''id'') (JInt (20 + int k))
    \<and> \<not> has_key response ''error'' \<and> dget (shown_thread response) ''id'' = JStr tid
    \<and> parsed_object E (ca_native_envelope_bytes c) = Inr envelope
    \<and> marker_list E (JObj envelope) (arr_of (dget (shown_thread response) ''turns'')) = [(turn, item)]
    \<and> map_of (ad_proofs ad') (tokens k) = Some proof \<and> hp_capability_id proof = ca_id c \<and> hp_id proof = tokens k
    \<and> hp_native_envelope_bytes proof = canonical E (JObj envelope)
    \<and> hp_matched_event_ids proof = map (\<lambda>e. str_of (dget (obj_of e) ''event_id'')) (arr_of (dget envelope ''events''))
    \<and> hp_reads_sha256 proof = p_sha256 E (canonical E (JArr
         [JObj [(''request'', history_request tid (20 + int k)), (''response'', JObj response)]]))"
  using history_tries_found [OF assms [unfolded exact_history_def] order_refl] unfolding found_by_def by blast

theorem exact_history_is_unique_witness:
  "\<exists>turn item response. marker_list sample_platform (JObj sample_intent) (arr_of (dget (shown_thread response) ''turns'')) = [(turn, item)]"
proof -
  obtain r ad' where run: "exact_history sample_platform (\<lambda>_. Inr ()) history_reads (\<lambda>_. ''proof'') history_capability ''owner'' history_adapter = (r, ad')"
    by fastforce
  with sample_history obtain pf turn item where "r = Inr (pf, turn, item)" unfolding succeeds_iff by auto
  from exact_history_is_unique [OF run [unfolded this]]
  have "\<exists>response envelope. parsed_object sample_platform ''envelope'' = Inr envelope
      \<and> marker_list sample_platform (JObj envelope) (arr_of (dget (shown_thread response) ''turns'')) = [(turn, item)]"
    by (auto simp: history_capability_def)
  moreover have "parsed_object sample_platform ''envelope'' = Inr sample_intent" by code_simp
  ultimately show ?thesis by auto
qed

end
