(* ===== verification/DriverMachine.thy ===== *)
theory DriverMachine
  imports BridgeDriver
begin

text \<open>
  One delivery as the driver and the helper of the product bridge carry it out, stage by stage, and all
  processes that share a ledger. The operations of the ledger, of the adapter and of the client are
  those of \<open>Ledger\<close>, \<open>DeliveryAdapter\<close> and \<open>ControlPlane\<close>.
\<close>

section \<open>A process\<close>

record session =
  ss_helper :: bool
  ss_attachment :: owner_attachment
  ss_task :: string
  ss_bridge_root :: string
  ss_client :: client
  ss_control_file :: string

datatype stage =
    Starting
  | Ready "json list"
  | Prepared delivery_batch adapter
  | Marked delivery_batch adapter
  | Attached delivery_batch adapter capability
  | Sent delivery_batch adapter capability json
  | Hanging delivery_batch
  | Stale delivery_batch adapter
  | Recovered delivery_batch adapter
  | Reading delivery_batch adapter capability
  | Found delivery_batch string json json
  | Checked delivery_batch string json json
  | Confirmed delivery_batch json
  | Decided delivery_batch json
  | Replaying delivery_batch
  | Requested delivery_batch string
  | Acked delivery_batch
  | Failing delivery_batch exn
  | Unsettled delivery_batch exn
  | Ended "exn option"

text \<open>An exception after a batch was claimed: the helper still looks at the batch, the driver ends.\<close>

definition raised :: "session \<Rightarrow> delivery_batch \<Rightarrow> exn \<Rightarrow> stage" where
  "raised S b e = (if ss_helper S then Failing b e else Ended (Some e))"

definition batch_path :: "session \<Rightarrow> delivery_batch \<Rightarrow> string" where
  "batch_path S b = ss_bridge_root S @ ''/'' @ bt_delivery_id b"

definition batch_dir_of :: "store \<Rightarrow> delivery_batch \<Rightarrow> dir option" where
  "batch_dir_of s b = (case map_of s (bt_delivery_id b) of Some (EDir d) \<Rightarrow> Some d | _ \<Rightarrow> None)"

definition binding_of :: "session \<Rightarrow> delivery_batch \<Rightarrow> binding" where
  "binding_of S b = owner_bd (ss_attachment S) (bt_delivery_id b)"

definition thread_of :: "session \<Rightarrow> string" where
  "thread_of S = oa_controller_thread_id (ss_attachment S)"

section \<open>Claiming\<close>

text \<open>
  The helper takes up a confirmed delivery of its task, if there is one; otherwise it collects events and
  takes eight at most.
\<close>

definition helper_start :: "platform \<Rightarrow> session \<Rightarrow> json list result \<Rightarrow> store \<Rightarrow> stage" where
  "helper_start E S fetched s =
    (case open_batches E (JStr (thread_of S)) (JStr (ss_task S)) s of
       Inl e \<Rightarrow> Ended (Some e)
     | Inr batches \<Rightarrow>
        (case filter (\<lambda>b. bt_status b = ''history_confirmed'') batches of
           [] \<Rightarrow> (case fetched of
               Inl e \<Rightarrow> Ended (Some e)
             | Inr events \<Rightarrow> if events = [] then Ended (Some (entry_error ''no_pending_events'')) else Ready (take 8 events))
         | [b] \<Rightarrow> if (case batch_dir_of s b of Some d \<Rightarrow> file_exists d ack_request_file | None \<Rightarrow> False) then Replaying b
             else Confirmed b (bt_proof b)
         | _ \<Rightarrow> Ended (Some (entry_error ''open_delivery_ambiguous''))))"

definition after_prepare :: "session \<Rightarrow> delivery_batch result \<Rightarrow> stage" where
  "after_prepare S r = (case r of
      Inl e \<Rightarrow> Ended (Some e)
    | Inr b \<Rightarrow> (case for_external (JStr (oa_owner_context_sha256 (ss_attachment S))) of
          Inl e \<Rightarrow> raised S b e
        | Inr ad \<Rightarrow> if \<not> ss_helper S \<or> bt_status b = ''pending'' then Prepared b ad
            else if bt_status b = ''sending'' then Stale b ad else Recovered b ad))"

section \<open>Sending\<close>

definition after_mark :: "session \<Rightarrow> delivery_batch \<Rightarrow> adapter \<Rightarrow> delivery_batch result \<Rightarrow> stage" where
  "after_mark S b ad r = (case r of Inl e \<Rightarrow> raised S b e | Inr b' \<Rightarrow> Marked b' ad)"

definition after_attach :: "platform \<Rightarrow> session \<Rightarrow> string \<Rightarrow> delivery_batch \<Rightarrow> adapter \<Rightarrow> store \<Rightarrow> stage" where
  "after_attach E S token b ad s =
    (case attach_external_claim E (binding_of S b) (batch_path S b) (batch_dir_of s b) token ad of
       (Inl e, _) \<Rightarrow> raised S b e
     | (Inr c, ad') \<Rightarrow> Attached b ad' c)"

definition subscript :: "json \<Rightarrow> string \<Rightarrow> json result" where
  "subscript v k = (case v of JObj d \<Rightarrow> dreq d k | _ \<Rightarrow> type_error)"

text \<open>The turn that the one response names.\<close>

definition native_turn :: "jdict list \<Rightarrow> json result" where
  "native_turn packets =
    (let receipts = filter (\<lambda>p. py_eq (dget p ''id'') (JInt 2)) packets in
     ensure (length receipts = 1 \<and> \<not> has_key (hd receipts) ''error'') (entry_error ''transport_receipt'')
    (andThen (dreq (hd receipts) ''result'') (\<lambda>result.
     andThen (subscript result ''turn'') (\<lambda>turn. subscript turn ''id''))))"

text \<open>
  The one send: the next stage, and the envelope that was handed to the connection, if any. A process
  whose connection never answers hangs, until it is cancelled or ends.
\<close>

definition do_send :: "platform \<Rightarrow> go_host \<Rightarrow> session \<Rightarrow> (json \<Rightarrow> unit result) \<Rightarrow> jdict result list \<Rightarrow> delivery_batch \<Rightarrow> adapter \<Rightarrow> capability
    \<Rightarrow> store \<Rightarrow> stage \<times> jdict option" where
  "do_send E G S written reads b ad c s =
    (case send_tool_output_once E G (JInt 2) (JBool False) c written reads ad
        (case batch_dir_of s b of Some d \<Rightarrow> d | None \<Rightarrow> new_dir E) of
       (None, w, _) \<Rightarrow> (Hanging b, w)
     | (Some (Inl e), w, _) \<Rightarrow> (raised S b e, w)
     | (Some (Inr packets), w, ad', _) \<Rightarrow>
         ((case native_turn packets of Inl e \<Rightarrow> raised S b e | Inr turn \<Rightarrow> Sent b ad' c turn), w))"

definition after_accept :: "session \<Rightarrow> delivery_batch \<Rightarrow> adapter \<Rightarrow> capability \<Rightarrow> delivery_batch result \<Rightarrow> stage" where
  "after_accept S b ad c r = (case r of Inl e \<Rightarrow> raised S b e | Inr b' \<Rightarrow> Reading b' ad c)"

text \<open>The helper, when the batch was claimed before: nothing is sent again.\<close>

definition after_stale :: "session \<Rightarrow> delivery_batch \<Rightarrow> adapter \<Rightarrow> delivery_batch result \<Rightarrow> stage" where
  "after_stale S b ad r = (case r of Inl e \<Rightarrow> raised S b e | Inr b' \<Rightarrow> Recovered b' ad)"

definition after_reconcile :: "platform \<Rightarrow> session \<Rightarrow> string \<Rightarrow> delivery_batch \<Rightarrow> adapter \<Rightarrow> store \<Rightarrow> stage" where
  "after_reconcile E S token b ad s =
    (case reconcile_external_claim E (binding_of S b) (batch_path S b) (batch_dir_of s b) token ad of
       (Inl e, _) \<Rightarrow> raised S b e
     | (Inr c, ad') \<Rightarrow> Reading b ad' c)"

section \<open>The proof\<close>

definition after_history :: "platform \<Rightarrow> session \<Rightarrow> (nat \<Rightarrow> unit result) \<Rightarrow> (nat \<Rightarrow> jdict result list) \<Rightarrow> (nat \<Rightarrow> string)
    \<Rightarrow> delivery_batch \<Rightarrow> adapter \<Rightarrow> capability \<Rightarrow> stage" where
  "after_history E S sent reads tokens b ad c =
    (case andThen (fst (exact_history E sent reads tokens c (thread_of S) ad)) (\<lambda>(proof, turn, item).
        andThen (proof_digest E proof) (\<lambda>h. Inr (h, turn, item))) of
       Inl e \<Rightarrow> raised S b e
     | Inr (h, turn, item) \<Rightarrow> Found b h turn item)"

text \<open>The first half of \<open>confirm_history\<close>, under the lock; \<open>record_history\<close> is the second.\<close>

definition history_check :: "platform \<Rightarrow> string \<Rightarrow> json \<Rightarrow> json \<Rightarrow> json \<Rightarrow> store \<Rightarrow> unit result" where
  "history_check E i evidence turn item s =
     ensure (bridge_hash evidence \<and> bridge_safe turn \<and> bridge_safe item) (bridge_error ''history_proof'')
    (andThen (load_unlocked E i s) (\<lambda>b.
     ensure (bt_turn b = JNull \<or> py_eq (bt_turn b) turn) (bridge_error ''native_turn_changed'') (Inr ())))"

lemma confirm_history_halves:
  "confirm_history E flt i evidence turn item s = (case history_check E i evidence turn item s of
      Inl e \<Rightarrow> (Inl e, s) | Inr _ \<Rightarrow> record_history E flt i evidence turn item s)"
  unfolding confirm_history_def history_check_def ensure_def andThen_def by (simp split: sum.splits)

definition after_check :: "session \<Rightarrow> delivery_batch \<Rightarrow> string \<Rightarrow> json \<Rightarrow> json \<Rightarrow> unit result \<Rightarrow> stage" where
  "after_check S b h turn item r = (case r of Inl e \<Rightarrow> raised S b e | Inr _ \<Rightarrow> Checked b h turn item)"

definition after_confirm :: "session \<Rightarrow> delivery_batch \<Rightarrow> string \<Rightarrow> delivery_batch result \<Rightarrow> stage" where
  "after_confirm S b h r = (case r of Inl e \<Rightarrow> raised S b e | Inr b' \<Rightarrow> Confirmed b' (JStr h))"

section \<open>The decision\<close>

text \<open>The driver reads the decision from a file, the helper from its controller.\<close>

definition decision_ok :: "session \<Rightarrow> delivery_batch \<Rightarrow> json \<Rightarrow> jdict \<Rightarrow> bool" where
  "decision_ok S b h d =
    (keys_exact d ((if ss_helper S then [] else [''version'']) @ [''action'', ''delivery_id'', ''history_proof_sha256'', ''decisions''])
     \<and> (ss_helper S \<or> py_eq (dget d ''version'') (JInt 1)) \<and> dget d ''action'' = JStr ''decide''
     \<and> dget d ''delivery_id'' = JStr (bt_delivery_id b) \<and> py_eq (dget d ''history_proof_sha256'') h)"

definition after_decision :: "session \<Rightarrow> delivery_batch \<Rightarrow> json \<Rightarrow> jdict result \<Rightarrow> stage" where
  "after_decision S b h r =
    (case andThen r (\<lambda>d. ensure (decision_ok S b h d)
        (entry_error (if ss_helper S then ''decision_binding'' else ''driver_decision'')) (Inr (dget d ''decisions''))) of
       Inl e \<Rightarrow> raised S b e
     | Inr decisions \<Rightarrow> Decided b decisions)"

text \<open>
  \<open>client.ack\<close> and \<open>client.replay_ack\<close> write into the directory of the batch, which nobody else changes
  meanwhile.
\<close>

definition put_dir :: "delivery_batch \<Rightarrow> dir \<Rightarrow> store \<Rightarrow> store" where
  "put_dir b d s = dict_set (bt_delivery_id b) (EDir d) s"

definition in_batch_dir :: "session \<Rightarrow> delivery_batch \<Rightarrow> (dir \<Rightarrow> string result \<times> dir) \<Rightarrow> store \<Rightarrow> stage \<times> store" where
  "in_batch_dir S b f s = (case batch_dir_of s b of
      None \<Rightarrow> (raised S b (bridge_error ''ledger_write''), s)
    | Some d \<Rightarrow> (case f d of
        (Inl e, d') \<Rightarrow> (raised S b e, put_dir b d' s)
      | (Inr h, d') \<Rightarrow> (Requested b h, put_dir b d' s)))"

definition do_ack :: "platform \<Rightarrow> host \<Rightarrow> session \<Rightarrow> delivery_batch \<Rightarrow> json \<Rightarrow> store \<Rightarrow> stage \<times> store" where
  "do_ack E K S b decisions s =
     in_batch_dir S b (\<lambda>d. ack E K (ss_client S) (batch_path S b) b decisions (ss_control_file S) d) s"

definition do_replay :: "platform \<Rightarrow> host \<Rightarrow> session \<Rightarrow> delivery_batch \<Rightarrow> store \<Rightarrow> stage \<times> store" where
  "do_replay E K S b s = in_batch_dir S b (replay_ack E K (ss_client S) (batch_path S b) b) s"

definition after_acked :: "session \<Rightarrow> delivery_batch \<Rightarrow> delivery_batch result \<Rightarrow> stage" where
  "after_acked S b r = (case r of Inl e \<Rightarrow> raised S b e | Inr b' \<Rightarrow> if ss_helper S then Ended None else Acked b')"

section \<open>Failing\<close>

text \<open>The handler of the helper: a batch that may have been sent becomes uncertain; its own errors are swallowed.\<close>

definition after_load :: "delivery_batch \<Rightarrow> exn \<Rightarrow> delivery_batch result \<Rightarrow> stage" where
  "after_load b e r = (case r of
      Inl _ \<Rightarrow> Ended (Some e)
    | Inr b' \<Rightarrow> if bt_status b' \<in> {''sending'', ''transport_accepted''} then Unsettled b e else Ended (Some e))"

text \<open>What the driver writes to its status file when it fails, if it has written one before.\<close>

definition failure_status :: "jdict \<Rightarrow> exn \<Rightarrow> jdict" where
  "failure_status base e =
    (if exn_code e = ''owner_detached'' then dict_set ''status'' (JStr ''owner_detached'') base
     else dict_set ''error'' (JStr (if id_string (exn_code e) then exn_code e else ''driver_failed''))
       (dict_set ''status'' (JStr ''failed'') base))"

text \<open>The batch that the handler of the helper finds, if any.\<close>

definition claimed_batch :: "stage \<Rightarrow> delivery_batch option" where
  "claimed_batch g = (case g of
      Prepared b _ \<Rightarrow> Some b | Marked b _ \<Rightarrow> Some b | Attached b _ _ \<Rightarrow> Some b | Sent b _ _ _ \<Rightarrow> Some b | Hanging b \<Rightarrow> Some b | Stale b _ \<Rightarrow> Some b
    | Recovered b _ \<Rightarrow> Some b | Reading b _ _ \<Rightarrow> Some b | Found b _ _ _ \<Rightarrow> Some b | Checked b _ _ _ \<Rightarrow> Some b | Confirmed b _ \<Rightarrow> Some b
    | Decided b _ \<Rightarrow> Some b | Replaying b \<Rightarrow> Some b | Requested b _ \<Rightarrow> Some b | _ \<Rightarrow> None)"

section \<open>All processes\<close>

text \<open>
  The ledger, the stage of every process and the envelopes that were handed to a connection so far.
\<close>

record world =
  wo_ledger :: ledger
  wo_stage :: "nat \<Rightarrow> stage"
  wo_wire :: "jdict list"

definition move_to :: "nat \<Rightarrow> stage \<Rightarrow> world \<Rightarrow> world" where
  "move_to n g w = w\<lparr>wo_stage := (wo_stage w)(n := g)\<rparr>"

definition wire_entry :: "jdict option \<Rightarrow> jdict list" where
  "wire_entry x = (case x of None \<Rightarrow> [] | Some v \<Rightarrow> [v])"

inductive world_step :: "platform \<Rightarrow> go_host \<Rightarrow> (nat \<Rightarrow> session) \<Rightarrow> world \<Rightarrow> world \<Rightarrow> bool" for E G S where
  others: "ledger_step E (wo_ledger w) lg \<Longrightarrow> world_step E G S w (w\<lparr>wo_ledger := lg\<rparr>)"
| gone: "world_step E G S w (move_to n (Ended e) w)"
| abort: "claimed_batch (wo_stage w n) = Some b \<Longrightarrow> ss_helper (S n) \<Longrightarrow> world_step E G S w (move_to n (Failing b e) w)"
| events: "wo_stage w n = Starting \<or> wo_stage w n = Acked b \<Longrightarrow> \<not> ss_helper (S n) \<Longrightarrow>
    wait_actionable_events E (ss_attachment (S n)) polls = Some (Inr (status, events, cursor)) \<Longrightarrow>
    world_step E G S w (move_to n (Ready events) w)"
| start: "wo_stage w n = Starting \<Longrightarrow> ss_helper (S n) \<Longrightarrow> ledger_locked E (\<lambda>s. (Inr (helper_start E (S n) fetched s), s)) (wo_ledger w) = (Inr g, lg) \<Longrightarrow>
    world_step E G S w (move_to n g (w\<lparr>wo_ledger := lg\<rparr>))"
| prepare: "wo_stage w n = Ready events \<Longrightarrow> attachment_ok E (ss_attachment (S n)) \<Longrightarrow>
    prepare_and_claim E flt killed (ss_attachment (S n)) (ss_task (S n)) events (wo_ledger w) = (r, lg) \<Longrightarrow>
    world_step E G S w (move_to n (after_prepare (S n) r) (w\<lparr>wo_ledger := lg\<rparr>))"
| mark: "wo_stage w n = Prepared b ad \<Longrightarrow> ledger_locked E (mark_sending (at_pid p E) flt (bt_delivery_id b)) (wo_ledger w) = (r, lg) \<Longrightarrow>
    world_step E G S w (move_to n (after_mark (S n) b ad r) (w\<lparr>wo_ledger := lg\<rparr>))"
| attach: "wo_stage w n = Marked b ad \<Longrightarrow>
    world_step E G S w (move_to n (after_attach E (S n) token b ad (lg_store (wo_ledger w))) w)"
| send: "wo_stage w n = Attached b ad c \<Longrightarrow> do_send E G (S n) written reads b ad c (lg_store (wo_ledger w)) = (g, x) \<Longrightarrow>
    world_step E G S w (move_to n g (w\<lparr>wo_wire := wo_wire w @ wire_entry x\<rparr>))"
| accept: "wo_stage w n = Sent b ad c turn \<Longrightarrow>
    ledger_locked E (mark_transport_accepted (at_pid p E) flt (bt_delivery_id b) turn) (wo_ledger w) = (r, lg) \<Longrightarrow>
    world_step E G S w (move_to n (after_accept (S n) b ad c r) (w\<lparr>wo_ledger := lg\<rparr>))"
| stale: "wo_stage w n = Stale b ad \<Longrightarrow>
    ledger_locked E (mark_uncertain (at_pid p E) flt (bt_delivery_id b) (JStr ''recovered_sending'')) (wo_ledger w) = (r, lg) \<Longrightarrow>
    world_step E G S w (move_to n (after_stale (S n) b ad r) (w\<lparr>wo_ledger := lg\<rparr>))"
| reconcile: "wo_stage w n = Recovered b ad \<Longrightarrow>
    world_step E G S w (move_to n (after_reconcile E (S n) token b ad (lg_store (wo_ledger w))) w)"
| history: "wo_stage w n = Reading b ad c \<Longrightarrow>
    world_step E G S w (move_to n (after_history E (S n) sent reads tokens b ad c) w)"
| check: "wo_stage w n = Found b h turn item \<Longrightarrow>
    ledger_locked E (\<lambda>s. (history_check E (bt_delivery_id b) (JStr h) turn item s, s)) (wo_ledger w) = (r, lg) \<Longrightarrow>
    world_step E G S w (move_to n (after_check (S n) b h turn item r) (w\<lparr>wo_ledger := lg\<rparr>))"
| confirm: "wo_stage w n = Checked b h turn item \<Longrightarrow>
    ledger_locked E (record_history (at_pid p E) flt (bt_delivery_id b) (JStr h) turn item) (wo_ledger w) = (r, lg) \<Longrightarrow>
    world_step E G S w (move_to n (after_confirm (S n) b h r) (w\<lparr>wo_ledger := lg\<rparr>))"
| decide: "wo_stage w n = Confirmed b h \<Longrightarrow>
    world_step E G S w (move_to n (after_decision (S n) b h r) w)"
| ack: "wo_stage w n = Decided b decisions \<Longrightarrow> do_ack E K (S n) b decisions (lg_store (wo_ledger w)) = (g, s) \<Longrightarrow>
    world_step E G S w (move_to n g (w\<lparr>wo_ledger := (wo_ledger w)\<lparr>lg_store := s\<rparr>\<rparr>))"
| replay: "wo_stage w n = Replaying b \<Longrightarrow> do_replay E K (S n) b (lg_store (wo_ledger w)) = (g, s) \<Longrightarrow>
    world_step E G S w (move_to n g (w\<lparr>wo_ledger := (wo_ledger w)\<lparr>lg_store := s\<rparr>\<rparr>))"
| acked: "wo_stage w n = Requested b h \<Longrightarrow>
    ledger_locked E (mark_controller_acked (at_pid p E) flt (bt_delivery_id b) (JStr h)) (wo_ledger w) = (r, lg) \<Longrightarrow>
    world_step E G S w (move_to n (after_acked (S n) b r) (w\<lparr>wo_ledger := lg\<rparr>))"
| load: "wo_stage w n = Failing b e \<Longrightarrow> ledger_locked E (\<lambda>s. (load_unlocked E (bt_delivery_id b) s, s)) (wo_ledger w) = (r, lg) \<Longrightarrow>
    world_step E G S w (move_to n (after_load b e r) (w\<lparr>wo_ledger := lg\<rparr>))"
| unsettled: "wo_stage w n = Unsettled b e \<Longrightarrow>
    ledger_locked E (mark_uncertain (at_pid p E) flt (bt_delivery_id b) (JStr ''helper_failure'')) (wo_ledger w) = (r, lg) \<Longrightarrow>
    world_step E G S w (move_to n (Ended (Some e)) (w\<lparr>wo_ledger := lg\<rparr>))"

definition fresh_world :: world where
  "fresh_world = \<lparr>wo_ledger = fresh_ledger, wo_stage = (\<lambda>_. Starting), wo_wire = []\<rparr>"

end
