(* ===== verification/DriverProps.thy ===== *)
theory DriverProps
  imports DriverMachine
begin

text \<open>
  Whatever the processes that share a ledger do, and wherever they fail or end, a delivery is handed to a
  connection at most once in the life of the ledger.
\<close>

section \<open>Left the pending state\<close>

definition past_pending :: "string \<Rightarrow> (string \<Rightarrow> slot_view option) \<Rightarrow> bool" where
  "past_pending i m = (case m i of None \<Rightarrow> False | Some Unreadable \<Rightarrow> True | Some (Holds b) \<Rightarrow> bt_status b \<noteq> ''pending'')"

lemma move_past_pending: "batch_move m m' \<Longrightarrow> past_pending i m \<Longrightarrow> past_pending i m'"
  by (induction rule: batch_move.induct) (auto simp: past_pending_def may_follow_def)

text \<open>Files beside those of the ledger do not matter.\<close>

definition beside :: "dir \<Rightarrow> dir \<Rightarrow> bool" where
  "beside d d' = (dr_stat d' = dr_stat d
     \<and> (\<forall>n. n \<notin> {ack_request_file, ack_receipt_file} \<longrightarrow> map_of (dr_files d') n = map_of (dr_files d) n))"

lemma beside_refl [simp]: "beside d d"
  by (simp add: beside_def)

lemma beside_trans: "beside d d1 \<Longrightarrow> beside d1 d2 \<Longrightarrow> beside d d2"
  by (simp add: beside_def)

lemma write_once_beside: "write_once E name v code d = (r, d') \<Longrightarrow> name \<in> {ack_request_file, ack_receipt_file} \<Longrightarrow> beside d d'"
  by (auto simp: write_once_def write_exclusive_def beside_def split: if_splits sum.splits)

lemma send_ack_beside: "send_ack_request E K c base b d = (r, d') \<Longrightarrow> beside d d'"
  by (auto simp: send_ack_request_def split: sum.splits prod.splits dest!: write_once_beside)

lemma ack_beside:
  assumes "ack E K c base b decisions control d = (r, d')"
  shows "beside d d'"
proof (cases "build_ack_request E K b decisions control")
  case (Inl e)
  then show ?thesis using assms by (simp add: ack_def)
next
  case (Inr request)
  obtain q d1 where w: "write_once E ack_request_file request ''controller_ack_conflict'' d = (q, d1)" by fastforce
  then have "beside d d1" by (rule write_once_beside) simp
  then show ?thesis using assms Inr w send_ack_beside beside_trans by (auto simp: ack_def split: sum.splits)
qed

lemma replay_beside: "replay_ack E K c base b d = (r, d') \<Longrightarrow> beside d d'"
  by (auto simp: replay_ack_def split: sum.splits dest: send_ack_beside)

lemma beside_json: "beside d d' \<Longrightarrow> n \<notin> {ack_request_file, ack_receipt_file} \<Longrightarrow> stable_json E d' n = stable_json E d n"
  by (rule stable_json_other) (simp add: beside_def)

lemma beside_load:
  assumes "beside d d'"
  shows "load_dir E i d' = load_dir E i d"
proof (rule load_dir_cong)
  show "dr_stat d' = dr_stat d" using assms unfolding beside_def by (rule conjunct1)
  fix n
  assume "n \<in> {intent_file, claim_file, status_file, source_file, attachment_file}"
  then have "n \<notin> {ack_request_file, ack_receipt_file}"
    by (auto simp: ledger_file_defs ack_request_file_def ack_receipt_file_def)
  then show "map_of (dr_files d') n = map_of (dr_files d) n" using assms unfolding beside_def by blast
qed

lemma put_dir_view:
  assumes "batch_dir_of s b = Some d" "beside d d'" "flat_status E s"
  shows "flat_status E (put_dir b d' s)" "view E (put_dir b d' s) = view E s"
proof -
  have d: "map_of s (bt_delivery_id b) = Some (EDir d)" using assms(1) by (auto simp: batch_dir_of_def split: option.splits entry.splits)
  have m: "map_of (put_dir b d' s) = (map_of s)(bt_delivery_id b \<mapsto> EDir d')" by (simp add: put_dir_def)
  have "stable_json E d' status_file = stable_json E d status_file"
    using assms(2) by (rule beside_json) (simp add: ledger_file_defs ack_request_file_def ack_receipt_file_def)
  then show "flat_status E (put_dir b d' s)" using assms(3) d m unfolding flat_status_def by (metis (no_types, lifting) entry.inject(1) fun_upd_apply option.inject)
  show "view E (put_dir b d' s) = view E s"
    using d m beside_load [OF assms(2)] by (auto simp: view_def dir_view_def fun_eq_iff)
qed

lemma in_batch_dir_view:
  assumes "in_batch_dir S b f s = (g, s')" "\<And>d r d'. f d = (r, d') \<Longrightarrow> beside d d'" "flat_status E s"
  shows "flat_status E s' \<and> view E s' = view E s"
proof (cases "batch_dir_of s b")
  case None
  then show ?thesis using assms by (simp add: in_batch_dir_def)
next
  case (Some d)
  obtain r d' where f: "f d = (r, d')" by (cases "f d")
  then have "s' = put_dir b d' s" using assms(1) Some by (auto simp: in_batch_dir_def split: sum.splits)
  then show ?thesis using put_dir_view [OF Some assms(2) [OF f] assms(3)] by simp
qed

section \<open>Marking\<close>

context json_codec
begin

lemma mark_sending_done:
  assumes run: "mark_sending (at_pid p E) flt i s = (Inr b', s')" and sound: "flat_status E s"
  shows "bt_delivery_id b' = i \<and> \<not> past_pending i (view E s) \<and> past_pending i (view E s')"
proof -
  let ?extra = "[(''transport_status'', JStr ''ready'')]"
  obtain b d cur where b: "load_unlocked E i s = Inr b" "bt_status b = ''pending''" and d: "map_of s i = Some (EDir d)"
    and cur: "stable_json E d status_file = Inr cur"
    and ops: "run_ops (at_pid p E) flt (transition_ops (at_pid p E) i (updated_status cur ''sending'' ?extra)) s = (Inr (), s')"
    and ld': "load_unlocked E i s' = Inr b'"
    using run by (auto simp: mark_sending_def transition_def replace_status_def split: sum.splits option.splits entry.splits prod.splits if_splits)
  have rb: "view E s i = Some (Holds b)" using b(1) by (simp add: view_Holds)
  have name: "delivery_name i" and ld: "load_dir E i d = Inr b" using rb d by (auto simp: view_Some dir_view_Holds [symmetric])
  have fl: "flat (JObj cur)" using sound name d cur by (auto simp: flat_status_def)
  from run_transition [OF ops d] obtain d' where m: "map_of s' = (map_of s)(i \<mapsto> EDir d')"
    and pub: "published (at_pid p E) (JObj (updated_status cur ''sending'' ?extra)) d d'" by blast
  have "load_dir E i d' = Inr (moved ''sending'' ?extra b) \<or> (\<exists>e. load_dir E i d' = Inl e)"
    using published_load [OF pub _ _ ld cur fl conjunct1 [OF extra_fields(1)] conjunct2 [OF extra_fields(1)]] by (simp add: known_states_def slot_blocking_def split: if_splits)
  moreover have "load_dir E i d' = Inr b'" using ld' m name by (simp add: load_unlocked_def)
  ultimately have b': "b' = moved ''sending'' ?extra b" by simp
  have "view E s' i = Some (Holds b')" using ld' by (simp add: view_Holds)
  then show ?thesis using rb b(2) b' ld' load_dir_id [OF ld] by (simp add: past_pending_def moved_def)
qed

end

end
