(* ===== verification/DriverNames.thy ===== *)
theory DriverNames
  imports DriverProps
begin

text \<open>
  The status of a delivery names the delivery, whatever was done to the ledger; so what an adapter hands
  to a connection is an envelope of the delivery in whose directory it found the claim.
\<close>

section \<open>The status names its delivery\<close>

definition status_names :: "platform \<Rightarrow> store \<Rightarrow> bool" where
  "status_names E s = (\<forall>i d st. delivery_name i \<longrightarrow> map_of s i = Some (EDir d) \<longrightarrow> stable_json E d status_file = Inr st
     \<longrightarrow> dget st ''delivery_id'' = JStr i)"

lemma status_names_upd:
  assumes "status_names E s" and "map_of s' = (map_of s)(i \<mapsto> EDir d')"
    and "\<And>st. delivery_name i \<Longrightarrow> stable_json E d' status_file = Inr st \<Longrightarrow> dget st ''delivery_id'' = JStr i"
  shows "status_names E s'"
  using assms unfolding status_names_def by (metis entry.inject(1) fun_upd_apply option.inject)

text \<open>What a transition does to the store.\<close>

lemma transition_dirs:
  assumes "transition E flt i allowed st extra s = (r, s')"
  shows "s' = s \<or> (\<exists>b d d' cur. load_unlocked E i s = Inr b \<and> map_of s i = Some (EDir d) \<and> stable_json E d status_file = Inr cur
    \<and> map_of s' = (map_of s)(i \<mapsto> EDir d') \<and> (unpublished E d d' \<or> published E (JObj (updated_status cur st extra)) d d'))"
proof (cases "s' = s")
  case False
  then obtain b d cur r1 where b: "load_unlocked E i s = Inr b" and d: "map_of s i = Some (EDir d)"
    and cur: "stable_json E d status_file = Inr cur"
    and ops: "run_ops E flt (transition_ops E i (updated_status cur st extra)) s = (r1, s')"
    using assms
    by (auto simp: transition_def replace_status_def split: sum.splits option.splits entry.splits prod.splits if_splits)
  from run_transition [OF ops d] b d cur show ?thesis by blast
qed simp

context json_codec
begin

lemma transition_names:
  assumes run: "transition (at_pid p E) flt i allowed st extra s = (r, s')" and sound: "flat_status E s" "status_names E s"
    and extra: "new_fields extra \<and> fine_proof extra"
  shows "status_names E s'"
proof (cases "s' = s")
  case False
  with transition_dirs [OF run] obtain b d d' cur where b: "load_unlocked E i s = Inr b" and d: "map_of s i = Some (EDir d)"
    and cur: "stable_json E d status_file = Inr cur" and m: "map_of s' = (map_of s)(i \<mapsto> EDir d')"
    and c: "unpublished (at_pid p E) d d' \<or> published (at_pid p E) (JObj (updated_status cur st extra)) d d'" by auto
  have name: "delivery_name i" using b by (auto simp: load_unlocked_def)
  have old: "flat (JObj cur)" "dget cur ''delivery_id'' = JStr i"
    using sound name d cur unfolding flat_status_def status_names_def by blast+
  show ?thesis
  proof (rule status_names_upd [OF sound(2) m])
    fix nu
    assume nu: "stable_json E d' status_file = Inr nu"
    from c show "dget nu ''delivery_id'' = JStr i"
    proof
      assume u: "unpublished (at_pid p E) d d'"
      have "stable_json E d' status_file = stable_json E d status_file"
        by (rule stable_json_other) (use u in \<open>auto simp: unpublished_def status_stage_ne [symmetric]\<close>)
      then show ?thesis using nu cur old(2) by simp
    next
      assume pb: "published (at_pid p E) (JObj (updated_status cur st extra)) d d'"
      have fl: "flat (JObj (updated_status cur st extra))" using flat_updated [OF old(1)] extra by (simp add: new_fields_def)
      have "nu = obj_of (sort_keys (JObj (updated_status cur st extra)))"
        using published_status [OF pb fl] nu by (simp del: sort_keys.simps split: if_splits)
      moreover have "dget_or extra ''delivery_id'' v = v" for v
        by (rule dget_or_other) (use extra in \<open>auto simp: new_fields_def\<close>)
      ultimately show ?thesis using old(2) extra dget_flat_sorted [OF fl] by (simp add: dget_updated del: sort_keys.simps)
    qed
  qed
qed (use sound in simp)

lemma prepare_names:
  assumes run: "prepare_unlocked E flt killed a task_id native source s = (r, s')"
    and proj: "project_events E task_id events = Inr (native, source)" and sound: "status_names E s"
  shows "status_names E s'"
proof (cases "s' = s")
  case False
  define i where "i = batch_id E a task_id source"
  obtain r1 where st: "stage_batch E flt killed a task_id i native source s = (r1, s')"
    using run False by (auto simp: prepare_unlocked_def Let_def i_def split: if_splits sum.splits prod.splits)
  let ?d = "batch_dir E a task_id i (final_intent E a i native) source"
  have intent: "batch_intent E a i native = Inr (final_intent E a i native)" using projected_ok [OF proj] by (simp add: batch_intent_ok)
  note out = stage_batch_cases [OF st intent]
  have fl: "flat (JObj (initial_status a i))" by (simp add: flat_def initial_status_def)
  have "dget st ''delivery_id'' = JStr i" if "stable_json E ?d status_file = Inr st" for st
  proof -
    have "st = obj_of (sort_keys (JObj (initial_status a i)))"
      using that stable_json_reg [OF files_batch_dir(5) [of E a task_id i "final_intent E a i native" source]] flat_plain [OF fl]
      by (simp del: sort_keys.simps split: if_splits)
    then show ?thesis using dget_flat_sorted [OF fl] by (simp add: initial_status_def del: sort_keys.simps)
  qed
  moreover have hidden: "\<not> delivery_name (stage_name i)" using delivery_name_visible by fastforce
  moreover have "map_of s' j = map_of s j \<or> j = i \<and> map_of s' j = Some (EDir ?d)" if "delivery_name j" for j
    using out that hidden by (cases "j = i") (blast, metis)
  ultimately show ?thesis
    using sound unfolding status_names_def by fastforce
qed (use sound in simp)

lemma step_names:
  assumes "ledger_step E lg lg'" and "flat_status E (lg_store lg)" and "status_names E (lg_store lg)"
  shows "status_names E (lg_store lg')"
proof -
  have lift: ?thesis if "ledger_locked E f lg = (r, lg')" and "\<And>r s'. f (lg_store lg) = (r, s') \<Longrightarrow> status_names E s'"
    for f :: "store \<Rightarrow> delivery_batch result \<times> store" and r
    using ledger_locked_store [OF that(1)] that(2) assms(3) by auto
  note tn = transition_names [OF _ assms(2,3)]
  from assms(1) show ?thesis
  proof cases
    case (prepare a flt killed task_id events r)
    then show ?thesis
    proof (cases "project_events E task_id events")
      case (Inl e)
      then show ?thesis using prepare(2) assms(3) by (simp add: prepare_and_claim_def)
    next
      case (Inr ns)
      obtain native source where ns: "ns = (native, source)" by (cases ns)
      show ?thesis
        by (rule lift [of "prepare_unlocked E flt killed a task_id native source"])
           (use prepare Inr ns prepare_names assms(3) in \<open>auto simp: prepare_and_claim_def\<close>)
    qed
  next
    case (sending p flt i r)
    show ?thesis by (rule lift [OF sending], unfold mark_sending_def, erule tn [OF _ extra_fields(1)])
  next
    case (accepted p flt i turn r)
    show ?thesis
      by (rule lift [OF accepted]) (auto simp: mark_transport_accepted_def assms(3) split: if_splits elim: tn [OF _ extra_fields(2)])
  next
    case (uncertain p flt i reason r)
    show ?thesis
      by (rule lift [OF uncertain]) (auto simp: mark_uncertain_def assms(3) split: if_splits elim: tn [OF _ extra_fields(3)])
  next
    case (confirm evidence turn item p flt i r)
    show ?thesis by (rule lift [OF confirm(4)], unfold record_history_def, erule tn [OF _ extra_fields(4) [OF confirm(1-3)]])
  next
    case (acked p flt i ack r)
    show ?thesis
      by (rule lift [OF acked]) (auto simp: mark_controller_acked_def assms(3) split: if_splits elim: tn [OF _ extra_fields(5)])
  qed
qed

end

lemma put_dir_names:
  assumes "batch_dir_of s b = Some d" "beside d d'" "status_names E s"
  shows "status_names E (put_dir b d' s)"
proof -
  have d: "map_of s (bt_delivery_id b) = Some (EDir d)" using assms(1) by (auto simp: batch_dir_of_def split: option.splits entry.splits)
  have "stable_json E d' status_file = stable_json E d status_file"
    using assms(2) by (rule beside_json) (simp add: ledger_file_defs ack_request_file_def ack_receipt_file_def)
  then show ?thesis
    using assms(3) d by (intro status_names_upd [OF assms(3), of _ "bt_delivery_id b" d']) (auto simp: put_dir_def status_names_def)
qed

lemma in_batch_dir_names:
  assumes "in_batch_dir S b f s = (g, s')" "\<And>d r d'. f d = (r, d') \<Longrightarrow> beside d d'" "status_names E s"
  shows "status_names E s'"
proof (cases "batch_dir_of s b")
  case None
  then show ?thesis using assms by (simp add: in_batch_dir_def)
next
  case (Some d)
  obtain r d' where f: "f d = (r, d')" by (cases "f d")
  then have "s' = put_dir b d' s" using assms(1) Some by (auto simp: in_batch_dir_def split: sum.splits)
  then show ?thesis using put_dir_names [OF Some assms(2) [OF f] assms(3)] by simp
qed

section \<open>The envelope names its delivery\<close>

lemma artifact_is_stable:
  assumes "artifact_json E d n = Inr x"
  shows "stable_json E d n = Inr x"
  using assms
  by (auto simp: artifact_json_def stable_file_bytes_def stable_json_def stable_read_def loads_def except_as_def ensure_def andThen_def max_json_def
      split: option.splits fnode.splits if_splits sum.splits)

lemma external_status_id:
  assumes "external_status E ad c rec d = Inr status" and "parsed_object E (ca_native_envelope_bytes c) = Inr v"
    and "dget v ''delivery_id'' = JStr t"
  shows "artifact_json E d status_file = Inr status \<and> dget status ''delivery_id'' = JStr t"
  using assms unfolding external_status_def
  by (auto simp: dreq_def dget_def ensure_def andThen_def split: sum.splits if_splits option.splits)

lemma external_send_names:
  assumes send: "send_tool_output_once E G rid wait c written reads ad d = (r, Some v, ad', d')" and ext: "ca_external_claim c"
  shows "\<exists>st t. stable_json E d status_file = Inr st \<and> dget st ''delivery_id'' = JStr t \<and> dget v ''delivery_id'' = JStr t"
proof -
  obtain d1 a1 where req: "send_request E G rid wait c ad d = (Inr v, a1, d1)"
    using send by (auto simp: send_tool_output_once_def split: prod.splits sum.splits)
  from req obtain u where checks: "send_checks E rid wait c ad = Inr v" and cur: "claim_current E G ad c v d = (Inr u, d1)"
    and unsent: "unsent_check E c v ad = Inr ()"
    by (auto simp: send_request_def split: prod.splits sum.splits)
  have wire: "parsed_object E (ca_native_envelope_bytes c) = Inr v"
    using checks by (auto simp: send_checks_def ensure_def andThen_def split: sum.splits if_splits)
  have "is_str (dget v ''delivery_id'')"
    using unsent by (auto simp: unsent_check_def ensure_def andThen_def bridge_safe_def split: sum.splits if_splits)
  then obtain t where t: "dget v ''delivery_id'' = JStr t" by (cases "dget v ''delivery_id''") auto
  obtain status where "external_status E ad c False d = Inr status"
    using cur ext by (auto simp: claim_current_def andThen_def split: sum.splits)
  from external_status_id [OF this wire t] artifact_is_stable t show ?thesis by blast
qed

end
