(* ===== verification/DriverSafety.thy ===== *)
theory DriverSafety
  imports DriverNames
begin

text \<open>
  The invariant of all processes that share a ledger, and what follows from it.
\<close>

section \<open>One step of the ledger\<close>

lemma locked_view:
  assumes "ledger_locked E f lg = (r, lg')"
  shows "lg_store lg' = lg_store lg \<and> (\<exists>e. r = Inl e) \<or> f (lg_store lg) = (r, lg_store lg')"
  using assms by (auto simp: ledger_locked_def split: sum.splits prod.splits)

text \<open>What a process holds: a delivery that it alone may still send.\<close>

definition may_send :: "stage \<Rightarrow> string option" where
  "may_send g = (case g of Marked b _ \<Rightarrow> Some (bt_delivery_id b) | Attached b _ _ \<Rightarrow> Some (bt_delivery_id b) | _ \<Rightarrow> None)"

text \<open>What the adapter and the ledger found out for a process.\<close>

definition proof_fine :: "stage \<Rightarrow> bool" where
  "proof_fine g = (case g of
      Attached _ _ c \<Rightarrow> ca_external_claim c
    | Checked _ h turn item \<Rightarrow> bridge_hash (JStr h) \<and> bridge_safe turn \<and> bridge_safe item
    | _ \<Rightarrow> True)"

text \<open>
  \<open>P\<close> are the deliveries that left the pending state, \<open>W\<close> those that were handed to a connection and \<open>G\<close> what every
  process may still send.
\<close>

definition sole_senders :: "(string \<Rightarrow> bool) \<Rightarrow> string list \<Rightarrow> (nat \<Rightarrow> string option) \<Rightarrow> bool" where
  "sole_senders P W G = (distinct W \<and> (\<forall>i \<in> set W. P i) \<and> (\<forall>n i. G n = Some i \<longrightarrow> P i \<and> i \<notin> set W)
     \<and> (\<forall>m n i. G m = Some i \<longrightarrow> G n = Some i \<longrightarrow> m = n))"

lemma senders_mono:
  "sole_senders P W G \<Longrightarrow> (\<And>i. P i \<Longrightarrow> P' i) \<Longrightarrow> (\<And>m i. G' m = Some i \<Longrightarrow> G m = Some i) \<Longrightarrow> sole_senders P' W G'"
  unfolding sole_senders_def by blast

lemma senders_take:
  assumes "sole_senders P W G" "\<And>i. P i \<Longrightarrow> P' i" "\<not> P i" "P' i"
  shows "sole_senders P' W (G(n := Some i))"
proof -
  have "i \<notin> set W" "\<And>m. G m \<noteq> Some i" using assms(1,3) unfolding sole_senders_def by blast+
  with assms show ?thesis unfolding sole_senders_def fun_upd_def by (metis option.inject)
qed

lemma senders_spend:
  assumes "sole_senders P W G" "G n = Some i"
  shows "sole_senders P (W @ [i]) (G(n := None))"
proof -
  have "i \<notin> set W" "P i" "\<And>m. m \<noteq> n \<Longrightarrow> G m \<noteq> Some i" using assms unfolding sole_senders_def by blast+
  with assms(1) show ?thesis unfolding sole_senders_def fun_upd_def by auto
qed

definition ledger_fine :: "platform \<Rightarrow> ledger \<Rightarrow> bool" where
  "ledger_fine E lg = (flat_status E (lg_store lg) \<and> status_names E (lg_store lg) \<and> batch_move\<^sup>*\<^sup>* (\<lambda>_. None) (view E (lg_store lg)))"

definition left_pending :: "platform \<Rightarrow> ledger \<Rightarrow> string \<Rightarrow> bool" where
  "left_pending E lg i = past_pending i (view E (lg_store lg))"

definition rights :: "world \<Rightarrow> nat \<Rightarrow> string option" where
  "rights w n = may_send (wo_stage w n)"

definition senders_of :: "platform \<Rightarrow> world \<Rightarrow> bool" where
  "senders_of E w = sole_senders (left_pending E (wo_ledger w)) (map wire_id (wo_wire w)) (rights w)"

definition send_inv :: "platform \<Rightarrow> world \<Rightarrow> bool" where
  "send_inv E w = (ledger_fine E (wo_ledger w) \<and> senders_of E w \<and> (\<forall>n. proof_fine (wo_stage w n)))"

text \<open>What a step does to the ledger: it stays fine, and what left the pending state does not return.\<close>

definition ledger_moves :: "platform \<Rightarrow> ledger \<Rightarrow> ledger \<Rightarrow> bool" where
  "ledger_moves E lg lg' = (flat_status E (lg_store lg') \<and> status_names E (lg_store lg') \<and> batch_move (view E (lg_store lg)) (view E (lg_store lg')))"

lemma ledger_moves_fine: "ledger_fine E lg \<Longrightarrow> ledger_moves E lg lg' \<Longrightarrow> ledger_fine E lg'"
  unfolding ledger_fine_def ledger_moves_def by (meson rtranclp.rtrancl_into_rtrancl)

lemma ledger_moves_same: "ledger_fine E lg \<Longrightarrow> view E (lg_store lg') = view E (lg_store lg) \<Longrightarrow> flat_status E (lg_store lg') \<Longrightarrow> status_names E (lg_store lg')
    \<Longrightarrow> ledger_moves E lg lg'"
  by (simp add: ledger_moves_def batch_move.stay)

lemma ledger_moves_left: "ledger_moves E lg lg' \<Longrightarrow> left_pending E lg i \<Longrightarrow> left_pending E lg' i"
  unfolding ledger_moves_def left_pending_def using move_past_pending by blast

text \<open>The steps that give nobody a right to send.\<close>

lemma move_to_simps [simp]:
  "wo_ledger (move_to n g w) = wo_ledger w" "wo_wire (move_to n g w) = wo_wire w" "wo_stage (move_to n g w) = (wo_stage w)(n := g)"
  by (simp_all add: move_to_def)

lemma rights_simps [simp]:
  "rights (move_to n g w) = (rights w)(n := may_send g)" "rights (w\<lparr>wo_ledger := lg\<rparr>) = rights w" "rights (w\<lparr>wo_wire := x\<rparr>) = rights w"
  by (simp_all add: rights_def fun_eq_iff)

lemma send_inv_quiet:
  assumes inv: "send_inv E w" and g: "may_send g = None \<or> may_send g = may_send (wo_stage w n)" "proof_fine g"
    and mv: "ledger_moves E (wo_ledger w) lg"
  shows "send_inv E (move_to n g (w\<lparr>wo_ledger := lg\<rparr>))"
proof -
  have old: "sole_senders (left_pending E (wo_ledger w)) (map wire_id (wo_wire w)) (rights w)"
    using inv by (simp add: send_inv_def senders_of_def)
  have "sole_senders (left_pending E lg) (map wire_id (wo_wire w)) ((rights w)(n := may_send g))"
    by (rule senders_mono [OF old]) (use ledger_moves_left [OF mv] g(1) in \<open>auto simp: rights_def split: if_splits\<close>)
  then show ?thesis using inv g(2) ledger_moves_fine [OF _ mv] by (simp add: send_inv_def senders_of_def)
qed

lemma quiet_same:
  assumes "send_inv E w" and "may_send g = None \<or> may_send g = may_send (wo_stage w n)" and "proof_fine g"
  shows "send_inv E (move_to n g w)"
proof -
  have "ledger_moves E (wo_ledger w) (wo_ledger w)" using assms(1) by (simp add: send_inv_def ledger_fine_def ledger_moves_def batch_move.stay)
  from send_inv_quiet [OF assms this] show ?thesis by simp
qed

lemma may_send_after [simp]:
  "may_send (Ended e) = None" "may_send (Failing b x) = None" "may_send (Ready evs) = None" "may_send (raised S b x) = None"
  "may_send (after_prepare S r) = None" "may_send (helper_start E S evr s) = None"
  "may_send (after_accept S b ad c r) = None" "may_send (after_stale S b ad r) = None" "may_send (after_reconcile E S token b ad s) = None"
  "may_send (after_history E S sent reads tokens b ad c) = None" "may_send (after_check S b h turn item u) = None"
  "may_send (after_confirm S b h r) = None" "may_send (after_decision S b v d) = None" "may_send (after_acked S b r) = None"
  "may_send (after_load b x r) = None"
  by (auto simp: may_send_def raised_def after_prepare_def helper_start_def after_accept_def after_stale_def after_reconcile_def
      after_history_def after_check_def after_confirm_def after_decision_def after_acked_def after_load_def Let_def
      split: sum.splits list.splits prod.splits option.splits)


lemma attached_external: "attach_external_claim E b path task token ad = (Inr c, ad') \<Longrightarrow> ca_external_claim c"
  unfolding attach_external_claim_def make_capability_def
  by (auto simp: ensure_def andThen_def Let_def split: sum.splits if_splits option.splits)

lemma proof_fine_after [simp]:
  "proof_fine (Ended e)" "proof_fine (Failing b x)" "proof_fine (Ready evs)" "proof_fine (raised S b x)" "proof_fine (Unsettled b x)"
  "proof_fine (after_prepare S r)" "proof_fine (helper_start E S evr s)" "proof_fine (after_mark S b ad r)" "proof_fine (after_attach E S token b ad s)"
  "proof_fine (after_accept S b ad c r)" "proof_fine (after_stale S b ad r)" "proof_fine (after_reconcile E S token b ad s)"
  "proof_fine (after_history E S sent reads tokens b ad c)"
  "proof_fine (after_confirm S b h r)" "proof_fine (after_decision S b v d)" "proof_fine (after_acked S b r)"
  "proof_fine (after_load b x r)"
  by (auto simp: attached_external proof_fine_def raised_def after_prepare_def helper_start_def after_accept_def after_stale_def after_reconcile_def
      after_history_def after_mark_def after_attach_def after_confirm_def after_decision_def after_acked_def after_load_def Let_def
      split: sum.splits list.splits prod.splits option.splits)

lemma after_attach_sends: "may_send (after_attach E S token b ad s) \<in> {None, Some (bt_delivery_id b)}"
  by (auto simp: after_attach_def may_send_def raised_def split: sum.splits prod.splits)

lemma after_mark_sends: "may_send (after_mark S b ad r) = (case r of Inl _ \<Rightarrow> None | Inr b' \<Rightarrow> Some (bt_delivery_id b'))"
  by (auto simp: after_mark_def may_send_def raised_def split: sum.splits)

lemma do_send_ends:
  assumes "do_send E G S written reads b ad c s = (g, x)"
  shows "may_send g = None \<and> proof_fine g"
  using assms
  by (auto simp: do_send_def may_send_def proof_fine_def raised_def split: prod.splits option.splits sum.splits)

lemma in_batch_dir_ends: "in_batch_dir S b f s = (g, s') \<Longrightarrow> may_send g = None \<and> proof_fine g"
  by (auto simp: in_batch_dir_def may_send_def proof_fine_def raised_def split: option.splits prod.splits sum.splits)

lemma after_check_fine:
  assumes "ledger_locked E (\<lambda>s. (history_check E i (JStr h) turn item s, s)) lg = (r, lg')"
  shows "proof_fine (after_check S b h turn item r)" and "lg_store lg' = lg_store lg"
proof -
  have "r = history_check E i (JStr h) turn item (lg_store lg) \<and> lg_store lg' = lg_store lg \<or> (\<exists>e. r = Inl e) \<and> lg_store lg' = lg_store lg"
    using locked_view [OF assms] by auto
  then show "proof_fine (after_check S b h turn item r)" and "lg_store lg' = lg_store lg"
    by (auto simp: after_check_def proof_fine_def raised_def history_check_def ensure_def split: sum.splits if_splits)
qed

section \<open>Every step\<close>

text \<open>The one step that takes the right to send.\<close>

context json_codec
begin

lemma step_moves: "ledger_step E lg lg' \<Longrightarrow> ledger_fine E lg \<Longrightarrow> ledger_moves E lg lg'"
  using step_simulates [of lg lg'] step_names [of lg lg'] by (simp add: ledger_fine_def ledger_moves_def)

lemma mark_keeps:
  assumes inv: "send_inv E w" and run: "ledger_locked E (mark_sending (at_pid p E) flt i) (wo_ledger w) = (r, lg)"
  shows "send_inv E (move_to n (after_mark S b ad r) (w\<lparr>wo_ledger := lg\<rparr>))"
proof -
  have mv: "ledger_moves E (wo_ledger w) lg"
    by (rule step_moves [OF ledger_step.sending [OF run]]) (use inv in \<open>simp add: send_inv_def\<close>)
  show ?thesis
  proof (cases r)
    case (Inl e)
    show ?thesis by (rule send_inv_quiet [OF inv _ _ mv]) (simp_all add: Inl after_mark_sends)
  next
    case (Inr b')
    have "mark_sending (at_pid p E) flt i (lg_store (wo_ledger w)) = (Inr b', lg_store lg)" using locked_view [OF run] Inr by simp
    from mark_sending_done [OF this] inv
    have marked: "bt_delivery_id b' = i" "\<not> left_pending E (wo_ledger w) i" "left_pending E lg i"
      by (simp_all add: send_inv_def ledger_fine_def left_pending_def)
    have st: "may_send (after_mark S b ad r) = Some i" using Inr marked(1) by (simp add: after_mark_sends)
    have old: "sole_senders (left_pending E (wo_ledger w)) (map wire_id (wo_wire w)) (rights w)"
      using inv by (simp add: send_inv_def senders_of_def)
    have "sole_senders (left_pending E lg) (map wire_id (wo_wire w)) ((rights w)(n := Some i))"
      by (rule senders_take [OF old]) (use ledger_moves_left [OF mv] marked in auto)
    then show ?thesis using inv st ledger_moves_fine [OF _ mv] by (simp add: send_inv_def senders_of_def)
  qed
qed

lemma do_send_wire:
  assumes inv: "send_inv E w" and at: "wo_stage w n = Attached b ad c"
    and run: "do_send E G S written reads b ad c (lg_store (wo_ledger w)) = (g, Some v)"
  shows "wire_id v = bt_delivery_id b"
proof -
  let ?s = "lg_store (wo_ledger w)" and ?i = "bt_delivery_id b"
  define d where "d = (case batch_dir_of ?s b of Some d \<Rightarrow> d | None \<Rightarrow> new_dir E)"
  have "proof_fine (wo_stage w n)" using inv by (simp add: send_inv_def)
  then have ext: "ca_external_claim c" by (simp add: at proof_fine_def)
  obtain r ad' d' where "send_tool_output_once E G (JInt 2) (JBool False) c written reads ad d = (r, Some v, ad', d')"
    using run unfolding do_send_def d_def [symmetric] by (auto split: prod.splits option.splits sum.splits)
  from external_send_names [OF this ext] obtain st t where st: "stable_json E d status_file = Inr st"
    and t: "dget st ''delivery_id'' = JStr t" "dget v ''delivery_id'' = JStr t" by blast
  have "rights w n = Some ?i" by (simp add: at may_send_def rights_def)
  then have "left_pending E (wo_ledger w) ?i" using inv unfolding send_inv_def senders_of_def sole_senders_def by blast
  then have name: "delivery_name ?i" by (auto simp: left_pending_def past_pending_def view_def split: if_splits)
  have "batch_dir_of ?s b = Some d"
    using st by (cases "batch_dir_of ?s b") (simp_all add: d_def stable_json_def new_dir_def)
  then have "map_of ?s ?i = Some (EDir d)" by (auto simp: batch_dir_of_def split: option.splits entry.splits)
  then have "dget st ''delivery_id'' = JStr ?i" using inv name st unfolding send_inv_def ledger_fine_def status_names_def by blast
  then show ?thesis using t by (simp add: wire_id_def)
qed

lemma send_keeps:
  assumes inv: "send_inv E w" and at: "wo_stage w n = Attached b ad c"
    and run: "do_send E G S written reads b ad c (lg_store (wo_ledger w)) = (g, x)"
  shows "send_inv E (move_to n g (w\<lparr>wo_wire := wo_wire w @ wire_entry x\<rparr>))"
proof (cases x)
  case None
  then show ?thesis using quiet_same [OF inv] do_send_ends [OF run] by (simp add: wire_entry_def)
next
  case (Some v)
  have me: "rights w n = Some (bt_delivery_id b)" by (simp add: at may_send_def rights_def)
  have "sole_senders (left_pending E (wo_ledger w)) (map wire_id (wo_wire w)) (rights w)"
    using inv by (simp add: send_inv_def senders_of_def)
  from senders_spend [OF this me]
  show ?thesis using inv do_send_ends [OF run] do_send_wire [OF inv at run [unfolded Some]]
    by (simp add: send_inv_def senders_of_def wire_entry_def Some)
qed

lemma world_step_keeps:
  assumes "world_step E G S w w'" and inv: "send_inv E w"
  shows "send_inv E w'"
proof -
  have fine: "ledger_fine E (wo_ledger w)" using inv by (simp add: send_inv_def)
  then have flat: "flat_status E (lg_store (wo_ledger w))" and names: "status_names E (lg_store (wo_ledger w))" by (simp_all add: ledger_fine_def)
  have quiet: "send_inv E (move_to n g (w\<lparr>wo_ledger := lg\<rparr>))" if "ledger_step E (wo_ledger w) lg" "may_send g = None" "proof_fine g" for n g lg
    by (rule send_inv_quiet [OF inv disjI1 [OF that(2)] that(3) step_moves [OF that(1) fine]])
  have looked: "send_inv E (move_to n g (w\<lparr>wo_ledger := lg\<rparr>))"
    if "lg_store lg = lg_store (wo_ledger w)" "may_send g = None" "proof_fine g" for n g lg
    by (rule send_inv_quiet [OF inv disjI1 [OF that(2)] that(3) ledger_moves_same [OF fine]]) (simp_all add: that(1) flat names)
  have beside_keeps: "send_inv E (move_to n g (w\<lparr>wo_ledger := (wo_ledger w)\<lparr>lg_store := s\<rparr>\<rparr>))"
    if "in_batch_dir (S n) b f (lg_store (wo_ledger w)) = (g, s)" "\<And>d r d'. f d = (r, d') \<Longrightarrow> beside d d'" for n g b f s
    by (rule send_inv_quiet [OF inv _ _ ledger_moves_same [OF fine]])
       (use in_batch_dir_view [OF that flat] in_batch_dir_names [OF that names] in_batch_dir_ends [OF that(1)] in simp_all)
  show ?thesis using assms(1)
  proof cases
    case (others lg)
    have "send_inv E (move_to 0 (wo_stage w 0) (w\<lparr>wo_ledger := lg\<rparr>))"
      by (rule send_inv_quiet [OF inv disjI2 [OF refl] _ step_moves [OF others(2) fine]]) (use inv in \<open>simp add: send_inv_def\<close>)
    then show ?thesis using others(1) by (simp add: move_to_def)
  next
    case (start n fetched g lg)
    have "lg_store lg = lg_store (wo_ledger w) \<and> g = helper_start E (S n) fetched (lg_store (wo_ledger w))"
      using locked_view [OF start(4)] by auto
    then show ?thesis using looked start(1) by simp
  next
    case (prepare n events flt killed r lg)
    show ?thesis unfolding prepare(1) by (rule quiet [OF ledger_step.prepare [OF prepare(3,4)]]) simp_all
  next
    case (mark n b ad p flt r lg)
    show ?thesis unfolding mark(1) by (rule mark_keeps [OF inv mark(3)])
  next
    case (attach n b ad token)
    show ?thesis unfolding attach(1)
      by (rule quiet_same [OF inv]) (use after_attach_sends [of E "S n" token b ad] attach(2) in \<open>auto simp: may_send_def [of "Marked b ad"]\<close>)
  next
    case (send n b ad c written reads g x)
    show ?thesis unfolding send(1) by (rule send_keeps [OF inv send(2,3)])
  next
    case (accept n b ad c turn p flt r lg)
    show ?thesis unfolding accept(1) by (rule quiet [OF ledger_step.accepted [OF accept(3)]]) simp_all
  next
    case (stale n b ad p flt r lg)
    show ?thesis unfolding stale(1) by (rule quiet [OF ledger_step.uncertain [OF stale(3)]]) simp_all
  next
    case (check n b h turn item r lg)
    have "may_send (after_check (S n) b h turn item r) = None" by simp
    then show ?thesis unfolding check(1) by (rule looked [OF after_check_fine(2) [OF check(3)] _ after_check_fine(1) [OF check(3)]])
  next
    case (confirm n b h turn item p flt r lg)
    have "proof_fine (wo_stage w n)" using inv by (simp add: send_inv_def)
    then have "bridge_hash (JStr h)" "bridge_safe turn" "bridge_safe item" by (simp_all add: confirm(2) proof_fine_def)
    from ledger_step.confirm [OF this confirm(3)] show ?thesis unfolding confirm(1) by (rule quiet) simp_all
  next
    case (ack n b decisions K g s)
    show ?thesis unfolding ack(1) by (rule beside_keeps [OF ack(3) [unfolded do_ack_def]]) (rule ack_beside)
  next
    case (replay n b K g s)
    show ?thesis unfolding replay(1) by (rule beside_keeps [OF replay(3) [unfolded do_replay_def]]) (rule replay_beside)
  next
    case (acked n b h p flt r lg)
    show ?thesis unfolding acked(1) by (rule quiet [OF ledger_step.acked [OF acked(3)]]) simp_all
  next
    case (load n b e r lg)
    have "lg_store lg = lg_store (wo_ledger w)" using locked_view [OF load(3)] by auto
    then show ?thesis unfolding load(1) by (rule looked) simp_all
  next
    case (unsettled n b e p flt r lg)
    show ?thesis unfolding unsettled(1) by (rule quiet [OF ledger_step.uncertain [OF unsettled(3)]]) simp_all
  qed (auto intro: quiet_same [OF inv])
qed

lemma fresh_names: "status_names E (lg_store fresh_ledger)"
  by (simp add: status_names_def fresh_ledger_def)

lemma fresh_world_inv: "send_inv E fresh_world"
  by (simp add: send_inv_def ledger_fine_def senders_of_def sole_senders_def rights_def may_send_def proof_fine_def fresh_world_def
      fresh_names)

lemma worlds_inv:
  assumes "(world_step E G S)\<^sup>*\<^sup>* fresh_world w"
  shows "send_inv E w"
  using assms by (induction rule: rtranclp_induct) (auto intro: fresh_world_inv world_step_keeps)

end

end
