(* ===== verification/DriverClaims.thy ===== *)
theory DriverClaims
  imports DriverSafety
begin

text \<open>
  The claims on the processes of the product bridge.
\<close>

section \<open>A run\<close>

definition sample_session :: session where
  "sample_session = \<lparr>ss_helper = True, ss_attachment = sample_attachment, ss_task = ''task'', ss_bridge_root = ''/tmp'',
     ss_client = \<lparr>cl_executable = ''/bin/go'', cl_sha256 = [], cl_fake = False\<rparr>, ss_control_file = ''/control''\<rparr>"

lemma locked_again:
  "ledger_locked std_platform f \<lparr>lg_lock = LockFile (fl_stat (new_file std_platform [])), lg_store = s\<rparr>
     = (fst (f s), \<lparr>lg_lock = LockFile (fl_stat (new_file std_platform [])), lg_store = snd (f s)\<rparr>)"
  by (simp add: ledger_locked_def open_lock_def split: prod.splits)

lemma sample_start:
  "helper_start std_platform sample_session (Inr [sample_row]) [] = Ready [sample_row]"
  by (simp add: helper_start_def open_batches_def thread_of_def sample_session_def)

lemma load_unlocked_id: "load_unlocked E i s = Inr b \<Longrightarrow> bt_delivery_id b = i"
  by (auto simp: load_unlocked_def dest: load_dir_id split: option.splits entry.splits)

lemma mark_sending_id: "mark_sending E flt i s = (Inr b, s') \<Longrightarrow> bt_delivery_id b = i"
  by (auto simp: mark_sending_def transition_def replace_status_def dest: load_unlocked_id
      split: sum.splits option.splits entry.splits prod.splits if_splits)

lemma sample_world:
  "\<exists>w v. (world_step std_platform sample_go (\<lambda>_. sample_session))\<^sup>*\<^sup>* fresh_world w \<and> wo_wire w = [v]"
proof -
  let ?step = "world_step std_platform sample_go (\<lambda>_. sample_session)" and ?lock = "LockFile (fl_stat (new_file std_platform []))"
  from sample_marked obtain s1 s2 b1
    where p: "prepare_unlocked std_platform None False sample_attachment ''task'' sample_native sample_source [] = (Inr sample_batch, s1)"
      and m: "mark_sending std_platform None sample_id s1 = (Inr b1, s2)" by blast
  have where_to: "is_absolute (batch_path sample_session sample_batch)" "(0 :: int) < 2"
    by (simp_all add: batch_path_def sample_session_def is_absolute_def starts_with_def)
  from ledger_envelope_sent [OF std.json_codec_axioms sample_sha sample_attachment_ok sample_project sample_side(1,2) refl sample_side(3) p m
      sample_small sample_side(4) where_to sample_side(7), of "''cap''" sample_go False]
  obtain d c ad' ad'' where d: "map_of s2 sample_id = Some (EDir d)"
    and att: "attach_external_claim std_platform (owner_bd sample_attachment sample_id) (batch_path sample_session sample_batch) (Some d) ''cap'' sample_adapter = (Inr c, ad')"
    and rq: "send_request std_platform sample_go (JInt 2) (JBool False) c ad' d = (Inr (obj_of (sort_keys (JObj (bt_envelope b1)))), ad'', d)" by blast
  let ?v = "obj_of (sort_keys (JObj (bt_envelope b1)))"
  define w1 where "w1 = move_to 0 (Ready [sample_row]) (fresh_world\<lparr>wo_ledger := \<lparr>lg_lock = ?lock, lg_store = []\<rparr>\<rparr>)"
  define w2 where "w2 = move_to 0 (Prepared sample_batch sample_adapter) (w1\<lparr>wo_ledger := \<lparr>lg_lock = ?lock, lg_store = s1\<rparr>\<rparr>)"
  define w3 where "w3 = move_to 0 (Marked b1 sample_adapter) (w2\<lparr>wo_ledger := \<lparr>lg_lock = ?lock, lg_store = s2\<rparr>\<rparr>)"
  define w4 where "w4 = move_to 0 (Attached b1 ad' c) w3"
  have flds: "ss_helper sample_session" "ss_attachment sample_session = sample_attachment" "ss_task sample_session = ''task''"
    by (simp_all add: sample_session_def)
  have "ledger_locked std_platform (\<lambda>s. (Inr (helper_start std_platform sample_session (Inr [sample_row]) s), s)) fresh_ledger
      = (Inr (Ready [sample_row]), \<lparr>lg_lock = ?lock, lg_store = []\<rparr>)" by (simp add: locked_fresh sample_start)
  from world_step.start [where w = fresh_world and n = 0 and S = "\<lambda>_. sample_session", OF _ flds(1)] this
  have s1: "?step fresh_world w1" unfolding w1_def by (simp add: fresh_world_def)
  have pr: "prepare_and_claim std_platform None False sample_attachment ''task'' [sample_row] (wo_ledger w1) = (Inr sample_batch, \<lparr>lg_lock = ?lock, lg_store = s1\<rparr>)"
    using p by (simp add: w1_def prepare_and_claim_def sample_project locked_again)
  have ready: "after_prepare sample_session (Inr sample_batch) = Prepared sample_batch sample_adapter"
  proof -
    have "for_external (JStr (oa_owner_context_sha256 sample_attachment)) = Inr sample_adapter"
      by (simp add: for_external_def sample_attachment_def sample_adapter_def sample_args(3))
    then show ?thesis unfolding after_prepare_def flds by (simp add: sample_thread(2))
  qed
  have st1: "wo_stage w1 0 = Ready [sample_row]" by (simp add: w1_def)
  have s2: "?step w1 w2"
    using world_step.prepare [where S = "\<lambda>_. sample_session" and E = std_platform and G = sample_go, unfolded flds, OF st1 sample_attachment_ok pr]
    unfolding ready w2_def .
  have st2: "wo_stage w2 0 = Prepared sample_batch sample_adapter" by (simp add: w2_def)
  have i: "bt_delivery_id sample_batch = sample_id" by (simp add: prepared_batch_def)
  have "ledger_locked std_platform (mark_sending (at_pid (p_pid std_platform) std_platform) None (bt_delivery_id sample_batch)) (wo_ledger w2) = (Inr b1, \<lparr>lg_lock = ?lock, lg_store = s2\<rparr>)"
    using m by (simp add: w2_def i locked_again)
  from world_step.mark [where S = "\<lambda>_. sample_session" and G = sample_go, OF st2 this]
  have s3: "?step w2 w3" by (simp add: w3_def after_mark_def)
  have id1: "bt_delivery_id b1 = sample_id" by (rule mark_sending_id [OF m])
  have st3: "wo_stage w3 0 = Marked b1 sample_adapter" by (simp add: w3_def)
  have dir: "batch_dir_of s2 b1 = Some d" "batch_path sample_session b1 = batch_path sample_session sample_batch"
    "binding_of sample_session b1 = owner_bd sample_attachment sample_id" by (simp_all add: batch_dir_of_def id1 i d batch_path_def binding_of_def flds)
  have "after_attach std_platform sample_session ''cap'' b1 sample_adapter s2 = Attached b1 ad' c"
    unfolding after_attach_def dir att by simp
  then have s4: "?step w3 w4"
    using world_step.attach [where S = "\<lambda>_. sample_session" and E = std_platform and G = sample_go and token = "''cap''", OF st3] by (simp add: w3_def w4_def)
  have st4: "wo_stage w4 0 = Attached b1 ad' c" by (simp add: w4_def)
  have "do_send std_platform sample_go sample_session (\<lambda>_. os_error) [] b1 ad' c (lg_store (wo_ledger w4)) = (raised sample_session b1 (Raised ''OSError'' []), Some ?v)"
    unfolding w4_def w3_def do_send_def send_tool_output_once_def by (simp add: dir rq)
  from world_step.send [where S = "\<lambda>_. sample_session", OF st4 this]
  have s5: "?step w4 (move_to 0 (raised sample_session b1 (Raised ''OSError'' [])) (w4\<lparr>wo_wire := wo_wire w4 @ wire_entry (Some ?v)\<rparr>))" .
  have "wo_wire w4 = []" by (simp add: w4_def w3_def w2_def w1_def fresh_world_def)
  then have "wo_wire (move_to 0 (raised sample_session b1 (Raised ''OSError'' [])) (w4\<lparr>wo_wire := wo_wire w4 @ wire_entry (Some ?v)\<rparr>)) = [?v]"
    by (simp add: wire_entry_def)
  moreover have "?step\<^sup>*\<^sup>* fresh_world (move_to 0 (raised sample_session b1 (Raised ''OSError'' [])) (w4\<lparr>wo_wire := wo_wire w4 @ wire_entry (Some ?v)\<rparr>))"
    using s1 s2 s3 s4 s5 by (meson converse_rtranclp_into_rtranclp rtranclp.rtrancl_refl)
  ultimately show ?thesis by blast
qed

text \<open>
  C6. A delivery is handed to a connection at most once in the life of a ledger: however many drivers and
  helpers share it, however their steps and other uses of the ledger interleave, and wherever a process
  fails, is rejected, waits for ever or ends (inside a write of the ledger, between the send and its
  answer), no two of the envelopes that were handed to any connection have the same delivery
  identifier, and a delivery that was handed over is not pending any more.\<close>

theorem driver_sends_at_most_once:
  assumes "json_codec E" and "(world_step E G S)\<^sup>*\<^sup>* fresh_world w"
  shows "distinct (map wire_id (wo_wire w)) \<and>
    (\<forall>v b. v \<in> set (wo_wire w) \<longrightarrow> load_unlocked E (wire_id v) (lg_store (wo_ledger w)) = Inr b \<longrightarrow> bt_status b \<noteq> ''pending'')"
proof -
  have "sole_senders (left_pending E (wo_ledger w)) (map wire_id (wo_wire w)) (rights w)"
    using json_codec.worlds_inv [OF assms] by (simp add: send_inv_def senders_of_def)
  then show ?thesis
    by (auto simp: sole_senders_def left_pending_def past_pending_def ledger_loads [symmetric])
qed

theorem driver_sends_at_most_once_witness:
  "\<exists>w v. (world_step std_platform sample_go (\<lambda>_. sample_session))\<^sup>*\<^sup>* fresh_world w \<and> wo_wire w = [v] \<and> distinct (map wire_id (wo_wire w))"
  using sample_world driver_sends_at_most_once [OF std.json_codec_axioms] by meson

end
