(* ===== verification/Spec2Isabelle.thy ===== *)
theory Spec2Isabelle
  imports OwnerSession OwnerBind AckRequest AdapterProps AuthGuard RelayStreams ResumeProps ReceiptStore
    HomeProps SnapshotProps EntryProps HistoryProps DriverClaims
begin

text \<open>
  Verification of the native delivery runtime of the Codex orchestrator.

  The program. A terminal program (the frontend) talks JSON-RPC over WebSocket to a private backend. The
  activation service (\<open>runtime/native/activation_service.py\<close>) admits the frontend, starts the backend in an
  isolated profile (\<open>runtime/native/auth_isolation.py\<close>) and relays the bytes of both directions; a copy of them goes to the wire observer
  (\<open>runtime/native/proxy_observer.py\<close>), whose records the metadata sink of the service follows until a
  connection is ready. An owner helper (\<open>runtime/native/owner_helper.py\<close>) may attach to a ready connection
  with a grant; what it sends and receives passes the native byte gate, and during a trial everything
  passes the authentication gate (\<open>plugins/codex-orchestrator/lib/trial/auth_wire.py\<close>) with the policy of
  \<open>rpc_policy.py\<close> and the environment guard of \<open>auth_guard.py\<close>. Events of the controller are delivered
  to the owner's thread in batches: the delivery ledger and the control-plane client
  (\<open>plugins/codex-orchestrator/lib/native_bridge/bridge.py\<close>) keep them on disk, the delivery adapter
  (\<open>runtime/native/delivery_adapter.py\<close>) claims, sends and acknowledges them with the Go program, and the
  audit (\<open>runtime/native/delivery_audit.py\<close>) checks from captured reads that a batch was seen exactly once.
  The processes that do all this, drivers and helpers, run
  \<open>plugins/codex-orchestrator/scripts/native-product-bridge.py\<close>, which checks every file it imports first.

  The theories.
  \<^item> \<open>Prelude\<close>, \<open>PyJson\<close>, \<open>JsonText\<close>, \<open>JsonScan\<close>, \<open>Utf8\<close>, \<open>Base64\<close>: results with exceptions as values, Python
    dictionaries as association lists, JSON values with Python's equality and truth, the printer and the
    checks of \<open>json.loads\<close>, and the byte codecs with their round trips; the locale of simulations.
  \<^item> \<open>RpcPolicy\<close>: \<open>rpc_policy.py\<close>. \<open>AuthGuard\<close>: \<open>auth_guard.py\<close>; the guarded environment is characterised
    for every observation.
  \<^item> \<open>DeliveryAudit\<close>: the envelope of a delivery, the scan of captured reads, the acknowledgement check.
  \<^item> \<open>HelperRpc\<close>, \<open>WebSocket\<close>, \<open>WireGate\<close>, \<open>OwnerSession\<close>: \<open>owner_helper.py\<close> - the validators of helper requests
    and server messages, the frame codec and its round trip, the byte gate (bounded, transparent for
    admitted traffic, releasing nothing else), the helper connection and the life of a lease.
  \<^item> \<open>AuthWire\<close>: \<open>auth_wire.py\<close>. \<open>WireChain\<close>: the composition of both gates as the service builds it.
  \<^item> \<open>FileStore\<close>, \<open>Bridge\<close>, \<open>Ledger\<close>, \<open>ControlPlane\<close>, \<open>AckRequest\<close>, \<open>OwnerBind\<close>: \<open>bridge.py\<close> - a directory tree
    with atomic operations that may fail or stop at any point, the owner attachment and capability
    store, the ledger, the control-plane client and its requests. \<open>LedgerProps\<close>, \<open>LedgerMachine\<close> and
    \<open>LedgerSafety\<close> hold its invariants, its step-by-step refinement of the abstract machine of batches
    (every run of the ledger, faults included, moves its view only as the machine allows) and the
    consequences: one open delivery per thread, states that only advance, preparation that is atomic and
    leaves every other batch as it was.
  \<^item> \<open>DeliveryAdapter\<close>, \<open>AdapterProps\<close>: \<open>delivery_adapter.py\<close>; what is sent is what the ledger keeps, it
    is sent at most once, and acknowledgements follow the proof and the decisions.
  \<^item> \<open>Observer\<close>, \<open>ObserverFeed\<close>: \<open>proxy_observer.py\<close> and the observer class of the service. \<open>ObserverLog\<close> breaks
    every operation into small moves, \<open>ObserverRuns\<close> proves the history invariant once per move,
    \<open>ObserverChunks\<close> shows that cutting the byte stream differently does not matter and that the frame
    loop ends, \<open>ObserverProps\<close> states the properties.
  \<^item> \<open>MetadataSink\<close>: the sink of \<open>activation_service.py\<close>. \<open>SinkTrace\<close> has the invariants of the replay of
    records, behind the interface \<open>replay_invariant\<close>; \<open>SinkRuns\<close> turns an invariant of the replay into
    an invariant of every run of a sink; \<open>SinkProps\<close> has the properties of the ready receipt.
  \<^item> \<open>Relay\<close>: the relay of \<open>proxy_transport.py\<close> - connections that are accepted, started, pumped and ended,
    with the gates between reading and writing and one observation before every write. \<open>RelayRuns\<close> keeps
    the history of a recording sink against the links, \<open>RelayProps\<close> has the properties of the relay alone.
    \<open>RelaySink\<close> joins it with the metadata sink behind the interface \<open>capture_client\<close>, so that a run of the
    relay is a run of the sink; \<open>RelayStreams\<close> compares the counters of the sink with the wire.
  \<^item> \<open>PolicyFiles\<close>: canonical paths, pinned digests, owner-only files and directories, the identity of
    processes and the frozen policy of \<open>activation_service.py\<close>. \<open>Admission\<close>: the admission of owners and
    helpers, the ready receipt and the leases, the connection of a helper, the proof of a resumed owner.
    \<open>AdmissionRuns\<close> and \<open>AdmissionProps\<close> have the runs of the service and the invariant of its
    admissions, \<open>LeaseProps\<close> and \<open>ResumeProps\<close> the properties.
  \<^item> \<open>ReceiptStore\<close>: \<open>receipt_store.py\<close>; a receipt that was read is pinned.
  \<^item> \<open>Isolation\<close>, \<open>Sandbox\<close>, \<open>IsolationHome\<close>, \<open>Snapshot\<close>: \<open>auth_isolation.py\<close> - the checks of an isolated profile
    and the loading from its manifest, the clean environment, the text of the sandbox profile and the
    launch plan, the directories of a new home, the snapshots of credential files. \<open>SandboxProps\<close> reads the
    sandbox profile back, \<open>IsolationProps\<close>, \<open>HomeProps\<close> and \<open>SnapshotProps\<close> have what loading, launching,
    preparing and comparing guarantee.

  \<^item> \<open>BridgeEntry\<close>, \<open>BridgeDriver\<close>, \<open>DriverMachine\<close>: \<open>native-product-bridge.py\<close> - the stable reads and the check
    of the pinned runtime, the polling of events and the search of the history, and the delivery of one
    batch stage by stage by any number of processes that share a ledger. \<open>EntryProps\<close> shows that
    only pinned files are accepted for the import, \<open>HistoryProps\<close> that the proof of an arrival is exact. \<open>DriverProps\<close>, \<open>DriverNames\<close> and
    \<open>DriverSafety\<close> build the invariant of all processes (who may still send what), \<open>DriverClaims\<close> concludes
    that no delivery is sent twice.

  State and errors. A class becomes a record, its methods functions from the old to the new record; an
  exception is the left side of a sum (\<open>Raised\<close> with the class and the code). Where the code awaits,
  the operation is split into the parts between which another task may run, and the properties range over
  every order of the parts. Loops are recursive functions with termination proofs (the measure is the
  buffer that is left); no fuel is used.

  Arguments of the model. What the operating system, the Go program, the random generator, the digests
  and the scanner of \<open>json.loads\<close> answer are arguments of the definitions that use them; writes that fail
  or end in the middle of a sequence, before the file exists or with any part of its bytes, are described
  by a fault that every theorem quantifies.

  Restrictions. The relay with the metadata sink (\<open>metadata_capture\<close>) takes the lease of a connection and the
  outcome of a publication as functions that stay the same for a run, where \<open>_protocol_lease\<close> and
  \<open>_publish_ready\<close> read the records of the leased backends as they are at that moment; those records are
  modelled in \<open>Admission\<close>, not joined with the relay. The runs of the service (\<open>AdmissionRuns\<close>) publish a
  receipt only for a lease that is not released yet, which is the order in which the relay calls the two;
  \<open>_publish_ready\<close> itself does not check it.

  Not modelled. The scheduling of \<open>asyncio\<close> beyond the split points and its timeouts, starting and stopping
  of subprocesses (\<open>owned_child_guard.py\<close>, the process part of the leased backend), the socket file and the
  peer credentials of \<open>proxy_transport.py\<close>, the constructor and the idle loop of the service, the meaning
  of the sandbox language, the start of the driver and of the helper and the status files they write, and
  the experiment scripts under \<open>tasks\<close>, which drive the modules above or are earlier copies of them. Strings are sequences of
  bytes or code points as the code uses them; lone surrogates, upper-casing outside ASCII and floats
  outside the exact range do not occur in the model. The observer's callback does not call the observer
  back. The Go part of the repository is not looked at.
\<close>

end
